(* ===== verification/Py_Base.thy ===== *)
theory Py_Base
  imports Complex_Main "HOL-Library.AList" "HOL-Library.Char_ord" "HOL-Library.List_Lexorder"
begin

text \<open>
  The prelude: results of Python calls as sums (\<open>Inl\<close> an exception, \<open>Inr\<close> a value), Python
  dicts as association lists with in-place update, and the string methods the sources use.
  A \<open>str\<close> is the list of its UTF-8 bytes; \<open>lower\<close>, \<open>isdigit\<close> and \<open>strip\<close> act on ASCII.
  A Python \<open>float\<close> is a rational: the arithmetic of the model is exact.
\<close>

named_theorems res_simps \<open>unfolding sequenced results\<close>
named_theorems dict_simps \<open>lookups after dict updates\<close>
named_theorems str_simps \<open>string methods on concrete text\<close>

type_synonym pyfloat = rat

section \<open>Results\<close>

fun bindR :: "'e + 'a \<Rightarrow> ('a \<Rightarrow> 'e + 'b) \<Rightarrow> 'e + 'b" where
  "bindR (Inl e) f = Inl e"
| "bindR (Inr a) f = f a"

declare bindR.simps [res_simps]

lemma bindR_eq_Inr_iff [res_simps]:
  "bindR r f = Inr b \<longleftrightarrow> (\<exists>a. r = Inr a \<and> f a = Inr b)"
  by (cases r) auto

lemma bindR_eq_Inl_iff:
  "bindR r f = Inl e \<longleftrightarrow> r = Inl e \<or> (\<exists>a. r = Inr a \<and> f a = Inl e)"
  by (cases r) auto

lemma bindR_assoc: "bindR (bindR r f) g = bindR r (\<lambda>a. bindR (f a) g)"
  by (cases r) auto

fun mapR :: "('a \<Rightarrow> 'e + 'b) \<Rightarrow> 'a list \<Rightarrow> 'e + 'b list" where
  "mapR f [] = Inr []"
| "mapR f (x # xs) = bindR (f x) (\<lambda>y. bindR (mapR f xs) (\<lambda>ys. Inr (y # ys)))"

lemma mapR_total: "(\<And>x. x \<in> set xs \<Longrightarrow> f x = Inr (g x)) \<Longrightarrow> mapR f xs = Inr (map g xs)"
  by (induction xs) auto

section \<open>Dicts\<close>

type_synonym ('k, 'v) dict = "('k \<times> 'v) list"

abbreviation dget :: "('k, 'v) dict \<Rightarrow> 'k \<Rightarrow> 'v option" where
  "dget d k \<equiv> map_of d k"

abbreviation dput :: "'k \<Rightarrow> 'v \<Rightarrow> ('k, 'v) dict \<Rightarrow> ('k, 'v) dict" where
  "dput k v d \<equiv> AList.update k v d"

abbreviation ddel :: "'k \<Rightarrow> ('k, 'v) dict \<Rightarrow> ('k, 'v) dict" where
  "ddel k d \<equiv> AList.delete k d"

definition dget_or :: "('k, 'v) dict \<Rightarrow> 'k \<Rightarrow> 'v \<Rightarrow> 'v" where
  "dget_or d k dflt = (case dget d k of None \<Rightarrow> dflt | Some v \<Rightarrow> v)"

definition wf_dict :: "('k, 'v) dict \<Rightarrow> bool" where
  "wf_dict d \<longleftrightarrow> distinct (map fst d)"

lemma dget_dput [simp, dict_simps]:
  "dget (dput k v d) k' = (if k' = k then Some v else dget d k')"
  by (simp add: update_conv')

lemma dget_ddel [simp, dict_simps]:
  "dget (ddel k d) k' = (if k' = k then None else dget d k')"
  by (simp add: delete_conv')

lemma wf_dict_dput [simp, intro]: "wf_dict d \<Longrightarrow> wf_dict (dput k v d)"
  by (simp add: wf_dict_def distinct_update)

lemma wf_dict_ddel [simp, intro]: "wf_dict d \<Longrightarrow> wf_dict (ddel k d)"
  by (simp add: wf_dict_def distinct_delete)

lemma wf_dict_Nil [simp]: "wf_dict []"
  by (simp add: wf_dict_def)

lemma wf_dict_Cons [simp]:
  "wf_dict ((k, v) # d) \<longleftrightarrow> dget d k = None \<and> wf_dict d"
  by (auto simp: wf_dict_def map_of_eq_None_iff)

lemma dget_iff_mem: "wf_dict d \<Longrightarrow> dget d k = Some v \<longleftrightarrow> (k, v) \<in> set d"
  by (simp add: wf_dict_def)

lemma dput_same: "dget d k = Some v \<Longrightarrow> wf_dict d \<Longrightarrow> dput k v d = d"
  by (induction d) (auto split: if_splits)

lemma dput_fresh: "dget d k = None \<Longrightarrow> dput k v d = d @ [(k, v)]"
  by (induction d) (auto split: if_splits)

lemma keys_dput: "fst ` set (dput k v d) = insert k (fst ` set d)"
  by (induction d) auto

lemma mem_dput: "(k', v') \<in> set (dput k v d) \<Longrightarrow> (k' = k \<and> v' = v) \<or> (k', v') \<in> set d"
  by (induction d) (auto split: if_splits)

text \<open>\<open>{**d, **e}\<close>: the entries of \<open>e\<close> override those of \<open>d\<close>.\<close>

definition dmerge :: "('k, 'v) dict \<Rightarrow> ('k, 'v) dict \<Rightarrow> ('k, 'v) dict" where
  "dmerge d e = fold (\<lambda>(k, v) acc. dput k v acc) e d"

lemma dget_fold_dput:
  "dget (fold (\<lambda>(k, v) acc. dput k v acc) e d) x =
     (case dget (rev e) x of None \<Rightarrow> dget d x | Some v \<Rightarrow> Some v)"
  by (induction e arbitrary: d) (auto simp: map_add_def split: option.splits)

lemma map_of_rev_wf: "wf_dict e \<Longrightarrow> dget (rev e) x = dget e x"
proof (induction e)
  case (Cons p e)
  obtain k v where p: "p = (k, v)" by (cases p)
  with Cons show ?case
    by (auto simp: map_add_def split: option.splits)
qed simp

lemma dget_dmerge:
  "wf_dict e \<Longrightarrow> dget (dmerge d e) x = (case dget e x of None \<Rightarrow> dget d x | Some v \<Rightarrow> Some v)"
  by (simp add: dmerge_def dget_fold_dput map_of_rev_wf)

section \<open>Strings\<close>

definition ascii_lower :: "char \<Rightarrow> char" where
  "ascii_lower c =
     (let n = of_char c :: nat in if 65 \<le> n \<and> n \<le> 90 then char_of (n + 32) else c)"

definition lower :: "string \<Rightarrow> string" where
  "lower s = map ascii_lower s"

definition startswith :: "string \<Rightarrow> string \<Rightarrow> bool" where
  "startswith s p \<longleftrightarrow> take (length p) s = p"

definition endswith :: "string \<Rightarrow> string \<Rightarrow> bool" where
  "endswith s p \<longleftrightarrow> startswith (rev s) (rev p)"

text \<open>\<open>contains p s\<close> is Python's \<open>p in s\<close>.\<close>

fun contains :: "string \<Rightarrow> string \<Rightarrow> bool" where
  "contains p [] = (p = [])"
| "contains p (c # s) = (startswith (c # s) p \<or> contains p s)"

definition is_digit :: "char \<Rightarrow> bool" where
  "is_digit c \<longleftrightarrow> (let n = of_char c :: nat in 48 \<le> n \<and> n \<le> 57)"

definition isdigit :: "string \<Rightarrow> bool" where
  "isdigit s \<longleftrightarrow> s \<noteq> [] \<and> list_all is_digit s"

definition digit_val :: "char \<Rightarrow> int" where
  "digit_val c = int (of_char c) - 48"

definition int_of_digits :: "string \<Rightarrow> int" where
  "int_of_digits s = foldl (\<lambda>n c. 10 * n + digit_val c) 0 s"

definition is_space :: "char \<Rightarrow> bool" where
  "is_space c \<longleftrightarrow> (let n = of_char c :: nat in 9 \<le> n \<and> n \<le> 13 \<or> 28 \<le> n \<and> n \<le> 32)"

definition strip :: "string \<Rightarrow> string" where
  "strip s = rev (dropWhile is_space (rev (dropWhile is_space s)))"

text \<open>\<open>s.split(sep)\<close> for a one-character separator.\<close>

fun split_on :: "char \<Rightarrow> string \<Rightarrow> string list" where
  "split_on x [] = [[]]"
| "split_on x (c # s) =
     (if c = x then [] # split_on x s
      else (case split_on x s of [] \<Rightarrow> [[c]] | t # ts \<Rightarrow> (c # t) # ts))"

text \<open>\<open>sep.join(parts)\<close>.\<close>

fun join :: "string \<Rightarrow> string list \<Rightarrow> string" where
  "join sep [] = []"
| "join sep [s] = s"
| "join sep (s # t # ts) = s @ sep @ join sep (t # ts)"

text \<open>
  \<open>int(s)\<close> on a string: surrounding blanks, an optional sign, decimal digits with single
  underscores between them; anything else raises \<open>ValueError\<close>, here \<open>None\<close>.
\<close>

fun us_digits :: "string \<Rightarrow> bool" where
  "us_digits [] = False"
| "us_digits [c] = is_digit c"
| "us_digits (c # d # s) = (is_digit c \<and> (if d = CHR ''_'' then us_digits s else us_digits (d # s)))"

definition int_of_str :: "string \<Rightarrow> int option" where
  "int_of_str s =
     (let t = strip s;
          neg = startswith t ''-'';
          u = (if startswith t ''-'' \<or> startswith t ''+'' then tl t else t)
      in if us_digits u
         then let n = int_of_digits (filter (\<lambda>c. c \<noteq> CHR ''_'') u) in Some (if neg then - n else n)
         else None)"

text \<open>Lemmas on strings.\<close>

lemma startswith_append [simp]: "startswith (p @ s) p"
  by (simp add: startswith_def)

lemma startswith_iff: "startswith s p \<longleftrightarrow> (\<exists>t. s = p @ t)"
  unfolding startswith_def by (metis append_eq_conv_conj append_take_drop_id)

lemma contains_iff: "contains p s \<longleftrightarrow> (\<exists>a b. s = a @ p @ b)"
proof (induction s)
  case (Cons c s)
  show ?case
  proof
    assume "contains p (c # s)"
    then consider "startswith (c # s) p" | "contains p s" by auto
    then show "\<exists>a b. c # s = a @ p @ b"
    proof cases
      case 1
      then obtain t where "c # s = [] @ p @ t" by (auto simp: startswith_iff)
      then show ?thesis by blast
    next
      case 2
      then obtain a b where "s = a @ p @ b" using Cons.IH by blast
      then have "c # s = (c # a) @ p @ b" by simp
      then show ?thesis by blast
    qed
  next
    assume "\<exists>a b. c # s = a @ p @ b"
    then obtain a b where ab: "c # s = a @ p @ b" by blast
    show "contains p (c # s)"
    proof (cases a)
      case Nil
      then have "startswith (c # s) p" using ab by (metis append_Nil startswith_append)
      then show ?thesis by simp
    next
      case (Cons a' as)
      then have "s = as @ p @ b" using ab by simp
      then show ?thesis using Cons.IH \<open>s = as @ p @ b\<close> by auto
    qed
  qed
qed auto

lemma contains_trans: "contains p q \<Longrightarrow> contains q s \<Longrightarrow> contains p s"
  unfolding contains_iff by (metis append.assoc)

lemma set_join: "c \<in> set (join sep xs) \<Longrightarrow> c \<in> set sep \<or> (\<exists>x \<in> set xs. c \<in> set x)"
  by (induction sep xs rule: join.induct) auto

lemma split_on_nonempty [simp]: "split_on x s \<noteq> []"
  by (induction s) (auto split: list.splits)

lemma join_split_on: "join [x] (split_on x s) = s"
proof (induction s)
  case (Cons c s)
  obtain t ts where st: "split_on x s = t # ts" by (cases "split_on x s") auto
  with Cons show ?case by (cases ts) auto
qed simp

lemma split_on_no_sep: "x \<notin> set s \<Longrightarrow> split_on x s = [s]"
  by (induction s) auto

lemma split_on_append:
  "x \<notin> set s \<Longrightarrow> split_on x (s @ x # t) = s # split_on x t"
  by (induction s) auto

lemma split_join:
  "xs \<noteq> [] \<Longrightarrow> \<forall>s \<in> set xs. x \<notin> set s \<Longrightarrow> split_on x (join [x] xs) = xs"
proof (induction xs)
  case (Cons s xs)
  show ?case
  proof (cases xs)
    case Nil
    then show ?thesis using Cons.prems by (simp add: split_on_no_sep)
  next
    case (Cons t ts)
    then show ?thesis using Cons.IH Cons.prems by (simp add: split_on_append)
  qed
qed simp

text \<open>\<open>str(n)\<close> of a natural number.\<close>

fun nat_str :: "nat \<Rightarrow> string" where
  "nat_str n = (if n < 10 then [char_of (48 + n)] else nat_str (n div 10) @ [char_of (48 + n mod 10)])"

declare nat_str.simps [simp del]

lemma nat_str_digits: "c \<in> set (nat_str n) \<Longrightarrow> is_digit c"
proof (induction n rule: nat_str.induct)
  case (1 n)
  have d: "m < 10 \<Longrightarrow> is_digit (char_of (48 + m))" for m :: nat
    by (simp add: is_digit_def Let_def)
  show ?case
  proof (cases "n < 10")
    case True
    then show ?thesis using "1.prems" d by (auto simp: nat_str.simps[of n])
  next
    case False
    then have "c \<in> set (nat_str (n div 10)) \<or> c = char_of (48 + n mod 10)"
      using "1.prems" by (auto simp: nat_str.simps[of n])
    then show ?thesis using "1.IH"[OF False] d[of "n mod 10"] by auto
  qed
qed

lemma nat_str_nonempty: "nat_str n \<noteq> []"
  by (subst nat_str.simps) simp

lemma isdigit_nat_str: "isdigit (nat_str n)"
  by (simp add: isdigit_def nat_str_nonempty list_all_iff nat_str_digits)

lemma int_of_digits_nat_str: "int_of_digits (nat_str n) = int n"
proof (induction n rule: nat_str.induct)
  case (1 n)
  have d: "m < 10 \<Longrightarrow> digit_val (char_of (48 + m)) = int m" for m :: nat
    by (simp add: digit_val_def)
  show ?case
  proof (cases "n < 10")
    case True
    then show ?thesis using d by (simp add: nat_str.simps[of n] int_of_digits_def)
  next
    case False
    have "int_of_digits (nat_str n) =
        10 * int_of_digits (nat_str (n div 10)) + digit_val (char_of (48 + n mod 10))"
      using False by (simp add: nat_str.simps[of n] int_of_digits_def)
    also have "\<dots> = 10 * int (n div 10) + int (n mod 10)"
      using "1.IH"[OF False] d[of "n mod 10"] by simp
    also have "\<dots> = int n" by (metis of_nat_add of_nat_mult of_nat_numeral mult_div_mod_eq)
    finally show ?thesis .
  qed
qed

end
