(* ===== verification/Errors.thy ===== *)
theory Errors
  imports Py_Base
begin

text \<open>
  The exception classes of \<open>_util/errors.py\<close> and \<open>adapters/base.py\<close>, the built-in classes the
  modelled code raises or catches, \<open>isinstance\<close> as reachability in the class hierarchy, exit
  codes, and the error-reporting helpers that end a command with \<open>SystemExit\<close>.
\<close>

datatype exc_class =
    PipelineError
  | UsageError
  | InputValidationError
  | DependencyError
  | ExternalServiceError
  | AntiBotChallengeError
  | RegistryError
  | AuthExpiredError
  | BannerUploadError
  | ContentRejectedError
  | InternalError
  | TransientError
  | PermanentError
  | ExceptionClass
  | ValueErr
  | JSONDecodeError
  | UnicodeDecodeError
  | TOMLDecodeError
  | TypeErr
  | KeyErr
  | AttributeErr
  | OSErr
  | FileNotFound
  | SqliteError
  | SqliteOperational
  | SqliteIntegrity
  | OtherError string

text \<open>The base class each class statement names; \<open>None\<close> at the root of the modelled part.\<close>

fun exc_parent :: "exc_class \<Rightarrow> exc_class option" where
  "exc_parent PipelineError = Some ExceptionClass"
| "exc_parent UsageError = Some PipelineError"
| "exc_parent InputValidationError = Some PipelineError"
| "exc_parent DependencyError = Some PipelineError"
| "exc_parent ExternalServiceError = Some PipelineError"
| "exc_parent AntiBotChallengeError = Some ExternalServiceError"
| "exc_parent RegistryError = Some PipelineError"
| "exc_parent AuthExpiredError = Some DependencyError"
| "exc_parent BannerUploadError = Some DependencyError"
| "exc_parent ContentRejectedError = Some DependencyError"
| "exc_parent InternalError = Some PipelineError"
| "exc_parent TransientError = Some ExceptionClass"
| "exc_parent PermanentError = Some ExceptionClass"
| "exc_parent ExceptionClass = None"
| "exc_parent ValueErr = Some ExceptionClass"
| "exc_parent JSONDecodeError = Some ValueErr"
| "exc_parent UnicodeDecodeError = Some ValueErr"
| "exc_parent TOMLDecodeError = Some ValueErr"
| "exc_parent TypeErr = Some ExceptionClass"
| "exc_parent KeyErr = Some ExceptionClass"
| "exc_parent AttributeErr = Some ExceptionClass"
| "exc_parent OSErr = Some ExceptionClass"
| "exc_parent FileNotFound = Some OSErr"
| "exc_parent SqliteError = Some ExceptionClass"
| "exc_parent SqliteOperational = Some SqliteError"
| "exc_parent SqliteIntegrity = Some SqliteError"
| "exc_parent (OtherError n) = Some ExceptionClass"

text \<open>The distance to the root, the measure that makes climbing the hierarchy stop.\<close>

fun exc_depth :: "exc_class \<Rightarrow> nat" where
  "exc_depth ExceptionClass = 0"
| "exc_depth DependencyError = 2"
| "exc_depth ExternalServiceError = 2"
| "exc_depth UsageError = 2"
| "exc_depth InputValidationError = 2"
| "exc_depth RegistryError = 2"
| "exc_depth InternalError = 2"
| "exc_depth AntiBotChallengeError = 3"
| "exc_depth AuthExpiredError = 3"
| "exc_depth BannerUploadError = 3"
| "exc_depth ContentRejectedError = 3"
| "exc_depth JSONDecodeError = 2"
| "exc_depth UnicodeDecodeError = 2"
| "exc_depth TOMLDecodeError = 2"
| "exc_depth FileNotFound = 2"
| "exc_depth SqliteOperational = 2"
| "exc_depth SqliteIntegrity = 2"
| "exc_depth c = 1"

lemma exc_parent_depth: "exc_parent c = Some p \<Longrightarrow> exc_depth p < exc_depth c"
  by (cases c) auto

function is_subclass :: "exc_class \<Rightarrow> exc_class \<Rightarrow> bool" where
  "is_subclass c d =
     (c = d \<or> (case exc_parent c of None \<Rightarrow> False | Some p \<Rightarrow> is_subclass p d))"
  by pat_completeness auto
termination
  by (relation "measure (\<lambda>(c, d). exc_depth c)") (auto simp: exc_parent_depth)

declare is_subclass.simps [simp del]

lemma is_subclass_refl [simp]: "is_subclass c c"
  by (subst is_subclass.simps) simp

lemma is_subclass_step:
  "exc_parent c = Some p \<Longrightarrow> is_subclass p d \<Longrightarrow> is_subclass c d"
  by (subst is_subclass.simps) simp

lemma is_subclass_trans: "is_subclass a b \<Longrightarrow> is_subclass b c \<Longrightarrow> is_subclass a c"
proof (induction a b rule: is_subclass.induct)
  case (1 a b)
  show ?case
  proof (cases "a = b")
    case True
    then show ?thesis using "1.prems" by simp
  next
    case False
    with "1.prems"(1) obtain p where p: "exc_parent a = Some p" "is_subclass p b"
      by (subst (asm) is_subclass.simps) (auto split: option.splits)
    have "is_subclass p c"
      using "1.IH"[OF p(1)] p(2) "1.prems"(2) by blast
    then show ?thesis using p(1) is_subclass_step by blast
  qed
qed

text \<open>
  A raised exception: its class, \<open>str(exc)\<close>, the private pre-create-429 stamp of
  \<open>transient_policy.py\<close>, and the \<open>channel\<close> attribute of the two classes that carry one.
  \<open>SystemExit\<close> is not an \<open>Exception\<close>: no \<open>except Exception\<close> arm catches it.
\<close>

datatype exn =
    Exn (exn_cls: exc_class) (exn_msg: string) (exn_pre429: bool) (exn_channel: string)
  | SysExit int

definition mkexn :: "exc_class \<Rightarrow> string \<Rightarrow> exn" where
  "mkexn c m = Exn c m False []"

fun isinst :: "exn \<Rightarrow> exc_class \<Rightarrow> bool" where
  "isinst (Exn c m b ch) d = is_subclass c d"
| "isinst (SysExit n) d = False"

fun str_exn :: "exn \<Rightarrow> string" where
  "str_exn (Exn c m b ch) = m"
| "str_exn (SysExit n) = []"

text \<open>The class attribute \<open>exit_code\<close>; classes outside the \<open>PipelineError\<close> family have none.\<close>

fun exit_code :: "exc_class \<Rightarrow> int option" where
  "exit_code PipelineError = Some 5"
| "exit_code UsageError = Some 1"
| "exit_code InputValidationError = Some 2"
| "exit_code DependencyError = Some 3"
| "exit_code ExternalServiceError = Some 4"
| "exit_code AntiBotChallengeError = Some 4"
| "exit_code RegistryError = Some 5"
| "exit_code AuthExpiredError = Some 3"
| "exit_code BannerUploadError = Some 3"
| "exit_code ContentRejectedError = Some 3"
| "exit_code InternalError = Some 5"
| "exit_code _ = None"

fun exc_name :: "exc_class \<Rightarrow> string" where
  "exc_name PipelineError = ''PipelineError''"
| "exc_name UsageError = ''UsageError''"
| "exc_name InputValidationError = ''InputValidationError''"
| "exc_name DependencyError = ''DependencyError''"
| "exc_name ExternalServiceError = ''ExternalServiceError''"
| "exc_name AntiBotChallengeError = ''AntiBotChallengeError''"
| "exc_name RegistryError = ''RegistryError''"
| "exc_name AuthExpiredError = ''AuthExpiredError''"
| "exc_name BannerUploadError = ''BannerUploadError''"
| "exc_name ContentRejectedError = ''ContentRejectedError''"
| "exc_name InternalError = ''InternalError''"
| "exc_name TransientError = ''TransientError''"
| "exc_name PermanentError = ''PermanentError''"
| "exc_name ExceptionClass = ''Exception''"
| "exc_name ValueErr = ''ValueError''"
| "exc_name JSONDecodeError = ''JSONDecodeError''"
| "exc_name UnicodeDecodeError = ''UnicodeDecodeError''"
| "exc_name TOMLDecodeError = ''TOMLDecodeError''"
| "exc_name TypeErr = ''TypeError''"
| "exc_name KeyErr = ''KeyError''"
| "exc_name AttributeErr = ''AttributeError''"
| "exc_name OSErr = ''OSError''"
| "exc_name FileNotFound = ''FileNotFoundError''"
| "exc_name SqliteError = ''Error''"
| "exc_name SqliteOperational = ''OperationalError''"
| "exc_name SqliteIntegrity = ''IntegrityError''"
| "exc_name (OtherError n) = n"

text \<open>\<open>repr\<close> of a string without quotes, backslashes or control characters.\<close>

definition py_repr :: "string \<Rightarrow> string" where
  "py_repr s = [CHR 0x27] @ s @ [CHR 0x27]"

definition CHANNELS :: "string list" where
  "CHANNELS = [''velog'', ''medium'', ''blogger'']"

text \<open>
  \<open>AuthExpiredError(channel=..., reason=...)\<close>: an unknown channel raises \<open>UsageError\<close> from
  the constructor, so the expression evaluates to that exception instead. (The list of allowed
  channels at the end of that message is left out.)
\<close>

definition new_AuthExpiredError :: "string \<Rightarrow> string option \<Rightarrow> exn" where
  "new_AuthExpiredError channel reason =
     (if channel = [] \<or> channel \<notin> set CHANNELS
      then mkexn UsageError (''AuthExpiredError: unknown channel '' @ py_repr channel)
      else let msg = ''channel '' @ py_repr channel @ '' credentials expired'';
               msg' = (case reason of
                         Some r \<Rightarrow> if r = [] then msg else msg @ '' ('' @ r @ '')''
                       | None \<Rightarrow> msg)
           in Exn AuthExpiredError msg' False channel)"

definition new_ContentRejectedError :: "string \<Rightarrow> string \<Rightarrow> exn" where
  "new_ContentRejectedError channel reason =
     Exn ContentRejectedError
       (''channel '' @ py_repr channel @ '' content rejected ('' @ reason @ '')'') False channel"

text \<open>
  What the helpers print on stderr: the human text, and the machine-readable envelope with the
  class name, the exit code and the message.
\<close>

datatype stderr_line = HumanText string | EnvelopeLine string int string

fun exit_code_class_name :: "int \<Rightarrow> string" where
  "exit_code_class_name n =
     (if n = 1 then ''UsageError''
      else if n = 2 then ''InputValidationError''
      else if n = 3 then ''DependencyError''
      else if n = 4 then ''ExternalServiceError''
      else if n = 5 then ''InternalError''
      else ''PipelineError'')"

definition emit_error :: "string \<Rightarrow> int \<Rightarrow> string option \<Rightarrow> stderr_line list \<times> exn" where
  "emit_error message code error_class =
     ([HumanText message,
       EnvelopeLine
         (case error_class of
            Some n \<Rightarrow> if n = [] then exit_code_class_name code else n
          | None \<Rightarrow> exit_code_class_name code)
         code message],
      SysExit code)"

definition emit_envelope_and_exit :: "string \<Rightarrow> int \<Rightarrow> string \<Rightarrow> stderr_line list \<times> exn" where
  "emit_envelope_and_exit error_class code message =
     ([EnvelopeLine error_class code message], SysExit code)"

text \<open>\<open>handle_error\<close> is called with a \<open>PipelineError\<close>; other classes have no \<open>exit_code\<close>.\<close>

fun handle_error :: "exn \<Rightarrow> stderr_line list \<times> exn" where
  "handle_error (Exn c m b ch) =
     (case exit_code c of
        Some n \<Rightarrow> ([HumanText m, EnvelopeLine (exc_name c) n m], SysExit n)
      | None \<Rightarrow> ([HumanText m], mkexn AttributeErr ''exit_code''))"
| "handle_error (SysExit n) = ([], SysExit n)"

fun handle_unexpected_error :: "exn \<Rightarrow> stderr_line list \<times> exn" where
  "handle_unexpected_error (Exn c m b ch) =
     ([HumanText (''unexpected error: '' @ m),
       EnvelopeLine (exc_name c) 5 (''unexpected error: '' @ m)], SysExit 5)"
| "handle_unexpected_error (SysExit n) = ([], SysExit n)"

section \<open>Facts\<close>

lemma isinst_mkexn [simp]: "isinst (mkexn c m) d = is_subclass c d"
  by (simp add: mkexn_def)

lemma exn_pre429_mkexn [simp]: "exn_pre429 (mkexn c m) = False"
  by (simp add: mkexn_def)

text \<open>The ground facts of the hierarchy, by unfolding along the parents.\<close>

lemma subclass_ground [simp]:
  "is_subclass AuthExpiredError DependencyError"
  "is_subclass BannerUploadError DependencyError"
  "is_subclass ContentRejectedError DependencyError"
  "is_subclass AntiBotChallengeError ExternalServiceError"
  "\<not> is_subclass DependencyError ExternalServiceError"
  "\<not> is_subclass ExternalServiceError DependencyError"
  "\<not> is_subclass DependencyError AuthExpiredError"
  "\<not> is_subclass ExternalServiceError AuthExpiredError"
  "\<not> is_subclass ExternalServiceError AntiBotChallengeError"
  "\<not> is_subclass AuthExpiredError ExternalServiceError"
  "is_subclass JSONDecodeError ValueErr"
  "is_subclass UnicodeDecodeError ValueErr"
  "\<not> is_subclass UnicodeDecodeError JSONDecodeError"
  "\<not> is_subclass UnicodeDecodeError OSErr"
  "\<not> is_subclass TOMLDecodeError OSErr"
  "\<not> is_subclass AttributeErr OSErr"
  "\<not> is_subclass AttributeErr ValueErr"
  "\<not> is_subclass AttributeErr JSONDecodeError"
  "\<not> is_subclass TypeErr ValueErr"
  "\<not> is_subclass TypeErr OSErr"
  "is_subclass FileNotFound OSErr"
  "\<not> is_subclass FileNotFound ValueErr"
  "is_subclass SqliteOperational SqliteError"
  "is_subclass SqliteIntegrity SqliteError"
  "\<not> is_subclass SqliteIntegrity SqliteOperational"
  "\<not> is_subclass SqliteOperational ValueErr"
  "\<not> is_subclass ValueErr SqliteOperational"
  "\<not> is_subclass ValueErr SqliteError"
  "\<not> is_subclass ExternalServiceError ContentRejectedError"
  by (simp_all add: is_subclass.simps)

lemma is_subclass_Exception [simp]: "is_subclass c ExceptionClass"
  by (cases c) (simp_all add: is_subclass.simps)

text \<open>Every class that is an \<open>Exception\<close> has at most the two families below it disjoint.\<close>

lemma dependency_external_disjoint:
  "is_subclass c DependencyError \<Longrightarrow> \<not> is_subclass c ExternalServiceError"
  by (cases c) (simp_all add: is_subclass.simps)

lemma isinst_AuthExpired_Dependency: "isinst e AuthExpiredError \<Longrightarrow> isinst e DependencyError"
  by (cases e) (auto intro: is_subclass_trans)

lemma isinst_Dependency_not_External:
  "isinst e DependencyError \<Longrightarrow> \<not> isinst e ExternalServiceError"
  by (cases e) (auto dest: dependency_external_disjoint)

text \<open>A subclass keeps the exit code of its family: the process exit status of a raised error
  depends only on the family.\<close>

lemma exit_code_family:
  "is_subclass c DependencyError \<Longrightarrow> exit_code c = Some 3"
  "is_subclass c ExternalServiceError \<Longrightarrow> exit_code c = Some 4"
  by (cases c, simp_all add: is_subclass.simps)+

end
