(* ===== verification/Url.thy ===== *)
theory Url
  imports Errors
begin

text \<open>
  URL canonicalisation and validation (\<open>_util/url.py\<close>), over a model of the parts of
  \<open>urllib.parse\<close> it calls (CPython 3.11): \<open>urlsplit\<close>, \<open>urlunsplit\<close>, \<open>urlparse\<close>,
  \<open>urlunparse\<close>, the \<open>hostname\<close> and \<open>port\<close> attributes, \<open>parse_qsl\<close> and \<open>urlencode\<close>.
  Two checks of \<open>urlsplit\<close> are left out: the NFKC check of a non-ASCII authority, and the
  syntax check of the text inside a bracketed host. \<open>unquote\<close> keeps percent-decoded bytes that
  are not UTF-8, where Python would put the replacement character.
\<close>

section \<open>The standard library\<close>

text \<open>\<open>s.partition(c)\<close>: the text before the first \<open>c\<close>, and the text after it if there is one.\<close>

definition partition_at :: "char \<Rightarrow> string \<Rightarrow> string \<times> string option" where
  "partition_at x s =
     (takeWhile (\<lambda>c. c \<noteq> x) s,
      case dropWhile (\<lambda>c. c \<noteq> x) s of [] \<Rightarrow> None | _ # t \<Rightarrow> Some t)"

text \<open>\<open>s.rpartition(c)[2]\<close>: the text after the last \<open>c\<close>, all of it if there is none.\<close>

definition after_last :: "char \<Rightarrow> string \<Rightarrow> string" where
  "after_last x s = rev (takeWhile (\<lambda>c. c \<noteq> x) (rev s))"

definition is_alpha :: "char \<Rightarrow> bool" where
  "is_alpha c \<longleftrightarrow>
     (let n = of_char c :: nat in 65 \<le> n \<and> n \<le> 90 \<or> 97 \<le> n \<and> n \<le> 122)"

definition is_alnum :: "char \<Rightarrow> bool" where
  "is_alnum c \<longleftrightarrow> is_alpha c \<or> is_digit c"

definition is_scheme_char :: "char \<Rightarrow> bool" where
  "is_scheme_char c \<longleftrightarrow> is_alnum c \<or> c = CHR ''+'' \<or> c = CHR ''-'' \<or> c = CHR ''.''"

definition is_c0_or_space :: "char \<Rightarrow> bool" where
  "is_c0_or_space c \<longleftrightarrow> (of_char c :: nat) \<le> 32"

definition is_unsafe_url_char :: "char \<Rightarrow> bool" where
  "is_unsafe_url_char c \<longleftrightarrow> (of_char c :: nat) \<in> {9, 10, 13}"

record url_parts =
  u_scheme :: string
  u_netloc :: string
  u_path :: string
  u_query :: string
  u_fragment :: string

text \<open>Cut off the scheme: what stands before the first colon, if it is a scheme name.\<close>

definition split_scheme :: "string \<Rightarrow> string \<times> string" where
  "split_scheme url =
     (case partition_at CHR '':'' url of
        (s, Some rest) \<Rightarrow>
          if s \<noteq> [] \<and> is_alpha (hd s) \<and> list_all is_scheme_char s
          then (lower s, rest) else ([], url)
      | (s, None) \<Rightarrow> ([], url))"

definition is_netloc_end :: "char \<Rightarrow> bool" where
  "is_netloc_end c \<longleftrightarrow> c = CHR ''/'' \<or> c = CHR ''?'' \<or> c = CHR ''#''"

definition split_netloc :: "string \<Rightarrow> string \<times> string" where
  "split_netloc url =
     (if startswith url ''//''
      then (takeWhile (\<lambda>c. \<not> is_netloc_end c) (drop 2 url),
            dropWhile (\<lambda>c. \<not> is_netloc_end c) (drop 2 url))
      else ([], url))"

definition opt_str :: "string option \<Rightarrow> string" where
  "opt_str x = (case x of None \<Rightarrow> [] | Some s \<Rightarrow> s)"

definition urlsplit :: "string \<Rightarrow> exn + url_parts" where
  "urlsplit url =
     (let u0 = filter (\<lambda>c. \<not> is_unsafe_url_char c) (dropWhile is_c0_or_space url);
          (scheme, u1) = split_scheme u0;
          (netloc, u2) = split_netloc u1
      in if (CHR ''['' \<in> set netloc) \<noteq> (CHR '']'' \<in> set netloc)
         then Inl (mkexn ValueErr ''Invalid IPv6 URL'')
         else let (u3, frag) = partition_at CHR ''#'' u2;
                  (path, query) = partition_at CHR ''?'' u3
              in Inr \<lparr>u_scheme = scheme, u_netloc = netloc, u_path = path,
                      u_query = opt_str query, u_fragment = opt_str frag\<rparr>)"

definition hostinfo :: "string \<Rightarrow> string \<times> string option" where
  "hostinfo netloc =
     (let hi = after_last CHR ''@'' netloc;
          (_, bracketed) = partition_at CHR ''['' hi;
          (host, port) =
            (case bracketed of
               Some b \<Rightarrow>
                 (let (h, p) = partition_at CHR '']'' b
                  in (h, opt_str (snd (partition_at CHR '':'' (opt_str p)))))
             | None \<Rightarrow> (let (h, p) = partition_at CHR '':'' hi in (h, opt_str p)))
      in (host, if port = [] then None else Some port))"

definition url_hostname :: "url_parts \<Rightarrow> string option" where
  "url_hostname p =
     (let h = fst (hostinfo (u_netloc p))
      in if h = [] then None
         else (case partition_at CHR ''%'' h of
                 (a, None) \<Rightarrow> Some (lower a)
               | (a, Some zone) \<Rightarrow> Some (lower a @ CHR ''%'' # zone)))"

definition url_port :: "url_parts \<Rightarrow> exn + int option" where
  "url_port p =
     (case snd (hostinfo (u_netloc p)) of
        None \<Rightarrow> Inr None
      | Some s \<Rightarrow>
          if \<not> isdigit s
          then Inl (mkexn ValueErr (''Port could not be cast to integer value as '' @ py_repr s))
          else if int_of_digits s > 65535 then Inl (mkexn ValueErr ''Port out of range 0-65535'')
          else Inr (Some (int_of_digits s)))"

text \<open>\<open>urlunsplit\<close> and \<open>urlunparse\<close> for the two schemes the program puts together again.\<close>

definition uses_netloc :: "string \<Rightarrow> bool" where
  "uses_netloc s \<longleftrightarrow> s = ''http'' \<or> s = ''https''"

definition urlunsplit :: "url_parts \<Rightarrow> string" where
  "urlunsplit p =
     (let path = u_path p;
          u1 = (if u_netloc p \<noteq> [] \<or> (uses_netloc (u_scheme p) \<and> take 2 path \<noteq> ''//'')
                then let path' = (if path \<noteq> [] \<and> take 1 path \<noteq> ''/'' then CHR ''/'' # path else path)
                     in ''//'' @ u_netloc p @ path'
                else path);
          u2 = (if u_scheme p \<noteq> [] then u_scheme p @ '':'' @ u1 else u1);
          u3 = (if u_query p \<noteq> [] then u2 @ ''?'' @ u_query p else u2)
      in if u_fragment p \<noteq> [] then u3 @ ''#'' @ u_fragment p else u3)"

text \<open>\<open>urlparse\<close> splits the parameters off the last path segment.\<close>

definition split_params :: "string \<Rightarrow> string \<times> string" where
  "split_params path =
     (let lastseg = after_last CHR ''/'' path;
          before = take (length path - length lastseg) path
      in case partition_at CHR '';'' lastseg of
           (s, None) \<Rightarrow> (path, [])
         | (s, Some params) \<Rightarrow> (before @ s, params))"

definition uses_params :: "string \<Rightarrow> bool" where
  "uses_params s \<longleftrightarrow> s = [] \<or> s = ''http'' \<or> s = ''https''"

record parsed_url = url_parts + u_params :: string

definition urlparse :: "string \<Rightarrow> exn + parsed_url" where
  "urlparse url =
     bindR (urlsplit url) (\<lambda>p.
       let (path, params) =
             (if uses_params (u_scheme p) \<and> CHR '';'' \<in> set (u_path p)
              then split_params (u_path p) else (u_path p, []))
       in Inr \<lparr>u_scheme = u_scheme p, u_netloc = u_netloc p, u_path = path,
               u_query = u_query p, u_fragment = u_fragment p, u_params = params\<rparr>)"

definition urlunparse ::
  "string \<Rightarrow> string \<Rightarrow> string \<Rightarrow> string \<Rightarrow> string \<Rightarrow> string \<Rightarrow> string" where
  "urlunparse scheme netloc path params query fragment =
     urlunsplit \<lparr>u_scheme = scheme, u_netloc = netloc,
                 u_path = (if params \<noteq> [] then path @ '';'' @ params else path),
                 u_query = query, u_fragment = fragment\<rparr>"

subsection \<open>Query strings\<close>

definition hexd :: "nat \<Rightarrow> char" where
  "hexd n = char_of (if n < 10 then 48 + n else 55 + n)"

definition hexval :: "char \<Rightarrow> nat option" where
  "hexval c =
     (let n = of_char c :: nat
      in if 48 \<le> n \<and> n \<le> 57 then Some (n - 48)
         else if 65 \<le> n \<and> n \<le> 70 then Some (n - 55)
         else if 97 \<le> n \<and> n \<le> 102 then Some (n - 87)
         else None)"

fun unquote :: "string \<Rightarrow> string" where
  "unquote (p # a # b # s) =
     (if p = CHR ''%''
      then (case (hexval a, hexval b) of
              (Some x, Some y) \<Rightarrow> char_of (16 * x + y) # unquote s
            | _ \<Rightarrow> p # unquote (a # b # s))
      else p # unquote (a # b # s))"
| "unquote [p, a] = [p, a]"
| "unquote [p] = [p]"
| "unquote [] = []"

definition plus_to_space :: "string \<Rightarrow> string" where
  "plus_to_space s = map (\<lambda>c. if c = CHR ''+'' then CHR '' '' else c) s"

definition unquote_plus :: "string \<Rightarrow> string" where
  "unquote_plus s = unquote (plus_to_space s)"

definition is_always_safe :: "char \<Rightarrow> bool" where
  "is_always_safe c \<longleftrightarrow>
     is_alnum c \<or> c = CHR ''_'' \<or> c = CHR ''.'' \<or> c = CHR ''-'' \<or> c = CHR ''~''"

definition quote1 :: "char \<Rightarrow> string" where
  "quote1 c =
     (if is_always_safe c then [c]
      else if c = CHR '' '' then ''+''
      else [CHR ''%'', hexd (of_char c div 16), hexd (of_char c mod 16)])"

definition quote_plus :: "string \<Rightarrow> string" where
  "quote_plus s = concat (map quote1 s)"

definition parse_pair :: "string \<Rightarrow> string \<times> string" where
  "parse_pair nv =
     (let (n, v) = partition_at CHR ''='' nv in (unquote_plus n, unquote_plus (opt_str v)))"

text \<open>\<open>parse_qsl(qs, keep_blank_values=True)\<close>.\<close>

definition parse_qsl :: "string \<Rightarrow> (string \<times> string) list" where
  "parse_qsl qs = map parse_pair (filter (\<lambda>nv. nv \<noteq> []) (split_on CHR ''&'' qs))"

definition encode_pair :: "string \<times> string \<Rightarrow> string" where
  "encode_pair kv = quote_plus (fst kv) @ ''='' @ quote_plus (snd kv)"

definition urlencode :: "(string \<times> string) list \<Rightarrow> string" where
  "urlencode kvs = join ''&'' (map encode_pair kvs)"

section \<open>The program\<close>

definition default_port :: "string \<Rightarrow> int option" where
  "default_port scheme =
     (if scheme = ''http'' then Some 80 else if scheme = ''https'' then Some 443 else None)"

definition is_utm :: "string \<Rightarrow> bool" where
  "is_utm k \<longleftrightarrow> startswith (lower k) ''utm_''"

text \<open>The query part of \<open>canonicalize_url\<close>.\<close>

definition canonical_query :: "string \<Rightarrow> string" where
  "canonical_query q =
     (if q \<noteq> []
      then let kept = sort_key fst (filter (\<lambda>kv. \<not> is_utm (fst kv)) (parse_qsl q))
           in if kept \<noteq> [] then urlencode kept else []
      else [])"

text \<open>The path part: trailing slashes go, except for the root path.\<close>

definition canonical_path :: "string \<Rightarrow> string" where
  "canonical_path path =
     (if path \<noteq> ''/'' \<and> endswith path ''/''
      then rev (dropWhile (\<lambda>c. c = CHR ''/'') (rev path)) else path)"

definition canonicalize_url :: "string \<Rightarrow> exn + string" where
  "canonicalize_url url =
     (if url = [] then Inr url
      else bindR (urlsplit url) (\<lambda>parts.
        let scheme = lower (u_scheme parts)
        in case default_port scheme of
             None \<Rightarrow> Inr url
           | Some dport \<Rightarrow>
               (let host = opt_str (url_hostname parts);
                    host_lower = lower host
                in bindR (url_port parts) (\<lambda>port.
                  let netloc =
                        (case port of
                           None \<Rightarrow> host_lower
                         | Some n \<Rightarrow>
                             if n = dport then host_lower else host_lower @ '':'' @ nat_str (nat n))
                  in Inr (urlunsplit
                       \<lparr>u_scheme = scheme, u_netloc = netloc,
                        u_path = canonical_path (u_path parts),
                        u_query = canonical_query (u_query parts), u_fragment = []\<rparr>)))))"

text \<open>\<open>safe_urlparse\<close> on a \<open>str\<close> or \<open>None\<close> (the only arguments it gets here).\<close>

definition safe_urlparse :: "string option \<Rightarrow> parsed_url option" where
  "safe_urlparse url =
     (case url of
        None \<Rightarrow> None
      | Some s \<Rightarrow> if s = [] then None
                  else (case urlparse s of Inr p \<Rightarrow> Some p | Inl e \<Rightarrow> None))"

definition safe_hostname :: "string option \<Rightarrow> string option" where
  "safe_hostname url =
     (case safe_urlparse url of
        None \<Rightarrow> None
      | Some p \<Rightarrow> url_hostname (url_parts.truncate p))"

definition validate_main_domain_url :: "string option \<Rightarrow> string option" where
  "validate_main_domain_url url =
     (case url of
        None \<Rightarrow> None
      | Some s \<Rightarrow>
          if s = [] then None
          else (case safe_urlparse (Some (strip s)) of
                  None \<Rightarrow> None
                | Some p \<Rightarrow>
                    if u_scheme p \<noteq> ''https'' then None
                    else if u_netloc p = [] then None
                    else if u_fragment p \<noteq> [] \<or> u_query p \<noteq> [] then None
                    else if u_path p \<noteq> [] \<and> u_path p \<noteq> ''/'' then None
                    else Some (urlunparse (u_scheme p) (u_netloc p) ''/'' [] [] [])))"

definition validate_https_url :: "string option \<Rightarrow> string option" where
  "validate_https_url url =
     (case url of
        None \<Rightarrow> None
      | Some s \<Rightarrow>
          if s = [] then None
          else (case safe_urlparse (Some (strip s)) of
                  None \<Rightarrow> None
                | Some p \<Rightarrow>
                    if u_scheme p \<noteq> ''https'' then None
                    else if u_netloc p = [] then None
                    else Some (urlunparse (u_scheme p) (u_netloc p)
                                 (if u_path p = [] then ''/'' else u_path p)
                                 (u_params p) (u_query p) [])))"

definition normalize_host_for_compare :: "string \<Rightarrow> string" where
  "normalize_host_for_compare netloc =
     (let host = lower netloc in if startswith host ''www.'' then drop 4 host else host)"

definition is_same_host :: "string \<Rightarrow> string \<Rightarrow> bool" where
  "is_same_host a b =
     (if a = [] \<or> b = [] then False
      else case (safe_urlparse (Some a), safe_urlparse (Some b)) of
             (Some pa, Some pb) \<Rightarrow>
               if u_netloc pa = [] \<or> u_netloc pb = [] then False
               else normalize_host_for_compare (u_netloc pa) = normalize_host_for_compare (u_netloc pb)
           | _ \<Rightarrow> False)"

definition strip_fragment_query :: "string \<Rightarrow> string" where
  "strip_fragment_query url =
     (if url = [] then []
      else (case safe_urlparse (Some url) of
              None \<Rightarrow> []
            | Some p \<Rightarrow> urlunparse (u_scheme p) (u_netloc p) (u_path p) (u_params p) [] []))"

end
