(* ===== verification/Url_Facts.thy ===== *)
theory Url_Facts
  imports Url
begin

text \<open>
  Facts of URL canonicalisation: percent encoding round trips, the canonical query and path are
  fixed points, a reassembled URL splits into the parts it was made of, and therefore a
  canonical URL is its own canonical form. The exception is a bracketed (IPv6) host.
\<close>

lemma hexval_hexd: "n < 16 \<Longrightarrow> hexval (hexd n) = Some n"
  by (auto simp: hexval_def hexd_def Let_def)

lemma of_char_lt: "(of_char c :: nat) < 256"
  by (metis of_char_mod_256 mod_less_divisor zero_less_numeral)

lemma hexd_neq: "n < 16 \<Longrightarrow> hexd n \<noteq> CHR ''+'' \<and> hexd n \<noteq> CHR ''%'' \<and> hexd n \<noteq> CHR ''&'' \<and>
   hexd n \<noteq> CHR ''='' \<and> hexd n \<noteq> CHR ''#'' \<and> \<not> is_unsafe_url_char (hexd n)"
proof -
  assume "n < 16"
  then have "n \<in> set [0..<16]" by simp
  moreover have "\<forall>n \<in> set [0..<16]. hexd n \<noteq> CHR ''+'' \<and> hexd n \<noteq> CHR ''%'' \<and> hexd n \<noteq> CHR ''&'' \<and>
   hexd n \<noteq> CHR ''='' \<and> hexd n \<noteq> CHR ''#'' \<and> \<not> is_unsafe_url_char (hexd n)" by code_simp
  ultimately show ?thesis by blast
qed

lemma unquote_hex:
  "n < 256 \<Longrightarrow> unquote (CHR ''%'' # hexd (n div 16) # hexd (n mod 16) # s) = char_of n # unquote s"
  by (simp add: hexval_hexd)

lemma unquote_plain: "c \<noteq> CHR ''%'' \<Longrightarrow> unquote (c # s) = c # unquote s"
  by (cases s; cases "tl s") (auto simp: neq_Nil_conv)

lemma always_safe_neq:
  "is_always_safe c \<Longrightarrow> c \<noteq> CHR ''%'' \<and> c \<noteq> CHR ''+'' \<and> c \<noteq> CHR ''&'' \<and> c \<noteq> CHR ''='' \<and>
     c \<noteq> CHR ''#'' \<and> \<not> is_unsafe_url_char c"
  by (auto simp: is_always_safe_def is_alnum_def is_alpha_def is_digit_def is_unsafe_url_char_def Let_def)

lemma unquote_plus_quote1: "unquote_plus (quote1 c @ s) = c # unquote_plus s"
proof -
  let ?n = "of_char c :: nat"
  have lt: "?n < 256" by (rule of_char_lt)
  have "?n div 16 < 16" using lt by arith
  then have h: "hexd (?n div 16) \<noteq> CHR ''+''" "hexd (?n mod 16) \<noteq> CHR ''+''"
    using hexd_neq by auto
  show ?thesis
    using always_safe_neq[of c] h unquote_hex[OF lt]
    by (auto simp: unquote_plus_def plus_to_space_def quote1_def unquote_plain)
qed

lemma unquote_quote_plus: "unquote_plus (quote_plus s) = s"
proof (induction s)
  case Nil
  then show ?case by (simp add: unquote_plus_def plus_to_space_def quote_plus_def)
next
  case (Cons c s)
  then show ?case using unquote_plus_quote1[of c "quote_plus s"] by (simp add: quote_plus_def)
qed

lemma quote_plus_chars:
  "c \<in> set (quote_plus s) \<Longrightarrow> c \<noteq> CHR ''&'' \<and> c \<noteq> CHR ''='' \<and> c \<noteq> CHR ''#'' \<and> \<not> is_unsafe_url_char c"
proof -
  assume "c \<in> set (quote_plus s)"
  then obtain d where d: "c \<in> set (quote1 d)" by (auto simp: quote_plus_def)
  have "(of_char d :: nat) div 16 < 16" "(of_char d :: nat) mod 16 < 16"
    using of_char_lt[of d] by arith+
  then show ?thesis
    using d always_safe_neq[of d] hexd_neq
    by (auto simp: quote1_def is_unsafe_url_char_def split: if_splits)
qed

lemma partition_at_append: "x \<notin> set s \<Longrightarrow> partition_at x (s @ x # t) = (s, Some t)"
proof -
  assume "x \<notin> set s"
  then have "\<forall>c \<in> set s. c \<noteq> x" by auto
  then show ?thesis by (simp add: partition_at_def takeWhile_append2 dropWhile_append2)
qed

lemma partition_at_none: "x \<notin> set s \<Longrightarrow> partition_at x s = (s, None)"
proof -
  assume "x \<notin> set s"
  then have "\<forall>c \<in> set s. c \<noteq> x" by auto
  then have "dropWhile (\<lambda>c. c \<noteq> x) s = []" and "takeWhile (\<lambda>c. c \<noteq> x) s = s"
    by (simp_all add: takeWhile_eq_all_conv dropWhile_eq_Nil_conv)
  then show ?thesis by (simp only: partition_at_def list.case)
qed

lemma parse_pair_encode_pair: "parse_pair (encode_pair kv) = kv"
proof -
  have "CHR ''='' \<notin> set (quote_plus (fst kv))" using quote_plus_chars by blast
  then show ?thesis
    by (simp add: parse_pair_def encode_pair_def partition_at_append opt_str_def unquote_quote_plus)
qed

lemma encode_pair_chars:
  "c \<in> set (encode_pair kv) \<Longrightarrow> c \<noteq> CHR ''&'' \<and> c \<noteq> CHR ''#'' \<and> \<not> is_unsafe_url_char c"
  using quote_plus_chars[of c "fst kv"] quote_plus_chars[of c "snd kv"]
  by (auto simp: encode_pair_def is_unsafe_url_char_def)

lemma parse_qsl_urlencode: "parse_qsl (urlencode kvs) = kvs"
proof (cases "kvs = []")
  case True
  then show ?thesis by (simp add: parse_qsl_def urlencode_def)
next
  case False
  have "split_on CHR ''&'' (urlencode kvs) = map encode_pair kvs"
    unfolding urlencode_def using False encode_pair_chars by (intro split_join) auto
  moreover have "filter (\<lambda>nv. nv \<noteq> []) (map encode_pair kvs) = map encode_pair kvs"
    by (auto simp: filter_id_conv encode_pair_def)
  ultimately show ?thesis
    by (simp add: parse_qsl_def parse_pair_encode_pair map_idI)
qed

lemma urlencode_nonempty: "kvs \<noteq> [] \<Longrightarrow> urlencode kvs \<noteq> []"
  by (cases kvs; cases "tl kvs") (auto simp: urlencode_def encode_pair_def neq_Nil_conv)

definition canonical_pairs :: "string \<Rightarrow> (string \<times> string) list" where
  "canonical_pairs q = sort_key fst (filter (\<lambda>kv. \<not> is_utm (fst kv)) (parse_qsl q))"

lemma canonical_query_eq: "canonical_query q = urlencode (canonical_pairs q)"
  by (auto simp: canonical_query_def canonical_pairs_def Let_def urlencode_def parse_qsl_def)

lemma parse_qsl_canonical_query: "parse_qsl (canonical_query q) = canonical_pairs q"
  by (simp add: canonical_query_eq parse_qsl_urlencode)

lemma canonical_pairs_idem: "canonical_pairs (canonical_query q) = canonical_pairs q"
  unfolding canonical_pairs_def[of "canonical_query q"] parse_qsl_canonical_query
  by (simp add: canonical_pairs_def filter_sort sort_key_id_if_sorted)

lemma canonical_query_idem: "canonical_query (canonical_query q) = canonical_query q"
  by (simp only: canonical_query_eq[of "canonical_query q"] canonical_pairs_idem canonical_query_eq[of q, symmetric])

lemma canonical_query_chars: "c \<in> set (canonical_query q) \<Longrightarrow> c \<noteq> CHR ''#'' \<and> \<not> is_unsafe_url_char c"
proof -
  have amp: "CHR ''&'' \<noteq> CHR ''#'' \<and> \<not> is_unsafe_url_char CHR ''&''"
    by (simp add: is_unsafe_url_char_def)
  assume "c \<in> set (canonical_query q)"
  then show ?thesis
    using amp encode_pair_chars by (fastforce dest: set_join simp: canonical_query_eq urlencode_def)
qed

section \<open>Splitting a reassembled URL\<close>

definition clean :: "string \<Rightarrow> bool" where
  "clean s \<longleftrightarrow> (\<forall>c \<in> set s. \<not> is_unsafe_url_char c)"

definition wf_parts :: "url_parts \<Rightarrow> bool" where
  "wf_parts p \<longleftrightarrow>
     clean (u_netloc p) \<and> clean (u_path p) \<and> clean (u_query p) \<and>
     (\<forall>c \<in> set (u_netloc p). \<not> is_netloc_end c) \<and>
     (CHR ''['' \<in> set (u_netloc p)) = (CHR '']'' \<in> set (u_netloc p)) \<and>
     (u_netloc p \<noteq> [] \<longrightarrow> u_path p = [] \<or> hd (u_path p) = CHR ''/'') \<and>
     CHR ''#'' \<notin> set (u_path p) \<and> CHR ''?'' \<notin> set (u_path p) \<and> CHR ''#'' \<notin> set (u_query p)"

lemma partition_at_fst: "fst (partition_at x s) = takeWhile (\<lambda>c. c \<noteq> x) s"
  by (simp add: partition_at_def)

lemma partition_at_snd_set:
  assumes "snd (partition_at x s) = Some t" shows "set t \<subseteq> set s"
proof -
  from assms obtain y where "dropWhile (\<lambda>c. c \<noteq> x) s = y # t"
    by (auto simp: partition_at_def split: list.splits)
  then have "s = takeWhile (\<lambda>c. c \<noteq> x) s @ y # t" by (metis takeWhile_dropWhile_id)
  then show ?thesis by (metis Un_iff list.set_intros(2) set_append subsetI)
qed

lemma set_opt_partition: "set (opt_str (snd (partition_at x s))) \<subseteq> set s"
proof (cases "snd (partition_at x s)")
  case None
  then show ?thesis by (simp add: opt_str_def)
next
  case (Some t)
  then show ?thesis using partition_at_snd_set by (simp add: opt_str_def)
qed

lemma set_takeWhile: "c \<in> set (takeWhile P s) \<Longrightarrow> c \<in> set s \<and> P c"
  by (metis set_takeWhileD)

lemma split_scheme_rest: "set (snd (split_scheme u)) \<subseteq> set u"
proof (cases "partition_at CHR '':'' u")
  case (Pair s r)
  show ?thesis
  proof (cases r)
    case None
    then show ?thesis by (simp add: split_scheme_def Pair)
  next
    case (Some t)
    then have "set t \<subseteq> set u" using partition_at_snd_set[of "CHR '':''" u t] Pair by simp
    then show ?thesis by (simp add: split_scheme_def Pair Some)
  qed
qed

lemma hd_dropWhile_end: "dropWhile P s \<noteq> [] \<Longrightarrow> \<not> P (hd (dropWhile P s))"
  by (rule hd_dropWhile)

lemma split_netloc_sets:
  assumes "split_netloc u = (nl, rest)"
  shows "set nl \<subseteq> set u" "set rest \<subseteq> set u" "\<forall>c \<in> set nl. \<not> is_netloc_end c"
    "nl \<noteq> [] \<longrightarrow> rest = [] \<or> is_netloc_end (hd rest)"
proof -
  let ?P = "\<lambda>c. \<not> is_netloc_end c"
  have *: "startswith u ''//'' \<and> nl = takeWhile ?P (drop 2 u) \<and> rest = dropWhile ?P (drop 2 u) \<or>
      nl = [] \<and> rest = u"
    using assms by (simp add: split_netloc_def split: if_splits)
  have d: "set (drop 2 u) \<subseteq> set u" by (rule set_drop_subset)
  have t: "set (takeWhile ?P (drop 2 u)) \<subseteq> set (drop 2 u)" using set_takeWhile by fastforce
  have w: "set (dropWhile ?P (drop 2 u)) \<subseteq> set (drop 2 u)" by (meson set_dropWhileD subsetI)
  show "set nl \<subseteq> set u" using * d t by auto
  show "set rest \<subseteq> set u" using * d w by auto
  show "\<forall>c \<in> set nl. \<not> is_netloc_end c" using * set_takeWhile by fastforce
  show "nl \<noteq> [] \<longrightarrow> rest = [] \<or> is_netloc_end (hd rest)" using * hd_dropWhile_end[of ?P] by blast
qed

lemma urlsplit_wf:
  assumes "urlsplit url = Inr p"
  shows "wf_parts p"
proof -
  define u0 where "u0 = filter (\<lambda>c. \<not> is_unsafe_url_char c) (dropWhile is_c0_or_space url)"
  obtain sch u1 where s1: "split_scheme u0 = (sch, u1)" by (cases "split_scheme u0")
  obtain nl u2 where s2: "split_netloc u1 = (nl, u2)" by (cases "split_netloc u1")
  obtain u3 fr where s3: "partition_at CHR ''#'' u2 = (u3, fr)" by (cases "partition_at CHR ''#'' u2")
  obtain pa q where s4: "partition_at CHR ''?'' u3 = (pa, q)" by (cases "partition_at CHR ''?'' u3")
  have br: "(CHR ''['' \<in> set nl) = (CHR '']'' \<in> set nl)" and
    p: "p = \<lparr>u_scheme = sch, u_netloc = nl, u_path = pa, u_query = opt_str q, u_fragment = opt_str fr\<rparr>"
    using assms by (auto simp: urlsplit_def Let_def s1 s2 s3 s4 simp flip: u0_def split: if_splits)
  have clean0: "\<forall>c \<in> set u0. \<not> is_unsafe_url_char c" by (simp add: u0_def)
  have sub1: "set u1 \<subseteq> set u0" using split_scheme_rest[of u0] s1 by simp
  note nlf = split_netloc_sets[OF s2]
  have u3: "u3 = takeWhile (\<lambda>c. c \<noteq> CHR ''#'') u2" using s3 partition_at_fst by (metis fst_conv)
  have pa: "pa = takeWhile (\<lambda>c. c \<noteq> CHR ''?'') u3" using s4 partition_at_fst by (metis fst_conv)
  have qs: "set (opt_str q) \<subseteq> set u3" using s4 set_opt_partition by (metis snd_conv)
  have sub3: "set u3 \<subseteq> set u2" using u3 set_takeWhile by fastforce
  have subp: "set pa \<subseteq> set u3" using pa set_takeWhile by fastforce
  have nohash: "CHR ''#'' \<notin> set u3" using u3 set_takeWhile by fastforce
  have noq: "CHR ''?'' \<notin> set pa" using pa set_takeWhile by fastforce
  have hd: "nl \<noteq> [] \<longrightarrow> pa = [] \<or> hd pa = CHR ''/''"
  proof
    assume "nl \<noteq> []"
    then consider "u2 = []" | "is_netloc_end (hd u2)" using nlf(4) by blast
    then show "pa = [] \<or> hd pa = CHR ''/''"
    proof cases
      case 1 then show ?thesis by (simp add: u3 pa)
    next
      case 2 then show ?thesis
        by (cases u2) (auto simp: u3 pa is_netloc_end_def)
    qed
  qed
  have cn: "clean nl" unfolding clean_def using clean0 sub1 nlf(1) by blast
  have c3: "clean u3" unfolding clean_def using clean0 sub1 nlf(2) sub3 by blast
  have cp: "clean pa" "clean (opt_str q)" using c3 subp qs unfolding clean_def by blast+
  have np: "CHR ''#'' \<notin> set pa" "CHR ''#'' \<notin> set (opt_str q)" using nohash subp qs by blast+
  show ?thesis
    unfolding wf_parts_def p url_parts.simps
    by (intro conjI cn cp np noq hd br nlf(3))
qed

lemma split_scheme_http:
  "s = ''http'' \<or> s = ''https'' \<Longrightarrow> split_scheme (s @ '':'' @ rest) = (s, rest)"
  by (auto simp: split_scheme_def partition_at_def is_alpha_def is_scheme_char_def is_alnum_def
      lower_def ascii_lower_def Let_def)

lemma takeWhile_end: "\<forall>c \<in> set nl. P c \<Longrightarrow> rest = [] \<or> \<not> P (hd rest) \<Longrightarrow>
   takeWhile P (nl @ rest) = nl \<and> dropWhile P (nl @ rest) = rest"
  by (cases rest) (auto simp: takeWhile_append2 dropWhile_append2 takeWhile_eq_all_conv dropWhile_eq_Nil_conv)

lemma urlsplit_urlunsplit:
  assumes wf: "wf_parts p" and fr: "u_fragment p = []"
    and sch: "u_scheme p = ''http'' \<or> u_scheme p = ''https''" and nl: "u_netloc p \<noteq> []"
  shows "urlsplit (urlunsplit p) = Inr p"
proof -
  let ?q = "if u_query p \<noteq> [] then ''?'' @ u_query p else []"
  let ?rest = "u_path p @ ?q"
  have hdp: "u_path p = [] \<or> hd (u_path p) = CHR ''/''" using wf nl by (simp add: wf_parts_def)
  then have "\<not> (u_path p \<noteq> [] \<and> take 1 (u_path p) \<noteq> ''/'')" by (cases "u_path p") auto
  then have u: "urlunsplit p = u_scheme p @ '':'' @ (''//'' @ u_netloc p @ ?rest)"
    using fr nl sch by (auto simp: urlunsplit_def Let_def)
  have cl: "clean (urlunsplit p)"
    using wf sch by (auto simp: u wf_parts_def clean_def is_unsafe_url_char_def)
  have drop0: "dropWhile is_c0_or_space (urlunsplit p) = urlunsplit p"
    using sch by (auto simp: u is_c0_or_space_def)
  have filt: "filter (\<lambda>c. \<not> is_unsafe_url_char c) (urlunsplit p) = urlunsplit p"
    using cl by (simp add: clean_def filter_id_conv)
  have sc: "split_scheme (urlunsplit p) = (u_scheme p, ''//'' @ u_netloc p @ ?rest)"
    unfolding u by (rule split_scheme_http[OF sch])
  have rend: "?rest = [] \<or> \<not> \<not> is_netloc_end (hd ?rest)"
    using hdp by (cases "u_path p") (auto simp: is_netloc_end_def)
  have sn: "split_netloc (''//'' @ u_netloc p @ ?rest) = (u_netloc p, ?rest)"
    using takeWhile_end[of "u_netloc p" "\<lambda>c. \<not> is_netloc_end c" ?rest] wf rend
    by (simp add: split_netloc_def startswith_def wf_parts_def)
  have p1: "partition_at CHR ''#'' ?rest = (?rest, None)"
    using wf by (intro partition_at_none) (auto simp: wf_parts_def)
  have p2: "partition_at CHR ''?'' ?rest = (u_path p, if u_query p = [] then None else Some (u_query p))"
    using wf by (auto simp: wf_parts_def partition_at_none partition_at_append)
  show ?thesis
    unfolding urlsplit_def drop0 filt Let_def sc split_conv sn p1 p2
    using wf fr by (cases p) (auto simp: wf_parts_def opt_str_def)
qed

lemma ascii_lower_fix: "ascii_lower c = d \<Longrightarrow> \<not> is_alpha d \<Longrightarrow> c = d"
proof -
  assume a: "ascii_lower c = d" "\<not> is_alpha d"
  let ?n = "of_char c :: nat"
  show "c = d"
  proof (cases "65 \<le> ?n \<and> ?n \<le> 90")
    case True
    then have "d = char_of (?n + 32)" using a(1) by (simp add: ascii_lower_def Let_def)
    then have "(of_char d :: nat) = ?n + 32" using True by simp
    then have "is_alpha d" using True by (simp add: is_alpha_def Let_def)
    then show ?thesis using a(2) by simp
  next
    case False
    then show ?thesis using a(1) by (auto simp: ascii_lower_def Let_def)
  qed
qed

lemma ascii_lower_idem: "ascii_lower (ascii_lower c) = ascii_lower c"
proof (cases "65 \<le> (of_char c :: nat) \<and> (of_char c :: nat) \<le> 90")
  case True
  then show ?thesis by (simp add: ascii_lower_def Let_def)
next
  case False
  then have "ascii_lower c = c" by (auto simp: ascii_lower_def Let_def)
  then show ?thesis by simp
qed

lemma lower_idem [simp]: "lower (lower s) = lower s"
  by (simp add: lower_def ascii_lower_idem)

lemma lower_append: "lower (s @ t) = lower s @ lower t"
  by (simp add: lower_def)

lemma lower_special: "d \<in> set (lower s) \<Longrightarrow> \<not> is_alpha d \<Longrightarrow> d \<in> set s"
  using ascii_lower_fix by (fastforce simp: lower_def)

lemma lower_Nil_iff [simp]: "lower s = [] \<longleftrightarrow> s = []"
  by (simp add: lower_def)

lemma special_not_alpha [simp]:
  "\<not> is_alpha CHR ''@''" "\<not> is_alpha CHR '':''" "\<not> is_alpha CHR ''[''" "\<not> is_alpha CHR '']''"
  "\<not> is_alpha CHR ''%''" "is_netloc_end c \<Longrightarrow> \<not> is_alpha c" "is_unsafe_url_char c \<Longrightarrow> \<not> is_alpha c"
  by (auto simp: is_alpha_def is_netloc_end_def is_unsafe_url_char_def Let_def)

lemma lower_clean: "clean s \<Longrightarrow> clean (lower s)"
  using lower_special by (fastforce simp: clean_def)

subsection \<open>Decimal numbers\<close>

lemma int_of_digits_nonneg: "list_all is_digit s \<Longrightarrow> 0 \<le> int_of_digits s"
proof -
  have "list_all is_digit s \<Longrightarrow> 0 \<le> n \<Longrightarrow> 0 \<le> foldl (\<lambda>n c. 10 * n + digit_val c) n s" for n
    by (induction s arbitrary: n) (auto simp: is_digit_def digit_val_def Let_def)
  then show "list_all is_digit s \<Longrightarrow> ?thesis" by (simp add: int_of_digits_def)
qed

lemma digit_special:
  "is_digit c \<Longrightarrow> c \<noteq> CHR ''@'' \<and> c \<noteq> CHR '':'' \<and> c \<noteq> CHR ''['' \<and> c \<noteq> CHR '']'' \<and>
     \<not> is_netloc_end c \<and> \<not> is_unsafe_url_char c"
  by (auto simp: is_digit_def is_netloc_end_def is_unsafe_url_char_def Let_def)

subsection \<open>Host and port of a canonical authority\<close>

lemma after_last_id: "x \<notin> set s \<Longrightarrow> after_last x s = s"
proof -
  assume x: "x \<notin> set s"
  have "takeWhile (\<lambda>c. c \<noteq> x) (rev s) = rev s" unfolding takeWhile_eq_all_conv using x by auto
  then have "after_last x s = rev (rev s)" by (simp only: after_last_def)
  then show ?thesis by simp
qed

lemma after_last_set: "set (after_last x s) \<subseteq> set s" "x \<notin> set (after_last x s)"
proof -
  show "set (after_last x s) \<subseteq> set s"
    by (auto simp: after_last_def dest: set_takeWhileD)
  show "x \<notin> set (after_last x s)"
    by (auto simp: after_last_def dest: set_takeWhileD)
qed

definition plain_host :: "string \<Rightarrow> bool" where
  "plain_host h \<longleftrightarrow> (\<forall>c \<in> set h. c \<noteq> CHR ''@'' \<and> c \<noteq> CHR '':'' \<and> c \<noteq> CHR ''['' \<and> c \<noteq> CHR '']'' \<and>
     \<not> is_netloc_end c \<and> \<not> is_unsafe_url_char c)"

lemma plain_host_notin:
  assumes "plain_host h"
  shows "CHR ''@'' \<notin> set h" "CHR '':'' \<notin> set h" "CHR ''['' \<notin> set h" "CHR '']'' \<notin> set h"
  using assms unfolding plain_host_def by blast+

lemma hostinfo_no_bracket:
  assumes "CHR ''@'' \<notin> set x" "CHR ''['' \<notin> set x" "partition_at CHR '':'' x = (h, p)"
  shows "hostinfo x = (h, if opt_str p = [] then None else Some (opt_str p))"
  unfolding hostinfo_def after_last_id[OF assms(1)] partition_at_none[OF assms(2)] Let_def
  by (simp add: assms(3))

lemma hostinfo_plain: "plain_host h \<Longrightarrow> hostinfo h = (h, None)"
  using hostinfo_no_bracket[OF plain_host_notin(1,3) partition_at_none[OF plain_host_notin(2)]]
  by (simp add: opt_str_def)

lemma hostinfo_plain_port:
  assumes h: "plain_host h" and s: "plain_host s" and ne: "s \<noteq> []"
  shows "hostinfo (h @ CHR '':'' # s) = (h, Some s)"
proof -
  let ?x = "h @ CHR '':'' # s"
  have a: "CHR ''@'' \<notin> set ?x" using plain_host_notin(1)[OF h] plain_host_notin(1)[OF s] by simp
  have b: "CHR ''['' \<notin> set ?x" using plain_host_notin(3)[OF h] plain_host_notin(3)[OF s] by simp
  have "partition_at CHR '':'' ?x = (h, Some s)"
    using partition_at_append[OF plain_host_notin(2)[OF h]] by simp
  from hostinfo_no_bracket[OF a b this] show ?thesis using ne by (simp add: opt_str_def)
qed

lemma plain_host_hostinfo:
  assumes "clean nl" "\<forall>c \<in> set nl. \<not> is_netloc_end c" "CHR ''['' \<notin> set nl" "CHR '']'' \<notin> set nl"
  shows "plain_host (fst (hostinfo nl))"
proof -
  let ?hi = "after_last CHR ''@'' nl"
  have sub: "set ?hi \<subseteq> set nl" and at: "CHR ''@'' \<notin> set ?hi" by (rule after_last_set)+
  have "CHR ''['' \<notin> set ?hi" using assms(3) sub by blast
  note nb = partition_at_none[OF this]
  have "fst (hostinfo nl) = takeWhile (\<lambda>c. c \<noteq> CHR '':'') ?hi"
    unfolding hostinfo_def Let_def nb
    by (simp add: partition_at_def split: prod.splits)
  moreover have "\<forall>c \<in> set (takeWhile (\<lambda>c. c \<noteq> CHR '':'') ?hi).
      c \<in> set nl \<and> c \<noteq> CHR ''@'' \<and> c \<noteq> CHR '':''"
    using sub at set_takeWhileD by fast
  ultimately show ?thesis
    using assms unfolding plain_host_def clean_def by (metis (no_types, lifting))
qed

lemma plain_host_lower: "plain_host h \<Longrightarrow> plain_host (lower h)"
  unfolding plain_host_def using lower_special special_not_alpha by metis

lemma plain_host_nat_str: "plain_host (nat_str n)"
  using nat_str_digits digit_special by (auto simp: plain_host_def)

lemma lower_hostname: "lower (opt_str (url_hostname p)) = lower (fst (hostinfo (u_netloc p)))"
proof -
  let ?h = "fst (hostinfo (u_netloc p))"
  obtain a z where az: "partition_at CHR ''%'' ?h = (a, z)" by (cases "partition_at CHR ''%'' ?h")
  have ta: "a = takeWhile (\<lambda>c. c \<noteq> CHR ''%'') ?h" using az partition_at_fst by (metis fst_conv)
  show ?thesis
  proof (cases z)
    case None
    then have "dropWhile (\<lambda>c. c \<noteq> CHR ''%'') ?h = []"
      using az by (auto simp: partition_at_def split: list.splits)
    then have "a = ?h" using ta by (metis append_Nil2 takeWhile_dropWhile_id)
    then show ?thesis using az None by (simp add: url_hostname_def Let_def opt_str_def)
  next
    case (Some t)
    then obtain y where y: "dropWhile (\<lambda>c. c \<noteq> CHR ''%'') ?h = y # t"
      using az by (auto simp: partition_at_def split: list.splits)
    then have "y = CHR ''%''" using hd_dropWhile_end[of "\<lambda>c. c \<noteq> CHR ''%''" ?h] by simp
    then have h: "?h = a @ CHR ''%'' # t" using y ta by (metis takeWhile_dropWhile_id)
    have "lower ''%'' = ''%''" by (simp add: lower_def ascii_lower_def)
    then have "lower (lower a @ CHR ''%'' # t) = lower (a @ CHR ''%'' # t)"
      by (simp add: lower_append lower_def ascii_lower_idem)
    then show ?thesis using az Some h by (simp add: url_hostname_def Let_def opt_str_def)
  qed
qed

subsection \<open>Canonical paths\<close>

lemma canonical_path_prefix: "\<exists>t. path = canonical_path path @ t"
proof -
  have "path = rev (dropWhile (\<lambda>c. c = CHR ''/'') (rev path)) @ rev (takeWhile (\<lambda>c. c = CHR ''/'') (rev path))"
    by (metis rev_append rev_rev_ident takeWhile_dropWhile_id)
  then show ?thesis by (auto simp: canonical_path_def)
qed

lemma canonical_path_set: "set (canonical_path path) \<subseteq> set path"
  using canonical_path_prefix[of path] by (metis Un_upper1 set_append)

lemma canonical_path_hd:
  "path = [] \<or> hd path = CHR ''/'' \<Longrightarrow> canonical_path path = [] \<or> hd (canonical_path path) = CHR ''/''"
  using canonical_path_prefix[of path] by (metis append_is_Nil_conv hd_append2)

lemma endswith_slash: "endswith s ''/'' \<longleftrightarrow> s \<noteq> [] \<and> last s = CHR ''/''"
  by (cases s rule: rev_cases) (auto simp: endswith_def startswith_def)

lemma canonical_path_idem: "canonical_path (canonical_path path) = canonical_path path"
proof (cases "path \<noteq> ''/'' \<and> endswith path ''/''")
  case True
  let ?c = "rev (dropWhile (\<lambda>c. c = CHR ''/'') (rev path))"
  have "\<not> endswith ?c ''/''"
    using hd_dropWhile_end[of "\<lambda>c. c = CHR ''/''" "rev path"] by (auto simp: endswith_slash last_rev)
  then show ?thesis using True by (simp add: canonical_path_def)
next
  case False
  then show ?thesis by (auto simp: canonical_path_def)
qed

definition canonical_parts :: "url_parts \<Rightarrow> int option \<Rightarrow> url_parts" where
  "canonical_parts p port =
     (let h = lower (opt_str (url_hostname p))
      in \<lparr>u_scheme = lower (u_scheme p),
          u_netloc = (case port of None \<Rightarrow> h
                      | Some n \<Rightarrow> if default_port (lower (u_scheme p)) = Some n then h
                                  else h @ CHR '':'' # nat_str (nat n)),
          u_path = canonical_path (u_path p),
          u_query = canonical_query (u_query p), u_fragment = []\<rparr>)"

lemma canonicalize_url_http:
  assumes "urlsplit u = Inr p" "default_port (lower (u_scheme p)) \<noteq> None"
  shows "canonicalize_url u =
    (if u = [] then Inr u else bindR (url_port p) (\<lambda>port. Inr (urlunsplit (canonical_parts p port))))"
  using assms
  by (cases "url_port p") (auto simp: canonicalize_url_def canonical_parts_def Let_def split: option.splits)

lemma url_port_range: "url_port p = Inr (Some n) \<Longrightarrow> 0 \<le> n \<and> n \<le> 65535"
  by (auto simp: url_port_def isdigit_def int_of_digits_nonneg split: option.splits if_splits)

lemma canonical_parts_authority:
  assumes wf: "wf_parts p" and br: "CHR ''['' \<notin> set (u_netloc p)"
    and port: "url_port p = Inr port"
  defines "h \<equiv> lower (fst (hostinfo (u_netloc p)))"
  shows "plain_host h"
    "hostinfo (u_netloc (canonical_parts p port)) =
       (h, case port of None \<Rightarrow> None
           | Some n \<Rightarrow> if default_port (lower (u_scheme p)) = Some n then None else Some (nat_str (nat n)))"
    "set (u_netloc (canonical_parts p port)) \<subseteq> set h \<union> {CHR '':''} \<union> (case port of None \<Rightarrow> {} | Some n \<Rightarrow> set (nat_str (nat n)))"
proof -
  have "plain_host (fst (hostinfo (u_netloc p)))"
    using wf br by (intro plain_host_hostinfo) (auto simp: wf_parts_def)
  then show ph: "plain_host h" unfolding h_def by (rule plain_host_lower)
  have ne: "nat_str k \<noteq> []" for k by (subst nat_str.simps) simp
  show "hostinfo (u_netloc (canonical_parts p port)) =
       (h, case port of None \<Rightarrow> None
           | Some n \<Rightarrow> if default_port (lower (u_scheme p)) = Some n then None else Some (nat_str (nat n)))"
    using hostinfo_plain[OF ph] hostinfo_plain_port[OF ph plain_host_nat_str ne]
    by (simp add: canonical_parts_def lower_hostname h_def Let_def split: option.splits)
  show "set (u_netloc (canonical_parts p port)) \<subseteq> set h \<union> {CHR '':''} \<union> (case port of None \<Rightarrow> {} | Some n \<Rightarrow> set (nat_str (nat n)))"
    by (auto simp: canonical_parts_def lower_hostname h_def Let_def split: option.splits)
qed

lemma plain_host_clean: "plain_host h \<Longrightarrow> clean h"
  by (auto simp: plain_host_def clean_def)

lemma canonical_parts_wf:
  assumes wf: "wf_parts p" and br: "CHR ''['' \<notin> set (u_netloc p)"
    and port: "url_port p = Inr port" and nl: "u_netloc p \<noteq> []"
  shows "wf_parts (canonical_parts p port)"
proof -
  let ?c = "canonical_parts p port"
  note au = canonical_parts_authority[OF wf br port]
  have col: "\<not> is_netloc_end CHR '':'' \<and> \<not> is_unsafe_url_char CHR '':''"
    by (simp add: is_netloc_end_def is_unsafe_url_char_def)
  have n: "c \<noteq> CHR ''['' \<and> c \<noteq> CHR '']'' \<and> \<not> is_netloc_end c \<and> \<not> is_unsafe_url_char c"
    if c: "c \<in> set (u_netloc ?c)" for c
  proof -
    consider "c \<in> set (lower (fst (hostinfo (u_netloc p))))" | "c = CHR '':''" | k where "c \<in> set (nat_str k)"
      using c au(3) by (auto split: option.splits)
    then show ?thesis
    proof cases
      case 1 then show ?thesis using au(1) unfolding plain_host_def by blast
    next
      case 2 then show ?thesis using col by simp
    next
      case 3 then show ?thesis using plain_host_nat_str unfolding plain_host_def by blast
    qed
  qed
  have path: "u_path ?c = canonical_path (u_path p)" "u_query ?c = canonical_query (u_query p)"
    by (simp_all add: canonical_parts_def Let_def)
  have ps: "set (u_path ?c) \<subseteq> set (u_path p)" using canonical_path_set by (simp add: path)
  show ?thesis
    unfolding wf_parts_def
  proof (intro conjI impI)
    show "clean (u_netloc ?c)" using n by (auto simp: clean_def)
    show "clean (u_path ?c)" using wf ps by (auto simp: clean_def wf_parts_def)
    show "clean (u_query ?c)" using canonical_query_chars by (auto simp: clean_def path)
    show "\<forall>c \<in> set (u_netloc ?c). \<not> is_netloc_end c" using n by blast
    show "(CHR ''['' \<in> set (u_netloc ?c)) = (CHR '']'' \<in> set (u_netloc ?c))" using n by blast
    show "u_path ?c = [] \<or> hd (u_path ?c) = CHR ''/''"
      using wf nl canonical_path_hd by (simp add: path wf_parts_def)
    show "CHR ''#'' \<notin> set (u_path ?c)" using wf ps by (auto simp: wf_parts_def)
    show "CHR ''?'' \<notin> set (u_path ?c)" using wf ps by (auto simp: wf_parts_def)
    show "CHR ''#'' \<notin> set (u_query ?c)" using canonical_query_chars path by metis
  qed
qed

lemma default_port_Some: "default_port s = Some n \<Longrightarrow> s = ''http'' \<or> s = ''https''"
  by (simp add: default_port_def split: if_splits)

text \<open>C23. Canonicalisation is idempotent, so the keys derived from it are stable: the canonical form of
  a URL with a host that is not a bracketed IPv6 literal is its own canonical form.\<close>

theorem canonicalize_url_idempotent:
  assumes res: "canonicalize_url u = Inr v" and sp: "urlsplit u = Inr p"
    and host: "url_hostname p \<noteq> None" and br: "CHR ''['' \<notin> set (u_netloc p)"
  shows "canonicalize_url v = Inr v"
proof (cases "u = [] \<or> default_port (lower (u_scheme p)) = None")
  case True
  then have "v = u" using res sp by (cases "u = []") (simp_all add: canonicalize_url_def Let_def)
  then show ?thesis using res by simp
next
  case False
  then obtain dp where dp: "default_port (lower (u_scheme p)) = Some dp" and ne: "u \<noteq> []" by auto
  from res False obtain port where port: "url_port p = Inr port"
    and v: "v = urlunsplit (canonical_parts p port)"
    by (cases "url_port p") (auto simp: canonicalize_url_http[OF sp])
  let ?c = "canonical_parts p port"
  have wf: "wf_parts p" by (rule urlsplit_wf[OF sp])
  have h0: "fst (hostinfo (u_netloc p)) \<noteq> []"
    using host by (auto simp: url_hostname_def Let_def)
  have nl: "u_netloc p \<noteq> []"
  proof
    assume "u_netloc p = []"
    moreover have "fst (hostinfo []) = []" by code_simp
    ultimately show False using h0 by simp
  qed
  note au = canonical_parts_authority[OF wf br port]
  let ?h = "lower (fst (hostinfo (u_netloc p)))"
  have hne: "?h \<noteq> []" using h0 by (simp add: lower_def)
  have cnl: "u_netloc ?c \<noteq> []"
    using hne by (auto simp: canonical_parts_def lower_hostname Let_def split: option.splits)
  have sch: "u_scheme ?c = lower (u_scheme p)" and frag: "u_fragment ?c = []"
    by (simp_all add: canonical_parts_def Let_def)
  have low: "lower (lower s) = lower s" for s by (simp add: lower_def ascii_lower_idem)
  have split: "urlsplit v = Inr ?c"
    unfolding v using default_port_Some[OF dp]
    by (intro urlsplit_urlunsplit canonical_parts_wf[OF wf br port nl] frag cnl) (simp add: sch)
  have cport: "url_port ?c = Inr (case port of None \<Rightarrow> None
      | Some n \<Rightarrow> if n = dp then None else Some n)"
    using url_port_range[of p] port dp int_of_digits_nat_str
    by (auto simp: url_port_def au(2) isdigit_nat_str split: option.splits)
  have same: "canonical_parts ?c (case port of None \<Rightarrow> None | Some n \<Rightarrow> if n = dp then None else Some n) = ?c"
    using au(2) dp
    by (auto simp: canonical_parts_def lower_hostname canonical_path_idem canonical_query_idem Let_def
          split: option.splits)
  have vne: "v \<noteq> []" using cnl by (auto simp: v urlunsplit_def Let_def)
  show ?thesis
    using canonicalize_url_http[OF split] dp vne cport same by (simp add: sch low v)
qed

theorem canonicalize_url_idempotent_witness:
  "canonicalize_url ''https://a.b/x?b=2&a=1'' = Inr ''https://a.b/x?a=1&b=2'' \<and>
   canonicalize_url ''https://a.b/x?a=1&b=2'' = Inr ''https://a.b/x?a=1&b=2''"
proof -
  let ?u = "''HTTPS://u@A.b:443/x/?b=2&utm_source=q&a=1#f''"
  obtain p where p: "urlsplit ?u = Inr p" "url_hostname p \<noteq> None" "CHR ''['' \<notin> set (u_netloc p)"
  proof -
    have "case urlsplit ?u of Inr p \<Rightarrow> url_hostname p \<noteq> None \<and> CHR ''['' \<notin> set (u_netloc p) | Inl e \<Rightarrow> False"
      by code_simp
    then show ?thesis using that by (auto split: sum.splits)
  qed
  have "canonicalize_url ?u = Inr ''https://a.b/x?a=1&b=2''" by code_simp
  from canonicalize_url_idempotent[OF this p] show ?thesis by (simp, code_simp)
qed

text \<open>A bracketed IPv6 host loses its brackets: the canonical form is no longer a valid URL, and
  canonicalising it again raises \<open>ValueError\<close>, against the documented idempotence for any input.\<close>

theorem canonicalize_url_ipv6:
  "canonicalize_url ''http://[::1]/a'' = Inr ''http://::1/a'' \<and>
   (case canonicalize_url ''http://::1/a'' of Inl e \<Rightarrow> isinst e ValueErr | Inr v \<Rightarrow> False)"
  by code_simp

text \<open>C24. The query of a canonical URL means what the original query meant, less the tracking: parsing
  it gives the original pairs without those whose key starts with \<open>utm_\<close>, stably sorted by key,
  for keys and values whose escapes are UTF-8 text.\<close>

theorem canonical_query_parses_back:
  "parse_qsl (canonical_query q) = sort_key fst (filter (\<lambda>(k, v). \<not> is_utm k) (parse_qsl q))"
  by (simp add: parse_qsl_canonical_query canonical_pairs_def case_prod_unfold)

end
