(* ===== verification/Py_Json.thy ===== *)
theory Py_Json
  imports Py_Base Errors
begin

text \<open>
  Parsed JSON values (the dicts the program passes around and stores), Python truthiness, the
  \<open>get\<close> method, files that hold one JSON document, and the part of the process environment the
  modelled code reads: clock, process ids, environment variables.
\<close>

datatype json =
    JNull
  | JBool bool
  | JInt int
  | JFloat pyfloat
  | JStr string
  | JList "json list"
  | JDict "(string \<times> json) list"

type_synonym jdict = "(string, json) dict"

fun truthy :: "json \<Rightarrow> bool" where
  "truthy JNull = False"
| "truthy (JBool b) = b"
| "truthy (JInt n) = (n \<noteq> 0)"
| "truthy (JFloat x) = (x \<noteq> 0)"
| "truthy (JStr s) = (s \<noteq> [])"
| "truthy (JList xs) = (xs \<noteq> [])"
| "truthy (JDict d) = (d \<noteq> [])"

text \<open>\<open>x\<close> where \<open>x\<close> may be \<open>None\<close>: the truth value of an optional result.\<close>

definition opt_truthy :: "json option \<Rightarrow> bool" where
  "opt_truthy j = (case j of None \<Rightarrow> False | Some v \<Rightarrow> truthy v)"

fun jdict_of :: "json \<Rightarrow> exn + jdict" where
  "jdict_of (JDict d) = Inr d"
| "jdict_of JNull = Inl (mkexn AttributeErr ''None'')"
| "jdict_of (JBool b) = Inl (mkexn AttributeErr ''bool'')"
| "jdict_of (JInt n) = Inl (mkexn AttributeErr ''int'')"
| "jdict_of (JFloat x) = Inl (mkexn AttributeErr ''float'')"
| "jdict_of (JStr s) = Inl (mkexn AttributeErr ''str'')"
| "jdict_of (JList xs) = Inl (mkexn AttributeErr ''list'')"

text \<open>\<open>d.get(k)\<close> and \<open>d.get(k, dflt)\<close> of a dict: a missing key is \<open>None\<close> or the default.\<close>

definition jget :: "jdict \<Rightarrow> string \<Rightarrow> json" where
  "jget d k = dget_or d k JNull"

definition jget_or :: "jdict \<Rightarrow> string \<Rightarrow> json \<Rightarrow> json" where
  "jget_or d k v = dget_or d k v"

text \<open>\<open>hash(x)\<close>: lists and dicts are unhashable.\<close>

fun hashable :: "json \<Rightarrow> bool" where
  "hashable (JList xs) = False"
| "hashable (JDict d) = False"
| "hashable _ = True"

text \<open>\<open>int(x)\<close>: a float is truncated toward zero, a bool is 0 or 1, a string is parsed.\<close>

definition trunc_int :: "pyfloat \<Rightarrow> int" where
  "trunc_int x = (if x < 0 then - floor (- x) else floor x)"

fun py_int :: "json \<Rightarrow> exn + int" where
  "py_int (JInt n) = Inr n"
| "py_int (JBool b) = Inr (if b then 1 else 0)"
| "py_int (JFloat x) = Inr (trunc_int x)"
| "py_int (JStr s) = (case int_of_str s of Some n \<Rightarrow> Inr n | None \<Rightarrow> Inl (mkexn ValueErr ''invalid literal for int()''))"
| "py_int _ = Inl (mkexn TypeErr ''int() argument'')"

text \<open>A file that should hold one JSON document: absent, unreadable, or its parsed content.\<close>

datatype json_file = FAbsent | FBad exn | FJson json

definition read_json :: "json_file \<Rightarrow> exn + json" where
  "read_json f = (case f of
       FAbsent \<Rightarrow> Inl (mkexn FileNotFound [])
     | FBad e \<Rightarrow> Inl e
     | FJson j \<Rightarrow> Inr j)"

section \<open>Stateful calls\<close>

definition retS :: "'a \<Rightarrow> 's \<Rightarrow> (exn + 'a) \<times> 's" where
  "retS a s = (Inr a, s)"

definition raiseS :: "exn \<Rightarrow> 's \<Rightarrow> (exn + 'a) \<times> 's" where
  "raiseS e s = (Inl e, s)"

definition bindS ::
  "('s \<Rightarrow> (exn + 'a) \<times> 's) \<Rightarrow> ('a \<Rightarrow> 's \<Rightarrow> (exn + 'b) \<times> 's) \<Rightarrow> 's \<Rightarrow> (exn + 'b) \<times> 's" where
  "bindS m f s = (case m s of (Inl e, s') \<Rightarrow> (Inl e, s') | (Inr a, s') \<Rightarrow> f a s')"

text \<open>\<open>try: m except cls: handler\<close>; effects before the exception stay.\<close>

definition catchS ::
  "exc_class list \<Rightarrow> ('s \<Rightarrow> (exn + 'a) \<times> 's) \<Rightarrow> (exn \<Rightarrow> 's \<Rightarrow> (exn + 'a) \<times> 's) \<Rightarrow> 's \<Rightarrow> (exn + 'a) \<times> 's" where
  "catchS cs m h s =
     (case m s of
        (Inl e, s') \<Rightarrow> if list_ex (isinst e) cs then h e s' else (Inl e, s')
      | (Inr a, s') \<Rightarrow> (Inr a, s'))"

definition liftR :: "exn + 'a \<Rightarrow> 's \<Rightarrow> (exn + 'a) \<times> 's" where
  "liftR r s = (r, s)"

lemmas stateful_simps = retS_def raiseS_def bindS_def catchS_def liftR_def

lemma bindS_cases:
  assumes "bindS m f w = (r, w')"
  obtains (err) e where "m w = (Inl e, w')" "r = Inl e" | (ok) a w1 where "m w = (Inr a, w1)" "f a w1 = (r, w')"
  using assms by (auto simp: bindS_def split: prod.splits sum.splits)

lemma bindS_Inr:
  "bindS m f w = (Inr b, w') \<longleftrightarrow> (\<exists>a w1. m w = (Inr a, w1) \<and> f a w1 = (Inr b, w'))"
  by (auto simp: bindS_def split: prod.splits sum.splits)

lemma bindS_step: "m w = (Inr a, w1) \<Longrightarrow> bindS m f w = f a w1"
  by (simp add: bindS_def)

lemma bindS_stop: "m w = (Inl e, w1) \<Longrightarrow> bindS m f w = (Inl e, w1)"
  by (simp add: bindS_def)

lemma bindS_liftR: "bindS (liftR (Inr a)) f w = f a w" "bindS (liftR (Inl e)) f w = (Inl e, w)"
  by (simp_all add: bindS_def liftR_def)

lemma bindS_retS: "bindS (retS a) f w = f a w"
  by (simp add: bindS_def retS_def)

section \<open>The process\<close>

text \<open>What \<open>os.kill(pid, 0)\<close> does: succeed, or raise one of the \<open>OSError\<close> family; the number is
  \<open>winerror\<close>.\<close>

datatype kill_outcome = KillOk | KillNoProcess | KillDenied | KillOSError "int option"

record env =
  e_now :: pyfloat
  e_pid :: int
  e_kill :: "int \<Rightarrow> kill_outcome"
  e_environ :: "(string, string) dict"
  e_user :: string
  e_str :: "json \<Rightarrow> string"
  e_iso :: "string \<Rightarrow> pyfloat option"
  e_fmt :: "pyfloat \<Rightarrow> string"
  e_ckpt_write :: "string \<Rightarrow> json \<Rightarrow> exn option"

text \<open>\<open>str(x)\<close>: the identity on strings; of the other values it is a parameter.\<close>

definition py_str :: "env \<Rightarrow> json \<Rightarrow> string" where
  "py_str env j = (case j of JStr s \<Rightarrow> s | _ \<Rightarrow> e_str env j)"

lemma py_str_JStr [simp]: "py_str env (JStr s) = s"
  by (simp add: py_str_def)

definition getenv :: "env \<Rightarrow> string \<Rightarrow> string option" where
  "getenv env k = dget (e_environ env) k"

text \<open>A concrete environment for evaluation: no process but this one is alive.\<close>

definition env0 :: env where
  "env0 = \<lparr>e_now = 1000, e_pid = 42, e_kill = (\<lambda>p. if p = 42 then KillOk else KillNoProcess),
     e_environ = [], e_user = ''op'', e_str = (\<lambda>j. ''?''),
     e_iso = (\<lambda>s. if isdigit s then Some (of_int (int_of_digits s)) else None),
     e_fmt = (\<lambda>x. nat_str (nat \<lfloor>x\<rfloor>)), e_ckpt_write = (\<lambda>r j. None)\<rparr>"

text \<open>
  \<open>e_fmt\<close> is \<open>datetime.now(UTC).isoformat(timespec="seconds")\<close> of a clock reading, \<open>e_iso\<close> is
  \<open>datetime.fromisoformat(s).timestamp()\<close>, \<open>None\<close> where that raises \<open>ValueError\<close>. The documented
  law of the pair: parsing what was formatted gives the time cut to the second; the text is not
  empty.
\<close>

definition iso_ok :: "env \<Rightarrow> bool" where
  "iso_ok env \<longleftrightarrow> (\<forall>x \<ge> 0. e_iso env (e_fmt env x) = Some (of_int \<lfloor>x\<rfloor>) \<and> e_fmt env x \<noteq> [])"

lemma iso_ok_env0: "iso_ok env0"
  by (simp add: iso_ok_def env0_def isdigit_nat_str int_of_digits_nat_str nat_str_nonempty)

lemma iso_ok_now [simp]: "iso_ok (env\<lparr>e_now := t\<rparr>) = iso_ok env"
  by (simp add: iso_ok_def)

lemma jget_dput [simp]: "jget (dput k v d) k' = (if k' = k then v else jget d k')"
  by (simp add: jget_def dget_or_def)

lemma jget_or_dput [simp]: "jget_or (dput k v d) k' x = (if k' = k then v else jget_or d k' x)"
  by (simp add: jget_or_def dget_or_def)

end
