(* ===== verification/Sqlite_Util.thy ===== *)
theory Sqlite_Util
  imports Py_Json
begin

text \<open>
  The SQLite plumbing of \<open>events/_store_sqlite.py\<close> and of the stores: statement screening, the
  liveness probe of a lease owner, transactions with rollback, and the bounded retry of
  transient errors. A database is its table and the faults the next transactions meet; each
  attempt of a transaction consumes one entry, and an exhausted list means no more faults.
\<close>

section \<open>Statement screening\<close>

definition lstrip :: "string \<Rightarrow> string" where
  "lstrip s = dropWhile is_space s"

definition rstrip :: "string \<Rightarrow> string" where
  "rstrip s = rev (dropWhile is_space (rev s))"

definition ascii_upper :: "char \<Rightarrow> char" where
  "ascii_upper c =
     (let n = of_char c :: nat in if 97 \<le> n \<and> n \<le> 122 then char_of (n - 32) else c)"

text \<open>The text after the first occurrence of a pattern, if there is one.\<close>

fun after_first :: "string \<Rightarrow> string \<Rightarrow> string option" where
  "after_first p [] = (if p = [] then Some [] else None)"
| "after_first p (c # s) =
     (if startswith (c # s) p then Some (drop (length p) (c # s)) else after_first p s)"

lemma after_first_shorter:
  "p \<noteq> [] \<Longrightarrow> after_first p s = Some t \<Longrightarrow> length t < length s"
proof (induction s)
  case (Cons c s)
  show ?case
  proof (cases "startswith (c # s) p")
    case True
    then have "t = drop (length p) (c # s)" using Cons.prems by simp
    then show ?thesis using Cons.prems(1) by (cases p) auto
  next
    case False
    then show ?thesis using Cons by auto
  qed
qed auto

lemma lstrip_length: "length (lstrip s) \<le> length s"
  by (simp add: lstrip_def length_dropWhile_le)

text \<open>The loop over leading block comments; \<open>None\<close> for an unterminated comment.\<close>

function strip_comments :: "string \<Rightarrow> string option" where
  "strip_comments s =
     (if startswith s ''/*''
      then (case after_first ''*/'' s of
              None \<Rightarrow> None
            | Some rest \<Rightarrow> strip_comments (lstrip rest))
      else Some s)"
  by pat_completeness auto
termination
  by (relation "measure length") (auto intro: le_less_trans[OF lstrip_length] after_first_shorter[of "''*/''"])

declare strip_comments.simps [simp del]

definition is_select_statement :: "string \<Rightarrow> bool" where
  "is_select_statement sql =
     (case strip_comments (lstrip sql) of
        None \<Rightarrow> False
      | Some stripped \<Rightarrow>
          (let head = map ascii_upper (take 10 stripped); tail = rstrip stripped
           in if \<not> (startswith head ''SELECT '' \<or> startswith head (''SELECT'' @ [CHR 0x0A])
                     \<or> startswith head ''WITH '' \<or> startswith head (''WITH'' @ [CHR 0x0A]))
              then False
              else CHR '';'' \<notin> set (butlast tail)))"

section \<open>Liveness of an owner\<close>

definition pid_alive :: "env \<Rightarrow> int \<Rightarrow> bool" where
  "pid_alive env pid =
     (if pid \<le> 0 then False
      else case e_kill env pid of
             KillNoProcess \<Rightarrow> False
           | KillDenied \<Rightarrow> True
           | KillOSError w \<Rightarrow> w \<noteq> Some 87
           | KillOk \<Rightarrow> True)"

section \<open>Bounded retry\<close>

definition is_transient_sqlite_error :: "exn \<Rightarrow> bool" where
  "is_transient_sqlite_error e =
     (let msg = lower (str_exn e)
      in contains ''disk i/o error'' msg \<or> contains ''database is locked'' msg)"

definition MAX_RETRIES :: nat where "MAX_RETRIES = 3"

definition BASE_BACKOFF_S :: pyfloat where "BASE_BACKOFF_S = 1 / 20"

text \<open>
  The loop of \<open>_retry_sqlite\<close>, with \<open>left\<close> attempts left of \<open>max_retries\<close>: the result, the state,
  and the durations slept.
\<close>

fun retry_loop ::
  "nat \<Rightarrow> nat \<Rightarrow> ('s \<Rightarrow> (exn + 'a) \<times> 's) \<Rightarrow> exn option \<Rightarrow> 's \<Rightarrow> ((exn + 'a) \<times> 's) \<times> pyfloat list" where
  "retry_loop max_retries 0 op last_exc s =
     (((case last_exc of
          Some e \<Rightarrow> Inl e
        | None \<Rightarrow> Inl (mkexn (OtherError ''AssertionError'') [])), s), [])"
| "retry_loop max_retries (Suc left) op last_exc s =
     (case op s of
        (Inr a, s') \<Rightarrow> ((Inr a, s'), [])
      | (Inl e, s') \<Rightarrow>
          if \<not> isinst e SqliteOperational then ((Inl e, s'), [])
          else if \<not> is_transient_sqlite_error e then ((Inl e, s'), [])
          else (let attempt = max_retries - left;
                    (r, sleeps) = retry_loop max_retries left op (Some e) s'
                in (r, if attempt < max_retries
                       then BASE_BACKOFF_S * of_nat attempt # sleeps else sleeps)))"

definition retry_sqlite :: "('s \<Rightarrow> (exn + 'a) \<times> 's) \<Rightarrow> 's \<Rightarrow> (exn + 'a) \<times> 's" where
  "retry_sqlite op s = fst (retry_loop MAX_RETRIES MAX_RETRIES op None s)"

section \<open>Transactions\<close>

datatype fault = NoFault | FBegin exn | FCommit exn

text \<open>
  \<open>with connect_immediate() as conn: body\<close>. An error before the body (open, BEGIN) or from the
  body or the commit rolls the table back and is raised again.
\<close>

fun txn :: "fault \<Rightarrow> ('t \<Rightarrow> (exn + 'a) \<times> 't) \<Rightarrow> 't \<Rightarrow> (exn + 'a) \<times> 't" where
  "txn (FBegin e) body t = (Inl e, t)"
| "txn NoFault body t =
     (case body t of (Inr a, t') \<Rightarrow> (Inr a, t') | (Inl e, t') \<Rightarrow> (Inl e, t))"
| "txn (FCommit e) body t =
     (case body t of (Inr a, t') \<Rightarrow> (Inl e, t) | (Inl e', t') \<Rightarrow> (Inl e', t))"

record 't db =
  db_rows :: 't
  db_faults :: "fault list"

definition connect_txn :: "('t \<Rightarrow> (exn + 'a) \<times> 't) \<Rightarrow> 't db \<Rightarrow> (exn + 'a) \<times> 't db" where
  "connect_txn body d =
     (let (f, rest) = (case db_faults d of [] \<Rightarrow> (NoFault, []) | f # fs \<Rightarrow> (f, fs));
          (r, t) = txn f body (db_rows d)
      in (r, \<lparr>db_rows = t, db_faults = rest\<rparr>))"

text \<open>An operation of a store: its transaction under the bounded retry.\<close>

definition run_op :: "('t \<Rightarrow> (exn + 'a) \<times> 't) \<Rightarrow> 't db \<Rightarrow> (exn + 'a) \<times> 't db" where
  "run_op body = retry_sqlite (connect_txn body)"

section \<open>Facts\<close>

lemma txn_effect:
  "txn f body t = (r, t') \<Longrightarrow>
     t' = t \<and> isl r \<or> (\<exists>a. r = Inr a \<and> body t = (Inr a, t'))"
  by (cases f) (auto split: prod.splits sum.splits)

lemma connect_txn_effect:
  "connect_txn body d = (r, d') \<Longrightarrow>
     db_rows d' = db_rows d \<and> isl r \<or>
     (\<exists>a. r = Inr a \<and> body (db_rows d) = (Inr a, db_rows d'))"
proof -
  obtain f rest where f: "(case db_faults d of [] \<Rightarrow> (NoFault, []) | f # fs \<Rightarrow> (f, fs)) = (f, rest)"
    by (cases "db_faults d") auto
  obtain q t where q: "txn f body (db_rows d) = (q, t)" by (cases "txn f body (db_rows d)")
  assume "connect_txn body d = (r, d')"
  then have "r = q" "db_rows d' = t" by (auto simp: connect_txn_def f q)
  then show ?thesis using txn_effect[OF q] by simp
qed

text \<open>
  The loop, for an operation that leaves an abstraction of the state alone when it fails: a
  result comes from one successful attempt, and a failure leaves the abstraction unchanged.
\<close>

lemma retry_loop_effect:
  assumes "\<And>s r s'. op s = (r, s') \<Longrightarrow> A s' = A s \<and> isl r \<or> (\<exists>a. r = Inr a \<and> B (A s) a (A s'))"
  shows "fst (retry_loop m n op last_exc s) = (r, s') \<Longrightarrow>
           A s' = A s \<and> isl r \<or> (\<exists>a. r = Inr a \<and> B (A s) a (A s'))"
proof (induction n arbitrary: last_exc s)
  case 0
  then show ?case by (auto split: option.splits)
next
  case (Suc n)
  obtain q t where q: "op s = (q, t)" by (cases "op s")
  note step = assms[OF q]
  show ?case
  proof (cases q)
    case (Inr a)
    then show ?thesis using Suc.prems q step by simp
  next
    case (Inl e)
    then have At: "A t = A s" using step by auto
    show ?thesis
    proof (cases "isinst e SqliteOperational \<and> is_transient_sqlite_error e")
      case True
      then have "fst (retry_loop m n op (Some e) t) = (r, s')"
        using Suc.prems q Inl by (auto simp: Let_def split: prod.splits)
      from Suc.IH[OF this] show ?thesis by (simp add: At)
    next
      case False
      then show ?thesis using Suc.prems q Inl At by (auto split: if_splits)
    qed
  qed
qed

lemma run_op_effect:
  "run_op body d = (r, d') \<Longrightarrow>
     db_rows d' = db_rows d \<and> isl r \<or>
     (\<exists>a. r = Inr a \<and> body (db_rows d) = (Inr a, db_rows d'))"
  unfolding run_op_def retry_sqlite_def
  by (rule retry_loop_effect[where A = db_rows and B = "\<lambda>t a t'. body t = (Inr a, t')"])
     (rule connect_txn_effect)

lemma retry_loop_sleeps: "length (snd (retry_loop m n op last_exc s)) \<le> n"
proof (induction n arbitrary: last_exc s)
  case (Suc n)
  have IH: "retry_loop m n op l t = (x, ss) \<Longrightarrow> length ss \<le> n" for l t x ss
    using Suc.IH[of l t] by simp
  show ?case
    using IH by (auto simp: Let_def le_SucI split: prod.splits sum.splits)
qed simp

text \<open>
  A transient fault is retried: as long as fewer faults than attempts stand before it, a
  transaction whose body succeeds takes effect exactly once.
\<close>

fun transient_fault :: "fault \<Rightarrow> bool" where
  "transient_fault NoFault = False"
| "transient_fault (FBegin e) = (isinst e SqliteOperational \<and> is_transient_sqlite_error e)"
| "transient_fault (FCommit e) = (isinst e SqliteOperational \<and> is_transient_sqlite_error e)"

lemma connect_txn_no_fault:
  "db_faults d = [] \<Longrightarrow> body (db_rows d) = (Inr a, t) \<Longrightarrow>
     connect_txn body d = (Inr a, \<lparr>db_rows = t, db_faults = []\<rparr>)"
  by (simp add: connect_txn_def)

lemma connect_txn_fault:
  assumes "db_faults d = f # fs" "transient_fault f" "body (db_rows d) = (Inr a, t)"
  shows "\<exists>e. connect_txn body d = (Inl e, \<lparr>db_rows = db_rows d, db_faults = fs\<rparr>) \<and>
             isinst e SqliteOperational \<and> is_transient_sqlite_error e"
  using assms by (cases f) (auto simp: connect_txn_def)

lemma retry_loop_recovers:
  assumes "body rows = (Inr a, t)" "list_all transient_fault fs" "length fs < n"
  shows "fst (retry_loop m n (connect_txn body) l \<lparr>db_rows = rows, db_faults = fs\<rparr>) =
           (Inr a, \<lparr>db_rows = t, db_faults = []\<rparr>)"
  using assms(2,3)
proof (induction fs arbitrary: n l)
  case Nil
  then obtain k where n: "n = Suc k" by (cases n) auto
  show ?case unfolding n using assms(1) by (simp add: connect_txn_no_fault)
next
  case (Cons f fs)
  then obtain k where n: "n = Suc k" "length fs < k" by (cases n) auto
  obtain e where e: "connect_txn body \<lparr>db_rows = rows, db_faults = f # fs\<rparr> =
      (Inl e, \<lparr>db_rows = rows, db_faults = fs\<rparr>)" "isinst e SqliteOperational" "is_transient_sqlite_error e"
    using connect_txn_fault[of "\<lparr>db_rows = rows, db_faults = f # fs\<rparr>" f fs body a t] Cons.prems assms(1)
    by auto
  have "fst (retry_loop m k (connect_txn body) (Some e) \<lparr>db_rows = rows, db_faults = fs\<rparr>) =
      (Inr a, \<lparr>db_rows = t, db_faults = []\<rparr>)"
    using Cons.IH[of k "Some e"] Cons.prems n by simp
  then show ?case unfolding n using e by (auto simp: Let_def split: prod.splits)
qed

lemma run_op_recovers:
  assumes "body (db_rows d) = (Inr a, t)" "list_all transient_fault (db_faults d)"
    "length (db_faults d) < MAX_RETRIES"
  shows "run_op body d = (Inr a, \<lparr>db_rows = t, db_faults = []\<rparr>)"
  unfolding run_op_def retry_sqlite_def
  using retry_loop_recovers[of body "db_rows d" a t "db_faults d"] assms by (cases d) simp

lemma run_op_no_fault:
  "db_faults d = [] \<Longrightarrow> body (db_rows d) = (Inr a, t) \<Longrightarrow>
     run_op body d = (Inr a, \<lparr>db_rows = t, db_faults = []\<rparr>)"
  by (rule run_op_recovers) (auto simp: MAX_RETRIES_def)

text \<open>An error of the body that is not an SQLite one is raised at once, with nothing written.\<close>

lemma run_op_body_error:
  assumes "db_faults d = []" "body (db_rows d) = (Inl e, t)" "\<not> isinst e SqliteOperational"
  shows "run_op body d = (Inl e, \<lparr>db_rows = db_rows d, db_faults = []\<rparr>)"
  using assms by (simp add: run_op_def retry_sqlite_def MAX_RETRIES_def numeral_3_eq_3 connect_txn_def)

lemma run_op_simple:
  assumes "db_faults d = []" "\<And>e. fst (body (db_rows d)) = Inl e \<Longrightarrow> \<not> isinst e SqliteOperational"
  shows "run_op body d =
    (case body (db_rows d) of
       (Inr a, t) \<Rightarrow> (Inr a, d\<lparr>db_rows := t\<rparr>)
     | (Inl e, t) \<Rightarrow> (Inl e, d))"
proof -
  have d: "d\<lparr>db_rows := t\<rparr> = \<lparr>db_rows = t, db_faults = []\<rparr>" for t using assms(1) by (cases d) simp
  have d': "\<lparr>db_rows = db_rows d, db_faults = []\<rparr> = d" using assms(1) by (cases d) simp
  obtain q t where q: "body (db_rows d) = (q, t)" by (cases "body (db_rows d)")
  show ?thesis
  proof (cases q)
    case (Inl e)
    then show ?thesis using run_op_body_error[OF assms(1), of body e t] assms(2) q d' by simp
  next
    case (Inr a)
    then show ?thesis using run_op_no_fault[where body = body, OF assms(1)] q d by simp
  qed
qed

end
