(* ===== verification/Dedup_Store.thy ===== *)
theory Dedup_Store
  imports Sqlite_Util Url
begin

text \<open>
  The dedup record store (\<open>idempotency/store.py\<close>): one row per (platform, account, canonical
  target URL), its state machine, and the transactions that read and write it. The table
  \<open>dedup_keys\<close> is an association list from the primary key to the other columns. The clock and
  the process table come from \<open>env\<close>; one operation reads the clock once.
\<close>

section \<open>Data\<close>

datatype dstate = Attempting | Done | Failed | Uncertain

fun dstate_name :: "dstate \<Rightarrow> string" where
  "dstate_name Attempting = ''attempting''"
| "dstate_name Done = ''done''"
| "dstate_name Failed = ''failed''"
| "dstate_name Uncertain = ''uncertain''"

definition TERMINAL :: "dstate set" where "TERMINAL = {Done, Failed}"

definition STALE_TTL_S :: pyfloat where "STALE_TTL_S = 3600"

definition DIGEST_LEN :: nat where "DIGEST_LEN = 16"

record dedup_key =
  k_platform :: string
  k_target_url :: string
  k_account :: string

type_synonym dkey = "string \<times> string \<times> string"

definition as_tuple :: "dedup_key \<Rightarrow> dkey" where
  "as_tuple k = (k_platform k, k_account k, k_target_url k)"

text \<open>The constructor canonicalises the URL; it raises what \<open>canonicalize_url\<close> raises.\<close>

definition new_DedupKey :: "string \<Rightarrow> string \<Rightarrow> string \<Rightarrow> exn + dedup_key" where
  "new_DedupKey platform target_url account =
     bindR (canonicalize_url target_url) (\<lambda>u.
       Inr \<lparr>k_platform = platform, k_target_url = u, k_account = account\<rparr>)"

text \<open>The columns of a row beside its primary key.\<close>

record dedup_row =
  c_account_binding_id :: "string option"
  c_state :: dstate
  c_verify_ok :: "int option"
  c_live_url :: "string option"
  c_run_id :: "string option"
  c_owner_pid :: "int option"
  c_owner_run_id :: "string option"
  c_owner_started_at :: "pyfloat option"
  c_updated_at :: pyfloat

type_synonym dtable = "(dkey, dedup_row) dict"

record dedup_record =
  r_platform :: string
  r_account :: string
  r_target_url :: string
  r_state :: dstate
  r_verify_ok :: "bool option"
  r_live_url :: "string option"
  r_run_id :: "string option"
  r_owner_pid :: "int option"
  r_owner_run_id :: "string option"
  r_owner_started_at :: "pyfloat option"
  r_updated_at :: pyfloat

definition row_to_record :: "dkey \<times> dedup_row \<Rightarrow> dedup_record" where
  "row_to_record kr =
     (case kr of ((platform, account, target_url), r) \<Rightarrow>
       \<lparr>r_platform = platform, r_account = account, r_target_url = target_url,
        r_state = c_state r, r_verify_ok = map_option (\<lambda>n. n \<noteq> 0) (c_verify_ok r),
        r_live_url = c_live_url r, r_run_id = c_run_id r, r_owner_pid = c_owner_pid r,
        r_owner_run_id = c_owner_run_id r, r_owner_started_at = c_owner_started_at r,
        r_updated_at = c_updated_at r\<rparr>)"

text \<open>The property \<open>DedupRecord.key\<close> goes through the constructor again.\<close>

definition record_key :: "dedup_record \<Rightarrow> exn + dedup_key" where
  "record_key r = new_DedupKey (r_platform r) (r_target_url r) (r_account r)"

definition record_tuple :: "dedup_record \<Rightarrow> dkey" where
  "record_tuple r = (r_platform r, r_account r, r_target_url r)"

record intent_outcome =
  won :: bool
  existing_state :: "dstate option"

datatype verdict = VDispatch | VSkip | VHold | VConflict

record gate_decision =
  gd_verdict :: verdict
  gd_record :: "dedup_record option"

section \<open>SQL statements\<close>

type_synonym 'a stmt = "dtable \<Rightarrow> (exn + 'a) \<times> dtable"

definition sql_select :: "dedup_key \<Rightarrow> dtable \<Rightarrow> dedup_row option" where
  "sql_select k t = dget t (as_tuple k)"

definition sql_insert :: "dedup_key \<Rightarrow> dedup_row \<Rightarrow> unit stmt" where
  "sql_insert k r t =
     (case dget t (as_tuple k) of
        Some _ \<Rightarrow> (Inl (mkexn SqliteIntegrity ''UNIQUE constraint failed''), t)
      | None \<Rightarrow> (Inr (), dput (as_tuple k) r t))"

text \<open>\<open>UPDATE ... WHERE\<close> the primary key: no row, no change.\<close>

definition sql_update :: "dedup_key \<Rightarrow> (dedup_row \<Rightarrow> dedup_row) \<Rightarrow> dtable \<Rightarrow> dtable" where
  "sql_update k f t =
     (case dget t (as_tuple k) of None \<Rightarrow> t | Some r \<Rightarrow> dput (as_tuple k) (f r) t)"

definition sql_delete :: "dedup_key \<Rightarrow> dtable \<Rightarrow> dtable" where
  "sql_delete k t = ddel (as_tuple k) t"

definition coalesce :: "'a option \<Rightarrow> 'a option \<Rightarrow> 'a option" where
  "coalesce a b = (case a of None \<Rightarrow> b | Some _ \<Rightarrow> a)"

definition sql_bool :: "bool \<Rightarrow> int" where
  "sql_bool b = (if b then 1 else 0)"

type_synonym dstore = "dtable db"

section \<open>The key digest\<close>

text \<open>
  The per-store secret. \<open>read0\<close> is what the first read of the file returns (empty if absent),
  \<open>excl_fails\<close> whether the exclusive create finds the file there, \<open>poll i\<close> what the \<open>i\<close>-th read
  after that returns. The second component is what this call writes to the file.
\<close>

fun poll_secret :: "nat \<Rightarrow> nat \<Rightarrow> (nat \<Rightarrow> string) \<Rightarrow> string option" where
  "poll_secret i 0 poll = None"
| "poll_secret i (Suc n) poll = (if poll i \<noteq> [] then Some (poll i) else poll_secret (Suc i) n poll)"

definition load_or_create_secret ::
  "string \<Rightarrow> string \<Rightarrow> bool \<Rightarrow> (nat \<Rightarrow> string) \<Rightarrow> string \<times> string option" where
  "load_or_create_secret read0 token excl_fails poll =
     (if read0 \<noteq> [] then (read0, None)
      else if excl_fails
           then (case poll_secret 0 10 poll of
                   Some w \<Rightarrow> (w, None)
                 | None \<Rightarrow> (if poll 10 \<noteq> [] then poll 10 else token, None))
      else (token, Some token))"

text \<open>\<open>hmac_hex\<close> stands for the hexadecimal HMAC-SHA256 of the standard library.\<close>

definition key_digest :: "(string \<Rightarrow> string \<Rightarrow> string) \<Rightarrow> string \<Rightarrow> dedup_key \<Rightarrow> string" where
  "key_digest hmac_hex secret k =
     take DIGEST_LEN
       (hmac_hex secret (join [CHR 0x1F] [k_platform k, k_account k, k_target_url k]))"

definition store_token :: "(string \<Rightarrow> string \<Rightarrow> string) \<Rightarrow> string \<Rightarrow> string" where
  "store_token hmac_hex secret =
     take DIGEST_LEN (hmac_hex secret ''dedup-store-generation-v1'')"

section \<open>Reads\<close>

definition get_body :: "dedup_key \<Rightarrow> (dedup_record option) stmt" where
  "get_body k t =
     (Inr (case sql_select k t of
             None \<Rightarrow> None
           | Some r \<Rightarrow> Some (row_to_record (as_tuple k, r))), t)"

definition store_get :: "dedup_key \<Rightarrow> dstore \<Rightarrow> (exn + dedup_record option) \<times> dstore" where
  "store_get k = run_op (get_body k)"

text \<open>
  The batch read selects the rows whose primary key is in the list of wanted keys, and builds a
  dict from them; without keys no connection is opened.
\<close>

definition get_many_body :: "dkey list \<Rightarrow> (dkey, dedup_record) dict stmt" where
  "get_many_body wanted t =
     (Inr (fold (\<lambda>kr out. dput (fst kr) (row_to_record kr) out)
             (filter (\<lambda>kr. fst kr \<in> set wanted) t) []), t)"

definition store_get_many ::
  "dedup_key list \<Rightarrow> dstore \<Rightarrow> (exn + (dkey, dedup_record) dict) \<times> dstore" where
  "store_get_many keys d =
     (let wanted = remdups (map as_tuple keys)
      in if wanted = [] then (Inr [], d) else run_op (get_many_body wanted) d)"

text \<open>Rows with the same timestamp come in table order (SQL leaves their order open).\<close>

definition list_by_state_body :: "dstate \<Rightarrow> string option \<Rightarrow> dedup_record list stmt" where
  "list_by_state_body state platform t =
     (let rows = filter (\<lambda>kr. c_state (snd kr) = state \<and>
                    (case platform of None \<Rightarrow> True | Some p \<Rightarrow> p = [] \<or> fst (fst kr) = p)) t
      in (Inr (map row_to_record (sort_key (\<lambda>kr. - c_updated_at (snd kr)) rows)), t))"

definition list_by_state ::
  "dstate \<Rightarrow> string option \<Rightarrow> dstore \<Rightarrow> (exn + dedup_record list) \<times> dstore" where
  "list_by_state state platform = run_op (list_by_state_body state platform)"

definition is_stale_attempting :: "env \<Rightarrow> dedup_record \<Rightarrow> pyfloat option \<Rightarrow> pyfloat \<Rightarrow> bool" where
  "is_stale_attempting env rec now_arg ttl_s =
     (if r_state rec \<noteq> Attempting then False
      else let now = (case now_arg of None \<Rightarrow> e_now env | Some n \<Rightarrow> n)
           in if (case r_owner_pid rec of None \<Rightarrow> False | Some p \<Rightarrow> \<not> pid_alive env p) then True
              else now - r_updated_at rec > ttl_s)"

section \<open>Writes\<close>

text \<open>The ownership arguments of the two claiming operations.\<close>

record claimant =
  cl_run_id :: "string option"
  cl_owner_pid :: "int option"
  cl_owner_run_id :: "string option"
  cl_owner_started_at :: "pyfloat option"

definition owner_pid_of :: "env \<Rightarrow> claimant \<Rightarrow> int" where
  "owner_pid_of env c = (case cl_owner_pid c of None \<Rightarrow> e_pid env | Some p \<Rightarrow> p)"

text \<open>The row a claim leaves; only the binding id of an existing row survives.\<close>

definition claimed_row :: "env \<Rightarrow> claimant \<Rightarrow> string option \<Rightarrow> dedup_row" where
  "claimed_row env c binding =
     \<lparr>c_account_binding_id = binding, c_state = Attempting, c_verify_ok = None,
      c_live_url = None, c_run_id = cl_run_id c, c_owner_pid = Some (owner_pid_of env c),
      c_owner_run_id = cl_owner_run_id c, c_owner_started_at = cl_owner_started_at c,
      c_updated_at = e_now env\<rparr>"

definition claim :: "env \<Rightarrow> claimant \<Rightarrow> dedup_key \<Rightarrow> bool \<Rightarrow> unit stmt" where
  "claim env c k exists t =
     (if exists
      then (Inr (), sql_update k (\<lambda>r. claimed_row env c (c_account_binding_id r)) t)
      else sql_insert k (claimed_row env c None) t)"

definition decide :: "unit stmt \<Rightarrow> verdict \<Rightarrow> dedup_record option \<Rightarrow> gate_decision stmt" where
  "decide write v rec t =
     (case write t of
        (Inl e, t') \<Rightarrow> (Inl e, t')
      | (Inr u, t') \<Rightarrow> (Inr \<lparr>gd_verdict = v, gd_record = rec\<rparr>, t'))"

definition promote_stale :: "env \<Rightarrow> dedup_key \<Rightarrow> unit stmt" where
  "promote_stale env k t =
     (Inr (), sql_update k (\<lambda>r. r\<lparr>c_state := Uncertain, c_owner_pid := None,
                                  c_owner_run_id := None, c_updated_at := e_now env\<rparr>) t)"

definition no_write :: "unit stmt" where
  "no_write t = (Inr (), t)"

definition gate_body ::
  "env \<Rightarrow> dedup_key \<Rightarrow> claimant \<Rightarrow> pyfloat option \<Rightarrow> pyfloat \<Rightarrow> bool \<Rightarrow> gate_decision stmt" where
  "gate_body env k c now ttl_s force t =
     (case sql_select k t of
        None \<Rightarrow> decide (claim env c k False) VDispatch None t
      | Some row \<Rightarrow>
          (let rec = row_to_record (as_tuple k, row)
           in if r_state rec = Done
              then decide no_write (if force then VConflict else VSkip) (Some rec) t
              else if r_state rec = Uncertain
              then (if force then decide (claim env c k True) VDispatch (Some rec) t
                    else decide no_write VHold (Some rec) t)
              else if r_state rec = Failed
              then decide (claim env c k True) VDispatch (Some rec) t
              else if is_stale_attempting env rec now ttl_s
              then (if force then decide (claim env c k True) VDispatch (Some rec) t
                    else decide (promote_stale env k) VHold (Some rec) t)
              else decide no_write VHold (Some rec) t))"

definition gate_and_claim ::
  "env \<Rightarrow> dedup_key \<Rightarrow> claimant \<Rightarrow> pyfloat option \<Rightarrow> pyfloat \<Rightarrow> bool \<Rightarrow> dstore \<Rightarrow>
     (exn + gate_decision) \<times> dstore" where
  "gate_and_claim env k c now ttl_s force = run_op (gate_body env k c now ttl_s force)"

definition intent_body ::
  "env \<Rightarrow> dedup_key \<Rightarrow> claimant \<Rightarrow> string option \<Rightarrow> intent_outcome stmt" where
  "intent_body env k c binding t =
     (case sql_select k t of
        Some row \<Rightarrow> (Inr \<lparr>won = False, existing_state = Some (c_state row)\<rparr>, t)
      | None \<Rightarrow>
          (case sql_insert k (claimed_row env c binding) t of
             (Inl e, t') \<Rightarrow>
               if isinst e SqliteIntegrity
               then (Inr \<lparr>won = False, existing_state = map_option c_state (sql_select k t')\<rparr>, t')
               else (Inl e, t')
           | (Inr u, t') \<Rightarrow> (Inr \<lparr>won = True, existing_state = None\<rparr>, t')))"

definition intent_write ::
  "env \<Rightarrow> dedup_key \<Rightarrow> claimant \<Rightarrow> string option \<Rightarrow> dstore \<Rightarrow> (exn + intent_outcome) \<times> dstore" where
  "intent_write env k c binding = run_op (intent_body env k c binding)"

text \<open>The keyword arguments of \<open>transition\<close>.\<close>

record trans_args =
  ta_live_url :: "string option"
  ta_verify_ok :: "bool option"
  ta_run_id :: "string option"
  ta_allow_from_terminal :: bool
  ta_expect_from :: "dstate list option"

definition transition_body ::
  "env \<Rightarrow> dedup_key \<Rightarrow> dstate \<Rightarrow> trans_args \<Rightarrow> unit stmt" where
  "transition_body env k to_state a t =
     (case sql_select k t of
        None \<Rightarrow> (Inl (mkexn ValueErr ''transition on absent key''), t)
      | Some row \<Rightarrow>
          (let current = c_state row
           in if (case ta_expect_from a of None \<Rightarrow> False | Some es \<Rightarrow> current \<notin> set es)
              then (Inl (mkexn ValueErr ''concurrent change?''), t)
              else if current \<in> TERMINAL \<and> \<not> ta_allow_from_terminal a
              then (Inl (mkexn ValueErr ''cannot transition without allow_from_terminal''), t)
              else (Inr (), sql_update k (\<lambda>r. r\<lparr>
                      c_state := to_state,
                      c_live_url := coalesce (ta_live_url a) (c_live_url r),
                      c_verify_ok := coalesce (map_option sql_bool (ta_verify_ok a)) (c_verify_ok r),
                      c_run_id := coalesce (ta_run_id a) (c_run_id r),
                      c_updated_at := e_now env\<rparr>) t)))"

definition transition ::
  "env \<Rightarrow> dedup_key \<Rightarrow> dstate \<Rightarrow> trans_args \<Rightarrow> dstore \<Rightarrow> (exn + unit) \<times> dstore" where
  "transition env k to_state a d =
     (if to_state \<notin> {Done, Failed, Uncertain}
      then (Inl (mkexn ValueErr ''illegal target state''), d)
      else run_op (transition_body env k to_state a) d)"

text \<open>\<open>INSERT OR IGNORE\<close>: the row count is 0 where the key is there already.\<close>

definition seed_body ::
  "env \<Rightarrow> dedup_key \<Rightarrow> dstate \<Rightarrow> string option \<Rightarrow> bool option \<Rightarrow> bool stmt" where
  "seed_body env k state live_url verify_ok t =
     (case dget t (as_tuple k) of
        Some _ \<Rightarrow> (Inr False, t)
      | None \<Rightarrow> (Inr True, dput (as_tuple k)
          \<lparr>c_account_binding_id = None, c_state = state, c_verify_ok = map_option sql_bool verify_ok,
           c_live_url = live_url, c_run_id = None, c_owner_pid = None, c_owner_run_id = None,
           c_owner_started_at = None, c_updated_at = e_now env\<rparr> t))"

definition seed ::
  "env \<Rightarrow> dedup_key \<Rightarrow> dstate \<Rightarrow> string option \<Rightarrow> bool option \<Rightarrow> dstore \<Rightarrow> (exn + bool) \<times> dstore" where
  "seed env k state live_url verify_ok = run_op (seed_body env k state live_url verify_ok)"

definition set_verify_ok :: "env \<Rightarrow> dedup_key \<Rightarrow> bool \<Rightarrow> dstore \<Rightarrow> (exn + unit) \<times> dstore" where
  "set_verify_ok env k ok =
     run_op (\<lambda>t. (Inr (), sql_update k (\<lambda>r. r\<lparr>c_verify_ok := Some (sql_bool ok),
                                             c_updated_at := e_now env\<rparr>) t))"

definition forget_body :: "dedup_key \<Rightarrow> dstate option stmt" where
  "forget_body k t =
     (case sql_select k t of
        None \<Rightarrow> (Inr None, t)
      | Some row \<Rightarrow> (Inr (Some (c_state row)), sql_delete k t))"

definition forget :: "dedup_key \<Rightarrow> dstore \<Rightarrow> (exn + dstate option) \<times> dstore" where
  "forget k = run_op (forget_body k)"

end
