(* ===== verification/Dedup_Machine.thy ===== *)
theory Dedup_Machine
  imports Dedup_Store
begin

text \<open>
  The state machine of one dedup key, the interface of a claim authority, and the store as an
  implementation of both: every operation of \<open>idempotency/store.py\<close> moves every key along the
  machine, and between two unforced claims of one key there is an operation that released it.
\<close>

section \<open>Statements and states\<close>

definition kstate :: "dtable \<Rightarrow> dkey \<Rightarrow> dstate option" where
  "kstate t k = map_option c_state (dget t k)"

lemma kstate_dput [simp]: "kstate (dput k r t) k' = (if k' = k then Some (c_state r) else kstate t k')"
  by (simp add: kstate_def)

lemma kstate_update [simp]:
  "kstate (sql_update q f t) k =
     (if k = as_tuple q then map_option (\<lambda>r. c_state (f r)) (dget t k) else kstate t k)"
  by (auto simp: sql_update_def kstate_def split: option.splits)

lemma kstate_delete [simp]: "kstate (sql_delete q t) k = (if k = as_tuple q then None else kstate t k)"
  by (simp add: sql_delete_def kstate_def)

lemma kstate_None: "kstate t k = None \<longleftrightarrow> dget t k = None"
  by (simp add: kstate_def)

lemma kstate_Some: "kstate t k = Some s \<longleftrightarrow> (\<exists>r. dget t k = Some r \<and> c_state r = s)"
  by (auto simp: kstate_def)

lemma claimed_row_state [simp]: "c_state (claimed_row env c b) = Attempting"
  by (simp add: claimed_row_def)

lemma r_state_row [simp]: "r_state (row_to_record (k, r)) = c_state r"
  by (cases k) (simp add: row_to_record_def)

lemma wf_sql_update [simp, intro]: "wf_dict t \<Longrightarrow> wf_dict (sql_update k f t)"
  by (auto simp: sql_update_def split: option.splits)

lemma wf_sql_delete [simp, intro]: "wf_dict t \<Longrightarrow> wf_dict (sql_delete k t)"
  by (simp add: sql_delete_def)

lemmas claim_defs = claim_def sql_insert_def sql_select_def decide_def no_write_def promote_stale_def

section \<open>The machine of a key\<close>

datatype key_event =
    Idle
  | Claim bool
  | Promote
  | Settle dstate bool
  | Seeded dstate
  | Forgotten

inductive key_step :: "dstate option \<Rightarrow> key_event \<Rightarrow> dstate option \<Rightarrow> bool" where
  idle: "key_step s Idle s"
| claim_absent: "key_step None (Claim f) (Some Attempting)"
| claim_failed: "key_step (Some Failed) (Claim f) (Some Attempting)"
| claim_forced: "s = Uncertain \<or> s = Attempting \<Longrightarrow> key_step (Some s) (Claim True) (Some Attempting)"
| promote: "key_step (Some Attempting) Promote (Some Uncertain)"
| settle: "s \<notin> TERMINAL \<or> override \<Longrightarrow> s' \<noteq> Attempting \<Longrightarrow> key_step (Some s) (Settle s' override) (Some s')"
| seeded: "key_step None (Seeded s) (Some s)"
| forgotten: "key_step (Some s) Forgotten None"

inductive_cases claim_stepE: "key_step s (Claim f) s'"
inductive_simps key_step_simps [simp]:
  "key_step s Idle s'" "key_step s (Claim f) s'" "key_step s Promote s'"
  "key_step s (Settle x f) s'" "key_step s (Seeded x) s'" "key_step s Forgotten s'"

section \<open>Operations and their results\<close>

datatype dop =
    OGet dedup_key
  | OGetMany "dedup_key list"
  | OList dstate "string option"
  | OGate dedup_key claimant "pyfloat option" pyfloat bool
  | OIntent dedup_key claimant "string option"
  | OTrans dedup_key dstate trans_args
  | OSeed dedup_key dstate "string option" "bool option"
  | OVerify dedup_key bool
  | OForget dedup_key

datatype dres =
    RGate "exn + gate_decision"
  | RIntent "exn + intent_outcome"
  | RUnit "exn + unit"
  | RSeed "exn + bool"
  | RForget "exn + dstate option"
  | RRead "exn + dedup_record list"

definition wrap :: "('a \<Rightarrow> dres) \<Rightarrow> 'a \<times> dstore \<Rightarrow> dres \<times> dstore" where
  "wrap f x = (f (fst x), snd x)"

fun dstep :: "env \<times> dop \<Rightarrow> dstore \<Rightarrow> dres \<times> dstore" where
  "dstep (env, OGet k) d = wrap (\<lambda>r. RRead (bindR r (\<lambda>x. Inr (case x of None \<Rightarrow> [] | Some y \<Rightarrow> [y])))) (store_get k d)"
| "dstep (env, OGetMany ks) d = wrap (\<lambda>r. RRead (bindR r (\<lambda>x. Inr (map snd x)))) (store_get_many ks d)"
| "dstep (env, OList s p) d = wrap RRead (list_by_state s p d)"
| "dstep (env, OGate k c n ttl f) d = wrap RGate (gate_and_claim env k c n ttl f d)"
| "dstep (env, OIntent k c b) d = wrap RIntent (intent_write env k c b d)"
| "dstep (env, OTrans k s a) d = wrap RUnit (transition env k s a d)"
| "dstep (env, OSeed k s l v) d = wrap RSeed (seed env k s l v d)"
| "dstep (env, OVerify k ok) d = wrap RUnit (set_verify_ok env k ok d)"
| "dstep (env, OForget k) d = wrap RForget (forget k d)"

text \<open>The event an operation is for a key, read off its arguments and its result.\<close>

fun event_of :: "env \<times> dop \<Rightarrow> dres \<Rightarrow> dkey \<Rightarrow> key_event" where
  "event_of (env, OGate k c n ttl f) (RGate (Inr g)) q =
     (if q \<noteq> as_tuple k then Idle
      else if gd_verdict g = VDispatch then Claim f
      else if gd_verdict g = VHold
      then (case gd_record g of
              None \<Rightarrow> Idle
            | Some rec \<Rightarrow> if is_stale_attempting env rec n ttl \<and> \<not> f then Promote else Idle)
      else Idle)"
| "event_of (env, OIntent k c b) (RIntent (Inr i)) q = (if q = as_tuple k \<and> won i then Claim False else Idle)"
| "event_of (env, OTrans k s a) (RUnit (Inr u)) q =
     (if q = as_tuple k then Settle s (ta_allow_from_terminal a) else Idle)"
| "event_of (env, OSeed k s l v) (RSeed (Inr b)) q = (if q = as_tuple k \<and> b then Seeded s else Idle)"
| "event_of (env, OForget k) (RForget (Inr (Some s))) q = (if q = as_tuple k then Forgotten else Idle)"
| "event_of _ _ q = Idle"

subsection \<open>What each statement does to the state of a key\<close>

lemma stale_is_attempting: "is_stale_attempting env rec n ttl \<Longrightarrow> r_state rec = Attempting"
  by (simp add: is_stale_attempting_def split: if_splits)

lemma gate_body_step:
  assumes "gate_body env k c n ttl f t = (Inr g, t')"
  shows "key_step (kstate t q) (event_of (env, OGate k c n ttl f) (RGate (Inr g)) q) (kstate t' q)"
proof (cases "q = as_tuple k")
  case False
  then show ?thesis
    using assms by (auto simp: gate_body_def claim_defs Let_def split: option.splits if_splits sum.splits)
next
  case q: True
  show ?thesis
  proof (cases "dget t (as_tuple k)")
    case None
    then show ?thesis using assms q by (auto simp: gate_body_def claim_defs kstate_def)
  next
    case (Some row)
    then show ?thesis
      using assms q stale_is_attempting[of env "row_to_record (as_tuple k, row)" n ttl]
      by (cases "c_state row")
         (auto simp: gate_body_def claim_defs kstate_def sql_update_def Let_def split: if_splits)
  qed
qed

lemma intent_body_step:
  "intent_body env k c b t = (Inr i, t') \<Longrightarrow>
     key_step (kstate t q) (event_of (env, OIntent k c b) (RIntent (Inr i)) q) (kstate t' q)"
  by (auto simp: intent_body_def claim_defs kstate_def split: option.splits if_splits)

lemma transition_body_step:
  "transition_body env k s a t = (Inr u, t') \<Longrightarrow> s \<noteq> Attempting \<Longrightarrow>
     key_step (kstate t q) (event_of (env, OTrans k s a) (RUnit (Inr u)) q) (kstate t' q)"
  by (auto simp: transition_body_def sql_select_def kstate_def sql_update_def Let_def
           split: option.splits if_splits)

lemma seed_body_step:
  "seed_body env k s l v t = (Inr b, t') \<Longrightarrow>
     key_step (kstate t q) (event_of (env, OSeed k s l v) (RSeed (Inr b)) q) (kstate t' q)"
  by (auto simp: seed_body_def kstate_def split: option.splits)

lemma forget_body_step:
  "forget_body k t = (Inr r, t') \<Longrightarrow>
     key_step (kstate t q) (event_of (env, OForget k) (RForget (Inr r)) q) (kstate t' q)"
  by (auto simp: forget_body_def sql_select_def sql_delete_def kstate_def split: option.splits)

text \<open>An operation that fails has changed nothing, whatever faults it met.\<close>

lemma wrap_eq: "wrap f x = (r, d) \<longleftrightarrow> r = f (fst x) \<and> d = snd x"
  by (auto simp: wrap_def)

lemma run_op_cases:
  assumes "run_op body d = (r, d')"
  obtains (fail) e where "r = Inl e" "db_rows d' = db_rows d"
    | (ok) a where "r = Inr a" "body (db_rows d) = (Inr a, db_rows d')"
  using run_op_effect[OF assms] by (cases r) auto

lemma gate_step:
  "gate_and_claim env k c n ttl f d = (r, d') \<Longrightarrow>
     key_step (kstate (db_rows d) q) (event_of (env, OGate k c n ttl f) (RGate r) q) (kstate (db_rows d') q)"
  unfolding gate_and_claim_def
  by (erule run_op_cases) (auto simp del: event_of.simps(1) dest: gate_body_step[where q = q])

lemma intent_step:
  "intent_write env k c b d = (r, d') \<Longrightarrow>
     key_step (kstate (db_rows d) q) (event_of (env, OIntent k c b) (RIntent r) q) (kstate (db_rows d') q)"
  unfolding intent_write_def
  by (erule run_op_cases) (auto simp del: event_of.simps(2) dest: intent_body_step[where q = q])

lemma transition_step:
  "transition env k s a d = (r, d') \<Longrightarrow>
     key_step (kstate (db_rows d) q) (event_of (env, OTrans k s a) (RUnit r) q) (kstate (db_rows d') q)"
proof (cases "s = Attempting")
  case True
  assume "transition env k s a d = (r, d')"
  then show ?thesis using True by (auto simp: transition_def)
next
  case False
  assume "transition env k s a d = (r, d')"
  then have "run_op (transition_body env k s a) d = (r, d')"
    using False by (cases s) (auto simp: transition_def)
  then show ?thesis
    by (rule run_op_cases) (use False in \<open>auto simp del: event_of.simps(3) dest: transition_body_step[where q = q]\<close>)
qed

lemma seed_step:
  "seed env k s l v d = (r, d') \<Longrightarrow>
     key_step (kstate (db_rows d) q) (event_of (env, OSeed k s l v) (RSeed r) q) (kstate (db_rows d') q)"
  unfolding seed_def
  by (erule run_op_cases) (auto simp del: event_of.simps(4) dest: seed_body_step[where q = q])

lemma verify_step:
  "set_verify_ok env k ok d = (r, d') \<Longrightarrow> kstate (db_rows d') q = kstate (db_rows d) q"
  unfolding set_verify_ok_def
  by (erule run_op_cases) (auto simp: kstate_def[of _ "as_tuple k"] option.map_comp comp_def dest!: sym[of "sql_update _ _ _"])

lemma forget_step:
  "forget k d = (r, d') \<Longrightarrow>
     key_step (kstate (db_rows d) q) (event_of (env, OForget k) (RForget r) q) (kstate (db_rows d') q)"
  unfolding forget_def
  by (erule run_op_cases) (auto simp del: event_of.simps(5) dest: forget_body_step[where q = q])

lemma read_steps:
  "store_get k d = (r1, d') \<Longrightarrow> db_rows d' = db_rows d"
  "store_get_many ks d = (r2, d') \<Longrightarrow> db_rows d' = db_rows d"
  "list_by_state s p d = (r3, d') \<Longrightarrow> db_rows d' = db_rows d"
  unfolding store_get_def store_get_many_def list_by_state_def Let_def
  by (auto elim!: run_op_cases simp: get_body_def get_many_body_def list_by_state_body_def Let_def
        split: if_splits)

text \<open>Every operation, under every fault sequence, is one move of the machine for every key.\<close>

lemma dstep_key_step:
  assumes "dstep eo d = (r, d')"
  shows "key_step (kstate (db_rows d) q) (event_of eo r q) (kstate (db_rows d') q)"
proof -
  obtain env op where eo: "eo = (env, op)" by (cases eo)
  show ?thesis
  proof (cases op)
    case (OGet k)
    then show ?thesis using assms read_steps(1)[of k d, OF prod.collapse[symmetric]] by (auto simp: eo wrap_eq)
  next
    case (OGetMany ks)
    then show ?thesis using assms read_steps(2)[of ks d, OF prod.collapse[symmetric]] by (auto simp: eo wrap_eq)
  next
    case (OList s p)
    then show ?thesis using assms read_steps(3)[of s p d, OF prod.collapse[symmetric]] by (auto simp: eo wrap_eq)
  next
    case (OGate k c n ttl f)
    then have g: "gate_and_claim env k c n ttl f d = (fst (gate_and_claim env k c n ttl f d), d')"
      and r: "r = RGate (fst (gate_and_claim env k c n ttl f d))"
      using assms by (auto simp: eo wrap_eq)
    show ?thesis unfolding eo OGate r by (rule gate_step[OF g])
  next
    case (OIntent k c b)
    then have g: "intent_write env k c b d = (fst (intent_write env k c b d), d')"
      and r: "r = RIntent (fst (intent_write env k c b d))"
      using assms by (auto simp: eo wrap_eq)
    show ?thesis unfolding eo OIntent r by (rule intent_step[OF g])
  next
    case (OTrans k s a)
    then have g: "transition env k s a d = (fst (transition env k s a d), d')"
      and r: "r = RUnit (fst (transition env k s a d))"
      using assms by (auto simp: eo wrap_eq)
    show ?thesis unfolding eo OTrans r by (rule transition_step[OF g])
  next
    case (OSeed k s l v)
    then have g: "seed env k s l v d = (fst (seed env k s l v d), d')"
      and r: "r = RSeed (fst (seed env k s l v d))"
      using assms by (auto simp: eo wrap_eq)
    show ?thesis unfolding eo OSeed r by (rule seed_step[OF g])
  next
    case (OVerify k ok)
    then have g: "set_verify_ok env k ok d = (fst (set_verify_ok env k ok d), d')"
      and r: "r = RUnit (fst (set_verify_ok env k ok d))"
      using assms by (auto simp: eo wrap_eq)
    show ?thesis unfolding eo OVerify r using verify_step[OF g] by simp
  next
    case (OForget k)
    then have g: "forget k d = (fst (forget k d), d')" and r: "r = RForget (fst (forget k d))"
      using assms by (auto simp: eo wrap_eq)
    show ?thesis unfolding eo OForget r by (rule forget_step[OF g])
  qed
qed

section \<open>The interface of a claim authority\<close>

text \<open>
  What the publish path relies on: an operation that claims a key finds it free and leaves it
  held, and only an operation that releases a key makes a held key free again.
\<close>

locale claim_authority =
  fixes step :: "'op \<Rightarrow> 's \<Rightarrow> 'r \<times> 's"
    and claims :: "'k \<Rightarrow> 'op \<Rightarrow> 'r \<Rightarrow> bool"
    and releases :: "'k \<Rightarrow> 'op \<Rightarrow> 'r \<Rightarrow> bool"
    and held :: "'k \<Rightarrow> 's \<Rightarrow> bool"
  assumes claim_free: "step op s = (r, s') \<Longrightarrow> claims k op r \<Longrightarrow> \<not> held k s \<and> held k s'"
    and keep_held: "step op s = (r, s') \<Longrightarrow> \<not> releases k op r \<Longrightarrow> held k s \<Longrightarrow> held k s'"
begin

text \<open>A run: the operations in the order the store serialises them, each with its result.\<close>

fun run :: "'op list \<Rightarrow> 's \<Rightarrow> ('op \<times> 'r) list \<times> 's" where
  "run [] s = ([], s)"
| "run (op # ops) s =
     (let (r, s') = step op s; (tr, s'') = run ops s' in ((op, r) # tr, s''))"

lemma run_append:
  "run (xs @ ys) s =
     (let (t1, s1) = run xs s; (t2, s2) = run ys s1 in (t1 @ t2, s2))"
  by (induction xs arbitrary: s) (auto simp: Let_def split: prod.splits)

lemma held_until_release:
  "run ops s = (tr, s') \<Longrightarrow> held k s \<Longrightarrow> \<forall>(op, r) \<in> set tr. \<not> releases k op r \<Longrightarrow> held k s'"
proof (induction ops arbitrary: s tr)
  case (Cons op ops)
  obtain r s1 where st: "step op s = (r, s1)" by (cases "step op s")
  obtain tr1 where rn: "run ops s1 = (tr1, s')" and tr: "tr = (op, r) # tr1"
    using Cons.prems(1) by (auto simp: st split: prod.splits)
  have "held k s1" using keep_held[OF st] Cons.prems tr by auto
  then show ?case using Cons.IH[OF rn] Cons.prems(3) tr by auto
qed simp

lemma no_claim_while_held:
  "run ops s = (tr, s') \<Longrightarrow> held k s \<Longrightarrow> \<forall>(op, r) \<in> set tr. \<not> releases k op r \<Longrightarrow>
     \<forall>(op, r) \<in> set tr. \<not> claims k op r"
proof (induction ops arbitrary: s tr)
  case (Cons op ops)
  obtain r s1 where st: "step op s = (r, s1)" by (cases "step op s")
  obtain tr1 where rn: "run ops s1 = (tr1, s')" and tr: "tr = (op, r) # tr1"
    using Cons.prems(1) by (auto simp: st split: prod.splits)
  have h: "held k s1" using keep_held[OF st] Cons.prems tr by auto
  have "\<not> claims k op r" using claim_free[OF st] Cons.prems(2) by blast
  then show ?case using Cons.IH[OF rn h] Cons.prems(3) tr by auto
qed simp

text \<open>Between two claims of a key an operation released it.\<close>

lemma single_flight:
  assumes "run ops s = (pre @ (o1, r1) # mid @ (o2, r2) # post, s')"
    and "claims k o1 r1" "claims k o2 r2"
  shows "\<exists>(op, r) \<in> set mid. releases k op r"
  using assms(1)
proof (induction pre arbitrary: ops s)
  case Nil
  then obtain ops1 s1 where ops: "ops = o1 # ops1" "step o1 s = (r1, s1)"
    "run ops1 s1 = (mid @ (o2, r2) # post, s')"
    by (cases ops) (auto split: prod.splits)
  have h: "held k s1" using claim_free[OF ops(2) assms(2)] by blast
  have "run xs q = (mid @ (o2, r2) # post, s') \<Longrightarrow> held k q \<Longrightarrow> ?thesis" for xs q
  proof (induction mid arbitrary: xs q)
    case Nil
    then obtain q1 where "step o2 q = (r2, q1)" by (cases xs) (auto split: prod.splits)
    then show ?case using claim_free assms(3) Nil.prems(2) by blast
  next
    case (Cons m mid)
    obtain op r where m: "m = (op, r)" by (cases m)
    obtain ys q1 where st: "step op q = (r, q1)" "run ys q1 = (mid @ (o2, r2) # post, s')"
      using Cons.prems(1) m by (cases xs) (auto split: prod.splits)
    show ?case
    proof (cases "releases k op r")
      case True
      then show ?thesis using m by auto
    next
      case False
      then have "held k q1" using keep_held[OF st(1)] Cons.prems(2) by blast
      then show ?thesis using Cons.IH[OF st(2)] by auto
    qed
  qed
  then show ?case using ops(3) h by blast
next
  case (Cons p pre)
  then obtain op ops1 s1 where "ops = op # ops1"
    "run ops1 s1 = (pre @ (o1, r1) # mid @ (o2, r2) # post, s')"
    by (cases ops) (auto split: prod.splits)
  then show ?case using Cons.IH by blast
qed

end

section \<open>The store is a claim authority\<close>

text \<open>A key is held while its row is in any state but \<open>failed\<close>.\<close>

definition key_held :: "dkey \<Rightarrow> dstore \<Rightarrow> bool" where
  "key_held q d \<longleftrightarrow> kstate (db_rows d) q \<notin> {None, Some Failed}"

text \<open>An unforced dispatch verdict, or a won intent.\<close>

definition unforced_claim :: "dkey \<Rightarrow> env \<times> dop \<Rightarrow> dres \<Rightarrow> bool" where
  "unforced_claim q eo r \<longleftrightarrow> event_of eo r q = Claim False"

text \<open>What frees a key: an operator forgets it, or its attempt is settled as failed.\<close>

definition key_release :: "dkey \<Rightarrow> env \<times> dop \<Rightarrow> dres \<Rightarrow> bool" where
  "key_release q eo r \<longleftrightarrow>
     event_of eo r q = Forgotten \<or> (\<exists>b. event_of eo r q = Settle Failed b)"

interpretation dedup: claim_authority dstep unforced_claim key_release key_held
proof
  fix op d r d' q
  assume st: "dstep op d = (r, d')"
  note ks = dstep_key_step[OF st, of q]
  show "\<not> key_held q d \<and> key_held q d'" if "unforced_claim q op r"
    using ks that by (auto simp: unforced_claim_def key_held_def)
  show "key_held q d'" if "\<not> key_release q op r" "key_held q d"
    using ks that unfolding key_release_def key_held_def
    by (cases "event_of op r q") (auto simp: TERMINAL_def)
qed

end
