(* ===== verification/Dedup_Facts.thy ===== *)
theory Dedup_Facts
  imports Dedup_Machine "HOL-Library.Multiset"
begin

text \<open>
  What single operations of the dedup store do, branch by branch, and what whole runs of them
  keep: the primary key stays unique, a claim is single-flight, a finished key stays finished.
\<close>

section \<open>Runs of the store\<close>

text \<open>C1. Refinement: each operation of the store, with any environment and under any sequence of
  SQLite faults, moves every key of the table along the state machine \<open>key_step\<close>, by the event its
  own result reports; in particular a failed operation moves no key.\<close>

theorem dedup_store_refines_machine:
  "let (r, d') = dstep eo d
   in key_step (kstate (db_rows d) q) (event_of eo r q) (kstate (db_rows d') q)"
  using dstep_key_step by (auto split: prod.splits)

text \<open>C3. Single flight: in any serialised run of store operations of any processes, two unforced
  claims of the same key (an enforce-mode dispatch verdict or a won intent) have between them a
  successful transition of that key to \<open>failed\<close> or a successful \<open>forget\<close> of it.\<close>

theorem dedup_single_flight:
  assumes "dedup.run ops d = (pre @ (o1, r1) # mid @ (o2, r2) # post, d')"
    and "event_of o1 r1 q = Claim False" "event_of o2 r2 q = Claim False"
  shows "\<exists>(eo, r) \<in> set mid. event_of eo r q = Forgotten \<or> (\<exists>b. event_of eo r q = Settle Failed b)"
  using dedup.single_flight[OF assms(1), of q] assms(2,3)
  by (simp add: unforced_claim_def key_release_def)

definition demo_key :: dedup_key where
  "demo_key = \<lparr>k_platform = ''velog'', k_target_url = ''https://a.b/'', k_account = ''default''\<rparr>"

definition demo_claimant :: claimant where
  "demo_claimant = \<lparr>cl_run_id = Some ''r1'', cl_owner_pid = None, cl_owner_run_id = None,
     cl_owner_started_at = None\<rparr>"

definition demo_args :: trans_args where
  "demo_args = \<lparr>ta_live_url = None, ta_verify_ok = None, ta_run_id = None,
     ta_allow_from_terminal = False, ta_expect_from = None\<rparr>"

definition demo_ops :: "(env \<times> dop) list" where
  "demo_ops = [(env0, OGate demo_key demo_claimant None STALE_TTL_S False),
               (env0, OTrans demo_key Failed demo_args),
               (env0, OIntent demo_key demo_claimant None),
               (env0, OGate demo_key demo_claimant None STALE_TTL_S False)]"

definition empty_store :: dstore where
  "empty_store = \<lparr>db_rows = [], db_faults = []\<rparr>"

definition demo_o :: "nat \<Rightarrow> env \<times> dop" where "demo_o i = demo_ops ! i"

definition demo_d1 :: dstore where "demo_d1 = snd (dstep (demo_o 0) empty_store)"
definition demo_d2 :: dstore where "demo_d2 = snd (dstep (demo_o 1) demo_d1)"
definition demo_d3 :: dstore where "demo_d3 = snd (dstep (demo_o 2) demo_d2)"

definition demo_r :: "nat \<Rightarrow> dres" where
  "demo_r i = fst (dstep (demo_o i)
     (if i = 0 then empty_store else if i = 1 then demo_d1 else if i = 2 then demo_d2 else demo_d3))"

lemma demo_run:
  "dedup.run [demo_o 0, demo_o 1, demo_o 2, demo_o 3] empty_store =
     ([] @ (demo_o 0, demo_r 0) # [(demo_o 1, demo_r 1), (demo_o 2, demo_r 2)] @ (demo_o 3, demo_r 3) # [],
      snd (dstep (demo_o 3) demo_d3))"
  by (simp add: demo_r_def demo_d1_def demo_d2_def demo_d3_def Let_def split: prod.splits)

lemma demo_events:
  "event_of (demo_o 0) (demo_r 0) (as_tuple demo_key) = Claim False"
  "event_of (demo_o 3) (demo_r 3) (as_tuple demo_key) = Claim False"
  by code_simp+

theorem dedup_single_flight_witness:
  "\<exists>(eo, r) \<in> set [(demo_o 1, demo_r 1), (demo_o 2, demo_r 2)].
     event_of eo r (as_tuple demo_key) = Forgotten \<or>
     (\<exists>b. event_of eo r (as_tuple demo_key) = Settle Failed b)"
  by (rule dedup_single_flight[OF demo_run demo_events])

text \<open>Primary keys stay unique under every operation.\<close>

lemma gate_body_wf: "wf_dict t \<Longrightarrow> gate_body env k c n ttl f t = (r, t') \<Longrightarrow> wf_dict t'"
  by (auto simp: gate_body_def claim_defs Let_def split: option.splits if_splits)

lemma intent_body_wf: "wf_dict t \<Longrightarrow> intent_body env k c b t = (r, t') \<Longrightarrow> wf_dict t'"
  by (auto simp: intent_body_def claim_defs split: option.splits if_splits)

lemma transition_body_wf: "wf_dict t \<Longrightarrow> transition_body env k s a t = (r, t') \<Longrightarrow> wf_dict t'"
  by (auto simp: transition_body_def sql_select_def Let_def split: option.splits if_splits)

lemma seed_body_wf: "wf_dict t \<Longrightarrow> seed_body env k s l v t = (r, t') \<Longrightarrow> wf_dict t'"
  by (auto simp: seed_body_def split: option.splits)

lemma forget_body_wf: "wf_dict t \<Longrightarrow> forget_body k t = (r, t') \<Longrightarrow> wf_dict t'"
  by (auto simp: forget_body_def sql_select_def split: option.splits)

lemmas write_bodies_wf = gate_body_wf intent_body_wf transition_body_wf seed_body_wf forget_body_wf

lemma run_op_wf:
  assumes "\<And>t r t'. wf_dict t \<Longrightarrow> body t = (r, t') \<Longrightarrow> wf_dict t'" "wf_dict (db_rows d)"
  shows "wf_dict (db_rows (snd (run_op body d)))"
proof -
  obtain r d' where r: "run_op body d = (r, d')" by (cases "run_op body d")
  then show ?thesis using assms by (elim run_op_cases) (auto simp: r)
qed

lemma dstep_wf: "wf_dict (db_rows d) \<Longrightarrow> wf_dict (db_rows (snd (dstep eo d)))"
proof -
  assume wf: "wf_dict (db_rows d)"
  obtain env op where eo: "eo = (env, op)" by (cases eo)
  show ?thesis
    unfolding eo
    by (cases op)
       (auto simp: wrap_def wf gate_and_claim_def intent_write_def transition_def seed_def
          set_verify_ok_def forget_def store_get_def store_get_many_def list_by_state_def
          get_body_def get_many_body_def list_by_state_body_def Let_def
          intro!: run_op_wf dest: write_bodies_wf)
qed

section \<open>Single operations\<close>

text \<open>The decision table of the enforce gate: verdict and next state of the key.\<close>

fun gate_table :: "dstate option \<Rightarrow> bool \<Rightarrow> bool \<Rightarrow> verdict \<times> dstate" where
  "gate_table None stale force = (VDispatch, Attempting)"
| "gate_table (Some Done) stale force = (if force then VConflict else VSkip, Done)"
| "gate_table (Some Failed) stale force = (VDispatch, Attempting)"
| "gate_table (Some Uncertain) stale True = (VDispatch, Attempting)"
| "gate_table (Some Uncertain) stale False = (VHold, Uncertain)"
| "gate_table (Some Attempting) False force = (VHold, Attempting)"
| "gate_table (Some Attempting) True True = (VDispatch, Attempting)"
| "gate_table (Some Attempting) True False = (VHold, Uncertain)"

definition row_record :: "dtable \<Rightarrow> dkey \<Rightarrow> dedup_record option" where
  "row_record t q = map_option (\<lambda>r. row_to_record (q, r)) (dget t q)"

definition row_stale :: "env \<Rightarrow> dtable \<Rightarrow> dkey \<Rightarrow> pyfloat option \<Rightarrow> pyfloat \<Rightarrow> bool" where
  "row_stale env t q n ttl =
     (case row_record t q of None \<Rightarrow> False | Some rec \<Rightarrow> is_stale_attempting env rec n ttl)"

lemma gate_body_table:
  "\<exists>t'. gate_body env k c n ttl f t =
     (Inr \<lparr>gd_verdict = fst (gate_table (kstate t (as_tuple k)) (row_stale env t (as_tuple k) n ttl) f),
           gd_record = row_record t (as_tuple k)\<rparr>, t') \<and>
     kstate t' (as_tuple k) = Some (snd (gate_table (kstate t (as_tuple k)) (row_stale env t (as_tuple k) n ttl) f)) \<and>
     (\<forall>q. q \<noteq> as_tuple k \<longrightarrow> dget t' q = dget t q)"
proof (cases "dget t (as_tuple k)")
  case None
  then show ?thesis
    by (auto simp: gate_body_def claim_defs kstate_def row_record_def)
next
  case (Some row)
  have neq: "q \<noteq> as_tuple k \<Longrightarrow> dget (sql_update k g t) q = dget t q" for g q
    by (auto simp: sql_update_def Some)
  show ?thesis
  proof (cases "c_state row")
    case Attempting
    then show ?thesis
      using Some neq
      by (cases "is_stale_attempting env (row_to_record (as_tuple k, row)) n ttl"; cases f)
         (auto simp: gate_body_def claim_defs kstate_def row_record_def row_stale_def sql_update_def)
  qed (use Some neq in \<open>(cases f; auto simp: gate_body_def claim_defs kstate_def row_record_def sql_update_def)\<close>)+
qed

text \<open>C21. The enforce gate decides and claims exactly as its table says: absent and failed keys are
  claimed, done keys skip (a force-flag conflicts), uncertain keys and live attempts hold, a stale
  attempt is promoted to uncertain and held, a force-flag reclaims what is held and not live; no
  other key changes, and transient SQLite faults within the retry bound do not show.\<close>

theorem gate_and_claim_table:
  assumes "list_all transient_fault (db_faults d)" "length (db_faults d) < MAX_RETRIES"
  shows "\<exists>t'. gate_and_claim env k c n ttl f d =
     (Inr \<lparr>gd_verdict = fst (gate_table (kstate (db_rows d) (as_tuple k))
                                (row_stale env (db_rows d) (as_tuple k) n ttl) f),
           gd_record = row_record (db_rows d) (as_tuple k)\<rparr>, \<lparr>db_rows = t', db_faults = []\<rparr>) \<and>
     kstate t' (as_tuple k) = Some (snd (gate_table (kstate (db_rows d) (as_tuple k))
                                (row_stale env (db_rows d) (as_tuple k) n ttl) f)) \<and>
     (\<forall>q. q \<noteq> as_tuple k \<longrightarrow> dget t' q = dget (db_rows d) q)"
  using gate_body_table[of env k c n ttl f "db_rows d"] run_op_recovers[OF _ assms]
  unfolding gate_and_claim_def by metis

definition locked_fault :: fault where
  "locked_fault = FBegin (mkexn SqliteOperational ''database is locked'')"

lemma transient_locked: "transient_fault locked_fault"
  by (simp add: locked_fault_def is_transient_sqlite_error_def mkexn_def) code_simp

theorem gate_and_claim_table_witness:
  "\<exists>t'. gate_and_claim env0 demo_key demo_claimant None STALE_TTL_S False
          \<lparr>db_rows = [], db_faults = [locked_fault, locked_fault]\<rparr> =
     (Inr \<lparr>gd_verdict = VDispatch, gd_record = None\<rparr>, \<lparr>db_rows = t', db_faults = []\<rparr>) \<and>
     kstate t' (as_tuple demo_key) = Some Attempting"
  using gate_and_claim_table[of "\<lparr>db_rows = [], db_faults = [locked_fault, locked_fault]\<rparr>" env0 demo_key
      demo_claimant None STALE_TTL_S False]
  by (auto simp: transient_locked MAX_RETRIES_def kstate_def row_record_def)

text \<open>A transition without store errors, read off its body.\<close>

lemma transition_result:
  assumes "db_faults d = []"
  shows "transition env k s a d =
    (case (s, dget (db_rows d) (as_tuple k)) of
       (Attempting, _) \<Rightarrow> (Inl (mkexn ValueErr ''illegal target state''), d)
     | (_, None) \<Rightarrow> (Inl (mkexn ValueErr ''transition on absent key''), d)
     | (_, Some row) \<Rightarrow>
         if \<exists>es. ta_expect_from a = Some es \<and> c_state row \<notin> set es
         then (Inl (mkexn ValueErr ''concurrent change?''), d)
         else if c_state row \<in> {Done, Failed} \<and> \<not> ta_allow_from_terminal a
         then (Inl (mkexn ValueErr ''cannot transition without allow_from_terminal''), d)
         else (Inr (), d\<lparr>db_rows := dput (as_tuple k) (row\<lparr>
                c_state := s,
                c_live_url := (case ta_live_url a of None \<Rightarrow> c_live_url row | u \<Rightarrow> u),
                c_verify_ok := (case ta_verify_ok a of None \<Rightarrow> c_verify_ok row
                                | Some ok \<Rightarrow> Some (if ok then 1 else 0)),
                c_run_id := (case ta_run_id a of None \<Rightarrow> c_run_id row | r \<Rightarrow> r),
                c_updated_at := e_now env\<rparr>) (db_rows d)\<rparr>))"
proof (cases "s = Attempting")
  case True
  then show ?thesis by (simp add: transition_def)
next
  case False
  let ?B = "transition_body env k s a"
  have tr: "transition env k s a d = run_op ?B d" using False by (cases s) (auto simp: transition_def)
  have "\<not> isinst e SqliteOperational" if "fst (?B (db_rows d)) = Inl e" for e
    using that by (auto simp: transition_body_def Let_def split: option.splits if_splits)
  note run_op_simple[where body = ?B, OF assms this]
  then show ?thesis
    using False unfolding tr
    by (cases s) (auto simp: transition_body_def sql_select_def sql_update_def TERMINAL_def Let_def
        coalesce_def sql_bool_def split: option.splits)
qed

text \<open>A transition checks, in this order: the target state, that the row exists, the expected
  states, and that a terminal state is only left with the override; each failure raises
  \<open>ValueError\<close> and writes nothing. Otherwise exactly this row changes: its state is the target,
  given fields overwrite and omitted ones keep their value.\<close>

theorem transition_spec:
  assumes "db_faults d = []"
  shows "transition env k s a d =
    (case (s, dget (db_rows d) (as_tuple k)) of
       (Attempting, _) \<Rightarrow> (Inl (mkexn ValueErr ''illegal target state''), d)
     | (_, None) \<Rightarrow> (Inl (mkexn ValueErr ''transition on absent key''), d)
     | (_, Some row) \<Rightarrow>
         if \<exists>es. ta_expect_from a = Some es \<and> c_state row \<notin> set es
         then (Inl (mkexn ValueErr ''concurrent change?''), d)
         else if c_state row \<in> {Done, Failed} \<and> \<not> ta_allow_from_terminal a
         then (Inl (mkexn ValueErr ''cannot transition without allow_from_terminal''), d)
         else (Inr (), d\<lparr>db_rows := dput (as_tuple k) (row\<lparr>
                c_state := s,
                c_live_url := (case ta_live_url a of None \<Rightarrow> c_live_url row | u \<Rightarrow> u),
                c_verify_ok := (case ta_verify_ok a of None \<Rightarrow> c_verify_ok row
                                | Some ok \<Rightarrow> Some (if ok then 1 else 0)),
                c_run_id := (case ta_run_id a of None \<Rightarrow> c_run_id row | r \<Rightarrow> r),
                c_updated_at := e_now env\<rparr>) (db_rows d)\<rparr>))"
  by (rule transition_result[OF assms])

theorem transition_spec_witness:
  "transition env0 demo_key Done demo_args empty_store =
     (Inl (mkexn ValueErr ''transition on absent key''), empty_store)"
  using transition_spec[of empty_store env0 demo_key Done demo_args] by (simp add: empty_store_def)

section \<open>Batch reads\<close>

lemma get_many_fold:
  "wf_dict t \<Longrightarrow>
   dget (fold (\<lambda>kr out. dput (fst kr) (row_to_record kr) out) (filter (\<lambda>kr. fst kr \<in> W) t) acc) q =
     (if q \<in> W \<and> dget t q \<noteq> None then map_option (\<lambda>r. row_to_record (q, r)) (dget t q) else dget acc q)"
proof (induction t arbitrary: acc)
  case (Cons kr t)
  obtain k r where kr: "kr = (k, r)" by (cases kr)
  with Cons show ?case by auto
qed simp

lemma get_body_result: "get_body k t = (Inr (row_record t (as_tuple k)), t)"
  by (simp add: get_body_def sql_select_def row_record_def split: option.splits)

text \<open>The batch read agrees with the single read: for each wanted key the dict holds exactly
  what \<open>get\<close> returns, and it holds no other key.\<close>

theorem get_many_agrees_with_get:
  assumes "wf_dict (db_rows d)" "db_faults d = []"
  shows "\<exists>m. store_get_many ks d = (Inr m, d) \<and>
     (\<forall>k. store_get k d = (Inr (if k \<in> set ks then dget m (as_tuple k) else row_record (db_rows d) (as_tuple k)), d)) \<and>
     (\<forall>q. q \<notin> as_tuple ` set ks \<longrightarrow> dget m q = None)"
proof -
  have d: "\<lparr>db_rows = db_rows d, db_faults = []\<rparr> = d" using assms(2) by (cases d) simp
  have get: "store_get k d = (Inr (row_record (db_rows d) (as_tuple k)), d)" for k
    unfolding store_get_def using run_op_no_fault[OF assms(2) get_body_result] d by simp
  let ?m = "fold (\<lambda>kr out. dput (fst kr) (row_to_record kr) out)
              (filter (\<lambda>kr. fst kr \<in> as_tuple ` set ks) (db_rows d)) []"
  have m: "dget ?m q = (if q \<in> as_tuple ` set ks then row_record (db_rows d) q else None)" for q
    using get_many_fold[OF assms(1), of "as_tuple ` set ks" "[]" q] by (auto simp: row_record_def)
  have many: "store_get_many ks d = (Inr ?m, d)"
  proof (cases "ks = []")
    case True
    then show ?thesis by (simp add: store_get_many_def Let_def)
  next
    case False
    then show ?thesis
      using run_op_no_fault[OF assms(2), of "get_many_body (remdups (map as_tuple ks))"] d
      by (simp add: store_get_many_def get_many_body_def Let_def)
  qed
  show ?thesis by (rule exI[of _ ?m]) (auto simp: many get m)
qed

theorem get_many_agrees_with_get_witness:
  "\<exists>m. store_get_many [demo_key] empty_store = (Inr m, empty_store) \<and>
     store_get demo_key empty_store = (Inr (dget m (as_tuple demo_key)), empty_store)"
  using get_many_agrees_with_get[of empty_store "[demo_key]"] by (auto simp: empty_store_def)

text \<open>Listing by state returns each matching row exactly once, newest first.\<close>

theorem list_by_state_sorted_complete:
  assumes "db_faults d = []"
  shows "\<exists>rs. list_by_state s p d = (Inr rs, d) \<and>
     sorted (map (\<lambda>r. - r_updated_at r) rs) \<and>
     mset rs = image_mset row_to_record
       (filter_mset (\<lambda>kr. c_state (snd kr) = s \<and> (p = None \<or> p = Some [] \<or> p = Some (fst (fst kr))))
         (mset (db_rows d)))"
proof -
  have d: "\<lparr>db_rows = db_rows d, db_faults = []\<rparr> = d" using assms by (cases d) simp
  let ?P = "\<lambda>kr. c_state (snd kr) = s \<and>
                    (case p of None \<Rightarrow> True | Some p \<Rightarrow> p = [] \<or> fst (fst kr) = p)"
  let ?key = "\<lambda>kr::dkey \<times> dedup_row. - c_updated_at (snd kr)"
  let ?rs = "map row_to_record (sort_key ?key (filter ?P (db_rows d)))"
  have P: "?P = (\<lambda>kr. c_state (snd kr) = s \<and> (p = None \<or> p = Some [] \<or> p = Some (fst (fst kr))))"
    by (auto simp: fun_eq_iff split: option.splits)
  have upd: "- r_updated_at (row_to_record kr) = ?key kr" for kr
    by (cases kr; cases "fst kr") (auto simp: row_to_record_def)
  have "list_by_state s p d = (Inr ?rs, d)"
    unfolding list_by_state_def
    using run_op_no_fault[OF assms, of "list_by_state_body s p"] d
    by (simp add: list_by_state_body_def)
  moreover have "sorted (map (\<lambda>r. - r_updated_at r) ?rs)"
    by (simp add: comp_def upd)
  moreover have "mset ?rs = image_mset row_to_record (filter_mset ?P (mset (db_rows d)))"
    by simp
  ultimately show ?thesis unfolding P by blast
qed

theorem list_by_state_sorted_complete_witness:
  "\<exists>rs. list_by_state Done None empty_store = (Inr rs, empty_store) \<and> mset rs = {#}"
  using list_by_state_sorted_complete[of empty_store Done None] by (auto simp: empty_store_def)

end
