(* ===== verification/Dedup_Gate.thy ===== *)
theory Dedup_Gate
  imports Dedup_Store
begin

text \<open>
  The publish path's side of deduplication: the operator audit log (\<open>idempotency/audit_log.py\<close>)
  and the gate and recording hooks of \<open>cli/_dedup_gate.py\<close>. An operation acts on a world: the
  dedup store, the audit log, and what has been printed. Log calls are left out, messages are
  abbreviated to their fixed text.
\<close>

section \<open>The audit log\<close>

text \<open>
  A line of the file as the reader sees it: blank, not JSON, or a JSON value. Writing an entry
  and reading it back gives the same value.
\<close>

datatype audit_line = ABlank | ABad | AJson json

record audit_file =
  al_lines :: "audit_line list"
  al_exists :: bool
  al_error :: "exn option"

record audit_entry =
  ae_action :: string
  ae_platform :: string
  ae_target_url :: string
  ae_account :: string
  ae_from_state :: "string option"
  ae_to_state :: "string option"
  ae_reason :: string
  ae_run_id :: "string option"

definition jopt :: "string option \<Rightarrow> json" where
  "jopt x = (case x of None \<Rightarrow> JNull | Some s \<Rightarrow> JStr s)"

definition entry_json :: "env \<Rightarrow> audit_entry \<Rightarrow> json" where
  "entry_json env e =
     JDict [(''ts'', JFloat (e_now env)), (''action'', JStr (ae_action e)),
            (''platform'', JStr (ae_platform e)), (''account'', JStr (ae_account e)),
            (''target_url'', JStr (ae_target_url e)), (''from_state'', jopt (ae_from_state e)),
            (''to_state'', jopt (ae_to_state e)), (''reason'', JStr (ae_reason e)),
            (''run_id'', jopt (ae_run_id e)), (''user'', JStr (e_user env))]"

definition append_entry :: "env \<Rightarrow> audit_entry \<Rightarrow> audit_file \<Rightarrow> (exn + unit) \<times> audit_file" where
  "append_entry env e f =
     (case al_error f of
        Some x \<Rightarrow> (Inl x, f)
      | None \<Rightarrow> (Inr (), f\<lparr>al_lines := al_lines f @ [AJson (entry_json env e)], al_exists := True\<rparr>))"

fun entry_of_line :: "audit_line \<Rightarrow> jdict list" where
  "entry_of_line (AJson (JDict d)) = [d]"
| "entry_of_line _ = []"

definition read_entries :: "audit_file \<Rightarrow> jdict list" where
  "read_entries f = (if \<not> al_exists f then [] else concat (map entry_of_line (al_lines f)))"

type_synonym jkey = "json \<times> json \<times> json"

text \<open>Adding a tuple to a set hashes its parts.\<close>

fun touched_loop :: "jdict list \<Rightarrow> jkey list \<Rightarrow> exn + jkey list" where
  "touched_loop [] keys = Inr keys"
| "touched_loop (e # es) keys =
     (let platform = jget e ''platform''; target_url = jget e ''target_url'';
          account = jget_or e ''account'' (JStr ''default'')
      in if truthy platform \<and> truthy target_url
         then if hashable platform \<and> hashable account \<and> hashable target_url
              then touched_loop es (List.insert (platform, account, target_url) keys)
              else Inl (mkexn TypeErr ''unhashable type'')
         else touched_loop es keys)"

definition touched_keys :: "audit_file \<Rightarrow> exn + jkey list" where
  "touched_keys f = touched_loop (read_entries f) []"

definition jkey_of :: "dkey \<Rightarrow> jkey" where
  "jkey_of q = (case q of (p, a, t) \<Rightarrow> (JStr p, JStr a, JStr t))"

section \<open>The world of a command\<close>

record world =
  w_store :: dstore
  w_audit :: audit_file
  w_out :: "string list"
  w_err :: "stderr_line list"

type_synonym 'a act = "world \<Rightarrow> (exn + 'a) \<times> world"

definition on_store :: "(dstore \<Rightarrow> (exn + 'a) \<times> dstore) \<Rightarrow> 'a act" where
  "on_store m w = (let (r, d) = m (w_store w) in (r, w\<lparr>w_store := d\<rparr>))"

definition on_audit :: "(audit_file \<Rightarrow> (exn + 'a) \<times> audit_file) \<Rightarrow> 'a act" where
  "on_audit m w = (let (r, f) = m (w_audit w) in (r, w\<lparr>w_audit := f\<rparr>))"

definition print_err :: "string \<Rightarrow> unit act" where
  "print_err s w = (Inr (), w\<lparr>w_err := w_err w @ [HumanText s]\<rparr>)"

definition print_out :: "string \<Rightarrow> unit act" where
  "print_out s w = (Inr (), w\<lparr>w_out := w_out w @ [s]\<rparr>)"

definition emit_errorS :: "string \<Rightarrow> int \<Rightarrow> 'a act" where
  "emit_errorS msg code w =
     (let (ls, e) = emit_error msg code None in (Inl e, w\<lparr>w_err := w_err w @ ls\<rparr>))"

section \<open>The gate\<close>

definition ENFORCE_ENV :: string where
  "ENFORCE_ENV = ''BACKLINK_PUBLISHER_DEDUP_ENFORCE''"

definition enforce_enabled :: "env \<Rightarrow> bool" where
  "enforce_enabled env \<longleftrightarrow> getenv env ENFORCE_ENV = Some ''1''"

definition key_for_row :: "env \<Rightarrow> jdict \<Rightarrow> string \<Rightarrow> dedup_key option" where
  "key_for_row env row platform =
     (let target = jget row ''target_url''
      in if \<not> truthy target \<or> platform = [] then None
         else (case new_DedupKey platform (py_str env target) ''default'' of
                 Inl e \<Rightarrow> None
               | Inr k \<Rightarrow> Some k))"

definition terminal_for_error_class :: "string option \<Rightarrow> dstate" where
  "terminal_for_error_class ec = (if ec = Some ''http_5xx'' then Uncertain else Failed)"

definition run_claimant :: "env \<Rightarrow> string option \<Rightarrow> claimant" where
  "run_claimant env run_id =
     \<lparr>cl_run_id = run_id, cl_owner_pid = Some (e_pid env), cl_owner_run_id = run_id,
      cl_owner_started_at = None\<rparr>"

definition is_crashed_in_flight :: "env \<Rightarrow> jdict \<Rightarrow> string \<Rightarrow> bool act" where
  "is_crashed_in_flight env row platform =
     (case key_for_row env row platform of
        None \<Rightarrow> retS False
      | Some k \<Rightarrow>
          catchS [ExceptionClass]
            (bindS (on_store (store_get k)) (\<lambda>rec.
               retS (case rec of None \<Rightarrow> False | Some r \<Rightarrow> is_stale_attempting env r None STALE_TTL_S)))
            (\<lambda>e. retS False))"

definition record_intent :: "env \<Rightarrow> jdict \<Rightarrow> string \<Rightarrow> string option \<Rightarrow> unit act" where
  "record_intent env row platform run_id =
     (case key_for_row env row platform of
        None \<Rightarrow> retS ()
      | Some k \<Rightarrow>
          catchS [ExceptionClass]
            (bindS (on_store (intent_write env k (run_claimant env run_id) None)) (\<lambda>i. retS ()))
            (\<lambda>e. retS ()))"

definition gate ::
  "env \<Rightarrow> jdict \<Rightarrow> string \<Rightarrow> string option \<Rightarrow> bool \<Rightarrow> (verdict \<times> dedup_record option) act" where
  "gate env row platform run_id force =
     (case key_for_row env row platform of
        None \<Rightarrow> retS (VDispatch, None)
      | Some k \<Rightarrow>
          if \<not> enforce_enabled env
          then bindS (record_intent env row platform run_id) (\<lambda>u. retS (VDispatch, None))
          else catchS [ExceptionClass]
                 (bindS (on_store (gate_and_claim env k (run_claimant env run_id) None STALE_TTL_S force))
                    (\<lambda>g. retS (gd_verdict g, gd_record g)))
                 (\<lambda>e. retS (VHold, None)))"

text \<open>An empty or missing set of forced keys forces nothing.\<close>

definition gate_with_force ::
  "env \<Rightarrow> jdict \<Rightarrow> string \<Rightarrow> string option \<Rightarrow> dkey list option \<Rightarrow> string option \<Rightarrow>
     (verdict \<times> dedup_record option) act" where
  "gate_with_force env row platform run_id forced_keys reason =
     (let key = key_for_row env row platform;
          force = (case (forced_keys, key) of
                     (Some ks, Some k) \<Rightarrow> as_tuple k \<in> set ks | _ \<Rightarrow> False)
      in bindS (gate env row platform run_id force) (\<lambda>(v, drec).
           case key of
             Some k \<Rightarrow>
               if force \<and> v = VDispatch
               then bindS (on_audit (append_entry env
                      \<lparr>ae_action = ''force'', ae_platform = k_platform k,
                       ae_target_url = k_target_url k, ae_account = k_account k,
                       ae_from_state = Some (case drec of None \<Rightarrow> ''absent'' | Some r \<Rightarrow> dstate_name (r_state r)),
                       ae_to_state = Some ''attempting'',
                       ae_reason = opt_str reason, ae_run_id = run_id\<rparr>))
                      (\<lambda>u. retS (v, drec))
               else retS (v, drec)
           | None \<Rightarrow> retS (v, drec)))"

text \<open>
  The terminal write reads the row, decides, and settles it in a second transaction. \<open>between\<close>
  is what other processes do to the store in between; alone, it is the identity.
\<close>

definition record_terminal_with ::
  "(dstore \<Rightarrow> dstore) \<Rightarrow> env \<Rightarrow> jdict \<Rightarrow> string \<Rightarrow> dstate \<Rightarrow> string option \<Rightarrow> bool option \<Rightarrow>
     string option \<Rightarrow> unit act" where
  "record_terminal_with between env row platform state live_url verify_ok run_id =
     (case key_for_row env row platform of
        None \<Rightarrow> retS ()
      | Some k \<Rightarrow>
          catchS [ExceptionClass]
            (bindS (on_store (store_get k)) (\<lambda>rec.
               case rec of
                 None \<Rightarrow> retS ()
               | Some r \<Rightarrow>
                   if r_state r = Done then retS ()
                   else if r_state r = Uncertain \<and> state = Failed then retS ()
                   else if r_state r = Failed \<and> state \<noteq> Done then retS ()
                   else bindS (on_store (\<lambda>d. (Inr (), between d))) (\<lambda>u.
                          on_store (transition env k state
                            \<lparr>ta_live_url = live_url, ta_verify_ok = verify_ok, ta_run_id = run_id,
                             ta_allow_from_terminal = (r_state r = Failed), ta_expect_from = None\<rparr>))))
            (\<lambda>e. retS ()))"

definition record_terminal ::
  "env \<Rightarrow> jdict \<Rightarrow> string \<Rightarrow> dstate \<Rightarrow> string option \<Rightarrow> bool option \<Rightarrow> string option \<Rightarrow> unit act" where
  "record_terminal = record_terminal_with (\<lambda>d. d)"

definition record_done ::
  "env \<Rightarrow> jdict \<Rightarrow> string \<Rightarrow> string option \<Rightarrow> bool \<Rightarrow> string option \<Rightarrow> unit act" where
  "record_done env row platform live_url verify_ok run_id =
     record_terminal env row platform Done live_url (Some verify_ok) run_id"

definition record_failure ::
  "env \<Rightarrow> jdict \<Rightarrow> string \<Rightarrow> string option \<Rightarrow> string option \<Rightarrow> unit act" where
  "record_failure env row platform error_class run_id =
     record_terminal env row platform (terminal_for_error_class error_class) None None run_id"

end
