(* ===== verification/Dedup_Gate_Facts.thy ===== *)
theory Dedup_Gate_Facts
  imports Dedup_Gate Dedup_Facts
begin

text \<open>
  What the gate and the recording hooks guarantee on top of the store: enforce mode dispatches
  only on a committed claim, observe mode never blocks, and a terminal write settles a key along
  the machine, with no downgrade of a held key unless another process writes in between.
\<close>

section \<open>Keys of rows\<close>

lemma urlsplit_error: "urlsplit u = Inl e \<Longrightarrow> isinst e ValueErr"
  by (auto simp: urlsplit_def Let_def split: prod.splits if_splits)

lemma url_port_error: "url_port p = Inl e \<Longrightarrow> isinst e ValueErr"
  by (auto simp: url_port_def split: option.splits if_splits)

text \<open>\<open>_key_for_row\<close> catches every exception the key constructor can raise.\<close>

lemma new_DedupKey_error: "new_DedupKey p u a = Inl e \<Longrightarrow> isinst e ValueErr"
  by (auto simp: new_DedupKey_def canonicalize_url_def Let_def bindR_eq_Inl_iff
        dest: urlsplit_error url_port_error split: if_splits option.splits)

section \<open>Effects of the hooks\<close>

lemma on_store_eq: "on_store m w = (r, w') \<longleftrightarrow> (\<exists>d. m (w_store w) = (r, d) \<and> w' = w\<lparr>w_store := d\<rparr>)"
  by (auto simp: on_store_def split: prod.splits)

definition wstate :: "world \<Rightarrow> dkey \<Rightarrow> dstate option" where
  "wstate w q = kstate (db_rows (w_store w)) q"

lemma wstate_store [simp]: "wstate (w\<lparr>w_store := d\<rparr>) q = kstate (db_rows d) q"
  by (simp add: wstate_def)

text \<open>A dispatch verdict of the enforce gate stands on a committed claim of this run.\<close>

lemma gate_body_dispatch:
  assumes "gate_body env k c n ttl f t = (Inr g, t')" "gd_verdict g = VDispatch"
  shows "kstate t (as_tuple k) \<in> {None, Some Failed} \<or> f \<and> kstate t (as_tuple k) \<noteq> Some Done"
    "\<exists>row. dget t' (as_tuple k) = Some row \<and> c_state row = Attempting \<and>
       c_owner_pid row = Some (owner_pid_of env c) \<and> c_owner_run_id row = cl_owner_run_id c"
  using assms
  by (auto simp: gate_body_def claim_defs sql_update_def kstate_def claimed_row_def Let_def
        split: option.splits if_splits)

lemma gate_body_verdict:
  assumes "gate_body env k c n ttl f t = (Inr g, t')"
  shows "gd_verdict g = VDispatch \<or>
    (kstate t (as_tuple k) = Some Done \<and> gd_verdict g = (if f then VConflict else VSkip)) \<or>
    (kstate t (as_tuple k) \<in> {Some Uncertain, Some Attempting} \<and> gd_verdict g = VHold)"
proof (cases "dget t (as_tuple k)")
  case None
  then show ?thesis using assms by (auto simp: gate_body_def claim_defs)
next
  case (Some row)
  then show ?thesis
    using assms by (cases "c_state row") (auto simp: gate_body_def claim_defs kstate_def Let_def split: if_splits)
qed

text \<open>C2. Fail closed: in enforce mode, whatever faults the store meets and whatever state it is in, a row
  with a usable key that the store fails on is held, with no row changed (only a process exit passes
  through). Else the answer is that of the store: the row is dispatched only if this call committed
  a claim of the key, which was absent or failed (or, under a force flag, not done); a key that is
  not dispatched is skipped (rejected under a force flag) if it is done, and held if it is uncertain
  or being attempted. Nothing but the store is touched.\<close>

theorem enforce_gate_fails_closed:
  assumes "enforce_enabled env" "key_for_row env row platform = Some k"
    and "gate env row platform run_id force w = (r, w')"
  shows "w' = w\<lparr>w_store := w_store w'\<rparr> \<and>
    (case fst (gate_and_claim env k (run_claimant env run_id) None STALE_TTL_S force (w_store w)) of
       Inl e \<Rightarrow> r = (if isinst e ExceptionClass then Inr (VHold, None) else Inl e) \<and>
         db_rows (w_store w') = db_rows (w_store w)
     | Inr g \<Rightarrow> r = Inr (gd_verdict g, gd_record g) \<and>
         (gd_verdict g = VDispatch \<and>
            (wstate w (as_tuple k) \<in> {None, Some Failed} \<or> force \<and> wstate w (as_tuple k) \<noteq> Some Done) \<and>
            (\<exists>row. dget (db_rows (w_store w')) (as_tuple k) = Some row \<and> c_state row = Attempting \<and>
               c_owner_pid row = Some (e_pid env) \<and> c_owner_run_id row = run_id) \<or>
          wstate w (as_tuple k) = Some Done \<and> gd_verdict g = (if force then VConflict else VSkip) \<or>
          wstate w (as_tuple k) \<in> {Some Uncertain, Some Attempting} \<and> gd_verdict g = VHold))"
proof -
  let ?op = "gate_and_claim env k (run_claimant env run_id) None STALE_TTL_S force"
  obtain q d where q: "?op (w_store w) = (q, d)" by (cases "?op (w_store w)")
  from q[unfolded gate_and_claim_def] show ?thesis
  proof (cases rule: run_op_cases)
    case (fail e)
    then show ?thesis using assms q by (auto simp: gate_def stateful_simps on_store_def)
  next
    case (ok g)
    have w': "r = Inr (gd_verdict g, gd_record g)" "w' = w\<lparr>w_store := d\<rparr>"
      using assms ok(1) q by (auto simp: gate_def stateful_simps on_store_def)
    have pid: "owner_pid_of env (run_claimant env run_id) = e_pid env" "cl_owner_run_id (run_claimant env run_id) = run_id"
      by (simp_all add: owner_pid_of_def run_claimant_def)
    show ?thesis
      unfolding q fst_conv ok(1) sum.case w' wstate_def
      using gate_body_dispatch[OF ok(2), unfolded pid] gate_body_verdict[OF ok(2)] by auto
  qed
qed

text \<open>Without a force flag nothing is rejected: a conflict only answers a forced done key.\<close>

lemma gate_body_no_conflict:
  "gate_body env k c n ttl False t = (Inr g, t') \<Longrightarrow> gd_verdict g \<noteq> VConflict"
  by (auto simp: gate_body_def claim_defs Let_def split: option.splits if_splits)

lemma gate_no_conflict:
  assumes "gate env row platform run_id False w = (Inr (v, rec), w')"
  shows "v \<noteq> VConflict"
proof (cases "key_for_row env row platform")
  case None
  then show ?thesis using assms by (simp add: gate_def retS_def)
next
  case (Some k)
  show ?thesis
  proof (cases "enforce_enabled env")
    case False
    then show ?thesis using assms Some by (auto simp: gate_def bindS_Inr retS_def)
  next
    case True
    let ?op = "gate_and_claim env k (run_claimant env run_id) None STALE_TTL_S False"
    obtain q d where q: "?op (w_store w) = (q, d)" by (cases "?op (w_store w)")
    from q[unfolded gate_and_claim_def] show ?thesis
      using assms Some True q gate_body_no_conflict
      by (cases rule: run_op_cases) (auto simp: gate_def stateful_simps on_store_def split: if_splits)
  qed
qed

definition enforce_env :: env where
  "enforce_env = env0\<lparr>e_environ := [(ENFORCE_ENV, ''1'')]\<rparr>"

definition demo_row :: jdict where
  "demo_row = [(''target_url'', JStr ''https://a.b/'')]"

definition broken_world :: world where
  "broken_world = \<lparr>w_store = \<lparr>db_rows = [], db_faults = [FBegin (mkexn SqliteError ''not a database'')]\<rparr>,
     w_audit = \<lparr>al_lines = [], al_exists = False, al_error = None\<rparr>, w_out = [], w_err = []\<rparr>"

lemma demo_key_for_row: "key_for_row enforce_env demo_row ''velog'' = Some demo_key"
  by code_simp

theorem enforce_gate_fails_closed_witness:
  "\<exists>e. fst (gate_and_claim enforce_env demo_key (run_claimant enforce_env None) None STALE_TTL_S False (w_store broken_world)) = Inl e \<and>
     fst (gate enforce_env demo_row ''velog'' None False broken_world) = Inr (VHold, None)"
proof -
  obtain r w' where g: "gate enforce_env demo_row ''velog'' None False broken_world = (r, w')"
    by (cases "gate enforce_env demo_row ''velog'' None False broken_world")
  have e: "fst (gate_and_claim enforce_env demo_key (run_claimant enforce_env None) None STALE_TTL_S False (w_store broken_world)) =
      Inl (mkexn SqliteError ''not a database'')" by code_simp
  have "isinst (mkexn SqliteError ''not a database'') ExceptionClass" by code_simp
  moreover have "enforce_enabled enforce_env" by code_simp
  ultimately show ?thesis
    using enforce_gate_fails_closed[OF _ demo_key_for_row g] g e by auto
qed

text \<open>A store whose faults are errors, as those of the database library are, and not exits of the process.\<close>

definition faults_are_errors :: "dstore \<Rightarrow> bool" where
  "faults_are_errors d \<longleftrightarrow> (\<forall>e. FBegin e \<in> set (db_faults d) \<or> FCommit e \<in> set (db_faults d) \<longrightarrow> isinst e ExceptionClass)"

lemma connect_txn_error:
  assumes "connect_txn body d = (r, d')" "faults_are_errors d" "\<And>t e t'. body t = (Inl e, t') \<Longrightarrow> isinst e ExceptionClass"
  shows "faults_are_errors d' \<and> (\<forall>e. r = Inl e \<longrightarrow> isinst e ExceptionClass)"
proof (cases "db_faults d")
  case Nil
  then show ?thesis
    using assms by (auto simp: connect_txn_def faults_are_errors_def split: prod.splits sum.splits)
next
  case (Cons f fs)
  then show ?thesis
    using assms by (cases f) (fastforce simp: connect_txn_def faults_are_errors_def split: prod.splits sum.splits)+
qed

lemma retry_loop_error:
  assumes "\<And>t e t'. body t = (Inl e, t') \<Longrightarrow> isinst e ExceptionClass"
  shows "fst (retry_loop m n (connect_txn body) l d) = (Inl e, d') \<Longrightarrow> faults_are_errors d \<Longrightarrow>
    \<forall>x. l = Some x \<longrightarrow> isinst x ExceptionClass \<Longrightarrow> isinst e ExceptionClass"
proof (induction n arbitrary: l d)
  case 0
  then show ?case by (auto split: option.splits)
next
  case (Suc n)
  obtain r d1 where c: "connect_txn body d = (r, d1)" by (cases "connect_txn body d")
  have ce: "faults_are_errors d1 \<and> (\<forall>e. r = Inl e \<longrightarrow> isinst e ExceptionClass)"
    by (rule connect_txn_error[OF c Suc.prems(2)]) (rule assms)
  have step: "fst (retry_loop m n (connect_txn body) (Some x) d1) = (Inl e, d') \<Longrightarrow> isinst x ExceptionClass \<Longrightarrow>
      isinst e ExceptionClass" for x using Suc.IH ce by blast
  show ?case
  proof (cases r)
    case (Inl x)
    then have x: "isinst x ExceptionClass" using ce by simp
    show ?thesis
    proof (cases "isinst x SqliteOperational \<and> is_transient_sqlite_error x")
      case True
      then have "fst (retry_loop m n (connect_txn body) (Some x) d1) = (Inl e, d')"
        using Suc.prems(1) c Inl by (auto simp: Let_def split: prod.splits)
      then show ?thesis using step x by blast
    next
      case False
      then show ?thesis using Suc.prems(1) c Inl x by (auto split: if_splits)
    qed
  next
    case (Inr a)
    then show ?thesis using Suc.prems(1) c by simp
  qed
qed

lemma intent_write_error:
  assumes "intent_write env k c b d = (Inl e, d')" "faults_are_errors d"
  shows "isinst e ExceptionClass"
proof -
  have nb: "isinst x ExceptionClass" if "intent_body env k c b t = (Inl x, t')" for t x t'
    using that by (auto simp: intent_body_def sql_insert_def sql_select_def split: option.splits)
  have "fst (retry_loop MAX_RETRIES MAX_RETRIES (connect_txn (intent_body env k c b)) None d) = (Inl e, d')"
    using assms(1) by (simp add: intent_write_def run_op_def retry_sqlite_def)
  then show ?thesis by (rule retry_loop_error[rotated, OF _ assms(2)]) (use nb in auto)
qed

lemma intent_write_rows:
  assumes "intent_write env k c b d = (r, d')"
  shows "db_rows d' = db_rows d \<or>
    dget (db_rows d) (as_tuple k) = None \<and> db_rows d' = dput (as_tuple k) (claimed_row env c b) (db_rows d)"
  using assms unfolding intent_write_def
  by (rule run_op_cases) (auto simp: intent_body_def claim_defs split: option.splits if_splits)

text \<open>C38. Observe mode never blocks: whatever errors the store raises, the gate dispatches the row, and the
  only change it may make is to insert, for a usable key that has no row, the row of a claim by this
  process and run; the other rows and the rest of the world stay as they are.\<close>

theorem observe_gate_dispatches:
  assumes "\<not> enforce_enabled env" "gate env row platform run_id force w = (r, w')" "faults_are_errors (w_store w)"
  shows "r = Inr (VDispatch, None) \<and> w' = w\<lparr>w_store := w_store w'\<rparr> \<and>
    (db_rows (w_store w') = db_rows (w_store w) \<or>
     (\<exists>k. key_for_row env row platform = Some k \<and> dget (db_rows (w_store w)) (as_tuple k) = None \<and>
        db_rows (w_store w') = dput (as_tuple k) (claimed_row env (run_claimant env run_id) None) (db_rows (w_store w))))"
proof (cases "key_for_row env row platform")
  case None
  then show ?thesis using assms by (simp add: gate_def stateful_simps)
next
  case (Some k)
  let ?op = "intent_write env k (run_claimant env run_id) None"
  obtain p d where p: "?op (w_store w) = (p, d)" by (cases "?op (w_store w)")
  have "isinst e ExceptionClass" if "p = Inl e" for e
    using intent_write_error[OF _ assms(3)] p that by blast
  then show ?thesis
    using assms Some p intent_write_rows[OF p]
    by (cases p) (auto simp: gate_def record_intent_def stateful_simps on_store_def split: if_splits)
qed

theorem observe_gate_dispatches_witness:
  "fst (gate env0 demo_row ''velog'' None False broken_world) = Inr (VDispatch, None)"
proof -
  obtain r w' where g: "gate env0 demo_row ''velog'' None False broken_world = (r, w')"
    by (cases "gate env0 demo_row ''velog'' None False broken_world")
  have "\<not> enforce_enabled env0" by code_simp
  moreover have "faults_are_errors (w_store broken_world)" by (auto simp: faults_are_errors_def broken_world_def)
  ultimately show ?thesis using observe_gate_dispatches[OF _ g] g by auto
qed

section \<open>The terminal write\<close>

text \<open>The next state of a key when a dispatch outcome is recorded.\<close>

fun terminal_table :: "dstate option \<Rightarrow> dstate \<Rightarrow> dstate option" where
  "terminal_table None s = None"
| "terminal_table (Some Done) s = Some Done"
| "terminal_table (Some Uncertain) s = (if s = Failed then Some Uncertain else Some s)"
| "terminal_table (Some Failed) s = (if s = Done then Some Done else Some Failed)"
| "terminal_table (Some Attempting) s = Some s"

lemma store_get_cases:
  assumes "store_get k d = (g, d1)"
  shows "db_rows d1 = db_rows d"
    "g = Inr (row_record (db_rows d) (as_tuple k)) \<or> (isl g \<and> db_faults d \<noteq> [])"
    "db_faults d = [] \<Longrightarrow> g = Inr (row_record (db_rows d) (as_tuple k)) \<and> d1 = d"
proof -
  show ff: "db_faults d = [] \<Longrightarrow> g = Inr (row_record (db_rows d) (as_tuple k)) \<and> d1 = d"
  proof -
    assume nf: "db_faults d = []"
    then have "\<lparr>db_rows = db_rows d, db_faults = []\<rparr> = d" by (cases d) simp
    then show ?thesis
      using run_op_no_fault[where body = "get_body k", OF nf get_body_result] assms
      by (auto simp: store_get_def)
  qed
  from assms[unfolded store_get_def]
  have "db_rows d1 = db_rows d \<and> (g = Inr (row_record (db_rows d) (as_tuple k)) \<or> isl g)"
    by (rule run_op_cases) (auto simp: get_body_result)
  then show "db_rows d1 = db_rows d"
    "g = Inr (row_record (db_rows d) (as_tuple k)) \<or> (isl g \<and> db_faults d \<noteq> [])" using ff by auto
qed

lemma transition_cases:
  assumes "transition env k s a d = (p, d2)" "s \<noteq> Attempting"
  shows "isl p \<Longrightarrow> kstate (db_rows d2) q = kstate (db_rows d) q"
    "q \<noteq> as_tuple k \<Longrightarrow> kstate (db_rows d2) q = kstate (db_rows d) q"
    "\<not> isl p \<Longrightarrow> kstate (db_rows d2) (as_tuple k) = Some s"
    "db_faults d = [] \<Longrightarrow> kstate (db_rows d) (as_tuple k) = Some x \<Longrightarrow>
       x \<in> {Done, Failed} \<longrightarrow> ta_allow_from_terminal a \<Longrightarrow> ta_expect_from a = None \<Longrightarrow> p = Inr ()"
proof -
  note st = transition_step[OF assms(1)]
  show "isl p \<Longrightarrow> kstate (db_rows d2) q = kstate (db_rows d) q"
    "q \<noteq> as_tuple k \<Longrightarrow> kstate (db_rows d2) q = kstate (db_rows d) q"
    using st[of q] by (cases p; auto)+
  show "\<not> isl p \<Longrightarrow> kstate (db_rows d2) (as_tuple k) = Some s"
    using st[of "as_tuple k"] by (cases p) auto
  show "p = Inr ()" if "db_faults d = []" "kstate (db_rows d) (as_tuple k) = Some x"
    "x \<in> {Done, Failed} \<longrightarrow> ta_allow_from_terminal a" "ta_expect_from a = None"
    using transition_result[OF that(1), of env k s a] assms that(2-)
    by (cases s) (auto simp: kstate_def)
qed

text \<open>What is left alone without a second transaction.\<close>

definition already_settled :: "dedup_record \<Rightarrow> dstate \<Rightarrow> bool" where
  "already_settled x state \<longleftrightarrow>
     r_state x = Done \<or> r_state x = Uncertain \<and> state = Failed \<or> r_state x = Failed \<and> state \<noteq> Done"

definition terminal_args :: "dedup_record \<Rightarrow> string option \<Rightarrow> bool option \<Rightarrow> string option \<Rightarrow> trans_args" where
  "terminal_args x live_url verify_ok run_id =
     \<lparr>ta_live_url = live_url, ta_verify_ok = verify_ok, ta_run_id = run_id,
      ta_allow_from_terminal = (r_state x = Failed), ta_expect_from = None\<rparr>"

definition swallow :: "exn + unit \<Rightarrow> exn + unit" where
  "swallow r = (case r of Inr u \<Rightarrow> Inr u | Inl e \<Rightarrow> if isinst e ExceptionClass then Inr () else Inl e)"

lemma record_terminal_run:
  assumes "key_for_row env row platform = Some k" "store_get k (w_store w) = (g, d1)"
  shows "record_terminal env row platform state live_url verify_ok run_id w =
    (case g of
       Inl e \<Rightarrow> (swallow (Inl e), w\<lparr>w_store := d1\<rparr>)
     | Inr None \<Rightarrow> (Inr (), w\<lparr>w_store := d1\<rparr>)
     | Inr (Some x) \<Rightarrow>
         if already_settled x state then (Inr (), w\<lparr>w_store := d1\<rparr>)
         else (let (p, d2) = transition env k state (terminal_args x live_url verify_ok run_id) d1
               in (swallow p, w\<lparr>w_store := d2\<rparr>)))"
  using assms
  by (auto simp: record_terminal_def record_terminal_with_def stateful_simps on_store_def swallow_def
      already_settled_def terminal_args_def Let_def split: option.splits sum.splits prod.splits)

lemma terminal_table_settled:
  "already_settled x state \<Longrightarrow> terminal_table (Some (r_state x)) state = Some (r_state x)"
  "\<not> already_settled x state \<Longrightarrow> state \<noteq> Attempting \<Longrightarrow> terminal_table (Some (r_state x)) state = Some state"
  by (cases "r_state x"; cases state; simp add: already_settled_def)+

lemma record_terminal_table_facts:
  assumes key: "key_for_row env row platform = Some k" and state: "state \<noteq> Attempting"
    and run: "record_terminal env row platform state live_url verify_ok run_id w = (r, w')"
  shows "wstate w' q = wstate w q \<or>
           q = as_tuple k \<and> wstate w' q = terminal_table (wstate w q) state"
    "db_faults (w_store w) = [] \<Longrightarrow>
       r = Inr () \<and> wstate w' (as_tuple k) = terminal_table (wstate w (as_tuple k)) state"
proof -
  obtain g d1 where g: "store_get k (w_store w) = (g, d1)" by (cases "store_get k (w_store w)")
  note gc = store_get_cases[OF g] and rt = record_terminal_run[OF key g, of state live_url verify_ok run_id]
  let ?K = "as_tuple k" and ?t = "db_rows (w_store w)"
  have same: "wstate (w\<lparr>w_store := d1\<rparr>) q = wstate w q" for q using gc(1) by (simp add: wstate_def)
  have *: "(wstate w' q = wstate w q \<or> q = ?K \<and> wstate w' q = terminal_table (wstate w q) state) \<and>
    (db_faults (w_store w) = [] \<longrightarrow> r = Inr () \<and> wstate w' ?K = terminal_table (wstate w ?K) state)"
  proof (cases g)
    case (Inl e)
    then show ?thesis using gc(2) run same by (auto simp: rt)
  next
    case (Inr rec)
    then have rec: "rec = row_record ?t ?K" using gc(2) by auto
    show ?thesis
    proof (cases rec)
      case None
      then have "wstate w ?K = None" by (simp add: rec row_record_def wstate_def kstate_def)
      then show ?thesis using run same[of q] same[of ?K] Inr None by (auto simp: rt)
    next
      case (Some x)
      then have ks: "wstate w ?K = Some (r_state x)"
        by (auto simp: rec row_record_def wstate_def kstate_def)
      show ?thesis
      proof (cases "already_settled x state")
        case True
        then show ?thesis
          using run same[of q] same[of ?K] Inr Some terminal_table_settled(1)[OF True] ks by (auto simp: rt)
      next
        case False
        let ?a = "terminal_args x live_url verify_ok run_id"
        obtain p d2 where p: "transition env k state ?a d1 = (p, d2)" by (cases "transition env k state ?a d1")
        note tc = transition_cases[OF p state] and tt = terminal_table_settled(2)[OF False state]
        have w': "r = swallow p" "w' = w\<lparr>w_store := d2\<rparr>" using run Inr Some False p by (auto simp: rt)
        have "p = Inr ()" if "db_faults (w_store w) = []"
          using tc(4)[of "r_state x"] gc(3)[OF that] that ks False
          by (auto simp: wstate_def terminal_args_def already_settled_def)
        then show ?thesis
          using tc(1,2)[of q] tc(3) same[of q] tt ks gc(1)
          by (cases "isl p"; cases "q = ?K") (auto simp: w' swallow_def wstate_def)
      qed
    qed
  qed
  then show "wstate w' q = wstate w q \<or> q = ?K \<and> wstate w' q = terminal_table (wstate w q) state"
    "db_faults (w_store w) = [] \<Longrightarrow> r = Inr () \<and> wstate w' ?K = terminal_table (wstate w ?K) state" by auto
qed

definition demo_world :: "dstate \<Rightarrow> world" where
  "demo_world s = \<lparr>w_store = \<lparr>db_rows = [(as_tuple demo_key,
       (claimed_row env0 demo_claimant None)\<lparr>c_state := s\<rparr>)], db_faults = []\<rparr>,
     w_audit = \<lparr>al_lines = [], al_exists = False, al_error = None\<rparr>, w_out = [], w_err = []\<rparr>"

lemma demo_key_for_row0: "key_for_row env0 demo_row ''velog'' = Some demo_key"
  by code_simp

text \<open>C22. Recording an outcome, with no other writer in between: done is final, a held (uncertain)
  key is never downgraded to failed, failed only turns into done, an attempt takes the outcome;
  a key without a row gets none, and other keys stay. Without store errors the outcome is
  recorded; with them it may be lost, but never lands anywhere else.\<close>

theorem record_terminal_table:
  assumes "key_for_row env row platform = Some k" "state \<noteq> Attempting"
    "record_terminal env row platform state live_url verify_ok run_id w = (r, w')"
  shows "(wstate w' q = wstate w q \<or>
           q = as_tuple k \<and> wstate w' q = terminal_table (wstate w q) state) \<and>
    (db_faults (w_store w) = [] \<longrightarrow>
       r = Inr () \<and> wstate w' (as_tuple k) = terminal_table (wstate w (as_tuple k)) state)"
  using record_terminal_table_facts[OF assms] by simp

theorem record_terminal_table_witness:
  "wstate (snd (record_terminal env0 demo_row ''velog'' Failed None None None (demo_world Uncertain)))
     (as_tuple demo_key) = Some Uncertain"
proof -
  obtain r w' where run:
    "record_terminal env0 demo_row ''velog'' Failed None None None (demo_world Uncertain) = (r, w')"
    by (cases "record_terminal env0 demo_row ''velog'' Failed None None None (demo_world Uncertain)")
  show ?thesis
    using record_terminal_table[OF demo_key_for_row0 _ run, THEN conjunct2] run
    by (simp add: demo_world_def wstate_def kstate_def)
qed

text \<open>The protection of held keys is not atomic: the read and the write are two transactions,
  and if another process settles the same attempt as uncertain (a 5xx that may have committed)
  in between, the write of \<open>failed\<close> goes through and the held key becomes re-publishable.\<close>

theorem record_terminal_race:
  "let between = (\<lambda>d. snd (transition env0 demo_key (terminal_for_error_class (Some ''http_5xx'')) demo_args d));
       w = demo_world Attempting;
       w' = snd (record_terminal_with between env0 demo_row ''velog'' Failed None None None w)
   in kstate (db_rows (between (w_store w))) (as_tuple demo_key) = Some Uncertain \<and>
      wstate w' (as_tuple demo_key) = Some Failed"
  by code_simp

end
