(* ===== verification/Dedup_Backfill.thy ===== *)
theory Dedup_Backfill
  imports Dedup_Gate
begin

text \<open>
  Seeding the dedup store from the publish events (\<open>idempotency/backfill.py\<close>), the table of
  adapter names (\<open>publishing/platform_alias.py\<close>), the coverage check that guards enforce mode
  (\<open>idempotency/reconcile.py\<close>), and the precondition of \<open>cli/_dedup_gate.py\<close>.
\<close>

section \<open>Adapter names\<close>

definition ADAPTER_STRING_TO_PLATFORM :: "(string, string) dict" where
  "ADAPTER_STRING_TO_PLATFORM =
    [(''blogger-api'', ''blogger''), (''devto'', ''devto''), (''ghpages'', ''ghpages''),
     (''gitlabpages'', ''gitlabpages''), (''hackmd'', ''hackmd''), (''hashnode'', ''hashnode''),
     (''hashnode-gql'', ''hashnode''), (''mataroa'', ''mataroa''), (''hatena'', ''hatena''),
     (''linkedin'', ''linkedin''), (''livejournal-api'', ''livejournal''),
     (''medium-api'', ''medium''), (''medium-brave'', ''medium''), (''medium-browser'', ''medium''),
     (''notion'', ''notion''), (''rentry'', ''rentry''), (''substack'', ''substack''),
     (''telegraph-api'', ''telegraph''), (''telegraph-cdp'', ''telegraph''), (''tumblr'', ''tumblr''),
     (''notesio-form-post'', ''notesio''), (''txtfyi-form-post'', ''txtfyi''),
     (''velog-graphql'', ''velog''), (''wordpresscom'', ''wordpresscom''), (''writeas'', ''writeas''),
     (''velog-browser-attach'', ''velog''), (''devto-browser-attach'', ''devto''),
     (''mastodon-browser-attach'', ''mastodon''), (''qiita'', ''qiita''), (''qiita-api'', ''qiita''),
     (''zenn'', ''zenn''), (''zenn-github'', ''zenn'')]"

definition canonical_platform :: "string option \<Rightarrow> string option" where
  "canonical_platform name =
     (case name of
        None \<Rightarrow> None
      | Some s \<Rightarrow> if s = [] then Some s else Some (dget_or ADAPTER_STRING_TO_PLATFORM s s))"

section \<open>Publish events\<close>

text \<open>
  A row of the event table: kind, target URL column, and the parsed payload; no payload stands
  for an empty column and for text that is not JSON, which the code both reads as the empty dict.
\<close>

type_synonym event_row = "string \<times> string option \<times> json option"

datatype events_db = EvAbsent | EvNoTable | EvRows "event_row list"

definition BACKFILL_KINDS :: "string list" where
  "BACKFILL_KINDS = [''publish.confirmed'', ''publish.unverified'']"

definition read_publish_events :: "events_db \<Rightarrow> event_row list" where
  "read_publish_events db =
     (case db of
        EvAbsent \<Rightarrow> []
      | EvNoTable \<Rightarrow> []
      | EvRows rows \<Rightarrow> filter (\<lambda>r. fst r \<in> set BACKFILL_KINDS) rows)"

text \<open>Platform and target of an event, or \<open>None\<close> for one to quarantine; a payload that is not
  an object and an unhashable adapter name raise.\<close>

definition event_target ::
  "event_row \<Rightarrow> exn + (string \<times> json) option \<times> json" where
  "event_target ev =
     (case ev of (kind, col_target_url, payload_json) \<Rightarrow>
       bindR (jdict_of (case payload_json of None \<Rightarrow> JDict [] | Some j \<Rightarrow> j)) (\<lambda>payload.
         let adapter_string = jget payload ''platform'';
             target_url = (case col_target_url of
                             Some s \<Rightarrow> if s \<noteq> [] then JStr s else jget payload ''target_url''
                           | None \<Rightarrow> jget payload ''target_url'');
             live_url = jget payload ''live_url'';
             name = (if truthy adapter_string then adapter_string else JStr [])
         in if \<not> hashable name then Inl (mkexn TypeErr ''unhashable type'')
            else (case (case name of JStr s \<Rightarrow> dget ADAPTER_STRING_TO_PLATFORM s | _ \<Rightarrow> None) of
                    None \<Rightarrow> Inr (None, live_url)
                  | Some p \<Rightarrow>
                      if \<not> truthy target_url then Inr (None, live_url)
                      else Inr (Some (p, target_url), live_url))))"

section \<open>Backfill\<close>

record backfill_result =
  seeded_done :: nat
  seeded_uncertain :: nat
  quarantined :: nat
  skipped_existing :: nat
  skipped_operator_touched :: nat

definition backfill0 :: backfill_result where
  "backfill0 = \<lparr>seeded_done = 0, seeded_uncertain = 0, quarantined = 0, skipped_existing = 0,
     skipped_operator_touched = 0\<rparr>"

definition seeded_total :: "backfill_result \<Rightarrow> nat" where
  "seeded_total r = seeded_done r + seeded_uncertain r"

type_synonym best_map = "(dkey, dedup_key \<times> dstate \<times> json) dict"

text \<open>The stronger outcome of a key wins; of two done ones, one that has a live URL.\<close>

definition keep_best :: "dedup_key \<Rightarrow> dstate \<Rightarrow> json \<Rightarrow> best_map \<Rightarrow> best_map" where
  "keep_best key state live_url best =
     (let tup = as_tuple key
      in case dget best tup of
           None \<Rightarrow> dput tup (key, state, live_url) best
         | Some (_, state0, live0) \<Rightarrow>
             if state = Done \<and> state0 \<noteq> Done then dput tup (key, state, live_url) best
             else if state = Done \<and> live0 = JNull \<and> truthy live_url
             then dput tup (key, state, live_url) best
             else best)"

text \<open>The strongest outcome per key; the second component counts quarantined events.\<close>

fun aggregate :: "env \<Rightarrow> event_row list \<Rightarrow> best_map \<Rightarrow> nat \<Rightarrow> exn + best_map \<times> nat" where
  "aggregate env [] best q = Inr (best, q)"
| "aggregate env (ev # evs) best q =
     bindR (event_target ev) (\<lambda>(pt, live_url).
       case pt of
         None \<Rightarrow> aggregate env evs best (q + 1)
       | Some (platform, target_url) \<Rightarrow>
           bindR (new_DedupKey platform (py_str env target_url) ''default'') (\<lambda>key.
             let state = (if fst ev = ''publish.confirmed'' \<and> truthy live_url then Done else Uncertain)
             in aggregate env evs (keep_best key state live_url best) q))"

text \<open>A JSON value bound to a TEXT column: numbers become text, containers cannot be bound.\<close>

definition sql_text :: "env \<Rightarrow> json \<Rightarrow> exn + string option" where
  "sql_text env j =
     (case j of
        JNull \<Rightarrow> Inr None
      | JStr s \<Rightarrow> Inr (Some s)
      | JBool b \<Rightarrow> Inr (Some (if b then ''1'' else ''0''))
      | JList xs \<Rightarrow> Inl (mkexn SqliteError ''Error binding parameter'')
      | JDict d \<Rightarrow> Inl (mkexn SqliteError ''Error binding parameter'')
      | _ \<Rightarrow> Inr (Some (e_str env j)))"

fun seed_loop ::
  "env \<Rightarrow> jkey list \<Rightarrow> (dkey \<times> dedup_key \<times> dstate \<times> json) list \<Rightarrow> backfill_result \<Rightarrow>
     dstore \<Rightarrow> (exn + backfill_result) \<times> dstore" where
  "seed_loop env touched [] res d = (Inr res, d)"
| "seed_loop env touched ((tup, key, state, live_url) # rest) res d =
     (if jkey_of tup \<in> set touched
      then seed_loop env touched rest
             (res\<lparr>skipped_operator_touched := skipped_operator_touched res + 1\<rparr>) d
      else bindS
        (\<lambda>d. case sql_text env live_url of
               Inl e \<Rightarrow> (Inl e, d)
             | Inr url \<Rightarrow> seed env key state url (if state = Done then Some True else None) d)
        (\<lambda>inserted.
           seed_loop env touched rest
             (if \<not> inserted then res\<lparr>skipped_existing := skipped_existing res + 1\<rparr>
              else if state = Done then res\<lparr>seeded_done := seeded_done res + 1\<rparr>
              else res\<lparr>seeded_uncertain := seeded_uncertain res + 1\<rparr>)) d)"

definition run_backfill ::
  "env \<Rightarrow> events_db \<Rightarrow> audit_file \<Rightarrow> dstore \<Rightarrow> (exn + backfill_result) \<times> dstore" where
  "run_backfill env db audit d =
     (let events = read_publish_events db
      in if events = [] then (Inr backfill0, d)
         else case touched_keys audit of
                Inl e \<Rightarrow> (Inl e, d)
              | Inr touched \<Rightarrow>
                  (case aggregate env events [] 0 of
                     Inl e \<Rightarrow> (Inl e, d)
                   | Inr (best, q) \<Rightarrow> seed_loop env touched best (backfill0\<lparr>quarantined := q\<rparr>) d))"

section \<open>Readiness for enforce mode\<close>

definition ACK_QUARANTINE_ENV :: string where
  "ACK_QUARANTINE_ENV = ''BACKLINK_PUBLISHER_DEDUP_ENFORCE_ACK_QUARANTINE''"

definition COVERED :: "dstate set" where "COVERED = {Done, Uncertain}"

record recon_result =
  event_key_count :: nat
  covered_count :: nat
  missing_count :: nat
  quarantine_count :: nat
  quarantine_acknowledged :: bool
  missing_digests :: "string list"

definition recon_ok :: "recon_result \<Rightarrow> bool" where
  "recon_ok r =
     (if missing_count r > 0 then False
      else if quarantine_count r > 0 \<and> \<not> quarantine_acknowledged r then False
      else True)"

definition recon0 :: "env \<Rightarrow> recon_result" where
  "recon0 env = \<lparr>event_key_count = 0, covered_count = 0, missing_count = 0, quarantine_count = 0,
     quarantine_acknowledged = (getenv env ACK_QUARANTINE_ENV = Some ''1''), missing_digests = []\<rparr>"

text \<open>\<open>digest\<close> is the store's key digest.\<close>

fun recon_loop ::
  "env \<Rightarrow> (dedup_key \<Rightarrow> string) \<Rightarrow> event_row list \<Rightarrow> dkey list \<Rightarrow> recon_result \<Rightarrow>
     dstore \<Rightarrow> (exn + recon_result) \<times> dstore" where
  "recon_loop env digest [] seen res d = (Inr res, d)"
| "recon_loop env digest (ev # evs) seen res d =
     (case event_target ev of
        Inl e \<Rightarrow> (Inl e, d)
      | Inr (None, _) \<Rightarrow>
          recon_loop env digest evs seen (res\<lparr>quarantine_count := quarantine_count res + 1\<rparr>) d
      | Inr (Some (platform, target_url), _) \<Rightarrow>
          (case new_DedupKey platform (py_str env target_url) ''default'' of
             Inl e \<Rightarrow> (Inl e, d)
           | Inr key \<Rightarrow>
               if as_tuple key \<in> set seen then recon_loop env digest evs seen res d
               else bindS (store_get key) (\<lambda>rec.
                 let res1 = res\<lparr>event_key_count := event_key_count res + 1\<rparr>
                 in recon_loop env digest evs (as_tuple key # seen)
                      (if (case rec of None \<Rightarrow> False | Some r \<Rightarrow> r_state r \<in> COVERED)
                       then res1\<lparr>covered_count := covered_count res1 + 1\<rparr>
                       else let res2 = res1\<lparr>missing_count := missing_count res1 + 1\<rparr>
                            in if length (missing_digests res2) < 10
                               then res2\<lparr>missing_digests := missing_digests res2 @ [digest key]\<rparr>
                               else res2)) d))"

definition check_enforce_readiness ::
  "env \<Rightarrow> (dedup_key \<Rightarrow> string) \<Rightarrow> events_db \<Rightarrow> dstore \<Rightarrow> (exn + recon_result) \<times> dstore" where
  "check_enforce_readiness env digest db d =
     (let events = read_publish_events db
      in if events = [] then (Inr (recon0 env), d)
         else recon_loop env digest events [] (recon0 env) d)"

text \<open>With enforce on, an unready store ends the command with exit code 3.\<close>

definition enforce_precondition_or_exit ::
  "env \<Rightarrow> (dedup_key \<Rightarrow> string) \<Rightarrow> events_db \<Rightarrow> unit act" where
  "enforce_precondition_or_exit env digest db =
     (if \<not> enforce_enabled env then retS ()
      else bindS (on_store (check_enforce_readiness env digest db)) (\<lambda>r.
        if recon_ok r then retS ()
        else emit_errorS
          (''enforce blocked: dedup store not ready: '' @
           join ''; ''
             ((if missing_count r > 0 then [''published key(s) absent, run --backfill-dedup''] else []) @
              (if quarantine_count r > 0 \<and> \<not> quarantine_acknowledged r
               then [''event(s) have unmappable adapter strings''] else [])))
          3))"

end
