(* ===== verification/Dedup_Ops.thy ===== *)
theory Dedup_Ops
  imports Dedup_Backfill
begin

text \<open>
  The operator verbs of \<open>cli/_dedup_ops.py\<close>: forget, list, adjudicate one or many held keys,
  backfill, readiness, and the force manifest. Each ends with \<open>SystemExit\<close>; messages are
  abbreviated to their fixed text.
\<close>

record dedup_args =
  a_forget :: "(string \<times> string) option"
  a_list_uncertain :: bool
  a_adjudicate_uncertain :: "(string \<times> string) option"
  a_adjudicate_bulk :: bool
  a_backfill_dedup :: bool
  a_check_enforce_readiness :: bool
  a_to :: "string option"
  a_reason :: "string option"
  a_platform :: "string option"
  a_older_than :: "string option"
  a_list_affected :: bool
  a_confirm :: "int option"
  a_resume :: "string option"

definition no_args :: dedup_args where
  "no_args = \<lparr>a_forget = None, a_list_uncertain = False, a_adjudicate_uncertain = None,
     a_adjudicate_bulk = False, a_backfill_dedup = False, a_check_enforce_readiness = False,
     a_to = None, a_reason = None, a_platform = None, a_older_than = None,
     a_list_affected = False, a_confirm = None, a_resume = None\<rparr>"

definition TO_STATE :: "(string, dstate) dict" where
  "TO_STATE = [(''succeeded'', Done), (''failed'', Failed)]"

definition str_truthy :: "string option \<Rightarrow> bool" where
  "str_truthy s = (case s of None \<Rightarrow> False | Some x \<Rightarrow> x \<noteq> [])"

section \<open>Force manifest\<close>

text \<open>The text of a manifest, line by line as JSON; \<open>Inl\<close> where it cannot be read.\<close>

fun force_loop ::
  "env \<Rightarrow> string \<Rightarrow> audit_line list \<Rightarrow> dkey list \<Rightarrow> dkey list act" where
  "force_loop env token [] forced = retS forced"
| "force_loop env token (l # ls) forced =
     (case l of
        AJson (JDict entry) \<Rightarrow>
          if \<not> truthy (jget entry ''force'') then force_loop env token ls forced
          else if jget entry ''store_token'' \<noteq> JStr token
          then emit_errorS ''error: --force-manifest is bound to a different dedup store'' 1
          else let platform = jget entry ''platform''; target_url = jget entry ''target_url''
               in if \<not> truthy platform \<or> \<not> truthy target_url then force_loop env token ls forced
                  else bindS (liftR (new_DedupKey (py_str env platform) (py_str env target_url) ''default''))
                         (\<lambda>key. force_loop env token ls (List.insert (as_tuple key) forced))
      | _ \<Rightarrow> force_loop env token ls forced)"

definition load_force_manifest ::
  "env \<Rightarrow> string \<Rightarrow> exn + audit_line list \<Rightarrow> int option \<Rightarrow> string option \<Rightarrow> dkey list act" where
  "load_force_manifest env token file confirm reason =
     (if \<not> str_truthy reason
      then emit_errorS ''error: --force-manifest requires --reason <text>'' 1
      else case file of
             Inl e \<Rightarrow> if isinst e OSErr then emit_errorS ''error: cannot read --force-manifest'' 1
                      else raiseS e
           | Inr ls \<Rightarrow>
               bindS (force_loop env token ls []) (\<lambda>forced.
                 if confirm \<noteq> Some (int (length forced))
                 then emit_errorS ''error: --force-manifest needs --confirm N (blast-radius guard)'' 1
                 else retS forced))"

section \<open>Readiness\<close>

definition do_check_enforce_readiness ::
  "env \<Rightarrow> (dedup_key \<Rightarrow> string) \<Rightarrow> events_db \<Rightarrow> unit act" where
  "do_check_enforce_readiness env digest db =
     bindS (on_store (check_enforce_readiness env digest db)) (\<lambda>r.
     bindS (print_err ''enforce-readiness: counts'') (\<lambda>u.
     bindS (if missing_digests r \<noteq> []
            then print_err (''missing key digests: '' @ join '', '' (missing_digests r)) else retS ()) (\<lambda>u.
     if recon_ok r
     then bindS (print_err ''enforce-readiness: READY.'') (\<lambda>u. raiseS (SysExit 0))
     else bindS (print_err ''enforce-readiness: NOT READY'') (\<lambda>u. raiseS (SysExit 3)))))"

section \<open>Adjudication\<close>

definition resolve_to_state :: "dedup_args \<Rightarrow> dstate act" where
  "resolve_to_state args =
     (case a_to args of
        None \<Rightarrow> emit_errorS ''error: --to must be one of failed, succeeded'' 1
      | Some raw \<Rightarrow>
          (case dget TO_STATE raw of
             None \<Rightarrow> emit_errorS ''error: --to must be one of failed, succeeded'' 1
           | Some s \<Rightarrow>
               if \<not> str_truthy (a_reason args)
               then emit_errorS ''error: --adjudicate requires --reason <text>'' 1
               else retS s))"

definition unit_seconds :: "(char, int) dict" where
  "unit_seconds = [(CHR ''s'', 1), (CHR ''m'', 60), (CHR ''h'', 3600), (CHR ''d'', 86400)]"

definition parse_older_than :: "string option \<Rightarrow> (int option) act" where
  "parse_older_than spec =
     (case spec of
        None \<Rightarrow> retS None
      | Some s \<Rightarrow>
          if s = [] then retS None
          else (case dget unit_seconds (last s) of
                  None \<Rightarrow> emit_errorS ''error: --older-than must be <int><s|m|h|d>'' 1
                | Some u \<Rightarrow>
                    if \<not> isdigit (butlast s)
                    then emit_errorS ''error: --older-than must be <int><s|m|h|d>'' 1
                    else retS (Some (int_of_digits (butlast s) * u))))"

definition adjudicate_one ::
  "env \<Rightarrow> dedup_key \<Rightarrow> dstate \<Rightarrow> string \<Rightarrow> string option \<Rightarrow> unit act" where
  "adjudicate_one env key to_state reason run_id =
     bindS (on_store (transition env key to_state
              \<lparr>ta_live_url = None, ta_verify_ok = None, ta_run_id = run_id,
               ta_allow_from_terminal = False, ta_expect_from = Some [Uncertain]\<rparr>)) (\<lambda>u.
       on_audit (append_entry env
         \<lparr>ae_action = ''adjudicate'', ae_platform = k_platform key, ae_target_url = k_target_url key,
          ae_account = k_account key, ae_from_state = Some ''uncertain'',
          ae_to_state = Some (dstate_name to_state), ae_reason = reason, ae_run_id = run_id\<rparr>))"

definition do_adjudicate_single :: "env \<Rightarrow> dedup_args \<Rightarrow> string \<times> string \<Rightarrow> unit act" where
  "do_adjudicate_single env args pt =
     bindS (resolve_to_state args) (\<lambda>to_state.
     bindS (liftR (new_DedupKey (fst pt) (snd pt) ''default'')) (\<lambda>key.
     bindS (on_store (store_get key)) (\<lambda>rec.
       case rec of
         None \<Rightarrow> emit_errorS ''error: no dedup row for key (nothing to adjudicate)'' 1
       | Some record \<Rightarrow>
           if r_state record \<noteq> Uncertain
           then emit_errorS ''error: key is not uncertain; only held rows can be adjudicated'' 1
           else bindS
             (catchS [ValueErr]
               (adjudicate_one env key to_state (opt_str (a_reason args)) (r_run_id record))
               (\<lambda>e. emit_errorS ''error: adjudication skipped'' 1))
             (\<lambda>u. print_err (''adjudicate: key uncertain -> '' @ dstate_name to_state)))))"

text \<open>One row of the bulk loop: a \<open>ValueError\<close> or SQLite error skips the row.\<close>

definition adjudicate_row ::
  "env \<Rightarrow> dstate \<Rightarrow> string \<Rightarrow> dedup_record \<Rightarrow> bool act" where
  "adjudicate_row env to_state reason r =
     bindS (liftR (new_DedupKey (r_platform r) (r_target_url r) (r_account r))) (\<lambda>key.
       catchS [ValueErr, SqliteError]
         (bindS (adjudicate_one env key to_state reason (r_run_id r)) (\<lambda>u. retS True))
         (\<lambda>e. bindS (print_err ''adjudicate-bulk: skipped one row'') (\<lambda>u. retS False)))"

fun adjudicate_loop ::
  "env \<Rightarrow> dstate \<Rightarrow> string \<Rightarrow> dedup_record list \<Rightarrow> nat \<Rightarrow> nat \<Rightarrow> (nat \<times> nat) act" where
  "adjudicate_loop env to_state reason [] resolved skipped = retS (resolved, skipped)"
| "adjudicate_loop env to_state reason (r # rs) resolved skipped =
     bindS (adjudicate_row env to_state reason r) (\<lambda>ok.
       if ok then adjudicate_loop env to_state reason rs (resolved + 1) skipped
       else adjudicate_loop env to_state reason rs resolved (skipped + 1))"

fun print_rows :: "string list \<Rightarrow> unit act" where
  "print_rows [] = retS ()"
| "print_rows (l # ls) = bindS (print_out l) (\<lambda>u. print_rows ls)"

definition do_adjudicate_bulk :: "env \<Rightarrow> dedup_args \<Rightarrow> unit act" where
  "do_adjudicate_bulk env args =
     bindS (resolve_to_state args) (\<lambda>to_state.
     bindS (parse_older_than (a_older_than args)) (\<lambda>older_than_s.
     bindS (on_store (list_by_state Uncertain (a_platform args))) (\<lambda>rows0.
       let rows = (case older_than_s of
                     None \<Rightarrow> rows0
                   | Some s \<Rightarrow> filter (\<lambda>r. r_updated_at r < e_now env - of_int s) rows0)
       in if a_list_affected args
          then print_rows (''adjudicate-bulk: row(s) would be set'' # map r_target_url rows)
          else if a_confirm args \<noteq> Some (int (length rows))
          then emit_errorS ''error: --adjudicate-bulk needs --confirm N'' 1
          else bindS (adjudicate_loop env to_state (opt_str (a_reason args)) rows 0 0) (\<lambda>rs.
                 print_err (''adjudicate-bulk: resolved '' @ nat_str (fst rs))))))"

section \<open>Forget and list\<close>

definition has_glob :: "string \<Rightarrow> bool" where
  "has_glob v \<longleftrightarrow> CHR ''*'' \<in> set v \<or> CHR ''?'' \<in> set v"

definition forget_entry :: "dedup_args \<Rightarrow> dedup_key \<Rightarrow> string option \<Rightarrow> audit_entry" where
  "forget_entry args key from_state =
     \<lparr>ae_action = ''forget'', ae_platform = k_platform key, ae_target_url = k_target_url key,
      ae_account = k_account key, ae_from_state = from_state, ae_to_state = Some ''absent'',
      ae_reason = opt_str (a_reason args), ae_run_id = a_resume args\<rparr>"

text \<open>The entry is written before the row is deleted.\<close>

definition forget_key :: "env \<Rightarrow> dedup_args \<Rightarrow> dedup_key \<Rightarrow> unit act" where
  "forget_key env args key =
     bindS (on_store (store_get key)) (\<lambda>record.
       let from_state = map_option (\<lambda>r. dstate_name (r_state r)) record
       in bindS (on_audit (append_entry env (forget_entry args key from_state))) (\<lambda>u.
          bindS (on_store (forget key)) (\<lambda>prior.
            print_err (case from_state of
                         None \<Rightarrow> ''forget: key was already absent; audit entry recorded.''
                       | Some s \<Rightarrow> ''forget: cleared key; now re-publishable.''))))"

definition do_forget :: "env \<Rightarrow> dedup_args \<Rightarrow> string \<times> string \<Rightarrow> unit act" where
  "do_forget env args pt =
     (if \<not> str_truthy (a_reason args) then emit_errorS ''error: --forget requires --reason <text>'' 1
      else if has_glob (fst pt) \<or> has_glob (snd pt)
      then emit_errorS ''error: --forget takes a single concrete key'' 1
      else bindS (liftR (new_DedupKey (fst pt) (snd pt) ''default'')) (forget_key env args))"

definition do_list_uncertain :: "dedup_args \<Rightarrow> unit act" where
  "do_list_uncertain args =
     bindS (on_store (list_by_state Uncertain (a_platform args))) (\<lambda>rows.
       if rows = [] then print_out ''No uncertain (held) dedup rows.''
       else print_rows (map r_target_url rows))"

definition exit_after :: "'a act \<Rightarrow> unit act" where
  "exit_after m = bindS m (\<lambda>u. raiseS (SysExit 0))"

definition handle_dedup_ops ::
  "env \<Rightarrow> (dedup_key \<Rightarrow> string) \<Rightarrow> events_db \<Rightarrow> dedup_args \<Rightarrow> unit act" where
  "handle_dedup_ops env digest db args =
     (case a_forget args of
        Some pt \<Rightarrow> exit_after (do_forget env args pt)
      | None \<Rightarrow>
     if a_list_uncertain args then exit_after (do_list_uncertain args)
     else case a_adjudicate_uncertain args of
        Some pt \<Rightarrow> exit_after (do_adjudicate_single env args pt)
      | None \<Rightarrow>
     if a_adjudicate_bulk args then exit_after (do_adjudicate_bulk env args)
     else if a_backfill_dedup args
     then exit_after (\<lambda>w. on_store (run_backfill env db (w_audit w)) w)
     else if a_check_enforce_readiness args then do_check_enforce_readiness env digest db
     else retS ())"

end
