(* ===== verification/Dedup_Ops_Facts.thy ===== *)
theory Dedup_Ops_Facts
  imports Dedup_Ops Dedup_Gate_Facts
begin

text \<open>
  What the operator verbs guarantee: adjudication only settles held keys and leaves a trail, a
  bulk change needs its exact count confirmed, a forgotten key is never seeded again, backfill
  only inserts and is idempotent; and where a forgotten key leaves enforce mode.
\<close>

section \<open>Adjudication\<close>

lemma on_audit_store: "w_store (snd (on_audit m w)) = w_store w"
  by (auto simp: on_audit_def split: prod.splits)

text \<open>One adjudication: the only key it can move is its own, from uncertain to the target.\<close>

lemma transition_uncertain:
  assumes "transition env k s a d = (p, d2)" "ta_expect_from a = Some [Uncertain]"
    "kstate (db_rows d2) q \<noteq> kstate (db_rows d) q"
  shows "q = as_tuple k \<and> p = Inr () \<and> kstate (db_rows d) q = Some Uncertain \<and>
         kstate (db_rows d2) q = Some s \<and> s \<noteq> Attempting"
proof -
  have s: "s \<noteq> Attempting" using assms by (auto simp: transition_def)
  then have "run_op (transition_body env k s a) d = (p, d2)"
    using assms(1) by (cases s) (auto simp: transition_def)
  then show ?thesis
  proof (cases rule: run_op_cases)
    case (fail e)
    then show ?thesis using assms(3) by simp
  next
    case (ok u)
    have q: "q = as_tuple k" using transition_cases(2)[OF assms(1) s, of q] assms(3) by blast
    show ?thesis
      using ok assms(2) s transition_cases(3)[OF assms(1) s] unfolding q
      by (auto simp: transition_body_def sql_select_def Let_def kstate_def split: option.splits if_splits)
  qed
qed

definition adjudicated :: "world \<Rightarrow> world \<Rightarrow> dstate \<Rightarrow> dkey \<Rightarrow> bool" where
  "adjudicated w w' s q \<longleftrightarrow> wstate w q = Some Uncertain \<and> wstate w' q = Some s \<and>
     (al_error (w_audit w) = None \<longrightarrow>
        (\<exists>d. AJson (JDict d) \<in> set (al_lines (w_audit w')) \<and> dget d ''action'' = Some (JStr ''adjudicate'') \<and>
             jget d ''platform'' = JStr (fst q) \<and> jget d ''account'' = JStr (fst (snd q)) \<and>
             jget d ''target_url'' = JStr (snd (snd q))))"

definition audit_grows :: "world \<Rightarrow> world \<Rightarrow> bool" where
  "audit_grows w w' \<longleftrightarrow> set (al_lines (w_audit w)) \<subseteq> set (al_lines (w_audit w')) \<and>
     al_error (w_audit w') = al_error (w_audit w)"

text \<open>What an adjudicating command may do to the world.\<close>

definition adjudicates :: "dstate \<Rightarrow> world \<Rightarrow> world \<Rightarrow> bool" where
  "adjudicates s w w' \<longleftrightarrow> audit_grows w w' \<and>
     (\<forall>q. wstate w' q \<noteq> wstate w q \<longrightarrow> adjudicated w w' s q)"

lemma adjudicates_same:
  "w_store w' = w_store w \<Longrightarrow> w_audit w' = w_audit w \<Longrightarrow> adjudicates s w w'"
  by (simp add: adjudicates_def audit_grows_def wstate_def)

lemma adjudicates_trans:
  assumes "adjudicates s w1 w2" "adjudicates s w2 w3" "s \<noteq> Uncertain"
  shows "adjudicates s w1 w3"
proof -
  have g: "audit_grows w1 w3" using assms by (auto simp: adjudicates_def audit_grows_def)
  have "adjudicated w1 w3 s q" if ch: "wstate w3 q \<noteq> wstate w1 q" for q
  proof (cases "wstate w2 q = wstate w1 q")
    case True
    then have a: "adjudicated w2 w3 s q" using assms(2) ch unfolding adjudicates_def by metis
    moreover have "al_error (w_audit w2) = al_error (w_audit w1)"
      using assms(1) by (auto simp: adjudicates_def audit_grows_def)
    ultimately show ?thesis using True by (auto simp: adjudicated_def)
  next
    case False
    then have a: "adjudicated w1 w2 s q" using assms(1) unfolding adjudicates_def by metis
    have "wstate w3 q = wstate w2 q"
      using assms(2,3) a unfolding adjudicates_def adjudicated_def by (metis option.inject)
    moreover have "set (al_lines (w_audit w2)) \<subseteq> set (al_lines (w_audit w3))"
      using assms(2) by (simp add: adjudicates_def audit_grows_def)
    ultimately show ?thesis using a unfolding adjudicated_def by auto
  qed
  with g show ?thesis by (simp add: adjudicates_def)
qed

lemma adjudicate_one_adjudicates:
  assumes "adjudicate_one env k s reason run_id w = (r, w')"
  shows "adjudicates s w w'"
proof -
  let ?a = "\<lparr>ta_live_url = None, ta_verify_ok = None, ta_run_id = run_id,
             ta_allow_from_terminal = False, ta_expect_from = Some [Uncertain]\<rparr>"
  obtain p d2 where p: "transition env k s ?a (w_store w) = (p, d2)"
    by (cases "transition env k s ?a (w_store w)")
  note tu = transition_uncertain[OF p]
  show ?thesis
  proof (cases "p = Inr ()")
    case False
    then have "w' = w\<lparr>w_store := d2\<rparr>"
      using assms p by (cases p) (auto simp: adjudicate_one_def bindS_def on_store_def)
    then show ?thesis using tu False by (auto simp: adjudicates_def audit_grows_def wstate_def)
  next
    case True
    then show ?thesis
      using assms p tu
      by (cases "al_error (w_audit w)")
         (auto simp: adjudicate_one_def bindS_def on_store_def on_audit_def append_entry_def
            adjudicates_def audit_grows_def adjudicated_def wstate_def entry_json_def jget_def
            dget_or_def as_tuple_def)
  qed
qed

lemma adjudicate_row_adjudicates:
  "adjudicate_row env s reason x w = (r, w') \<Longrightarrow> adjudicates s w w'"
  by (auto simp: adjudicate_row_def bindS_def liftR_def catchS_def retS_def print_err_def
        intro: adjudicates_same dest!: adjudicate_one_adjudicates
        split: sum.splits prod.splits if_splits)
     (auto simp: adjudicates_def audit_grows_def adjudicated_def wstate_def)

lemma adjudicate_loop_adjudicates:
  "adjudicate_loop env s reason xs n m w = (r, w') \<Longrightarrow> s \<noteq> Uncertain \<Longrightarrow> adjudicates s w w'"
proof (induction xs arbitrary: n m w)
  case Nil
  then show ?case by (auto simp: retS_def intro: adjudicates_same)
next
  case (Cons x xs)
  obtain q w1 where q: "adjudicate_row env s reason x w = (q, w1)" by (cases "adjudicate_row env s reason x w")
  note a = adjudicate_row_adjudicates[OF q]
  show ?case
    using Cons.prems q a Cons.IH adjudicates_trans[OF a]
    by (cases q) (auto simp: bindS_def split: if_splits)
qed

text \<open>Commands that only print or read.\<close>

definition quiet :: "world \<Rightarrow> world \<Rightarrow> bool" where
  "quiet w w' \<longleftrightarrow> db_rows (w_store w') = db_rows (w_store w) \<and> w_audit w' = w_audit w"

lemma quiet_refl [simp]: "quiet w w"
  by (simp add: quiet_def)

lemma quiet_trans: "quiet w1 w2 \<Longrightarrow> quiet w2 w3 \<Longrightarrow> quiet w1 w3"
  by (simp add: quiet_def)

lemma quiet_adjudicates: "quiet w w' \<Longrightarrow> adjudicates s w w'"
  by (simp add: quiet_def adjudicates_def audit_grows_def wstate_def)

lemma quiet_wstate: "quiet w w' \<Longrightarrow> wstate w' q = wstate w q"
  by (simp add: quiet_def wstate_def)

lemma emit_errorS_eq: "emit_errorS m n w = (r, w') \<Longrightarrow> r = Inl (SysExit n) \<and> quiet w w' \<and> w_store w' = w_store w"
  by (auto simp: emit_errorS_def emit_error_def quiet_def)

lemma print_rows_quiet: "quiet w (snd (print_rows ls w))"
  by (induction ls arbitrary: w) (auto simp: retS_def bindS_def print_out_def quiet_def)

lemma resolve_to_state_cases:
  assumes "resolve_to_state args w = (r, w')"
  obtains (err) n where "r = Inl (SysExit n)" "quiet w w'"
    | (ok) s where "r = Inr s" "w' = w" "s \<in> {Done, Failed}" "str_truthy (a_reason args)"
proof (cases r)
  case (Inl e)
  then show ?thesis
    using assms emit_errorS_eq err
    by (fastforce simp: resolve_to_state_def retS_def split: option.splits if_splits)
next
  case (Inr s)
  then show ?thesis
    using assms ok
    by (auto simp: resolve_to_state_def retS_def TO_STATE_def split: option.splits if_splits
          dest: emit_errorS_eq)
qed

lemma parse_older_than_cases:
  assumes "parse_older_than spec w = (r, w')"
  obtains (err) n where "r = Inl (SysExit n)" "quiet w w'" | (ok) older where "r = Inr older" "w' = w"
proof (cases r)
  case (Inl e)
  then show ?thesis
    using assms emit_errorS_eq err
    by (fastforce simp: parse_older_than_def retS_def split: option.splits if_splits)
next
  case (Inr s)
  then show ?thesis
    using assms ok
    by (auto simp: parse_older_than_def retS_def split: option.splits if_splits dest: emit_errorS_eq)
qed

lemma on_store_list:
  assumes "on_store (list_by_state s p) w = (r, w')"
  shows "quiet w w'" "\<exists>d. list_by_state s p (w_store w) = (r, d)"
  using assms read_steps(3)[of s p "w_store w"] by (auto simp: on_store_eq quiet_def)

text \<open>The rows a bulk command is about.\<close>

definition selected :: "env \<Rightarrow> int option \<Rightarrow> dedup_record list \<Rightarrow> dedup_record list" where
  "selected env older rows =
     (case older of None \<Rightarrow> rows | Some s \<Rightarrow> filter (\<lambda>r. r_updated_at r < e_now env - of_int s) rows)"

text \<open>A bulk command either only prints and reads, or runs the loop over the confirmed rows.\<close>

lemma adjudicate_bulk_cases:
  assumes run: "do_adjudicate_bulk env args w = (r, w')"
  obtains (quiet) "quiet w w'"
    | (go) s older rows w3 p w4 where "s \<in> {Done, Failed}" "str_truthy (a_reason args)"
        "fst (parse_older_than (a_older_than args) w) = Inr older"
        "fst (list_by_state Uncertain (a_platform args) (w_store w)) = Inr rows"
        "\<not> a_list_affected args" "a_confirm args = Some (int (length (selected env older rows)))"
        "quiet w w3" "quiet w4 w'"
        "adjudicate_loop env s (opt_str (a_reason args)) (selected env older rows) 0 0 w3 = (p, w4)"
  using run unfolding do_adjudicate_bulk_def
proof (cases rule: bindS_cases)
  case (err e)
  from err(1) show ?thesis using quiet by (cases rule: resolve_to_state_cases) auto
next
  case (ok s w1)
  from ok(1) have s: "s \<in> {Done, Failed}" "str_truthy (a_reason args)" "w1 = w"
    by (cases rule: resolve_to_state_cases; simp)+
  from ok(2)[unfolded s(3)] show ?thesis
  proof (cases rule: bindS_cases)
    case (err e)
    from err(1) show ?thesis using quiet by (cases rule: parse_older_than_cases) auto
  next
    case o: (ok older w2)
    from o(1) have w2: "w2 = w" by (cases rule: parse_older_than_cases) auto
    from o(2)[unfolded w2] show ?thesis
    proof (cases rule: bindS_cases)
      case (err e)
      then show ?thesis using on_store_list(1) quiet by blast
    next
      case l: (ok rows w3)
      note ll = on_store_list[OF l(1)]
      let ?sel = "selected env older rows"
      have run3: "(if a_list_affected args
            then print_rows (''adjudicate-bulk: row(s) would be set'' # map r_target_url ?sel)
            else if a_confirm args \<noteq> Some (int (length ?sel))
            then emit_errorS ''error: --adjudicate-bulk needs --confirm N'' 1
            else bindS (adjudicate_loop env s (opt_str (a_reason args)) ?sel 0 0) (\<lambda>rs.
                 print_err (''adjudicate-bulk: resolved '' @ nat_str (fst rs)))) w3 = (r, w')"
        using l(2) unfolding selected_def Let_def .
      show ?thesis
      proof (cases "a_list_affected args \<or> a_confirm args \<noteq> Some (int (length ?sel))")
        case True
        then have "quiet w3 w'"
          using run3 print_rows_quiet[of w3] emit_errorS_eq[of _ _ w3 r w']
          by (cases "a_list_affected args") (simp del: print_rows.simps, metis snd_conv, simp)
        then show ?thesis using quiet quiet_trans[OF ll(1)] by blast
      next
        case False
        obtain p w4 where p: "adjudicate_loop env s (opt_str (a_reason args)) ?sel 0 0 w3 = (p, w4)"
          by (cases "adjudicate_loop env s (opt_str (a_reason args)) ?sel 0 0 w3")
        have "quiet w4 w'" using run3 False p
          by (cases p) (auto simp: bindS_def print_err_def quiet_def)
        then show ?thesis using go[OF s(1,2) _ _ _ _ ll(1) _ p] o(1) ll(2) False by auto
      qed
    qed
  qed
qed

lemma adjudicate_bulk_guarded_facts:
  assumes run: "do_adjudicate_bulk env args w = (r, w')"
  shows "\<exists>s \<in> {Done, Failed}. adjudicates s w w'"
    "wstate w' q \<noteq> wstate w q \<Longrightarrow> \<not> a_list_affected args \<and> str_truthy (a_reason args) \<and>
       (\<exists>older rows. fst (parse_older_than (a_older_than args) w) = Inr older \<and>
          fst (list_by_state Uncertain (a_platform args) (w_store w)) = Inr rows \<and>
          a_confirm args = Some (int (length (selected env older rows))))"
proof -
  show "\<exists>s \<in> {Done, Failed}. adjudicates s w w'"
    using run
  proof (cases rule: adjudicate_bulk_cases)
    case (go s older rows w3 p w4)
    then have "s \<noteq> Uncertain" by auto
    then have "adjudicates s w w'"
      using go(7-9) adjudicate_loop_adjudicates quiet_adjudicates adjudicates_trans by metis
    then show ?thesis using go(1) by blast
  qed (use quiet_adjudicates in blast)
  show "\<not> a_list_affected args \<and> str_truthy (a_reason args) \<and>
       (\<exists>older rows. fst (parse_older_than (a_older_than args) w) = Inr older \<and>
          fst (list_by_state Uncertain (a_platform args) (w_store w)) = Inr rows \<and>
          a_confirm args = Some (int (length (selected env older rows))))" if "wstate w' q \<noteq> wstate w q"
    using run that by (cases rule: adjudicate_bulk_cases) (auto dest: quiet_wstate)
qed

definition held_world :: world where "held_world = demo_world Uncertain"

definition bulk_args :: "int \<Rightarrow> dedup_args" where
  "bulk_args n = no_args\<lparr>a_adjudicate_bulk := True, a_to := Some ''failed'', a_reason := Some ''checked'',
     a_confirm := Some n\<rparr>"

text \<open>Bulk adjudication only moves held (uncertain) keys to the one resolved terminal state,
  and each moved key has its entry in the audit log (if that can be written); it moves a key only
  with a reason, without the preview flag, and with the confirmed count equal to the number of
  held rows the selectors match.\<close>

theorem adjudicate_bulk_guarded:
  assumes "do_adjudicate_bulk env args w = (r, w')"
  shows "(adjudicates Done w w' \<or> adjudicates Failed w w') \<and>
    (wstate w' q \<noteq> wstate w q \<longrightarrow> \<not> a_list_affected args \<and> str_truthy (a_reason args) \<and>
       (\<exists>older rows. fst (parse_older_than (a_older_than args) w) = Inr older \<and>
          fst (list_by_state Uncertain (a_platform args) (w_store w)) = Inr rows \<and>
          a_confirm args = Some (int (length (selected env older rows)))))"
  using adjudicate_bulk_guarded_facts[OF assms] by blast

theorem adjudicate_bulk_guarded_witness:
  "wstate (snd (do_adjudicate_bulk env0 (bulk_args 2) held_world)) (as_tuple demo_key) = Some Uncertain \<and>
   wstate (snd (do_adjudicate_bulk env0 (bulk_args 1) held_world)) (as_tuple demo_key) = Some Failed"
proof -
  obtain r w' where run: "do_adjudicate_bulk env0 (bulk_args 2) held_world = (r, w')"
    by (cases "do_adjudicate_bulk env0 (bulk_args 2) held_world")
  have "wstate w' (as_tuple demo_key) = wstate held_world (as_tuple demo_key)"
  proof (rule ccontr)
    assume "wstate w' (as_tuple demo_key) \<noteq> wstate held_world (as_tuple demo_key)"
    from adjudicate_bulk_guarded[OF run, THEN conjunct2, THEN mp, OF this] obtain older rows where
      *: "fst (parse_older_than (a_older_than (bulk_args 2)) held_world) = Inr older"
      "fst (list_by_state Uncertain (a_platform (bulk_args 2)) (w_store held_world)) = Inr rows"
      "a_confirm (bulk_args 2) = Some (int (length (selected env0 older rows)))" by blast
    have "fst (parse_older_than (a_older_than (bulk_args 2)) held_world) = Inr None" by code_simp
    moreover have "map_sum id length (fst (list_by_state Uncertain (a_platform (bulk_args 2)) (w_store held_world))) = Inr 1"
      by code_simp
    ultimately show False using * by (auto simp: selected_def bulk_args_def)
  qed
  moreover have "wstate held_world (as_tuple demo_key) = Some Uncertain" by code_simp
  moreover have "wstate (snd (do_adjudicate_bulk env0 (bulk_args 1) held_world)) (as_tuple demo_key) = Some Failed"
    by code_simp
  ultimately show ?thesis using run by simp
qed

section \<open>Forget and backfill\<close>

text \<open>The keys collected from events carry their own tuple.\<close>

lemma keep_best_tuples:
  assumes "(t, k, s, l) \<in> set (keep_best key s1 live best)"
  shows "(t, k, s, l) \<in> set best \<or> t = as_tuple k"
proof -
  have "keep_best key s1 live best = best \<or> keep_best key s1 live best = dput (as_tuple key) (key, s1, live) best"
    by (simp add: keep_best_def Let_def split: option.splits prod.splits)
  then show ?thesis using assms mem_dput[of t "(k, s, l)" "as_tuple key" "(key, s1, live)" best] by auto
qed

lemma aggregate_tuples:
  "aggregate env evs best q = Inr (best', q') \<Longrightarrow>
     (\<And>t k s l. (t, k, s, l) \<in> set best \<Longrightarrow> t = as_tuple k) \<Longrightarrow>
     (t, k, s, l) \<in> set best' \<Longrightarrow> t = as_tuple k"
proof (induction evs arbitrary: best q)
  case (Cons ev evs)
  from Cons.prems(1) obtain pt live where ev: "event_target ev = Inr (pt, live)"
    by (auto simp: bindR_eq_Inr_iff)
  show ?case
  proof (cases pt)
    case None
    then show ?thesis using Cons.IH[of best "q + 1"] Cons.prems ev by simp
  next
    case (Some p)
    obtain platform target where p: "p = (platform, target)" by (cases p)
    from Cons.prems(1) obtain key s1 where rest: "aggregate env evs (keep_best key s1 live best) q = Inr (best', q')"
      by (auto simp: ev Some p bindR_eq_Inr_iff Let_def)
    have "t = as_tuple k" if "(t, k, s, l) \<in> set (keep_best key s1 live best)" for t k s l
      using keep_best_tuples[OF that] Cons.prems(2) by blast
    then show ?thesis using Cons.IH[OF rest] Cons.prems(3) by blast
  qed
qed simp

text \<open>A touched key is not seeded.\<close>

lemma seed_untouched:
  assumes "seed env k s l v d = (r, d')" "q \<noteq> as_tuple k"
  shows "kstate (db_rows d') q = kstate (db_rows d) q"
  using seed_step[OF assms(1), of q] assms(2) by (cases r) auto

definition own_tuple :: "dkey \<times> dedup_key \<times> dstate \<times> json \<Rightarrow> bool" where
  "own_tuple e \<longleftrightarrow> fst e = as_tuple (fst (snd e))"

lemma seed_loop_touched:
  assumes "jkey_of q \<in> set touched"
  shows "seed_loop env touched es res d = (r, d') \<Longrightarrow> list_all own_tuple es \<Longrightarrow>
     kstate (db_rows d') q = kstate (db_rows d) q"
proof (induction es arbitrary: res d)
  case (Cons e es)
  obtain t k s l where e: "e = (t, k, s, l)" by (cases e)
  have t: "t = as_tuple k" and es: "list_all own_tuple es" using Cons.prems(2) by (auto simp: e own_tuple_def[of "(t, k, s, l)"])
  show ?case
  proof (cases "jkey_of t \<in> set touched")
    case True
    then show ?thesis using Cons.prems(1) Cons.IH[OF _ es] by (simp add: e)
  next
    case False
    then have ne: "q \<noteq> as_tuple k" using assms t by auto
    have run: "bindS
        (\<lambda>d. case sql_text env l of
               Inl e \<Rightarrow> (Inl e, d)
             | Inr url \<Rightarrow> seed env k s url (if s = Done then Some True else None) d)
        (\<lambda>inserted.
           seed_loop env touched es
             (if \<not> inserted then res\<lparr>skipped_existing := skipped_existing res + 1\<rparr>
              else if s = Done then res\<lparr>seeded_done := seeded_done res + 1\<rparr>
              else res\<lparr>seeded_uncertain := seeded_uncertain res + 1\<rparr>)) d = (r, d')"
      using Cons.prems(1) False by (simp add: e)
    have one: "kstate (db_rows d1) q = kstate (db_rows d) q"
      if "(case sql_text env l of Inl e \<Rightarrow> (Inl e, d)
           | Inr url \<Rightarrow> seed env k s url (if s = Done then Some True else None) d) = (x, d1)" for x d1
      using that seed_untouched[OF _ ne] by (auto split: sum.splits)
    from run show ?thesis
      by (cases rule: bindS_cases) (auto dest!: one Cons.IH[OF _ es])
  qed
qed simp

lemma run_backfill_cases:
  assumes "run_backfill env db audit d = (r, d')"
  obtains (idle) "d' = d" "\<And>res. r = Inr res \<longrightarrow> res = backfill0 \<and> read_publish_events db = []"
    | (seed) touched best n where "touched_keys audit = Inr touched"
        "aggregate env (read_publish_events db) [] 0 = Inr (best, n)"
        "seed_loop env touched best (backfill0\<lparr>quarantined := n\<rparr>) d = (r, d')"
proof (cases "read_publish_events db = []")
  case True
  then show ?thesis using assms by (intro idle) (auto simp: run_backfill_def Let_def)
next
  case ne: False
  show ?thesis
  proof (cases "touched_keys audit")
    case (Inl e)
    then show ?thesis using assms ne by (intro idle) (auto simp: run_backfill_def Let_def)
  next
    case (Inr touched)
    show ?thesis
    proof (cases "aggregate env (read_publish_events db) [] 0")
      case (Inl e)
      then show ?thesis using assms ne Inr by (intro idle) (auto simp: run_backfill_def Let_def)
    next
      case (Inr a)
      then show ?thesis
        using assms seed[of touched "fst a" "snd a"] ne \<open>touched_keys audit = Inr touched\<close>
        by (cases a) (simp add: run_backfill_def Let_def)
    qed
  qed
qed

lemma run_backfill_touched:
  assumes "run_backfill env db audit d = (r, d')" "touched_keys audit = Inr touched" "jkey_of q \<in> set touched"
  shows "kstate (db_rows d') q = kstate (db_rows d) q"
  using assms(1)
proof (cases rule: run_backfill_cases)
  case (seed touched' best n)
  have "own_tuple e" if "e \<in> set best" for e
    using aggregate_tuples[OF seed(2), of "fst e" "fst (snd e)" "fst (snd (snd e))" "snd (snd (snd e))"] that
    by (simp add: own_tuple_def)
  then have "list_all own_tuple best" by (simp add: list_all_iff)
  then show ?thesis using seed_loop_touched[OF assms(3)] seed assms(2) by simp
qed simp

text \<open>A key with an audit entry is among the touched keys.\<close>

lemma touched_loop_mono: "touched_loop es keys = Inr t \<Longrightarrow> set keys \<subseteq> set t"
  by (induction es arbitrary: keys) (fastforce simp: Let_def split: if_splits)+

lemma touched_loop_entry:
  assumes "jget e ''platform'' = JStr p" "jget e ''target_url'' = JStr u" "jget_or e ''account'' (JStr ''default'') = JStr a"
    "p \<noteq> []" "u \<noteq> []"
  shows "touched_loop es keys = Inr t \<Longrightarrow> e \<in> set es \<Longrightarrow> jkey_of (p, a, u) \<in> set t"
proof (induction es arbitrary: keys)
  case (Cons x es)
  show ?case
  proof (cases "x = e")
    case True
    then have "touched_loop es (List.insert (jkey_of (p, a, u)) keys) = Inr t"
      using Cons.prems(1) assms by (simp add: Let_def jkey_of_def)
    then show ?thesis using touched_loop_mono by fastforce
  next
    case False
    then show ?thesis using Cons by (auto simp: Let_def split: if_splits)
  qed
qed simp

lemma entry_touched:
  assumes "append_entry env e f = (Inr (), f')" "ae_platform e \<noteq> []" "ae_target_url e \<noteq> []"
    "touched_keys f' = Inr t"
  shows "jkey_of (ae_platform e, ae_account e, ae_target_url e) \<in> set t"
proof -
  let ?d = "[(''ts'', JFloat (e_now env)), (''action'', JStr (ae_action e)),
            (''platform'', JStr (ae_platform e)), (''account'', JStr (ae_account e)),
            (''target_url'', JStr (ae_target_url e)), (''from_state'', jopt (ae_from_state e)),
            (''to_state'', jopt (ae_to_state e)), (''reason'', JStr (ae_reason e)),
            (''run_id'', jopt (ae_run_id e)), (''user'', JStr (e_user env))]"
  have "?d \<in> set (read_entries f')"
    using assms(1) by (auto simp: append_entry_def read_entries_def entry_json_def split: option.splits)
  then show ?thesis
    using assms(4) touched_loop_entry[of ?d "ae_platform e" "ae_target_url e" "ae_account e" "read_entries f'" "[]" t] assms(2,3)
    by (simp add: touched_keys_def jget_def jget_or_def dget_or_def)
qed

lemma urlunsplit_nonempty: "u_scheme p \<noteq> [] \<Longrightarrow> urlunsplit p \<noteq> []"
  by (auto simp: urlunsplit_def Let_def)

lemma canonicalize_url_nonempty: "canonicalize_url u = Inr v \<Longrightarrow> u \<noteq> [] \<Longrightarrow> v \<noteq> []"
proof -
  assume c: "canonicalize_url u = Inr v" and u: "u \<noteq> []"
  obtain p where p: "urlsplit u = Inr p" using c u by (cases "urlsplit u") (auto simp: canonicalize_url_def)
  show "v \<noteq> []"
  proof (cases "default_port (lower (u_scheme p))")
    case None
    then have "v = u" using c u p by (simp add: canonicalize_url_def Let_def)
    then show ?thesis using u by simp
  next
    case (Some dp)
    then have "lower (u_scheme p) \<noteq> []" by (auto simp: default_port_def)
    then show ?thesis
      using c u p Some urlunsplit_nonempty
      by (cases "url_port p") (auto simp: canonicalize_url_def Let_def)
  qed
qed

lemma new_DedupKey_nonempty:
  "new_DedupKey p u a = Inr k \<Longrightarrow> u \<noteq> [] \<Longrightarrow> k_platform k = p \<and> k_account k = a \<and> k_target_url k \<noteq> []"
  using canonicalize_url_nonempty by (cases "canonicalize_url u") (auto simp: new_DedupKey_def)

text \<open>What a successful forget has done.\<close>

lemma forget_run:
  assumes "forget k d = (Inr prior, d')"
  shows "kstate (db_rows d') (as_tuple k) = None" "q \<noteq> as_tuple k \<Longrightarrow> kstate (db_rows d') q = kstate (db_rows d) q"
  using assms unfolding forget_def
  by (auto elim!: run_op_cases simp: forget_body_def sql_select_def sql_delete_def kstate_def
        split: option.splits dest!: sym[of "ddel _ _"])

lemma forget_key_effect:
  assumes "forget_key env args k w = (Inr u, w')"
  obtains s where "append_entry env (forget_entry args k s) (w_audit w) = (Inr (), w_audit w')"
    "wstate w' (as_tuple k) = None" "\<And>q. q \<noteq> as_tuple k \<Longrightarrow> wstate w' q = wstate w q"
proof -
  from assms obtain rec w1 where g: "on_store (store_get k) w = (Inr rec, w1)" and
    rest: "bindS (on_audit (append_entry env (forget_entry args k (map_option (\<lambda>r. dstate_name (r_state r)) rec))))
      (\<lambda>u. bindS (on_store (forget k)) (\<lambda>prior.
            print_err (case map_option (\<lambda>r. dstate_name (r_state r)) rec of
                         None \<Rightarrow> ''forget: key was already absent; audit entry recorded.''
                       | Some s \<Rightarrow> ''forget: cleared key; now re-publishable.''))) w1 = (Inr u, w')"
    unfolding forget_key_def bindS_Inr Let_def by blast
  let ?e = "forget_entry args k (map_option (\<lambda>r. dstate_name (r_state r)) rec)"
  from rest obtain w2 prior w3 m where a: "on_audit (append_entry env ?e) w1 = (Inr (), w2)"
    and f: "on_store (forget k) w2 = (Inr prior, w3)" and p: "print_err m w3 = (Inr u, w')"
    unfolding bindS_Inr by fastforce
  have w1: "db_rows (w_store w1) = db_rows (w_store w)" "w_audit w1 = w_audit w"
    using g store_get_cases(1) by (auto simp: on_store_eq)
  have w2: "w_store w2 = w_store w1" "append_entry env ?e (w_audit w1) = (Inr (), w_audit w2)"
    using a by (auto simp: on_audit_def split: prod.splits)
  obtain d where d: "forget k (w_store w2) = (Inr prior, d)" "w3 = w2\<lparr>w_store := d\<rparr>"
    using f by (auto simp: on_store_eq)
  have "w_store w' = d" "w_audit w' = w_audit w2" using p d(2) by (auto simp: print_err_def)
  then show ?thesis
    using that[of "map_option (\<lambda>r. dstate_name (r_state r)) rec"] w1 w2 forget_run[OF d(1)]
    by (simp add: wstate_def)
qed

lemma do_forget_effect:
  assumes run: "do_forget env args pt w = (Inr u, w')"
  obtains k s where "new_DedupKey (fst pt) (snd pt) ''default'' = Inr k"
    "append_entry env (forget_entry args k s) (w_audit w) = (Inr (), w_audit w')"
    "wstate w' (as_tuple k) = None" "\<And>q. q \<noteq> as_tuple k \<Longrightarrow> wstate w' q = wstate w q"
proof -
  have g: "str_truthy (a_reason args)" "\<not> (has_glob (fst pt) \<or> has_glob (snd pt))"
    using run by (auto simp: do_forget_def split: if_splits dest!: emit_errorS_eq)
  then have "bindS (liftR (new_DedupKey (fst pt) (snd pt) ''default'')) (forget_key env args) w = (Inr u, w')"
    using run by (simp add: do_forget_def)
  then obtain k where k: "new_DedupKey (fst pt) (snd pt) ''default'' = Inr k"
    and f: "forget_key env args k w = (Inr u, w')"
    by (auto simp: bindS_Inr liftR_def)
  from f show ?thesis by (rule forget_key_effect) (use that k in blast)
qed

text \<open>C31. Forget sticks: a successful forget leaves its key without a row and no other key
  changed, and from then on a backfill from any event table, on any state of the store, leaves
  the key as it is: the audit entry just written keeps it from being seeded again.\<close>

theorem forget_is_never_resurrected:
  assumes run: "do_forget env args pt w = (Inr u, w')" and ne: "fst pt \<noteq> []" "snd pt \<noteq> []"
  shows "\<exists>k. new_DedupKey (fst pt) (snd pt) ''default'' = Inr k \<and> wstate w' (as_tuple k) = None \<and>
    (\<forall>q. q \<noteq> as_tuple k \<longrightarrow> wstate w' q = wstate w q) \<and>
    (\<forall>env2 db d r d'. run_backfill env2 db (w_audit w') d = (r, d') \<longrightarrow>
        kstate (db_rows d') (as_tuple k) = kstate (db_rows d) (as_tuple k))"
  using run
proof (rule do_forget_effect)
  fix k s
  assume k: "new_DedupKey (fst pt) (snd pt) ''default'' = Inr k"
    and ap: "append_entry env (forget_entry args k s) (w_audit w) = (Inr (), w_audit w')"
    and no: "wstate w' (as_tuple k) = None" and other: "\<And>q. q \<noteq> as_tuple k \<Longrightarrow> wstate w' q = wstate w q"
  have kk: "k_platform k = fst pt" "k_target_url k \<noteq> []" using new_DedupKey_nonempty[OF k ne(2)] by auto
  have "kstate (db_rows d') (as_tuple k) = kstate (db_rows d) (as_tuple k)"
    if bf: "run_backfill env2 db (w_audit w') d = (r, d')" for env2 db d r d'
  proof (cases "touched_keys (w_audit w')")
    case (Inl e)
    then have "d' = d" using bf by (auto simp: run_backfill_def Let_def split: if_splits)
    then show ?thesis by simp
  next
    case (Inr t)
    have "jkey_of (as_tuple k) \<in> set t"
      using entry_touched[OF ap _ _ Inr] kk ne by (simp add: forget_entry_def as_tuple_def)
    from run_backfill_touched[OF bf Inr this] show ?thesis .
  qed
  then show ?thesis using k no other by blast
qed

definition forget_args :: dedup_args where
  "forget_args = no_args\<lparr>a_reason := Some ''moved''\<rparr>"

definition demo_event :: event_row where
  "demo_event = (''publish.confirmed'', Some ''https://a.b/'',
     Some (JDict [(''platform'', JStr ''velog-graphql''), (''live_url'', JStr ''https://v/1'')]))"

theorem forget_is_never_resurrected_witness:
  "let w' = snd (do_forget env0 forget_args (''velog'', ''https://a.b/'') (demo_world Done))
   in kstate (db_rows (snd (run_backfill env0 (EvRows [demo_event]) (w_audit w') (w_store w')))) (as_tuple demo_key) = None"
proof -
  obtain r w' where run: "do_forget env0 forget_args (''velog'', ''https://a.b/'') (demo_world Done) = (r, w')"
    by (cases "do_forget env0 forget_args (''velog'', ''https://a.b/'') (demo_world Done)")
  have "fst (do_forget env0 forget_args (''velog'', ''https://a.b/'') (demo_world Done)) = Inr ()" by code_simp
  then have run': "do_forget env0 forget_args (''velog'', ''https://a.b/'') (demo_world Done) = (Inr (), w')"
    using run by simp
  have key: "new_DedupKey ''velog'' ''https://a.b/'' ''default'' = Inr demo_key" by code_simp
  have no: "wstate w' (as_tuple demo_key) = None" and
    bf: "\<And>db d r d'. run_backfill env0 db (w_audit w') d = (r, d') \<Longrightarrow>
       kstate (db_rows d') (as_tuple demo_key) = kstate (db_rows d) (as_tuple demo_key)"
    using forget_is_never_resurrected[OF run'] key by auto
  show ?thesis
    using bf[OF prod.collapse[symmetric]] no run by (simp add: wstate_def Let_def)
qed

lemma seed_no_fault:
  assumes "db_faults d = []"
  shows "seed env k s l v d =
    (case dget (db_rows d) (as_tuple k) of
       Some row \<Rightarrow> (Inr False, d)
     | None \<Rightarrow> (Inr True, d\<lparr>db_rows := snd (seed_body env k s l v (db_rows d))\<rparr>))"
proof -
  have "\<And>e. fst (seed_body env k s l v (db_rows d)) = Inl e \<Longrightarrow> \<not> isinst e SqliteOperational"
    by (auto simp: seed_body_def split: option.splits)
  from run_op_simple[where body = "seed_body env k s l v", OF assms this] show ?thesis
    by (auto simp: seed_def seed_body_def split: option.splits)
qed

text \<open>One pass: existing rows stay as they are, and every untouched key has a row afterwards.\<close>

lemma seed_loop_pass:
  "seed_loop env touched es res d = (Inr res', d') \<Longrightarrow> db_faults d = [] \<Longrightarrow> list_all own_tuple es \<Longrightarrow>
     db_faults d' = [] \<and> quarantined res' = quarantined res \<and> (\<forall>q row. dget (db_rows d) q = Some row \<longrightarrow> dget (db_rows d') q = Some row) \<and>
     (\<forall>e \<in> set es. jkey_of (fst e) \<notin> set touched \<longrightarrow>
        dget (db_rows d') (fst e) \<noteq> None \<and> (\<exists>u. sql_text env (snd (snd (snd e))) = Inr u))"
proof (induction es arbitrary: res d)
  case (Cons e es)
  obtain t k s l where e: "e = (t, k, s, l)" by (cases e)
  have t: "t = as_tuple k" and es: "list_all own_tuple es"
    using Cons.prems(3) by (auto simp: e own_tuple_def[of "(t, k, s, l)"])
  show ?case
  proof (cases "jkey_of t \<in> set touched")
    case True
    then show ?thesis using Cons.prems(1) Cons.IH[OF _ Cons.prems(2) es] by (simp add: e)
  next
    case False
    obtain u where u: "sql_text env l = Inr u"
      using Cons.prems(1) False by (cases "sql_text env l") (auto simp: e bindS_def)
    obtain b d1 where sd: "seed env k s u (if s = Done then Some True else None) d = (Inr b, d1)"
      using seed_no_fault[OF Cons.prems(2), of env k s u] by (cases "dget (db_rows d) (as_tuple k)") auto
    have d1: "db_faults d1 = []" "dget (db_rows d1) t \<noteq> None"
      "\<And>q row. dget (db_rows d) q = Some row \<Longrightarrow> dget (db_rows d1) q = Some row"
      using sd seed_no_fault[OF Cons.prems(2), of env k s u] Cons.prems(2)
      by (auto simp: t seed_body_def split: option.splits)
    obtain res1 where rest: "seed_loop env touched es res1 d1 = (Inr res', d')"
      and q1: "quarantined res1 = quarantined res"
      using Cons.prems(1) False u sd by (fastforce simp: e bindS_def split: if_splits)
    note ih = Cons.IH[OF rest d1(1) es]
    then show ?thesis using d1 u q1 by (auto simp: e simp del: split_paired_All split_paired_Ex)
  qed
qed simp

lemma seed_loop_again:
  assumes "db_faults d = []"
  shows "list_all own_tuple es \<Longrightarrow>
    (\<forall>e \<in> set es. jkey_of (fst e) \<notin> set touched \<longrightarrow>
        dget (db_rows d) (fst e) \<noteq> None \<and> (\<exists>u. sql_text env (snd (snd (snd e))) = Inr u)) \<Longrightarrow>
    \<exists>res'. seed_loop env touched es res d = (Inr res', d) \<and> seeded_total res' = seeded_total res \<and>
           quarantined res' = quarantined res"
proof (induction es arbitrary: res)
  case (Cons e es)
  obtain t k s l where e: "e = (t, k, s, l)" by (cases e)
  have t: "t = as_tuple k" and es: "list_all own_tuple es"
    using Cons.prems(1) by (auto simp: e own_tuple_def[of "(t, k, s, l)"])
  have rest: "\<forall>e \<in> set es. jkey_of (fst e) \<notin> set touched \<longrightarrow>
        dget (db_rows d) (fst e) \<noteq> None \<and> (\<exists>u. sql_text env (snd (snd (snd e))) = Inr u)"
    using Cons.prems(2) by simp
  have step: "\<exists>res1. seed_loop env touched (e # es) res d = seed_loop env touched es res1 d \<and>
     seeded_total res1 = seeded_total res \<and> quarantined res1 = quarantined res"
  proof (cases "jkey_of t \<in> set touched")
    case True
    then show ?thesis by (simp add: e seeded_total_def) fastforce
  next
    case False
    then obtain u row where "sql_text env l = Inr u" "dget (db_rows d) (as_tuple k) = Some row"
      using Cons.prems(2) by (auto simp: e t)
    then show ?thesis
      using False seed_no_fault[OF assms, of env k s u] by (simp add: e bindS_def seeded_total_def) fastforce
  qed
  then show ?case using Cons.IH[OF es rest] by metis
qed (simp add: seeded_total_def)

lemma new_env:
  assumes "e_str env2 = e_str env"
  shows "py_str env2 j = py_str env j" "sql_text env2 j = sql_text env j"
  using assms by (auto simp: py_str_def sql_text_def split: json.splits)

lemma aggregate_env: "e_str env2 = e_str env \<Longrightarrow> aggregate env2 evs best q = aggregate env evs best q"
proof (induction evs arbitrary: best q)
  case (Cons ev evs)
  have "py_str env2 = py_str env" using new_env(1)[OF Cons.prems] by (rule ext)
  then show ?case
    using Cons.IH[OF Cons.prems] by (cases "event_target ev") (auto split: option.splits)
qed simp

lemma aggregate_own: "aggregate env evs [] 0 = Inr (best, n) \<Longrightarrow> list_all own_tuple best"
  using aggregate_tuples[of env evs "[]" 0 best n] by (fastforce simp: list_all_iff own_tuple_def)

lemma backfill_idempotent_facts:
  assumes run: "run_backfill env db audit d = (Inr res, d1)" and nf: "db_faults d = []"
    and same: "e_str env2 = e_str env"
  shows "dget (db_rows d) q = Some row \<Longrightarrow> dget (db_rows d1) q = Some row"
    "\<exists>res2. run_backfill env2 db audit d1 = (Inr res2, d1) \<and> seeded_total res2 = 0 \<and>
       quarantined res2 = quarantined res"
proof -
  have "(dget (db_rows d) q = Some row \<longrightarrow> dget (db_rows d1) q = Some row) \<and>
    (\<exists>res2. run_backfill env2 db audit d1 = (Inr res2, d1) \<and> seeded_total res2 = 0 \<and>
       quarantined res2 = quarantined res)"
    using run
  proof (cases rule: run_backfill_cases)
    case idle
    then have "read_publish_events db = []" "res = backfill0" by auto
    then show ?thesis using idle(1) by (simp add: run_backfill_def backfill0_def seeded_total_def)
  next
    case (seed touched best n)
    have own: "list_all own_tuple best" by (rule aggregate_own[OF seed(2)])
    note pass = seed_loop_pass[OF seed(3) nf own]
    have again: "\<exists>res'. seed_loop env2 touched best (backfill0\<lparr>quarantined := n\<rparr>) d1 = (Inr res', d1) \<and>
        seeded_total res' = 0 \<and> quarantined res' = n"
      using seed_loop_again[OF _ own, of d1 touched env2 "backfill0\<lparr>quarantined := n\<rparr>"] pass new_env(2)[OF same]
      by (auto simp: seeded_total_def backfill0_def)
    have q: "quarantined res = n" using pass by simp
    show ?thesis
    proof (cases "read_publish_events db = []")
      case True
      then have "n = 0" using seed(2) by simp
      then show ?thesis using True pass q
        by (simp add: run_backfill_def backfill0_def seeded_total_def del: split_paired_All split_paired_Ex)
    next
      case False
      then have "run_backfill env2 db audit d1 = seed_loop env2 touched best (backfill0\<lparr>quarantined := n\<rparr>) d1"
        using seed(1,2) aggregate_env[OF same] by (simp add: run_backfill_def Let_def)
      then show ?thesis using again pass q by (simp del: split_paired_All split_paired_Ex)
    qed
  qed
  then show "dget (db_rows d) q = Some row \<Longrightarrow> dget (db_rows d1) q = Some row"
    "\<exists>res2. run_backfill env2 db audit d1 = (Inr res2, d1) \<and> seeded_total res2 = 0 \<and>
       quarantined res2 = quarantined res" by auto
qed

text \<open>Backfill is decision-preserving and idempotent: it keeps every existing row as it is,
  and a second run over the same events and audit log, at any later time, inserts nothing and
  changes nothing.\<close>

theorem backfill_idempotent:
  assumes "run_backfill env db audit d = (Inr res, d1)" "db_faults d = []" "e_str env2 = e_str env"
  shows "(dget (db_rows d) q = Some row \<longrightarrow> dget (db_rows d1) q = Some row) \<and>
    (\<exists>res2. run_backfill env2 db audit d1 = (Inr res2, d1) \<and> seeded_total res2 = 0 \<and>
       quarantined res2 = quarantined res)"
  using backfill_idempotent_facts[OF assms] by simp

theorem backfill_idempotent_witness:
  "let d1 = snd (run_backfill env0 (EvRows [demo_event]) (w_audit broken_world) empty_store)
   in \<exists>res2. run_backfill (env0\<lparr>e_now := 2000\<rparr>) (EvRows [demo_event]) (w_audit broken_world) d1 = (Inr res2, d1) \<and>
        seeded_total res2 = 0"
proof -
  obtain r d1 where run: "run_backfill env0 (EvRows [demo_event]) (w_audit broken_world) empty_store = (r, d1)"
    by (cases "run_backfill env0 (EvRows [demo_event]) (w_audit broken_world) empty_store")
  have "fst (run_backfill env0 (EvRows [demo_event]) (w_audit broken_world) empty_store) =
      Inr (backfill0\<lparr>seeded_done := 1\<rparr>)" by code_simp
  then have run': "run_backfill env0 (EvRows [demo_event]) (w_audit broken_world) empty_store =
      (Inr (backfill0\<lparr>seeded_done := 1\<rparr>), d1)" using run by simp
  show ?thesis
    using backfill_idempotent[OF run', THEN conjunct2, of "env0\<lparr>e_now := 2000\<rparr>"] run by (auto simp: empty_store_def env0_def Let_def)
qed

section \<open>Where the verbs fall short\<close>

text \<open>A target URL with a query string cannot be forgotten: the wildcard check rejects every
  URL that contains a question mark, with exit code 1 and nothing changed, although such URLs
  are keys of the store.\<close>

theorem forget_rejects_query_urls:
  assumes "CHR ''?'' \<in> set u"
  shows "fst (do_forget env args (p, u) w) = Inl (SysExit 1) \<and>
         w_store (snd (do_forget env args (p, u) w)) = w_store w \<and>
         w_audit (snd (do_forget env args (p, u) w)) = w_audit w"
  using assms by (simp add: do_forget_def has_glob_def emit_errorS_def emit_error_def)

theorem forget_rejects_query_urls_witness:
  "fst (do_forget env0 forget_args (''velog'', ''https://a.b/?p=1'') (demo_world Done)) = Inl (SysExit 1) \<and>
   new_DedupKey ''velog'' ''https://a.b/?p=1'' ''default'' =
     Inr \<lparr>k_platform = ''velog'', k_target_url = ''https://a.b/?p=1'', k_account = ''default''\<rparr>"
proof -
  have "new_DedupKey ''velog'' ''https://a.b/?p=1'' ''default'' =
     Inr \<lparr>k_platform = ''velog'', k_target_url = ''https://a.b/?p=1'', k_account = ''default''\<rparr>" by code_simp
  then show ?thesis using forget_rejects_query_urls[of "''https://a.b/?p=1''" env0 forget_args "''velog''" "demo_world Done"]
    by simp
qed

text \<open>After an operator forgets a published key, enforce mode refuses to run although the
  advised remedy has been applied: the backfill leaves the key alone, the readiness check counts
  it as missing, and the publish command exits with code 3.\<close>

theorem forget_blocks_enforce:
  "let w = snd (do_forget enforce_env forget_args (''velog'', ''https://a.b/'') (demo_world Done));
       db = EvRows [demo_event];
       w2 = snd (on_store (run_backfill enforce_env db (w_audit w)) w)
   in fst (do_forget enforce_env forget_args (''velog'', ''https://a.b/'') (demo_world Done)) = Inr () \<and>
      fst (run_backfill enforce_env db (w_audit w) (w_store w)) = Inr (backfill0\<lparr>skipped_operator_touched := 1\<rparr>) \<and>
      fst (enforce_precondition_or_exit enforce_env (\<lambda>k. []) db w2) = Inl (SysExit 3)"
  by code_simp

text \<open>One publish event with a malformed target URL makes the whole backfill raise
  \<open>ValueError\<close> (nothing is seeded, the event is not quarantined), and makes the enforce
  precondition raise too.\<close>

theorem backfill_raises_on_malformed_url:
  "let bad = (''publish.confirmed'', Some ''https://[::1/x'', Some (JDict [(''platform'', JStr ''velog-graphql'')]));
       db = EvRows [bad, demo_event]
   in (case run_backfill enforce_env db (w_audit broken_world) empty_store of
         (Inl e, d) \<Rightarrow> isinst e ValueErr \<and> db_rows d = []
       | (Inr res, d) \<Rightarrow> False) \<and>
      (case fst (enforce_precondition_or_exit enforce_env (\<lambda>k. []) db (demo_world Done)) of
         Inl e \<Rightarrow> isinst e ValueErr
       | Inr u \<Rightarrow> False)"
  by code_simp

end
