(* ===== verification/Retry.thy ===== *)
theory Retry
  imports Py_Json
begin

text \<open>
  Error classification and retry of adapter calls: \<open>adapters/retry.py\<close>, the result type and the
  output shape of \<open>adapters/base.py\<close>, and the fallback decision of
  \<open>reliability/transient_policy.py\<close>. The word boundary \<open>\b\<close> of the patterns is the ASCII one.
\<close>

section \<open>Patterns\<close>

definition is_word_char :: "char \<Rightarrow> bool" where
  "is_word_char c \<longleftrightarrow>
     (let n = of_char c :: nat
      in 48 \<le> n \<and> n \<le> 57 \<or> 65 \<le> n \<and> n \<le> 90 \<or> 97 \<le> n \<and> n \<le> 122 \<or> n = 95)"

definition boundary_after :: "string \<Rightarrow> bool" where
  "boundary_after s \<longleftrightarrow> (case s of [] \<Rightarrow> True | d # _ \<Rightarrow> \<not> is_word_char d)"

text \<open>\<open>re.search(r"\b(\d{3})\b", s)\<close>: the first stand-alone three-digit number; \<open>pw\<close> tells whether
  the character before is a word character.\<close>

fun search_status_from :: "bool \<Rightarrow> string \<Rightarrow> int option" where
  "search_status_from pw (a # b # c # s) =
     (if \<not> pw \<and> is_digit a \<and> is_digit b \<and> is_digit c \<and> boundary_after s
      then Some (int_of_digits [a, b, c])
      else search_status_from (is_word_char a) (b # c # s))"
| "search_status_from pw _ = None"

definition search_status :: "string \<Rightarrow> int option" where
  "search_status s = search_status_from False s"

text \<open>\<open>re.search(r"\b5[0-9]{2}\b", s)\<close>.\<close>

fun has_5xx_from :: "bool \<Rightarrow> string \<Rightarrow> bool" where
  "has_5xx_from pw (a # b # c # s) =
     (\<not> pw \<and> a = CHR ''5'' \<and> is_digit b \<and> is_digit c \<and> boundary_after s
      \<or> has_5xx_from (is_word_char a) (b # c # s))"
| "has_5xx_from pw _ = False"

definition has_5xx :: "string \<Rightarrow> bool" where
  "has_5xx s = has_5xx_from False s"

section \<open>Classification\<close>

datatype error_class = ETransient | EAuthExpired | EHttp5xx | ESsrfBlocked | EContentRejected | EUnexpected

fun error_class_value :: "error_class \<Rightarrow> string" where
  "error_class_value ETransient = ''transient''"
| "error_class_value EAuthExpired = ''auth_expired''"
| "error_class_value EHttp5xx = ''http_5xx''"
| "error_class_value ESsrfBlocked = ''ssrf_blocked''"
| "error_class_value EContentRejected = ''content_rejected''"
| "error_class_value EUnexpected = ''unexpected''"

definition classify_exception :: "exn \<Rightarrow> error_class" where
  "classify_exception e =
     (if isinst e AuthExpiredError then EAuthExpired
      else if isinst e ContentRejectedError then EContentRejected
      else let msg = str_exn e; msg_low = lower msg
           in if contains ''ssrf_blocked'' msg \<or> contains ''ssrf_redirect'' msg
                \<or> contains ''ssrf_https_downgrade'' msg then ESsrfBlocked
              else if contains ''contentisblocked'' msg_low \<or> contains ''content is blocked'' msg_low
                \<or> contains ''content blocked'' msg_low then EContentRejected
              else if has_5xx msg then EHttp5xx
              else if isinst e ExternalServiceError then ETransient
              else EUnexpected)"

definition is_transient_reason :: "string \<Rightarrow> bool" where
  "is_transient_reason reason \<longleftrightarrow> reason \<in> {''timeout'', ''network_error'', ''http_5xx''}"

definition RETRYABLE_HTTP_STATUSES :: "int set" where "RETRYABLE_HTTP_STATUSES = {429}"

definition is_retryable_error :: "exn \<Rightarrow> bool \<Rightarrow> bool" where
  "is_retryable_error e consider_429 =
     (if isinst e TransientError then True
      else if isinst e PermanentError then False
      else let msg = lower (str_exn e)
           in if contains ''timeout'' msg \<or> contains ''connection'' msg then True
              else case search_status msg of
                     Some status \<Rightarrow>
                       if status = 429 \<and> consider_429 then True
                       else status \<in> {502, 503, 504}
                   | None \<Rightarrow> False)"

definition classify_http_status :: "int \<Rightarrow> exc_class option" where
  "classify_http_status status_code =
     (if status_code = 429 then Some TransientError
      else if status_code \<in> {502, 503, 504} then Some TransientError
      else if status_code \<in> {401, 403, 404} then Some PermanentError
      else if 500 \<le> status_code \<and> status_code < 600 then Some TransientError
      else None)"

text \<open>\<open>TransientError(*args)\<close> on a status code, a status and a detail, or a plain message.\<close>

datatype transient_args = TNone | TStatus int | TStatusDetail int string | TMessage string

fun new_TransientError :: "transient_args \<Rightarrow> exn \<times> int option" where
  "new_TransientError TNone = (mkexn TransientError [], None)"
| "new_TransientError (TStatus n) = (mkexn TransientError (''HTTP '' @ nat_str (nat n)), Some n)"
| "new_TransientError (TStatusDetail n d) =
     (mkexn TransientError (''HTTP '' @ nat_str (nat n) @ '': '' @ d), Some n)"
| "new_TransientError (TMessage m) = (mkexn TransientError m, None)"

section \<open>Retry\<close>

definition MAX_ATTEMPTS :: nat where "MAX_ATTEMPTS = 3"
definition BACKOFF_BASE :: nat where "BACKOFF_BASE = 2"
definition JITTER_FACTOR :: pyfloat where "JITTER_FACTOR = 15 / 100"

definition STATUS_BACKOFF_MULTIPLIER :: "(int, pyfloat) dict" where
  "STATUS_BACKOFF_MULTIPLIER = [(429, 5), (502, 3 / 2), (503, 2), (504, 2)]"

record retry_args =
  ra_is_retryable :: "exn \<Rightarrow> bool"
  ra_max_attempts :: nat
  ra_backoff_base :: nat
  ra_jitter :: pyfloat

text \<open>\<open>random.uniform(1 - j, 1 + j)\<close> from a draw \<open>u\<close> of the unit interval.\<close>

definition uniform_around :: "pyfloat \<Rightarrow> pyfloat \<Rightarrow> pyfloat" where
  "uniform_around j u = (1 - j) + ((1 + j) - (1 - j)) * u"

text \<open>
  The wait before the next attempt, and the status code known from then on. Without a given
  status the code draws again once it finds one in the message; \<open>u1\<close> and \<open>u2\<close> are the draws.
\<close>

definition retry_wait ::
  "retry_args \<Rightarrow> nat \<Rightarrow> int option \<Rightarrow> exn \<Rightarrow> pyfloat \<Rightarrow> pyfloat \<Rightarrow> pyfloat \<times> int option" where
  "retry_wait a attempt status_code e u1 u2 =
     (let base_wait = of_nat (ra_backoff_base a ^ attempt);
          wait1 = base_wait
                  * dget_or STATUS_BACKOFF_MULTIPLIER (case status_code of None \<Rightarrow> 0 | Some n \<Rightarrow> n) 1
                  * uniform_around (ra_jitter a) u1;
          (wait, status') =
            (case status_code of
               Some n \<Rightarrow> (wait1, Some n)
             | None \<Rightarrow>
                 (case search_status (str_exn e) of
                    None \<Rightarrow> (wait1, None)
                  | Some n \<Rightarrow> (base_wait * dget_or STATUS_BACKOFF_MULTIPLIER n 1
                               * uniform_around (ra_jitter a) u2, Some n)))
      in (max 0 wait, status'))"

text \<open>
  The loop, with \<open>left\<close> attempts left: the result, the state of the called function, and the
  waits. \<open>draw i\<close> is the pair of draws of attempt \<open>i\<close>.
\<close>

fun retry_call_loop ::
  "retry_args \<Rightarrow> (nat \<Rightarrow> pyfloat \<times> pyfloat) \<Rightarrow> ('s \<Rightarrow> (exn + 'a) \<times> 's) \<Rightarrow> nat \<Rightarrow> int option \<Rightarrow>
     exn option \<Rightarrow> 's \<Rightarrow> ((exn + 'a) \<times> 's) \<times> pyfloat list" where
  "retry_call_loop a draw fn 0 status last_exc s =
     (((case last_exc of
          Some e \<Rightarrow> Inl e
        | None \<Rightarrow> Inl (mkexn (OtherError ''AssertionError'') [])), s), [])"
| "retry_call_loop a draw fn (Suc left) status last_exc s =
     (case fn s of
        (Inr x, s') \<Rightarrow> ((Inr x, s'), [])
      | (Inl e, s') \<Rightarrow>
          if isinst e ExternalServiceError \<or> isinst e DependencyError then ((Inl e, s'), [])
          else if \<not> isinst e ExceptionClass then ((Inl e, s'), [])
          else if \<not> ra_is_retryable a e then ((Inl e, s'), [])
          else if left = 0 then ((Inl e, s'), [])
          else (let attempt = ra_max_attempts a - left;
                    (wait, status') = retry_wait a attempt status e (fst (draw attempt)) (snd (draw attempt));
                    (r, waits) = retry_call_loop a draw fn left status' (Some e) s'
                in (r, wait # waits)))"

definition retry_transient_call ::
  "retry_args \<Rightarrow> (nat \<Rightarrow> pyfloat \<times> pyfloat) \<Rightarrow> int option \<Rightarrow> ('s \<Rightarrow> (exn + 'a) \<times> 's) \<Rightarrow> 's \<Rightarrow>
     ((exn + 'a) \<times> 's) \<times> pyfloat list" where
  "retry_transient_call a draw status fn s = retry_call_loop a draw fn (ra_max_attempts a) status None s"

section \<open>Results\<close>

record adapter_result =
  ar_status :: string
  ar_adapter :: string
  ar_platform :: string
  ar_draft_url :: string
  ar_published_url :: string
  ar_error :: "string option"
  ar_post_publish_delay_seconds :: int
  ar_dry_run :: bool
  ar_command :: string
  ar_provider_meta :: "jdict option"

definition new_result :: "string \<Rightarrow> string \<Rightarrow> string \<Rightarrow> adapter_result" where
  "new_result status adapter platform =
     \<lparr>ar_status = status, ar_adapter = adapter, ar_platform = platform, ar_draft_url = [],
      ar_published_url = [], ar_error = None, ar_post_publish_delay_seconds = 0, ar_dry_run = False,
      ar_command = [], ar_provider_meta = None\<rparr>"

definition carry_link_attr_verification :: "jdict \<Rightarrow> jdict option \<Rightarrow> jdict" where
  "carry_link_attr_verification out source =
     (case source of
        None \<Rightarrow> out
      | Some d \<Rightarrow>
          (let v = jget d ''link_attr_verification''
           in if v \<noteq> JNull then dput ''link_attr_verification'' v out else out))"

definition resolve_article_urls :: "env \<Rightarrow> jdict \<Rightarrow> string \<Rightarrow> string \<Rightarrow> string list" where
  "resolve_article_urls env row draft_url published_url =
     (let fallback = filter (\<lambda>u. u \<noteq> []) [strip published_url, strip draft_url]
      in case jget row ''article_urls'' of
           JList urls \<Rightarrow>
             (let resolved = filter (\<lambda>u. u \<noteq> []) (map (\<lambda>u. strip (py_str env u)) urls)
              in if resolved \<noteq> [] then resolved else fallback)
         | _ \<Rightarrow> fallback)"

definition to_publish_output :: "env \<Rightarrow> adapter_result \<Rightarrow> jdict \<Rightarrow> string \<Rightarrow> jdict" where
  "to_publish_output env r row created_at =
     carry_link_attr_verification
       [(''id'', jget_or row ''id'' (JStr [])), (''platform'', JStr (ar_platform r)),
        (''status'', JStr (ar_status r)), (''title'', jget_or row ''title'' (JStr [])),
        (''target_url'', jget_or row ''target_url'' (JStr [])),
        (''article_urls'', JList (map JStr (resolve_article_urls env row (ar_draft_url r) (ar_published_url r)))),
        (''draft_url'', JStr (ar_draft_url r)), (''published_url'', JStr (ar_published_url r)),
        (''created_at'', JStr created_at), (''adapter'', JStr (ar_adapter r)),
        (''error'', (case ar_error r of None \<Rightarrow> JNull | Some e \<Rightarrow> JStr e))]
       (ar_provider_meta r)"

section \<open>The fallback decision\<close>

definition IDEMPOTENCY_SAFE_5XX :: "string set" where "IDEMPOTENCY_SAFE_5XX = {}"

definition CROSS_MECHANISM_FALLBACK :: "(string \<times> string) set" where
  "CROSS_MECHANISM_FALLBACK = {(''MediumAPIAdapter'', ''MediumBraveAdapter'')}"

datatype transient_decision = FallbackSafe | FailFast

fun mark_pre_create_429 :: "exn \<Rightarrow> exn" where
  "mark_pre_create_429 (Exn c m b ch) = Exn c m True ch"
| "mark_pre_create_429 (SysExit n) = SysExit n"

fun has_pre_create_429 :: "exn \<Rightarrow> bool" where
  "has_pre_create_429 (Exn c m b ch) = b"
| "has_pre_create_429 (SysExit n) = False"

definition classify_transient ::
  "exn \<Rightarrow> string \<Rightarrow> string \<times> string \<Rightarrow> bool \<Rightarrow> transient_decision" where
  "classify_transient e platform transition same_mechanism =
     (if isinst e AntiBotChallengeError then FailFast
      else if \<not> isinst e ExternalServiceError then FailFast
      else if \<not> same_mechanism \<and> transition \<notin> CROSS_MECHANISM_FALLBACK then FailFast
      else if classify_exception e = EHttp5xx
      then (if platform \<in> IDEMPOTENCY_SAFE_5XX then FallbackSafe else FailFast)
      else if has_pre_create_429 e then FallbackSafe
      else FailFast)"

end
