(* ===== verification/Dispatch.thy ===== *)
theory Dispatch
  imports Retry
begin

text \<open>
  The table-driven dispatcher (\<open>publishing/_registry_dispatch.py\<close>): walk the adapter chain of a
  platform. The adapters are parameters: a chain entry gives its class name and mechanism, and
  what its \<open>available\<close>, its banner embedding and its \<open>publish\<close> return or raise. The dispatcher
  also returns the calls it made, in order.
\<close>

record chain_entry =
  en_name :: string
  en_mechanism :: string
  en_available :: "exn + bool"
  en_embed :: "json \<Rightarrow> exn + string"
  en_publish :: "jdict \<Rightarrow> exn + adapter_result"

datatype call =
    CAvailable string
  | CDegraded string string
  | CPublish string jdict

type_synonym registry = "(string, chain_entry list) dict"

definition content_of :: "jdict \<Rightarrow> json" where
  "content_of payload = jget_or payload ''content_markdown'' (JStr [])"

definition with_banner :: "bool \<Rightarrow> chain_entry \<Rightarrow> jdict \<Rightarrow> exn + jdict" where
  "with_banner do_banner en payload =
     (if \<not> do_banner then Inr payload
      else bindR (en_embed en (content_of payload)) (\<lambda>new_body.
        if JStr new_body \<noteq> jget payload ''content_markdown''
        then Inr (dput ''content_markdown'' (JStr new_body) payload) else Inr payload))"

type_synonym pending = "(exn \<times> string \<times> string) option"

text \<open>
  One entry of the chain past the fallback decision: its result ends the walk, or the walk goes on
  with a changed payload, the last dependency error \<open>dep\<close>, and the transient error \<open>pend\<close> that
  waits for the decision against the next entry (with the name and mechanism of its adapter).
\<close>

datatype entry_outcome =
    Finished "exn + adapter_result" "call list"
  | Onward jdict "exn option" pending "call list"

definition try_entry ::
  "bool \<Rightarrow> chain_entry \<Rightarrow> jdict \<Rightarrow> exn option \<Rightarrow> pending \<Rightarrow> entry_outcome" where
  "try_entry do_banner en payload dep pend =
     (case en_available en of
        Inl e \<Rightarrow> Finished (Inl e) [CAvailable (en_name en)]
      | Inr avail \<Rightarrow>
          if \<not> avail then Onward payload dep pend [CAvailable (en_name en)]
          else
          (let pre = CAvailable (en_name en) #
                 (case pend of None \<Rightarrow> [] | Some (_, t_name, _) \<Rightarrow> [CDegraded t_name (en_name en)]);
               (res, payload', made) =
                 (case with_banner do_banner en payload of
                    Inl e \<Rightarrow> (Inl e, payload, [])
                  | Inr p \<Rightarrow> (en_publish en p, p, [CPublish (en_name en) p]))
           in case res of
                Inr r \<Rightarrow> Finished (Inr r) (pre @ made)
              | Inl e \<Rightarrow>
                  if isinst e AuthExpiredError then Finished (Inl e) (pre @ made)
                  else if isinst e DependencyError then Onward payload' (Some e) None (pre @ made)
                  else if isinst e ExternalServiceError
                  then Onward payload' dep (Some (e, en_name en, en_mechanism en)) (pre @ made)
                  else Finished (Inl e) (pre @ made)))"

fun dispatch_loop ::
  "string \<Rightarrow> bool \<Rightarrow> chain_entry list \<Rightarrow> jdict \<Rightarrow> exn option \<Rightarrow> pending \<Rightarrow>
     (exn + adapter_result) \<times> call list" where
  "dispatch_loop plat do_banner [] payload dep pend =
     (case pend of
        Some (e, _) \<Rightarrow> (Inl e, [])
      | None \<Rightarrow>
          (case dep of
             Some e \<Rightarrow> (Inl e, [])
           | None \<Rightarrow> (Inl (mkexn DependencyError (''No available adapter for platform '' @ py_repr plat)), [])))"
| "dispatch_loop plat do_banner (en # chain) payload dep pend =
     (if (case pend of
            None \<Rightarrow> False
          | Some (e, t_name, t_mech) \<Rightarrow>
              classify_transient e plat (t_name, en_name en) (t_mech = en_mechanism en) = FailFast)
      then (Inl (fst (the pend)), [])
      else (case try_entry do_banner en payload dep pend of
              Finished r cs \<Rightarrow> (r, cs)
            | Onward payload' dep' pend' cs \<Rightarrow>
                (let (r, cs') = dispatch_loop plat do_banner chain payload' dep' pend'
                 in (r, cs @ cs'))))"

text \<open>Banner work needs an event sink and a banner with a path.\<close>

definition wants_banner :: "bool \<Rightarrow> jdict \<Rightarrow> exn + bool" where
  "wants_banner banner_emit payload =
     (if \<not> banner_emit \<or> jget payload ''banner'' = JNull then Inr False
      else bindR (jdict_of (jget payload ''banner'')) (\<lambda>b. Inr (jget b ''path'' \<noteq> JNull)))"

definition dispatch ::
  "registry \<Rightarrow> jdict \<Rightarrow> string \<Rightarrow> bool \<Rightarrow> bool \<Rightarrow> (exn + adapter_result) \<times> call list" where
  "dispatch registry payload mode dry_run banner_emit =
     (let plat = (case jget_or payload ''platform'' (JStr []) of JStr s \<Rightarrow> s | _ \<Rightarrow> [])
      in if dry_run
         then (Inr ((new_result ''draft'' (plat @ ''-api'') plat)\<lparr>ar_dry_run := True,
                  ar_command := ''publish to '' @ plat @ '' --mode '' @ mode @ '' (dry-run)''\<rparr>), [])
         else case dget registry plat of
                None \<Rightarrow> (Inl (mkexn ExternalServiceError (''unsupported platform: '' @ plat)), [])
              | Some chain \<Rightarrow>
                  (case wants_banner banner_emit payload of
                     Inl e \<Rightarrow> (Inl e, [])
                   | Inr do_banner \<Rightarrow> dispatch_loop plat do_banner chain payload None None))"

end
