(* ===== verification/Dispatch_Facts.thy ===== *)
theory Dispatch_Facts
  imports Dispatch
begin

text \<open>
  Retry and dispatch: how often and how long a call is retried and where it stops, and when the
  dispatcher may touch another adapter after one has tried to publish.
\<close>

section \<open>Retry\<close>

text \<open>A function given by the list of its results, one per call.\<close>

fun scripted :: "(exn + 'a) list \<Rightarrow> (exn + 'a) \<times> (exn + 'a) list" where
  "scripted [] = (Inl (mkexn (OtherError ''StopIteration'') []), [])"
| "scripted (r # rs) = (r, rs)"

text \<open>The exceptions the loop waits and calls again for.\<close>

definition retried :: "retry_args \<Rightarrow> exn + 'a \<Rightarrow> bool" where
  "retried a r \<longleftrightarrow> (\<exists>e. r = Inl e \<and> isinst e ExceptionClass \<and> \<not> isinst e ExternalServiceError \<and>
     \<not> isinst e DependencyError \<and> ra_is_retryable a e)"

lemma retry_call_loop_script:
  assumes "n \<le> length rs" "0 < n" "retry_call_loop a draw scripted n st l rs = ((r, rs'), waits)"
  shows "\<exists>m. m < n \<and> r = rs ! m \<and> rs' = drop (Suc m) rs \<and> length waits = m \<and>
     (\<forall>i < m. retried a (rs ! i)) \<and> (Suc m < n \<longrightarrow> \<not> retried a (rs ! m))"
  using assms
proof (induction n arbitrary: rs st l waits)
  case (Suc k)
  obtain x xs where rs: "rs = x # xs" using Suc.prems(1) by (cases rs) auto
  show ?case
  proof (cases "retried a x \<and> k \<noteq> 0")
    case False
    then have "r = x \<and> rs' = xs \<and> waits = []"
      using Suc.prems(3) by (cases x) (auto simp: rs retried_def split: if_splits)
    then show ?thesis using False by (intro exI[of _ 0]) (auto simp: rs)
  next
    case True
    then obtain e where e: "x = Inl e" by (auto simp: retried_def)
    obtain st' w ws where rec: "retry_call_loop a draw scripted k st' (Some e) xs = ((r, rs'), ws)"
      "waits = w # ws"
      using Suc.prems(3) True by (auto simp: rs e retried_def Let_def split: prod.splits if_splits)
    obtain m where m: "m < k" "r = xs ! m" "rs' = drop (Suc m) xs" "length ws = m"
      "\<forall>i < m. retried a (xs ! i)" "Suc m < k \<longrightarrow> \<not> retried a (xs ! m)"
      using Suc.IH[OF _ _ rec(1)] Suc.prems(1) True by (auto simp: rs)
    have "\<forall>i < Suc m. retried a (rs ! i)" using m(5) True by (auto simp: rs less_Suc_eq_0_disj)
    then show ?thesis using m rec(2) by (intro exI[of _ "Suc m"]) (auto simp: rs)
  qed
qed simp

text \<open>C30. A retried call is made at most \<open>max_attempts\<close> times; the result is that of the last call
  made; every earlier call failed with a retryable error that is neither an external-service nor
  a dependency error; and it stops before the limit only at a success or an error that is not to
  be retried. There is one wait before each further call.\<close>

theorem retry_transient_call_stops:
  assumes "ra_max_attempts a \<le> length rs" "0 < ra_max_attempts a"
    and "retry_transient_call a draw st scripted rs = ((r, rs'), waits)"
  shows "\<exists>m. m < ra_max_attempts a \<and> r = rs ! m \<and> rs' = drop (Suc m) rs \<and> length waits = m \<and>
     (\<forall>i < m. retried a (rs ! i)) \<and> (Suc m < ra_max_attempts a \<longrightarrow> \<not> retried a (rs ! m))"
  using retry_call_loop_script assms unfolding retry_transient_call_def by metis

definition default_args :: retry_args where
  "default_args = \<lparr>ra_is_retryable = (\<lambda>e. is_retryable_error e True), ra_max_attempts = MAX_ATTEMPTS,
     ra_backoff_base = BACKOFF_BASE, ra_jitter = JITTER_FACTOR\<rparr>"

definition demo_script :: "(exn + nat) list" where
  "demo_script = [Inl (mkexn TransientError ''HTTP 429''), Inl (mkexn ExternalServiceError ''down''), Inr 7]"

theorem retry_transient_call_stops_witness:
  "\<exists>m. m < 3 \<and> fst (fst (retry_transient_call default_args (\<lambda>i. (0, 0)) None scripted demo_script)) = demo_script ! m \<and>
     (\<forall>i < m. retried default_args (demo_script ! i))"
proof -
  obtain r rs' waits where
    run: "retry_transient_call default_args (\<lambda>i. (0, 0)) None scripted demo_script = ((r, rs'), waits)"
    by (metis prod.collapse)
  have "ra_max_attempts default_args \<le> length demo_script" "0 < ra_max_attempts default_args" by code_simp+
  from retry_transient_call_stops[OF this run] show ?thesis
    using run by (auto simp: default_args_def MAX_ATTEMPTS_def)
qed

text \<open>The waits: never negative, and exponentially bounded.\<close>

lemma multiplier_range: "1 \<le> dget_or STATUS_BACKOFF_MULTIPLIER n 1 \<and> dget_or STATUS_BACKOFF_MULTIPLIER n 1 \<le> 5"
  by (simp add: dget_or_def STATUS_BACKOFF_MULTIPLIER_def)

lemma uniform_around_le:
  assumes "0 \<le> j" "0 \<le> u" "u \<le> 1" shows "uniform_around j u \<le> 1 + j"
proof -
  have "uniform_around j u = 1 - j + 2 * j * u" by (simp add: uniform_around_def algebra_simps)
  moreover have "j * u \<le> j" using assms by (simp add: mult_left_le)
  ultimately show ?thesis by simp
qed

lemma retry_wait_bounds:
  assumes "0 \<le> ra_jitter a" "0 \<le> u1" "u1 \<le> 1" "0 \<le> u2" "u2 \<le> 1"
    and "retry_wait a attempt st e u1 u2 = (w, st')"
  shows "0 \<le> w" "w \<le> of_nat (ra_backoff_base a ^ attempt) * 5 * (1 + ra_jitter a)"
proof -
  let ?B = "of_nat (ra_backoff_base a ^ attempt) :: rat" and ?j = "ra_jitter a"
  have le: "?B * m * uniform_around ?j u \<le> ?B * 5 * (1 + ?j)" if "1 \<le> m" "m \<le> 5" "0 \<le> u" "u \<le> 1" for m u
  proof -
    have "?B * m * uniform_around ?j u \<le> ?B * m * (1 + ?j)"
      using uniform_around_le[OF assms(1) that(3,4)] that(1) by (intro mult_left_mono) auto
    also have "\<dots> \<le> ?B * 5 * (1 + ?j)"
      using that(2) assms(1) by (intro mult_right_mono mult_left_mono) auto
    finally show ?thesis .
  qed
  have nn: "0 \<le> ?B * 5 * (1 + ?j)" using assms(1) by simp
  show "0 \<le> w" using assms(6) by (auto simp: retry_wait_def Let_def split: option.splits)
  show "w \<le> ?B * 5 * (1 + ?j)"
    using assms(6) le multiplier_range assms(2-5) nn
    by (auto simp: retry_wait_def Let_def simp del: of_nat_power split: option.splits)
qed

section \<open>Dispatch\<close>

text \<open>What makes it safe to go on after a publish: the adapter says it lacks a prerequisite, or its
  429 was returned before anything was created.\<close>

definition safe_to_go_on :: "exn \<Rightarrow> bool" where
  "safe_to_go_on e \<longleftrightarrow> \<not> isinst e AuthExpiredError \<and>
     (isinst e DependencyError \<or>
      isinst e ExternalServiceError \<and> \<not> isinst e AntiBotChallengeError \<and> has_pre_create_429 e \<and>
      classify_exception e \<noteq> EHttp5xx)"

lemma classify_transient_safe:
  "classify_transient e plat tr same = FallbackSafe \<longleftrightarrow>
     isinst e ExternalServiceError \<and> \<not> isinst e AntiBotChallengeError \<and> has_pre_create_429 e \<and>
     classify_exception e \<noteq> EHttp5xx \<and> (same \<or> tr = (''MediumAPIAdapter'', ''MediumBraveAdapter''))"
  by (simp add: classify_transient_def IDEMPOTENCY_SAFE_5XX_def CROSS_MECHANISM_FALLBACK_def)

definition went_on :: "chain_entry list \<Rightarrow> string \<Rightarrow> jdict \<Rightarrow> bool" where
  "went_on chain n p \<longleftrightarrow> (\<exists>en \<in> set chain. en_name en = n \<and> (\<exists>e. en_publish en p = Inl e \<and> safe_to_go_on e))"

text \<open>The calls that may have others after them.\<close>

fun guarded_call :: "chain_entry list \<Rightarrow> call \<Rightarrow> bool" where
  "guarded_call chain (CPublish n p) = went_on chain n p"
| "guarded_call chain c = True"

lemma went_on_mono: "went_on chain n p \<Longrightarrow> went_on (en # chain) n p"
  by (auto simp: went_on_def)

lemma guarded_call_mono: "guarded_call chain c \<Longrightarrow> guarded_call (en # chain) c"
  by (cases c) (auto intro: went_on_mono)

lemma guarded_other: "\<forall>n p. c \<noteq> CPublish n p \<Longrightarrow> guarded_call chain c"
  by (cases c) auto

text \<open>One entry: the publish is its last call, and it goes on only after a dependency error or
  with the transient error pending.\<close>

lemma try_entry_finished:
  "try_entry b en payload dep pend = Finished r cs \<Longrightarrow>
     (\<forall>c \<in> set (butlast cs). \<forall>n p. c \<noteq> CPublish n p) \<and>
     (\<forall>x. r = Inr x \<longrightarrow> (\<exists>xs p. cs = xs @ [CPublish (en_name en) p] \<and> en_publish en p = Inr x))"
  by (auto simp: try_entry_def Let_def split: sum.splits prod.splits if_splits option.splits)

lemma try_entry_onward:
  assumes "try_entry b en payload dep pend = Onward payload' dep' pend' cs"
  shows "\<forall>c \<in> set (butlast cs). \<forall>n p. c \<noteq> CPublish n p"
    "CPublish n p \<in> set cs \<Longrightarrow> n = en_name en \<and> (\<exists>e. en_publish en p = Inl e \<and> \<not> isinst e AuthExpiredError \<and>
        (isinst e DependencyError \<or> pend' = Some (e, en_name en, en_mechanism en)))"
    "cs \<noteq> []"
  using assms
  by (auto simp: try_entry_def Let_def split: sum.splits prod.splits if_splits option.splits)

lemma dispatch_loop_guarded:
  "dispatch_loop plat b chain payload dep pend = (r, cs) \<Longrightarrow>
     (\<forall>c \<in> set (butlast cs). guarded_call chain c) \<and>
     (\<forall>e n m. pend = Some (e, n, m) \<longrightarrow> cs \<noteq> [] \<longrightarrow>
        isinst e ExternalServiceError \<and> \<not> isinst e AntiBotChallengeError \<and> has_pre_create_429 e \<and>
        classify_exception e \<noteq> EHttp5xx) \<and>
     (\<forall>x. r = Inr x \<longrightarrow> (\<exists>xs n p. cs = xs @ [CPublish n p] \<and>
        (\<exists>en \<in> set chain. en_name en = n \<and> en_publish en p = Inr x)))"
proof (induction chain arbitrary: payload dep pend cs)
  case Nil
  then show ?case by (auto split: option.splits prod.splits)
next
  case (Cons en chain)
  let ?blocked = "case pend of None \<Rightarrow> False
    | Some (e, t_name, t_mech) \<Rightarrow>
        classify_transient e plat (t_name, en_name en) (t_mech = en_mechanism en) = FailFast"
  show ?case
  proof (cases ?blocked)
    case True
    then show ?thesis using Cons.prems by auto
  next
    case False
    have pend: "isinst e ExternalServiceError \<and> \<not> isinst e AntiBotChallengeError \<and> has_pre_create_429 e \<and>
        classify_exception e \<noteq> EHttp5xx" if "pend = Some (e, n, m)" for e n m
      using False that classify_transient_safe[of e plat "(n, en_name en)" "m = en_mechanism en"]
      by (cases "classify_transient e plat (n, en_name en) (m = en_mechanism en)") auto
    show ?thesis
    proof (cases "try_entry b en payload dep pend")
      case (Finished r1 cs1)
      then have eq: "r = r1" "cs = cs1" using Cons.prems False by auto
      have "guarded_call (en # chain) c" if "c \<in> set (butlast cs)" for c
        using try_entry_finished[OF Finished] that eq by (cases c) auto
      then show ?thesis using try_entry_finished[OF Finished] eq pend by fastforce
    next
      case (Onward payload1 dep1 pend1 cs1)
      then obtain cs2 where rest: "dispatch_loop plat b chain payload1 dep1 pend1 = (r, cs2)"
        and cs: "cs = cs1 @ cs2"
        using Cons.prems False by (auto simp: Let_def split: prod.splits)
      note ih = Cons.IH[OF rest] and on = try_entry_onward[OF Onward]
      have "guarded_call (en # chain) c" if c: "c \<in> set (butlast cs)" for c
      proof (cases "c \<in> set cs1 \<and> cs2 \<noteq> []")
        case True
        have "went_on (en # chain) n p" if "c = CPublish n p" for n p
        proof -
          obtain e where e: "n = en_name en" "en_publish en p = Inl e" "\<not> isinst e AuthExpiredError"
            "isinst e DependencyError \<or> pend1 = Some (e, en_name en, en_mechanism en)"
            using on(2) True \<open>c = CPublish n p\<close> by blast
          then have "safe_to_go_on e" using ih True by (auto simp: safe_to_go_on_def)
          then show ?thesis using e by (auto simp: went_on_def)
        qed
        then show ?thesis by (cases c) auto
      next
        case False
        then have "c \<in> set (butlast cs1) \<or> c \<in> set (butlast cs2)"
          using c cs by (auto simp: butlast_append split: if_splits)
        then show ?thesis
        proof
          assume "c \<in> set (butlast cs1)"
          then show ?thesis using on(1) guarded_other by blast
        next
          assume "c \<in> set (butlast cs2)"
          then have "guarded_call chain c" using ih by simp
          then show ?thesis by (rule guarded_call_mono)
        qed
      qed
      then show ?thesis using ih pend cs by fastforce
    qed
  qed
qed

lemma dispatch_never_duplicates_facts:
  assumes "dispatch registry payload mode dry_run banner_emit = (r, cs)"
  shows "cs = xs @ CPublish n p # y # ys \<Longrightarrow> \<exists>chain en e. en \<in> set chain \<and> en_name en = n \<and>
      en_publish en p = Inl e \<and> safe_to_go_on e \<and> chain \<in> snd ` set registry"
    "r = Inr x \<Longrightarrow> \<not> dry_run \<Longrightarrow> \<exists>xs n p chain en. cs = xs @ [CPublish n p] \<and> en \<in> set chain \<and>
      en_name en = n \<and> en_publish en p = Inr x \<and> chain \<in> snd ` set registry"
proof -
  have run: "cs = [] \<and> (dry_run \<or> isl r) \<or> (\<exists>plat chain b. dget registry plat = Some chain \<and>
      dispatch_loop plat b chain payload None None = (r, cs))"
    using assms by (auto simp: dispatch_def Let_def split: if_splits option.splits sum.splits)
  show "\<exists>chain en e. en \<in> set chain \<and> en_name en = n \<and> en_publish en p = Inl e \<and> safe_to_go_on e \<and>
      chain \<in> snd ` set registry" if cs: "cs = xs @ CPublish n p # y # ys"
  proof -
    obtain plat chain b where l: "dget registry plat = Some chain"
      "dispatch_loop plat b chain payload None None = (r, cs)" using run cs by auto
    have "CPublish n p \<in> set (butlast cs)" by (simp add: cs butlast_append)
    then have "went_on chain n p" using dispatch_loop_guarded[OF l(2)] by fastforce
    moreover have "chain \<in> snd ` set registry" using map_of_SomeD[OF l(1)] by force
    ultimately show ?thesis by (auto simp: went_on_def)
  qed
  show "\<exists>xs n p chain en. cs = xs @ [CPublish n p] \<and> en \<in> set chain \<and>
      en_name en = n \<and> en_publish en p = Inr x \<and> chain \<in> snd ` set registry" if r: "r = Inr x" "\<not> dry_run"
  proof -
    obtain plat chain b where l: "dget registry plat = Some chain"
      "dispatch_loop plat b chain payload None None = (r, cs)" using run r by auto
    have "chain \<in> snd ` set registry" using map_of_SomeD[OF l(1)] by force
    then show ?thesis using dispatch_loop_guarded[OF l(2)] r by blast
  qed
qed

definition demo_entry :: "string \<Rightarrow> exn + adapter_result \<Rightarrow> chain_entry" where
  "demo_entry n r = \<lparr>en_name = n, en_mechanism = ''api'', en_available = Inr True,
     en_embed = (\<lambda>b. Inr (case b of JStr s \<Rightarrow> s | _ \<Rightarrow> [])), en_publish = (\<lambda>p. r)\<rparr>"

definition demo_registry :: registry where
  "demo_registry = [(''medium'',
     [demo_entry ''MediumAPIAdapter'' (Inl (mark_pre_create_429 (mkexn ExternalServiceError ''HTTP 429''))),
      demo_entry ''MediumBraveAdapter'' (Inr (new_result ''published'' ''medium-brave'' ''medium''))])]"

text \<open>C19. No duplicate through fallback: whenever the dispatcher makes any further call (even the
  availability probe of another adapter) after an adapter tried to publish, that attempt raised a
  dependency error other than an expired login, or an external-service error that is stamped as
  a pre-create 429, is not an anti-bot challenge and does not look like a 5xx. And a result is the
  one of the last publish call.\<close>

theorem dispatch_never_duplicates:
  assumes "dispatch registry payload mode dry_run banner_emit = (r, cs)"
  shows "(\<forall>xs n p y ys. cs = xs @ CPublish n p # y # ys \<longrightarrow>
      (\<exists>chain en e. en \<in> set chain \<and> en_name en = n \<and> en_publish en p = Inl e \<and> safe_to_go_on e \<and>
        chain \<in> snd ` set registry)) \<and>
    (\<forall>x. r = Inr x \<longrightarrow> \<not> dry_run \<longrightarrow>
      (\<exists>xs n p chain en. cs = xs @ [CPublish n p] \<and> en \<in> set chain \<and> en_name en = n \<and>
        en_publish en p = Inr x \<and> chain \<in> snd ` set registry))"
  using dispatch_never_duplicates_facts[OF assms] by simp

theorem dispatch_never_duplicates_witness:
  "\<exists>chain en e. en \<in> set chain \<and> en_name en = ''MediumAPIAdapter'' \<and>
     en_publish en [(''platform'', JStr ''medium'')] = Inl e \<and> safe_to_go_on e \<and> chain \<in> snd ` set demo_registry"
proof -
  let ?p = "[(''platform'', JStr ''medium'')]"
  have "dispatch demo_registry ?p ''draft'' False False =
    (Inr (new_result ''published'' ''medium-brave'' ''medium''),
     [CAvailable ''MediumAPIAdapter''] @ CPublish ''MediumAPIAdapter'' ?p # CAvailable ''MediumBraveAdapter'' #
       [CDegraded ''MediumAPIAdapter'' ''MediumBraveAdapter'', CPublish ''MediumBraveAdapter'' ?p])"
    by code_simp
  from dispatch_never_duplicates[OF this, THEN conjunct1, rule_format, OF refl] show ?thesis .
qed

end
