(* ===== verification/Circuit.thy ===== *)
theory Circuit
  imports Py_Json
begin

text \<open>
  The per-channel circuit breaker (\<open>reliability/circuit.py\<close>) and the platform health store
  (\<open>health/persistence/locked_store.py\<close>). Each keeps one JSON file, read and written under a
  lock that is either taken or times out.
\<close>

section \<open>JSON files under a lock\<close>

record json_store =
  js_file :: json_file
  js_lock :: bool
  js_save :: "exn option"

type_synonym 'a jact = "json_store \<Rightarrow> (exn + 'a) \<times> json_store"

text \<open>\<open>js_save\<close> is what the atomic write of the file raises; it leaves the old file then.\<close>

definition js_write :: "json \<Rightarrow> unit jact" where
  "js_write j s = (case js_save s of Some e \<Rightarrow> (Inl e, s) | None \<Rightarrow> (Inr (), s\<lparr>js_file := FJson j\<rparr>))"

text \<open>An absent file reads as the empty dict.\<close>

definition read_state_unsafe :: "json_file \<Rightarrow> exn + json" where
  "read_state_unsafe f = (case f of FAbsent \<Rightarrow> Inr (JDict []) | FBad e \<Rightarrow> Inl e | FJson j \<Rightarrow> Inr j)"

text \<open>\<open>d[k] = v\<close>: only an object takes a string key.\<close>

definition jset :: "json \<Rightarrow> string \<Rightarrow> json \<Rightarrow> exn + json" where
  "jset j k v = (case j of JDict d \<Rightarrow> Inr (JDict (dput k v d)) | _ \<Rightarrow> Inl (mkexn TypeErr ''item assignment''))"

text \<open>The mutating operations hold the lock; an unreadable or corrupt file counts as empty.\<close>

definition circuit_rmw :: "(json \<Rightarrow> exn + json) \<Rightarrow> unit jact" where
  "circuit_rmw fn s =
     (if \<not> js_lock s
      then (Inl (mkexn ExternalServiceError ''publish-circuit-state lock held > 60 s; check for stale process''), s)
      else case (case read_state_unsafe (js_file s) of
                   Inl e \<Rightarrow> if isinst e JSONDecodeError \<or> isinst e OSErr then Inr (JDict []) else Inl e
                 | Inr j \<Rightarrow> Inr j) of
             Inl e \<Rightarrow> (Inl e, s)
           | Inr j \<Rightarrow>
               (case fn j of
                  Inl e \<Rightarrow> (Inl e, s)
                | Inr j' \<Rightarrow> js_write j' s))"

section \<open>Circuit breaker\<close>

datatype circuit_state = CClosed | COpen | CHalfOpen

fun cs_value :: "circuit_state \<Rightarrow> string" where
  "cs_value CClosed = ''closed''"
| "cs_value COpen = ''open''"
| "cs_value CHalfOpen = ''half-open''"

definition BAN_SIGNALS :: "string list" where
  "BAN_SIGNALS = [''ban'', ''banned'', ''suspended'']"

definition TRANSIENT_STATUS_CODES :: "int set" where
  "TRANSIENT_STATUS_CODES = {429, 502, 503, 504}"

definition env_int :: "env \<Rightarrow> string \<Rightarrow> int \<Rightarrow> int" where
  "env_int env name dflt =
     (case getenv env name of
        None \<Rightarrow> dflt
      | Some s \<Rightarrow> (case int_of_str s of None \<Rightarrow> dflt | Some n \<Rightarrow> n))"

definition cooldown_s :: "env \<Rightarrow> int" where
  "cooldown_s env = env_int env ''BACKLINK_PUBLISHER_CIRCUIT_COOLDOWN_S'' 300"

definition consecutive_errors_threshold :: "env \<Rightarrow> int" where
  "consecutive_errors_threshold env = env_int env ''BACKLINK_PUBLISHER_CIRCUIT_CONSECUTIVE_ERRORS'' 3"

definition now_iso :: "env \<Rightarrow> string" where
  "now_iso env = e_fmt env (e_now env)"

text \<open>\<open>datetime.fromisoformat(x).timestamp()\<close>.\<close>

definition iso_timestamp :: "env \<Rightarrow> json \<Rightarrow> exn + pyfloat" where
  "iso_timestamp env j =
     (case j of
        JStr s \<Rightarrow> (case e_iso env s of
                     None \<Rightarrow> Inl (mkexn ValueErr ''Invalid isoformat string'')
                   | Some x \<Rightarrow> Inr x)
      | _ \<Rightarrow> Inl (mkexn TypeErr ''fromisoformat: argument must be str''))"

definition circuit_entry :: "circuit_state \<Rightarrow> bool \<Rightarrow> json \<Rightarrow> json" where
  "circuit_entry st tripped ts =
     JDict [(''state'', JStr (cs_value st)), (''tripped'', JBool tripped), (''tripped_at_iso'', ts),
            (''consecutive_errors'', JInt 0)]"

record circuit_view =
  cv_state :: json
  cv_tripped :: json
  cv_tripped_at_iso :: json
  cv_consecutive_errors :: json

definition get_state :: "string \<Rightarrow> json_file \<Rightarrow> exn + circuit_view" where
  "get_state platform f =
     (case f of
        FAbsent \<Rightarrow> Inr \<lparr>cv_state = JStr ''closed'', cv_tripped = JBool False,
                        cv_tripped_at_iso = JNull, cv_consecutive_errors = JInt 0\<rparr>
      | _ \<Rightarrow>
          (let r = bindR (read_json f) (\<lambda>state.
                   bindR (jdict_of state) (\<lambda>d.
                   bindR (jdict_of (jget_or d platform (JDict []))) (\<lambda>entry.
                     Inr \<lparr>cv_state = jget_or entry ''state'' (JStr ''closed''),
                          cv_tripped = jget_or entry ''tripped'' (JBool False),
                          cv_tripped_at_iso = jget entry ''tripped_at_iso'',
                          cv_consecutive_errors = jget_or entry ''consecutive_errors'' (JInt 0)\<rparr>)))
           in case r of
                Inr v \<Rightarrow> Inr v
              | Inl e \<Rightarrow>
                  if isinst e OSErr \<or> isinst e ValueErr
                  then Inr \<lparr>cv_state = JStr ''open'', cv_tripped = JBool True,
                            cv_tripped_at_iso = JNull, cv_consecutive_errors = JInt 0\<rparr>
                  else Inl e))"

definition transition_to_half_open :: "env \<Rightarrow> string \<Rightarrow> unit jact" where
  "transition_to_half_open env platform =
     circuit_rmw (\<lambda>j. jset j platform (circuit_entry CHalfOpen True (JStr (now_iso env))))"

text \<open>\<open>Inr True\<close>: the cooldown has elapsed and the entry was moved to half-open; a bad timestamp
  is passed over, an error of the transition is not.\<close>

definition cooled_down :: "env \<Rightarrow> string \<Rightarrow> json \<Rightarrow> bool jact" where
  "cooled_down env platform tripped_at_iso s =
     (case iso_timestamp env tripped_at_iso of
        Inl e \<Rightarrow> (Inr False, s)
      | Inr tripped_at \<Rightarrow>
          if e_now env - tripped_at \<ge> of_int (cooldown_s env)
          then (case transition_to_half_open env platform s of
                  (Inl e, s') \<Rightarrow>
                    if isinst e ValueErr \<or> isinst e TypeErr then (Inr False, s') else (Inl e, s')
                | (Inr u, s') \<Rightarrow> (Inr True, s'))
          else (Inr False, s))"

definition is_tripped :: "env \<Rightarrow> string \<Rightarrow> bool jact" where
  "is_tripped env platform =
     catchS [OSErr, ValueErr]
       (\<lambda>s. case get_state platform (js_file s) of
          Inl e \<Rightarrow> (Inl e, s)
        | Inr v \<Rightarrow>
            if cv_state v = JStr (cs_value CHalfOpen) \<and> truthy (cv_tripped_at_iso v)
            then bindS (cooled_down env platform (cv_tripped_at_iso v)) (\<lambda>b. retS False) s
            else if cv_state v = JStr (cs_value COpen)
            then (if truthy (cv_tripped_at_iso v)
                  then bindS (cooled_down env platform (cv_tripped_at_iso v)) (\<lambda>b. retS (\<not> b)) s
                  else retS True s)
            else retS False s)
       (\<lambda>e. retS True)"

definition is_degraded :: "string \<Rightarrow> bool jact" where
  "is_degraded platform s =
     (case get_state platform (js_file s) of
        Inl e \<Rightarrow> (Inl e, s)
      | Inr v \<Rightarrow> (Inr (truthy (cv_tripped v)), s))"

definition circuit_status :: "env \<Rightarrow> string \<Rightarrow> json_store \<Rightarrow> string" where
  "circuit_status env platform s =
     (if js_file s = FAbsent then cs_value CClosed
      else case read_json (js_file s) of
             Inl e \<Rightarrow> ''unreadable''
           | Inr (JDict raw) \<Rightarrow>
               (case jget raw platform of
                  JNull \<Rightarrow> cs_value CClosed
                | JDict entry \<Rightarrow>
                    if \<not> truthy (jget_or entry ''tripped'' (JBool False)) then cs_value CClosed
                    else if \<not> truthy (jget entry ''tripped_at_iso'') then ''unreadable''
                    else (case iso_timestamp env (jget entry ''tripped_at_iso'') of
                            Inl e \<Rightarrow> ''unreadable''
                          | Inr tripped_at \<Rightarrow>
                              if e_now env - tripped_at \<ge> of_int (cooldown_s env) then cs_value CHalfOpen
                              else if jget_or entry ''state'' (JStr (cs_value COpen)) = JStr (cs_value COpen)
                              then cs_value COpen else cs_value CHalfOpen)
                | _ \<Rightarrow> ''unreadable'')
           | Inr _ \<Rightarrow> ''unreadable'')"

definition trip :: "env \<Rightarrow> string \<Rightarrow> unit jact" where
  "trip env platform =
     circuit_rmw (\<lambda>j. jset j platform (circuit_entry COpen True (JStr (now_iso env))))"

text \<open>\<open>x + 1\<close> on a JSON value.\<close>

fun jsucc :: "json \<Rightarrow> exn + json" where
  "jsucc (JInt n) = Inr (JInt (n + 1))"
| "jsucc (JBool b) = Inr (JInt (if b then 2 else 1))"
| "jsucc (JFloat x) = Inr (JFloat (x + 1))"
| "jsucc _ = Inl (mkexn TypeErr ''unsupported operand'')"

fun jnum_ge :: "json \<Rightarrow> int \<Rightarrow> bool" where
  "jnum_ge (JInt n) k = (n \<ge> k)"
| "jnum_ge (JFloat x) k = (x \<ge> of_int k)"
| "jnum_ge _ k = False"

definition trip_on_error :: "env \<Rightarrow> string \<Rightarrow> int option \<Rightarrow> unit jact" where
  "trip_on_error env platform status_code =
     circuit_rmw (\<lambda>j.
       bindR (jdict_of j) (\<lambda>state.
       bindR (jdict_of (jget_or state platform (JDict []))) (\<lambda>entry.
       bindR (jsucc (jget_or entry ''consecutive_errors'' (JInt 0))) (\<lambda>current_errors.
         if (case status_code of None \<Rightarrow> False | Some n \<Rightarrow> n \<in> TRANSIENT_STATUS_CODES)
            \<or> jnum_ge current_errors (consecutive_errors_threshold env)
         then jset j platform (circuit_entry COpen True (JStr (now_iso env)))
         else jset j platform
                (JDict (dput ''tripped'' (JBool False)
                  (dput ''state'' (JStr (cs_value CClosed))
                    (dput ''consecutive_errors'' current_errors entry))))))))"

definition record_success :: "string \<Rightarrow> unit jact" where
  "record_success platform =
     circuit_rmw (\<lambda>j.
       bindR (jdict_of j) (\<lambda>state.
       bindR (jset (jget_or state platform (JDict [])) ''consecutive_errors'' (JInt 0)) (\<lambda>entry1.
       bindR (jset entry1 ''state'' (JStr (cs_value CClosed))) (\<lambda>entry2.
         jset j platform entry2))))"

definition reset_circuit :: "string \<Rightarrow> unit jact" where
  "reset_circuit platform = circuit_rmw (\<lambda>j. jset j platform (circuit_entry CClosed False JNull))"

text \<open>Best effort: whatever goes wrong, nothing is raised.\<close>

definition auto_reset :: "env \<Rightarrow> string \<Rightarrow> json_store \<Rightarrow> json_store" where
  "auto_reset env platform s =
     (if \<not> js_lock s then s
      else case bindR (read_state_unsafe (js_file s)) (\<lambda>j.
                bindR (jdict_of j) (\<lambda>state.
                bindR (jdict_of (jget_or state platform (JDict []))) (\<lambda>entry.
                  if \<not> truthy (jget entry ''tripped'') then Inr None
                  else bindR (iso_timestamp env (jget_or entry ''tripped_at_iso'' (JStr []))) (\<lambda>tripped_at.
                    if e_now env - tripped_at \<ge> of_int (cooldown_s env)
                    then bindR (jset j platform (JDict [(''tripped'', JBool False), (''tripped_at_iso'', JNull)]))
                           (\<lambda>j'. Inr (Some j'))
                    else Inr None)))) of
             Inr (Some j') \<Rightarrow> snd (js_write j' s)
           | _ \<Rightarrow> s)"

definition is_ban_signal :: "exn \<Rightarrow> bool" where
  "is_ban_signal e \<longleftrightarrow> list_ex (\<lambda>w. contains w (lower (str_exn e))) BAN_SIGNALS"

section \<open>Platform health\<close>

record health_view =
  hv_consecutive_failures :: int
  hv_paused :: bool

definition SAFE_DEFAULTS :: health_view where
  "SAFE_DEFAULTS = \<lparr>hv_consecutive_failures = 0, hv_paused = False\<rparr>"

definition health_get :: "string \<Rightarrow> json_store \<Rightarrow> health_view" where
  "health_get platform s =
     (case bindR (read_state_unsafe (js_file s)) (\<lambda>j.
           bindR (jdict_of j) (\<lambda>state.
           bindR (jdict_of (jget_or state platform (JDict []))) (\<lambda>entry.
           bindR (py_int (jget_or entry ''consecutive_failures'' (JInt 0))) (\<lambda>n.
             Inr \<lparr>hv_consecutive_failures = n,
                  hv_paused = truthy (jget_or entry ''paused'' (JBool False))\<rparr>)))) of
        Inr v \<Rightarrow> v
      | Inl e \<Rightarrow> SAFE_DEFAULTS)"

text \<open>\<open>dict(x)\<close> of an entry; of a value that is not an object it raises (non-empty lists of pairs
  are left out).\<close>

definition py_dict :: "json \<Rightarrow> exn + jdict" where
  "py_dict j =
     (case j of
        JDict d \<Rightarrow> Inr d
      | JList [] \<Rightarrow> Inr []
      | JStr [] \<Rightarrow> Inr []
      | _ \<Rightarrow> Inl (mkexn TypeErr ''object is not iterable''))"

definition health_update :: "string \<Rightarrow> (jdict \<Rightarrow> exn + jdict) \<Rightarrow> unit jact" where
  "health_update platform fn s =
     (if \<not> js_lock s then (Inl (mkexn OSErr ''platform-health lock held > 60 s; check for stale process''), s)
      else case bindR (read_state_unsafe (js_file s)) (\<lambda>j.
                bindR (jdict_of j) (\<lambda>state.
                bindR (py_dict (jget_or state platform (JDict []))) (\<lambda>entry.
                bindR (fn entry) (\<lambda>updated.
                  Inr (JDict (dput platform (JDict updated) state)))))) of
             Inl e \<Rightarrow> (Inl e, s)
           | Inr j' \<Rightarrow> js_write j' s)"

definition set_paused :: "string \<Rightarrow> bool \<Rightarrow> bool jact" where
  "set_paused platform paused =
     bindS (health_update platform (\<lambda>e. Inr (dput ''paused'' (JBool paused) e))) (\<lambda>u. retS paused)"

definition is_paused :: "string \<Rightarrow> json_store \<Rightarrow> bool" where
  "is_paused platform s = hv_paused (health_get platform s)"

end
