(* ===== verification/Keyed.thy ===== *)
theory Keyed
  imports Py_Json
begin

text \<open>
  The interface of the stores that keep one entry per key (platform, route, weight): an
  operation has one target key, rewrites that entry by a function of its old value, and leaves
  the other entries alone. It follows that in any interleaving of operations on many keys, an
  entry is what the operations on its own key, in their order, make of it.
\<close>

locale keyed_store =
  fixes entry :: "'k \<Rightarrow> 's \<Rightarrow> 'v"
    and step :: "'op \<Rightarrow> 's \<Rightarrow> (exn + 'r) \<times> 's"
    and target :: "'op \<Rightarrow> 'k"
    and effect :: "'op \<Rightarrow> 'v \<Rightarrow> 'v"
    and ready :: "'s \<Rightarrow> bool"
    and legal :: "'op \<Rightarrow> bool"
  assumes step_ok: "ready s \<Longrightarrow> legal op \<Longrightarrow> \<exists>r s'. step op s = (Inr r, s') \<and> ready s'"
    and step_own: "ready s \<Longrightarrow> legal op \<Longrightarrow> step op s = (Inr r, s') \<Longrightarrow>
      entry (target op) s' = effect op (entry (target op) s)"
    and step_other: "ready s \<Longrightarrow> legal op \<Longrightarrow> step op s = (Inr r, s') \<Longrightarrow> k \<noteq> target op \<Longrightarrow>
      entry k s' = entry k s"
begin

fun run :: "'op list \<Rightarrow> 's \<Rightarrow> 's" where
  "run [] s = s"
| "run (op # ops) s = run ops (snd (step op s))"

lemma run_ready_legal: "ready s \<Longrightarrow> \<forall>op \<in> set ops. legal op \<Longrightarrow> ready (run ops s)"
proof (induction ops arbitrary: s)
  case (Cons op ops)
  then show ?case using step_ok[of s op] by auto
qed simp

lemma run_entry_legal:
  "ready s \<Longrightarrow> \<forall>op \<in> set ops. legal op \<Longrightarrow>
     entry k (run ops s) = fold effect (filter (\<lambda>op. target op = k) ops) (entry k s)"
proof (induction ops arbitrary: s)
  case (Cons op ops)
  have l: "legal op" using Cons.prems by simp
  obtain r s' where s': "step op s = (Inr r, s')" "ready s'" using step_ok[OF Cons.prems(1) l] by blast
  have "entry k s' = (if target op = k then effect op (entry k s) else entry k s)"
    using step_own[OF Cons.prems(1) l s'(1)] step_other[OF Cons.prems(1) l s'(1)] by auto
  then show ?case using Cons.IH[OF s'(2)] Cons.prems(2) s'(1) by simp
qed simp

text \<open>Operations on other keys cannot be seen.\<close>

lemma run_frame_legal:
  "ready s \<Longrightarrow> \<forall>op \<in> set ops. legal op \<and> target op \<noteq> k \<Longrightarrow> entry k (run ops s) = entry k s"
  by (simp add: run_entry_legal filter_False)

end

text \<open>The stores all of whose operations are legal.\<close>

locale entry_store =
  keyed_store entry step target effect ready "\<lambda>op. True"
  for entry :: "'k \<Rightarrow> 's \<Rightarrow> 'v"
    and step :: "'op \<Rightarrow> 's \<Rightarrow> (exn + 'r) \<times> 's"
    and target :: "'op \<Rightarrow> 'k"
    and effect :: "'op \<Rightarrow> 'v \<Rightarrow> 'v"
    and ready :: "'s \<Rightarrow> bool"
begin

lemma run_ready: "ready s \<Longrightarrow> ready (run ops s)"
  by (simp add: run_ready_legal)

lemma run_entry: "ready s \<Longrightarrow> entry k (run ops s) = fold effect (filter (\<lambda>op. target op = k) ops) (entry k s)"
  by (simp add: run_entry_legal)

lemma run_frame: "ready s \<Longrightarrow> \<forall>op \<in> set ops. target op \<noteq> k \<Longrightarrow> entry k (run ops s) = entry k s"
  by (simp add: run_frame_legal)

text \<open>Only the operations on a key matter for it.\<close>

lemma run_project: "ready s \<Longrightarrow> entry k (run ops s) = entry k (run (filter (\<lambda>op. target op = k) ops) s)"
  by (simp add: run_entry)

end

end
