(* ===== verification/Circuit_Facts.thy ===== *)
theory Circuit_Facts
  imports Circuit Keyed
begin

text \<open>
  The life of a circuit entry (trip, cooldown, half-open, success), the fail-closed reading of a
  damaged file and its gap, the independence of platforms, and the pause flag of the health store.
\<close>

section \<open>Entries of the circuit file\<close>

definition file_entry :: "string \<Rightarrow> json_store \<Rightarrow> json" where
  "file_entry p s = (case js_file s of FJson (JDict d) \<Rightarrow> jget_or d p (JDict []) | _ \<Rightarrow> JDict [])"

text \<open>A file the mutating operations can work on: the lock is free, the write goes through, and the content is an object,
  absent, or so damaged that it is started afresh.\<close>

definition usable :: "json_store \<Rightarrow> bool" where
  "usable s \<longleftrightarrow> js_lock s \<and> js_save s = None \<and>
     (case js_file s of FAbsent \<Rightarrow> True | FBad e \<Rightarrow> isinst e JSONDecodeError \<or> isinst e OSErr
      | FJson j \<Rightarrow> (\<exists>d. j = JDict d))"

lemma rmw_jset:
  assumes "usable s"
  shows "\<exists>d. circuit_rmw (\<lambda>j. jset j p v) s = (Inr (), s\<lparr>js_file := FJson (JDict (dput p v d))\<rparr>) \<and>
     (\<forall>q. jget_or d q (JDict []) = file_entry q s)"
  using assms
  by (intro exI[of _ "case js_file s of FJson (JDict d) \<Rightarrow> d | _ \<Rightarrow> []"], cases "js_file s")
     (auto simp: usable_def circuit_rmw_def js_write_def read_state_unsafe_def jset_def file_entry_def jget_or_def dget_or_def)

lemma file_entry_dput [simp]:
  "file_entry q (s\<lparr>js_file := FJson (JDict (dput p v d))\<rparr>) = (if q = p then v else jget_or d q (JDict []))"
  by (simp add: file_entry_def jget_or_def dget_or_def)

lemma usable_dput [simp]: "usable s \<Longrightarrow> usable (s\<lparr>js_file := FJson (JDict d)\<rparr>)"
  by (simp add: usable_def)

text \<open>Operations that replace the entry.\<close>

datatype circuit_op = Trip env string | HalfOpen env string | Reset string

fun circuit_step :: "circuit_op \<Rightarrow> unit jact" where
  "circuit_step (Trip env p) = trip env p"
| "circuit_step (HalfOpen env p) = transition_to_half_open env p"
| "circuit_step (Reset p) = reset_circuit p"

fun circuit_target :: "circuit_op \<Rightarrow> string" where
  "circuit_target (Trip env p) = p"
| "circuit_target (HalfOpen env p) = p"
| "circuit_target (Reset p) = p"

fun circuit_effect :: "circuit_op \<Rightarrow> json \<Rightarrow> json" where
  "circuit_effect (Trip env p) old = circuit_entry COpen True (JStr (now_iso env))"
| "circuit_effect (HalfOpen env p) old = circuit_entry CHalfOpen True (JStr (now_iso env))"
| "circuit_effect (Reset p) old = circuit_entry CClosed False JNull"

lemma circuit_step_eq:
  "circuit_step op = circuit_rmw (\<lambda>j. jset j (circuit_target op) (circuit_effect op x))"
  by (cases op) (simp_all add: trip_def transition_to_half_open_def reset_circuit_def)

interpretation circuit: entry_store file_entry circuit_step circuit_target circuit_effect usable
proof
  fix s op r s' k
  assume u: "usable s"
  from rmw_jset[OF u, of "circuit_target op" "circuit_effect op (file_entry (circuit_target op) s)"]
  obtain d where d: "circuit_step op s =
      (Inr (), s\<lparr>js_file := FJson (JDict (dput (circuit_target op) (circuit_effect op (file_entry (circuit_target op) s)) d))\<rparr>)"
    "\<forall>q. jget_or d q (JDict []) = file_entry q s"
    unfolding circuit_step_eq[of op "file_entry (circuit_target op) s"] by blast
  show "\<exists>r s'. circuit_step op s = (Inr r, s') \<and> usable s'" using d u by auto
  show "file_entry (circuit_target op) s' = circuit_effect op (file_entry (circuit_target op) s)"
    if "circuit_step op s = (Inr r, s')" using that d by auto
  show "file_entry k s' = file_entry k s" if "circuit_step op s = (Inr r, s')" "k \<noteq> circuit_target op"
    using that d by auto
qed

section \<open>Reading an entry\<close>

lemma get_state_dict:
  "js_file s = FJson (JDict d) \<Longrightarrow> jget_or d p (JDict []) = JDict e \<Longrightarrow>
     get_state p (js_file s) = Inr \<lparr>cv_state = jget_or e ''state'' (JStr ''closed''),
        cv_tripped = jget_or e ''tripped'' (JBool False), cv_tripped_at_iso = jget e ''tripped_at_iso'',
        cv_consecutive_errors = jget_or e ''consecutive_errors'' (JInt 0)\<rparr>"
  by (simp add: get_state_def read_json_def Let_def)

lemma circuit_entry_fields:
  "circuit_entry st t ts = JDict [(''state'', JStr (cs_value st)), (''tripped'', JBool t),
     (''tripped_at_iso'', ts), (''consecutive_errors'', JInt 0)]"
  by (simp add: circuit_entry_def)

lemma get_state_entry:
  assumes "js_file s = FJson (JDict d)" "file_entry p s = circuit_entry st t ts"
  shows "get_state p (js_file s) = Inr \<lparr>cv_state = JStr (cs_value st), cv_tripped = JBool t,
     cv_tripped_at_iso = ts, cv_consecutive_errors = JInt 0\<rparr>"
  using get_state_dict[OF assms(1), of p] assms
  by (simp add: file_entry_def circuit_entry_fields jget_or_def jget_def dget_or_def)

lemma half_open_dict:
  assumes "usable s"
  obtains d where "transition_to_half_open env p s = (Inr (), s\<lparr>js_file := FJson (JDict d)\<rparr>)"
    "file_entry p (s\<lparr>js_file := FJson (JDict d)\<rparr>) = circuit_entry CHalfOpen True (JStr (now_iso env))"
  using rmw_jset[OF assms, of p "circuit_entry CHalfOpen True (JStr (now_iso env))"]
  by (auto simp: transition_to_half_open_def)

text \<open>An open entry with a readable time: tripped until the cooldown has passed.\<close>

lemma is_tripped_open:
  assumes u: "usable s" and f: "js_file s = FJson (JDict d)"
    and e: "file_entry p s = circuit_entry COpen True (JStr ts)" and ts: "ts \<noteq> []" "e_iso env ts = Some t0"
  shows "fst (is_tripped env p s) = Inr (e_now env - t0 < of_int (cooldown_s env))"
    "e_now env - t0 \<ge> of_int (cooldown_s env) \<Longrightarrow>
       (\<exists>d'. snd (is_tripped env p s) = s\<lparr>js_file := FJson (JDict d')\<rparr> \<and>
          file_entry p (s\<lparr>js_file := FJson (JDict d')\<rparr>) = circuit_entry CHalfOpen True (JStr (now_iso env)))"
    "e_now env - t0 < of_int (cooldown_s env) \<Longrightarrow> snd (is_tripped env p s) = s"
proof -
  note gs = get_state_entry[OF f e]
  obtain d' where h: "transition_to_half_open env p s = (Inr (), s\<lparr>js_file := FJson (JDict d')\<rparr>)"
    "file_entry p (s\<lparr>js_file := FJson (JDict d')\<rparr>) = circuit_entry CHalfOpen True (JStr (now_iso env))"
    using half_open_dict[OF u] by blast
  have cd: "cooled_down env p (JStr ts) s =
      (if e_now env - t0 \<ge> of_int (cooldown_s env) then (Inr True, s\<lparr>js_file := FJson (JDict d')\<rparr>) else (Inr False, s))"
    using ts h(1) by (simp add: cooled_down_def iso_timestamp_def)
  have it: "is_tripped env p s =
      (if e_now env - t0 \<ge> of_int (cooldown_s env) then (Inr False, s\<lparr>js_file := FJson (JDict d')\<rparr>) else (Inr True, s))"
    using ts(1) by (simp add: is_tripped_def catchS_def gs bindS_def retS_def cd)
  show "fst (is_tripped env p s) = Inr (e_now env - t0 < of_int (cooldown_s env))" by (simp add: it)
  show "e_now env - t0 \<ge> of_int (cooldown_s env) \<Longrightarrow>
       (\<exists>d'. snd (is_tripped env p s) = s\<lparr>js_file := FJson (JDict d')\<rparr> \<and>
          file_entry p (s\<lparr>js_file := FJson (JDict d')\<rparr>) = circuit_entry CHalfOpen True (JStr (now_iso env)))"
    using h(2) by (auto simp: it)
  show "e_now env - t0 < of_int (cooldown_s env) \<Longrightarrow> snd (is_tripped env p s) = s" by (simp add: it)
qed

lemma is_tripped_half_open:
  assumes u: "usable s" and f: "js_file s = FJson (JDict d)"
    and e: "file_entry p s = circuit_entry CHalfOpen True (JStr ts)" and ts: "ts \<noteq> []" "now_iso env \<noteq> []"
  shows "\<exists>d' ts'. is_tripped env p s = (Inr False, s\<lparr>js_file := FJson (JDict d')\<rparr>) \<and> ts' \<noteq> [] \<and>
     file_entry p (s\<lparr>js_file := FJson (JDict d')\<rparr>) = circuit_entry CHalfOpen True (JStr ts')"
proof -
  note gs = get_state_entry[OF f e]
  obtain d' where h: "transition_to_half_open env p s = (Inr (), s\<lparr>js_file := FJson (JDict d')\<rparr>)"
    "file_entry p (s\<lparr>js_file := FJson (JDict d')\<rparr>) = circuit_entry CHalfOpen True (JStr (now_iso env))"
    using half_open_dict[OF u] by blast
  have same: "s\<lparr>js_file := FJson (JDict d)\<rparr> = s" using f by (cases s) simp
  have "cooled_down env p (JStr ts) s = (Inr True, s\<lparr>js_file := FJson (JDict d')\<rparr>) \<or>
      cooled_down env p (JStr ts) s = (Inr False, s)"
    by (auto simp: cooled_down_def h split: sum.splits)
  then have "is_tripped env p s = (Inr False, s\<lparr>js_file := FJson (JDict d')\<rparr>) \<or>
      is_tripped env p s = (Inr False, s\<lparr>js_file := FJson (JDict d)\<rparr>)"
    using ts(1) by (auto simp: is_tripped_def catchS_def gs bindS_def retS_def same)
  then show ?thesis using h(2) e ts same by metis
qed

text \<open>What happens after a trip: checks of the platform at given times, and writes for other platforms.\<close>

datatype later = Check pyfloat | Elsewhere circuit_op

fun checks :: "env \<Rightarrow> string \<Rightarrow> later list \<Rightarrow> json_store \<Rightarrow> (exn + bool) list \<times> json_store" where
  "checks env p [] s = ([], s)"
| "checks env p (Check t # es) s =
     (let (r, s1) = is_tripped (env\<lparr>e_now := t\<rparr>) p s; (rs, s2) = checks env p es s1 in (r # rs, s2))"
| "checks env p (Elsewhere op # es) s = checks env p es (snd (circuit_step op s))"

fun check_times :: "later list \<Rightarrow> pyfloat list" where
  "check_times [] = []"
| "check_times (Check t # es) = t # check_times es"
| "check_times (Elsewhere op # es) = check_times es"

fun later_ok :: "string \<Rightarrow> later \<Rightarrow> bool" where
  "later_ok p (Check t) = (0 \<le> t)"
| "later_ok p (Elsewhere op) = (circuit_target op \<noteq> p)"

lemma elsewhere_step:
  assumes "usable s" "circuit_target op \<noteq> p"
  shows "usable (snd (circuit_step op s))" "file_entry p (snd (circuit_step op s)) = file_entry p s"
  using circuit.step_ok[OF assms(1), of op] circuit.step_other[OF assms(1), of op _ _ p] assms(2) by fastforce+

lemma usable_file: "usable s \<Longrightarrow> file_entry p s = circuit_entry st t ts \<Longrightarrow> \<exists>d. js_file s = FJson (JDict d)"
  by (cases "js_file s") (simp_all add: usable_def file_entry_def circuit_entry_def)

lemma now_iso_nonempty: "iso_ok env \<Longrightarrow> 0 \<le> t \<Longrightarrow> now_iso (env\<lparr>e_now := t\<rparr>) \<noteq> []"
  by (auto simp: iso_ok_def now_iso_def)

lemma cooldown_now [simp]: "cooldown_s (env\<lparr>e_now := t\<rparr>) = cooldown_s env"
  by (simp add: cooldown_s_def env_int_def getenv_def)

text \<open>Half-open, every later check lets traffic pass.\<close>

lemma checks_half_open:
  assumes "iso_ok env" "list_all (later_ok p) es" "usable s"
    "file_entry p s = circuit_entry CHalfOpen True (JStr ts)" "ts \<noteq> []"
  shows "\<exists>s' ts'. checks env p es s = (map (\<lambda>t. Inr False) (check_times es), s') \<and>
    file_entry p s' = circuit_entry CHalfOpen True (JStr ts')"
  using assms(2-)
proof (induction es arbitrary: s ts)
  case (Cons x es)
  show ?case
  proof (cases x)
    case (Check t)
    obtain d where f: "js_file s = FJson (JDict d)" using usable_file[OF Cons.prems(2,3)] by blast
    have "now_iso (env\<lparr>e_now := t\<rparr>) \<noteq> []" using now_iso_nonempty[OF assms(1)] Cons.prems(1) Check by simp
    from is_tripped_half_open[OF Cons.prems(2) f Cons.prems(3,4) this]
    obtain d' ts' where h: "is_tripped (env\<lparr>e_now := t\<rparr>) p s = (Inr False, s\<lparr>js_file := FJson (JDict d')\<rparr>)" "ts' \<noteq> []"
      "file_entry p (s\<lparr>js_file := FJson (JDict d')\<rparr>) = circuit_entry CHalfOpen True (JStr ts')" by blast
    then show ?thesis
      using Cons.IH[OF _ usable_dput[OF Cons.prems(2)] h(3,2)] Cons.prems(1) Check by auto
  next
    case (Elsewhere op)
    then show ?thesis
      using Cons.IH[of "snd (circuit_step op s)" ts] Cons.prems elsewhere_step[OF Cons.prems(2), of op p] by simp
  qed
qed auto

text \<open>The answers of checks at the times \<open>ts\<close>: blocked up to the first check that finds the cooldown over.\<close>

definition blocked_until :: "(pyfloat \<Rightarrow> bool) \<Rightarrow> pyfloat list \<Rightarrow> bool list" where
  "blocked_until inside ts = map (\<lambda>k. \<forall>t \<in> set (take (Suc k) ts). inside t) [0..<length ts]"

lemma blocked_until_Cons:
  "blocked_until inside (t # ts) = (if inside t then True # blocked_until inside ts else False # map (\<lambda>t. False) ts)"
  by (simp add: blocked_until_def map_upt_Suc map_replicate_const del: upt_Suc)

lemma checks_open:
  assumes "iso_ok env" "list_all (later_ok p) es" "usable s" "file_entry p s = circuit_entry COpen True (JStr ts)"
    "ts \<noteq> []" "e_iso env ts = Some t0"
  defines "inside \<equiv> \<lambda>t. t - t0 < of_int (cooldown_s env)"
  shows "\<exists>s' ts'. checks env p es s = (map Inr (blocked_until inside (check_times es)), s') \<and>
    file_entry p s' = circuit_entry (if \<forall>t \<in> set (check_times es). inside t then COpen else CHalfOpen) True (JStr ts')"
  using assms(2-4)
proof (induction es arbitrary: s)
  case Nil
  then show ?case by (auto simp: blocked_until_def)
next
  case (Cons x es)
  show ?case
  proof (cases x)
    case (Check t)
    let ?env = "env\<lparr>e_now := t\<rparr>"
    obtain d where f: "js_file s = FJson (JDict d)" using usable_file[OF Cons.prems(2,3)] by blast
    have iso: "e_iso ?env ts = Some t0" using assms(6) by simp
    note op = is_tripped_open[OF Cons.prems(2) f Cons.prems(3) assms(5) iso]
    have n: "now_iso ?env \<noteq> []" using now_iso_nonempty[OF assms(1)] Cons.prems(1) Check by simp
    show ?thesis
    proof (cases "inside t")
      case True
      then have "is_tripped ?env p s = (Inr True, s)" using op(1,3) by (simp add: inside_def prod_eq_iff)
      then show ?thesis using Cons.IH[OF _ Cons.prems(2,3)] Cons.prems(1) Check True
        by (auto simp: blocked_until_Cons)
    next
      case False
      then obtain d' where h: "snd (is_tripped ?env p s) = s\<lparr>js_file := FJson (JDict d')\<rparr>"
        "file_entry p (s\<lparr>js_file := FJson (JDict d')\<rparr>) = circuit_entry CHalfOpen True (JStr (now_iso ?env))"
        using op(2) by (auto simp: inside_def)
      have r: "is_tripped ?env p s = (Inr False, s\<lparr>js_file := FJson (JDict d')\<rparr>)"
        using op(1) h(1) False by (simp add: inside_def prod_eq_iff)
      from checks_half_open[OF assms(1) _ usable_dput[OF Cons.prems(2)] h(2) n, of es]
      show ?thesis using r False Cons.prems(1) Check by (auto simp: blocked_until_Cons)
    qed
  next
    case (Elsewhere op)
    then show ?thesis
      using Cons.IH[of "snd (circuit_step op s)"] Cons.prems elsewhere_step[OF Cons.prems(2), of op p] by simp
  qed
qed

lemma trip_entry:
  assumes u: "usable s" and iso: "iso_ok env" and now: "0 \<le> e_now env"
  shows "fst (trip env p s) = Inr ()" "usable (snd (trip env p s))"
    "file_entry p (snd (trip env p s)) = circuit_entry COpen True (JStr (now_iso env))" "now_iso env \<noteq> []"
    "e_iso env (now_iso env) = Some (of_int \<lfloor>e_now env\<rfloor>)"
proof -
  obtain d where d: "trip env p s =
      (Inr (), s\<lparr>js_file := FJson (JDict (dput p (circuit_entry COpen True (JStr (now_iso env))) d))\<rparr>)"
    using rmw_jset[OF u, of p "circuit_entry COpen True (JStr (now_iso env))"] by (auto simp: trip_def)
  show "fst (trip env p s) = Inr ()" "usable (snd (trip env p s))"
    "file_entry p (snd (trip env p s)) = circuit_entry COpen True (JStr (now_iso env))"
    using u by (simp_all add: d)
  show "now_iso env \<noteq> []" "e_iso env (now_iso env) = Some (of_int \<lfloor>e_now env\<rfloor>)"
    using iso now by (auto simp: iso_ok_def now_iso_def)
qed

definition demo_store :: json_store where
  "demo_store = \<lparr>js_file = FBad (mkexn JSONDecodeError ''torn''), js_lock = True, js_save = None\<rparr>"



section \<open>Damaged files\<close>

lemma is_tripped_damaged:
  "js_file s = FBad e \<Longrightarrow> isinst e OSErr \<or> isinst e ValueErr \<Longrightarrow> is_tripped env p s = (Inr True, s)"
  by (simp add: is_tripped_def get_state_def read_json_def Let_def catchS_def retS_def)

lemma damaged_file_blocks_all_facts:
  assumes "js_file s = FBad e" "isinst e OSErr \<or> isinst e ValueErr"
  shows "is_tripped env p s = (Inr True, s)" "is_degraded p s = (Inr True, s)"
    "circuit_status env p s = ''unreadable''"
  using assms is_tripped_damaged[OF assms]
  by (simp_all add: get_state_def read_json_def Let_def is_degraded_def circuit_status_def)

text \<open>Fail closed: a state file that cannot be read, decoded or parsed blocks every platform,
  without being touched.\<close>

theorem damaged_file_blocks_all:
  assumes "js_file s = FBad e" "isinst e OSErr \<or> isinst e ValueErr"
  shows "is_tripped env p s = (Inr True, s) \<and> is_degraded p s = (Inr True, s) \<and>
    circuit_status env p s = ''unreadable''"
  using damaged_file_blocks_all_facts[OF assms] by simp

theorem damaged_file_blocks_all_witness:
  "is_tripped env0 ''velog'' demo_store = (Inr True, demo_store)"
  by (rule damaged_file_blocks_all[THEN conjunct1, of _ "mkexn JSONDecodeError ''torn''"]) (simp_all add: demo_store_def)

text \<open>A gap of the fail-closed contract: a file that is valid JSON but not an object makes the
  check raise \<open>AttributeError\<close> instead of blocking, for every platform.\<close>

theorem non_object_file_raises:
  assumes "js_file s = FJson j" "\<forall>d. j \<noteq> JDict d"
  shows "\<exists>m. fst (is_tripped env p s) = Inl (mkexn AttributeErr m)"
    "\<exists>m. fst (is_degraded p s) = Inl (mkexn AttributeErr m)"
proof -
  have "\<exists>m. jdict_of j = Inl (mkexn AttributeErr m)" using assms(2) by (cases j) auto
  then show "\<exists>m. fst (is_tripped env p s) = Inl (mkexn AttributeErr m)"
    "\<exists>m. fst (is_degraded p s) = Inl (mkexn AttributeErr m)"
    using assms(1)
    by (auto simp: is_tripped_def get_state_def read_json_def Let_def catchS_def is_degraded_def)
qed

theorem non_object_file_raises_witness:
  "\<exists>m. fst (is_tripped env0 ''velog'' \<lparr>js_file = FJson (JList []), js_lock = True, js_save = None\<rparr>) = Inl (mkexn AttributeErr m)"
  by (rule non_object_file_raises(1)[of _ "JList []"]) simp_all

section \<open>Success\<close>

text \<open>A recorded success closes the entry but keeps its \<open>tripped\<close> flag: the check lets traffic
  pass, while the channel still reads as degraded and its status as \<open>half-open\<close>, for good. A
  later ban is therefore never announced as a new degradation.\<close>

theorem success_stays_degraded:
  "let s1 = snd (trip env0 ''velog'' \<lparr>js_file = FAbsent, js_lock = True, js_save = None\<rparr>);
       s2 = snd (record_success ''velog'' s1);
       env = env0\<lparr>e_now := 5000\<rparr>
   in fst (record_success ''velog'' s1) = Inr () \<and>
      is_tripped env ''velog'' s2 = (Inr False, s2) \<and>
      fst (is_degraded ''velog'' s2) = Inr True \<and>
      circuit_status env ''velog'' s2 = ''half-open''"
  by code_simp

section \<open>Independence of platforms\<close>

lemma circuit_platforms_independent_facts:
  assumes "usable s"
  shows "file_entry p (circuit.run ops s) =
     fold circuit_effect (filter (\<lambda>op. circuit_target op = p) ops) (file_entry p s)"
    "filter (\<lambda>op. circuit_target op = p) ops = pre @ [op] \<Longrightarrow>
       file_entry p (circuit.run ops s) = circuit_effect op JNull"
proof -
  show "file_entry p (circuit.run ops s) =
     fold circuit_effect (filter (\<lambda>op. circuit_target op = p) ops) (file_entry p s)"
    by (rule circuit.run_entry[OF assms])
  then show "filter (\<lambda>op. circuit_target op = p) ops = pre @ [op] \<Longrightarrow>
       file_entry p (circuit.run ops s) = circuit_effect op JNull"
    by (cases op) simp_all
qed

text \<open>Platforms do not disturb each other: after any interleaving of trips, half-open moves and
  resets of any platforms, the entry of a platform is the one its own last operation wrote.\<close>

theorem circuit_platforms_independent:
  assumes "usable s"
  shows "file_entry p (circuit.run ops s) =
     fold circuit_effect (filter (\<lambda>op. circuit_target op = p) ops) (file_entry p s) \<and>
    (filter (\<lambda>op. circuit_target op = p) ops = pre @ [op] \<longrightarrow>
       file_entry p (circuit.run ops s) = circuit_effect op JNull)"
  using circuit_platforms_independent_facts[OF assms] by blast

theorem circuit_platforms_independent_witness:
  "file_entry ''velog'' (circuit.run [Trip env0 ''velog'', Trip env0 ''devto'', Reset ''velog'', Trip env0 ''medium''] demo_store) =
     circuit_entry CClosed False JNull"
proof -
  have "usable demo_store" by (simp add: usable_def demo_store_def)
  from circuit_platforms_independent[OF this, THEN conjunct2, THEN mp, of "''velog''"
      "[Trip env0 ''velog'', Trip env0 ''devto'', Reset ''velog'', Trip env0 ''medium'']" "[Trip env0 ''velog'']" "Reset ''velog''"]
  show ?thesis by simp
qed

section \<open>The health store\<close>

definition health_entry :: "string \<Rightarrow> json_store \<Rightarrow> jdict" where
  "health_entry p s = (case file_entry p s of JDict d \<Rightarrow> d | _ \<Rightarrow> [])"

text \<open>A health file the updates can work on: every entry is an object whose counter is a number.\<close>

definition healthy :: "json_store \<Rightarrow> bool" where
  "healthy s \<longleftrightarrow> js_lock s \<and> js_save s = None \<and>
     (case js_file s of FAbsent \<Rightarrow> True | FBad e \<Rightarrow> False
      | FJson j \<Rightarrow> (\<exists>d. j = JDict d \<and> (\<forall>p v. dget d p = Some v \<longrightarrow>
          (\<exists>e. v = JDict e \<and> (\<exists>n. jget_or e ''consecutive_failures'' (JInt 0) = JInt n)))))"

datatype health_op = Pause string bool | CountUp string | Clear string

fun health_fn :: "health_op \<Rightarrow> jdict \<Rightarrow> exn + jdict" where
  "health_fn (Pause p b) e = Inr (dput ''paused'' (JBool b) e)"
| "health_fn (CountUp p) e =
     bindR (py_int (jget_or e ''consecutive_failures'' (JInt 0))) (\<lambda>n.
       Inr (dput ''consecutive_failures'' (JInt (n + 1)) e))"
| "health_fn (Clear p) e = Inr (dput ''consecutive_failures'' (JInt 0) e)"

fun health_target :: "health_op \<Rightarrow> string" where
  "health_target (Pause p b) = p" | "health_target (CountUp p) = p" | "health_target (Clear p) = p"

definition health_step :: "health_op \<Rightarrow> unit jact" where
  "health_step op = health_update (health_target op) (health_fn op)"

text \<open>What the reader shows of an entry, and what an operation does to it.\<close>

definition health_view_of :: "string \<Rightarrow> json_store \<Rightarrow> int \<times> bool" where
  "health_view_of p s = (hv_consecutive_failures (health_get p s), hv_paused (health_get p s))"

fun health_effect :: "health_op \<Rightarrow> int \<times> bool \<Rightarrow> int \<times> bool" where
  "health_effect (Pause p b) (n, old) = (n, b)"
| "health_effect (CountUp p) (n, old) = (n + 1, old)"
| "health_effect (Clear p) (n, old) = (0, old)"

lemma healthy_entry:
  assumes "healthy s"
  obtains d e n where "read_state_unsafe (js_file s) = Inr (JDict d)" "jget_or d p (JDict []) = JDict e"
    "jget_or e ''consecutive_failures'' (JInt 0) = JInt n"
    "health_get p s = \<lparr>hv_consecutive_failures = n, hv_paused = truthy (jget_or e ''paused'' (JBool False))\<rparr>"
    "\<forall>p v. dget d p = Some v \<longrightarrow>
          (\<exists>e. v = JDict e \<and> (\<exists>n. jget_or e ''consecutive_failures'' (JInt 0) = JInt n))"
proof -
  obtain d where d: "read_state_unsafe (js_file s) = Inr (JDict d)" "\<forall>p v. dget d p = Some v \<longrightarrow>
          (\<exists>e. v = JDict e \<and> (\<exists>n. jget_or e ''consecutive_failures'' (JInt 0) = JInt n))"
    using assms by (cases "js_file s") (auto simp: healthy_def read_state_unsafe_def)
  obtain e n where e: "jget_or d p (JDict []) = JDict e" "jget_or e ''consecutive_failures'' (JInt 0) = JInt n"
    using d(2)[rule_format, of p] that by (cases "dget d p") (auto simp: jget_or_def dget_or_def)
  have "health_get p s = \<lparr>hv_consecutive_failures = n, hv_paused = truthy (jget_or e ''paused'' (JBool False))\<rparr>"
    using d e by (simp add: health_get_def)
  with d e that show ?thesis by blast
qed

lemma health_fn_entry:
  assumes "jget_or e ''consecutive_failures'' (JInt 0) = JInt n"
  shows "\<exists>e' m. health_fn op e = Inr e' \<and> jget_or e' ''consecutive_failures'' (JInt 0) = JInt m \<and>
     health_effect op (n, truthy (jget_or e ''paused'' (JBool False))) = (m, truthy (jget_or e' ''paused'' (JBool False)))"
  using assms by (cases op) simp_all

interpretation health: entry_store health_view_of health_step health_target health_effect healthy
proof
  fix s op r s' k
  assume h: "healthy s"
  obtain d e n where d: "read_state_unsafe (js_file s) = Inr (JDict d)" "jget_or d (health_target op) (JDict []) = JDict e"
    "jget_or e ''consecutive_failures'' (JInt 0) = JInt n"
    "health_get (health_target op) s = \<lparr>hv_consecutive_failures = n, hv_paused = truthy (jget_or e ''paused'' (JBool False))\<rparr>"
    "\<forall>p v. dget d p = Some v \<longrightarrow>
          (\<exists>e. v = JDict e \<and> (\<exists>n. jget_or e ''consecutive_failures'' (JInt 0) = JInt n))"
    by (rule healthy_entry[OF h, where p = "health_target op"])
  obtain e' m where e': "health_fn op e = Inr e'" "jget_or e' ''consecutive_failures'' (JInt 0) = JInt m"
    "health_effect op (n, truthy (jget_or e ''paused'' (JBool False))) = (m, truthy (jget_or e' ''paused'' (JBool False)))"
    using health_fn_entry[OF d(3), of op] by blast
  let ?s' = "s\<lparr>js_file := FJson (JDict (dput (health_target op) (JDict e') d))\<rparr>"
  have st: "health_step op s = (Inr (), ?s')"
    using h d e' by (simp add: health_step_def health_update_def js_write_def healthy_def py_dict_def)
  have h': "healthy ?s'" using h d(5) e'(2) by (auto simp: healthy_def)
  have own: "health_get (health_target op) ?s' =
      \<lparr>hv_consecutive_failures = m, hv_paused = truthy (jget_or e' ''paused'' (JBool False))\<rparr>"
    using e'(2) by (simp add: health_get_def read_state_unsafe_def)
  have other: "health_get k ?s' = health_get k s" if "k \<noteq> health_target op"
    using that d(1) by (simp add: health_get_def read_state_unsafe_def)
  show "\<exists>r s'. health_step op s = (Inr r, s') \<and> healthy s'" using st h' by blast
  show "health_view_of (health_target op) s' = health_effect op (health_view_of (health_target op) s)"
    if "health_step op s = (Inr r, s')"
    using that st own d(4) e'(3) by (simp add: health_view_of_def)
  show "health_view_of k s' = health_view_of k s" if "health_step op s = (Inr r, s')" "k \<noteq> health_target op"
    using that st other by (simp add: health_view_of_def)
qed

lemma pause_and_count_independent_facts:
  assumes "healthy s"
  shows "health_view_of p (health.run ops s) =
     fold health_effect (filter (\<lambda>op. health_target op = p) ops) (health_view_of p s)"
    "\<forall>op \<in> set ops. \<forall>b. op \<noteq> Pause p b \<Longrightarrow> is_paused p (health.run ops s) = is_paused p s"
proof -
  show *: "health_view_of p (health.run ops s) =
     fold health_effect (filter (\<lambda>op. health_target op = p) ops) (health_view_of p s)"
    by (rule health.run_entry[OF assms])
  have "snd (fold health_effect xs v) = snd v" if "\<forall>op \<in> set xs. \<forall>b. op \<noteq> Pause p b \<and> health_target op = p" for xs v
    using that
  proof (induction xs arbitrary: v)
    case (Cons x xs)
    then show ?case by (cases x; cases v) auto
  qed simp
  then show "is_paused p (health.run ops s) = is_paused p s" if "\<forall>op \<in> set ops. \<forall>b. op \<noteq> Pause p b"
    using * that by (simp add: is_paused_def health_view_of_def) (metis (mono_tags, lifting) mem_Collect_eq set_filter snd_conv)
qed

text \<open>The operator's pause flag survives any interleaving of failure counting and clearing on
  any platforms, and counting survives pausing: after a run each platform shows the flag its
  last pause operation set, and the failures counted since its last clearing.\<close>

theorem pause_and_count_independent:
  assumes "healthy s"
  shows "health_view_of p (health.run ops s) =
     fold health_effect (filter (\<lambda>op. health_target op = p) ops) (health_view_of p s) \<and>
    ((\<forall>b. Pause p b \<notin> set ops) \<longrightarrow> is_paused p (health.run ops s) = is_paused p s)"
  using pause_and_count_independent_facts[OF assms] by metis

theorem pause_and_count_independent_witness:
  "is_paused ''velog'' (health.run [Pause ''velog'' True, CountUp ''velog'', Clear ''devto'', CountUp ''velog'']
     \<lparr>js_file = FAbsent, js_lock = True, js_save = None\<rparr>) = True"
proof -
  have h: "healthy \<lparr>js_file = FAbsent, js_lock = True, js_save = None\<rparr>" by (simp add: healthy_def)
  have "health_view_of ''velog'' \<lparr>js_file = FAbsent, js_lock = True, js_save = None\<rparr> = (0, False)" by code_simp
  then show ?thesis
    using pause_and_count_independent[OF h, THEN conjunct1, of "''velog''" "[Pause ''velog'' True, CountUp ''velog'', Clear ''devto'', CountUp ''velog'']"]
    by (simp add: is_paused_def health_view_of_def)
qed

end
