(* ===== verification/Policy.thy ===== *)
theory Policy
  imports Circuit Dispatch
begin

text \<open>
  The reliability policy around a publish (\<open>reliability/policy.py\<close>): off, observe or enforce by
  environment, the health gate and the circuit gate, and the accounting of outcomes. The
  dispatcher it wraps is an argument; the attempt events and decisions it records are lists.
\<close>

datatype outcome =
    OutSuccess | OutAuthExpired | OutAuthBanned | OutExternalError | OutTransient | OutRateLimited
  | OutHttpError | OutWouldSkipPolicy | OutWouldSkipCircuit

fun outcome_value :: "outcome \<Rightarrow> string" where
  "outcome_value OutSuccess = ''success''"
| "outcome_value OutAuthExpired = ''auth_expired''"
| "outcome_value OutAuthBanned = ''auth_banned''"
| "outcome_value OutExternalError = ''external_error''"
| "outcome_value OutTransient = ''transient''"
| "outcome_value OutRateLimited = ''rate_limited''"
| "outcome_value OutHttpError = ''http_error''"
| "outcome_value OutWouldSkipPolicy = ''would_skip_policy''"
| "outcome_value OutWouldSkipCircuit = ''would_skip_circuit''"

text \<open>A publish-attempt event (durations left out) and a recorded decision.\<close>

record attempt_event =
  ev_platform :: string
  ev_outcome :: string
  ev_error_class :: "string option"

record decision =
  de_platform :: string
  de_decision :: string
  de_mode :: string
  de_reason :: "string option"

text \<open>The world of a policy run. \<open>pw_channel_status\<close> is what the channel-status store returns for
  the platform, \<open>pw_calls\<close> are the payloads handed to the dispatcher.\<close>

record pworld =
  pw_circuit :: json_store
  pw_health :: json_store
  pw_channel_status :: "exn + jdict"
  pw_events :: "attempt_event list"
  pw_decisions :: "decision list"
  pw_legacy_warned :: bool
  pw_calls :: "jdict list"

type_synonym 'a pact = "pworld \<Rightarrow> (exn + 'a) \<times> pworld"

definition on_circuit :: "'a jact \<Rightarrow> 'a pact" where
  "on_circuit m w = (let (r, s) = m (pw_circuit w) in (r, w\<lparr>pw_circuit := s\<rparr>))"

definition on_health :: "'a jact \<Rightarrow> 'a pact" where
  "on_health m w = (let (r, s) = m (pw_health w) in (r, w\<lparr>pw_health := s\<rparr>))"

definition emit_attempt :: "string \<Rightarrow> outcome \<Rightarrow> string option \<Rightarrow> unit pact" where
  "emit_attempt platform out error_class w =
     (Inr (), w\<lparr>pw_events := pw_events w @
        [\<lparr>ev_platform = platform, ev_outcome = outcome_value out, ev_error_class = error_class\<rparr>]\<rparr>)"

definition record_decision :: "string \<Rightarrow> string \<Rightarrow> string \<Rightarrow> string option \<Rightarrow> unit pact" where
  "record_decision platform dec mode reason w =
     (Inr (), w\<lparr>pw_decisions := pw_decisions w @
        [\<lparr>de_platform = platform, de_decision = dec, de_mode = mode, de_reason = reason\<rparr>]\<rparr>)"

section \<open>Configuration from the environment\<close>

definition POLICY_ENV :: string where
  "POLICY_ENV = ''BACKLINK_PUBLISHER_RELIABILITY_POLICY_ENABLED''"
definition ENFORCE_ALLOWLIST_ENV :: string where
  "ENFORCE_ALLOWLIST_ENV = ''BACKLINK_PUBLISHER_RELIABILITY_ENFORCE_CHANNELS''"
definition AUTH_THRESHOLD_ENV :: string where
  "AUTH_THRESHOLD_ENV = ''BACKLINK_PUBLISHER_CIRCUIT_AUTH_THRESHOLD''"
definition ERROR_THRESHOLD_ENV :: string where
  "ERROR_THRESHOLD_ENV = ''BACKLINK_PUBLISHER_CIRCUIT_ERROR_THRESHOLD''"
definition LEGACY_CONSECUTIVE_ENV :: string where
  "LEGACY_CONSECUTIVE_ENV = ''BACKLINK_PUBLISHER_CIRCUIT_CONSECUTIVE_ERRORS''"

definition BROWSER_TIER :: "string list" where
  "BROWSER_TIER = [''medium'', ''velog'', ''devto'', ''mastodon'']"

definition env_or_empty :: "env \<Rightarrow> string \<Rightarrow> string" where
  "env_or_empty env name = (case getenv env name of None \<Rightarrow> [] | Some s \<Rightarrow> s)"

definition policy_mode :: "env \<Rightarrow> string" where
  "policy_mode env =
     (let val = lower (strip (env_or_empty env POLICY_ENV))
      in if val = ''1'' \<or> val = ''enforce'' then ''enforce''
         else if val = ''observe'' then ''observe''
         else ''off'')"

definition policy_enabled :: "env \<Rightarrow> bool" where
  "policy_enabled env \<longleftrightarrow> policy_mode env \<noteq> ''off''"

definition enforce_allowlist :: "env \<Rightarrow> string list" where
  "enforce_allowlist env =
     filter (\<lambda>c. c \<noteq> []) (map strip (split_on CHR '','' (env_or_empty env ENFORCE_ALLOWLIST_ENV)))"

definition enforcing_for :: "env \<Rightarrow> string \<Rightarrow> bool" where
  "enforcing_for env platform \<longleftrightarrow>
     policy_mode env = ''enforce'' \<and> platform \<in> set (enforce_allowlist env)"

definition is_browser_tier :: "string \<Rightarrow> bool" where
  "is_browser_tier platform \<longleftrightarrow> platform \<in> set BROWSER_TIER"

definition threshold :: "env \<Rightarrow> string \<Rightarrow> int \<Rightarrow> int" where
  "threshold env name dflt =
     (case getenv env name of
        None \<Rightarrow> max 1 dflt
      | Some s \<Rightarrow> (case int_of_str s of None \<Rightarrow> dflt | Some n \<Rightarrow> max 1 n))"

definition warn_legacy_consecutive_env_once :: "env \<Rightarrow> unit pact" where
  "warn_legacy_consecutive_env_once env w =
     (if pw_legacy_warned w then (Inr (), w)
      else if getenv env LEGACY_CONSECUTIVE_ENV \<noteq> None then (Inr (), w\<lparr>pw_legacy_warned := True\<rparr>)
      else (Inr (), w))"

section \<open>Accounting\<close>

definition reset_failures :: "string \<Rightarrow> unit pact" where
  "reset_failures platform =
     catchS [ExceptionClass]
       (on_health (health_update platform (\<lambda>e. Inr (dput ''consecutive_failures'' (JInt 0) e))))
       (\<lambda>e. retS ())"

text \<open>The counter after the increment, or \<open>None\<close> where the health store failed.\<close>

definition count_failure :: "string \<Rightarrow> (int option) pact" where
  "count_failure platform =
     catchS [ExceptionClass]
       (bindS (on_health (health_update platform (\<lambda>e.
                 bindR (py_int (jget_or e ''consecutive_failures'' (JInt 0))) (\<lambda>n.
                   Inr (dput ''consecutive_failures'' (JInt (n + 1)) e)))))
          (\<lambda>u w. (Inr (Some (hv_consecutive_failures (health_get platform (pw_health w)))), w)))
       (\<lambda>e. retS None)"

definition record_failure_and_maybe_trip :: "env \<Rightarrow> string \<Rightarrow> int \<Rightarrow> unit pact" where
  "record_failure_and_maybe_trip env platform thr =
     bindS (count_failure platform) (\<lambda>count.
       case count of
         None \<Rightarrow> retS ()
       | Some n \<Rightarrow>
           if n \<ge> thr
           then bindS (on_circuit (trip env platform)) (\<lambda>u.
                bindS (reset_failures platform) (\<lambda>u.
                  record_decision platform ''degraded'' (policy_mode env) (Some ''circuit_trip'')))
           else retS ())"

definition skip_result :: "string \<Rightarrow> string \<Rightarrow> string \<Rightarrow> adapter_result" where
  "skip_result status platform err = (new_result status ''policy'' platform)\<lparr>ar_error := Some err\<rparr>"

definition enforce_circuit_skip :: "env \<Rightarrow> string \<Rightarrow> (adapter_result option) pact" where
  "enforce_circuit_skip env platform w =
     (let status = circuit_status env platform (pw_circuit w)
      in if status = ''open''
         then bindS (record_decision platform ''skipped_circuit_open'' ''enforce'' None)
                (\<lambda>u. retS (Some (skip_result ''skipped_circuit_open'' platform
                          (''circuit open for '' @ platform)))) w
         else if status = ''unreadable''
         then bindS (record_decision platform ''circuit_state_unreadable'' ''enforce'' (Some ''degrade_to_observe''))
                (\<lambda>u. retS None) w
         else retS None w)"

section \<open>Publishing under the policy\<close>

text \<open>The health gate: \<open>Some\<close> result where the publish is skipped.\<close>

definition channel_status :: "env \<Rightarrow> pworld \<Rightarrow> string" where
  "channel_status env w =
     (case pw_channel_status w of
        Inl e \<Rightarrow> ''unbound''
      | Inr d \<Rightarrow> py_str env (jget_or d ''status'' (JStr ''unbound'')))"

definition health_gate :: "env \<Rightarrow> string \<Rightarrow> bool \<Rightarrow> (adapter_result option) pact" where
  "health_gate env platform enforcing w =
     (if \<not> is_browser_tier platform then retS None w
      else if channel_status env w = ''bound'' then retS None w
      else if enforcing
      then bindS (record_decision platform ''skipped_policy'' ''enforce'' None)
             (\<lambda>u. retS (Some (skip_result ''skipped_policy'' platform
                       (''channel not bound (status='' @ py_repr (channel_status env w) @ '')'')))) w
      else bindS (emit_attempt platform OutWouldSkipPolicy (Some (''channel_status='' @ channel_status env w)))
             (\<lambda>u. bindS (record_decision platform ''would_skip_policy'' ''observe'' None)
             (\<lambda>u. retS None)) w)"

definition circuit_gate :: "env \<Rightarrow> string \<Rightarrow> bool \<Rightarrow> (adapter_result option) pact" where
  "circuit_gate env platform enforcing =
     bindS (on_circuit (is_tripped env platform)) (\<lambda>tripped.
       if \<not> tripped then retS None
       else if enforcing then enforce_circuit_skip env platform
       else bindS (emit_attempt platform OutWouldSkipCircuit None)
              (\<lambda>u. bindS (record_decision platform ''would_skip_circuit'' ''observe'' None)
              (\<lambda>u. retS None)))"

definition call_adapter :: "(jdict \<Rightarrow> exn + adapter_result) \<Rightarrow> jdict \<Rightarrow> adapter_result pact" where
  "call_adapter publish payload w = (publish payload, w\<lparr>pw_calls := pw_calls w @ [payload]\<rparr>)"

text \<open>The \<open>try\<close> body: the dispatch and the success bookkeeping share the \<open>except\<close> arms.\<close>

definition attempt :: "(jdict \<Rightarrow> exn + adapter_result) \<Rightarrow> string \<Rightarrow> jdict \<Rightarrow> adapter_result pact" where
  "attempt publish platform payload =
     bindS (call_adapter publish payload) (\<lambda>result.
     bindS (on_circuit (record_success platform)) (\<lambda>u.
     bindS (emit_attempt platform OutSuccess None) (\<lambda>u.
     bindS (reset_failures platform) (\<lambda>u. retS result))))"

definition on_auth_expired :: "env \<Rightarrow> string \<Rightarrow> exn \<Rightarrow> unit pact" where
  "on_auth_expired env platform e =
     (if is_ban_signal e
      then bindS (on_circuit (is_degraded platform)) (\<lambda>degraded.
           bindS (on_circuit (trip env platform)) (\<lambda>u.
           bindS (reset_failures platform) (\<lambda>u.
           bindS (emit_attempt platform OutAuthBanned None) (\<lambda>u.
             if \<not> degraded
             then record_decision platform ''degraded'' (policy_mode env) (Some ''ban'')
             else retS ()))))
      else bindS (emit_attempt platform OutAuthExpired None) (\<lambda>u.
             record_failure_and_maybe_trip env platform (threshold env AUTH_THRESHOLD_ENV 3)))"

definition handle_failure :: "env \<Rightarrow> string \<Rightarrow> exn \<Rightarrow> adapter_result pact" where
  "handle_failure env platform e =
     (if isinst e AuthExpiredError
      then bindS (on_auth_expired env platform e) (\<lambda>u. raiseS e)
      else if isinst e ExternalServiceError
      then bindS (emit_attempt platform OutExternalError None) (\<lambda>u.
           bindS (record_failure_and_maybe_trip env platform (threshold env ERROR_THRESHOLD_ENV 5))
             (\<lambda>u. raiseS e))
      else bindS (emit_attempt platform OutTransient
                    (Some (case e of Exn c m b ch \<Rightarrow> exc_name c | SysExit n \<Rightarrow> ''SystemExit'')))
             (\<lambda>u. raiseS e))"

definition publish_with_policy ::
  "env \<Rightarrow> (jdict \<Rightarrow> exn + adapter_result) \<Rightarrow> string \<Rightarrow> jdict \<Rightarrow> adapter_result pact" where
  "publish_with_policy env publish platform payload =
     (let full_payload = dput ''platform'' (JStr platform) payload;
          enforcing = enforcing_for env platform
      in if \<not> policy_enabled env then call_adapter publish full_payload
         else bindS (warn_legacy_consecutive_env_once env) (\<lambda>u.
              bindS (health_gate env platform enforcing) (\<lambda>skip1.
              case skip1 of
                Some r \<Rightarrow> retS r
              | None \<Rightarrow>
                  bindS (circuit_gate env platform enforcing) (\<lambda>skip2.
                  case skip2 of
                    Some r \<Rightarrow> retS r
                  | None \<Rightarrow>
                      catchS [ExceptionClass] (attempt publish platform full_payload)
                        (handle_failure env platform)))))"

end
