(* ===== verification/Policy_Facts.thy ===== *)
theory Policy_Facts
  imports Policy Circuit_Facts
begin

text \<open>
  What the reliability policy guarantees around a publish: one dispatch per call unless enforce
  mode skips an allowlisted channel, the error of the adapter or the value it returned and no
  other, the consecutive-failure trip; and how success bookkeeping can hide a success.
\<close>

section \<open>Dispatch or skip\<close>

lemma on_circuit_calls: "on_circuit m w = (r, w') \<Longrightarrow> pw_calls w' = pw_calls w"
  by (auto simp: on_circuit_def split: prod.splits)

lemma on_health_calls: "on_health m w = (r, w') \<Longrightarrow> pw_calls w' = pw_calls w"
  by (auto simp: on_health_def split: prod.splits)

definition no_call :: "'a pact \<Rightarrow> bool" where
  "no_call m \<longleftrightarrow> (\<forall>w. pw_calls (snd (m w)) = pw_calls w)"

named_theorems no_calls \<open>actions that do not dispatch\<close>

lemma no_callD: "no_call m \<Longrightarrow> m w = (r, w') \<Longrightarrow> pw_calls w' = pw_calls w"
  by (metis no_call_def snd_conv)

lemma no_call_basic [no_calls]:
  "no_call (retS a)" "no_call (raiseS e)" "no_call (emit_attempt p out c)" "no_call (record_decision p d mode why)"
  "no_call (on_circuit m)" "no_call (on_health m2)" "no_call (warn_legacy_consecutive_env_once env)"
  by (auto simp: no_call_def retS_def raiseS_def emit_attempt_def record_decision_def on_circuit_def
      on_health_def warn_legacy_consecutive_env_once_def split: prod.splits)

lemma no_call_bind [no_calls]: "no_call m \<Longrightarrow> (\<And>a. no_call (f a)) \<Longrightarrow> no_call (bindS m f)"
  unfolding no_call_def bindS_def by (auto split: prod.splits sum.splits) (metis snd_conv)+

lemma no_call_catch [no_calls]: "no_call m \<Longrightarrow> (\<And>e. no_call (h e)) \<Longrightarrow> no_call (catchS cs m h)"
  unfolding no_call_def catchS_def by (auto split: prod.splits sum.splits) (metis snd_conv)+

lemma no_call_accounting [no_calls]:
  "no_call (reset_failures p)" "no_call (count_failure p)"
  unfolding reset_failures_def count_failure_def
  by (intro no_calls; auto simp: no_call_def)+

lemma no_call_maybe_trip [no_calls]: "no_call (record_failure_and_maybe_trip env p thr)"
  unfolding record_failure_and_maybe_trip_def
  by (intro no_calls) (auto intro!: no_calls split: option.splits)

lemma no_call_auth [no_calls]: "no_call (on_auth_expired env p e)"
  unfolding on_auth_expired_def by (auto intro!: no_calls)

lemma no_call_handle [no_calls]: "no_call (handle_failure env p e)"
  unfolding handle_failure_def by (auto intro!: no_calls)

lemma no_call_skip [no_calls]: "no_call (enforce_circuit_skip env p)"
  unfolding no_call_def enforce_circuit_skip_def Let_def
  by (auto simp: bindS_def record_decision_def retS_def)

lemma no_call_gates [no_calls]: "no_call (health_gate env p b)" "no_call (circuit_gate env p b)"
proof -
  show "no_call (health_gate env p b)"
    unfolding no_call_def health_gate_def
    by (auto simp: bindS_def record_decision_def emit_attempt_def retS_def)
  show "no_call (circuit_gate env p b)"
    unfolding circuit_gate_def by (auto intro!: no_calls)
qed

text \<open>A gate gives a result only where it enforces.\<close>

lemma health_gate_result:
  "health_gate env p b w = (r, w') \<Longrightarrow>
     r = Inr None \<or> b \<and> (\<exists>x. r = Inr (Some x) \<and> ar_status x = ''skipped_policy'')"
  by (auto simp: health_gate_def bindS_def record_decision_def emit_attempt_def retS_def
      skip_result_def new_result_def split: if_splits)

lemma circuit_gate_result:
  "circuit_gate env p b w = (r, w') \<Longrightarrow>
     r = Inr None \<or> b \<and> (\<exists>x. r = Inr (Some x) \<and> ar_status x = ''skipped_circuit_open'') \<or>
     (\<exists>e. r = Inl e \<and> fst (is_tripped env p (pw_circuit w)) = Inl e)"
  by (auto simp: circuit_gate_def bindS_def record_decision_def emit_attempt_def retS_def on_circuit_def
      enforce_circuit_skip_def skip_result_def new_result_def Let_def split: if_splits prod.splits sum.splits)

lemma handle_failure_raises: "\<exists>e'. fst (handle_failure env p e w) = Inl e'"
  by (auto simp: handle_failure_def bindS_def raiseS_def split: prod.splits sum.splits)

lemma attempt_calls: "pw_calls (snd (attempt publish p payload w)) = pw_calls w @ [payload]"
proof -
  have "no_call (\<lambda>w. bindS (on_circuit (record_success p)) (\<lambda>u.
     bindS (emit_attempt p OutSuccess None) (\<lambda>u. bindS (reset_failures p) (\<lambda>u. retS result))) w)" for result :: adapter_result
    by (intro no_calls)
  then show ?thesis
    by (auto simp: attempt_def call_adapter_def bindS_def[of "\<lambda>w. (publish payload, _ w)"] no_call_def
        bindS_def[of "call_adapter _ _"] split: sum.splits)
qed

lemma attempt_result: "fst (attempt publish p payload w) = Inr x \<Longrightarrow> publish payload = Inr x"
  by (auto simp: attempt_def call_adapter_def bindS_def retS_def split: prod.splits sum.splits)

text \<open>The dispatching part: exactly one call, and no value but the dispatcher's.\<close>

lemma guarded_attempt:
  assumes "catchS [ExceptionClass] (attempt publish p full) (handle_failure env p) w = (r, w')"
  shows "pw_calls w' = pw_calls w @ [full]" "r = Inr x \<Longrightarrow> publish full = Inr x"
proof -
  obtain a w4 where a: "attempt publish p full w = (a, w4)" by (cases "attempt publish p full w")
  have c4: "pw_calls w4 = pw_calls w @ [full]" using attempt_calls[of publish p full w] a by simp
  have "pw_calls w' = pw_calls w4 \<and> (\<forall>x. r = Inr x \<longrightarrow> publish full = Inr x)"
  proof (cases a)
    case (Inr x)
    then show ?thesis using assms a attempt_result[of publish p full w x] by (auto simp: catchS_def)
  next
    case (Inl e)
    have "r = Inl e \<and> w' = w4 \<or> handle_failure env p e w4 = (r, w')"
      using assms a Inl by (auto simp: catchS_def split: if_splits)
    then show ?thesis
      using no_callD[OF no_call_handle] handle_failure_raises[of env p e w4] by fastforce
  qed
  then show "pw_calls w' = pw_calls w @ [full]" "r = Inr x \<Longrightarrow> publish full = Inr x" using c4 by simp_all
qed

text \<open>With the policy on, a run is the two gates and then the dispatch.\<close>

lemma policy_run_cases:
  assumes "publish_with_policy env publish p payload w = (r, w')" "policy_enabled env"
  obtains (skipped) x w1 where "health_gate env p (enforcing_for env p) w1 = (Inr (Some x), w')" "r = Inr x"
        "pw_calls w1 = pw_calls w"
    | (gated) g2 w2 w3 where "circuit_gate env p (enforcing_for env p) w2 = (g2, w3)"
        "pw_calls w2 = pw_calls w" "pw_circuit w2 = pw_circuit w"
        "(case g2 of Inl e \<Rightarrow> r = Inl e \<and> w' = w3 | Inr (Some x) \<Rightarrow> r = Inr x \<and> w' = w3
          | Inr None \<Rightarrow> catchS [ExceptionClass] (attempt publish p (dput ''platform'' (JStr p) payload))
                         (handle_failure env p) w3 = (r, w'))"
proof -
  let ?enf = "enforcing_for env p" and ?full = "dput ''platform'' (JStr p) payload"
  have run: "bindS (warn_legacy_consecutive_env_once env) (\<lambda>u.
            bindS (health_gate env p ?enf) (\<lambda>skip1. case skip1 of
              Some r \<Rightarrow> retS r
            | None \<Rightarrow> bindS (circuit_gate env p ?enf) (\<lambda>skip2. case skip2 of
                  Some r \<Rightarrow> retS r
                | None \<Rightarrow> catchS [ExceptionClass] (attempt publish p ?full) (handle_failure env p)))) w = (r, w')"
    using assms unfolding publish_with_policy_def Let_def by simp
  have "\<exists>w1. warn_legacy_consecutive_env_once env w = (Inr (), w1) \<and> pw_circuit w1 = pw_circuit w"
    by (simp add: warn_legacy_consecutive_env_once_def)
  then obtain w1 where w1: "warn_legacy_consecutive_env_once env w = (Inr (), w1)" "pw_circuit w1 = pw_circuit w"
    by blast
  obtain g1 w2 where g1: "health_gate env p ?enf w1 = (g1, w2)" by (cases "health_gate env p ?enf w1")
  have circ: "pw_circuit w2 = pw_circuit w"
    using g1 w1(2) by (auto simp: health_gate_def bindS_def record_decision_def emit_attempt_def retS_def split: if_splits)
  obtain g2 w3 where g2: "circuit_gate env p ?enf w2 = (g2, w3)" by (cases "circuit_gate env p ?enf w2")
  have c: "pw_calls w1 = pw_calls w" "pw_calls w2 = pw_calls w"
    using no_callD[OF no_call_basic(7) w1(1)] no_callD[OF no_call_gates(1) g1] by simp_all
  show ?thesis
    using health_gate_result[OF g1]
  proof
    assume "?enf \<and> (\<exists>x. g1 = Inr (Some x) \<and> ar_status x = ''skipped_policy'')"
    then obtain x where x: "g1 = Inr (Some x)" by blast
    then have "r = Inr x" "w' = w2" using run w1(1) g1 by (simp_all add: bindS_def retS_def)
    then show ?thesis using skipped[of w1 x] g1 x c(1) by simp
  next
    assume n: "g1 = Inr None"
    have "case g2 of Inl e \<Rightarrow> r = Inl e \<and> w' = w3 | Inr (Some x) \<Rightarrow> r = Inr x \<and> w' = w3
          | Inr None \<Rightarrow> catchS [ExceptionClass] (attempt publish p ?full) (handle_failure env p) w3 = (r, w')"
      using run w1(1) g1 n g2 by (auto simp: bindS_def retS_def split: sum.splits option.splits)
    then show ?thesis by (rule gated[OF g2 c(2) circ])
  qed
qed

lemma policy_dispatches_once_facts:
  fixes payload :: jdict and p :: string
  assumes "publish_with_policy env publish p payload w = (r, w')"
  defines "full \<equiv> dput ''platform'' (JStr p) payload"
  shows "pw_calls w' = pw_calls w @ [full] \<and> (\<forall>x. r = Inr x \<longrightarrow> publish full = Inr x) \<or>
     pw_calls w' = pw_calls w \<and>
       (enforcing_for env p \<and> (\<exists>x. r = Inr x \<and> ar_status x \<in> {''skipped_policy'', ''skipped_circuit_open''}) \<or>
        (\<exists>e. r = Inl e \<and> fst (is_tripped env p (pw_circuit w)) = Inl e))"
    "\<not> policy_enabled env \<Longrightarrow> r = publish full \<and> w' = w\<lparr>pw_calls := pw_calls w @ [full]\<rparr>"
proof -
  show off: "\<not> policy_enabled env \<Longrightarrow> r = publish full \<and> w' = w\<lparr>pw_calls := pw_calls w @ [full]\<rparr>"
    using assms by (simp add: publish_with_policy_def call_adapter_def)
  show "pw_calls w' = pw_calls w @ [full] \<and> (\<forall>x. r = Inr x \<longrightarrow> publish full = Inr x) \<or>
     pw_calls w' = pw_calls w \<and>
       (enforcing_for env p \<and> (\<exists>x. r = Inr x \<and> ar_status x \<in> {''skipped_policy'', ''skipped_circuit_open''}) \<or>
        (\<exists>e. r = Inl e \<and> fst (is_tripped env p (pw_circuit w)) = Inl e))"
  proof (cases "policy_enabled env")
    case False
    then show ?thesis using off by simp
  next
    case True
    from assms(1) True show ?thesis
    proof (cases rule: policy_run_cases)
      case (skipped x w1)
      then show ?thesis
        using health_gate_result[OF skipped(1)] no_callD[OF no_call_gates(1) skipped(1)] by auto
    next
      case (gated g2 w2 w3)
      have c3: "pw_calls w3 = pw_calls w" using no_callD[OF no_call_gates(2) gated(1)] gated(2) by simp
      show ?thesis
        using circuit_gate_result[OF gated(1)] gated(3,4) c3 guarded_attempt[of publish p full env w3 r w']
        by (auto simp: full_def)
    qed
  qed
qed

definition demo_pworld :: "json_file \<Rightarrow> pworld" where
  "demo_pworld f = \<lparr>pw_circuit = \<lparr>js_file = f, js_lock = True, js_save = None\<rparr>, pw_health = \<lparr>js_file = FAbsent, js_lock = True, js_save = None\<rparr>,
     pw_channel_status = Inr [(''status'', JStr ''bound'')], pw_events = [], pw_decisions = [],
     pw_legacy_warned = False, pw_calls = []\<rparr>"

definition observe_env :: env where
  "observe_env = env0\<lparr>e_environ := [(POLICY_ENV, ''observe'')]\<rparr>"

definition published :: "jdict \<Rightarrow> exn + adapter_result" where
  "published payload = Inr (new_result ''published'' ''velog-graphql'' ''velog'')"

text \<open>A call of the policy hands the full payload to the dispatcher exactly once, or not at
  all; and it skips only in enforce mode for an allowlisted channel, with a skip status as the
  result, or because the circuit check itself raised. A returned value is a skip or the
  dispatcher's own; with the policy off the call is the dispatcher's, with no other effect.\<close>

theorem policy_dispatches_once:
  fixes payload :: jdict and p :: string
  assumes "publish_with_policy env publish p payload w = (r, w')"
  defines "full \<equiv> dput ''platform'' (JStr p) payload"
  shows "(pw_calls w' = pw_calls w @ [full] \<and> (\<forall>x. r = Inr x \<longrightarrow> publish full = Inr x) \<or>
     pw_calls w' = pw_calls w \<and>
       (enforcing_for env p \<and> (\<exists>x. r = Inr x \<and> ar_status x \<in> {''skipped_policy'', ''skipped_circuit_open''}) \<or>
        (\<exists>e. r = Inl e \<and> fst (is_tripped env p (pw_circuit w)) = Inl e))) \<and>
    (\<not> policy_enabled env \<longrightarrow> r = publish full \<and> w' = w\<lparr>pw_calls := pw_calls w @ [full]\<rparr>)"
  using policy_dispatches_once_facts[OF assms(1)] unfolding full_def by simp

theorem policy_dispatches_once_witness:
  "pw_calls (snd (publish_with_policy observe_env published ''velog'' [] (demo_pworld FAbsent))) =
     [[(''platform'', JStr ''velog'')]]"
proof -
  obtain r w' where run: "publish_with_policy observe_env published ''velog'' [] (demo_pworld FAbsent) = (r, w')"
    by (cases "publish_with_policy observe_env published ''velog'' [] (demo_pworld FAbsent)")
  have "\<not> enforcing_for observe_env ''velog''" by code_simp
  moreover have "fst (is_tripped observe_env ''velog'' (pw_circuit (demo_pworld FAbsent))) = Inr False" by code_simp
  ultimately show ?thesis using policy_dispatches_once[OF run, THEN conjunct1] run by (auto simp: demo_pworld_def)
qed

section \<open>Consecutive failures\<close>

lemma count_failure_step:
  assumes "healthy (pw_health w)"
  shows "\<exists>w1. count_failure p w = (Inr (Some (hv_consecutive_failures (health_get p (pw_health w)) + 1)), w1) \<and>
     w1 = w\<lparr>pw_health := snd (health_step (CountUp p) (pw_health w))\<rparr> \<and> healthy (pw_health w1)"
proof -
  obtain r s' where st: "health_step (CountUp p) (pw_health w) = (Inr r, s')" "healthy s'"
    using health.step_ok[OF assms TrueI, of "CountUp p"] by blast
  have fn: "health_update p (\<lambda>e. bindR (py_int (jget_or e ''consecutive_failures'' (JInt 0))) (\<lambda>n.
                   Inr (dput ''consecutive_failures'' (JInt (n + 1)) e))) = health_step (CountUp p)"
    unfolding health_step_def health_target.simps by (rule arg_cong[where f = "health_update p"], rule ext) simp
  have "hv_consecutive_failures (health_get p s') = hv_consecutive_failures (health_get p (pw_health w)) + 1"
    using health.step_own[OF assms TrueI st(1)] by (simp add: health_view_of_def)
  then show ?thesis
    using st by (simp add: count_failure_def catchS_def bindS_def on_health_def fn)
qed

lemma reset_failures_step:
  assumes "healthy (pw_health w)"
  shows "reset_failures p w = (Inr (), w\<lparr>pw_health := snd (health_step (Clear p) (pw_health w))\<rparr>)"
proof -
  obtain r s' where st: "health_step (Clear p) (pw_health w) = (Inr r, s')"
    using health.step_ok[OF assms TrueI, of "Clear p"] by blast
  have fn: "health_update p (\<lambda>e. Inr (dput ''consecutive_failures'' (JInt 0) e)) = health_step (Clear p)"
    unfolding health_step_def health_target.simps by (rule arg_cong[where f = "health_update p"], rule ext) simp
  show ?thesis using st by (simp add: reset_failures_def catchS_def on_health_def fn)
qed

lemma failure_trips_at_threshold_facts:
  fixes n :: int and p :: string
  assumes h: "healthy (pw_health w)" and u: "usable (pw_circuit w)"
    and run: "record_failure_and_maybe_trip env p thr w = (r, w')"
  defines "n \<equiv> hv_consecutive_failures (health_get p (pw_health w))"
  shows "r = Inr ()" "is_paused p (pw_health w') = is_paused p (pw_health w)"
    "n + 1 < thr \<Longrightarrow> hv_consecutive_failures (health_get p (pw_health w')) = n + 1 \<and>
       pw_circuit w' = pw_circuit w \<and> pw_decisions w' = pw_decisions w"
    "thr \<le> n + 1 \<Longrightarrow> hv_consecutive_failures (health_get p (pw_health w')) = 0 \<and>
       file_entry p (pw_circuit w') = circuit_entry COpen True (JStr (now_iso env)) \<and>
       length (pw_decisions w') = length (pw_decisions w) + 1"
proof -
  obtain w1 where w1: "count_failure p w = (Inr (Some (n + 1)), w1)"
    "w1 = w\<lparr>pw_health := snd (health_step (CountUp p) (pw_health w))\<rparr>" "healthy (pw_health w1)"
    using count_failure_step[OF h] by (auto simp: n_def)
  have v1: "health_view_of p (pw_health w1) = (n + 1, is_paused p (pw_health w))"
    using health.step_own[OF h, of "CountUp p"] health.step_ok[OF h TrueI, of "CountUp p"] w1(2)
    by (auto simp: health_view_of_def is_paused_def n_def)
  have *: "r = Inr () \<and> (if n + 1 < thr then w' = w1
      else health_view_of p (pw_health w') = (0, is_paused p (pw_health w)) \<and>
       file_entry p (pw_circuit w') = circuit_entry COpen True (JStr (now_iso env)) \<and>
       length (pw_decisions w') = length (pw_decisions w) + 1)"
  proof (cases "n + 1 < thr")
    case True
    then show ?thesis using run w1(1) by (simp add: record_failure_and_maybe_trip_def bindS_def retS_def)
  next
    case False
    obtain d where t: "trip env p (pw_circuit w1) = (Inr (), d)"
      "file_entry p d = circuit_entry COpen True (JStr (now_iso env))"
      using circuit.step_ok[OF u, of "Trip env p"] circuit.step_own[OF u, of "Trip env p"] w1(2) by auto
    let ?w2 = "w1\<lparr>pw_circuit := d\<rparr>"
    have rs: "reset_failures p ?w2 = (Inr (), ?w2\<lparr>pw_health := snd (health_step (Clear p) (pw_health w1))\<rparr>)"
      using reset_failures_step[of ?w2 p] w1(3) by simp
    have "health_view_of p (snd (health_step (Clear p) (pw_health w1))) = (0, is_paused p (pw_health w))"
      using health.step_own[OF w1(3), of "Clear p"] health.step_ok[OF w1(3) TrueI, of "Clear p"] v1 by auto
    then show ?thesis
      using run False w1(1,2) t rs
      by (auto simp: record_failure_and_maybe_trip_def bindS_def on_circuit_def record_decision_def)
  qed
  show "r = Inr ()" using * by simp
  show "is_paused p (pw_health w') = is_paused p (pw_health w)"
    using * v1 by (cases "n + 1 < thr") (auto simp: health_view_of_def is_paused_def)
  show "n + 1 < thr \<Longrightarrow> hv_consecutive_failures (health_get p (pw_health w')) = n + 1 \<and>
       pw_circuit w' = pw_circuit w \<and> pw_decisions w' = pw_decisions w"
    using * v1 w1(2) by (auto simp: health_view_of_def)
  show "thr \<le> n + 1 \<Longrightarrow> hv_consecutive_failures (health_get p (pw_health w')) = 0 \<and>
       file_entry p (pw_circuit w') = circuit_entry COpen True (JStr (now_iso env)) \<and>
       length (pw_decisions w') = length (pw_decisions w) + 1"
    using * by (auto simp: health_view_of_def split: if_splits)
qed

text \<open>Consecutive failures: with working stores, a counted failure below the threshold only
  raises the platform's counter by one and leaves the circuit alone; the one that reaches the
  threshold opens the circuit, clears the counter and records one \<open>degraded\<close> decision. The pause
  flag stays either way.\<close>

theorem failure_trips_at_threshold:
  fixes n :: int and p :: string
  assumes "healthy (pw_health w)" "usable (pw_circuit w)"
    "record_failure_and_maybe_trip env p thr w = (r, w')"
  defines "n \<equiv> hv_consecutive_failures (health_get p (pw_health w))"
  shows "r = Inr () \<and> is_paused p (pw_health w') = is_paused p (pw_health w) \<and>
    (n + 1 < thr \<longrightarrow> hv_consecutive_failures (health_get p (pw_health w')) = n + 1 \<and>
       pw_circuit w' = pw_circuit w \<and> pw_decisions w' = pw_decisions w) \<and>
    (thr \<le> n + 1 \<longrightarrow> hv_consecutive_failures (health_get p (pw_health w')) = 0 \<and>
       file_entry p (pw_circuit w') = circuit_entry COpen True (JStr (now_iso env)) \<and>
       length (pw_decisions w') = length (pw_decisions w) + 1)"
  using failure_trips_at_threshold_facts[OF assms(1-3)] unfolding n_def by simp

theorem failure_trips_at_threshold_witness:
  "file_entry ''velog'' (pw_circuit (snd (record_failure_and_maybe_trip env0 ''velog'' 1 (demo_pworld FAbsent)))) =
     circuit_entry COpen True (JStr (now_iso env0))"
proof -
  obtain r w' where run: "record_failure_and_maybe_trip env0 ''velog'' 1 (demo_pworld FAbsent) = (r, w')"
    by (cases "record_failure_and_maybe_trip env0 ''velog'' 1 (demo_pworld FAbsent)")
  have h: "healthy (pw_health (demo_pworld FAbsent))" by (simp add: healthy_def demo_pworld_def)
  have u: "usable (pw_circuit (demo_pworld FAbsent))" by (simp add: usable_def demo_pworld_def)
  have n: "hv_consecutive_failures (health_get ''velog'' (pw_health (demo_pworld FAbsent))) = 0" by code_simp
  show ?thesis using failure_trips_at_threshold[OF h u run] n run by simp
qed

section \<open>A success that is reported as an error\<close>

lemma success_bookkeeping_can_raise_facts:
  fixes p :: string
  assumes on: "policy_enabled env" and obs: "\<not> enforcing_for env p"
    and bad: "js_file (pw_circuit w) = FBad (mkexn UnicodeDecodeError m)" "js_lock (pw_circuit w)"
    and ok: "publish (dput ''platform'' (JStr p) payload) = Inr x"
  shows "fst (publish_with_policy env publish p payload w) = Inl (mkexn UnicodeDecodeError m)"
    "pw_calls (snd (publish_with_policy env publish p payload w)) =
       pw_calls w @ [dput ''platform'' (JStr p) payload]"
proof -
  let ?e = "mkexn UnicodeDecodeError m" and ?full = "dput ''platform'' (JStr p) payload"
  obtain r w' where run: "publish_with_policy env publish p payload w = (r, w')"
    by (cases "publish_with_policy env publish p payload w")
  have cls: "\<not> is_subclass UnicodeDecodeError AuthExpiredError" "\<not> is_subclass UnicodeDecodeError ExternalServiceError"
    by (simp_all add: is_subclass.simps)
  have "r = Inl ?e \<and> pw_calls w' = pw_calls w @ [?full]"
    using run on
  proof (cases rule: policy_run_cases)
    case (skipped y w1)
    then show ?thesis using health_gate_result[OF skipped(1)] obs by simp
  next
    case (gated g2 w2 w3)
    have "is_tripped env p (pw_circuit w2) = (Inr True, pw_circuit w2)"
      using is_tripped_damaged[of "pw_circuit w2" ?e] bad(1) gated(3) by simp
    then have g2: "g2 = Inr None" "pw_circuit w3 = pw_circuit w"
      using gated(1,3) obs by (auto simp: circuit_gate_def bindS_def on_circuit_def emit_attempt_def record_decision_def retS_def)
    have rs: "record_success p (pw_circuit w) = (Inl ?e, pw_circuit w)"
      using bad by (simp add: record_success_def circuit_rmw_def read_state_unsafe_def)
    have c3: "pw_calls w3 = pw_calls w" using no_callD[OF no_call_gates(2) gated(1)] gated(2) by simp
    have at: "fst (attempt publish p ?full w3) = Inl ?e"
      using ok rs g2(2) by (simp add: attempt_def call_adapter_def bindS_def on_circuit_def)
    have final: "catchS [ExceptionClass] (attempt publish p ?full) (handle_failure env p) w3 = (r, w')"
      using gated(4) g2 by simp
    then have "r = Inl ?e"
      using at cls by (cases "attempt publish p ?full w3")
        (auto simp: catchS_def handle_failure_def bindS_def emit_attempt_def raiseS_def)
    then show ?thesis using guarded_attempt(1)[OF final] c3 by simp
  qed
  then show "fst (publish_with_policy env publish p payload w) = Inl ?e"
    "pw_calls (snd (publish_with_policy env publish p payload w)) = pw_calls w @ [?full]"
    by (simp_all add: run)
qed

text \<open>The bookkeeping of a success is inside the same \<open>try\<close> as the publish and is not
  fail-soft: if the circuit file cannot be decoded, every publish that went through without
  enforcement is reported to the caller as an exception, although the dispatcher was called and
  returned its result.\<close>

theorem success_bookkeeping_can_raise:
  fixes p :: string
  assumes "policy_enabled env" "\<not> enforcing_for env p"
    "js_file (pw_circuit w) = FBad (mkexn UnicodeDecodeError m)" "js_lock (pw_circuit w)"
    "publish (dput ''platform'' (JStr p) payload) = Inr x"
  shows "fst (publish_with_policy env publish p payload w) = Inl (mkexn UnicodeDecodeError m) \<and>
    pw_calls (snd (publish_with_policy env publish p payload w)) =
       pw_calls w @ [dput ''platform'' (JStr p) payload]"
  using success_bookkeeping_can_raise_facts[of env p w m publish payload x, OF assms] by simp

theorem success_bookkeeping_can_raise_witness:
  "fst (publish_with_policy observe_env published ''velog'' [] (demo_pworld (FBad (mkexn UnicodeDecodeError ''bad byte'')))) =
     Inl (mkexn UnicodeDecodeError ''bad byte'')"
proof -
  have "policy_enabled observe_env" "\<not> enforcing_for observe_env ''velog''" by code_simp+
  then show ?thesis
    by (rule success_bookkeeping_can_raise[THEN conjunct1]) (simp_all add: demo_pworld_def published_def)
qed

end
