(* ===== verification/Canary.thy ===== *)
theory Canary
  imports Py_Json
begin

text \<open>
  The canary health store (\<open>canary/store.py\<close>) over \<open>webui_store/base.py JsonStore\<close>: the
  evergreen verdicts per platform, which can quarantine it, and the publish-path stream kept
  beside them, which only warns. \<open>ws_save\<close> is what the atomic write raises, if it does.
\<close>

record web_store =
  ws_file :: json_file
  ws_save :: "exn option"

type_synonym 'a wact = "web_store \<Rightarrow> (exn + 'a) \<times> web_store"

text \<open>\<open>default_factory=dict\<close>; only a decoding error of the JSON text falls back to it.\<close>

definition ws_load :: "json_file \<Rightarrow> exn + json" where
  "ws_load f =
     (case f of
        FAbsent \<Rightarrow> Inr (JDict [])
      | FBad e \<Rightarrow> if isinst e JSONDecodeError then Inr (JDict []) else Inl e
      | FJson j \<Rightarrow> Inr j)"

definition ws_store :: "json \<Rightarrow> unit wact" where
  "ws_store j s = (case ws_save s of Some e \<Rightarrow> (Inl e, s) | None \<Rightarrow> (Inr (), s\<lparr>ws_file := FJson j\<rparr>))"

definition ws_update :: "(json \<Rightarrow> exn + json) \<Rightarrow> json wact" where
  "ws_update fn =
     bindS (\<lambda>s. (ws_load (ws_file s), s)) (\<lambda>current.
     bindS (liftR (fn current)) (\<lambda>new_value.
     bindS (ws_store new_value) (\<lambda>u. retS new_value)))"

text \<open>\<open>x or y\<close>, and \<open>dict(x)\<close> (of a value that is neither an object nor an empty sequence it
  raises; non-empty lists of pairs are left out).\<close>

definition py_or :: "json \<Rightarrow> json \<Rightarrow> json" where
  "py_or x y = (if truthy x then x else y)"

definition as_dict :: "json \<Rightarrow> exn + jdict" where
  "as_dict j =
     (case j of
        JDict d \<Rightarrow> Inr d
      | JList [] \<Rightarrow> Inr []
      | JStr [] \<Rightarrow> Inr []
      | _ \<Rightarrow> Inl (mkexn TypeErr ''object is not iterable''))"

section \<open>Evergreen verdicts\<close>

definition STATUS_LINK_ALIVE :: string where "STATUS_LINK_ALIVE = ''link-alive''"
definition STATUS_DRIFT_CONFIRMED :: string where "STATUS_DRIFT_CONFIRMED = ''drift-confirmed''"
definition STATUS_ADVISORY :: string where "STATUS_ADVISORY = ''advisory''"
definition STATUS_NOT_CONFIGURED :: string where "STATUS_NOT_CONFIGURED = ''not-configured''"

definition QUARANTINE_AFTER_N :: int where "QUARANTINE_AFTER_N = 2"
definition REARM_AFTER_M :: int where "REARM_AFTER_M = 2"

definition HEALTH_DEFAULT :: jdict where
  "HEALTH_DEFAULT =
     [(''status'', JStr STATUS_NOT_CONFIGURED), (''consecutive_failures'', JInt 0),
      (''last_ok_at'', JNull), (''last_drift_at'', JNull), (''consecutive_oks'', JInt 0),
      (''quarantined'', JBool False), (''consecutive_advisory'', JInt 0)]"

definition PUBLISH_PATH_KEY :: string where "PUBLISH_PATH_KEY = ''_publish_path''"

definition PUBLISH_PATH_DEFAULT :: jdict where
  "PUBLISH_PATH_DEFAULT =
     [(''status'', JStr STATUS_NOT_CONFIGURED), (''consecutive_failures'', JInt 0),
      (''last_ok_at'', JNull), (''last_drift_at'', JNull), (''consecutive_oks'', JInt 0),
      (''degraded'', JBool False)]"

definition canary_now :: "env \<Rightarrow> json" where
  "canary_now env = JStr (e_fmt env (e_now env))"

text \<open>\<open>canary_health_store.load() or {}\<close>, then a method of a dict.\<close>

definition canary_data :: "json_file \<Rightarrow> exn + jdict" where
  "canary_data f = bindR (ws_load f) (\<lambda>j. jdict_of (py_or j (JDict [])))"

definition get_health :: "string \<Rightarrow> json_file \<Rightarrow> exn + json" where
  "get_health platform f =
     bindR (canary_data f) (\<lambda>data.
       Inr (if jget data platform = JNull then JDict HEALTH_DEFAULT else jget data platform))"

definition list_all_health :: "json_file \<Rightarrow> exn + jdict" where
  "list_all_health f = bindR (canary_data f) (\<lambda>data. Inr (filter (\<lambda>(k, v). k \<noteq> PUBLISH_PATH_KEY) data))"

text \<open>\<open>int(existing.get(k, 0) or 0)\<close>.\<close>

definition counter :: "jdict \<Rightarrow> string \<Rightarrow> exn + int" where
  "counter existing k = py_int (py_or (jget_or existing k (JInt 0)) (JInt 0))"

definition next_health :: "env \<Rightarrow> string \<Rightarrow> jdict \<Rightarrow> int \<Rightarrow> int \<Rightarrow> int \<Rightarrow> jdict" where
  "next_health env status existing failures oks advisory_runs =
     (let quarantined = truthy (jget_or existing ''quarantined'' (JBool False));
          last_ok_at = jget existing ''last_ok_at'';
          last_drift_at = jget existing ''last_drift_at'';
          rec = (\<lambda>failures last_ok_at last_drift_at oks quarantined advisory_runs.
            [(''status'', JStr status), (''consecutive_failures'', JInt failures),
             (''last_ok_at'', last_ok_at), (''last_drift_at'', last_drift_at),
             (''consecutive_oks'', JInt oks), (''quarantined'', JBool quarantined),
             (''consecutive_advisory'', JInt advisory_runs)])
      in if status = STATUS_LINK_ALIVE
         then rec 0 (canary_now env) last_drift_at (oks + 1)
                (if quarantined \<and> oks + 1 \<ge> REARM_AFTER_M then False else quarantined) 0
         else if status = STATUS_DRIFT_CONFIRMED
         then rec (failures + 1) last_ok_at (canary_now env) 0
                (if failures + 1 \<ge> QUARANTINE_AFTER_N then True else quarantined) 0
         else rec failures last_ok_at last_drift_at oks quarantined (advisory_runs + 1))"

definition record_apply :: "env \<Rightarrow> string \<Rightarrow> string \<Rightarrow> json \<Rightarrow> exn + json" where
  "record_apply env platform status current =
     bindR (as_dict current) (\<lambda>cur.
     bindR (jdict_of (py_or (jget cur platform) (JDict []))) (\<lambda>existing.
     bindR (counter existing ''consecutive_failures'') (\<lambda>failures.
     bindR (counter existing ''consecutive_oks'') (\<lambda>oks.
     bindR (counter existing ''consecutive_advisory'') (\<lambda>advisory_runs.
       Inr (JDict (dput platform (JDict (next_health env status existing failures oks advisory_runs)) cur)))))))"

definition record_verdict :: "env \<Rightarrow> string \<Rightarrow> string \<Rightarrow> json wact" where
  "record_verdict env platform status =
     bindS (ws_update (record_apply env platform status)) (\<lambda>new.
     bindS (liftR (jdict_of new)) (\<lambda>d. retS (jget d platform)))"

definition is_quarantined :: "string \<Rightarrow> json_file \<Rightarrow> exn + bool" where
  "is_quarantined platform f =
     bindR (get_health platform f) (\<lambda>rec. bindR (jdict_of rec) (\<lambda>d.
       Inr (truthy (jget_or d ''quarantined'' (JBool False)))))"

definition canary_degraded :: "string \<Rightarrow> json_file \<Rightarrow> exn + bool" where
  "canary_degraded platform f =
     bindR (get_health platform f) (\<lambda>rec. bindR (jdict_of rec) (\<lambda>d.
       Inr (truthy (jget_or d ''quarantined'' (JBool False)) \<or> jget d ''status'' = JStr STATUS_DRIFT_CONFIRMED)))"

section \<open>Publish-path stream\<close>

definition dict_or_empty :: "json \<Rightarrow> jdict" where
  "dict_or_empty j = (case j of JDict d \<Rightarrow> d | _ \<Rightarrow> [])"

definition get_publish_path_health :: "string \<Rightarrow> json_file \<Rightarrow> exn + jdict" where
  "get_publish_path_health platform f =
     bindR (canary_data f) (\<lambda>data.
       Inr (case jget (dict_or_empty (jget data PUBLISH_PATH_KEY)) platform of
              JDict rec \<Rightarrow> rec
            | _ \<Rightarrow> PUBLISH_PATH_DEFAULT))"

definition next_path :: "env \<Rightarrow> string \<Rightarrow> jdict \<Rightarrow> int \<Rightarrow> int \<Rightarrow> jdict option" where
  "next_path env status existing failures oks =
     (let degraded = truthy (jget_or existing ''degraded'' (JBool False));
          last_ok_at = jget existing ''last_ok_at'';
          last_drift_at = jget existing ''last_drift_at'';
          rec = (\<lambda>failures last_ok_at last_drift_at oks degraded.
            [(''status'', JStr status), (''consecutive_failures'', JInt failures),
             (''last_ok_at'', last_ok_at), (''last_drift_at'', last_drift_at),
             (''consecutive_oks'', JInt oks), (''degraded'', JBool degraded)])
      in if status = STATUS_LINK_ALIVE
         then Some (rec 0 (canary_now env) last_drift_at (oks + 1)
                (if degraded \<and> oks + 1 \<ge> REARM_AFTER_M then False else degraded))
         else if status = STATUS_DRIFT_CONFIRMED
         then Some (rec (failures + 1) last_ok_at (canary_now env) 0
                (if failures + 1 \<ge> QUARANTINE_AFTER_N then True else degraded))
         else None)"

definition publish_path_apply :: "env \<Rightarrow> string \<Rightarrow> string \<Rightarrow> json \<Rightarrow> exn + json" where
  "publish_path_apply env platform status current =
     bindR (as_dict current) (\<lambda>cur.
     bindR (as_dict (py_or (jget cur PUBLISH_PATH_KEY) (JDict []))) (\<lambda>stream.
     bindR (jdict_of (py_or (jget stream platform) (JDict []))) (\<lambda>existing.
     bindR (counter existing ''consecutive_failures'') (\<lambda>failures.
     bindR (counter existing ''consecutive_oks'') (\<lambda>oks.
       case next_path env status existing failures oks of
         None \<Rightarrow> Inr (JDict cur)
       | Some r \<Rightarrow> Inr (JDict (dput PUBLISH_PATH_KEY (JDict (dput platform (JDict r) stream)) cur)))))))"

definition record_publish_path_verdict :: "env \<Rightarrow> string \<Rightarrow> string \<Rightarrow> json wact" where
  "record_publish_path_verdict env platform status =
     bindS (ws_update (publish_path_apply env platform status)) (\<lambda>new.
     bindS (liftR (jdict_of new)) (\<lambda>d.
     bindS (liftR (jdict_of (py_or (jget d PUBLISH_PATH_KEY) (JDict [])))) (\<lambda>stream.
       retS (if jget stream platform = JNull then JDict PUBLISH_PATH_DEFAULT else jget stream platform))))"

definition is_publish_path_degraded :: "string \<Rightarrow> json_file \<Rightarrow> exn + bool" where
  "is_publish_path_degraded platform f =
     bindR (get_publish_path_health platform f) (\<lambda>d. Inr (truthy (jget_or d ''degraded'' (JBool False))))"

definition list_publish_path_all :: "json_file \<Rightarrow> exn + (string, jdict) dict" where
  "list_publish_path_all f =
     bindR (canary_data f) (\<lambda>data.
       Inr (List.map_filter
              (\<lambda>(platform, rec). case rec of JDict d \<Rightarrow> Some (platform, dmerge PUBLISH_PATH_DEFAULT d) | _ \<Rightarrow> None)
              (dict_or_empty (jget data PUBLISH_PATH_KEY))))"

section \<open>Canary configuration\<close>

text \<open>The parsed \<open>config.toml\<close>: an \<open>OSError\<close> or a TOML decoding error counts as no section.\<close>

definition load_canary_section :: "json_file \<Rightarrow> exn + jdict" where
  "load_canary_section config =
     (case config of
        FAbsent \<Rightarrow> Inr []
      | FBad e \<Rightarrow> if isinst e OSErr \<or> isinst e TOMLDecodeError then Inr [] else Inl e
      | FJson data \<Rightarrow> bindR (jdict_of data) (\<lambda>d. Inr (dict_or_empty (jget_or d ''canary'' (JDict [])))))"

record canary_config =
  cc_post_url :: string
  cc_expected_target :: string
  cc_marker :: "string option"
  cc_hard_skip :: bool

definition read_canary_config :: "env \<Rightarrow> string \<Rightarrow> json_file \<Rightarrow> exn + canary_config option" where
  "read_canary_config env platform config =
     bindR (load_canary_section config) (\<lambda>section.
       Inr (case jget section platform of
              JDict entry \<Rightarrow>
                Some \<lparr>cc_post_url = py_str env (jget_or entry ''post_url'' (JStr [])),
                      cc_expected_target = py_str env (jget_or entry ''expected_target'' (JStr [])),
                      cc_marker = (if truthy (jget entry ''marker'')
                                   then Some (py_str env (jget entry ''marker'')) else None),
                      cc_hard_skip = truthy (jget_or entry ''hard_skip'' (JBool False))\<rparr>
            | _ \<Rightarrow> None))"

end
