(* ===== verification/Canary_Run.thy ===== *)
theory Canary_Run
  imports Canary
begin

text \<open>
  The canary run (\<open>cli/spray/canary_targets.py\<close>): each cohort platform's seeded post is fetched,
  judged, and the verdict recorded; and the publish-side readers and writers of the verdicts
  (\<open>_canary_gate\<close> and \<open>_record_publish_path\<close> of \<open>cli/_publish_helpers.py\<close>). The two fetches are
  network calls that never raise: parameters of the run.
\<close>

section \<open>Verdicts\<close>

text \<open>What \<open>fetch_target\<close> and \<open>inspect_target_anchor\<close> report.\<close>

record page_facts =
  pf_reason :: "string option"
  pf_status :: "int option"
  pf_soft404 :: bool
  pf_noindex :: bool

record anchor_facts =
  af_page_readable :: bool
  af_marker_present :: "bool option"
  af_target_anchor_found :: bool
  af_target_is_nofollow :: bool

definition int_str :: "int \<Rightarrow> string" where
  "int_str n = (if n < 0 then ''-'' @ nat_str (nat (- n)) else nat_str (nat n))"

definition failed_checks :: "page_facts \<Rightarrow> anchor_facts \<Rightarrow> string list" where
  "failed_checks facts anchor =
     (if pf_reason facts = Some ''ssrf_blocked'' then [''ssrf_blocked''] else [])
     @ (case pf_reason facts of
          Some r \<Rightarrow> if r \<in> {''unreachable'', ''timeout'', ''network_error''} then [r] else []
        | None \<Rightarrow> [])
     @ (if pf_reason facts = Some ''invalid_url'' then [''invalid_url''] else [])
     @ (if pf_soft404 facts then [''soft_404''] else [])
     @ (case pf_status facts of
          Some n \<Rightarrow> if n \<noteq> 200 then [''http_'' @ int_str n] else []
        | None \<Rightarrow> [])
     @ (if pf_noindex facts then [''noindex''] else [])
     @ (if \<not> af_page_readable anchor then [''page_not_readable''] else [])
     @ (if af_marker_present anchor = Some False then [''marker_absent''] else [])
     @ (if \<not> af_target_anchor_found anchor then [''target_anchor_missing''] else [])
     @ (if af_target_is_nofollow anchor then [''target_nofollow''] else [])"

definition canary_classify :: "page_facts \<Rightarrow> anchor_facts \<Rightarrow> string" where
  "canary_classify facts anchor =
     (let confirmed_canary_page =
            pf_status facts = Some 200 \<and> af_page_readable anchor \<and> af_marker_present anchor = Some True;
          anchor_found = af_target_anchor_found anchor;
          is_nofollow = af_target_is_nofollow anchor
      in if confirmed_canary_page \<and> (\<not> anchor_found \<or> is_nofollow) then STATUS_DRIFT_CONFIRMED
         else if confirmed_canary_page \<and> anchor_found \<and> \<not> is_nofollow \<and> \<not> pf_noindex facts
         then STATUS_LINK_ALIVE
         else STATUS_ADVISORY)"

definition STALE_ADVISORY_RUNS :: int where "STALE_ADVISORY_RUNS = 3"

text \<open>\<open>x >= n\<close> on a JSON value: numbers compare, the rest raises.\<close>

definition json_ge :: "json \<Rightarrow> int \<Rightarrow> exn + bool" where
  "json_ge j k =
     (case j of
        JInt n \<Rightarrow> Inr (n \<ge> k)
      | JFloat x \<Rightarrow> Inr (x \<ge> of_int k)
      | JBool b \<Rightarrow> Inr ((if b then 1 else 0) \<ge> k)
      | _ \<Rightarrow> Inl (mkexn TypeErr ''not supported between instances''))"

definition canary_is_stale :: "string \<Rightarrow> string \<Rightarrow> json_file \<Rightarrow> exn + bool" where
  "canary_is_stale platform verdict f =
     (if verdict \<noteq> STATUS_ADVISORY then Inr False
      else bindR (get_health platform f) (\<lambda>rec. bindR (jdict_of rec) (\<lambda>d.
             json_ge (jget_or d ''consecutive_advisory'' (JInt 0)) STALE_ADVISORY_RUNS)))"

section \<open>The run\<close>

record canary_receipt =
  rc_platform :: string
  rc_verdict :: string
  rc_failed_checks :: "string list"
  rc_note :: "string option"

definition build_receipt :: "string \<Rightarrow> string \<Rightarrow> string list \<Rightarrow> bool \<Rightarrow> canary_receipt" where
  "build_receipt platform verdict checks stale =
     \<lparr>rc_platform = platform, rc_verdict = verdict, rc_failed_checks = checks,
      rc_note = (if stale then Some ''canary-stale/needs-reseed'' else None)\<rparr>"

text \<open>The registry as the list of platforms with their \<open>dofollow_status\<close>.\<close>

definition build_cohort :: "(string, json) dict \<Rightarrow> string list" where
  "build_cohort registry = map fst (filter (\<lambda>(p, st). st = JBool True) registry)"

record canary_net =
  cn_fetch :: "string \<Rightarrow> page_facts"
  cn_inspect :: "string \<Rightarrow> string \<Rightarrow> string option \<Rightarrow> anchor_facts"

text \<open>One platform: the verdict is recorded before its staleness is read.\<close>

definition canary_one :: "env \<Rightarrow> canary_net \<Rightarrow> json_file \<Rightarrow> string \<Rightarrow> canary_receipt wact" where
  "canary_one env net config platform =
     bindS (liftR (read_canary_config env platform config)) (\<lambda>cfg.
       case cfg of
         None \<Rightarrow>
           bindS (record_verdict env platform STATUS_NOT_CONFIGURED) (\<lambda>r.
             retS (build_receipt platform STATUS_NOT_CONFIGURED [''not_configured''] False))
       | Some c \<Rightarrow>
           (let facts = cn_fetch net (cc_post_url c);
                marker = (case cc_marker c of Some [] \<Rightarrow> None | m \<Rightarrow> m);
                anchor = cn_inspect net (cc_post_url c) (cc_expected_target c) marker;
                verdict = canary_classify facts anchor
            in bindS (record_verdict env platform verdict) (\<lambda>r.
               bindS (\<lambda>s. (if verdict = STATUS_ADVISORY then canary_is_stale platform verdict (ws_file s)
                           else Inr False, s)) (\<lambda>stale.
                 retS (build_receipt platform verdict (failed_checks facts anchor) stale)))))"

fun canary_loop :: "env \<Rightarrow> canary_net \<Rightarrow> json_file \<Rightarrow> string list \<Rightarrow> canary_receipt list wact" where
  "canary_loop env net config [] = retS []"
| "canary_loop env net config (p # ps) =
     bindS (canary_one env net config p) (\<lambda>r.
     bindS (canary_loop env net config ps) (\<lambda>rs. retS (r # rs)))"

text \<open>The receipts are written only when every platform went through; a \<open>PipelineError\<close> ends the
  command with its exit code, any other exception escapes.\<close>

definition LOG_LEVELS :: "string list" where
  "LOG_LEVELS = [''DEBUG'', ''INFO'', ''WARN'', ''ERROR'']"

definition canary_main ::
  "env \<Rightarrow> canary_net \<Rightarrow> json_file \<Rightarrow> (string, json) dict \<Rightarrow> string option \<Rightarrow> string \<Rightarrow> canary_receipt list wact" where
  "canary_main env net config registry platform_arg log_level =
     catchS [PipelineError]
       (if log_level \<notin> set LOG_LEVELS
        then raiseS (mkexn UsageError ''canary-targets: --log-level must be one of'')
        else let cohort = build_cohort registry in
          if cohort = [] then raiseS (mkexn UsageError ''canary-targets: dofollow cohort is empty'')
          else case platform_arg of
                 None \<Rightarrow> canary_loop env net config cohort
               | Some p \<Rightarrow>
                   if p \<notin> set cohort
                   then raiseS (mkexn UsageError ''canary-targets: --platform is not in the dofollow cohort'')
                   else canary_loop env net config [p])
       (\<lambda>e. raiseS (snd (handle_error e)))"

definition verdict_count :: "string \<Rightarrow> canary_receipt list \<Rightarrow> nat" where
  "verdict_count v rs = length (filter (\<lambda>r. rc_verdict r = v) rs)"

section \<open>The publish side\<close>

text \<open>
  Skip a row only for a quarantined platform that opted in; a degraded one is warned about once
  per invocation; any error of the stores lets the row pass. The result is the skip flag with the
  platforms warned so far; the wording of the reason and of the warning is left out.
\<close>

definition canary_gate ::
  "env \<Rightarrow> string \<Rightarrow> json_file \<Rightarrow> json_file \<Rightarrow> string list \<Rightarrow> bool \<times> string list" where
  "canary_gate env platform health config warned =
     (if platform = [] then (False, warned)
      else
        let warn = (if platform \<in> set warned then warned else warned @ [platform]) in
        (case canary_degraded platform health of
           Inl e \<Rightarrow> (False, warned)
         | Inr False \<Rightarrow> (False, warned)
         | Inr True \<Rightarrow>
             (case is_quarantined platform health of
                Inl e \<Rightarrow> (False, warned)
              | Inr False \<Rightarrow> (False, warn)
              | Inr True \<Rightarrow>
                  (case read_canary_config env platform config of
                     Inl e \<Rightarrow> (False, warned)
                   | Inr (Some c) \<Rightarrow> if cc_hard_skip c then (True, warned) else (False, warn)
                   | Inr None \<Rightarrow> (False, warn)))))"

text \<open>The forward-path verdict of one publish, from the adapter's \<open>link_attr_verification\<close>; the
  result counts the drifts.\<close>

definition record_publish_path :: "env \<Rightarrow> string \<Rightarrow> jdict option \<Rightarrow> web_store \<Rightarrow> (exn + nat) \<times> web_store" where
  "record_publish_path env platform provider_meta s =
     (let meta = (case provider_meta of Some m \<Rightarrow> m | None \<Rightarrow> []) in
      case jdict_of (py_or (jget meta ''link_attr_verification'') (JDict [])) of
        Inl e \<Rightarrow> (Inl e, s)
      | Inr link_attr \<Rightarrow>
          if jget link_attr ''verification'' \<noteq> JStr ''ok'' then (Inr 0, s)
          else if dget link_attr ''target_found'' = None then (Inr 0, s)
          else
            let is_drift = truthy (jget link_attr ''target_nofollow'')
                           \<or> truthy (jget link_attr ''target_rewritten'')
                           \<or> \<not> truthy (jget_or link_attr ''target_found'' (JBool True));
                verdict = (if is_drift then STATUS_DRIFT_CONFIRMED else STATUS_LINK_ALIVE);
                s' = snd (record_publish_path_verdict env platform verdict s)
            in (Inr (if is_drift then 1 else 0), s'))"

end
