(* ===== verification/Canary_Facts.thy ===== *)
theory Canary_Facts
  imports Canary_Run Keyed
begin

text \<open>
  The verdict streams as debounced flags: a contract (\<open>debounced\<close>) that says what a verdict does
  to the two streaks and the flag, the closed form of a run under that contract, and its
  interpretation on both streams of the canary file, evergreen and publish-path, at once.
\<close>

section \<open>Debounced flags\<close>

text \<open>Of a list of verdicts, newest first: the newest adjacent pair that agrees.\<close>

fun newest_pair :: "'a list \<Rightarrow> 'a option" where
  "newest_pair (a # b # xs) = (if a = b then Some a else newest_pair (b # xs))"
| "newest_pair xs = None"

definition decisive :: "string list \<Rightarrow> string list" where
  "decisive vs = filter (\<lambda>v. v = STATUS_LINK_ALIVE \<or> v = STATUS_DRIFT_CONFIRMED) vs"

lemma verdict_neq [simp]: "STATUS_LINK_ALIVE \<noteq> STATUS_DRIFT_CONFIRMED" "STATUS_DRIFT_CONFIRMED \<noteq> STATUS_LINK_ALIVE"
  "STATUS_ADVISORY \<noteq> STATUS_LINK_ALIVE" "STATUS_ADVISORY \<noteq> STATUS_DRIFT_CONFIRMED"
  by (simp_all add: STATUS_LINK_ALIVE_def STATUS_DRIFT_CONFIRMED_def STATUS_ADVISORY_def)

locale debounced =
  keyed_store entry step target effect ready legal
  for entry :: "'k \<Rightarrow> 's \<Rightarrow> int \<times> int \<times> bool"
    and step :: "'op \<Rightarrow> 's \<Rightarrow> (exn + 'r) \<times> 's"
    and target :: "'op \<Rightarrow> 'k"
    and effect :: "'op \<Rightarrow> int \<times> int \<times> bool \<Rightarrow> int \<times> int \<times> bool"
    and ready :: "'s \<Rightarrow> bool"
    and legal :: "'op \<Rightarrow> bool"
  + fixes verdict :: "'op \<Rightarrow> string"
  assumes alive: "verdict op = STATUS_LINK_ALIVE \<Longrightarrow> effect op (f, k, q) = (0, k + 1, q \<and> k + 1 < REARM_AFTER_M)"
    and drift: "verdict op = STATUS_DRIFT_CONFIRMED \<Longrightarrow>
      effect op (f, k, q) = (f + 1, 0, q \<or> f + 1 \<ge> QUARANTINE_AFTER_N)"
    and other: "verdict op \<noteq> STATUS_LINK_ALIVE \<Longrightarrow> verdict op \<noteq> STATUS_DRIFT_CONFIRMED \<Longrightarrow> effect op v = v"
begin

definition streak :: "string \<Rightarrow> string list \<Rightarrow> int" where
  "streak v vs = int (length (takeWhile (\<lambda>x. x = v) (rev vs)))"

lemma fold_closed:
  "fold effect ops (0, 0, False) =
     (let vs = decisive (map verdict ops)
      in (streak STATUS_DRIFT_CONFIRMED vs, streak STATUS_LINK_ALIVE vs,
          newest_pair (rev vs) = Some STATUS_DRIFT_CONFIRMED))"
proof (induction ops rule: rev_induct)
  case Nil
  show ?case by (simp add: decisive_def streak_def)
next
  case (snoc op ops)
  define vs where "vs = decisive (map verdict ops)"
  note IH = snoc.IH[folded vs_def, unfolded Let_def]
  have snoc_vs: "decisive (map verdict (ops @ [op])) =
      (if verdict op = STATUS_LINK_ALIVE \<or> verdict op = STATUS_DRIFT_CONFIRMED then vs @ [verdict op] else vs)"
    by (simp add: vs_def decisive_def)
  have dec: "\<forall>v \<in> set vs. v = STATUS_LINK_ALIVE \<or> v = STATUS_DRIFT_CONFIRMED" by (simp add: vs_def decisive_def)
  show ?case
  proof (cases "rev vs")
    case Nil
    then show ?thesis
      unfolding snoc_vs Let_def
      by (simp add: IH streak_def alive drift other QUARANTINE_AFTER_N_def REARM_AFTER_M_def)
  next
    case (Cons w ws)
    then have w: "w = STATUS_LINK_ALIVE \<or> w = STATUS_DRIFT_CONFIRMED" using dec by (metis list.set_intros(1) set_rev)
    show ?thesis
      unfolding snoc_vs Let_def
      using w Cons by (auto simp: IH streak_def alive drift other QUARANTINE_AFTER_N_def REARM_AFTER_M_def)
  qed
qed

text \<open>The flag after any run from a fresh key: the newest two decisive verdicts in a row that agree
  are drifts.\<close>

lemma flag_closed:
  assumes "ready s" "\<forall>op \<in> set ops. legal op" "entry k s = (0, 0, False)"
  shows "snd (snd (entry k (run ops s))) \<longleftrightarrow>
    newest_pair (rev (decisive (map verdict (filter (\<lambda>op. target op = k) ops)))) = Some STATUS_DRIFT_CONFIRMED"
  by (simp add: run_entry_legal[OF assms(1,2)] assms(3) fold_closed Let_def)

text \<open>Verdicts that decide nothing change neither streaks nor flag.\<close>

lemma undecided_frame:
  assumes "ready s" "\<forall>op \<in> set ops. legal op"
    "\<forall>op \<in> set ops. target op = k \<longrightarrow> verdict op \<noteq> STATUS_LINK_ALIVE \<and> verdict op \<noteq> STATUS_DRIFT_CONFIRMED"
  shows "entry k (run ops s) = entry k s"
proof -
  have "fold effect xs v = v" if "\<forall>op \<in> set xs. verdict op \<noteq> STATUS_LINK_ALIVE \<and> verdict op \<noteq> STATUS_DRIFT_CONFIRMED"
    for xs v using that by (induction xs arbitrary: v) (auto simp: other)
  then show ?thesis using assms by (simp add: run_entry_legal)
qed

end

section \<open>Both streams of the canary file\<close>

fun debounce :: "string \<Rightarrow> int \<times> int \<times> bool \<Rightarrow> int \<times> int \<times> bool" where
  "debounce st (f, k, q) =
     (if st = STATUS_LINK_ALIVE then (0, k + 1, q \<and> k + 1 < REARM_AFTER_M)
      else if st = STATUS_DRIFT_CONFIRMED then (f + 1, 0, q \<or> f + 1 \<ge> QUARANTINE_AFTER_N)
      else (f, k, q))"

datatype canary_op = Evergreen env string string | PublishPath env string string

fun canary_step :: "canary_op \<Rightarrow> json wact" where
  "canary_step (Evergreen env p st) = record_verdict env p st"
| "canary_step (PublishPath env p st) = record_publish_path_verdict env p st"

fun canary_target :: "canary_op \<Rightarrow> bool \<times> string" where
  "canary_target (Evergreen env p st) = (True, p)"
| "canary_target (PublishPath env p st) = (False, p)"

fun canary_verdict :: "canary_op \<Rightarrow> string" where
  "canary_verdict (Evergreen env p st) = st"
| "canary_verdict (PublishPath env p st) = st"

text \<open>No registered platform is called \<open>_publish_path\<close>.\<close>

fun canary_legal :: "canary_op \<Rightarrow> bool" where
  "canary_legal (Evergreen env p st) = (p \<noteq> PUBLISH_PATH_KEY)"
| "canary_legal (PublishPath env p st) = True"

definition counter_or0 :: "jdict \<Rightarrow> string \<Rightarrow> int" where
  "counter_or0 d k = (case counter d k of Inr n \<Rightarrow> n | Inl e \<Rightarrow> 0)"

definition rec_view :: "string \<Rightarrow> jdict \<Rightarrow> int \<times> int \<times> bool" where
  "rec_view flag d =
     (counter_or0 d ''consecutive_failures'', counter_or0 d ''consecutive_oks'', truthy (jget_or d flag (JBool False)))"

text \<open>What the two read APIs show of a key: the streaks and the flag.\<close>

fun canary_view :: "bool \<times> string \<Rightarrow> web_store \<Rightarrow> int \<times> int \<times> bool" where
  "canary_view (True, p) s =
     (if p = PUBLISH_PATH_KEY then (0, 0, False)
      else case get_health p (ws_file s) of Inr (JDict d) \<Rightarrow> rec_view ''quarantined'' d | _ \<Rightarrow> (0, 0, False))"
| "canary_view (False, p) s =
     (case get_publish_path_health p (ws_file s) of Inr d \<Rightarrow> rec_view ''degraded'' d | _ \<Rightarrow> (0, 0, False))"

declare canary_view.simps [simp del]

text \<open>A store the writers can work on: saving works, and the file is absent, torn (it reads as
  empty), or an object of records whose counters are numbers.\<close>

definition good_rec :: "json \<Rightarrow> bool" where
  "good_rec v \<longleftrightarrow> (\<exists>e. v = JDict e \<and> (\<exists>n. counter e ''consecutive_failures'' = Inr n) \<and>
     (\<exists>n. counter e ''consecutive_oks'' = Inr n) \<and> (\<exists>n. counter e ''consecutive_advisory'' = Inr n))"

definition good_canary :: "jdict \<Rightarrow> bool" where
  "good_canary d \<longleftrightarrow>
     (\<forall>p v. dget d p = Some v \<longrightarrow> (if p = PUBLISH_PATH_KEY
        then (\<exists>st. v = JDict st \<and> (\<forall>q w. dget st q = Some w \<longrightarrow> good_rec w)) else good_rec v))"

definition canary_ready :: "web_store \<Rightarrow> bool" where
  "canary_ready s \<longleftrightarrow> ws_save s = None \<and> (\<exists>d. ws_load (ws_file s) = Inr (JDict d) \<and> good_canary d)"

lemma good_rec_cases:
  assumes "\<forall>v. dget d p = Some v \<longrightarrow> good_rec v"
  obtains e f k a where "jdict_of (py_or (jget d p) (JDict [])) = Inr e"
    "counter e ''consecutive_failures'' = Inr f" "counter e ''consecutive_oks'' = Inr k"
    "counter e ''consecutive_advisory'' = Inr a"
    "dget d p = None \<and> e = [] \<or> dget d p = Some (JDict e)"
proof (cases "dget d p")
  case None
  then show ?thesis
    by (intro that[of "[]" 0 0 0]) (auto simp: jget_def dget_or_def py_or_def counter_def jget_or_def)
next
  case (Some v)
  then obtain e where e: "v = JDict e" "good_rec (JDict e)" using assms by (auto simp: good_rec_def)
  moreover have "py_or (JDict e) (JDict []) = JDict e" by (simp add: py_or_def)
  ultimately show ?thesis
    using Some that[of e] by (auto simp: good_rec_def jget_def dget_or_def)
qed

lemma counter_lit [simp]:
  "counter ((k, JInt n) # d) k = Inr n" "k' \<noteq> k \<Longrightarrow> counter ((k, v) # d) k' = counter d k'"
  "counter [] k = Inr 0"
  by (simp_all add: counter_def jget_or_def dget_or_def py_or_def)

lemma flag_lit [simp]:
  "jget_or ((k, v) # d) k x = v" "k' \<noteq> k \<Longrightarrow> jget_or ((k, v) # d) k' x = jget_or d k' x" "jget_or [] k x = x"
  by (simp_all add: jget_or_def dget_or_def)

lemma py_or_dict [simp]: "py_or (JDict e) (JDict []) = JDict e"
  by (cases e) (simp_all add: py_or_def)

text \<open>One verdict on one record.\<close>

lemma next_health_view:
  assumes "counter e ''consecutive_failures'' = Inr f" "counter e ''consecutive_oks'' = Inr k"
  shows "good_rec (JDict (next_health env st e f k a))"
    "rec_view ''quarantined'' (next_health env st e f k a) = debounce st (rec_view ''quarantined'' e)"
  using assms by (auto simp: next_health_def Let_def good_rec_def rec_view_def counter_or0_def)

lemma next_path_view:
  assumes "counter e ''consecutive_failures'' = Inr f" "counter e ''consecutive_oks'' = Inr k"
  shows "next_path env st e f k = Some r \<Longrightarrow> good_rec (JDict r)"
    "next_path env st e f k = Some r \<Longrightarrow> rec_view ''degraded'' r = debounce st (rec_view ''degraded'' e)"
    "next_path env st e f k = None \<Longrightarrow> debounce st v = v"
  using assms
  by (cases v, auto simp: next_path_def Let_def good_rec_def rec_view_def counter_or0_def split: if_splits)+

lemma record_apply_good:
  assumes "\<forall>v. dget d p = Some v \<longrightarrow> good_rec v"
  shows "\<exists>e e'. (dget d p = None \<and> e = [] \<or> dget d p = Some (JDict e)) \<and>
     record_apply env p st (JDict d) = Inr (JDict (dput p (JDict e') d)) \<and> good_rec (JDict e') \<and>
     rec_view ''quarantined'' e' = debounce st (rec_view ''quarantined'' e)"
proof -
  obtain e f k a where e: "jdict_of (py_or (jget d p) (JDict [])) = Inr e"
    "counter e ''consecutive_failures'' = Inr f" "counter e ''consecutive_oks'' = Inr k"
    "counter e ''consecutive_advisory'' = Inr a" "dget d p = None \<and> e = [] \<or> dget d p = Some (JDict e)"
    by (rule good_rec_cases[OF assms])
  have "record_apply env p st (JDict d) = Inr (JDict (dput p (JDict (next_health env st e f k a)) d))"
    by (simp add: record_apply_def as_dict_def e(1-4))
  then show ?thesis using e(5) next_health_view[OF e(2,3)] by blast
qed

lemma publish_path_apply_good:
  assumes "good_canary d"
  shows "\<exists>st0 e. (dget d PUBLISH_PATH_KEY = None \<and> st0 = [] \<or> dget d PUBLISH_PATH_KEY = Some (JDict st0)) \<and>
    (dget st0 p = None \<and> e = [] \<or> dget st0 p = Some (JDict e)) \<and>
    (\<forall>q w. dget st0 q = Some w \<longrightarrow> good_rec w) \<and>
    ((\<forall>v. debounce st v = v) \<and> publish_path_apply env p st (JDict d) = Inr (JDict d) \<or>
     (\<exists>e'. publish_path_apply env p st (JDict d) =
         Inr (JDict (dput PUBLISH_PATH_KEY (JDict (dput p (JDict e') st0)) d)) \<and> good_rec (JDict e') \<and>
       rec_view ''degraded'' e' = debounce st (rec_view ''degraded'' e)))"
proof -
  obtain st0 where st0: "dget d PUBLISH_PATH_KEY = None \<and> st0 = [] \<or> dget d PUBLISH_PATH_KEY = Some (JDict st0)"
    "\<forall>q w. dget st0 q = Some w \<longrightarrow> good_rec w"
  proof (cases "dget d PUBLISH_PATH_KEY")
    case None
    then show ?thesis using that[of "[]"] by simp
  next
    case (Some v)
    then show ?thesis using that assms[unfolded good_canary_def, rule_format, OF Some] by auto
  qed
  then have as: "as_dict (py_or (jget d PUBLISH_PATH_KEY) (JDict [])) = Inr st0"
    by (auto simp: jget_def dget_or_def as_dict_def py_or_def)
  have gp: "\<forall>v. dget st0 p = Some v \<longrightarrow> good_rec v" using st0(2) by blast
  obtain e f k a where e: "jdict_of (py_or (jget st0 p) (JDict [])) = Inr e"
    "counter e ''consecutive_failures'' = Inr f" "counter e ''consecutive_oks'' = Inr k"
    "counter e ''consecutive_advisory'' = Inr a" "dget st0 p = None \<and> e = [] \<or> dget st0 p = Some (JDict e)"
    by (rule good_rec_cases[OF gp])
  have run: "publish_path_apply env p st (JDict d) =
      (case next_path env st e f k of None \<Rightarrow> Inr (JDict d)
       | Some r \<Rightarrow> Inr (JDict (dput PUBLISH_PATH_KEY (JDict (dput p (JDict r) st0)) d)))"
    by (simp add: publish_path_apply_def as_dict_def[of "JDict d"] as e(1-3))
  show ?thesis
  proof (intro exI conjI)
    show "(\<forall>v. debounce st v = v) \<and> publish_path_apply env p st (JDict d) = Inr (JDict d) \<or>
     (\<exists>e'. publish_path_apply env p st (JDict d) =
         Inr (JDict (dput PUBLISH_PATH_KEY (JDict (dput p (JDict e') st0)) d)) \<and> good_rec (JDict e') \<and>
       rec_view ''degraded'' e' = debounce st (rec_view ''degraded'' e))"
    proof (cases "next_path env st e f k")
      case None
      then show ?thesis using run next_path_view(3)[OF e(2,3) None] by simp
    next
      case (Some r)
      then show ?thesis using run next_path_view(1,2)[OF e(2,3) Some] by auto
    qed
  qed (use st0 e(5) in auto)
qed

lemma ev_view:
  assumes "ws_load (ws_file s) = Inr (JDict d)" "dget d p = None \<and> e = [] \<or> dget d p = Some (JDict e)"
    "p \<noteq> PUBLISH_PATH_KEY"
  shows "canary_view (True, p) s = rec_view ''quarantined'' e"
  using assms
  by (auto simp: canary_view.simps get_health_def canary_data_def jget_def dget_or_def rec_view_def counter_or0_def HEALTH_DEFAULT_def)

lemma pp_view:
  assumes "ws_load (ws_file s) = Inr (JDict d)"
    "dget d PUBLISH_PATH_KEY = None \<and> st0 = [] \<or> dget d PUBLISH_PATH_KEY = Some (JDict st0)"
    "dget st0 p = None \<and> e = [] \<or> dget st0 p = Some (JDict e)"
  shows "canary_view (False, p) s = rec_view ''degraded'' e"
  using assms
  by (auto simp: canary_view.simps get_publish_path_health_def canary_data_def jget_def dget_or_def dict_or_empty_def
      rec_view_def counter_or0_def PUBLISH_PATH_DEFAULT_def)

lemma ws_update_ok:
  "ws_save s = None \<Longrightarrow> ws_load (ws_file s) = Inr j \<Longrightarrow> fn j = Inr j' \<Longrightarrow>
     ws_update fn s = (Inr j', s\<lparr>ws_file := FJson j'\<rparr>)"
  by (simp add: ws_update_def ws_store_def stateful_simps)

lemma ws_load_FJson [simp]: "ws_load (FJson j) = Inr j"
  by (simp add: ws_load_def)

text \<open>The evergreen writer: its record changes as debounced, nothing else does.\<close>

lemma record_verdict_step:
  assumes r: "canary_ready s" and p: "p \<noteq> PUBLISH_PATH_KEY"
  obtains j s' where "record_verdict env p st s = (Inr j, s')" "canary_ready s'"
    "canary_view (True, p) s' = debounce st (canary_view (True, p) s)"
    "\<And>k. k \<noteq> (True, p) \<Longrightarrow> canary_view k s' = canary_view k s"
proof -
  obtain d where d: "ws_load (ws_file s) = Inr (JDict d)" "good_canary d" and sv: "ws_save s = None"
    using r by (auto simp: canary_ready_def)
  have "\<forall>v. dget d p = Some v \<longrightarrow> good_rec v" using d(2) p by (auto simp: good_canary_def)
  from record_apply_good[OF this, of env st] obtain e e' where
    e: "dget d p = None \<and> e = [] \<or> dget d p = Some (JDict e)"
    "record_apply env p st (JDict d) = Inr (JDict (dput p (JDict e') d))" "good_rec (JDict e')"
    "rec_view ''quarantined'' e' = debounce st (rec_view ''quarantined'' e)" by blast
  let ?s' = "s\<lparr>ws_file := FJson (JDict (dput p (JDict e') d))\<rparr>"
  have run: "record_verdict env p st s = (Inr (JDict e'), ?s')"
    by (simp add: record_verdict_def ws_update_ok[where fn = "record_apply env p st", OF sv d(1) e(2)] stateful_simps)
  have ready: "canary_ready ?s'" using d(2) e(3) p sv by (auto simp: canary_ready_def good_canary_def)
  have own: "canary_view (True, p) ?s' = debounce st (canary_view (True, p) s)"
    using ev_view[OF d(1) e(1) p] ev_view[of ?s' "dput p (JDict e') d" p e'] e(4) p by simp
  have "canary_view (b, q) ?s' = canary_view (b, q) s" if "(b, q) \<noteq> (True, p)" for b q
  proof (cases b)
    case True
    then show ?thesis using that d(1) by (simp add: canary_view.simps get_health_def canary_data_def)
  next
    case False
    then show ?thesis using p d(1) by (simp add: canary_view.simps get_publish_path_health_def canary_data_def)
  qed
  then have "\<And>k. k \<noteq> (True, p) \<Longrightarrow> canary_view k ?s' = canary_view k s" by auto
  with run ready own that show ?thesis by blast
qed

lemma publish_path_step:
  assumes r: "canary_ready s"
  obtains j s' where "record_publish_path_verdict env p st s = (Inr j, s')" "canary_ready s'"
    "canary_view (False, p) s' = debounce st (canary_view (False, p) s)"
    "\<And>k. k \<noteq> (False, p) \<Longrightarrow> canary_view k s' = canary_view k s"
proof -
  obtain d where d: "ws_load (ws_file s) = Inr (JDict d)" "good_canary d" and sv: "ws_save s = None"
    using r by (auto simp: canary_ready_def)
  from publish_path_apply_good[OF d(2), of p st env] obtain st0 e where
    st0: "dget d PUBLISH_PATH_KEY = None \<and> st0 = [] \<or> dget d PUBLISH_PATH_KEY = Some (JDict st0)"
    and e: "dget st0 p = None \<and> e = [] \<or> dget st0 p = Some (JDict e)"
    and good: "\<forall>q w. dget st0 q = Some w \<longrightarrow> good_rec w"
    and run: "(\<forall>v. debounce st v = v) \<and> publish_path_apply env p st (JDict d) = Inr (JDict d) \<or>
     (\<exists>e'. publish_path_apply env p st (JDict d) =
         Inr (JDict (dput PUBLISH_PATH_KEY (JDict (dput p (JDict e') st0)) d)) \<and> good_rec (JDict e') \<and>
       rec_view ''degraded'' e' = debounce st (rec_view ''degraded'' e))" by blast
  note old = pp_view[OF d(1) st0]
  show ?thesis
  proof (rule disjE[OF run])
    assume n: "(\<forall>v. debounce st v = v) \<and> publish_path_apply env p st (JDict d) = Inr (JDict d)"
    let ?s' = "s\<lparr>ws_file := FJson (JDict d)\<rparr>"
    have "jdict_of (py_or (jget d PUBLISH_PATH_KEY) (JDict [])) = Inr st0"
      using st0 by (auto simp: jget_def dget_or_def) (simp add: py_or_def)
    then have "\<exists>j. record_publish_path_verdict env p st s = (Inr j, ?s')"
      by (simp add: record_publish_path_verdict_def ws_update_ok[where fn = "publish_path_apply env p st", OF sv d(1) conjunct2[OF n]] stateful_simps)
    moreover have same: "canary_view k ?s' = canary_view k s" for k
      using d(1)
      by (cases "(k, s)" rule: canary_view.cases)
         (simp_all add: canary_view.simps get_health_def get_publish_path_health_def canary_data_def)
    moreover have "canary_ready ?s'" using d(2) sv by (simp add: canary_ready_def)
    ultimately show ?thesis using that[OF _ _ _ same] conjunct1[OF n] by auto
  next
    assume "\<exists>e'. publish_path_apply env p st (JDict d) =
         Inr (JDict (dput PUBLISH_PATH_KEY (JDict (dput p (JDict e') st0)) d)) \<and> good_rec (JDict e') \<and>
       rec_view ''degraded'' e' = debounce st (rec_view ''degraded'' e)"
    then obtain e' where e': "publish_path_apply env p st (JDict d) =
         Inr (JDict (dput PUBLISH_PATH_KEY (JDict (dput p (JDict e') st0)) d))" "good_rec (JDict e')"
       "rec_view ''degraded'' e' = debounce st (rec_view ''degraded'' e)" by blast
    let ?d' = "dput PUBLISH_PATH_KEY (JDict (dput p (JDict e') st0)) d"
    let ?s' = "s\<lparr>ws_file := FJson (JDict ?d')\<rparr>"
    have ex: "\<exists>j. record_publish_path_verdict env p st s = (Inr j, ?s')"
      by (simp add: record_publish_path_verdict_def ws_update_ok[where fn = "publish_path_apply env p st", OF sv d(1) e'(1)] stateful_simps)
    have ready: "canary_ready ?s'" using d(2) sv good e'(2) by (auto simp: canary_ready_def good_canary_def)
    have own: "canary_view (False, p) ?s' = debounce st (canary_view (False, p) s)"
      using pp_view[of ?s' ?d' "dput p (JDict e') st0" p e'] old[OF e] e'(3) by simp
    note fin = ex ready own
    have "canary_view (True, q) ?s' = canary_view (True, q) s" for q
      using d(1) by (simp add: canary_view.simps get_health_def canary_data_def)
    moreover have "canary_view (False, q) ?s' = canary_view (False, q) s" if "q \<noteq> p" for q
      using that d(1) st0 by (auto simp: canary_view.simps get_publish_path_health_def canary_data_def dict_or_empty_def jget_def dget_or_def)
    ultimately have "\<And>k. k \<noteq> (False, p) \<Longrightarrow> canary_view k ?s' = canary_view k s"
      by (metis (full_types) prod.collapse)
    then show ?thesis using that fin by blast
  qed
qed

interpretation canary: debounced canary_view canary_step canary_target "\<lambda>op. debounce (canary_verdict op)"
  canary_ready canary_legal canary_verdict
proof
  fix s op r s' k
  assume r: "canary_ready s" and l: "canary_legal op"
  obtain j s2 where s2: "canary_step op s = (Inr j, s2)" "canary_ready s2"
    "canary_view (canary_target op) s2 = debounce (canary_verdict op) (canary_view (canary_target op) s)"
    "\<And>k. k \<noteq> canary_target op \<Longrightarrow> canary_view k s2 = canary_view k s"
  proof (cases op)
    case (Evergreen env p st)
    then show ?thesis using record_verdict_step[OF r, of p env st] that l by auto
  next
    case (PublishPath env p st)
    then show ?thesis using publish_path_step[OF r, of env p st] that by auto
  qed
  show "\<exists>r s'. canary_step op s = (Inr r, s') \<and> canary_ready s'" using s2 by blast
  show "canary_view (canary_target op) s' = debounce (canary_verdict op) (canary_view (canary_target op) s)"
    if "canary_step op s = (Inr r, s')" using s2 that by simp
  show "canary_view k s' = canary_view k s" if "canary_step op s = (Inr r, s')" "k \<noteq> canary_target op"
    using s2 that by simp
qed auto

section \<open>Quarantine\<close>

lemma is_quarantined_view:
  assumes "canary_ready s" "p \<noteq> PUBLISH_PATH_KEY"
  shows "is_quarantined p (ws_file s) = Inr (snd (snd (canary_view (True, p) s)))"
proof -
  obtain d where d: "ws_load (ws_file s) = Inr (JDict d)" "good_canary d"
    using assms(1) by (auto simp: canary_ready_def)
  show ?thesis
  proof (cases "dget d p")
    case None
    then show ?thesis
      using d(1) assms(2)
      by (simp add: is_quarantined_def get_health_def canary_data_def jget_def dget_or_def rec_view_def HEALTH_DEFAULT_def canary_view.simps)
  next
    case (Some v)
    then have "good_rec v" using d(2) assms(2) by (auto simp: good_canary_def)
    then obtain e where "v = JDict e" by (auto simp: good_rec_def)
    then show ?thesis
      using d(1) assms(2) Some
      by (simp add: is_quarantined_def get_health_def canary_data_def jget_def dget_or_def rec_view_def canary_view.simps)
  qed
qed

text \<open>C28. Quarantine is debounced both ways and belongs to one platform and one stream: from an
  empty store, after any interleaving of evergreen and publish-path verdicts of any platforms, a
  platform is quarantined exactly when, among its own evergreen verdicts that decide something,
  the newest two neighbours that agree are drifts. One drift does not quarantine, one green does
  not release, advisories do neither, and the publish-path stream has no say.\<close>

theorem quarantine_iff_newest_pair_drift:
  assumes "ws_file s = FAbsent" "ws_save s = None" "\<forall>op \<in> set ops. canary_legal op" "p \<noteq> PUBLISH_PATH_KEY"
  shows "is_quarantined p (ws_file (canary.run ops s)) =
    Inr (newest_pair (rev (decisive (map canary_verdict (filter (\<lambda>op. canary_target op = (True, p)) ops))))
         = Some STATUS_DRIFT_CONFIRMED)"
proof -
  have r: "canary_ready s" using assms(1,2) by (simp add: canary_ready_def ws_load_def good_canary_def)
  have "canary_view (True, p) s = (0, 0, False)"
    using assms(1,4) ev_view[of s "[]" p "[]"] by (simp add: ws_load_def rec_view_def counter_or0_def)
  from canary.flag_closed[OF r assms(3) this] show ?thesis
    by (simp add: is_quarantined_view[OF canary.run_ready_legal[OF r assms(3)] assms(4)])
qed

definition empty_canary :: web_store where
  "empty_canary = \<lparr>ws_file = FAbsent, ws_save = None\<rparr>"

theorem quarantine_iff_newest_pair_drift_witness:
  "is_quarantined ''velog'' (ws_file (canary.run
     [Evergreen env0 ''velog'' STATUS_DRIFT_CONFIRMED, PublishPath env0 ''velog'' STATUS_LINK_ALIVE,
      Evergreen env0 ''velog'' STATUS_ADVISORY, Evergreen env0 ''velog'' STATUS_DRIFT_CONFIRMED,
      Evergreen env0 ''velog'' STATUS_LINK_ALIVE, Evergreen env0 ''devto'' STATUS_LINK_ALIVE] empty_canary)) = Inr True"
  by (subst quarantine_iff_newest_pair_drift)
     (simp_all add: empty_canary_def PUBLISH_PATH_KEY_def decisive_def)

section \<open>Advisories\<close>

text \<open>A verdict that decides nothing keeps the streaks and the flag of an evergreen record but
  still replaces its status and counts an advisory run, while on the publish-path stream it is a
  no-op: the two writers differ where the second is said to match the first. A platform whose
  last decisive verdict was a drift thus stops reading as degraded after one advisory.\<close>

theorem advisory_forgets_drift:
  "let s1 = snd (record_verdict env0 ''velog'' STATUS_DRIFT_CONFIRMED empty_canary);
       s2 = snd (record_verdict env0 ''velog'' STATUS_ADVISORY s1);
       t1 = snd (record_publish_path_verdict env0 ''velog'' STATUS_DRIFT_CONFIRMED empty_canary);
       t2 = snd (record_publish_path_verdict env0 ''velog'' STATUS_ADVISORY t1)
   in canary_degraded ''velog'' (ws_file s1) = Inr True \<and> canary_degraded ''velog'' (ws_file s2) = Inr False \<and>
      (case get_health ''velog'' (ws_file s2) of Inr (JDict d) \<Rightarrow>
         jget d ''status'' = JStr STATUS_ADVISORY \<and> jget d ''consecutive_advisory'' = JInt 1 | _ \<Rightarrow> False) \<and> t2 = t1"
  by code_simp

lemma canary_gate_fail_open_facts:
  "fst (canary_gate env p health config warned) \<longleftrightarrow>
     p \<noteq> [] \<and> is_quarantined p health = Inr True \<and>
     (\<exists>c. read_canary_config env p config = Inr (Some c) \<and> cc_hard_skip c)"
  "distinct warned \<Longrightarrow> distinct (snd (canary_gate env p health config warned))"
proof -
  have "is_quarantined p health = Inr True \<Longrightarrow> canary_degraded p health = Inr True"
    by (auto simp: is_quarantined_def canary_degraded_def bindR_eq_Inr_iff)
  then show "fst (canary_gate env p health config warned) \<longleftrightarrow>
     p \<noteq> [] \<and> is_quarantined p health = Inr True \<and>
     (\<exists>c. read_canary_config env p config = Inr (Some c) \<and> cc_hard_skip c)"
    by (auto simp: canary_gate_def Let_def split: sum.splits bool.splits option.splits)
  show "distinct warned \<Longrightarrow> distinct (snd (canary_gate env p health config warned))"
    by (auto simp: canary_gate_def Let_def split: sum.splits bool.splits option.splits)
qed

text \<open>The gate is fail-open and opt-in: a row is held back only for a platform whose health
  reads as quarantined and whose configuration opts in; any error of either store lets it pass.
  A platform is warned about at most once.\<close>

theorem canary_gate_fail_open:
  "(fst (canary_gate env p health config warned) \<longleftrightarrow>
     p \<noteq> [] \<and> is_quarantined p health = Inr True \<and>
     (\<exists>c. read_canary_config env p config = Inr (Some c) \<and> cc_hard_skip c)) \<and>
   (distinct warned \<longrightarrow> distinct (snd (canary_gate env p health config warned)))"
  using canary_gate_fail_open_facts by blast

theorem canary_gate_fail_open_witness:
  "distinct (snd (canary_gate env0 ''velog'' (ws_file (snd (record_verdict env0 ''velog'' STATUS_DRIFT_CONFIRMED empty_canary)))
      FAbsent [''devto'']))"
  by (rule canary_gate_fail_open[THEN conjunct2, THEN mp]) simp

end
