(* ===== verification/Checkpoint.thy ===== *)
theory Checkpoint
  imports Py_Json
begin

text \<open>
  Checkpoints of batch runs (\<open>checkpoint.py\<close>): one JSON document per run in the checkpoint
  directory, the list of its \<open>*.json\<close> files in directory order with their modification times. The
  write replaces the file atomically. Item ids are strings; \<open>json_key\<close> says what other ids become
  as keys of the index once it is stored.
\<close>

section \<open>The directory\<close>

record ckpt_file =
  cf_mtime :: pyfloat
  cf_content :: json_file

type_synonym ckpt_dir = "(string, ckpt_file) dict"

type_synonym 'a cact = "ckpt_dir \<Rightarrow> (exn + 'a) \<times> ckpt_dir"

text \<open>\<open>^\d{8}T\d{6}-[0-9a-f]{8}$\<close>; the \<open>$\<close> also matches before a final newline.\<close>

definition is_hex :: "char \<Rightarrow> bool" where
  "is_hex c \<longleftrightarrow> is_digit c \<or> c \<in> set ''abcdef''"

definition run_id_ok :: "string \<Rightarrow> bool" where
  "run_id_ok s =
     (let t = (if length s = 25 \<and> last s = CHR 0x0A then butlast s else s)
      in length t = 24 \<and> list_all is_digit (take 8 t) \<and> t ! 8 = CHR ''T''
         \<and> list_all is_digit (take 6 (drop 9 t)) \<and> t ! 15 = CHR ''-'' \<and> list_all is_hex (drop 16 t))"

definition validate_run_id :: "string \<Rightarrow> exn + unit" where
  "validate_run_id run_id =
     (if run_id_ok run_id then Inr () else Inl (mkexn ValueErr (''invalid run_id format: '' @ py_repr run_id)))"

text \<open>\<open>e_ckpt_write\<close> says what the write of a document raises: a full or read-only disk, say. A write
  that fails leaves the old file.\<close>

definition atomic_write :: "env \<Rightarrow> string \<Rightarrow> json \<Rightarrow> unit cact" where
  "atomic_write env run_id j s =
     (case e_ckpt_write env run_id j of
        Some e \<Rightarrow> (Inl e, s)
      | None \<Rightarrow> (Inr (), dput run_id \<lparr>cf_mtime = e_now env, cf_content = FJson j\<rparr> s))"

definition RETRO_LANGUAGE_FAILED :: string where "RETRO_LANGUAGE_FAILED = ''retro_language_failed''"
definition RETRO_ANCHOR_FAILED :: string where "RETRO_ANCHOR_FAILED = ''retro_anchor_failed''"
definition POLICY_SKIP :: string where "POLICY_SKIP = ''policy_skip''"

section \<open>Creation\<close>

fun json_key :: "env \<Rightarrow> json \<Rightarrow> exn + string" where
  "json_key env (JStr s) = Inr s"
| "json_key env JNull = Inr ''null''"
| "json_key env (JBool b) = Inr (if b then ''true'' else ''false'')"
| "json_key env (JInt n) = Inr (e_str env (JInt n))"
| "json_key env (JFloat x) = Inr (e_str env (JFloat x))"
| "json_key env _ = Inl (mkexn TypeErr ''unhashable type'')"

definition opt_str :: "string option \<Rightarrow> json" where
  "opt_str o1 = (case o1 of None \<Rightarrow> JNull | Some s \<Rightarrow> JStr s)"

definition new_item :: "string option \<Rightarrow> jdict \<Rightarrow> jdict" where
  "new_item platform row =
     [(''id'', jget_or row ''id'' (JStr [])), (''status'', JStr ''pending''),
      (''title'', jget_or row ''title'' (JStr [])),
      (''platform'', case platform of Some (c # p) \<Rightarrow> JStr (c # p) | _ \<Rightarrow> jget_or row ''platform'' (JStr [])),
      (''adapter'', JNull), (''published_url'', JNull), (''error'', JNull), (''error_class'', JNull),
      (''completed_at'', JNull), (''payload'', JDict row)]"

fun build_index :: "env \<Rightarrow> nat \<Rightarrow> jdict list \<Rightarrow> jdict \<Rightarrow> exn + jdict" where
  "build_index env i [] acc = Inr acc"
| "build_index env i (item # items) acc =
     bindR (json_key env (jget item ''id'')) (\<lambda>k. build_index env (i + 1) items (dput k (JInt (int i)) acc))"

text \<open>\<open>run_id\<close> stands for \<open>generate_run_id()\<close>, the clock and four random bytes.\<close>

definition create_checkpoint ::
  "env \<Rightarrow> string \<Rightarrow> jdict list \<Rightarrow> string option \<Rightarrow> string \<Rightarrow> jdict option \<Rightarrow> string cact" where
  "create_checkpoint env run_id rows platform mode flags =
     (let items = map (new_item platform) rows in
      bindS (liftR (build_index env 0 items [])) (\<lambda>ix.
      bindS (atomic_write env run_id (JDict
        [(''run_id'', JStr run_id), (''started_at'', JStr (e_fmt env (e_now env))),
         (''platform'', opt_str platform), (''mode'', JStr mode), (''status'', JNull),
         (''items'', JList (map JDict items)), (''_id_to_index'', JDict ix),
         (''flags'', JDict (case flags of None \<Rightarrow> [] | Some f \<Rightarrow> f))])) (\<lambda>u.
        retS run_id)))"

section \<open>Loading and updating\<close>

definition load_checkpoint :: "string \<Rightarrow> json cact" where
  "load_checkpoint run_id s =
     (case validate_run_id run_id of
        Inl e \<Rightarrow> (Inl e, s)
      | Inr u \<Rightarrow>
          (case dget s run_id of
             None \<Rightarrow> (Inl (mkexn FileNotFound (''checkpoint not found: '' @ run_id)), s)
           | Some f \<Rightarrow> (read_json (cf_content f), s)))"

definition OPTIONAL_ITEM_FIELDS :: "string list" where
  "OPTIONAL_ITEM_FIELDS =
     [''adapter'', ''published_url'', ''article_urls'', ''error'', ''error_class'', ''completed_at'']"

text \<open>\<open>d[k]\<close>, and the list a value must be.\<close>

definition jindex :: "json \<Rightarrow> string \<Rightarrow> exn + json" where
  "jindex j k =
     (case j of
        JDict d \<Rightarrow> (case dget d k of None \<Rightarrow> Inl (mkexn KeyErr (py_repr k)) | Some v \<Rightarrow> Inr v)
      | _ \<Rightarrow> Inl (mkexn TypeErr ''not subscriptable by str''))"

definition jlist_of :: "json \<Rightarrow> exn + json list" where
  "jlist_of j = (case j of JList xs \<Rightarrow> Inr xs | _ \<Rightarrow> Inl (mkexn TypeErr ''not a list''))"

definition items_of :: "jdict \<Rightarrow> exn + json list" where
  "items_of data = bindR (jindex (JDict data) ''items'') jlist_of"

text \<open>The linear scan of legacy checkpoints.\<close>

fun scan_items :: "string \<Rightarrow> nat \<Rightarrow> json list \<Rightarrow> exn + nat option" where
  "scan_items item_id i [] = Inr None"
| "scan_items item_id i (c # cs) =
     bindR (jindex c ''id'') (\<lambda>v. if v = JStr item_id then Inr (Some i) else scan_items item_id (i + 1) cs)"

text \<open>The lookup in the index; an entry out of range falls back to the scan. A \<open>float\<close> entry is never
  written and is taken to raise.\<close>

definition find_item :: "jdict \<Rightarrow> string \<Rightarrow> exn + nat option" where
  "find_item data item_id =
     (let pick = (\<lambda>n items. if 0 \<le> n \<and> n < int (length items) then Inr (Some (nat n))
                           else scan_items item_id 0 items)
      in bindR (jdict_of (jget_or data ''_id_to_index'' (JDict []))) (\<lambda>ix.
           case jget ix item_id of
             JNull \<Rightarrow> bindR (items_of data) (scan_items item_id 0)
           | JInt n \<Rightarrow> bindR (items_of data) (pick n)
           | JBool b \<Rightarrow> bindR (items_of data) (pick (if b then 1 else 0))
           | _ \<Rightarrow> Inl (mkexn TypeErr ''index'')))"

definition touch_item :: "string \<Rightarrow> jdict \<Rightarrow> jdict \<Rightarrow> jdict" where
  "touch_item status flds item =
     dmerge (fold (\<lambda>f d. dput f JNull d) OPTIONAL_ITEM_FIELDS (dput ''status'' (JStr status) item)) flds"

definition updated_data :: "string \<Rightarrow> string \<Rightarrow> jdict \<Rightarrow> json \<Rightarrow> exn + json" where
  "updated_data item_id status flds j =
     bindR (jdict_of j) (\<lambda>data.
     bindR (find_item data item_id) (\<lambda>i.
       case i of
         None \<Rightarrow> Inr (JDict data)
       | Some n \<Rightarrow>
           bindR (items_of data) (\<lambda>items.
           bindR (jdict_of (items ! n)) (\<lambda>item.
             Inr (JDict (dput ''items'' (JList (items[n := JDict (touch_item status flds item)])) data))))))"

definition update_item :: "env \<Rightarrow> string \<Rightarrow> string \<Rightarrow> string \<Rightarrow> jdict \<Rightarrow> unit cact" where
  "update_item env run_id item_id status flds =
     bindS (liftR (validate_run_id run_id)) (\<lambda>u.
     bindS (load_checkpoint run_id) (\<lambda>j.
     bindS (liftR (updated_data item_id status flds j)) (\<lambda>j'.
       atomic_write env run_id j')))"

definition mark_complete :: "env \<Rightarrow> string \<Rightarrow> unit cact" where
  "mark_complete env run_id =
     bindS (liftR (validate_run_id run_id)) (\<lambda>u.
     bindS (load_checkpoint run_id) (\<lambda>j.
     bindS (liftR (jdict_of j)) (\<lambda>data.
       atomic_write env run_id (JDict (dput ''status'' (JStr ''complete'') data)))))"

section \<open>Listing\<close>

text \<open>\<open>sorted(..., reverse=True)\<close>: descending, equal keys in their old order.\<close>

definition sort_desc :: "('a \<Rightarrow> 'b::linorder) \<Rightarrow> 'a list \<Rightarrow> 'a list" where
  "sort_desc k xs = rev (sort_key k (rev xs))"

definition recent :: "nat \<Rightarrow> ckpt_dir \<Rightarrow> (string \<times> ckpt_file) list" where
  "recent n s = take n (sort_desc (\<lambda>(r, f). cf_mtime f) s)"

text \<open>Parsed documents; one that cannot be read or decoded as JSON is passed over, text that is not
  UTF-8 raises.\<close>

fun read_runs :: "(string \<times> ckpt_file) list \<Rightarrow> exn + json list" where
  "read_runs [] = Inr []"
| "read_runs ((r, f) # fs) =
     (case read_json (cf_content f) of
        Inl e \<Rightarrow> if isinst e OSErr \<or> isinst e JSONDecodeError then read_runs fs else Inl e
      | Inr j \<Rightarrow> bindR (read_runs fs) (\<lambda>js. Inr (j # js)))"

text \<open>The sort key \<open>d.get("started_at", "")\<close>: timestamps are strings; of any other value the sort is
  taken to fail.\<close>

definition started_key :: "jdict \<Rightarrow> exn + string" where
  "started_key d =
     (case jget_or d ''started_at'' (JStr []) of JStr s \<Rightarrow> Inr s | _ \<Rightarrow> Inl (mkexn TypeErr ''not comparable''))"

definition sort_runs :: "jdict list \<Rightarrow> exn + jdict list" where
  "sort_runs ds =
     bindR (mapR started_key ds) (\<lambda>ks. Inr (map snd (sort_desc fst (zip ks ds))))"

definition item_status :: "json \<Rightarrow> exn + json" where
  "item_status item =
     bindR (jindex item ''status'') (\<lambda>v. if hashable v then Inr v else Inl (mkexn TypeErr ''unhashable type''))"

definition unfinished_status :: "json \<Rightarrow> bool" where
  "unfinished_status v \<longleftrightarrow> v = JStr ''pending'' \<or> v = JStr ''failed''"

definition run_incomplete :: "jdict \<Rightarrow> exn + bool" where
  "run_incomplete d =
     (if jget d ''status'' = JStr ''complete'' then Inr False
      else bindR (jlist_of (jget_or d ''items'' (JList []))) (\<lambda>items.
           bindR (mapR item_status items) (\<lambda>sts. Inr (list_ex unfinished_status sts))))"

fun incomplete_loop :: "(string \<times> ckpt_file) list \<Rightarrow> exn + jdict list" where
  "incomplete_loop [] = Inr []"
| "incomplete_loop ((r, f) # fs) =
     (case read_json (cf_content f) of
        Inl e \<Rightarrow> if isinst e OSErr \<or> isinst e JSONDecodeError then incomplete_loop fs else Inl e
      | Inr j \<Rightarrow>
          bindR (jdict_of j) (\<lambda>d.
          bindR (run_incomplete d) (\<lambda>b.
          bindR (incomplete_loop fs) (\<lambda>ds. Inr (if b then d # ds else ds)))))"

definition list_incomplete :: "ckpt_dir \<Rightarrow> exn + jdict list" where
  "list_incomplete s = bindR (incomplete_loop (recent 20 s)) sort_runs"

definition list_all_runs :: "ckpt_dir \<Rightarrow> exn + jdict list" where
  "list_all_runs s =
     bindR (read_runs (recent 100 s)) (\<lambda>js. bindR (mapR jdict_of js) sort_runs)"

definition tag_items :: "jdict \<Rightarrow> exn + jdict list" where
  "tag_items run =
     bindR (jlist_of (jget_or run ''items'' (JList []))) (\<lambda>items.
     bindR (mapR jdict_of items) (\<lambda>ds.
       Inr (map (dput ''_run_id'' (jget_or run ''run_id'' (JStr [])))
              (filter (\<lambda>item. unfinished_status (jget item ''status'')) ds))))"

definition list_failed_items :: "ckpt_dir \<Rightarrow> exn + jdict list" where
  "list_failed_items s =
     bindR (list_all_runs s) (\<lambda>runs. bindR (mapR tag_items runs) (\<lambda>tss. Inr (concat tss)))"

section \<open>Deletion\<close>

definition delete_run :: "string \<Rightarrow> unit cact" where
  "delete_run run_id s =
     (case validate_run_id run_id of
        Inl e \<Rightarrow> (Inl e, s)
      | Inr u \<Rightarrow>
          if dget s run_id = None
          then (Inl (mkexn FileNotFound (''checkpoint not found: '' @ run_id)), s)
          else (Inr (), ddel run_id s))"

fun delete_loop :: "(string \<times> ckpt_file) list \<Rightarrow> nat \<Rightarrow> nat cact" where
  "delete_loop [] count = retS count"
| "delete_loop ((r, f) # fs) count =
     (\<lambda>s. case bindR (read_json (cf_content f)) jdict_of of
        Inl e \<Rightarrow> if isinst e OSErr \<or> isinst e JSONDecodeError then delete_loop fs count s else (Inl e, s)
      | Inr d \<Rightarrow>
          if jget d ''status'' = JStr ''complete'' then delete_loop fs (count + 1) (ddel r s)
          else delete_loop fs count s)"

definition delete_complete :: "nat cact" where
  "delete_complete s = delete_loop s 0 s"

end
