(* ===== verification/Checkpoint_Facts.thy ===== *)
theory Checkpoint_Facts
  imports Checkpoint Keyed "HOL-Library.Multiset"
begin

text \<open>
  Checkpoint documents with distinct ids: the index finds what the scan finds, an update rewrites
  exactly one item, runs and items do not disturb each other (the \<open>keyed_store\<close> contract), and
  what goes wrong with repeated ids. The listings and the clean-up.
\<close>

section \<open>Well-formed documents\<close>

definition ckpt_ok :: "jdict \<Rightarrow> string list \<Rightarrow> jdict list \<Rightarrow> bool" where
  "ckpt_ok data ids items \<longleftrightarrow>
     distinct ids \<and> length items = length ids \<and> dget data ''items'' = Some (JList (map JDict items)) \<and>
     (\<forall>i < length ids. dget (items ! i) ''id'' = Some (JStr (ids ! i))) \<and>
     (\<exists>ix. dget data ''_id_to_index'' = Some (JDict ix) \<and>
       (\<forall>i < length ids. dget ix (ids ! i) = Some (JInt (int i))) \<and> (\<forall>x. x \<notin> set ids \<longrightarrow> dget ix x = None))"

lemma items_of_ok: "ckpt_ok data ids items \<Longrightarrow> items_of data = Inr (map JDict items)"
  by (simp add: ckpt_ok_def items_of_def jindex_def jlist_of_def)

lemma scan_found:
  assumes "length items = length ids" "\<forall>i < length ids. dget (items ! i) ''id'' = Some (JStr (ids ! i))"
    "distinct ids"
  shows "i < length ids \<Longrightarrow> scan_items (ids ! i) n (map JDict items) = Inr (Some (n + i))"
    "x \<notin> set ids \<Longrightarrow> scan_items x n (map JDict items) = Inr None"
proof -
  have "(\<forall>i < length ids. scan_items (ids ! i) n (map JDict items) = Inr (Some (n + i))) \<and>
    (x \<notin> set ids \<longrightarrow> scan_items x n (map JDict items) = Inr None)"
    using assms
  proof (induction items ids arbitrary: n rule: list_induct2)
    case (Cons d items y ys)
    have d: "dget d ''id'' = Some (JStr y)" using Cons.prems(1)[rule_format, of 0] by simp
    have IH: "(\<forall>i < length ys. scan_items (ys ! i) (n + 1) (map JDict items) = Inr (Some (n + 1 + i))) \<and>
      (x \<notin> set ys \<longrightarrow> scan_items x (n + 1) (map JDict items) = Inr None)"
      using Cons.prems by (intro Cons.IH) auto
    have "scan_items ((y # ys) ! i) n (map JDict (d # items)) = Inr (Some (n + i))" if "i < length (y # ys)" for i
      using that IH Cons.prems(2) d by (cases i) (auto simp: jindex_def)
    moreover have "x \<notin> set (y # ys) \<longrightarrow> scan_items x n (map JDict (d # items)) = Inr None"
      using IH d by (auto simp: jindex_def)
    ultimately show ?case by blast
  qed simp
  then show "i < length ids \<Longrightarrow> scan_items (ids ! i) n (map JDict items) = Inr (Some (n + i))"
    "x \<notin> set ids \<Longrightarrow> scan_items x n (map JDict items) = Inr None" by auto
qed

lemma find_item_ok:
  assumes "ckpt_ok data ids items"
  shows "i < length ids \<Longrightarrow> find_item data (ids ! i) = Inr (Some i)"
    "x \<notin> set ids \<Longrightarrow> find_item data x = Inr None"
proof -
  obtain ix where ix: "dget data ''_id_to_index'' = Some (JDict ix)"
    "\<forall>i < length ids. dget ix (ids ! i) = Some (JInt (int i))" "\<forall>x. x \<notin> set ids \<longrightarrow> dget ix x = None"
    using assms by (auto simp: ckpt_ok_def)
  have len: "length items = length ids" using assms by (simp add: ckpt_ok_def)
  show "i < length ids \<Longrightarrow> find_item data (ids ! i) = Inr (Some i)"
    using ix len by (simp add: find_item_def jget_or_def jget_def dget_or_def items_of_ok[OF assms] Let_def)
  show "x \<notin> set ids \<Longrightarrow> find_item data x = Inr None"
    using ix scan_found(2)[of items ids] assms
    by (simp add: find_item_def jget_or_def jget_def dget_or_def items_of_ok[OF assms] Let_def ckpt_ok_def)
qed

lemma ckpt_ok_cases:
  assumes "ckpt_ok data ids items"
  obtains (found) i where "i < length ids" "x = ids ! i" | (absent) "x \<notin> set ids"
  by (metis in_set_conv_nth)

text \<open>The index is an optimisation only: on a document whose ids are distinct, the lookup through
  \<open>_id_to_index\<close> gives what the linear scan of legacy checkpoints gives, for every id.\<close>

theorem index_agrees_with_scan:
  assumes "ckpt_ok data ids items"
  shows "find_item data x = bindR (items_of data) (scan_items x 0)"
proof (rule ckpt_ok_cases[OF assms, of x])
  fix i assume "i < length ids" "x = ids ! i"
  then show ?thesis
    using assms find_item_ok(1)[OF assms] scan_found(1)[of items ids i 0]
    by (simp add: items_of_ok[OF assms] ckpt_ok_def)
next
  assume "x \<notin> set ids"
  then show ?thesis
    using assms find_item_ok(2)[OF assms] scan_found(2)[of items ids x 0]
    by (simp add: items_of_ok[OF assms] ckpt_ok_def)
qed

definition demo_rows :: "jdict list" where
  "demo_rows = [[(''id'', JStr ''a''), (''platform'', JStr ''velog'')], [(''id'', JStr ''b'')]]"

definition demo_data :: jdict where
  "demo_data = [(''items'', JList (map JDict (map (new_item None) demo_rows))),
     (''_id_to_index'', JDict [(''a'', JInt 0), (''b'', JInt 1)]), (''status'', JNull)]"

lemma demo_ok: "ckpt_ok demo_data [''a'', ''b''] (map (new_item None) demo_rows)"
  by (auto simp: ckpt_ok_def demo_data_def demo_rows_def new_item_def jget_or_def dget_or_def less_Suc_eq numeral_2_eq_2)

theorem index_agrees_with_scan_witness:
  "find_item demo_data ''b'' = Inr (Some 1)"
  unfolding index_agrees_with_scan[OF demo_ok] by code_simp

section \<open>One update\<close>

lemma dget_touch_item:
  assumes "wf_dict flds"
  shows "dget (touch_item st flds item) k =
    (case dget flds k of Some v \<Rightarrow> Some v
     | None \<Rightarrow> if k \<in> set OPTIONAL_ITEM_FIELDS then Some JNull
               else if k = ''status'' then Some (JStr st) else dget item k)"
  using assms by (auto simp: touch_item_def dget_dmerge OPTIONAL_ITEM_FIELDS_def split: option.splits)

definition legal_fields :: "jdict \<Rightarrow> bool" where
  "legal_fields flds \<longleftrightarrow> wf_dict flds \<and> dget flds ''id'' = None"

lemma updated_data_ok:
  assumes ok: "ckpt_ok data ids items" and fl: "legal_fields flds" and i: "i < length ids"
  shows "updated_data (ids ! i) st flds (JDict data) =
      Inr (JDict (dput ''items'' (JList (map JDict (items[i := touch_item st flds (items ! i)]))) data))"
    "ckpt_ok (dput ''items'' (JList (map JDict (items[i := touch_item st flds (items ! i)]))) data) ids
       (items[i := touch_item st flds (items ! i)])"
proof -
  have len: "length items = length ids" using ok by (simp add: ckpt_ok_def)
  show "updated_data (ids ! i) st flds (JDict data) =
      Inr (JDict (dput ''items'' (JList (map JDict (items[i := touch_item st flds (items ! i)]))) data))"
    using i len by (simp add: updated_data_def find_item_ok(1)[OF ok] items_of_ok[OF ok] map_update)
  have "dget (touch_item st flds (items ! i)) ''id'' = Some (JStr (ids ! i))"
    using fl i ok by (simp add: dget_touch_item legal_fields_def OPTIONAL_ITEM_FIELDS_def ckpt_ok_def)
  then show "ckpt_ok (dput ''items'' (JList (map JDict (items[i := touch_item st flds (items ! i)]))) data) ids
       (items[i := touch_item st flds (items ! i)])"
    using ok i len by (auto simp: ckpt_ok_def nth_list_update)
qed

lemma updated_data_absent:
  "ckpt_ok data ids items \<Longrightarrow> x \<notin> set ids \<Longrightarrow> updated_data x st flds (JDict data) = Inr (JDict data)"
  by (simp add: updated_data_def find_item_ok(2))

section \<open>Runs and items do not disturb each other\<close>

datatype ckpt_op = Update env string string string jdict | Complete env string

text \<open>The callers carry on whether or not the update raised: its outcome is the step's result.\<close>

fun ckpt_step :: "ckpt_op \<Rightarrow> (exn + unit) cact" where
  "ckpt_step (Update env r x st flds) s = (let (res, s') = update_item env r x st flds s in (Inr res, s'))"
| "ckpt_step (Complete env r) s = (let (res, s') = mark_complete env r s in (Inr res, s'))"

fun ckpt_target :: "ckpt_op \<Rightarrow> string \<times> string option" where
  "ckpt_target (Update env r x st flds) = (r, Some x)"
| "ckpt_target (Complete env r) = (r, None)"

text \<open>Environments in which the checkpoints can be written.\<close>

definition ckpt_disk_ok :: "env \<Rightarrow> bool" where
  "ckpt_disk_ok env \<longleftrightarrow> (\<forall>r j. e_ckpt_write env r j = None)"

lemma atomic_write_ok:
  "ckpt_disk_ok env \<Longrightarrow> atomic_write env r j s = (Inr (), dput r \<lparr>cf_mtime = e_now env, cf_content = FJson j\<rparr> s)"
  by (simp add: atomic_write_def ckpt_disk_ok_def)

lemma ckpt_disk_ok_env0 [simp]: "ckpt_disk_ok env0"
  by (simp add: ckpt_disk_ok_def env0_def)

fun ckpt_legal :: "ckpt_op \<Rightarrow> bool" where
  "ckpt_legal (Update env r x st flds) = (legal_fields flds \<and> ckpt_disk_ok env)"
| "ckpt_legal (Complete env r) = ckpt_disk_ok env"

fun ckpt_effect :: "ckpt_op \<Rightarrow> json option \<Rightarrow> json option" where
  "ckpt_effect (Update env r x st flds) (Some (JDict item)) = Some (JDict (touch_item st flds item))"
| "ckpt_effect (Update env r x st flds) v = v"
| "ckpt_effect (Complete env r) (Some v) = Some (JStr ''complete'')"
| "ckpt_effect (Complete env r) None = None"

text \<open>The item of a run, and the status of a run.\<close>

definition doc_view :: "string option \<Rightarrow> jdict \<Rightarrow> json option" where
  "doc_view x data =
     (case x of
        None \<Rightarrow> Some (jget data ''status'')
      | Some x' \<Rightarrow>
          (case items_of data of
             Inl e \<Rightarrow> None
           | Inr items \<Rightarrow> (case scan_items x' 0 items of Inr (Some i) \<Rightarrow> Some (items ! i) | _ \<Rightarrow> None)))"

fun ckpt_view :: "string \<times> string option \<Rightarrow> ckpt_dir \<Rightarrow> json option" where
  "ckpt_view (r, x) s =
     (if run_id_ok r
      then case dget s r of Some f \<Rightarrow> (case cf_content f of FJson (JDict data) \<Rightarrow> doc_view x data | _ \<Rightarrow> None)
           | None \<Rightarrow> None
      else None)"

definition ckpt_ready :: "ckpt_dir \<Rightarrow> bool" where
  "ckpt_ready s \<longleftrightarrow> (\<forall>r f. dget s r = Some f \<longrightarrow>
     (\<exists>data ids items. cf_content f = FJson (JDict data) \<and> ckpt_ok data ids items))"

lemma doc_view_ok:
  assumes "ckpt_ok data ids items"
  shows "i < length ids \<Longrightarrow> doc_view (Some (ids ! i)) data = Some (JDict (items ! i))"
    "x \<notin> set ids \<Longrightarrow> doc_view (Some x) data = None"
  using assms scan_found[of items ids]
  by (simp_all add: doc_view_def items_of_ok[OF assms] ckpt_ok_def)

lemma ckpt_ok_status [simp]: "ckpt_ok (dput ''status'' v data) ids items = ckpt_ok data ids items"
  by (simp add: ckpt_ok_def)

lemma ckpt_step_doc:
  assumes ok: "ckpt_ok data ids items" and leg: "ckpt_legal op" and r: "fst (ckpt_target op) = r" "run_id_ok r"
    and f: "dget s r = Some f" "cf_content f = FJson (JDict data)"
  obtains res data' items' t where "ckpt_step op s =
      (Inr res, dput r \<lparr>cf_mtime = t, cf_content = FJson (JDict data')\<rparr> s)" "ckpt_ok data' ids items'"
    "doc_view (snd (ckpt_target op)) data' = ckpt_effect op (doc_view (snd (ckpt_target op)) data)"
    "\<And>x. x \<noteq> snd (ckpt_target op) \<Longrightarrow> doc_view x data' = doc_view x data"
proof -
  have load: "load_checkpoint r s = (Inr (JDict data), s)"
    using r f by (simp add: load_checkpoint_def validate_run_id_def read_json_def)
  show ?thesis
  proof (cases op)
    case (Complete env r')
    let ?d' = "dput ''status'' (JStr ''complete'') data"
    have "ckpt_step op s = (Inr (Inr ()), dput r \<lparr>cf_mtime = e_now env, cf_content = FJson (JDict ?d')\<rparr> s)"
      using Complete r load leg by (simp add: mark_complete_def validate_run_id_def stateful_simps atomic_write_ok)
    moreover have "doc_view x ?d' = doc_view x data" if "x \<noteq> None" for x
      using that by (auto simp: doc_view_def items_of_def jindex_def)
    moreover have "doc_view None ?d' = ckpt_effect op (doc_view None data)"
      using Complete by (simp add: doc_view_def)
    ultimately show ?thesis using that[of "Inr ()" "e_now env" ?d' items] ok Complete by simp
  next
    case (Update env r' x st flds)
    have fl: "legal_fields flds" and dk: "ckpt_disk_ok env" using leg Update by simp_all
    have step: "ckpt_step op s = (Inr (Inr ()), dput r \<lparr>cf_mtime = e_now env, cf_content = FJson j\<rparr> s)"
      if "updated_data x st flds (JDict data) = Inr j" for j
      using Update r load that by (simp add: update_item_def validate_run_id_def stateful_simps atomic_write_ok[OF dk])
    show ?thesis
    proof (rule ckpt_ok_cases[OF ok, of x])
      assume x: "x \<notin> set ids"
      have "ckpt_effect op (doc_view (Some x) data) = doc_view (Some x) data"
        using Update doc_view_ok(2)[OF ok x] by simp
      then show ?thesis
        using that[of "Inr ()" "e_now env" data items] step[OF updated_data_absent[OF ok x]] ok Update by simp
    next
      fix i assume i: "i < length ids" "x = ids ! i"
      let ?items = "items[i := touch_item st flds (items ! i)]"
      let ?d' = "dput ''items'' (JList (map JDict ?items)) data"
      note up = updated_data_ok[OF ok fl i(1), of st]
      have len: "length items = length ids" using ok by (simp add: ckpt_ok_def)
      have own: "doc_view (Some x) ?d' = ckpt_effect op (doc_view (Some x) data)"
        using doc_view_ok(1)[OF up(2) i(1)] doc_view_ok(1)[OF ok i(1)] i Update len by simp
      have "doc_view y ?d' = doc_view y data" if y: "y \<noteq> Some x" for y
      proof (cases y)
        case None
        then show ?thesis by (simp add: doc_view_def)
      next
        case (Some z)
        show ?thesis
        proof (rule ckpt_ok_cases[OF ok, of z])
          fix j assume j: "j < length ids" "z = ids ! j"
          then have "j \<noteq> i" using y Some i by auto
          then show ?thesis using doc_view_ok(1)[OF up(2) j(1)] doc_view_ok(1)[OF ok j(1)] j Some by simp
        next
          assume "z \<notin> set ids"
          then show ?thesis using doc_view_ok(2)[OF up(2)] doc_view_ok(2)[OF ok] Some by simp
        qed
      qed
      then show ?thesis
        using that[of "Inr ()" "e_now env" ?d' ?items] step[OF up(1)[folded i(2)]] up(2) own Update by simp
    qed
  qed
qed

lemma ckpt_step_missing:
  assumes "fst (ckpt_target op) = r" "\<not> run_id_ok r \<or> dget s r = None"
  shows "\<exists>res. ckpt_step op s = (Inr res, s)"
  using assms
  by (cases op) (auto simp: update_item_def mark_complete_def load_checkpoint_def validate_run_id_def stateful_simps)

interpretation ckpt: keyed_store ckpt_view ckpt_step ckpt_target ckpt_effect ckpt_ready ckpt_legal
proof
  fix s op res s' k
  assume r: "ckpt_ready s" and l: "ckpt_legal op"
  obtain r x where t: "ckpt_target op = (r, x)" by (cases "ckpt_target op")
  have eff: "ckpt_effect op None = None" by (cases op) simp_all
  obtain res2 s2 where s2: "ckpt_step op s = (Inr res2, s2)" "ckpt_ready s2"
    "ckpt_view (r, x) s2 = ckpt_effect op (ckpt_view (r, x) s)"
    "\<And>k. k \<noteq> (r, x) \<Longrightarrow> ckpt_view k s2 = ckpt_view k s"
  proof (cases "run_id_ok r \<and> dget s r \<noteq> None")
    case False
    then obtain res where "ckpt_step op s = (Inr res, s)" using ckpt_step_missing[of op r s] t by auto
    moreover have "ckpt_view (r, x) s = None" using False by (auto split: option.splits)
    ultimately show ?thesis using that r eff by simp
  next
    case True
    then obtain f where f: "dget s r = Some f" "run_id_ok r" by blast
    obtain data ids items where d: "cf_content f = FJson (JDict data)" "ckpt_ok data ids items"
      using r[unfolded ckpt_ready_def] f by blast
    have t': "fst (ckpt_target op) = r" "snd (ckpt_target op) = x" using t by simp_all
    obtain res data' items' tm where st: "ckpt_step op s =
        (Inr res, dput r \<lparr>cf_mtime = tm, cf_content = FJson (JDict data')\<rparr> s)" "ckpt_ok data' ids items'"
      "doc_view x data' = ckpt_effect op (doc_view x data)"
      "\<And>y. y \<noteq> x \<Longrightarrow> doc_view y data' = doc_view y data"
      by (rule ckpt_step_doc[OF d(2) l t'(1) f(2,1) d(1), unfolded t'(2)]) blast
    let ?s2 = "dput r \<lparr>cf_mtime = tm, cf_content = FJson (JDict data')\<rparr> s"
    have "ckpt_ready ?s2" using r st(2) by (auto simp: ckpt_ready_def)
    moreover have "ckpt_view (r, x) ?s2 = ckpt_effect op (ckpt_view (r, x) s)" using f d st by simp
    moreover have "ckpt_view k ?s2 = ckpt_view k s" if "k \<noteq> (r, x)" for k
      using that f d st(4)[of "snd k"] by (cases k) auto
    ultimately show ?thesis using that st(1) by blast
  qed
  show "\<exists>r s'. ckpt_step op s = (Inr r, s') \<and> ckpt_ready s'" using s2 by blast
  show "ckpt_view (ckpt_target op) s' = ckpt_effect op (ckpt_view (ckpt_target op) s)"
    if "ckpt_step op s = (Inr res, s')" using s2 that t by simp
  show "ckpt_view k s' = ckpt_view k s" if "ckpt_step op s = (Inr res, s')" "k \<noteq> ckpt_target op"
    using s2 that t by simp
qed

lemma touch_touch_wf: "wf_dict flds \<Longrightarrow> f \<in> set OPTIONAL_ITEM_FIELDS \<Longrightarrow>
    dget (touch_item st flds item) f = Some (case dget flds f of Some v \<Rightarrow> v | None \<Rightarrow> JNull)"
  by (simp add: dget_touch_item split: option.splits)

lemma checkpoint_items_independent_facts:
  assumes "ckpt_ready s" "\<forall>op \<in> set ops. ckpt_legal op"
  shows "ckpt_view (r, x) (ckpt.run ops s) =
      fold ckpt_effect (filter (\<lambda>op. ckpt_target op = (r, x)) ops) (ckpt_view (r, x) s)"
    "filter (\<lambda>op. ckpt_target op = (r, Some i)) ops = pre @ [Update env r i st flds] \<Longrightarrow>
       ckpt_view (r, Some i) s = Some (JDict item) \<Longrightarrow> dget flds ''status'' = None \<Longrightarrow>
       \<exists>d. ckpt_view (r, Some i) (ckpt.run ops s) = Some (JDict d) \<and> dget d ''status'' = Some (JStr st) \<and>
         (\<forall>f \<in> set OPTIONAL_ITEM_FIELDS. dget d f = Some (case dget flds f of Some v \<Rightarrow> v | None \<Rightarrow> JNull))"
proof -
  have all: "ckpt_view (r, x) (ckpt.run ops s) =
      fold ckpt_effect (filter (\<lambda>op. ckpt_target op = (r, x)) ops) (ckpt_view (r, x) s)" for x
    by (rule ckpt.run_entry_legal[OF assms])
  then show "ckpt_view (r, x) (ckpt.run ops s) =
      fold ckpt_effect (filter (\<lambda>op. ckpt_target op = (r, x)) ops) (ckpt_view (r, x) s)" .
  assume f: "filter (\<lambda>op. ckpt_target op = (r, Some i)) ops = pre @ [Update env r i st flds]"
    and v: "ckpt_view (r, Some i) s = Some (JDict item)" and ns: "dget flds ''status'' = None"
  have tgt: "\<forall>op \<in> set pre. ckpt_target op = (r, Some i)"
  proof
    fix op assume "op \<in> set pre"
    then have "op \<in> set (filter (\<lambda>op. ckpt_target op = (r, Some i)) ops)" unfolding f by simp
    then show "ckpt_target op = (r, Some i)" by simp
  qed
  then have "\<exists>d. fold ckpt_effect pre (Some (JDict item)) = Some (JDict d)"
  proof (induction pre arbitrary: item)
    case (Cons op pre)
    then show ?case by (cases op) auto
  qed simp
  then obtain d where d: "fold ckpt_effect pre (Some (JDict item)) = Some (JDict d)" by blast
  have "Update env r i st flds \<in> set (filter (\<lambda>op. ckpt_target op = (r, Some i)) ops)" unfolding f by simp
  then have wf: "wf_dict flds" using assms(2) by (auto simp: legal_fields_def)
  have "ckpt_view (r, Some i) (ckpt.run ops s) = Some (JDict (touch_item st flds d))"
    using all[of "Some i"] f v d by simp
  moreover have "dget (touch_item st flds d) ''status'' = Some (JStr st)"
    using wf ns by (simp add: dget_touch_item OPTIONAL_ITEM_FIELDS_def)
  ultimately show "\<exists>d. ckpt_view (r, Some i) (ckpt.run ops s) = Some (JDict d) \<and> dget d ''status'' = Some (JStr st) \<and>
         (\<forall>f \<in> set OPTIONAL_ITEM_FIELDS. dget d f = Some (case dget flds f of Some v \<Rightarrow> v | None \<Rightarrow> JNull))"
    using touch_touch_wf[OF wf] by blast
qed

definition demo_dir :: ckpt_dir where
  "demo_dir = [(''20260101T000000-0123abcd'', \<lparr>cf_mtime = 1, cf_content = FJson (JDict demo_data)\<rparr>)]"

text \<open>Concurrent bookkeeping is per item: after any interleaving of updates and completions of
  any runs, an item of a run is what its own updates, in order, made of it. Its status and each
  optional field are those of the last of them, a field that one did not mention being \<open>None\<close>;
  ids, other items and other runs are untouched.\<close>

theorem checkpoint_items_independent:
  assumes "ckpt_ready s" "\<forall>op \<in> set ops. ckpt_legal op"
  shows "ckpt_view (r, x) (ckpt.run ops s) =
      fold ckpt_effect (filter (\<lambda>op. ckpt_target op = (r, x)) ops) (ckpt_view (r, x) s) \<and>
    (filter (\<lambda>op. ckpt_target op = (r, Some i)) ops = pre @ [Update env r i st flds] \<longrightarrow>
       ckpt_view (r, Some i) s = Some (JDict item) \<longrightarrow> dget flds ''status'' = None \<longrightarrow>
       (\<exists>d. ckpt_view (r, Some i) (ckpt.run ops s) = Some (JDict d) \<and> dget d ''status'' = Some (JStr st) \<and>
         (\<forall>f \<in> set OPTIONAL_ITEM_FIELDS. dget d f = Some (case dget flds f of Some v \<Rightarrow> v | None \<Rightarrow> JNull))))"
  using checkpoint_items_independent_facts[OF assms] by metis

theorem checkpoint_items_independent_witness:
  "\<exists>d. ckpt_view (''20260101T000000-0123abcd'', Some ''b'')
      (ckpt.run [Update env0 ''20260101T000000-0123abcd'' ''b'' ''failed'' [(''error'', JStr ''x'')],
                 Update env0 ''20260101T000000-0123abcd'' ''a'' ''failed'' [],
                 Update env0 ''20260101T000000-0123abcd'' ''b'' ''done'' []] demo_dir) = Some (JDict d) \<and>
    dget d ''status'' = Some (JStr ''done'') \<and>
    (\<forall>f \<in> set OPTIONAL_ITEM_FIELDS. dget d f = Some (case dget [] f of Some v \<Rightarrow> v | None \<Rightarrow> JNull))"
proof -
  have r: "ckpt_ready demo_dir" using demo_ok by (auto simp: ckpt_ready_def demo_dir_def)
  have ok: "run_id_ok ''20260101T000000-0123abcd''" by code_simp
  have v: "ckpt_view (''20260101T000000-0123abcd'', Some ''b'') demo_dir = Some (JDict (new_item None [(''id'', JStr ''b'')]))"
    using ok doc_view_ok(1)[OF demo_ok, of 1] by (simp add: demo_dir_def demo_rows_def)
  show ?thesis
    by (rule checkpoint_items_independent[OF r, THEN conjunct2, rule_format, where r = "''20260101T000000-0123abcd''" and i = "''b''" and env = env0
          and pre = "[Update env0 ''20260101T000000-0123abcd'' ''b'' ''failed'' [(''error'', JStr ''x'')]]"])
       (use v in \<open>auto simp: legal_fields_def\<close>)
qed

section \<open>Creation\<close>

lemma build_index_ids:
  assumes "\<forall>d \<in> set items. \<exists>x. dget d ''id'' = Some (JStr x)"
  shows "\<exists>ids. length ids = length items \<and> (\<forall>i < length ids. dget (items ! i) ''id'' = Some (JStr (ids ! i)))"
  using assms
proof (induction items)
  case (Cons d items)
  then obtain ids x where "length ids = length items" "\<forall>i < length ids. dget (items ! i) ''id'' = Some (JStr (ids ! i))"
    "dget d ''id'' = Some (JStr x)" by auto
  then show ?case by (intro exI[of _ "x # ids"]) (auto simp: nth_Cons split: nat.splits)
qed simp

lemma build_index_ok:
  assumes "length items = length ids" "\<forall>i < length ids. dget (items ! i) ''id'' = Some (JStr (ids ! i))" "distinct ids"
  shows "\<exists>ix. build_index env n items acc = Inr ix \<and> (\<forall>i < length ids. dget ix (ids ! i) = Some (JInt (int (n + i)))) \<and>
     (\<forall>x. x \<notin> set ids \<longrightarrow> dget ix x = dget acc x)"
  using assms
proof (induction items ids arbitrary: n acc rule: list_induct2)
  case (Cons d items y ys)
  have d: "dget d ''id'' = Some (JStr y)" using Cons.prems(1)[rule_format, of 0] by simp
  have "\<exists>ix. build_index env (n + 1) items (dput y (JInt (int n)) acc) = Inr ix \<and>
      (\<forall>i < length ys. dget ix (ys ! i) = Some (JInt (int (n + 1 + i)))) \<and>
      (\<forall>x. x \<notin> set ys \<longrightarrow> dget ix x = dget (dput y (JInt (int n)) acc) x)"
    using Cons.prems by (intro Cons.IH) auto
  then obtain ix where ix: "build_index env (n + 1) items (dput y (JInt (int n)) acc) = Inr ix"
    "\<forall>i < length ys. dget ix (ys ! i) = Some (JInt (int (n + 1 + i)))"
    "\<forall>x. x \<notin> set ys \<longrightarrow> dget ix x = dget (dput y (JInt (int n)) acc) x" by blast
  have "dget ix ((y # ys) ! i) = Some (JInt (int (n + i)))" if "i < length (y # ys)" for i
    using that ix(2,3) Cons.prems(2) by (cases i) auto
  then show ?case using ix(1,3) d by (intro exI[of _ ix]) (auto simp: jget_def dget_or_def)
qed simp

text \<open>A new run starts complete in the sense that every row has an item: for rows with distinct
  string ids, creation on a writable disk succeeds, the stored document is well formed, and each row's item is
  pending with the row as its payload.\<close>

theorem created_checkpoint_ok:
  assumes "length rows = length ids" "\<forall>i < length ids. dget (rows ! i) ''id'' = Some (JStr (ids ! i))" "distinct ids"
    "ckpt_disk_ok env"
  shows "\<exists>data. create_checkpoint env r rows platform mode flags s =
      (Inr r, dput r \<lparr>cf_mtime = e_now env, cf_content = FJson (JDict data)\<rparr> s) \<and>
    ckpt_ok data ids (map (new_item platform) rows) \<and> doc_view None data = Some JNull \<and>
    (\<forall>i < length ids. \<exists>d. doc_view (Some (ids ! i)) data = Some (JDict d) \<and>
       dget d ''status'' = Some (JStr ''pending'') \<and> dget d ''payload'' = Some (JDict (rows ! i)))"
proof -
  let ?items = "map (new_item platform) rows"
  have it: "length ?items = length ids" "\<forall>i < length ids. dget (?items ! i) ''id'' = Some (JStr (ids ! i))"
    using assms by (simp_all add: new_item_def jget_or_def dget_or_def)
  obtain ix where ix: "build_index env 0 ?items [] = Inr ix"
    "\<forall>i < length ids. dget ix (ids ! i) = Some (JInt (int (0 + i)))" "\<forall>x. x \<notin> set ids \<longrightarrow> dget ix x = dget [] x"
    using build_index_ok[OF it assms(3), of env 0 "[]"] by blast
  define data where "data = [(''run_id'', JStr r), (''started_at'', JStr (e_fmt env (e_now env))),
         (''platform'', opt_str platform), (''mode'', JStr mode), (''status'', JNull),
         (''items'', JList (map JDict ?items)), (''_id_to_index'', JDict ix),
         (''flags'', JDict (case flags of None \<Rightarrow> [] | Some f \<Rightarrow> f))]"
  have run: "create_checkpoint env r rows platform mode flags s =
      (Inr r, dput r \<lparr>cf_mtime = e_now env, cf_content = FJson (JDict data)\<rparr> s)"
    using ix(1) by (simp add: create_checkpoint_def Let_def stateful_simps atomic_write_ok[OF assms(4)] data_def)
  have ok: "ckpt_ok data ids ?items"
    using it assms(3) ix by (auto simp: ckpt_ok_def data_def)
  have "doc_view None data = Some JNull" by (simp add: doc_view_def data_def jget_def dget_or_def)
  then show ?thesis
    using run ok doc_view_ok(1)[OF ok] it(1) by (intro exI[of _ data]) (simp add: new_item_def)
qed

theorem created_checkpoint_ok_witness:
  "\<exists>data. create_checkpoint env0 ''r'' [[(''id'', JStr ''a'')], [(''id'', JStr ''b'')]] None ''draft'' None [] =
      (Inr ''r'', [(''r'', \<lparr>cf_mtime = 1000, cf_content = FJson (JDict data)\<rparr>)]) \<and>
     doc_view None data = Some JNull"
  using created_checkpoint_ok[of "[[(''id'', JStr ''a'')], [(''id'', JStr ''b'')]]" "[''a'', ''b'']" env0 "''r''" None "''draft''" None "[]"]
  by (auto simp: less_Suc_eq numeral_2_eq_2 env0_def ckpt_disk_ok_def)

section \<open>Repeated ids, and the field that stays\<close>

text \<open>With two rows of the same id the index points at the second only: every update of either
  lands on the second item, and the first stays pending for good, so the run never completes and a
  resume takes the row up again. The scan the index replaced would have picked the first.\<close>

theorem repeated_ids_lose_updates:
  "let r = ''20260101T000000-0123abcd'';
       s1 = snd (create_checkpoint env0 r [[(''id'', JStr ''a'')], [(''id'', JStr ''a'')]] None ''draft'' None []);
       s2 = snd (update_item env0 r ''a'' ''done'' [] s1);
       s3 = snd (update_item env0 r ''a'' ''done'' [] s2)
   in case dget s3 r of
        Some f \<Rightarrow> (case cf_content f of FJson (JDict data) \<Rightarrow>
          (case items_of data of Inr items \<Rightarrow> map item_status items = [Inr (JStr ''pending''), Inr (JStr ''done'')]
           | _ \<Rightarrow> False) \<and> find_item data ''a'' = Inr (Some 1) \<and>
          bindR (items_of data) (scan_items ''a'' 0) = Inr (Some 0) | _ \<Rightarrow> False)
      | None \<Rightarrow> False"
  by code_simp

text \<open>The \<open>verified\<close> flag both publish loops store is not among the optional fields an update
  resets: it lingers over a later status that says nothing about it.\<close>

theorem verified_flag_lingers:
  assumes "wf_dict flds" "dget flds ''verified'' = None" "dget item ''verified'' = Some v"
  shows "dget (touch_item st flds item) ''verified'' = Some v"
  using assms by (simp add: dget_touch_item OPTIONAL_ITEM_FIELDS_def)

theorem verified_flag_lingers_witness:
  "dget (touch_item ''failed'' [(''error'', JStr ''x'')] [(''id'', JStr ''a''), (''verified'', JBool False)]) ''verified''
     = Some (JBool False)"
  by (rule verified_flag_lingers) simp_all

section \<open>Listing and cleaning up\<close>

lemma mset_sort_desc [simp]: "mset (sort_desc k xs) = mset xs"
  by (simp add: sort_desc_def)

lemma set_sort_desc [simp]: "set (sort_desc k xs) = set xs"
  by (simp add: sort_desc_def)

lemma sorted_sort_desc: "sorted_wrt (\<lambda>a b. k b \<le> k a) (sort_desc k xs)"
proof -
  have "sorted (map k (sort_key k (rev xs)))" by simp
  then show ?thesis by (simp add: sort_desc_def sorted_wrt_rev sorted_map)
qed

definition doc_of :: "ckpt_file \<Rightarrow> jdict" where
  "doc_of f = (case cf_content f of FJson (JDict d) \<Rightarrow> d | _ \<Rightarrow> [])"

text \<open>A file the listing can judge.\<close>

definition listable :: "ckpt_file \<Rightarrow> bool" where
  "listable f \<longleftrightarrow> (\<exists>d b k. cf_content f = FJson (JDict d) \<and> run_incomplete d = Inr b \<and> started_key d = Inr k)"

lemma incomplete_loop_ok:
  "\<forall>(r, f) \<in> set fs. listable f \<Longrightarrow>
     incomplete_loop fs = Inr (filter (\<lambda>d. run_incomplete d = Inr True) (map (\<lambda>(r, f). doc_of f) fs))"
proof (induction fs)
  case (Cons p fs)
  obtain r f where p: "p = (r, f)" by (cases p)
  then obtain d b k where "cf_content f = FJson (JDict d)" "run_incomplete d = Inr b"
    using Cons.prems by (auto simp: listable_def)
  then show ?case using Cons p by (auto simp: read_json_def doc_of_def)
qed simp

lemma sort_runs_ok:
  assumes "\<forall>d \<in> set ds. \<exists>k. started_key d = Inr k"
  shows "\<exists>ds'. sort_runs ds = Inr ds' \<and> mset ds' = mset ds \<and>
     sorted_wrt (\<lambda>a b. \<exists>x y. started_key a = Inr x \<and> started_key b = Inr y \<and> y \<le> x) ds'"
proof -
  define key where "key d = (case started_key d of Inr k \<Rightarrow> k | Inl e \<Rightarrow> [])" for d
  have key: "started_key d = Inr (key d)" if "d \<in> set ds" for d
    using assms that by (auto simp: key_def)
  then have ks: "mapR started_key ds = Inr (map key ds)" by (intro mapR_total) simp
  have z: "zip (map key ds) ds = map (\<lambda>d. (key d, d)) ds" by (induction ds) auto
  let ?out = "sort_desc fst (zip (map key ds) ds)"
  have "mset (map snd ?out) = image_mset snd (mset (map (\<lambda>d. (key d, d)) ds))" by (simp add: z)
  also have "\<dots> = mset ds" by (simp add: multiset.map_comp comp_def flip: mset_map)
  finally have m: "mset (map snd ?out) = mset ds" .
  have mem: "\<And>p. p \<in> set ?out \<Longrightarrow> fst p = key (snd p) \<and> snd p \<in> set ds" by (auto simp: z)
  have "sorted_wrt (\<lambda>a b. fst b \<le> fst a) ?out" by (rule sorted_sort_desc)
  then have "sorted_wrt (\<lambda>a b. \<exists>x y. started_key (snd a) = Inr x \<and> started_key (snd b) = Inr y \<and> y \<le> x) ?out"
    by (rule sorted_wrt_mono_rel[rotated]) (use mem key in force)
  then have "sorted_wrt (\<lambda>a b. \<exists>x y. started_key a = Inr x \<and> started_key b = Inr y \<and> y \<le> x) (map snd ?out)"
    by (simp add: sorted_wrt_map)
  then show ?thesis using ks m by (simp add: sort_runs_def)
qed

text \<open>The list of resumable runs is exact and newest first: over at most twenty readable files it
  holds, once each, the runs that are not marked complete and have an item pending or failed.\<close>

theorem list_incomplete_exact:
  assumes "\<forall>(r, f) \<in> set s. listable f" "length s \<le> 20"
  shows "\<exists>ds. list_incomplete s = Inr ds \<and>
     mset ds = mset (filter (\<lambda>d. run_incomplete d = Inr True) (map (\<lambda>(r, f). doc_of f) s)) \<and>
     sorted_wrt (\<lambda>a b. \<exists>x y. started_key a = Inr x \<and> started_key b = Inr y \<and> y \<le> x) ds"
proof -
  let ?inc = "filter (\<lambda>d. run_incomplete d = Inr True)"
  have rec: "recent 20 s = sort_desc (\<lambda>(r, f). cf_mtime f) s"
    using assms(2) by (simp add: recent_def sort_desc_def)
  have l: "\<forall>(r, f) \<in> set (recent 20 s). listable f" using assms(1) by (simp add: rec)
  let ?ds = "?inc (map (\<lambda>(r, f). doc_of f) (recent 20 s))"
  have "\<forall>d \<in> set ?ds. \<exists>k. started_key d = Inr k"
    using l by (auto simp: listable_def doc_of_def split: json_file.splits json.splits)
  from sort_runs_ok[OF this] obtain ds where ds: "sort_runs ?ds = Inr ds" "mset ds = mset ?ds"
    "sorted_wrt (\<lambda>a b. \<exists>x y. started_key a = Inr x \<and> started_key b = Inr y \<and> y \<le> x) ds" by blast
  have m: "mset ?ds = mset (?inc (map (\<lambda>(r, f). doc_of f) s))"
    by (simp only: rec mset_filter mset_map mset_sort_desc)
  have "list_incomplete s = Inr ds" using incomplete_loop_ok[OF l] ds(1) by (simp add: list_incomplete_def)
  then show ?thesis using ds(2,3) unfolding m by blast
qed

definition demo_runs :: ckpt_dir where
  "demo_runs = (let r = (\<lambda>n t st. (''run'' @ n, \<lparr>cf_mtime = t, cf_content = FJson (JDict
       [(''run_id'', JStr n), (''started_at'', JStr (nat_str (nat \<lfloor>t\<rfloor>))), (''status'', JNull),
        (''items'', JList [JDict [(''status'', JStr st)]])])\<rparr>))
     in [r ''a'' 1 ''done'', r ''b'' 2 ''pending'', r ''c'' 3 ''failed''])"

theorem list_incomplete_exact_witness:
  "\<exists>ds. list_incomplete demo_runs = Inr ds \<and> length ds = 2"
proof -
  have l: "\<forall>(r, f) \<in> set demo_runs. listable f"
    by (simp add: demo_runs_def listable_def run_incomplete_def started_key_def jget_def jget_or_def dget_or_def
        jlist_of_def item_status_def jindex_def)
  have n: "length (filter (\<lambda>d. run_incomplete d = Inr True) (map (\<lambda>(r, f). doc_of f) demo_runs)) = 2"
    by (simp add: demo_runs_def doc_of_def run_incomplete_def jget_def jget_or_def dget_or_def jlist_of_def
        item_status_def jindex_def unfinished_status_def)
  have "length demo_runs \<le> 20" by (simp add: demo_runs_def)
  from list_incomplete_exact[OF l this] show ?thesis using n by (metis size_mset)
qed

definition complete_file :: "ckpt_file \<Rightarrow> bool" where
  "complete_file f \<longleftrightarrow> (\<exists>d. cf_content f = FJson (JDict d) \<and> jget d ''status'' = JStr ''complete'')"

text \<open>A file the clean-up gets past: an object, or one it skips.\<close>

definition skippable :: "ckpt_file \<Rightarrow> bool" where
  "skippable f \<longleftrightarrow> (\<exists>d. cf_content f = FJson (JDict d)) \<or>
     (\<exists>e. read_json (cf_content f) = Inl e \<and> (isinst e OSErr \<or> isinst e JSONDecodeError))"

lemma delete_loop_ok:
  "\<forall>(r, f) \<in> set fs. skippable f \<Longrightarrow>
     delete_loop fs n s = (Inr (n + length (filter (\<lambda>(r, f). complete_file f) fs)),
       filter (\<lambda>(k, v). \<not> (\<exists>f. (k, f) \<in> set fs \<and> complete_file f)) s)"
proof (induction fs arbitrary: n s)
  case Nil
  show ?case by (simp add: retS_def)
next
  case (Cons p fs)
  obtain r f where p: "p = (r, f)" by (cases p)
  have IH: "delete_loop fs m t = (Inr (m + length (filter (\<lambda>(r, f). complete_file f) fs)),
       filter (\<lambda>(k, v). \<not> (\<exists>f. (k, f) \<in> set fs \<and> complete_file f)) t)" for m t
    using Cons by auto
  have sk: "skippable f" using Cons.prems p by simp
  show ?case
  proof (cases "complete_file f")
    case True
    then have run: "delete_loop ((r, f) # fs) n s = delete_loop fs (n + 1) (ddel r s)"
      by (auto simp: complete_file_def read_json_def)
    have "filter (\<lambda>(k, v). \<not> (\<exists>f. (k, f) \<in> set fs \<and> complete_file f)) (ddel r s) =
        filter (\<lambda>(k, v). \<not> (\<exists>f'. (k, f') \<in> set ((r, f) # fs) \<and> complete_file f')) s"
      using True by (auto simp: AList.delete_eq case_prod_unfold intro!: filter_cong)
    then show ?thesis using IH[of "n + 1" "ddel r s"] run p True by simp
  next
    case False
    then have "delete_loop ((r, f) # fs) n s = delete_loop fs n s"
      using sk by (auto simp: skippable_def complete_file_def read_json_def)
    then show ?thesis using IH p False by (auto simp: case_prod_unfold intro!: filter_cong)
  qed
qed

text \<open>The clean-up removes exactly the runs marked complete, reports how many, and passes over
  files it cannot read.\<close>

theorem delete_complete_exact:
  assumes "wf_dict s" "\<forall>(r, f) \<in> set s. skippable f"
  shows "delete_complete s =
    (Inr (length (filter (\<lambda>(r, f). complete_file f) s)), filter (\<lambda>(r, f). \<not> complete_file f) s)"
proof -
  have "filter (\<lambda>(k, v). \<not> (\<exists>f. (k, f) \<in> set s \<and> complete_file f)) s = filter (\<lambda>(r, f). \<not> complete_file f) s"
    using assms(1) by (intro filter_cong) (auto simp: dget_iff_mem[OF assms(1), symmetric])
  then show ?thesis by (simp add: delete_complete_def delete_loop_ok[OF assms(2)])
qed

theorem delete_complete_exact_witness:
  "delete_complete [(''a'', \<lparr>cf_mtime = 1, cf_content = FBad (mkexn JSONDecodeError [])\<rparr>),
     (''b'', \<lparr>cf_mtime = 1, cf_content = FJson (JDict [(''status'', JStr ''complete'')])\<rparr>)] =
   (Inr 1, [(''a'', \<lparr>cf_mtime = 1, cf_content = FBad (mkexn JSONDecodeError [])\<rparr>)])"
  by (subst delete_complete_exact)
     (simp_all add: skippable_def complete_file_def read_json_def jget_def dget_or_def)

end
