(* ===== verification/Leases.thy ===== *)
theory Leases
  imports Sqlite_Util
begin

text \<open>
  Publish leases: the rows of the \<open>publish_leases\<close> table (\<open>events/store.py\<close>), at most one per
  platform, that keep two processes from publishing to the same platform, and the two clients that
  take them for a run: the command (\<open>cli/_publish_helpers.py\<close>) and the in-process runtime
  (\<open>sdk/_publish_runtime.py\<close>). \<open>isofmt\<close> is \<open>datetime.isoformat\<close> of a clock reading.
\<close>

record lease =
  le_owner_pid :: int
  le_started_at :: string
  le_expire_at :: string

type_synonym leases = "(string, lease) dict"

type_synonym 'a lact = "leases db \<Rightarrow> (exn + 'a) \<times> leases db"

section \<open>The store\<close>

text \<open>
  \<open>acquire_lease\<close> reads the row and then writes. The read runs before the implicit \<open>BEGIN\<close> of the
  write, so the two are separate steps: the plan is made on the table of the read and carried out
  on the table of the write.
\<close>

datatype lease_plan = PlanInsert | PlanTakeover | PlanRefuse

definition plan_lease :: "env \<Rightarrow> (pyfloat \<Rightarrow> string) \<Rightarrow> string \<Rightarrow> int \<Rightarrow> leases \<Rightarrow> lease_plan" where
  "plan_lease env isofmt target_host owner_pid t =
     (case dget t target_host of
        None \<Rightarrow> PlanInsert
      | Some row \<Rightarrow>
          if le_expire_at row < isofmt (e_now env) \<or> le_owner_pid row = owner_pid
             \<or> \<not> pid_alive env (le_owner_pid row)
          then PlanTakeover else PlanRefuse)"

definition new_lease :: "env \<Rightarrow> (pyfloat \<Rightarrow> string) \<Rightarrow> int \<Rightarrow> int \<Rightarrow> lease" where
  "new_lease env isofmt owner_pid ttl_seconds =
     \<lparr>le_owner_pid = owner_pid, le_started_at = isofmt (e_now env),
      le_expire_at = isofmt (e_now env + of_int ttl_seconds)\<rparr>"

definition write_lease :: "string \<Rightarrow> lease \<Rightarrow> lease_plan \<Rightarrow> leases \<Rightarrow> (exn + bool) \<times> leases" where
  "write_lease target_host row plan t =
     (case plan of
        PlanInsert \<Rightarrow>
          if dget t target_host \<noteq> None
          then (Inl (mkexn SqliteIntegrity ''UNIQUE constraint failed: publish_leases.target_host''), t)
          else (Inr True, dput target_host row t)
      | PlanTakeover \<Rightarrow> (Inr True, if dget t target_host = None then t else dput target_host row t)
      | PlanRefuse \<Rightarrow> (Inr False, t))"

definition acquire_body ::
  "env \<Rightarrow> (pyfloat \<Rightarrow> string) \<Rightarrow> string \<Rightarrow> int \<Rightarrow> int \<Rightarrow> leases \<Rightarrow> (exn + bool) \<times> leases" where
  "acquire_body env isofmt target_host owner_pid ttl_seconds t =
     write_lease target_host (new_lease env isofmt owner_pid ttl_seconds)
       (plan_lease env isofmt target_host owner_pid t) t"

definition acquire_lease :: "env \<Rightarrow> (pyfloat \<Rightarrow> string) \<Rightarrow> string \<Rightarrow> int \<Rightarrow> int \<Rightarrow> bool lact" where
  "acquire_lease env isofmt target_host owner_pid ttl_seconds =
     run_op (acquire_body env isofmt target_host owner_pid ttl_seconds)"

definition release_body :: "string \<Rightarrow> int \<Rightarrow> leases \<Rightarrow> (exn + unit) \<times> leases" where
  "release_body target_host owner_pid t =
     (Inr (), case dget t target_host of
                Some row \<Rightarrow> if le_owner_pid row = owner_pid then ddel target_host t else t
              | None \<Rightarrow> t)"

definition release_lease :: "string \<Rightarrow> int \<Rightarrow> unit lact" where
  "release_lease target_host owner_pid = run_op (release_body target_host owner_pid)"

definition get_lease :: "string \<Rightarrow> (lease option) lact" where
  "get_lease target_host = run_op (\<lambda>t. (Inr (dget t target_host), t))"

section \<open>The leases of a run\<close>

text \<open>A release that fails is only logged.\<close>

fun release_leases :: "string list \<Rightarrow> int \<Rightarrow> unit lact" where
  "release_leases [] pid = retS ()"
| "release_leases (plat # plats) pid =
     bindS (catchS [ExceptionClass] (release_lease plat pid) (\<lambda>e. retS ())) (\<lambda>u. release_leases plats pid)"

text \<open>
  The command: on contention the leases taken so far are given back and the one that is held is
  looked up. The result is the platform in the way with its lease, or nothing.
\<close>

fun acquire_loop ::
  "env \<Rightarrow> (pyfloat \<Rightarrow> string) \<Rightarrow> string list \<Rightarrow> string list \<Rightarrow> ((string \<times> lease option) option) lact" where
  "acquire_loop env isofmt [] acquired = retS None"
| "acquire_loop env isofmt (plat # plats) acquired =
     bindS (acquire_lease env isofmt plat (e_pid env) 3600) (\<lambda>ok.
       if ok then acquire_loop env isofmt plats (acquired @ [plat])
       else bindS (release_leases acquired (e_pid env)) (\<lambda>u.
            bindS (get_lease plat) (\<lambda>details. retS (Some (plat, details)))))"

definition acquire_publish_leases ::
  "env \<Rightarrow> (pyfloat \<Rightarrow> string) \<Rightarrow> string list \<Rightarrow> ((string \<times> lease option) option) lact" where
  "acquire_publish_leases env isofmt platforms = acquire_loop env isofmt (sort (remdups platforms)) []"

text \<open>
  The runtime's guard looks the lease up first, then gives back; what it took is given back by the
  caller's \<open>finally\<close>, once \<open>guard_acquire\<close> has returned.
\<close>

definition guard_platforms :: "string list \<Rightarrow> string list" where
  "guard_platforms platforms = sort (remdups (filter (\<lambda>p. p \<noteq> []) platforms))"

fun guard_loop ::
  "env \<Rightarrow> (pyfloat \<Rightarrow> string) \<Rightarrow> string list \<Rightarrow> string list \<Rightarrow> ((string \<times> lease option) option) lact" where
  "guard_loop env isofmt [] acquired = retS None"
| "guard_loop env isofmt (plat # plats) acquired =
     bindS (acquire_lease env isofmt plat (e_pid env) 3600) (\<lambda>ok.
       if ok then guard_loop env isofmt plats (acquired @ [plat])
       else bindS (get_lease plat) (\<lambda>details.
            bindS (release_leases acquired (e_pid env)) (\<lambda>u. retS (Some (plat, details)))))"

definition guard_acquire ::
  "env \<Rightarrow> (pyfloat \<Rightarrow> string) \<Rightarrow> string list \<Rightarrow> ((string \<times> lease option) option) lact" where
  "guard_acquire env isofmt platforms = guard_loop env isofmt (guard_platforms platforms) []"

definition guard_release :: "env \<Rightarrow> string list \<Rightarrow> unit lact" where
  "guard_release env platforms = release_leases (guard_platforms platforms) (e_pid env)"

end
