(* ===== verification/Resume.thy ===== *)
theory Resume
  imports Checkpoint Dedup_Backfill Policy Canary_Run Leases
begin

text \<open>
  Resuming an interrupted run (\<open>cli/_resume.py\<close>): the checkpoint, the dedup gate, the reliability
  policy, the leases and the canary stream working together, one item at a time. The adapters, the
  page verification, the payload validator, the credential files and the events projector are arguments (\<open>resume_ctx\<close>); messages are abbreviated to their fixed text. Item ids and
  platforms are strings.
\<close>

record rworld =
  rw_dedup :: world
  rw_policy :: pworld
  rw_ckpts :: ckpt_dir
  rw_canary :: web_store
  rw_leases :: "leases db"
  rw_expired :: "string list"
  rw_output :: "jdict list"
  rw_projected :: "string list"
  rw_sleeps :: "string list"

type_synonym 'a ract = "rworld \<Rightarrow> (exn + 'a) \<times> rworld"

definition on_dedup :: "'a act \<Rightarrow> 'a ract" where
  "on_dedup m w = (let (r, d) = m (rw_dedup w) in (r, w\<lparr>rw_dedup := d\<rparr>))"

definition on_policy :: "'a pact \<Rightarrow> 'a ract" where
  "on_policy m w = (let (r, p) = m (rw_policy w) in (r, w\<lparr>rw_policy := p\<rparr>))"

definition on_ckpt :: "'a cact \<Rightarrow> 'a ract" where
  "on_ckpt m w = (let (r, c) = m (rw_ckpts w) in (r, w\<lparr>rw_ckpts := c\<rparr>))"

definition on_canary :: "'a wact \<Rightarrow> 'a ract" where
  "on_canary m w = (let (r, c) = m (rw_canary w) in (r, w\<lparr>rw_canary := c\<rparr>))"

definition on_leases :: "'a lact \<Rightarrow> 'a ract" where
  "on_leases m w = (let (r, l) = m (rw_leases w) in (r, w\<lparr>rw_leases := l\<rparr>))"

definition warn :: "string \<Rightarrow> unit ract" where
  "warn s = on_dedup (print_err s)"

definition emit_error_as :: "string \<Rightarrow> int \<Rightarrow> string option \<Rightarrow> 'a ract" where
  "emit_error_as msg code cls =
     on_dedup (\<lambda>w. let (ls, e) = emit_error msg code cls in (Inl e, w\<lparr>w_err := w_err w @ ls\<rparr>))"

definition exit_with_envelope :: "string \<Rightarrow> int \<Rightarrow> string \<Rightarrow> 'a ract" where
  "exit_with_envelope cls code msg =
     on_dedup (\<lambda>w. let (ls, e) = emit_envelope_and_exit cls code msg in (Inl e, w\<lparr>w_err := w_err w @ ls\<rparr>))"

record resume_ctx =
  rx_env :: env
  rx_run_id :: string
  rx_ckpt :: jdict
  rx_no_verify :: bool
  rx_publish :: "string \<Rightarrow> jdict \<Rightarrow> exn + adapter_result"
  rx_verify_published :: "string \<Rightarrow> json \<Rightarrow> json list \<Rightarrow> int \<Rightarrow> bool \<times> string"
  rx_initial_revs :: "(string, int) dict"
  rx_token_revs :: "nat \<Rightarrow> (string, int) dict"
  rx_mark_expired :: "string \<Rightarrow> exn + unit"

record resume_state =
  rs_resume_elapsed_skip_throttle :: bool
  rs_first_medium_in_resume :: bool
  rs_last_medium_success_idx :: int
  rs_unverified_ids :: "string list"
  rs_dedup_skip_count :: nat
  rs_dedup_hold_count :: nat

section \<open>Items\<close>

definition item_to_publish_output :: "jdict \<Rightarrow> jdict" where
  "item_to_publish_output item =
     (let fallback = filter truthy
            [py_or (jget item ''published_url'') (JStr []), py_or (jget item ''draft_url'') (JStr [])];
          article_urls = (case jget item ''article_urls'' of
              JList (u # us) \<Rightarrow> u # us | _ \<Rightarrow> fallback)
      in carry_link_attr_verification
           [(''id'', jget_or item ''id'' (JStr [])), (''platform'', jget_or item ''platform'' (JStr [])),
            (''status'', jget_or item ''status'' (JStr [])), (''title'', jget_or item ''title'' (JStr [])),
            (''target_url'', jget_or item ''target_url'' (JStr [])), (''article_urls'', JList article_urls),
            (''draft_url'', JStr []), (''published_url'', py_or (jget item ''published_url'') (JStr [])),
            (''created_at'', jget_or item ''completed_at'' (JStr [])),
            (''adapter'', py_or (jget item ''adapter'') (JStr [])), (''error'', JNull)]
           (Some item))"

definition item_id :: "jdict \<Rightarrow> exn + string" where
  "item_id item = bindR (jindex (JDict item) ''id'') (\<lambda>v. case v of
     JStr s \<Rightarrow> Inr s | _ \<Rightarrow> Inl (mkexn TypeErr ''item id''))"

definition str_of :: "json \<Rightarrow> string" where
  "str_of j = (case j of JStr s \<Rightarrow> s | _ \<Rightarrow> [])"

text \<open>\<open>item["status"] in (...)\<close>.\<close>

definition item_unfinished :: "jdict \<Rightarrow> bool" where
  "item_unfinished item \<longleftrightarrow> unfinished_status (jget item ''status'')"

definition ckpt_update :: "resume_ctx \<Rightarrow> jdict \<Rightarrow> string \<Rightarrow> jdict \<Rightarrow> unit ract" where
  "ckpt_update ctx item status flds =
     bindS (liftR (item_id item)) (\<lambda>i. on_ckpt (update_item (rx_env ctx) (rx_run_id ctx) i status flds))"

definition record_resume_failure ::
  "resume_ctx \<Rightarrow> jdict \<Rightarrow> string \<Rightarrow> string \<Rightarrow> string \<Rightarrow> unit ract" where
  "record_resume_failure ctx item err_class err_msg platform =
     bindS (ckpt_update ctx item ''failed'' [(''error'', JStr err_msg), (''error_class'', JStr err_class)]) (\<lambda>u.
     bindS (liftR (jdict_of (py_or (jget item ''payload'') (JDict [])))) (\<lambda>row.
       on_dedup (record_failure (rx_env ctx) row platform (Some err_class) (Some (rx_run_id ctx)))))"

section \<open>Phase 2: revalidation\<close>

text \<open>\<open>enhance\<close> gives the validator's verdict on a payload: the errors where its status is
  \<open>failed\<close>. The result is the items as they are now in memory.\<close>

definition retro_class :: "string list \<Rightarrow> string" where
  "retro_class errors =
     (case errors of
        e # es \<Rightarrow> if startswith e ''body language'' then RETRO_LANGUAGE_FAILED else RETRO_ANCHOR_FAILED
      | [] \<Rightarrow> RETRO_ANCHOR_FAILED)"

fun revalidate :: "resume_ctx \<Rightarrow> (jdict \<Rightarrow> exn + string list option) \<Rightarrow> jdict list \<Rightarrow> jdict list ract" where
  "revalidate ctx enhance [] = retS []"
| "revalidate ctx enhance (item # items) =
     bindS (liftR (jindex (JDict item) ''status'')) (\<lambda>st.
     bindS
       (if \<not> unfinished_status st then retS item
        else if jget item ''error_class'' \<in> {JStr RETRO_LANGUAGE_FAILED, JStr RETRO_ANCHOR_FAILED} then retS item
        else bindS (liftR (bindR (jindex (JDict item) ''payload'') as_dict)) (\<lambda>row.
             bindS (liftR (enhance row)) (\<lambda>verdict.
             case verdict of
               None \<Rightarrow> retS item
             | Some errors \<Rightarrow>
                 bindS (ckpt_update ctx item ''failed''
                   [(''error'', JStr (join ''; '' errors)), (''error_class'', JStr (retro_class errors))]) (\<lambda>u.
                 retS (dput ''error_class'' (JStr (retro_class errors)) (dput ''status'' (JStr ''failed'') item))))))
       (\<lambda>item'. bindS (revalidate ctx enhance items) (\<lambda>rest. retS (item' # rest))))"

section \<open>Phase 3: selection\<close>

definition resumable :: "jdict \<Rightarrow> bool" where
  "resumable item \<longleftrightarrow> item_unfinished item \<and>
     jget item ''error_class'' \<notin> {JStr RETRO_LANGUAGE_FAILED, JStr RETRO_ANCHOR_FAILED, JStr POLICY_SKIP}"

fun select_warnings :: "resume_ctx \<Rightarrow> jdict list \<Rightarrow> unit ract" where
  "select_warnings ctx [] = retS ()"
| "select_warnings ctx (item # items) =
     bindS (liftR (jdict_of (py_or (jget item ''payload'') (JDict [])))) (\<lambda>row.
     let platform = str_of (py_or (jget (rx_ckpt ctx) ''platform'')
                     (py_or (jget item ''platform'') (jget_or row ''platform'' (JStr []))))
     in bindS
          (if jget item ''error_class'' = JStr ''http_5xx''
           then warn ''WARNING: item failed with HTTP 5xx - post may already be live. Verify before resuming.''
           else bindS (on_dedup (is_crashed_in_flight (rx_env ctx) row platform)) (\<lambda>b.
                if b then warn ''WARNING: item was interrupted mid-publish - post may already be live. Verify before resuming.''
                else retS ()))
          (\<lambda>u. select_warnings ctx items))"

definition select_resume_items :: "resume_ctx \<Rightarrow> jdict list \<Rightarrow> jdict list ract" where
  "select_resume_items ctx items =
     bindS (select_warnings ctx (filter resumable items)) (\<lambda>u. retS (filter resumable items))"

section \<open>Phase 4: nothing to do\<close>

text \<open>\<open>i["id"] in state.unverified_ids\<close>: ids are hashed. \<open>unverified\<close> is the set, where there is one.\<close>

definition id_unverified :: "string list option \<Rightarrow> jdict \<Rightarrow> exn + bool" where
  "id_unverified unverified i =
     (case unverified of
        None \<Rightarrow> Inr False
      | Some ids \<Rightarrow> bindR (jindex (JDict i) ''id'') (\<lambda>v.
          if hashable v then Inr (v \<in> JStr ` set ids) else Inl (mkexn TypeErr ''unhashable type'')))"

fun done_outputs :: "string list option \<Rightarrow> jdict list \<Rightarrow> exn + jdict list" where
  "done_outputs unverified [] = Inr []"
| "done_outputs unverified (i # items) =
     bindR (jindex (JDict i) ''status'') (\<lambda>st.
       if st = JStr ''done''
       then bindR (id_unverified unverified i) (\<lambda>b.
            let out = item_to_publish_output i;
                out = (if b \<or> \<not> truthy (jget_or i ''verified'' (JBool True))
                       then dput ''status'' (JStr ''done_unverified'') out else out)
            in bindR (done_outputs unverified items) (\<lambda>outs. Inr (out # outs)))
       else done_outputs unverified items)"

definition write_output :: "jdict list \<Rightarrow> unit ract" where
  "write_output rows w = (Inr (), w\<lparr>rw_output := rw_output w @ rows\<rparr>)"

definition project_run_safe :: "string \<Rightarrow> unit ract" where
  "project_run_safe run_id w = (Inr (), w\<lparr>rw_projected := rw_projected w @ [run_id]\<rparr>)"

definition emit_noop_resume :: "resume_ctx \<Rightarrow> jdict list \<Rightarrow> unit ract" where
  "emit_noop_resume ctx items =
     bindS (liftR (done_outputs None items)) (\<lambda>outs.
     bindS (write_output outs) (\<lambda>u.
     bindS (project_run_safe (rx_run_id ctx)) (\<lambda>u.
     bindS (on_ckpt (mark_complete (rx_env ctx) (rx_run_id ctx))) (\<lambda>u.
       raiseS (SysExit 0)))))"

section \<open>Phase 5: throttling\<close>

fun resume_throttle_skip :: "env \<Rightarrow> jdict list \<Rightarrow> bool \<Rightarrow> exn + bool" where
  "resume_throttle_skip env [] skip = Inr skip"
| "resume_throttle_skip env (item # items) skip =
     (if jget item ''status'' = JStr ''done'' \<and> jget item ''platform'' = JStr ''medium''
      then bindR (jindex (JDict item) ''completed_at'') (\<lambda>c.
             case c of
               JStr s \<Rightarrow> (case e_iso env s of
                  Some t \<Rightarrow> resume_throttle_skip env items (e_now env - t \<ge> 300)
                | None \<Rightarrow> resume_throttle_skip env items skip)
             | _ \<Rightarrow> resume_throttle_skip env items skip)
      else resume_throttle_skip env items skip)"

definition throttle :: "string \<Rightarrow> nat \<Rightarrow> resume_state \<Rightarrow> resume_state ract" where
  "throttle platform item_idx st w =
     (let sleep = (\<lambda>s. w\<lparr>rw_sleeps := rw_sleeps w @ [s]\<rparr>) in
      if platform = ''medium''
      then if rs_first_medium_in_resume st
           then (Inr (st\<lparr>rs_first_medium_in_resume := False\<rparr>),
                 if rs_resume_elapsed_skip_throttle st then w else sleep ''resume first Medium post'')
           else (Inr st, if rs_last_medium_success_idx st = int item_idx - 1 then sleep ''next Medium post'' else w)
      else (Inr st, w))"

text \<open>A credential rotated since the start ends the run with exit code 3. Only the platforms bound at
  the start are compared; a file that is gone has revision 0.\<close>

definition revs_drifted :: "(string, int) dict \<Rightarrow> (string, int) dict \<Rightarrow> bool" where
  "revs_drifted initial current \<longleftrightarrow> \<not> list_all (\<lambda>(plat, rev). dget_or current plat 0 = rev) initial"

definition check_token_drift :: "resume_ctx \<Rightarrow> nat \<Rightarrow> unit ract" where
  "check_token_drift ctx item_idx =
     (if \<not> revs_drifted (rx_initial_revs ctx) (rx_token_revs ctx item_idx) then retS ()
      else emit_error_as ''error: configuration was updated mid-run. Aborting to prevent using revoked credentials.'' 3 None)"

section \<open>Phase 6: one item\<close>

text \<open>\<open>_do_verify\<close>: the page of the publish is checked for its required links.\<close>

fun required_links :: "json list \<Rightarrow> exn + json list" where
  "required_links [] = Inr []"
| "required_links (lnk # ls) =
     bindR (jdict_of lnk) (\<lambda>d.
       if truthy (jget d ''required'')
       then bindR (jindex (JDict d) ''url'') (\<lambda>u. bindR (required_links ls) (\<lambda>us. Inr (u # us)))
       else required_links ls)"

definition do_verify ::
  "bool \<Rightarrow> (string \<Rightarrow> json \<Rightarrow> json list \<Rightarrow> int \<Rightarrow> bool \<times> string) \<Rightarrow> adapter_result \<Rightarrow> jdict \<Rightarrow> exn + (bool \<times> string)" where
  "do_verify no_verify verify_published result row =
     (if no_verify then Inr (True, [])
      else let verify_url = (if ar_published_url result \<noteq> [] then ar_published_url result else ar_draft_url result) in
        if verify_url = [] then Inr (False, ''no URL to verify'')
        else bindR (jlist_of (jget_or row ''links'' (JList []))) (\<lambda>links.
             bindR (required_links links) (\<lambda>urls.
               Inr (verify_published verify_url (jget_or row ''title'' (JStr [])) urls
                      (if ar_post_publish_delay_seconds result > 0 then 30 else 10)))))"

text \<open>One dispatch, through the policy when it is switched on; the policy puts the platform in itself.\<close>

definition publish_call :: "env \<Rightarrow> (jdict \<Rightarrow> exn + adapter_result) \<Rightarrow> jdict \<Rightarrow> string \<Rightarrow> adapter_result ract" where
  "publish_call env publish row platform =
     on_policy
       (if policy_enabled env then publish_with_policy env publish platform row
        else call_adapter publish (dput ''platform'' (JStr platform) row))"

definition resume_publish :: "resume_ctx \<Rightarrow> jdict \<Rightarrow> string \<Rightarrow> string \<Rightarrow> adapter_result ract" where
  "resume_publish ctx row platform mode = publish_call (rx_env ctx) (rx_publish ctx mode) row platform"

text \<open>Flipping the channel's status; a failure is only logged.\<close>

definition mark_expired :: "(string \<Rightarrow> exn + unit) \<Rightarrow> string \<Rightarrow> unit ract" where
  "mark_expired flip channel w =
     (Inr (), case flip channel of
                Inr u \<Rightarrow> w\<lparr>rw_expired := rw_expired w @ [channel]\<rparr> | Inl x \<Rightarrow> w)"

text \<open>The \<open>except\<close> arms, in order; a handled failure ends the item, expired credentials and a missing
  dependency end the run.\<close>

definition resume_except :: "resume_ctx \<Rightarrow> jdict \<Rightarrow> jdict \<Rightarrow> string \<Rightarrow> exn \<Rightarrow> unit ract" where
  "resume_except ctx item row platform e =
     (let fail = (\<lambda>cls. on_dedup (record_failure (rx_env ctx) row platform (Some cls) (Some (rx_run_id ctx)))) in
      if isinst e AuthExpiredError
      then bindS (fail ''auth_expired'') (\<lambda>u.
           bindS (mark_expired (rx_mark_expired ctx) (exn_channel e)) (\<lambda>u.
           bindS (catchS [ExceptionClass]
                    (ckpt_update ctx item ''failed''
                       [(''error'', JStr (str_exn e)), (''error_class'', JStr ''auth_expired'')])
                    (\<lambda>x. warn ''[WARN] checkpoint update failed'')) (\<lambda>u.
             emit_error_as (str_exn e) 3 (Some (exc_name (exn_cls e))))))
      else if isinst e BannerUploadError
      then record_resume_failure ctx item ''banner_upload'' (''banner upload failed: '' @ str_exn e) platform
      else if isinst e DependencyError
      then bindS (fail ''dependency'') (\<lambda>u. emit_error_as (str_exn e) 3 None)
      else if isinst e ExternalServiceError
      then record_resume_failure ctx item (error_class_value (classify_exception e))
             (''service error: '' @ str_exn e) platform
      else record_resume_failure ctx item ''unexpected'' (''unexpected error: '' @ str_exn e) platform)"

definition opt_nonempty :: "string \<Rightarrow> string option" where
  "opt_nonempty s = (if s = [] then None else Some s)"

text \<open>After the dispatch: an error returned in band, or a publish.\<close>

definition resume_result ::
  "resume_ctx \<Rightarrow> jdict \<Rightarrow> jdict \<Rightarrow> string \<Rightarrow> nat \<Rightarrow> resume_state \<Rightarrow> adapter_result \<Rightarrow> resume_state ract" where
  "resume_result ctx item row platform item_idx st result =
     (case ar_error result of
        Some (c # cs) \<Rightarrow>
          bindS (on_dedup (record_failure (rx_env ctx) row platform None (Some (rx_run_id ctx)))) (\<lambda>u.
          bindS (ckpt_update ctx item ''failed''
                   [(''error'', JStr (c # cs)),
                    (''error_class'', JStr (if ar_status result \<in> {''skipped_policy'', ''skipped_circuit_open''}
                                          then POLICY_SKIP else ''unexpected''))]) (\<lambda>u.
            retS st))
      | _ \<Rightarrow>
          bindS (on_canary (record_publish_path (rx_env ctx) platform (ar_provider_meta result))) (\<lambda>n.
          bindS (liftR (do_verify (rx_no_verify ctx) (rx_verify_published ctx) result row)) (\<lambda>(verify_ok, reason).
          bindS (liftR (item_id item)) (\<lambda>i.
          bindS (on_dedup (record_done (rx_env ctx) row platform
                   (opt_nonempty (if ar_published_url result \<noteq> [] then ar_published_url result else ar_draft_url result))
                   verify_ok (Some (rx_run_id ctx)))) (\<lambda>u.
          bindS (ckpt_update ctx item ''done''
                   [(''published_url'', JStr (ar_published_url result)), (''adapter'', JStr (ar_adapter result)),
                    (''completed_at'', JStr (e_fmt (rx_env ctx) (e_now (rx_env ctx)))),
                    (''verified'', JBool verify_ok)]) (\<lambda>u.
            retS (let st' = (if verify_ok then st
                             else st\<lparr>rs_unverified_ids := List.insert i (rs_unverified_ids st)\<rparr>)
                  in if ar_post_publish_delay_seconds result > 0
                     then st'\<lparr>rs_last_medium_success_idx := int item_idx\<rparr> else st')))))))"

definition publish_one_resume_item ::
  "resume_ctx \<Rightarrow> jdict \<Rightarrow> nat \<Rightarrow> resume_state \<Rightarrow> resume_state ract" where
  "publish_one_resume_item ctx item item_idx st =
     bindS (liftR (bindR (jindex (JDict item) ''payload'') jdict_of)) (\<lambda>row.
     let platform = str_of (py_or (jget (rx_ckpt ctx) ''platform'') (jget_or row ''platform'' (JStr [])));
         mode = str_of (py_or (jget (rx_ckpt ctx) ''mode'') (jget_or row ''publish_mode'' (JStr ''draft'')))
     in bindS (throttle platform item_idx st) (\<lambda>st.
        bindS (liftR (item_id item)) (\<lambda>i.
        bindS (check_token_drift ctx item_idx) (\<lambda>u.
        bindS (on_dedup (gate (rx_env ctx) row platform (Some (rx_run_id ctx)) False)) (\<lambda>(verdict, drec).
        case verdict of
          VSkip \<Rightarrow>
            bindS (ckpt_update ctx item ''done''
                     [(''published_url'', case drec of None \<Rightarrow> JNull | Some r \<Rightarrow> jopt (r_live_url r)),
                      (''adapter'', JStr platform),
                      (''completed_at'', JStr (e_fmt (rx_env ctx) (e_now (rx_env ctx)))),
                      (''verified'', JBool True)]) (\<lambda>u.
              retS (st\<lparr>rs_dedup_skip_count := rs_dedup_skip_count st + 1\<rparr>))
        | VHold \<Rightarrow> retS (st\<lparr>rs_dedup_hold_count := rs_dedup_hold_count st + 1\<rparr>)
        | _ \<Rightarrow>
            bindS (catchS [ExceptionClass]
                     (bindS (resume_publish ctx row platform mode) (\<lambda>result. retS (Some result)))
                     (\<lambda>e. bindS (resume_except ctx item row platform e) (\<lambda>u. retS None))) (\<lambda>r.
            case r of
              None \<Rightarrow> retS st
            | Some result \<Rightarrow> resume_result ctx item row platform item_idx st result))))))"

fun resume_loop :: "resume_ctx \<Rightarrow> jdict list \<Rightarrow> nat \<Rightarrow> resume_state \<Rightarrow> resume_state ract" where
  "resume_loop ctx [] item_idx st = retS st"
| "resume_loop ctx (item # items) item_idx st =
     bindS (publish_one_resume_item ctx item item_idx st) (\<lambda>st'. resume_loop ctx items (item_idx + 1) st')"

section \<open>Phase 7: the result\<close>

definition doc_items :: "json \<Rightarrow> exn + jdict list" where
  "doc_items j = bindR (jdict_of j) (\<lambda>d. bindR (items_of d) (mapR jdict_of))"

definition finalize_resume :: "resume_ctx \<Rightarrow> resume_state \<Rightarrow> unit ract" where
  "finalize_resume ctx st =
     bindS (on_ckpt (load_checkpoint (rx_run_id ctx))) (\<lambda>j.
     bindS (project_run_safe (rx_run_id ctx)) (\<lambda>u.
     bindS (liftR (doc_items j)) (\<lambda>items.
     bindS (liftR (done_outputs (Some (rs_unverified_ids st)) items)) (\<lambda>outs.
     bindS (write_output outs) (\<lambda>u.
       let still_unfinished = filter item_unfinished items in
       if still_unfinished = []
       then bindS (on_ckpt (mark_complete (rx_env ctx) (rx_run_id ctx))) (\<lambda>u.
              if rs_unverified_ids st \<noteq> []
              then exit_with_envelope ''InternalError'' 5 ''payload(s) failed verification''
              else raiseS (SysExit 0))
       else bindS (if rs_dedup_hold_count st > 0 then warn ''row(s) held by the dedup gate'' else retS ()) (\<lambda>u.
              exit_with_envelope ''ExternalServiceError'' 4 ''payload(s) still unfinished after resume''))))))"

section \<open>The command\<close>

text \<open>\<open>c\<close> runs however \<open>m\<close> ends: a \<open>finally\<close> clause, or a handler at the exit of the process.\<close>

definition finallyS :: "('s \<Rightarrow> (exn + 'a) \<times> 's) \<Rightarrow> ('s \<Rightarrow> (exn + unit) \<times> 's) \<Rightarrow> 's \<Rightarrow> (exn + 'a) \<times> 's" where
  "finallyS m c s = (let (r, s1) = m s in case c s1 of (Inl e, s2) \<Rightarrow> (Inl e, s2) | (Inr u, s2) \<Rightarrow> (r, s2))"

text \<open>What the command is given from outside: the events database and the digest of the enforce
  precondition, \<open>datetime.isoformat\<close> for the leases, the platforms with an adapter and their setup
  check, the validator.\<close>

record resume_cmd =
  rc_ctx :: resume_ctx
  rc_digest :: "dedup_key \<Rightarrow> string"
  rc_events :: events_db
  rc_isofmt :: "pyfloat \<Rightarrow> string"
  rc_supported :: "string list"
  rc_setup :: "string \<Rightarrow> exn + unit"
  rc_enhance :: "jdict \<Rightarrow> exn + string list option"

fun verify_setups :: "string list \<Rightarrow> (string \<Rightarrow> exn + unit) \<Rightarrow> string list \<Rightarrow> unit ract" where
  "verify_setups supported setup [] = retS ()"
| "verify_setups supported setup (p # ps) =
     bindS (if p \<in> set supported
            then catchS [DependencyError] (liftR (setup p)) (\<lambda>e. emit_error_as (str_exn e) 3 None)
            else retS ())
       (\<lambda>u. verify_setups supported setup ps)"

text \<open>Another process on one of the platforms ends the run with exit code 3.\<close>

definition take_publish_leases :: "env \<Rightarrow> (pyfloat \<Rightarrow> string) \<Rightarrow> string list \<Rightarrow> unit ract" where
  "take_publish_leases env isofmt platforms =
     bindS (on_leases (acquire_publish_leases env isofmt platforms)) (\<lambda>r.
       case r of
         None \<Rightarrow> retS ()
       | Some (plat, details) \<Rightarrow>
           emit_error_as ''error: another publish process is currently active for this platform.'' 3 None)"

definition throttle_config :: "env \<Rightarrow> exn + int \<times> int" where
  "throttle_config env =
     (let get = (\<lambda>name dflt. case getenv env name of
            None \<Rightarrow> Inr dflt
          | Some s \<Rightarrow> (case int_of_str s of None \<Rightarrow> Inl (mkexn ValueErr ''invalid literal for int()'') | Some n \<Rightarrow> Inr n))
      in bindR (get ''MEDIUM_THROTTLE_MIN'' 60) (\<lambda>a. bindR (get ''MEDIUM_THROTTLE_MAX'' 300) (\<lambda>b. Inr (a, b))))"

definition ckpt_platforms :: "jdict list \<Rightarrow> string list" where
  "ckpt_platforms items = remdups (filter (\<lambda>p. p \<noteq> []) (map (\<lambda>i. str_of (jget i ''platform'')) items))"

text \<open>Everything after the leases are held.\<close>

definition leased_resume :: "resume_cmd \<Rightarrow> resume_ctx \<Rightarrow> jdict list \<Rightarrow> unit ract" where
  "leased_resume c ctx items =
     bindS (verify_setups (rc_supported c) (rc_setup c) (ckpt_platforms items)) (\<lambda>u.
     bindS (revalidate ctx (rc_enhance c) items) (\<lambda>items.
     bindS (select_resume_items ctx items) (\<lambda>to_process.
     if to_process = [] then emit_noop_resume ctx items
     else
       bindS (liftR (throttle_config (rx_env ctx))) (\<lambda>tc.
       bindS (liftR (resume_throttle_skip (rx_env ctx) items False)) (\<lambda>skip.
       bindS (resume_loop ctx to_process 0
                \<lparr>rs_resume_elapsed_skip_throttle = skip, rs_first_medium_in_resume = True,
                 rs_last_medium_success_idx = - 1, rs_unverified_ids = [],
                 rs_dedup_skip_count = 0, rs_dedup_hold_count = 0\<rparr>) (\<lambda>st.
         finalize_resume ctx st))))))"

text \<open>With \<open>--dry-run\<close> no lease is taken. Leases that were taken are given back when the process exits.\<close>

definition run_resume :: "resume_cmd \<Rightarrow> bool \<Rightarrow> string \<Rightarrow> unit ract" where
  "run_resume c dry_run run_id =
     (let env = rx_env (rc_ctx c) in
      bindS (catchS [ValueErr, FileNotFound] (on_ckpt (load_checkpoint run_id))
               (\<lambda>e. emit_error_as (str_exn e) 2 None)) (\<lambda>j.
      bindS (liftR (jdict_of j)) (\<lambda>ckpt.
      let ctx = (rc_ctx c)\<lparr>rx_ckpt := ckpt, rx_run_id := run_id\<rparr> in
      bindS (on_dedup (enforce_precondition_or_exit env (rc_digest c) (rc_events c))) (\<lambda>u.
      bindS (liftR (doc_items j)) (\<lambda>items.
      if dry_run then leased_resume c ctx items
      else
        bindS (take_publish_leases env (rc_isofmt c) (ckpt_platforms items)) (\<lambda>u.
          finallyS (leased_resume c ctx items)
            (on_leases (release_leases (sort (ckpt_platforms items)) (e_pid env)))))))))"

end
