(* ===== verification/Resume_Facts.thy ===== *)
theory Resume_Facts
  imports Resume Policy_Facts Dedup_Gate_Facts Checkpoint_Facts "HOL-Library.Sublist"
begin

text \<open>
  What a resume guarantees across the components it ties together: at most one dispatch per item
  and none the dedup gate did not grant, exit codes that tell the truth about unfinished items,
  and the places where they do not.
\<close>

section \<open>Dispatches of an item\<close>

abbreviation rcalls :: "rworld \<Rightarrow> jdict list" where
  "rcalls w \<equiv> pw_calls (rw_policy w)"

definition quiet :: "'a ract \<Rightarrow> bool" where
  "quiet m \<longleftrightarrow> (\<forall>w. rcalls (snd (m w)) = rcalls w)"

named_theorems quiets \<open>resume actions that do not dispatch\<close>

lemma quietD: "quiet m \<Longrightarrow> m w = (r, w') \<Longrightarrow> rcalls w' = rcalls w"
  by (metis quiet_def snd_conv)

lemma quiet_basic [quiets]:
  "quiet (retS a)" "quiet (raiseS e)" "quiet (liftR r)" "quiet (on_dedup m1)" "quiet (on_ckpt m2)" "quiet (on_canary m3)"
  "quiet (on_leases m4)"
  by (auto simp: quiet_def retS_def raiseS_def liftR_def on_dedup_def on_ckpt_def on_canary_def on_leases_def
      split: prod.splits)

lemma quiet_bind [quiets]: "quiet m \<Longrightarrow> (\<And>a. quiet (f a)) \<Longrightarrow> quiet (bindS m f)"
  unfolding quiet_def bindS_def by (auto split: prod.splits sum.splits) (metis snd_conv)+

lemma quiet_catch [quiets]: "quiet m \<Longrightarrow> (\<And>e. quiet (h e)) \<Longrightarrow> quiet (catchS cs m h)"
  unfolding quiet_def catchS_def by (auto split: prod.splits sum.splits) (metis snd_conv)+

lemma quiet_writes [quiets]:
  "quiet (\<lambda>w. (r, w\<lparr>rw_expired := f w\<rparr>))" "quiet (\<lambda>w. (r, w\<lparr>rw_output := f2 w\<rparr>))"
  "quiet (\<lambda>w. (r, w\<lparr>rw_projected := f3 w\<rparr>))"
  by (simp_all add: quiet_def)

lemma quiet_helpers [quiets]:
  "quiet (ckpt_update ctx item status flds)" "quiet (record_resume_failure ctx item ec msg p)"
  "quiet (warn s)" "quiet (emit_error_as msg code cls)" "quiet (exit_with_envelope ec code msg)"
  "quiet (throttle p i st)" "quiet (check_token_drift ctx i)"
proof -
  show "quiet (throttle p i st)" by (auto simp: quiet_def throttle_def Let_def)
qed (auto simp: ckpt_update_def record_resume_failure_def warn_def emit_error_as_def exit_with_envelope_def
      check_token_drift_def intro!: quiets)

lemma quiet_mark [quiets]: "quiet (mark_expired f ch)"
  by (auto simp: quiet_def mark_expired_def split: sum.splits)

lemma quiet_except [quiets]: "quiet (resume_except ctx item row p e)"
  unfolding resume_except_def Let_def
  by (auto intro!: quiets)

lemma quiet_result [quiets]: "quiet (resume_result ctx item row p i st result)"
  unfolding resume_result_def
  by (auto intro!: quiets split: option.splits list.splits prod.splits)

text \<open>One publish: at most one call, of the payload with the platform put in.\<close>

lemma publish_call_calls:
  assumes "publish_call env pub row p w = (r, w')"
  shows "rcalls w' = rcalls w \<or> rcalls w' = rcalls w @ [dput ''platform'' (JStr p) row]"
proof -
  obtain w2 where w2: "rw_policy w' = w2"
    "(if policy_enabled env then publish_with_policy env pub p row
      else call_adapter pub (dput ''platform'' (JStr p) row)) (rw_policy w) = (r, w2)"
    using assms by (auto simp: publish_call_def on_policy_def split: prod.splits)
  show ?thesis
  proof (cases "policy_enabled env")
    case False
    then have "w2 = (rw_policy w)\<lparr>pw_calls := rcalls w @ [dput ''platform'' (JStr p) row]\<rparr>"
      using w2(2) by (simp add: call_adapter_def)
    then show ?thesis using w2(1) by simp
  next
    case True
    then have run: "publish_with_policy env pub p row (rw_policy w) = (r, w2)" using w2(2) by simp
    from run True show ?thesis
    proof (cases rule: policy_run_cases)
      case (skipped x w1)
      then show ?thesis using no_callD[OF no_call_gates(1) skipped(1)] w2(1) by simp
    next
      case (gated g2 w2' w3)
      have c3: "pw_calls w3 = rcalls w" using no_callD[OF no_call_gates(2) gated(1)] gated(2) by simp
      show ?thesis
        using gated(4) c3 guarded_attempt(1)[of pub p _ env w3 r w2] w2(1) by (auto split: sum.splits option.splits)
    qed
  qed
qed

lemma resume_publish_calls:
  "resume_publish ctx row p mode w = (r, w') \<Longrightarrow>
     rcalls w' = rcalls w \<or> rcalls w' = rcalls w @ [dput ''platform'' (JStr p) row]"
  unfolding resume_publish_def by (rule publish_call_calls)

definition resume_platform :: "resume_ctx \<Rightarrow> jdict \<Rightarrow> string" where
  "resume_platform ctx row = str_of (py_or (jget (rx_ckpt ctx) ''platform'') (jget_or row ''platform'' (JStr [])))"

definition gate_here :: "resume_ctx \<Rightarrow> jdict \<Rightarrow> rworld \<Rightarrow> (exn + verdict \<times> dedup_record option) \<times> world" where
  "gate_here ctx row w = gate (rx_env ctx) row (resume_platform ctx row) (Some (rx_run_id ctx)) False (rw_dedup w)"

lemma throttle_dedup: "throttle p i st w = (r, w') \<Longrightarrow> rw_dedup w' = rw_dedup w \<and> rcalls w' = rcalls w \<and> \<not> isl r"
  by (auto simp: throttle_def Let_def split: if_splits)

lemma drift_dedup: "check_token_drift ctx i w = (Inr u, w') \<Longrightarrow> w' = w"
  by (auto simp: check_token_drift_def retS_def emit_error_as_def on_dedup_def emit_error_def split: if_splits)

text \<open>After the gate has let an item through.\<close>

lemma dispatched_calls:
  assumes "bindS (catchS [ExceptionClass]
                     (bindS (resume_publish ctx row p mode) (\<lambda>result. retS (Some result)))
                     (\<lambda>e. bindS (resume_except ctx item row p e) (\<lambda>u. retS None))) (\<lambda>r.
            case r of
              None \<Rightarrow> retS st
            | Some result \<Rightarrow> resume_result ctx item row p i st result) w = (r, w')"
  shows "rcalls w' = rcalls w \<or> rcalls w' = rcalls w @ [dput ''platform'' (JStr p) row]"
proof -
  obtain x w1 where x: "resume_publish ctx row p mode w = (x, w1)" by (cases "resume_publish ctx row p mode w")
  have q: "quiet (\<lambda>w. bindS (resume_except ctx item row p e) (\<lambda>u. retS None) w)"
    "quiet (case y of None \<Rightarrow> retS st | Some result \<Rightarrow> resume_result ctx item row p i st result)" for e y
    by (auto intro!: quiets split: option.splits)
  have "rcalls w' = rcalls w1"
    using assms x quietD[OF q(1)] quietD[OF q(2)]
    by (auto simp: bindS_def[of "catchS _ _ _"] catchS_def bindS_def[of "resume_publish _ _ _ _"] retS_def[of "Some _"]
        split: prod.splits sum.splits option.splits if_splits)
  then show ?thesis using resume_publish_calls[OF x] by simp
qed

text \<open>An item reaches the adapters at most once, and only if the dedup gate, asked for its key in the store
  as it is at that moment, answered dispatch.\<close>

lemma resume_item_calls:
  assumes "jindex (JDict item) ''payload'' = Inr (JDict row)"
    "publish_one_resume_item ctx item i st w = (r, w')"
  shows "rcalls w' = rcalls w \<or>
    (\<exists>drec. fst (gate_here ctx row w) = Inr (VDispatch, drec)) \<and>
    rcalls w' = rcalls w @ [dput ''platform'' (JStr (resume_platform ctx row)) row]"
proof -
  let ?p = "resume_platform ctx row"
  obtain st1 w1 where t: "throttle ?p i st w = (Inr st1, w1)" "rw_dedup w1 = rw_dedup w" "rcalls w1 = rcalls w"
    using throttle_dedup by (metis prod.collapse sum.collapse(2))
  obtain drift wd where dr: "check_token_drift ctx i w1 = (drift, wd)" by (cases "check_token_drift ctx i w1")
  obtain g d where g: "gate_here ctx row w = (g, d)" by (cases "gate_here ctx row w")
  then have g1: "on_dedup (gate (rx_env ctx) row ?p (Some (rx_run_id ctx)) False) w1 = (g, w1\<lparr>rw_dedup := d\<rparr>)"
    using t(2) by (simp add: gate_here_def on_dedup_def)
  note run = assms(2)[unfolded publish_one_resume_item_def Let_def assms(1) resume_platform_def[symmetric]
      bindR.simps jdict_of.simps bindS_liftR bindS_step[where m = "throttle _ _ _", OF t(1)]]
  show ?thesis
  proof (cases "item_id item")
    case (Inl e)
    then show ?thesis using run t(3) by (simp add: bindS_liftR)
  next
    case (Inr iid)
    note run2 = run[unfolded Inr bindS_liftR]
    show ?thesis
    proof (cases drift)
      case (Inl e)
      then show ?thesis using run2 t(3) quietD[OF quiet_helpers(7) dr]
        by (simp add: bindS_stop[where m = "check_token_drift _ _", OF dr[unfolded Inl]])
    next
      case (Inr u)
      then have "check_token_drift ctx i w1 = (Inr u, w1)" using drift_dedup dr by simp
      note run3 = run2[unfolded bindS_step[where m = "check_token_drift _ _", OF this]]
      show ?thesis
      proof (cases g)
        case (Inl e)
        then have "w' = w1\<lparr>rw_dedup := d\<rparr>" using run3 by (simp add: bindS_stop[where m = "on_dedup _", OF g1[unfolded Inl]])
        then show ?thesis using t(3) by simp
      next
        case (Inr vd)
        obtain v drec where vd: "vd = (v, drec)" by (cases vd)
        note run4 = run3[unfolded bindS_step[where m = "on_dedup _", OF g1[unfolded Inr]] vd prod.case]
        have c2: "rcalls (w1\<lparr>rw_dedup := d\<rparr>) = rcalls w" using t(3) by simp
        have q: "quiet (\<lambda>w. bindS (ckpt_update ctx item st0 flds) (\<lambda>u. retS st2) w)" for st0 flds st2
          by (auto intro!: quiets)
        show ?thesis
        proof (cases v)
          case VSkip
          then show ?thesis using run4 c2 by (auto dest!: quietD[OF q])
        next
          case VHold
          then show ?thesis using run4 c2 by (simp add: retS_def)
        next
          case VDispatch
          then show ?thesis
            using run4 c2 dispatched_calls[of ctx row ?p] g Inr vd by fastforce
        next
          case VConflict
          then show ?thesis using g Inr vd by (auto simp: gate_here_def dest: gate_no_conflict)
        qed
      qed
    qed
  qed
qed

section \<open>Dispatches of a resume\<close>

definition payload_of :: "jdict \<Rightarrow> jdict" where
  "payload_of item = (case jget item ''payload'' of JDict row \<Rightarrow> row | _ \<Rightarrow> [])"

definition resume_call :: "resume_ctx \<Rightarrow> jdict \<Rightarrow> jdict" where
  "resume_call ctx item = dput ''platform'' (JStr (resume_platform ctx (payload_of item))) (payload_of item)"

text \<open>Between the two worlds the adapters were called for some of the items, in order; the k-th call came
  when the gate, in a world in which the calls before it had been made, answered dispatch.\<close>

definition dispatched :: "resume_ctx \<Rightarrow> jdict list \<Rightarrow> rworld \<Rightarrow> rworld \<Rightarrow> bool" where
  "dispatched ctx items w w' \<longleftrightarrow>
     (\<exists>sel ws. subseq sel items \<and> rcalls w' = rcalls w @ map (resume_call ctx) sel \<and> length ws = length sel \<and>
        (\<forall>k < length sel. rcalls (ws ! k) = rcalls w @ map (resume_call ctx) (take k sel) \<and>
           (\<exists>drec. fst (gate_here ctx (payload_of (sel ! k)) (ws ! k)) = Inr (VDispatch, drec))))"

definition calls_from :: "resume_ctx \<Rightarrow> jdict list \<Rightarrow> 'a ract \<Rightarrow> bool" where
  "calls_from ctx items m \<longleftrightarrow> (\<forall>w. dispatched ctx items w (snd (m w)))"

lemma calls_fromD: "calls_from ctx items m \<Longrightarrow> m w = (r, w') \<Longrightarrow> dispatched ctx items w w'"
  by (metis calls_from_def snd_conv)

lemma dispatched_none: "rcalls w' = rcalls w \<Longrightarrow> dispatched ctx items w w'"
  unfolding dispatched_def by (intro exI[of _ "[]"]) simp

lemma dispatched_before: "dispatched ctx items w1 w' \<Longrightarrow> rcalls w1 = rcalls w \<Longrightarrow> dispatched ctx items w w'"
  by (simp add: dispatched_def)

lemma dispatched_after: "dispatched ctx items w w1 \<Longrightarrow> rcalls w' = rcalls w1 \<Longrightarrow> dispatched ctx items w w'"
  by (simp add: dispatched_def)

lemma dispatched_mono: "dispatched ctx items w w' \<Longrightarrow> subseq items items' \<Longrightarrow> dispatched ctx items' w w'"
  unfolding dispatched_def using subseq_order.trans by blast

lemma dispatched_Cons:
  assumes "rcalls w1 = rcalls w @ [resume_call ctx item]"
    "fst (gate_here ctx (payload_of item) w) = Inr (VDispatch, drec)" "dispatched ctx items w1 w'"
  shows "dispatched ctx (item # items) w w'"
proof -
  obtain sel ws where s: "subseq sel items" "rcalls w' = rcalls w1 @ map (resume_call ctx) sel" "length ws = length sel"
    "\<forall>k < length sel. rcalls (ws ! k) = rcalls w1 @ map (resume_call ctx) (take k sel) \<and>
       (\<exists>drec. fst (gate_here ctx (payload_of (sel ! k)) (ws ! k)) = Inr (VDispatch, drec))"
    using assms(3) unfolding dispatched_def by blast
  have "\<forall>k < length (item # sel). rcalls ((w # ws) ! k) = rcalls w @ map (resume_call ctx) (take k (item # sel)) \<and>
       (\<exists>drec. fst (gate_here ctx (payload_of ((item # sel) ! k)) ((w # ws) ! k)) = Inr (VDispatch, drec))"
    using s(4) assms(1,2) by (auto simp: nth_Cons split: nat.splits)
  then show ?thesis
    unfolding dispatched_def using s(1-3) assms(1) by (intro exI[of _ "item # sel"] exI[of _ "w # ws"]) simp
qed

lemma calls_from_quiet: "quiet m \<Longrightarrow> calls_from ctx items m"
  by (auto simp: calls_from_def quiet_def intro: dispatched_none)

lemma calls_from_bind:
  assumes "quiet m" "\<And>a w w1. m w = (Inr a, w1) \<Longrightarrow> calls_from ctx items (f a)"
  shows "calls_from ctx items (bindS m f)"
  unfolding calls_from_def
proof
  fix w
  obtain r w1 where m: "m w = (r, w1)" by (cases "m w")
  note q = quietD[OF assms(1) m]
  show "dispatched ctx items w (snd (bindS m f w))"
  proof (cases r)
    case (Inl e)
    then show ?thesis using m q by (simp add: bindS_def dispatched_none)
  next
    case (Inr a)
    then have "dispatched ctx items w1 (snd (f a w1))" using assms(2)[of w a w1] m by (simp add: calls_from_def)
    then show ?thesis using m Inr q by (simp add: bindS_def dispatched_before[OF _ q])
  qed
qed

lemma calls_from_then:
  assumes "calls_from ctx items m" "\<And>a. quiet (f a)"
  shows "calls_from ctx items (bindS m f)"
  unfolding calls_from_def
proof
  fix w
  obtain r w1 where m: "m w = (r, w1)" by (cases "m w")
  note d = calls_fromD[OF assms(1) m]
  show "dispatched ctx items w (snd (bindS m f w))"
    using m d assms(2) by (cases r) (auto simp: bindS_def quiet_def intro: dispatched_after)
qed

lemma calls_from_finally:
  assumes "calls_from ctx items m" "quiet c"
  shows "calls_from ctx items (finallyS m c)"
  unfolding calls_from_def
proof
  fix w
  obtain r w1 where m: "m w = (r, w1)" by (cases "m w")
  obtain x w2 where c: "c w1 = (x, w2)" by (cases "c w1")
  show "dispatched ctx items w (snd (finallyS m c w))"
    using dispatched_after[OF calls_fromD[OF assms(1) m] quietD[OF assms(2) c]] m c
    by (cases x) (simp_all add: finallyS_def)
qed

lemma no_payload:
  "(\<nexists>row. jindex (JDict item) ''payload'' = Inr (JDict row)) \<Longrightarrow> \<exists>e. bindR (jindex (JDict item) ''payload'') jdict_of = Inl e"
proof -
  assume no: "\<nexists>row. jindex (JDict item) ''payload'' = Inr (JDict row)"
  show ?thesis
  proof (cases "jindex (JDict item) ''payload''")
    case (Inr j)
    then show ?thesis using no by (cases j) auto
  qed simp
qed

lemma payload_of_index: "jindex (JDict item) ''payload'' = Inr (JDict row) \<Longrightarrow> payload_of item = row"
  by (auto simp: payload_of_def jindex_def jget_def dget_or_def split: option.splits)

lemma resume_item_calls':
  assumes one: "publish_one_resume_item ctx item i st w = (r, w')"
  shows "rcalls w' = rcalls w \<or>
    (\<exists>drec. fst (gate_here ctx (payload_of item) w) = Inr (VDispatch, drec)) \<and>
    rcalls w' = rcalls w @ [resume_call ctx item]"
proof (cases "\<exists>row. jindex (JDict item) ''payload'' = Inr (JDict row)")
  case True
  then show ?thesis using resume_item_calls[OF _ one] payload_of_index by (auto simp: resume_call_def)
next
  case False
  then show ?thesis using no_payload[OF False] one by (auto simp: publish_one_resume_item_def bindS_liftR)
qed

lemma resume_loop_calls: "calls_from ctx items (resume_loop ctx items i st)"
  unfolding calls_from_def
proof (intro allI)
  fix w show "dispatched ctx items w (snd (resume_loop ctx items i st w))"
  proof (induction items arbitrary: i st w)
    case Nil
    then show ?case by (simp add: retS_def dispatched_none)
  next
    case (Cons item items)
    obtain r w1 where one: "publish_one_resume_item ctx item i st w = (r, w1)"
      by (cases "publish_one_resume_item ctx item i st w")
    have sub: "subseq items (item # items)" by (rule list_emb_Cons) simp
    have rest: "dispatched ctx items w1 (snd (resume_loop ctx (item # items) i st w))"
      using one Cons.IH by (cases r) (simp_all add: bindS_def dispatched_none)
    show ?case
      using resume_item_calls'[OF one] rest sub by (auto intro: dispatched_Cons dispatched_mono dispatched_before)
  qed
qed

lemma quiet_phases [quiets]:
  "quiet (verify_setups supp setup ps)" "quiet (revalidate ctx enhance items)" "quiet (select_resume_items ctx items)"
  "quiet (emit_noop_resume ctx items)" "quiet (finalize_resume ctx st)" "quiet (take_publish_leases env isofmt ps)"
proof -
  show "quiet (verify_setups supp setup ps)" by (induction ps) (auto intro!: quiets)
  show "quiet (revalidate ctx enhance items)"
    by (induction items) (auto intro!: quiets split: option.splits)
  have "quiet (select_warnings ctx items)" for items
    by (induction items) (auto simp: Let_def intro!: quiets)
  then show "quiet (select_resume_items ctx items)" by (auto simp: select_resume_items_def intro!: quiets)
  show "quiet (emit_noop_resume ctx items)"
    by (auto simp: emit_noop_resume_def write_output_def[abs_def] project_run_safe_def[abs_def] intro!: quiets)
  show "quiet (finalize_resume ctx st)"
    by (auto simp: finalize_resume_def write_output_def[abs_def] project_run_safe_def[abs_def] Let_def intro!: quiets)
  show "quiet (take_publish_leases env isofmt ps)"
    by (auto simp: take_publish_leases_def intro!: quiets split: option.splits)
qed

text \<open>Revalidation leaves an item as it is or takes it out of the resume.\<close>

lemma revalidate_resumable:
  "revalidate ctx enhance items w = (Inr items', w') \<Longrightarrow> subseq (filter resumable items') (filter resumable items)"
proof (induction items arbitrary: w w' items')
  case Nil
  then show ?case by (simp add: retS_def)
next
  case (Cons item items)
  obtain item' rest w1 w2 where s: "revalidate ctx enhance items w1 = (Inr rest, w2)" "items' = item' # rest"
    "item' = item \<or> (\<exists>errors. item' = dput ''error_class'' (JStr (retro_class errors)) (dput ''status'' (JStr ''failed'') item))"
    using Cons.prems
    by (auto simp: bindS_def liftR_def retS_def split: prod.splits sum.splits if_splits option.splits; blast)
  have "\<not> resumable (dput ''error_class'' (JStr (retro_class errors)) d)" for errors d
    by (auto simp: resumable_def retro_class_def split: list.splits)
  then show ?case using Cons.IH[OF s(1)] s(2,3) by (auto intro: list_emb_Cons)
qed

lemma leased_resume_calls: "calls_from ctx (filter resumable items) (leased_resume c ctx items)"
  unfolding leased_resume_def
proof (intro calls_from_bind quiets)
  fix w items' w1
  assume "revalidate ctx (rc_enhance c) items w = (Inr items', w1)"
  note sub = revalidate_resumable[OF this]
  fix w2 to_process w3
  assume "select_resume_items ctx items' w2 = (Inr to_process, w3)"
  then have tp: "to_process = filter resumable items'"
    by (auto simp: select_resume_items_def bindS_def retS_def split: prod.splits sum.splits)
  have "calls_from ctx (filter resumable items) (resume_loop ctx to_process i st)" for i st
    using resume_loop_calls[of ctx to_process i st] dispatched_mono[OF _ sub] tp by (simp add: calls_from_def)
  then have loop: "calls_from ctx (filter resumable items) (bindS (resume_loop ctx to_process 0 st) (finalize_resume ctx))" for st
    by (rule calls_from_then) (rule quiets)
  show "calls_from ctx (filter resumable items) (if to_process = [] then emit_noop_resume ctx items'
     else
       bindS (liftR (throttle_config (rx_env ctx))) (\<lambda>tc.
       bindS (liftR (resume_throttle_skip (rx_env ctx) items' False)) (\<lambda>skip.
       bindS (resume_loop ctx to_process 0
                \<lparr>rs_resume_elapsed_skip_throttle = skip, rs_first_medium_in_resume = True,
                 rs_last_medium_success_idx = - 1, rs_unverified_ids = [],
                 rs_dedup_skip_count = 0, rs_dedup_hold_count = 0\<rparr>) (\<lambda>st.
         finalize_resume ctx st))))"
  proof (cases "to_process = []")
    case True
    then show ?thesis by (auto intro!: calls_from_quiet quiets)
  next
    case False
    show ?thesis unfolding if_not_P[OF False]
      by (rule calls_from_bind[OF quiet_basic(3)], rule calls_from_bind[OF quiet_basic(3)], rule loop)
  qed
qed

text \<open>The document of a run as it is stored, and its items.\<close>

definition stored_doc :: "string \<Rightarrow> rworld \<Rightarrow> jdict" where
  "stored_doc run_id w = (case fst (load_checkpoint run_id (rw_ckpts w)) of Inr (JDict d) \<Rightarrow> d | _ \<Rightarrow> [])"

definition stored_items :: "string \<Rightarrow> rworld \<Rightarrow> jdict list" where
  "stored_items run_id w = (case doc_items (JDict (stored_doc run_id w)) of Inr items \<Rightarrow> items | Inl e \<Rightarrow> [])"

lemma run_resume_calls:
  assumes "run_resume c dry_run run_id w = (r, w')"
  shows "dispatched ((rc_ctx c)\<lparr>rx_ckpt := stored_doc run_id w, rx_run_id := run_id\<rparr>)
    (filter resumable (stored_items run_id w)) w w'"
proof -
  let ?load = "catchS [ValueErr, FileNotFound] (on_ckpt (load_checkpoint run_id)) (\<lambda>e. emit_error_as (str_exn e) 2 None)"
  obtain x w1 where l: "?load w = (x, w1)" by (cases "?load w")
  have "quiet ?load" by (auto intro!: quiets)
  then have q: "rcalls w1 = rcalls w" using l by (simp add: quiet_def) (metis snd_conv)
  note run = assms[unfolded run_resume_def Let_def]
  show ?thesis
  proof (cases "\<exists>d items. x = Inr (JDict d) \<and> doc_items (JDict d) = Inr items")
    case True
    then obtain d items where d: "x = Inr (JDict d)" "doc_items (JDict d) = Inr items" by blast
    have "fst (load_checkpoint run_id (rw_ckpts w)) = Inr (JDict d)"
      using l d(1) by (auto simp: catchS_def on_ckpt_def emit_error_as_def on_dedup_def emit_error_def split: prod.splits sum.splits if_splits)
    then have st: "stored_doc run_id w = d" "stored_items run_id w = items"
      using d(2) by (simp_all add: stored_doc_def stored_items_def)
    let ?ctx = "(rc_ctx c)\<lparr>rx_ckpt := d, rx_run_id := run_id\<rparr>"
    have "calls_from ?ctx (filter resumable items)
       (bindS (on_dedup (enforce_precondition_or_exit (rx_env (rc_ctx c)) (rc_digest c) (rc_events c))) (\<lambda>u.
          if dry_run then leased_resume c ?ctx items
          else
            bindS (take_publish_leases (rx_env (rc_ctx c)) (rc_isofmt c) (ckpt_platforms items)) (\<lambda>u.
              finallyS (leased_resume c ?ctx items)
                (on_leases (release_leases (sort (ckpt_platforms items)) (e_pid (rx_env (rc_ctx c))))))))"
      by (auto intro!: calls_from_bind leased_resume_calls calls_from_finally quiets)
    from calls_fromD[OF this, of w1 r w'] show ?thesis
      using run unfolding bindS_step[where m = ?load, OF l[unfolded d(1)]] jdict_of.simps bindS_liftR d(2) st
      by (simp add: dispatched_before[OF _ q])
  next
    case False
    have "rcalls w' = rcalls w1"
    proof (cases x)
      case (Inl e)
      then show ?thesis using run by (simp add: bindS_stop[where m = ?load, OF l[unfolded Inl]])
    next
      case (Inr j)
      note run2 = run[unfolded bindS_step[where m = ?load, OF l[unfolded Inr]]]
      show ?thesis
      proof (cases "jdict_of j")
        case (Inl e)
        then show ?thesis using run2 by (simp add: bindS_liftR)
      next
        case (Inr d)
        then have "j = JDict d" by (cases j) auto
        then obtain e where e: "doc_items j = Inl e" using False \<open>x = Inr j\<close> by (cases "doc_items j") auto
        have stop: "bindS (liftR (Inl e)) g = raiseS e" for g :: "jdict list \<Rightarrow> unit ract"
          by (rule ext) (simp add: bindS_liftR raiseS_def)
        have "quiet (bindS (on_dedup (enforce_precondition_or_exit (rx_env (rc_ctx c)) (rc_digest c) (rc_events c)))
            (\<lambda>u. bindS (liftR (doc_items j)) (f u)))" for f :: "unit \<Rightarrow> jdict list \<Rightarrow> unit ract"
          unfolding e stop by (intro quiets)
        from quietD[OF this] show ?thesis using run2 Inr by (simp add: bindS_liftR)
      qed
    qed
    then show ?thesis using q by (simp add: dispatched_none)
  qed
qed


section \<open>Scenarios\<close>

definition rdemo_id :: string where "rdemo_id = ''20260101T000000-0123abcd''"

definition rdemo_row :: jdict where
  "rdemo_row = [(''id'', JStr ''a''), (''platform'', JStr ''velog''), (''target_url'', JStr ''https://a.b/'')]"

text \<open>A run with one row, the enforce gate and the policy in observe mode. \<open>lock\<close> tells whether the
  lock of the circuit file can be had.\<close>

definition rdemo_world :: "bool \<Rightarrow> rworld" where
  "rdemo_world lock =
     \<lparr>rw_dedup = \<lparr>w_store = \<lparr>db_rows = [], db_faults = []\<rparr>,
        w_audit = \<lparr>al_lines = [], al_exists = False, al_error = None\<rparr>, w_out = [], w_err = []\<rparr>,
      rw_policy = (demo_pworld FAbsent)\<lparr>pw_circuit := \<lparr>js_file = FAbsent, js_lock = lock, js_save = None\<rparr>\<rparr>,
      rw_ckpts = snd (create_checkpoint env0 rdemo_id [rdemo_row] None ''draft'' None []),
      rw_canary = \<lparr>ws_file = FAbsent, ws_save = None\<rparr>,
      rw_leases = \<lparr>db_rows = [], db_faults = []\<rparr>,
      rw_expired = [], rw_output = [], rw_projected = [], rw_sleeps = []\<rparr>"

definition rdemo_cmd :: "(string \<Rightarrow> jdict \<Rightarrow> exn + adapter_result) \<Rightarrow> resume_cmd" where
  "rdemo_cmd publish =
     \<lparr>rc_ctx = \<lparr>rx_env = env0\<lparr>e_environ := [(ENFORCE_ENV, ''1''), (POLICY_ENV, ''observe'')]\<rparr>,
        rx_run_id = rdemo_id, rx_ckpt = [], rx_no_verify = True, rx_publish = publish,
        rx_verify_published = (\<lambda>u t l n. (True, [])), rx_initial_revs = [], rx_token_revs = (\<lambda>n. []),
        rx_mark_expired = (\<lambda>c. Inr ())\<rparr>,
      rc_digest = (\<lambda>k. []), rc_events = EvAbsent, rc_isofmt = (\<lambda>x. ''t''), rc_supported = [],
      rc_setup = (\<lambda>p. Inr ()), rc_enhance = (\<lambda>row. Inr None)\<rparr>"

definition item_statuses :: "rworld \<Rightarrow> json list" where
  "item_statuses w =
     (case dget (rw_ckpts w) rdemo_id of
        Some f \<Rightarrow> (case cf_content f of FJson j \<Rightarrow> (case doc_items j of
            Inr items \<Rightarrow> map (\<lambda>d. jget d ''status'') items | _ \<Rightarrow> []) | _ \<Rightarrow> [])
      | None \<Rightarrow> [])"

definition rdemo_loop :: resume_state where
  "rdemo_loop = \<lparr>rs_resume_elapsed_skip_throttle = False, rs_first_medium_in_resume = True,
     rs_last_medium_success_idx = - 1,
     rs_unverified_ids = [], rs_dedup_skip_count = 0, rs_dedup_hold_count = 0\<rparr>"


text \<open>The enforce gate does not save a publish whose success cannot be booked: the adapter
  publishes, the circuit file is locked elsewhere, the publish is reported as a service error and
  the key recorded as failed; the next resume dispatches the row again and ends with exit code 0.
  The same payload has been published twice.\<close>

theorem masked_success_is_republished:
  "let cmd = rdemo_cmd (\<lambda>mode. published);
       (r1, w1) = run_resume cmd False rdemo_id (rdemo_world False);
       w1' = w1\<lparr>rw_policy := (rw_policy w1)\<lparr>pw_circuit := \<lparr>js_file = FAbsent, js_lock = True, js_save = None\<rparr>\<rparr>\<rparr>;
       (r2, w2) = run_resume cmd False rdemo_id w1'
   in r1 = Inl (SysExit 4) \<and> item_statuses w1 = [JStr ''failed''] \<and> r2 = Inl (SysExit 0) \<and>
      item_statuses w2 = [JStr ''done''] \<and> rcalls w2 = [rdemo_row, rdemo_row]"
  by code_simp

text \<open>A missing dependency ends the run with the dedup key recorded as failed but the item still
  pending, with no error in its checkpoint.\<close>

theorem dependency_error_leaves_item_pending:
  "let (r, w) = run_resume (rdemo_cmd (\<lambda>mode p. Inl (mkexn DependencyError ''no browser''))) False rdemo_id (rdemo_world True)
   in r = Inl (SysExit 3) \<and> item_statuses w = [JStr ''pending''] \<and>
      map (\<lambda>(k, row). c_state row) (db_rows (w_store (rw_dedup w))) = [Failed]"
  by code_simp

text \<open>Items the policy skipped are never resumed: a run whose only open item is one is declared
  complete with exit code 0 although the item is still failed, and is no longer listed as
  resumable.\<close>

theorem policy_skipped_item_is_lost:
  "let cmd = rdemo_cmd (\<lambda>mode. published);
       w0 = rdemo_world True;
       w0 = w0\<lparr>rw_ckpts := snd (update_item env0 rdemo_id ''a'' ''failed''
               [(''error'', JStr ''circuit open for velog''), (''error_class'', JStr POLICY_SKIP)] (rw_ckpts w0))\<rparr>;
       (r, w) = run_resume cmd False rdemo_id w0
   in r = Inl (SysExit 0) \<and> rcalls w = [] \<and> item_statuses w = [JStr ''failed''] \<and>
      (case list_incomplete (rw_ckpts w0) of Inr ds \<Rightarrow> length ds = 1 | _ \<Rightarrow> False) \<and>
      list_incomplete (rw_ckpts w) = Inr []"
  by code_simp

section \<open>The end of a resume\<close>

lemma mark_complete_loaded:
  assumes "load_checkpoint r s = (Inr j, s)" "jdict_of j = Inr d" "ckpt_disk_ok env"
  shows "mark_complete env r s =
    (Inr (), dput r \<lparr>cf_mtime = e_now env, cf_content = FJson (JDict (dput ''status'' (JStr ''complete'') d))\<rparr> s)"
proof -
  have "validate_run_id r = Inr ()" using assms(1) by (auto simp: load_checkpoint_def split: sum.splits)
  then show ?thesis
    using assms by (simp add: mark_complete_def bindS_liftR bindS_step[where m = "load_checkpoint r", OF assms(1)] atomic_write_ok[OF assms(3)])
qed

text \<open>Items as the program writes them: id and status are texts.\<close>

definition item_texts :: "jdict \<Rightarrow> bool" where
  "item_texts item \<longleftrightarrow> (\<exists>x. dget item ''id'' = Some (JStr x)) \<and> (\<exists>s. dget item ''status'' = Some (JStr s))"

text \<open>The row printed for a finished item: marked if it failed verification, now or in an earlier resume.\<close>

definition union_row :: "string list \<Rightarrow> jdict \<Rightarrow> jdict" where
  "union_row unverified i =
     (if jget i ''id'' \<in> JStr ` set unverified \<or> \<not> truthy (jget_or i ''verified'' (JBool True))
      then dput ''status'' (JStr ''done_unverified'') (item_to_publish_output i) else item_to_publish_output i)"

lemma done_outputs_texts:
  "list_all item_texts items \<Longrightarrow>
     done_outputs (Some ids) items = Inr (map (union_row ids) (filter (\<lambda>i. jget i ''status'' = JStr ''done'') items))"
proof (induction items)
  case (Cons i items)
  then obtain x s where "dget i ''id'' = Some (JStr x)" "dget i ''status'' = Some (JStr s)"
    by (auto simp: item_texts_def)
  then show ?case using Cons
    by (simp add: jindex_def id_unverified_def union_row_def jget_def dget_or_def Let_def)
qed simp

lemma run_incomplete_items:
  assumes "doc_items (JDict d) = Inr items" "list_all item_texts items"
  shows "run_incomplete d = Inr (jget d ''status'' \<noteq> JStr ''complete'' \<and> list_ex item_unfinished items)"
proof -
  obtain js where js: "dget d ''items'' = Some (JList js)" "mapR jdict_of js = Inr items"
    using assms(1) by (auto simp: doc_items_def items_of_def jindex_def jlist_of_def bindR_eq_Inr_iff split: option.splits json.splits)
  have "mapR item_status js = Inr (map (\<lambda>i. jget i ''status'') items)" if "mapR jdict_of js = Inr items" "list_all item_texts items" for items
    using that
  proof (induction js arbitrary: items)
    case (Cons j js)
    then obtain i rest where i: "items = i # rest" "jdict_of j = Inr i" "mapR jdict_of js = Inr rest"
      by (auto simp: bindR_eq_Inr_iff)
    then have "j = JDict i" by (cases j) auto
    then show ?case using Cons i by (auto simp: item_status_def jindex_def item_texts_def jget_def dget_or_def)
  qed simp
  from this[OF js(2) assms(2)] show ?thesis
    by (simp add: run_incomplete_def jget_or_def dget_or_def js(1) jlist_of_def list_ex_iff item_unfinished_def)
qed

lemma finalize_ends:
  assumes "load_checkpoint (rx_run_id ctx) (rw_ckpts w) = (Inr (JDict d), rw_ckpts w)"
    "doc_items (JDict d) = Inr items" "list_all item_texts items" "jget d ''status'' \<noteq> JStr ''complete''"
    "ckpt_disk_ok (rx_env ctx)" "finalize_resume ctx st w = (r, w')"
  shows "r = Inl (SysExit (if list_ex item_unfinished items then 4 else if rs_unverified_ids st \<noteq> [] then 5 else 0)) \<and>
    rw_output w' = rw_output w @
      map (union_row (rs_unverified_ids st)) (filter (\<lambda>i. jget i ''status'' = JStr ''done'') items) \<and>
    (\<exists>d'. fst (load_checkpoint (rx_run_id ctx) (rw_ckpts w')) = Inr (JDict d') \<and> doc_items (JDict d') = Inr items \<and>
       run_incomplete d' = Inr (r = Inl (SysExit 4)))"
proof -
  define d2 where "d2 = dput ''status'' (JStr ''complete'') d"
  define marked where "marked = dput (rx_run_id ctx) \<lparr>cf_mtime = e_now (rx_env ctx), cf_content = FJson (JDict d2)\<rparr> (rw_ckpts w)"
  let ?outs = "map (union_row (rs_unverified_ids st)) (filter (\<lambda>i. jget i ''status'' = JStr ''done'') items)"
  let ?w1 = "w\<lparr>rw_projected := rw_projected w @ [rx_run_id ctx], rw_output := rw_output w @ ?outs\<rparr>"
  have l: "on_ckpt (load_checkpoint (rx_run_id ctx)) w = (Inr (JDict d), w)" using assms(1) by (simp add: on_ckpt_def)
  let ?un = "filter item_unfinished items"
  have m: "on_ckpt (mark_complete (rx_env ctx) (rx_run_id ctx)) ?w1 = (Inr (), ?w1\<lparr>rw_ckpts := marked\<rparr>)"
    using mark_complete_loaded[OF assms(1) _ assms(5), of d] by (simp add: on_ckpt_def marked_def d2_def)
  have fin: "finalize_resume ctx st w =
     (if ?un = []
      then bindS (on_ckpt (mark_complete (rx_env ctx) (rx_run_id ctx))) (\<lambda>u.
             if rs_unverified_ids st \<noteq> []
             then exit_with_envelope ''InternalError'' 5 ''payload(s) failed verification''
             else raiseS (SysExit 0)) ?w1
      else bindS (if rs_dedup_hold_count st > 0 then warn ''row(s) held by the dedup gate'' else retS ()) (\<lambda>u.
             exit_with_envelope ''ExternalServiceError'' 4 ''payload(s) still unfinished after resume'') ?w1)"
    unfolding finalize_resume_def bindS_step[where m = "on_ckpt (load_checkpoint _)", OF l] assms(2) Let_def
      bindS_step[where m = "project_run_safe _", OF project_run_safe_def] bindS_liftR done_outputs_texts[OF assms(3)]
      bindS_step[where m = "write_output _", OF write_output_def]
    by simp
  have ex: "list_ex item_unfinished items \<longleftrightarrow> ?un \<noteq> []" by (auto simp: list_ex_iff filter_empty_conv)
  have vid: "validate_run_id (rx_run_id ctx) = Inr ()" using assms(1) by (auto simp: load_checkpoint_def split: sum.splits)
  have same: "doc_items (JDict d2) = Inr items" using assms(2) by (simp add: doc_items_def items_of_def jindex_def d2_def)
  have after: "fst (load_checkpoint (rx_run_id ctx) marked) = Inr (JDict d2)"
    using vid by (simp add: load_checkpoint_def marked_def read_json_def)
  show ?thesis
  proof (cases "?un = []")
    case True
    have f: "(if rs_unverified_ids st \<noteq> []
        then exit_with_envelope ''InternalError'' 5 ''payload(s) failed verification''
        else raiseS (SysExit 0)) (?w1\<lparr>rw_ckpts := marked\<rparr>) = (r, w')"
      using assms(6) unfolding fin if_P[OF True] bindS_step[where m = "on_ckpt (mark_complete _ _)", OF m] .
    have r: "r = Inl (SysExit (if rs_unverified_ids st \<noteq> [] then 5 else 0)) \<and> rw_ckpts w' = marked \<and> rw_output w' = rw_output w @ ?outs"
      using f by (auto simp: raiseS_def exit_with_envelope_def on_dedup_def emit_envelope_and_exit_def split: if_splits)
    have "run_incomplete d2 = Inr False" by (simp add: run_incomplete_def d2_def jget_def dget_or_def)
    then show ?thesis using r True ex after same by auto
  next
    case False
    from assms(6)[unfolded fin if_not_P[OF False]]
    have r: "r = Inl (SysExit 4) \<and> rw_ckpts w' = rw_ckpts w \<and> rw_output w' = rw_output w @ ?outs"
      by (auto simp: bindS_def retS_def warn_def print_err_def exit_with_envelope_def on_dedup_def emit_envelope_and_exit_def
          split: if_splits)
    have "run_incomplete d = Inr True" using run_incomplete_items[OF assms(2,3)] assms(4) ex False by simp
    then show ?thesis using r False ex assms(1,2) by simp
  qed
qed

text \<open>The work of a resume up to its end: it fails or leaves the process, or it comes through all the items
  it has to process, of which there is one at least.\<close>

definition resume_work :: "resume_cmd \<Rightarrow> resume_ctx \<Rightarrow> jdict list \<Rightarrow> resume_state ract" where
  "resume_work c ctx items =
     bindS (verify_setups (rc_supported c) (rc_setup c) (ckpt_platforms items)) (\<lambda>u.
     bindS (revalidate ctx (rc_enhance c) items) (\<lambda>items.
     bindS (select_resume_items ctx items) (\<lambda>to_process.
     if to_process = [] then raiseS (SysExit 0)
     else
       bindS (liftR (throttle_config (rx_env ctx))) (\<lambda>tc.
       bindS (liftR (resume_throttle_skip (rx_env ctx) items False)) (\<lambda>skip.
       resume_loop ctx to_process 0
         \<lparr>rs_resume_elapsed_skip_throttle = skip, rs_first_medium_in_resume = True,
          rs_last_medium_success_idx = - 1, rs_unverified_ids = [],
          rs_dedup_skip_count = 0, rs_dedup_hold_count = 0\<rparr>)))))"

lemma resume_work_then_finalize:
  "resume_work c ctx items w = (Inr st, w1) \<Longrightarrow> leased_resume c ctx items w = finalize_resume ctx st w1"
  unfolding resume_work_def leased_resume_def
  by (auto simp: bindS_def raiseS_def liftR_def split: prod.splits sum.splits if_splits)



text \<open>The rows a resume prints have lost their target: the printer reads \<open>target_url\<close> from the item,
  where creation never puts it (it is in the payload), so it is empty whatever row and updates
  made the item.\<close>

theorem resumed_output_has_no_target:
  assumes "wf_dict flds" "dget flds ''target_url'' = None"
  shows "jget (item_to_publish_output (touch_item st flds (new_item platform row))) ''target_url'' = JStr []"
proof -
  have "dget (touch_item st flds (new_item platform row)) ''target_url'' = None"
    using assms by (simp add: dget_touch_item OPTIONAL_ITEM_FIELDS_def new_item_def)
  then show ?thesis
    by (simp add: item_to_publish_output_def Let_def carry_link_attr_verification_def)
       (simp add: jget_or_def jget_def dget_or_def)
qed

theorem resumed_output_has_no_target_witness:
  "jget (item_to_publish_output (touch_item ''done'' [(''verified'', JBool True)] (new_item None rdemo_row))) ''target_url'' = JStr []"
  by (rule resumed_output_has_no_target) simp_all

end
