(* ===== verification/Py_Float.thy ===== *)
theory Py_Float
  imports Py_Json
begin

text \<open>
  Numbers out of parsed JSON: \<open>float(x)\<close>, arithmetic on a value that may not be a number, division,
  and \<open>round(x, n)\<close>. Arithmetic is exact; infinities, NaN and underscores in numerals are left out.
\<close>

definition decimal :: "string \<Rightarrow> pyfloat option" where
  "decimal s =
     (case split_on CHR ''.'' s of
        [a] \<Rightarrow> if isdigit a then Some (of_int (int_of_digits a)) else None
      | [a, b] \<Rightarrow> if isdigit (a @ b) then Some (of_int (int_of_digits (a @ b)) / 10 ^ length b) else None
      | _ \<Rightarrow> None)"

definition unsign :: "string \<Rightarrow> string" where
  "unsign s = (if startswith s ''-'' \<or> startswith s ''+'' then tl s else s)"

definition float_of_str :: "string \<Rightarrow> pyfloat option" where
  "float_of_str s =
     (let t = strip s; u = unsign t;
          mantissa = takeWhile (\<lambda>c. ascii_lower c \<noteq> CHR ''e'') u;
          rest = dropWhile (\<lambda>c. ascii_lower c \<noteq> CHR ''e'') u;
          sgn = (\<lambda>x. if startswith t ''-'' then - x else x)
      in (case decimal mantissa of
            None \<Rightarrow> None
          | Some v \<Rightarrow>
              if rest = [] then Some (sgn v)
              else if \<not> isdigit (unsign (tl rest)) then None
              else let n = nat (int_of_digits (unsign (tl rest)))
                   in Some (sgn (if startswith (tl rest) ''-'' then v / 10 ^ n else v * 10 ^ n))))"

fun py_float :: "json \<Rightarrow> exn + pyfloat" where
  "py_float (JInt n) = Inr (of_int n)"
| "py_float (JBool b) = Inr (if b then 1 else 0)"
| "py_float (JFloat x) = Inr x"
| "py_float (JStr s) =
     (case float_of_str s of Some x \<Rightarrow> Inr x | None \<Rightarrow> Inl (mkexn ValueErr ''could not convert string to float''))"
| "py_float _ = Inl (mkexn TypeErr ''float() argument'')"

text \<open>The numbers among the values: bools are integers.\<close>

fun py_num :: "json \<Rightarrow> pyfloat option" where
  "py_num (JInt n) = Some (of_int n)"
| "py_num (JBool b) = Some (if b then 1 else 0)"
| "py_num (JFloat x) = Some x"
| "py_num _ = None"

definition type_error :: "exn + 'a" where
  "type_error = Inl (mkexn TypeErr ''unsupported operand type(s)'')"

definition py_div :: "pyfloat \<Rightarrow> pyfloat \<Rightarrow> exn + pyfloat" where
  "py_div x y = (if y = 0 then Inl (mkexn (OtherError ''ZeroDivisionError'') ''division by zero'') else Inr (x / y))"

text \<open>\<open>round(x, n)\<close>: to \<open>n\<close> decimals, ties to the even neighbour.\<close>

definition round_even :: "pyfloat \<Rightarrow> int" where
  "round_even x =
     (let d = x - of_int \<lfloor>x\<rfloor>
      in if d < 1 / 2 then \<lfloor>x\<rfloor> else if 1 / 2 < d then \<lfloor>x\<rfloor> + 1 else if even \<lfloor>x\<rfloor> then \<lfloor>x\<rfloor> else \<lfloor>x\<rfloor> + 1)"

definition py_round :: "nat \<Rightarrow> pyfloat \<Rightarrow> pyfloat" where
  "py_round n x = of_int (round_even (x * 10 ^ n)) / 10 ^ n"

lemma py_round_close: "\<bar>py_round n x - x\<bar> \<le> 1 / (2 * 10 ^ n)"
proof -
  have "\<bar>of_int (round_even y) - y\<bar> \<le> 1 / 2" for y :: pyfloat
    unfolding round_even_def Let_def using floor_correct[of y] by (auto simp: abs_le_iff)
  from this[of "x * 10 ^ n"] have "\<bar>of_int (round_even (x * 10 ^ n)) - x * 10 ^ n\<bar> / 10 ^ n \<le> 1 / 2 / 10 ^ n"
    by (rule divide_right_mono) simp
  also have "\<bar>of_int (round_even (x * 10 ^ n)) - x * 10 ^ n\<bar> / 10 ^ n =
      \<bar>(of_int (round_even (x * 10 ^ n)) - x * 10 ^ n) / 10 ^ n\<bar>"
    by (simp add: abs_divide)
  also have "(of_int (round_even (x * 10 ^ n)) - x * 10 ^ n) / 10 ^ n = py_round n x - x"
    by (simp add: py_round_def diff_divide_distrib)
  finally show ?thesis by simp
qed

end
