(* ===== verification/Optimization.thy ===== *)
theory Optimization
  imports Py_Float Canary
begin

text \<open>
  The dispatch weights (\<open>optimization/state.py\<close>, \<open>optimization/models.py\<close>): one JSON document,
  read through a process-wide cache (\<open>_util/cache.py\<close>) that hands out the dict it holds. A
  read-modify-write therefore changes the cached dict in place before it saves it; \<open>ow_save\<close> is what
  the atomic write raises, if it does. \<open>e_now\<close> stands for the monotonic clock of the cache too.
\<close>

record opt_world =
  ow_file :: json_file
  ow_cache :: "(pyfloat \<times> json) option"
  ow_save :: "exn option"

type_synonym 'a oact = "opt_world \<Rightarrow> (exn + 'a) \<times> opt_world"

definition default_state :: jdict where
  "default_state =
     [(''version'', JInt 2), (''weights'', JDict [(''default'', JDict [])]),
      (''stats'', JDict [(''default'', JDict [])]),
      (''rules'', JDict
        [(''canary_drift'', JDict [(''enabled'', JBool True), (''multiplier'', JFloat (1 / 2)),
            (''max_strikes'', JInt 3), (''cooldown_days'', JInt 7)]),
         (''recheck_survival'', JDict [(''enabled'', JBool True), (''multiplier'', JFloat (12 / 10)),
            (''max_cap'', JFloat 3), (''min_confirmations'', JInt 2)]),
         (''aggregated_stats'', JDict [(''enabled'', JBool True), (''multiplier'', JFloat (1 / 2)),
            (''survival_low_threshold'', JFloat (3 / 10)), (''dofollow_low_threshold'', JFloat (2 / 10)),
            (''min_confirmations'', JInt 2), (''min_weight'', JFloat (1 / 10))]),
         (''survival_threshold'', JDict [(''enabled'', JBool True), (''min_samples'', JInt 5),
            (''survival_penalty'', JFloat (3 / 10)), (''dofollow_penalty'', JFloat (4 / 10)),
            (''boost_multiplier'', JFloat (115 / 100)), (''max_cap'', JFloat 3),
            (''survival_high'', JFloat (8 / 10)), (''dofollow_high'', JFloat (8 / 10)),
            (''min_weight'', JFloat (1 / 100))])])]"

definition upgrade_v1_to_v2 :: "jdict \<Rightarrow> exn + jdict" where
  "upgrade_v1_to_v2 data =
     bindR (as_dict (jget_or data ''weights'' (JDict []))) (\<lambda>flat_weights.
     bindR (as_dict (jget_or data ''stats'' (JDict []))) (\<lambda>flat_stats.
       Inr [(''version'', JInt 2), (''weights'', JDict [(''default'', JDict flat_weights)]),
            (''stats'', JDict [(''default'', JDict flat_stats)]), (''rules'', jget_or data ''rules'' (JDict []))]))"

section \<open>The cache\<close>

definition cache_get :: "env \<Rightarrow> opt_world \<Rightarrow> json option \<times> opt_world" where
  "cache_get env w =
     (case ow_cache w of
        None \<Rightarrow> (None, w)
      | Some (expires_at, v) \<Rightarrow> if e_now env > expires_at then (None, w\<lparr>ow_cache := None\<rparr>) else (Some v, w))"

definition cache_set :: "env \<Rightarrow> pyfloat \<Rightarrow> json \<Rightarrow> opt_world \<Rightarrow> opt_world" where
  "cache_set env ttl v w = w\<lparr>ow_cache := Some (e_now env + ttl, v)\<rparr>"

definition cache_delete :: "opt_world \<Rightarrow> opt_world" where
  "cache_delete w = w\<lparr>ow_cache := None\<rparr>"

section \<open>Reading and writing\<close>

text \<open>\<open>"version" not in data\<close>, for whatever value the file holds.\<close>

fun has_version :: "json \<Rightarrow> exn + bool" where
  "has_version (JDict d) = Inr (dget d ''version'' \<noteq> None)"
| "has_version (JList xs) = Inr (JStr ''version'' \<in> set xs)"
| "has_version (JStr s) = Inr (contains ''version'' s)"
| "has_version _ = Inl (mkexn TypeErr ''argument is not iterable'')"

definition opt_load :: "env \<Rightarrow> json oact" where
  "opt_load env w =
     (case cache_get env w of
        (Some cached, w1) \<Rightarrow> (Inr cached, w1)
      | (None, w1) \<Rightarrow>
          (case ow_file w1 of
             FAbsent \<Rightarrow> (Inr (JDict default_state), w1)
           | FBad e \<Rightarrow>
               if isinst e JSONDecodeError \<or> isinst e OSErr then (Inr (JDict default_state), w1) else (Inl e, w1)
           | FJson j \<Rightarrow>
               (case has_version j of
                  Inl e \<Rightarrow> (Inl e, w1)
                | Inr False \<Rightarrow> (Inr (JDict default_state), w1)
                | Inr True \<Rightarrow>
                    (case jdict_of j of
                       Inl e \<Rightarrow> (Inl e, w1)
                     | Inr data \<Rightarrow>
                         (case (if py_num (jget data ''version'') = Some 1 then upgrade_v1_to_v2 data else Inr data) of
                            Inl e \<Rightarrow> (Inl e, w1)
                          | Inr data' \<Rightarrow> (Inr (JDict data'), cache_set env 60 (JDict data') w1))))))"

definition opt_save :: "json \<Rightarrow> unit oact" where
  "opt_save state w =
     (case ow_save w of
        Some e \<Rightarrow> (Inl e, w)
      | None \<Rightarrow> (Inr (), cache_delete (w\<lparr>ow_file := FJson state\<rparr>)))"

text \<open>A read-modify-write: the loaded dict is the cached one unless it is a fresh default; \<open>body\<close>
  changes it in place, also when it raises, and says whether to save.\<close>

definition in_place :: "json \<Rightarrow> opt_world \<Rightarrow> opt_world" where
  "in_place data w =
     (case ow_cache w of None \<Rightarrow> w | Some (expires_at, old) \<Rightarrow> w\<lparr>ow_cache := Some (expires_at, data)\<rparr>)"

definition opt_rmw :: "env \<Rightarrow> (jdict \<Rightarrow> (exn + bool) \<times> jdict) \<Rightarrow> unit oact" where
  "opt_rmw env body =
     bindS (opt_load env) (\<lambda>j.
     bindS (liftR (jdict_of j)) (\<lambda>data w.
       let (r, data') = body data; w1 = in_place (JDict data') w
       in (case r of
             Inl e \<Rightarrow> (Inl e, w1)
           | Inr dirty \<Rightarrow> if dirty then opt_save (JDict data') w1 else (Inr (), w1))))"

definition setdefault :: "string \<Rightarrow> json \<Rightarrow> jdict \<Rightarrow> jdict" where
  "setdefault k v d = (if dget d k = None then dput k v d else d)"

text \<open>\<open>data.setdefault(section, {}).setdefault(language, {})\<close> and a body that works on this dict,
  with the document at hand.\<close>

type_synonym nbody = "jdict \<times> jdict \<Rightarrow> (exn + bool) \<times> jdict \<times> jdict"

definition in_namespace :: "string \<Rightarrow> string \<Rightarrow> nbody \<Rightarrow> jdict \<Rightarrow> (exn + bool) \<times> jdict" where
  "in_namespace sect language body data =
     (let data = setdefault sect (JDict []) data
      in (case jdict_of (jget data sect) of
            Inl e \<Rightarrow> (Inl e, data)
          | Inr spaces \<Rightarrow>
              let spaces = setdefault language (JDict []) spaces
              in (case jdict_of (jget spaces language) of
                    Inl e \<Rightarrow> (Inl e, dput sect (JDict spaces) data)
                  | Inr ns \<Rightarrow>
                      let (r, data', ns') = body (data, ns)
                      in (r, dput sect (JDict (dput language (JDict ns') spaces)) data'))))"

section \<open>Weights\<close>

definition locked :: "jdict \<Rightarrow> bool" where
  "locked existing = truthy (jget_or existing ''locked'' (JBool False))"

definition old_multiplier :: "pyfloat \<Rightarrow> json \<Rightarrow> exn + pyfloat" where
  "old_multiplier weight old_current =
     (case py_num old_current of
        None \<Rightarrow> type_error
      | Some x \<Rightarrow> Inr (if x \<noteq> 0 then weight / x else 0))"

definition adjustment :: "string \<Rightarrow> string \<Rightarrow> pyfloat \<Rightarrow> string \<Rightarrow> json" where
  "adjustment rule ts multiplier reason =
     JDict [(''rule'', JStr rule), (''applied_at'', JStr ts), (''multiplier'', JFloat (py_round 4 multiplier)),
            (''reason'', JStr reason)]"

definition weight_entry ::
  "json \<Rightarrow> pyfloat \<Rightarrow> json \<Rightarrow> bool \<Rightarrow> string \<Rightarrow> json list \<Rightarrow> jdict" where
  "weight_entry base weight lock intentional_zero ts adjustments =
     [(''base'', base), (''current'', JFloat weight), (''locked'', lock),
      (''intentional_zero'', JBool intentional_zero), (''updated_at'', JStr ts),
      (''adjustments'', JList adjustments)]"

text \<open>The part \<open>set_weight\<close> and \<open>update_many_weights\<close> share, after the lock check; \<open>ts\<close> is \<open>now_iso()\<close>.\<close>

definition write_weight ::
  "string \<Rightarrow> string \<Rightarrow> pyfloat \<Rightarrow> string \<Rightarrow> string \<Rightarrow> bool \<Rightarrow> jdict \<Rightarrow> nbody" where
  "write_weight ts name weight rule reason intentional_zero existing = (\<lambda>(data, ns).
     let fresh = (dget ns name = None);
         old_current = (if fresh then JFloat 1 else jget_or existing ''current'' (jget_or existing ''base'' (JFloat 1)));
         adjustments = (if fresh then JList [] else jget_or existing ''adjustments'' (JList []));
         data1 = (if fresh then setdefault ''stats'' (JDict []) data else data);
         ns1 = (if fresh then ns else dput name (JDict (setdefault ''adjustments'' (JList []) existing)) ns)
     in (case old_multiplier weight old_current of
           Inl e \<Rightarrow> (Inl e, data1, ns1)
         | Inr multiplier \<Rightarrow>
             (case adjustments of
                JList adjs \<Rightarrow>
                  (Inr True, data1,
                   dput name (JDict (weight_entry (jget_or existing ''base'' old_current) weight
                     (jget_or existing ''locked'' (JBool False)) intentional_zero ts
                     (adjs @ [adjustment rule ts multiplier reason]))) ns1)
              | _ \<Rightarrow> (type_error, data1, ns1))))"

definition existing_entry :: "string \<Rightarrow> jdict \<Rightarrow> exn + jdict" where
  "existing_entry name ns = jdict_of (jget_or ns name (JDict []))"

definition set_weight ::
  "env \<Rightarrow> string \<Rightarrow> string \<Rightarrow> pyfloat \<Rightarrow> string \<Rightarrow> string \<Rightarrow> bool \<Rightarrow> bool \<Rightarrow> string \<Rightarrow> unit oact" where
  "set_weight env ts name weight rule reason force intentional_zero language =
     opt_rmw env (in_namespace ''weights'' language (\<lambda>(data, ns).
       case existing_entry name ns of
         Inl e \<Rightarrow> (Inl e, data, ns)
       | Inr existing \<Rightarrow>
           if \<not> force \<and> locked existing then (Inr False, data, ns)
           else write_weight ts name weight rule reason intentional_zero existing (data, ns)))"

text \<open>One update of a batch: platform, weight, rule, reason, intentional zero. \<open>ts n\<close> is the clock
  at the \<open>n\<close>-th update that is made.\<close>

type_synonym weight_update = "string \<times> pyfloat \<times> string \<times> string \<times> bool"

fun update_loop :: "(nat \<Rightarrow> string) \<Rightarrow> nat \<Rightarrow> weight_update list \<Rightarrow> nbody" where
  "update_loop ts n [] (data, ns) = (Inr True, data, ns)"
| "update_loop ts n ((name, weight, rule, reason, intentional_zero) # us) (data, ns) =
     (case existing_entry name ns of
        Inl e \<Rightarrow> (Inl e, data, ns)
      | Inr existing \<Rightarrow>
          if locked existing then update_loop ts n us (data, ns)
          else (case write_weight (ts n) name weight rule reason intentional_zero existing (data, ns) of
                  (Inl e, s) \<Rightarrow> (Inl e, s)
                | (Inr u, s) \<Rightarrow> update_loop ts (Suc n) us s))"

definition update_many_weights :: "env \<Rightarrow> (nat \<Rightarrow> string) \<Rightarrow> weight_update list \<Rightarrow> string \<Rightarrow> unit oact" where
  "update_many_weights env ts updates language =
     opt_rmw env (in_namespace ''weights'' language (update_loop ts 0 updates))"

definition lock_weight :: "env \<Rightarrow> string \<Rightarrow> bool \<Rightarrow> string \<Rightarrow> unit oact" where
  "lock_weight env name lock language =
     opt_rmw env (in_namespace ''weights'' language (\<lambda>(data, ns).
       let ns = setdefault name (JDict []) ns
       in (case jget ns name of
             JDict entry \<Rightarrow> (Inr True, data, dput name (JDict (dput ''locked'' (JBool lock) entry)) ns)
           | _ \<Rightarrow> (type_error, data, ns))))"

definition update_stats :: "env \<Rightarrow> string \<Rightarrow> jdict \<Rightarrow> string \<Rightarrow> unit oact" where
  "update_stats env name stats_update language =
     opt_rmw env (in_namespace ''stats'' language (\<lambda>(data, ns).
       let ns = setdefault name (JDict []) ns
       in (case jdict_of (jget ns name) of
             Inl e \<Rightarrow> (Inl e, data, ns)
           | Inr existing \<Rightarrow> (Inr True, data, dput name (JDict (dmerge existing stats_update)) ns))))"

definition reset_weights :: "env \<Rightarrow> unit oact" where
  "reset_weights env = opt_rmw env (\<lambda>data. (Inr True, dput ''weights'' (JDict []) data))"

section \<open>Reading weights\<close>

definition load_dict :: "env \<Rightarrow> jdict oact" where
  "load_dict env = bindS (opt_load env) (\<lambda>j. liftR (jdict_of j))"

text \<open>\<open>d.get(k1, {}).get(k2)\<close>.\<close>

definition sub_get :: "jdict \<Rightarrow> string \<Rightarrow> string \<Rightarrow> exn + json" where
  "sub_get d k1 k2 = bindR (jdict_of (jget_or d k1 (JDict []))) (\<lambda>d1. Inr (jget d1 k2))"

definition current_of :: "pyfloat \<Rightarrow> json \<Rightarrow> exn + pyfloat" where
  "current_of dflt entry = bindR (jdict_of entry) (\<lambda>entry. py_float (jget_or entry ''current'' (JFloat dflt)))"

definition get_weight :: "env \<Rightarrow> string \<Rightarrow> pyfloat \<Rightarrow> string \<Rightarrow> pyfloat oact" where
  "get_weight env name dflt language =
     bindS (load_dict env) (\<lambda>data. liftR (
       bindR (jdict_of (jget_or data ''weights'' (JDict []))) (\<lambda>weights.
       bindR (sub_get weights language name) (\<lambda>entry.
         if entry \<noteq> JNull then current_of dflt entry
         else if language \<noteq> ''default''
         then bindR (sub_get weights ''default'' name) (\<lambda>entry.
                if entry \<noteq> JNull then current_of dflt entry else Inr dflt)
         else Inr dflt))))"

definition get_rules_config :: "env \<Rightarrow> json oact" where
  "get_rules_config env = bindS (load_dict env) (\<lambda>data. retS (jget_or data ''rules'' (JDict [])))"

end
