(* ===== verification/Opt_Rules.thy ===== *)
theory Opt_Rules
  imports Optimization
begin

text \<open>
  The rules that adjust dispatch weights (\<open>optimization/rules.py\<close>), the collector that gathers
  their statistics (\<open>optimization/collector.py\<close>) and the command that runs them
  (\<open>cli/optimize_weights.py\<close>). The texts of reasons are shortened to what names the branch; the
  numbers the code interpolates into them are left out. \<open>utc\<close> is \<open>datetime.fromisoformat\<close> with
  naive times read as UTC, as a POSIX time, \<open>None\<close> where it raises \<open>ValueError\<close>.
\<close>

record rule_result =
  rr_platform :: string
  rr_rule_name :: string
  rr_old_weight :: pyfloat
  rr_new_weight :: pyfloat
  rr_multiplier :: pyfloat
  rr_reason :: string
  rr_applied :: bool
  rr_intentional_zero :: bool
  rr_language :: string

definition RULE_CANARY_DRIFT :: string where "RULE_CANARY_DRIFT = ''canary_drift''"
definition RULE_RECHECK_SURVIVAL :: string where "RULE_RECHECK_SURVIVAL = ''recheck_survival''"
definition RULE_AGGREGATED_STATS :: string where "RULE_AGGREGATED_STATS = ''aggregated_stats''"
definition RULE_SURVIVAL_THRESHOLD :: string where "RULE_SURVIVAL_THRESHOLD = ''survival_threshold''"

definition make_result ::
  "string \<Rightarrow> string \<Rightarrow> pyfloat \<Rightarrow> pyfloat \<Rightarrow> pyfloat \<Rightarrow> string \<Rightarrow> bool \<Rightarrow> bool \<Rightarrow> rule_result" where
  "make_result platform rule old_weight new_weight multiplier reason applied intentional_zero =
     \<lparr>rr_platform = platform, rr_rule_name = rule, rr_old_weight = old_weight, rr_new_weight = new_weight,
      rr_multiplier = multiplier, rr_reason = reason, rr_applied = applied,
      rr_intentional_zero = intentional_zero, rr_language = ''default''\<rparr>"

section \<open>Reading the state\<close>

text \<open>\<open>weights.get(platform, {})\<close>, used as a dict.\<close>

definition weight_of :: "json \<Rightarrow> string \<Rightarrow> exn + jdict" where
  "weight_of weights platform = bindR (jdict_of weights) (existing_entry platform)"

definition get_current_weight :: "json \<Rightarrow> string \<Rightarrow> exn + pyfloat" where
  "get_current_weight weights platform =
     bindR (weight_of weights platform) (\<lambda>entry. py_float (jget_or entry ''current'' (JFloat 1)))"

definition get_base_weight :: "json \<Rightarrow> string \<Rightarrow> pyfloat \<Rightarrow> exn + pyfloat" where
  "get_base_weight weights platform dflt =
     bindR (weight_of weights platform) (\<lambda>entry. py_float (jget_or entry ''base'' (JFloat dflt)))"

definition config_float :: "jdict \<Rightarrow> string \<Rightarrow> pyfloat \<Rightarrow> exn + pyfloat" where
  "config_float config k dflt = py_float (jget_or config k (JFloat dflt))"

definition config_int :: "jdict \<Rightarrow> string \<Rightarrow> int \<Rightarrow> exn + int" where
  "config_int config k dflt = py_int (jget_or config k (JInt dflt))"

text \<open>\<open>xs[-1]\<close> of a non-empty value.\<close>

fun last_item :: "json \<Rightarrow> exn + json" where
  "last_item (JList xs) = Inr (last xs)"
| "last_item (JStr s) = Inr (JStr [last s])"
| "last_item (JDict d) = Inl (mkexn KeyErr ''-1'')"
| "last_item _ = type_error"

definition suppressed_by_canary_drift :: "jdict \<Rightarrow> exn + bool" where
  "suppressed_by_canary_drift entry =
     (let adjustments = py_or (jget entry ''adjustments'') (JList [])
      in if truthy adjustments
         then bindR (last_item adjustments) (\<lambda>a. bindR (jdict_of a) (\<lambda>a.
                Inr (jget a ''rule'' = JStr RULE_CANARY_DRIFT)))
         else Inr False)"

text \<open>\<open>for platform, platform_stats in stats.items()\<close>, each platform giving at most one result.\<close>

definition each_platform ::
  "jdict \<Rightarrow> (json \<Rightarrow> string \<Rightarrow> jdict \<Rightarrow> exn + rule_result list) \<Rightarrow> exn + rule_result list" where
  "each_platform state_data f =
     bindR (jdict_of (jget_or state_data ''stats'' (JDict []))) (\<lambda>stats.
     bindR (mapR (\<lambda>(platform, st).
         bindR (jdict_of st) (f (jget_or state_data ''weights'' (JDict [])) platform))
       stats) (\<lambda>rs. Inr (concat rs)))"

section \<open>Rule 1: canary drift\<close>

text \<open>The cooldown branch: a result, or none when it falls through to the suppression.\<close>

definition cooldown_result ::
  "env \<Rightarrow> (string \<Rightarrow> pyfloat option) \<Rightarrow> jdict \<Rightarrow> string \<Rightarrow> pyfloat \<Rightarrow> pyfloat \<Rightarrow> int \<Rightarrow> pyfloat \<Rightarrow>
     exn + rule_result option" where
  "cooldown_result env utc entry platform current_weight base_weight cooldown_days canary_recovery =
     (if current_weight = 0 \<and> jget entry ''rule'' = JStr RULE_CANARY_DRIFT
      then (let updated_at = jget_or entry ''updated_at'' (JStr [])
            in if \<not> truthy updated_at then Inr None
               else (case updated_at of
                  JStr s \<Rightarrow>
                    (case utc s of
                       None \<Rightarrow> Inr None
                     | Some suppressed \<Rightarrow>
                         if e_now env - suppressed < of_int (cooldown_days * 86400)
                         then Inr (Some (make_result platform RULE_CANARY_DRIFT current_weight current_weight 1
                                ''in cooldown'' False False))
                         else Inr (Some (make_result platform RULE_CANARY_DRIFT current_weight
                                (max (base_weight * canary_recovery) (1 / 100)) canary_recovery
                                ''cooldown expired'' True False)))
                | _ \<Rightarrow> Inl (mkexn TypeErr ''fromisoformat: argument must be str'')))
      else Inr None)"

definition drift_outcome ::
  "env \<Rightarrow> (string \<Rightarrow> pyfloat option) \<Rightarrow> pyfloat \<Rightarrow> int \<Rightarrow> int \<Rightarrow> pyfloat \<Rightarrow> string \<Rightarrow> jdict \<Rightarrow> int \<Rightarrow>
     pyfloat \<Rightarrow> pyfloat \<Rightarrow> exn + rule_result list" where
  "drift_outcome env utc multiplier max_strikes cooldown_days canary_recovery platform entry drift_count
       current_weight base_weight =
     (if drift_count = 0
      then if current_weight < base_weight
           then bindR (suppressed_by_canary_drift entry) (\<lambda>s.
                  Inr (if s then [make_result platform RULE_CANARY_DRIFT current_weight base_weight 1
                                    ''drift cleared'' True False] else []))
           else Inr []
      else if drift_count \<ge> max_strikes
      then bindR (cooldown_result env utc entry platform current_weight base_weight cooldown_days canary_recovery)
             (\<lambda>c. Inr (case c of
                 Some r \<Rightarrow> [r]
               | None \<Rightarrow>
                   if 0 < current_weight
                   then [make_result platform RULE_CANARY_DRIFT current_weight 0 multiplier
                           ''drift_count >= max_strikes'' True True]
                   else []))
      else if drift_count > 0
      then Inr [make_result platform RULE_CANARY_DRIFT current_weight current_weight 1
                  ''drift_count < max_strikes'' False False]
      else Inr [])"

definition rule_canary_drift ::
  "env \<Rightarrow> (string \<Rightarrow> pyfloat option) \<Rightarrow> jdict \<Rightarrow> jdict \<Rightarrow> exn + rule_result list" where
  "rule_canary_drift env utc state_data config =
     bindR (config_float config ''multiplier'' (1 / 2)) (\<lambda>multiplier.
     bindR (config_int config ''max_strikes'' 3) (\<lambda>max_strikes.
     bindR (config_int config ''cooldown_days'' 7) (\<lambda>cooldown_days.
     bindR (config_float config ''canary_recovery'' (3 / 10)) (\<lambda>canary_recovery.
     each_platform state_data (\<lambda>weights platform st.
       bindR (py_int (jget_or st ''drift_count'' (JInt 0))) (\<lambda>drift_count.
       bindR (weight_of weights platform) (\<lambda>entry.
       bindR (get_current_weight weights platform) (\<lambda>current_weight.
       bindR (get_base_weight weights platform 1) (\<lambda>base_weight.
         drift_outcome env utc multiplier max_strikes cooldown_days canary_recovery platform entry drift_count
           current_weight base_weight)))))))))"

section \<open>Rules 2 to 4: survival and dofollow rates\<close>

text \<open>The two rates, if there are enough confirmations.\<close>

definition rates :: "jdict \<Rightarrow> int \<Rightarrow> exn + (pyfloat \<times> pyfloat) option" where
  "rates st min_confirmations =
     bindR (py_int (jget_or st ''total_published'' (JInt 0))) (\<lambda>total.
     bindR (py_int (jget_or st ''alive_count'' (JInt 0))) (\<lambda>alive.
     bindR (py_int (jget_or st ''dofollow_count'' (JInt 0))) (\<lambda>dofollow.
       if total < min_confirmations then Inr None
       else bindR (py_div (of_int alive) (of_int total)) (\<lambda>survival_rate.
              Inr (Some (survival_rate, if alive > 0 then of_int dofollow / of_int alive else 0))))))"

definition rule_recheck_survival :: "jdict \<Rightarrow> jdict \<Rightarrow> exn + rule_result list" where
  "rule_recheck_survival state_data config =
     bindR (config_float config ''multiplier'' (12 / 10)) (\<lambda>multiplier.
     bindR (config_float config ''max_cap'' 3) (\<lambda>max_cap.
     bindR (config_int config ''min_confirmations'' 2) (\<lambda>min_confirmations.
     each_platform state_data (\<lambda>weights platform st.
       bindR (rates st min_confirmations) (\<lambda>rs.
         case rs of
           None \<Rightarrow> Inr []
         | Some (survival_rate, dofollow_rate) \<Rightarrow>
             bindR (get_current_weight weights platform) (\<lambda>current_weight.
               let keep = (\<lambda>reason. [make_result platform RULE_RECHECK_SURVIVAL current_weight current_weight 1
                     reason False False])
               in Inr (if survival_rate \<ge> 1 / 2 \<and> dofollow_rate \<ge> 1 / 2
                  then let new_weight = min (current_weight * multiplier) max_cap
                       in if new_weight > current_weight
                          then [make_result platform RULE_RECHECK_SURVIVAL current_weight new_weight multiplier
                                  ''boost'' True False]
                          else keep ''already at or above cap''
                  else keep ''below threshold'')))))))"

text \<open>Both conditions lower the weight, one after the other.\<close>

definition penalised ::
  "pyfloat \<Rightarrow> pyfloat \<Rightarrow> pyfloat \<Rightarrow> pyfloat \<Rightarrow> pyfloat \<Rightarrow> pyfloat \<Rightarrow> pyfloat \<Rightarrow> pyfloat" where
  "penalised w survival_rate survival_floor survival_penalty dofollow_rate dofollow_floor dofollow_penalty =
     (let w = (if survival_rate < survival_floor then w * survival_penalty else w)
      in if dofollow_rate < dofollow_floor then w * dofollow_penalty else w)"

definition rule_aggregated_stats :: "jdict \<Rightarrow> jdict \<Rightarrow> exn + rule_result list" where
  "rule_aggregated_stats state_data config =
     bindR (config_float config ''multiplier'' (1 / 2)) (\<lambda>multiplier.
     bindR (config_float config ''survival_low_threshold'' (3 / 10)) (\<lambda>survival_floor.
     bindR (config_float config ''dofollow_low_threshold'' (2 / 10)) (\<lambda>dofollow_floor.
     bindR (config_int config ''min_confirmations'' 2) (\<lambda>min_confirmations.
     bindR (config_float config ''min_weight'' (1 / 10)) (\<lambda>min_weight.
     each_platform state_data (\<lambda>weights platform st.
       bindR (rates st min_confirmations) (\<lambda>rs.
         case rs of
           None \<Rightarrow> Inr []
         | Some (survival_rate, dofollow_rate) \<Rightarrow>
             bindR (get_current_weight weights platform) (\<lambda>current_weight.
               let keep = (\<lambda>reason. [make_result platform RULE_AGGREGATED_STATS current_weight current_weight 1
                     reason False False]);
                   new_weight = max (penalised current_weight survival_rate survival_floor multiplier
                     dofollow_rate dofollow_floor multiplier) min_weight
               in Inr (if \<not> (survival_rate < survival_floor \<or> dofollow_rate < dofollow_floor)
                  then keep ''above floor''
                  else if new_weight \<noteq> current_weight
                  then [make_result platform RULE_AGGREGATED_STATS current_weight new_weight multiplier
                          ''reduce'' True False]
                  else keep ''already at min_weight'')))))))))"

definition threshold_outcome ::
  "string \<Rightarrow> pyfloat \<Rightarrow> pyfloat \<Rightarrow> pyfloat \<Rightarrow> pyfloat \<Rightarrow> pyfloat \<Rightarrow> pyfloat \<Rightarrow> pyfloat \<Rightarrow> pyfloat \<Rightarrow>
     pyfloat \<Rightarrow> pyfloat \<Rightarrow> rule_result list" where
  "threshold_outcome platform survival_penalty dofollow_penalty boost_multiplier max_cap survival_high dofollow_high
       min_weight survival_rate dofollow_rate current_weight =
     (let keep = (\<lambda>reason. [make_result platform RULE_SURVIVAL_THRESHOLD current_weight current_weight 1
                     reason False False]);
          change = (\<lambda>new_weight m reason. [make_result platform RULE_SURVIVAL_THRESHOLD current_weight
                     new_weight m reason True False])
      in if \<not> (survival_rate < 3 / 10 \<or> dofollow_rate < 2 / 10)
         then if survival_rate > survival_high \<and> dofollow_rate > dofollow_high
              then let new_weight = min (current_weight * boost_multiplier) max_cap
                   in if new_weight > current_weight then change new_weight boost_multiplier ''boost''
                      else keep ''already at cap''
              else keep ''above penalty thresholds but below boost''
         else let new_weight = max (penalised current_weight survival_rate (3 / 10) survival_penalty
                    dofollow_rate (2 / 10) dofollow_penalty) min_weight
              in if new_weight \<noteq> current_weight
                 then change new_weight (if survival_rate < 3 / 10 then survival_penalty else dofollow_penalty) ''reduce''
                 else keep ''already at min_weight'')"

definition rule_survival_threshold :: "jdict \<Rightarrow> jdict \<Rightarrow> exn + rule_result list" where
  "rule_survival_threshold state_data config =
     bindR (config_int config ''min_samples'' 5) (\<lambda>min_samples.
     bindR (config_float config ''survival_penalty'' (3 / 10)) (\<lambda>survival_penalty.
     bindR (config_float config ''dofollow_penalty'' (4 / 10)) (\<lambda>dofollow_penalty.
     bindR (config_float config ''boost_multiplier'' (115 / 100)) (\<lambda>boost_multiplier.
     bindR (config_float config ''max_cap'' 3) (\<lambda>max_cap.
     bindR (config_float config ''survival_high'' (8 / 10)) (\<lambda>survival_high.
     bindR (config_float config ''dofollow_high'' (8 / 10)) (\<lambda>dofollow_high.
     bindR (config_float config ''min_weight'' (1 / 100)) (\<lambda>min_weight.
     each_platform state_data (\<lambda>weights platform st.
       bindR (rates st min_samples) (\<lambda>rs.
         case rs of
           None \<Rightarrow> Inr []
         | Some (survival_rate, dofollow_rate) \<Rightarrow>
             bindR (get_current_weight weights platform) (\<lambda>current_weight.
               Inr (threshold_outcome platform survival_penalty dofollow_penalty boost_multiplier max_cap
                 survival_high dofollow_high min_weight survival_rate dofollow_rate current_weight))))))))))))"

section \<open>Running the rules\<close>

definition rule_fn ::
  "env \<Rightarrow> (string \<Rightarrow> pyfloat option) \<Rightarrow> string \<Rightarrow> jdict \<Rightarrow> jdict \<Rightarrow> exn + rule_result list" where
  "rule_fn env utc rule =
     (if rule = RULE_CANARY_DRIFT then rule_canary_drift env utc
      else if rule = RULE_RECHECK_SURVIVAL then rule_recheck_survival
      else if rule = RULE_AGGREGATED_STATS then rule_aggregated_stats
      else rule_survival_threshold)"

definition RULE_ORDER :: "string list" where
  "RULE_ORDER = [RULE_CANARY_DRIFT, RULE_RECHECK_SURVIVAL, RULE_AGGREGATED_STATS, RULE_SURVIVAL_THRESHOLD]"

text \<open>The namespace of the language, or the default one when it is empty.\<close>

definition resolved :: "json \<Rightarrow> string \<Rightarrow> exn + json" where
  "resolved spaces language =
     bindR (jdict_of spaces) (\<lambda>spaces.
       let own = jget_or spaces language (JDict []); dflt = jget_or spaces ''default'' (JDict [])
       in Inr (if language \<noteq> ''default'' then py_or own dflt else dflt))"

fun rules_loop ::
  "env \<Rightarrow> (string \<Rightarrow> pyfloat option) \<Rightarrow> string option \<Rightarrow> json \<Rightarrow> jdict \<Rightarrow> string list \<Rightarrow> exn + rule_result list" where
  "rules_loop env utc rule_filter rules_config scoped [] = Inr []"
| "rules_loop env utc rule_filter rules_config scoped (rule # rules) =
     (let rest = rules_loop env utc rule_filter rules_config scoped rules
      in if rule_filter \<noteq> None \<and> rule_filter \<noteq> Some rule then rest
         else bindR (jdict_of rules_config) (\<lambda>rc.
              bindR (jdict_of (jget_or rc rule (JDict []))) (\<lambda>config.
                if \<not> truthy (jget_or config ''enabled'' (JBool True)) then rest
                else (case rule_fn env utc rule scoped config of
                        Inr rs \<Rightarrow> bindR rest (\<lambda>rest. Inr (rs @ rest))
                      | Inl e \<Rightarrow>
                          if list_ex (isinst e) [ValueErr, KeyErr, TypeErr] then rest else Inl e))))"

definition evaluate_rules ::
  "env \<Rightarrow> (string \<Rightarrow> pyfloat option) \<Rightarrow> jdict \<Rightarrow> string option \<Rightarrow> string \<Rightarrow> exn + rule_result list" where
  "evaluate_rules env utc state_data rule_filter language =
     bindR (resolved (jget_or state_data ''weights'' (JDict [])) language) (\<lambda>weights.
     bindR (resolved (jget_or state_data ''stats'' (JDict [])) language) (\<lambda>stats.
       rules_loop env utc rule_filter (jget_or state_data ''rules'' (JDict []))
         (dput ''stats'' stats (dput ''weights'' weights state_data)) RULE_ORDER))"

text \<open>Per platform the first result with the lowest new weight.\<close>

definition keep_strongest :: "rule_result \<Rightarrow> (string, rule_result) dict \<Rightarrow> (string, rule_result) dict" where
  "keep_strongest r strongest =
     (case dget strongest (rr_platform r) of
        None \<Rightarrow> dput (rr_platform r) r strongest
      | Some current \<Rightarrow>
          if rr_new_weight r < rr_new_weight current then dput (rr_platform r) r strongest else strongest)"

definition strongest_results :: "rule_result list \<Rightarrow> rule_result list" where
  "strongest_results results = map snd (fold keep_strongest (filter rr_applied results) [])"

definition as_update :: "rule_result \<Rightarrow> weight_update" where
  "as_update r = (rr_platform r, rr_new_weight r, rr_rule_name r, rr_reason r, rr_intentional_zero r)"

definition apply_results :: "env \<Rightarrow> (nat \<Rightarrow> string) \<Rightarrow> rule_result list \<Rightarrow> nat oact" where
  "apply_results env ts results =
     (if filter rr_applied results = [] then retS 0
      else bindS (update_many_weights env ts (map as_update (strongest_results results)) ''default'')
             (\<lambda>u. retS (length (strongest_results results))))"

text \<open>The command: what it evaluated, and how many changes it wrote.\<close>

definition optimize_weights ::
  "env \<Rightarrow> (string \<Rightarrow> pyfloat option) \<Rightarrow> (nat \<Rightarrow> string) \<Rightarrow> string option \<Rightarrow> bool \<Rightarrow> bool \<Rightarrow>
     (rule_result list \<times> nat) oact" where
  "optimize_weights env utc ts rule as_json dry_run =
     bindS (load_dict env) (\<lambda>data.
     bindS (liftR (evaluate_rules env utc data rule ''default'')) (\<lambda>results.
       if as_json \<or> results = [] \<or> dry_run then retS (results, 0)
       else bindS (apply_results env ts results) (\<lambda>n. retS (results, n))))"

section \<open>Collecting the statistics\<close>

text \<open>\<open>x + y\<close>; bools are integers.\<close>

fun py_whole :: "json \<Rightarrow> int option" where
  "py_whole (JInt n) = Some n"
| "py_whole (JBool b) = Some (if b then 1 else 0)"
| "py_whole _ = None"

definition py_add :: "json \<Rightarrow> json \<Rightarrow> exn + json" where
  "py_add x y =
     (case (py_whole x, py_whole y) of
        (Some a, Some b) \<Rightarrow> Inr (JInt (a + b))
      | _ \<Rightarrow>
          (case (py_num x, py_num y) of
             (Some a, Some b) \<Rightarrow> Inr (JFloat (a + b))
           | _ \<Rightarrow>
               (case (x, y) of
                  (JStr a, JStr b) \<Rightarrow> Inr (JStr (a @ b))
                | (JList a, JList b) \<Rightarrow> Inr (JList (a @ b))
                | _ \<Rightarrow> type_error)))"

definition drift_part :: "string \<times> json \<Rightarrow> (string \<times> json) list" where
  "drift_part = (\<lambda>(platform, entry).
     if platform = PUBLISH_PATH_KEY then []
     else (case entry of
             JDict e \<Rightarrow>
               [(platform, JDict [(''drift_count'', JInt
                  (if jget e ''status'' = JStr STATUS_DRIFT_CONFIRMED \<or> truthy (jget e ''quarantined'') then 1 else 0))])]
           | _ \<Rightarrow> []))"

definition extract_platform_drift :: "json \<Rightarrow> exn + json" where
  "extract_platform_drift health =
     bindR (jdict_of health) (\<lambda>data.
       Inr (JDict [(''platforms'', JDict (concat (map drift_part data))), (''status'', JStr ''collected'')]))"

text \<open>The three sources. A command line that was run gives the JSON it printed, \<open>None\<close> if it failed.\<close>

definition unavailable :: json where "unavailable = JDict [(''status'', JStr ''unavailable'')]"
definition skipped :: json where "skipped = JDict [(''status'', JStr ''skipped'')]"

definition cli_or_unavailable :: "json option \<Rightarrow> json" where
  "cli_or_unavailable cli = (case cli of Some j \<Rightarrow> j | None \<Rightarrow> unavailable)"

definition collect_from_canary :: "json_file \<Rightarrow> json option \<Rightarrow> exn + json" where
  "collect_from_canary f cli =
     (case f of
        FAbsent \<Rightarrow> Inr (cli_or_unavailable cli)
      | FBad e \<Rightarrow> if isinst e JSONDecodeError \<or> isinst e OSErr then Inr (cli_or_unavailable cli) else Inl e
      | FJson j \<Rightarrow> extract_platform_drift j)"

text \<open>\<open>for platform, stats in source["platforms"].items()\<close>, with the merged entry at hand.\<close>

fun merge_loop ::
  "(jdict \<Rightarrow> jdict \<Rightarrow> exn + jdict) \<Rightarrow> (string \<times> json) list \<Rightarrow> (string, jdict) dict \<Rightarrow> exn + (string, jdict) dict" where
  "merge_loop f [] merged = Inr merged"
| "merge_loop f ((platform, st) # sts) merged =
     bindR (jdict_of st) (\<lambda>st. bindR (f st (dget_or merged platform [])) (\<lambda>entry.
       merge_loop f sts (dput platform entry merged)))"

text \<open>\<open>"platforms" in source\<close> and then \<open>source["platforms"]\<close>.\<close>

fun platforms_of :: "json \<Rightarrow> exn + json option" where
  "platforms_of (JDict s) = Inr (dget s ''platforms'')"
| "platforms_of (JList xs) = (if JStr ''platforms'' \<in> set xs then type_error else Inr None)"
| "platforms_of (JStr s) = (if contains ''platforms'' s then type_error else Inr None)"
| "platforms_of _ = type_error"

definition merge_source ::
  "json \<Rightarrow> (jdict \<Rightarrow> jdict \<Rightarrow> exn + jdict) \<Rightarrow> (string, jdict) dict \<Rightarrow> exn + (string, jdict) dict" where
  "merge_source source f merged =
     bindR (platforms_of source) (\<lambda>ps.
       case ps of
         None \<Rightarrow> Inr merged
       | Some ps \<Rightarrow> bindR (jdict_of ps) (\<lambda>ps. merge_loop f ps merged))"

definition merge_recheck :: "jdict \<Rightarrow> jdict \<Rightarrow> exn + jdict" where
  "merge_recheck st entry =
     Inr (dput ''last_recheck'' (jget st ''last_recheck'')
       (dput ''total_published'' (jget_or st ''total_published'' (JInt 0))
       (dput ''dofollow_count'' (jget_or st ''dofollow_count'' (JInt 0))
       (dput ''alive_count'' (jget_or st ''alive_count'' (JInt 0)) entry))))"

definition merge_canary :: "jdict \<Rightarrow> jdict \<Rightarrow> exn + jdict" where
  "merge_canary st entry =
     bindR (py_add (jget_or entry ''drift_count'' (JInt 0)) (jget_or st ''drift_count'' (JInt 0)))
       (\<lambda>n. Inr (dput ''drift_count'' n entry))"

definition ADDITIVE :: "string list" where
  "ADDITIVE = [''total_published'', ''alive_count'', ''dofollow_count'', ''drift_count'']"

fun merge_equity :: "jdict \<Rightarrow> jdict \<Rightarrow> exn + jdict" where
  "merge_equity [] entry = Inr entry"
| "merge_equity ((k, v) # st) entry =
     (if k \<in> set ADDITIVE
      then bindR (py_add (jget_or entry k (JInt 0)) v) (\<lambda>n. merge_equity st (dput k n entry))
      else merge_equity st (dput k v entry))"

definition merge_signals :: "json \<Rightarrow> json \<Rightarrow> json \<Rightarrow> exn + (string, jdict) dict" where
  "merge_signals recheck canary equity =
     bindR (merge_source recheck merge_recheck []) (\<lambda>merged.
     bindR (merge_source canary merge_canary merged) (\<lambda>merged.
       merge_source equity merge_equity merged))"

record signal_sources =
  ss_recheck :: "json option"
  ss_canary_file :: json_file
  ss_canary_cli :: "json option"
  ss_equity :: "json option"

fun store_stats :: "env \<Rightarrow> string \<Rightarrow> (string, jdict) dict \<Rightarrow> unit oact" where
  "store_stats env language [] = retS ()"
| "store_stats env language ((platform, st) # merged) =
     bindS (update_stats env platform st language) (\<lambda>u. store_stats env language merged)"

definition collect_all_signals ::
  "env \<Rightarrow> signal_sources \<Rightarrow> bool \<Rightarrow> string option \<Rightarrow> string \<Rightarrow> (string, jdict) dict oact" where
  "collect_all_signals env src dry_run source_filter language =
     (let on = (\<lambda>s. source_filter = None \<or> source_filter = Some s);
          recheck = (if on ''recheck'' then cli_or_unavailable (ss_recheck src) else skipped);
          equity = (if on ''equity'' then cli_or_unavailable (ss_equity src) else skipped)
      in bindS (liftR (if on ''canary'' then collect_from_canary (ss_canary_file src) (ss_canary_cli src)
                       else Inr skipped)) (\<lambda>canary.
         bindS (liftR (merge_signals recheck canary equity)) (\<lambda>merged.
         bindS (if dry_run then retS () else store_stats env language merged) (\<lambda>u. retS merged))))"

end
