(* ===== verification/Opt_Facts.thy ===== *)
theory Opt_Facts
  imports Optimization Keyed
begin

text \<open>
  The weight document as a keyed store: sections (weights, statistics), languages, platforms. Every
  write touches one entry, whatever the cache held, as long as cache and file agree; a manual lock
  withstands every automated write then, and a batch does what single writes would do.
\<close>

section \<open>Well-formed documents\<close>

definition good_entry :: "jdict \<Rightarrow> bool" where
  "good_entry e \<longleftrightarrow>
     py_num (jget_or e ''current'' (jget_or e ''base'' (JFloat 1))) \<noteq> None \<and>
     (\<exists>adjs. jget_or e ''adjustments'' (JList []) = JList adjs)"

definition entries_ok :: "string \<Rightarrow> jdict \<Rightarrow> bool" where
  "entries_ok sect ns \<longleftrightarrow>
     wf_dict ns \<and> (\<forall>n j. dget ns n = Some j \<longrightarrow> (\<exists>e. j = JDict e \<and> (sect = ''weights'' \<longrightarrow> good_entry e)))"

definition spaces_ok :: "string \<Rightarrow> jdict \<Rightarrow> bool" where
  "spaces_ok sect s \<longleftrightarrow> wf_dict s \<and> (\<forall>l j. dget s l = Some j \<longrightarrow> (\<exists>ns. j = JDict ns \<and> entries_ok sect ns))"

definition SECTIONS :: "string set" where "SECTIONS = {''weights'', ''stats''}"

definition doc_ok :: "jdict \<Rightarrow> bool" where
  "doc_ok d \<longleftrightarrow>
     wf_dict d \<and> dget d ''version'' \<noteq> None \<and> py_num (jget d ''version'') \<noteq> Some 1 \<and>
     (\<forall>sect \<in> SECTIONS. \<forall>j. dget d sect = Some j \<longrightarrow> (\<exists>s. j = JDict s \<and> spaces_ok sect s))"

definition spaces_of :: "string \<Rightarrow> jdict \<Rightarrow> jdict" where
  "spaces_of sect d = (case dget d sect of Some (JDict s) \<Rightarrow> s | _ \<Rightarrow> [])"

definition ns_of :: "string \<Rightarrow> string \<Rightarrow> jdict \<Rightarrow> jdict" where
  "ns_of sect l d = (case dget (spaces_of sect d) l of Some (JDict ns) \<Rightarrow> ns | _ \<Rightarrow> [])"

lemma entries_ok_Nil [simp]: "entries_ok sect []"
  by (simp add: entries_ok_def)

lemma spaces_ok_Nil [simp]: "spaces_ok sect []"
  by (simp add: spaces_ok_def)

lemma dget_setdefault [simp]:
  "dget (setdefault k v d) k' = (if k' = k \<and> dget d k = None then Some v else dget d k')"
  by (simp add: setdefault_def)

lemma wf_setdefault [simp]: "wf_dict d \<Longrightarrow> wf_dict (setdefault k v d)"
  by (simp add: setdefault_def)

lemma doc_ok_spaces: "doc_ok d \<Longrightarrow> sect \<in> SECTIONS \<Longrightarrow> spaces_ok sect (spaces_of sect d)"
  by (auto simp: doc_ok_def spaces_of_def split: option.splits json.splits)

lemma doc_ok_entries: "doc_ok d \<Longrightarrow> sect \<in> SECTIONS \<Longrightarrow> entries_ok sect (ns_of sect l d)"
  using doc_ok_spaces[of d sect] by (auto simp: ns_of_def spaces_ok_def split: option.splits json.splits)

lemma jget_setdefault_section:
  assumes "doc_ok d" "sect \<in> SECTIONS"
  shows "jget (setdefault sect (JDict []) d) sect = JDict (spaces_of sect d)"
proof -
  have "\<exists>s. j = JDict s" if "dget d sect = Some j" for j using assms that unfolding doc_ok_def by blast
  then show ?thesis by (cases "dget d sect") (force simp: jget_def dget_or_def spaces_of_def)+
qed

lemma jget_setdefault_language:
  assumes "spaces_ok sect (spaces_of sect d)"
  shows "jget (setdefault l (JDict []) (spaces_of sect d)) l = JDict (ns_of sect l d)"
proof -
  have "\<exists>ns. j = JDict ns" if "dget (spaces_of sect d) l = Some j" for j
    using assms that unfolding spaces_ok_def by blast
  then show ?thesis by (cases "dget (spaces_of sect d) l") (force simp: jget_def dget_or_def ns_of_def)+
qed

lemma in_namespace_body:
  assumes "doc_ok d" "sect \<in> SECTIONS"
  shows "in_namespace sect l body d =
    (let d1 = setdefault sect (JDict []) d;
         (r, d2, ns') = body (d1, ns_of sect l d)
     in (r, dput sect (JDict (dput l (JDict ns') (setdefault l (JDict []) (spaces_of sect d)))) d2))"
  unfolding in_namespace_def Let_def jget_setdefault_section[OF assms] jdict_of.simps sum.case
    jget_setdefault_language[OF doc_ok_spaces[OF assms]] ..

text \<open>A body that keeps its namespace well formed, and leaves the rest of the document alone but for
  adding an empty section of statistics.\<close>

lemma in_namespace_ok:
  assumes d: "doc_ok d" and s: "sect \<in> SECTIONS"
    and b: "body (setdefault sect (JDict []) d, ns_of sect l d) = (r, d2, ns')"
    and d2: "d2 = setdefault sect (JDict []) d \<or> d2 = setdefault ''stats'' (JDict []) (setdefault sect (JDict []) d)"
    and ns': "entries_ok sect ns'"
  obtains d' where "in_namespace sect l body d = (r, d')" "doc_ok d'"
    "\<And>sect' l'. ns_of sect' l' d' = (if sect' = sect \<and> l' = l then ns' else ns_of sect' l' d)"
proof -
  let ?s = "dput l (JDict ns') (setdefault l (JDict []) (spaces_of sect d))"
  let ?d = "dput sect (JDict ?s) d2"
  have get2: "dget d2 k = (case dget d k of None \<Rightarrow> if k = sect \<or> k = ''stats'' \<and> d2 \<noteq> setdefault sect (JDict []) d
      then Some (JDict []) else None | Some j \<Rightarrow> Some j)" for k
    using d2 by (auto split: option.splits)
  have sp: "spaces_ok sect ?s"
    using doc_ok_spaces[OF d s] ns' by (auto simp: spaces_ok_def split: if_splits)
  have other: "spaces_of k ?d = spaces_of k d" if "k \<noteq> sect" for k
    using that get2[of k] by (auto simp: spaces_of_def split: option.splits)
  have own: "spaces_of sect ?d = ?s" by (simp add: spaces_of_def)
  have "ns_of sect' l' ?d = (if sect' = sect \<and> l' = l then ns' else ns_of sect' l' d)" for sect' l'
    using other[of sect'] by (cases "sect' = sect") (auto simp: ns_of_def own split: option.splits json.splits)
  moreover have "doc_ok ?d"
  proof -
    have "wf_dict ?d" using d d2 by (auto simp: doc_ok_def)
    moreover have "dget ?d ''version'' \<noteq> None \<and> py_num (jget ?d ''version'') \<noteq> Some 1"
      using d s get2[of "''version''"] by (auto simp: doc_ok_def SECTIONS_def jget_def dget_or_def)
    moreover have "\<exists>s. j = JDict s \<and> spaces_ok k s" if "k \<in> SECTIONS" "dget ?d k = Some j" for k j
      using that d sp get2[of k] by (auto simp: doc_ok_def split: if_splits option.splits)
    ultimately show ?thesis by (auto simp: doc_ok_def)
  qed
  ultimately show ?thesis
    using that[of ?d] unfolding in_namespace_body[OF d s] Let_def b by simp
qed

section \<open>Reading and writing\<close>

definition opt_doc :: "opt_world \<Rightarrow> jdict" where
  "opt_doc w = (case ow_file w of FJson (JDict d) \<Rightarrow> d | _ \<Rightarrow> default_state)"

text \<open>A store that can be written and whose cache, if it holds anything, holds what the file holds.\<close>

definition opt_ready :: "opt_world \<Rightarrow> bool" where
  "opt_ready w \<longleftrightarrow>
     ow_save w = None \<and> doc_ok (opt_doc w) \<and>
     (ow_file w = FAbsent \<and> ow_cache w = None \<or>
      ow_file w = FJson (JDict (opt_doc w)) \<and> (\<forall>t j. ow_cache w = Some (t, j) \<longrightarrow> j = JDict (opt_doc w)))"

lemma opt_readyD:
  assumes "opt_ready w"
  shows "ow_save w = None" "doc_ok (opt_doc w)"
    "ow_file w = FAbsent \<and> ow_cache w = None \<or>
      ow_file w = FJson (JDict (opt_doc w)) \<and> (\<forall>t j. ow_cache w = Some (t, j) \<longrightarrow> j = JDict (opt_doc w))"
    "dget (opt_doc w) ''version'' \<noteq> None" "py_num (jget (opt_doc w) ''version'') \<noteq> Some 1"
  using assms unfolding opt_ready_def doc_ok_def by blast+

lemma opt_doc_cache [simp]: "opt_doc (w\<lparr>ow_cache := c\<rparr>) = opt_doc w"
  by (simp add: opt_doc_def)

lemma ready_cache:
  assumes "opt_ready w" "c = None \<or> (\<exists>t. c = Some (t, JDict (opt_doc w))) \<and> ow_file w = FJson (JDict (opt_doc w))"
  shows "opt_ready (w\<lparr>ow_cache := c\<rparr>)"
  using opt_readyD(1-3)[OF assms(1)] assms(2) unfolding opt_ready_def opt_doc_cache by auto

lemma opt_load_ready:
  assumes "opt_ready w"
  obtains c where "opt_load env w = (Inr (JDict (opt_doc w)), w\<lparr>ow_cache := c\<rparr>)" "opt_ready (w\<lparr>ow_cache := c\<rparr>)"
proof -
  note r = opt_readyD[OF assms]
  have fresh: "opt_load env w = (Inr (JDict (opt_doc w)), w\<lparr>ow_cache := Some (e_now env + 60, JDict (opt_doc w))\<rparr>)"
    if "fst (cache_get env w) = None" "snd (cache_get env w) = w\<lparr>ow_cache := None\<rparr>" "ow_file w = FJson (JDict (opt_doc w))"
  proof -
    have "cache_get env w = (None, w\<lparr>ow_cache := None\<rparr>)" using that(1,2) by (cases "cache_get env w") simp
    moreover have "has_version (JDict (opt_doc w)) = Inr True" using r(4) by simp
    ultimately show ?thesis
      using that(3) unfolding opt_load_def by (simp add: if_not_P[OF r(5)] cache_set_def del: has_version.simps)
  qed
  consider (absent) "ow_file w = FAbsent" "ow_cache w = None"
    | (none) "ow_file w = FJson (JDict (opt_doc w))" "ow_cache w = None"
    | (some) t where "ow_file w = FJson (JDict (opt_doc w))" "ow_cache w = Some (t, JDict (opt_doc w))"
  proof (cases "ow_file w = FAbsent")
    case True
    then show ?thesis using r(3) that(1) by simp
  next
    case False
    then have f: "ow_file w = FJson (JDict (opt_doc w))" "\<And>t j. ow_cache w = Some (t, j) \<Longrightarrow> j = JDict (opt_doc w)"
      using r(3) by blast+
    show ?thesis
    proof (cases "ow_cache w")
      case None
      then show ?thesis using that(2) f(1) by blast
    next
      case (Some p)
      then show ?thesis using that(3)[of "fst p"] f by (cases p) simp
    qed
  qed
  then show ?thesis
  proof cases
    case absent
    then have "opt_doc w = default_state" "w\<lparr>ow_cache := None\<rparr> = w" by (simp_all add: opt_doc_def)
    then have "opt_load env w = (Inr (JDict (opt_doc w)), w\<lparr>ow_cache := None\<rparr>)"
      using absent by (simp add: opt_load_def cache_get_def)
    then show ?thesis using that ready_cache[OF assms] by blast
  next
    case none
    then have "w\<lparr>ow_cache := None\<rparr> = w" by simp
    then show ?thesis
      by (intro that[OF fresh] ready_cache[OF assms]) (use none in \<open>simp_all add: cache_get_def\<close>)
  next
    case some
    show ?thesis
    proof (cases "e_now env > t")
      case True
      then show ?thesis
        by (intro that[OF fresh] ready_cache[OF assms]) (use some in \<open>simp_all add: cache_get_def\<close>)
    next
      case False
      then have "opt_load env w = (Inr (JDict (opt_doc w)), w)"
        using some by (simp add: opt_load_def cache_get_def)
      then show ?thesis using assms by (intro that[of "ow_cache w"]) simp_all
    qed
  qed
qed

lemma opt_rmw_ready:
  assumes w: "opt_ready w" and b: "body (opt_doc w) = (Inr dirty, d')"
    and d': "doc_ok d'" "\<not> dirty \<Longrightarrow> d' = opt_doc w"
  obtains w' where "opt_rmw env body w = (Inr (), w')" "opt_ready w'" "opt_doc w' = d'"
proof -
  obtain c where l: "opt_load env w = (Inr (JDict (opt_doc w)), w\<lparr>ow_cache := c\<rparr>)" "opt_ready (w\<lparr>ow_cache := c\<rparr>)"
    using opt_load_ready[OF w] by blast
  let ?w = "in_place (JDict d') (w\<lparr>ow_cache := c\<rparr>)"
  have run: "opt_rmw env body w = (if dirty then opt_save (JDict d') ?w else (Inr (), ?w))"
    by (simp add: opt_rmw_def bindS_def liftR_def l(1) b)
  have save: "ow_save ?w = None" using w by (auto simp: opt_ready_def in_place_def split: option.splits)
  show ?thesis
  proof (cases dirty)
    case True
    then have "opt_rmw env body w = (Inr (), cache_delete (?w\<lparr>ow_file := FJson (JDict d')\<rparr>))"
      using run save by (simp add: opt_save_def)
    moreover have "opt_doc (cache_delete (?w\<lparr>ow_file := FJson (JDict d')\<rparr>)) = d'"
      by (simp add: opt_doc_def cache_delete_def)
    ultimately show ?thesis
      using save d'(1)
      by (intro that[of "cache_delete (?w\<lparr>ow_file := FJson (JDict d')\<rparr>)"])
        (simp_all add: opt_ready_def cache_delete_def)
  next
    case False
    have "?w = w\<lparr>ow_cache := c\<rparr>"
      using l(2) d'(2)[OF False] by (cases c) (auto simp: in_place_def opt_ready_def)
    then show ?thesis
      using False run l(2) d'(2)[OF False] by (intro that[of "w\<lparr>ow_cache := c\<rparr>"]) simp_all
  qed
qed

lemma default_doc_ok: "doc_ok default_state"
proof -
  have "dget default_state ''version'' = Some (JInt 2)" "wf_dict default_state"
    "dget default_state ''weights'' = Some (JDict [(''default'', JDict [])])"
    "dget default_state ''stats'' = Some (JDict [(''default'', JDict [])])"
    by (simp_all add: default_state_def)
  then show ?thesis by (auto simp: doc_ok_def SECTIONS_def spaces_ok_def jget_def dget_or_def split: if_splits)
qed

section \<open>One entry at a time\<close>

definition opt_entry :: "string \<times> string \<times> string \<Rightarrow> opt_world \<Rightarrow> json option" where
  "opt_entry = (\<lambda>(sect, l, name) w. dget (ns_of sect l (opt_doc w)) name)"

definition entry_dict :: "json option \<Rightarrow> jdict" where
  "entry_dict v = (case v of Some (JDict e) \<Rightarrow> e | _ \<Rightarrow> [])"

text \<open>What a weight update makes of an entry.\<close>

definition set_entry :: "string \<Rightarrow> pyfloat \<Rightarrow> string \<Rightarrow> string \<Rightarrow> bool \<Rightarrow> json option \<Rightarrow> jdict" where
  "set_entry ts weight rule reason intentional_zero v =
     (let e = entry_dict v;
          old = jget_or e ''current'' (jget_or e ''base'' (JFloat 1));
          multiplier = (case py_num old of Some x \<Rightarrow> if x \<noteq> 0 then weight / x else 0 | None \<Rightarrow> 0);
          adjs = (case jget_or e ''adjustments'' (JList []) of JList a \<Rightarrow> a | _ \<Rightarrow> [])
      in weight_entry (jget_or e ''base'' old) weight (jget_or e ''locked'' (JBool False)) intentional_zero ts
           (adjs @ [adjustment rule ts multiplier reason]))"

datatype opt_op =
    SetWeight env string string pyfloat string string bool bool string
  | LockWeight env string bool string
  | UpdateStats env string jdict string

fun opt_step :: "opt_op \<Rightarrow> unit oact" where
  "opt_step (SetWeight env ts name weight rule reason force iz l) = set_weight env ts name weight rule reason force iz l"
| "opt_step (LockWeight env name lock l) = lock_weight env name lock l"
| "opt_step (UpdateStats env name upd l) = update_stats env name upd l"

fun opt_target :: "opt_op \<Rightarrow> string \<times> string \<times> string" where
  "opt_target (SetWeight env ts name weight rule reason force iz l) = (''weights'', l, name)"
| "opt_target (LockWeight env name lock l) = (''weights'', l, name)"
| "opt_target (UpdateStats env name upd l) = (''stats'', l, name)"

fun opt_effect :: "opt_op \<Rightarrow> json option \<Rightarrow> json option" where
  "opt_effect (SetWeight env ts name weight rule reason force iz l) v =
     (if \<not> force \<and> locked (entry_dict v) then v else Some (JDict (set_entry ts weight rule reason iz v)))"
| "opt_effect (LockWeight env name lock l) v = Some (JDict (dput ''locked'' (JBool lock) (entry_dict v)))"
| "opt_effect (UpdateStats env name upd l) v = Some (JDict (dmerge (entry_dict v) upd))"

lemma entries_okE:
  assumes "entries_ok sect ns"
  obtains "dget ns name = None" "entry_dict (dget ns name) = []"
  | e where "dget ns name = Some (JDict e)" "entry_dict (dget ns name) = e" "sect = ''weights'' \<Longrightarrow> good_entry e"
proof (cases "dget ns name")
  case (Some j)
  then obtain e where "j = JDict e" "sect = ''weights'' \<longrightarrow> good_entry e" using assms unfolding entries_ok_def by blast
  then show ?thesis using that(2)[of e] Some by (simp add: entry_dict_def)
qed (simp add: that(1) entry_dict_def)

lemma existing_entry_ok:
  "entries_ok sect ns \<Longrightarrow> existing_entry name ns = Inr (entry_dict (dget ns name))"
  by (erule entries_okE[of _ _ name]) (simp_all add: existing_entry_def jget_or_def dget_or_def)

lemma entries_ok_dput:
  "entries_ok sect ns \<Longrightarrow> (sect = ''weights'' \<longrightarrow> good_entry e) \<Longrightarrow> entries_ok sect (dput name (JDict e) ns)"
  by (auto simp: entries_ok_def split: if_splits)

lemma good_set_entry: "good_entry (set_entry ts weight rule reason iz v)"
  by (simp add: good_entry_def set_entry_def weight_entry_def Let_def jget_or_def dget_or_def)

lemma good_entry_Nil: "good_entry []"
  by (simp add: good_entry_def jget_or_def dget_or_def)

lemma good_entry_of: "entries_ok ''weights'' ns \<Longrightarrow> good_entry (entry_dict (dget ns name))"
  by (erule entries_okE[of _ _ name]) (simp_all add: good_entry_Nil)

lemma write_weight_ok:
  assumes "entries_ok ''weights'' ns"
  shows "write_weight ts name weight rule reason iz (entry_dict (dget ns name)) (data, ns) =
    (Inr True, if dget ns name = None then setdefault ''stats'' (JDict []) data else data,
     dput name (JDict (set_entry ts weight rule reason iz (dget ns name))) ns)"
proof -
  let ?e = "entry_dict (dget ns name)"
  obtain x adjs where g: "py_num (jget_or ?e ''current'' (jget_or ?e ''base'' (JFloat 1))) = Some x"
    "jget_or ?e ''adjustments'' (JList []) = JList adjs"
    using good_entry_of[OF assms, of name] by (auto simp: good_entry_def)
  show ?thesis
  proof (cases "dget ns name")
    case None
    then have "?e = []" by (simp add: entry_dict_def)
    then show ?thesis
      using None by (simp add: write_weight_def set_entry_def Let_def old_multiplier_def jget_or_def dget_or_def)
  next
    case (Some j)
    then show ?thesis
      using g by (simp add: write_weight_def set_entry_def Let_def old_multiplier_def)
  qed
qed

lemma in_namespace_same:
  assumes d: "doc_ok d" "sect \<in> SECTIONS" and ne: "ns_of sect l d \<noteq> []"
    and b: "body (setdefault sect (JDict []) d, ns_of sect l d) = (r, setdefault sect (JDict []) d, ns_of sect l d)"
  shows "in_namespace sect l body d = (r, d)"
proof -
  have sp: "dget (spaces_of sect d) l = Some (JDict (ns_of sect l d))"
    using ne by (auto simp: ns_of_def split: option.splits json.splits)
  then have "dget d sect = Some (JDict (spaces_of sect d))"
    by (auto simp: spaces_of_def split: option.splits json.splits)
  then show ?thesis
    using in_namespace_body[OF d] b sp doc_ok_spaces[OF d] d(1)
    by (simp add: setdefault_def dput_same spaces_ok_def doc_ok_def)
qed

lemma ns_step:
  assumes w: "opt_ready w" and s: "sect \<in> SECTIONS"
    and b: "body (setdefault sect (JDict []) (opt_doc w), ns_of sect l (opt_doc w)) = (Inr dirty, d2, ns')"
    and d2: "d2 = setdefault sect (JDict []) (opt_doc w) \<or>
      d2 = setdefault ''stats'' (JDict []) (setdefault sect (JDict []) (opt_doc w))"
    and ns': "entries_ok sect ns'"
    and clean: "\<not> dirty \<Longrightarrow> d2 = setdefault sect (JDict []) (opt_doc w) \<and> ns' = ns_of sect l (opt_doc w) \<and> ns' \<noteq> []"
  obtains w' where "opt_rmw env (in_namespace sect l body) w = (Inr (), w')" "opt_ready w'"
    "\<And>sect' l'. ns_of sect' l' (opt_doc w') = (if sect' = sect \<and> l' = l then ns' else ns_of sect' l' (opt_doc w))"
proof -
  note d = opt_readyD(2)[OF w]
  obtain d' where d': "in_namespace sect l body (opt_doc w) = (Inr dirty, d')" "doc_ok d'"
    "\<And>sect' l'. ns_of sect' l' d' = (if sect' = sect \<and> l' = l then ns' else ns_of sect' l' (opt_doc w))"
    using in_namespace_ok[where body = body, OF d s b d2 ns'] by blast
  have "d' = opt_doc w" if "\<not> dirty"
    using in_namespace_same[where body = body, OF d s, of l "Inr dirty"] clean[OF that] b d'(1) by auto
  then obtain w' where "opt_rmw env (in_namespace sect l body) w = (Inr (), w')" "opt_ready w'" "opt_doc w' = d'"
    using opt_rmw_ready[where body = "in_namespace sect l body", OF w d'(1,2)] by blast
  then show ?thesis using that d'(3) by blast
qed

lemma locked_present: "locked (entry_dict (dget ns name)) \<Longrightarrow> dget ns name \<noteq> None"
  by (cases "dget ns name") (simp_all add: locked_def entry_dict_def jget_or_def dget_or_def)

lemma step_entry:
  assumes "opt_target op = (sect, l, name)"
    and "\<And>sect' l'. ns_of sect' l' (opt_doc w') = (if sect' = sect \<and> l' = l then ns' else ns_of sect' l' (opt_doc w))"
    and "\<And>n. dget ns' n = (if n = name then opt_effect op (dget (ns_of sect l (opt_doc w)) name)
        else dget (ns_of sect l (opt_doc w)) n)"
  shows "opt_entry k w' = (if k = opt_target op then opt_effect op (opt_entry k w) else opt_entry k w)"
  using assms by (cases k) (auto simp: opt_entry_def)

lemma opt_step_ready:
  assumes w: "opt_ready w"
  obtains w' where "opt_step op w = (Inr (), w')" "opt_ready w'"
    "\<And>k. opt_entry k w' = (if k = opt_target op then opt_effect op (opt_entry k w) else opt_entry k w)"
proof (cases op)
  case (SetWeight env ts name weight rule reason force iz l)
  let ?ns = "ns_of ''weights'' l (opt_doc w)" and ?d = "setdefault ''weights'' (JDict []) (opt_doc w)"
  let ?v = "dget ?ns name" and ?keep = "\<not> force \<and> locked (entry_dict (dget ?ns name))"
  have s: "''weights'' \<in> SECTIONS" by (simp add: SECTIONS_def)
  have ok: "entries_ok ''weights'' ?ns" by (rule doc_ok_entries[OF opt_readyD(2)[OF w] s])
  define ns' where "ns' = (if ?keep then ?ns else dput name (JDict (set_entry ts weight rule reason iz ?v)) ?ns)"
  define d2 where "d2 = (if ?keep \<or> ?v \<noteq> None then ?d else setdefault ''stats'' (JDict []) ?d)"
  let ?body = "\<lambda>(data, ns). case existing_entry name ns of
      Inl e \<Rightarrow> (Inl e, data, ns)
    | Inr existing \<Rightarrow>
        if \<not> force \<and> locked existing then (Inr False, data, ns)
        else write_weight ts name weight rule reason iz existing (data, ns)"
  have b: "?body (?d, ?ns) = (Inr (\<not> ?keep), d2, ns')"
    using existing_entry_ok[OF ok] write_weight_ok[OF ok] by (simp add: ns'_def d2_def)
  have "entries_ok ''weights'' ns'" using ok by (simp add: ns'_def entries_ok_dput good_set_entry)
  moreover have "d2 = ?d \<and> ns' = ?ns \<and> ns' \<noteq> []" if k: ?keep
    using k locked_present[of ?ns name] by (auto simp: ns'_def d2_def)
  moreover have "d2 = ?d \<or> d2 = setdefault ''stats'' (JDict []) ?d" by (simp add: d2_def)
  ultimately obtain w' where w': "opt_rmw env (in_namespace ''weights'' l ?body) w = (Inr (), w')" "opt_ready w'"
    "\<And>sect' l'. ns_of sect' l' (opt_doc w') = (if sect' = ''weights'' \<and> l' = l then ns' else ns_of sect' l' (opt_doc w))"
    using ns_step[where body = ?body, OF w s b] by blast
  have "dget ns' n = (if n = name then opt_effect op ?v else dget ?ns n)" for n
    by (simp add: ns'_def SetWeight)
  then show ?thesis
    using that[OF _ w'(2) step_entry[OF _ w'(3)]] w'(1) by (simp add: SetWeight set_weight_def)
next
  case (LockWeight env name lock l)
  let ?ns = "ns_of ''weights'' l (opt_doc w)" and ?d = "setdefault ''weights'' (JDict []) (opt_doc w)"
  let ?v = "dget ?ns name"
  have s: "''weights'' \<in> SECTIONS" by (simp add: SECTIONS_def)
  have ok: "entries_ok ''weights'' ?ns" by (rule doc_ok_entries[OF opt_readyD(2)[OF w] s])
  define ns' where "ns' = dput name (JDict (dput ''locked'' (JBool lock) (entry_dict ?v))) ?ns"
  let ?body = "\<lambda>(data, ns). let ns = setdefault name (JDict []) ns
    in (case jget ns name of
          JDict entry \<Rightarrow> (Inr True, data, dput name (JDict (dput ''locked'' (JBool lock) entry)) ns)
        | _ \<Rightarrow> (type_error, data, ns))"
  have b: "?body (?d, ?ns) = (Inr True, ?d, ns')"
    using ok by (rule entries_okE[of _ _ name]) (simp_all add: ns'_def jget_def dget_or_def setdefault_def)
  have "good_entry (dput ''locked'' (JBool lock) e)" if "good_entry e" for e
    using that by (simp add: good_entry_def)
  then have "entries_ok ''weights'' ns'"
    using ok good_entry_of[OF ok] by (simp add: ns'_def entries_ok_dput)
  then obtain w' where w': "opt_rmw env (in_namespace ''weights'' l ?body) w = (Inr (), w')" "opt_ready w'"
    "\<And>sect' l'. ns_of sect' l' (opt_doc w') = (if sect' = ''weights'' \<and> l' = l then ns' else ns_of sect' l' (opt_doc w))"
    using ns_step[where body = ?body, OF w s b] by blast
  have "dget ns' n = (if n = name then opt_effect op ?v else dget ?ns n)" for n
    by (simp add: ns'_def LockWeight)
  then show ?thesis
    using that[OF _ w'(2) step_entry[OF _ w'(3)]] w'(1) by (simp add: LockWeight lock_weight_def)
next
  case (UpdateStats env name upd l)
  let ?ns = "ns_of ''stats'' l (opt_doc w)" and ?d = "setdefault ''stats'' (JDict []) (opt_doc w)"
  let ?v = "dget ?ns name"
  have s: "''stats'' \<in> SECTIONS" by (simp add: SECTIONS_def)
  have ok: "entries_ok ''stats'' ?ns" by (rule doc_ok_entries[OF opt_readyD(2)[OF w] s])
  define ns' where "ns' = dput name (JDict (dmerge (entry_dict ?v) upd)) ?ns"
  let ?body = "\<lambda>(data, ns). let ns = setdefault name (JDict []) ns
    in (case jdict_of (jget ns name) of
          Inl e \<Rightarrow> (Inl e, data, ns)
        | Inr existing \<Rightarrow> (Inr True, data, dput name (JDict (dmerge existing upd)) ns))"
  have b: "?body (?d, ?ns) = (Inr True, ?d, ns')"
    using ok by (rule entries_okE[of _ _ name]) (simp_all add: ns'_def jget_def dget_or_def setdefault_def)
  have "entries_ok ''stats'' ns'" using ok by (simp add: ns'_def entries_ok_dput)
  then obtain w' where w': "opt_rmw env (in_namespace ''stats'' l ?body) w = (Inr (), w')" "opt_ready w'"
    "\<And>sect' l'. ns_of sect' l' (opt_doc w') = (if sect' = ''stats'' \<and> l' = l then ns' else ns_of sect' l' (opt_doc w))"
    using ns_step[where body = ?body, OF w s b] by blast
  have "dget ns' n = (if n = name then opt_effect op ?v else dget ?ns n)" for n
    by (simp add: ns'_def UpdateStats)
  then show ?thesis
    using that[OF _ w'(2) step_entry[OF _ w'(3)]] w'(1) by (simp add: UpdateStats update_stats_def)
qed

interpretation weights: entry_store opt_entry opt_step opt_target opt_effect opt_ready
proof
  fix s op r s' k
  assume s: "opt_ready s"
  obtain s2 where s2: "opt_step op s = (Inr (), s2)" "opt_ready s2"
    "\<And>k. opt_entry k s2 = (if k = opt_target op then opt_effect op (opt_entry k s) else opt_entry k s)"
    using opt_step_ready[OF s] by blast
  show "\<exists>r s'. opt_step op s = (Inr r, s') \<and> opt_ready s'" using s2 by blast
  show "opt_entry (opt_target op) s' = opt_effect op (opt_entry (opt_target op) s)" if "opt_step op s = (Inr r, s')"
    using that s2 by simp
  show "opt_entry k s' = opt_entry k s" if "opt_step op s = (Inr r, s')" "k \<noteq> opt_target op"
    using that s2 by simp
qed

section \<open>Locks and history\<close>

definition adjs_of :: "jdict \<Rightarrow> json list" where
  "adjs_of e = (case jget_or e ''adjustments'' (JList []) of JList a \<Rightarrow> a | _ \<Rightarrow> [])"

text \<open>The operations that may change a locked entry: a forced write and a change of the lock.\<close>

fun overrides :: "opt_op \<Rightarrow> bool" where
  "overrides (SetWeight env ts name weight rule reason force iz l) = force"
| "overrides (LockWeight env name lock l) = True"
| "overrides (UpdateStats env name upd l) = False"

lemma fold_locked:
  assumes "locked e" "\<forall>op \<in> set ops. fst (opt_target op) = ''weights'' \<and> \<not> overrides op"
  shows "fold opt_effect ops (Some (JDict e)) = Some (JDict e)"
  using assms(2)
proof (induction ops)
  case (Cons op ops)
  then have "opt_effect op (Some (JDict e)) = Some (JDict e)"
    using assms(1) by (cases op) (auto simp: entry_dict_def)
  then show ?case using Cons by simp
qed simp

lemma fold_history:
  assumes "\<forall>op \<in> set ops. fst (opt_target op) = ''weights''" "dget e ''base'' = Some b"
    "jget_or e ''adjustments'' (JList []) = JList adjs"
  shows "\<exists>e' more. fold opt_effect ops (Some (JDict e)) = Some (JDict e') \<and> dget e' ''base'' = Some b \<and>
    jget_or e' ''adjustments'' (JList []) = JList (adjs @ more)"
  using assms
proof (induction ops arbitrary: e adjs)
  case (Cons op ops)
  have "\<exists>e1 more. opt_effect op (Some (JDict e)) = Some (JDict e1) \<and> dget e1 ''base'' = Some b \<and>
    jget_or e1 ''adjustments'' (JList []) = JList (adjs @ more)"
    using Cons.prems by (cases op)
      (auto simp: entry_dict_def set_entry_def weight_entry_def Let_def jget_or_def dget_or_def)
  then obtain e1 more where e1: "opt_effect op (Some (JDict e)) = Some (JDict e1)" "dget e1 ''base'' = Some b"
    "jget_or e1 ''adjustments'' (JList []) = JList (adjs @ more)" by blast
  obtain e' more' where "fold opt_effect ops (Some (JDict e1)) = Some (JDict e')" "dget e' ''base'' = Some b"
    "jget_or e' ''adjustments'' (JList []) = JList ((adjs @ more) @ more')"
    using Cons.IH[OF _ e1(2,3)] Cons.prems(1) by auto
  then show ?case using e1(1) by auto
qed auto

text \<open>Weights keep their base and their history: whatever writes, forced ones included, locks and
  statistics updates follow on any platforms, the base of an entry stays what it was, and the list
  of its adjustments only grows at the end.\<close>

theorem weight_history_kept:
  assumes "opt_ready w" "opt_entry (''weights'', l, name) w = Some (JDict e)" "dget e ''base'' = Some b"
  shows "\<exists>e' more. opt_entry (''weights'', l, name) (weights.run ops w) = Some (JDict e') \<and>
    dget e' ''base'' = Some b \<and> adjs_of e' = adjs_of e @ more"
proof -
  have "entries_ok ''weights'' (ns_of ''weights'' l (opt_doc w))"
    by (rule doc_ok_entries[OF opt_readyD(2)[OF assms(1)]]) (simp add: SECTIONS_def)
  then have "good_entry e" using assms(2) by (auto simp: entries_ok_def opt_entry_def)
  then obtain adjs where a: "jget_or e ''adjustments'' (JList []) = JList adjs" by (auto simp: good_entry_def)
  show ?thesis
    using fold_history[OF _ assms(3) a, of "filter (\<lambda>op. opt_target op = (''weights'', l, name)) ops"]
    by (auto simp: weights.run_entry[OF assms(1)] assms(2) adjs_of_def a)
qed

section \<open>Batches\<close>

definition batch_ops :: "env \<Rightarrow> string \<Rightarrow> weight_update list \<Rightarrow> string \<Rightarrow> opt_op list" where
  "batch_ops env t us l =
     map (\<lambda>(name, weight, rule, reason, iz). SetWeight env t name weight rule reason False iz l) us"

text \<open>The same with a clock reading for each update.\<close>

definition timed_ops :: "env \<Rightarrow> string list \<Rightarrow> weight_update list \<Rightarrow> string \<Rightarrow> opt_op list" where
  "timed_ops env stamps us l =
     map (\<lambda>(t, name, weight, rule, reason, iz). SetWeight env t name weight rule reason False iz l) (zip stamps us)"

lemma timed_ops_Cons [simp]:
  "timed_ops env (t # stamps) ((name, weight, rule, reason, iz) # us) l =
   SetWeight env t name weight rule reason False iz l # timed_ops env stamps us l"
  "timed_ops env stamps [] l = []"
  by (simp_all add: timed_ops_def)

lemma timed_ops_const: "length stamps = length us \<Longrightarrow> set stamps \<subseteq> {t} \<Longrightarrow> timed_ops env stamps us l = batch_ops env t us l"
  by (induction stamps us rule: list_induct2) (auto simp: timed_ops_def batch_ops_def)

lemma update_loop_ok:
  assumes "entries_ok ''weights'' ns"
  shows "\<exists>data' ns' stamps. update_loop ts n us (data, ns) = (Inr True, data', ns') \<and>
    (data' = data \<or> data' = setdefault ''stats'' (JDict []) data) \<and> entries_ok ''weights'' ns' \<and>
    length stamps = length us \<and> set stamps \<subseteq> range ts \<and>
    (\<forall>x. dget ns' x =
       fold opt_effect (filter (\<lambda>op. opt_target op = (''weights'', l, x)) (timed_ops env stamps us l)) (dget ns x))"
  using assms
proof (induction us arbitrary: n data ns)
  case Nil
  then show ?case by auto
next
  case (Cons u us)
  obtain name weight rule reason iz where u: "u = (name, weight, rule, reason, iz)" by (cases u)
  let ?v = "dget ns name"
  let ?kept = "locked (entry_dict ?v)"
  define n1 where "n1 = (if ?kept then n else Suc n)"
  define ns1 where "ns1 = (if ?kept then ns else dput name (JDict (set_entry (ts n) weight rule reason iz ?v)) ns)"
  define data1 where "data1 = (if ?kept \<or> ?v \<noteq> None then data else setdefault ''stats'' (JDict []) data)"
  have step: "update_loop ts n (u # us) (data, ns) = update_loop ts n1 us (data1, ns1)"
    using existing_entry_ok[OF Cons.prems, of name] write_weight_ok[OF Cons.prems, of "ts n" name weight rule reason iz data]
    by (simp add: u n1_def ns1_def data1_def)
  have ok: "entries_ok ''weights'' ns1" using Cons.prems by (simp add: ns1_def entries_ok_dput good_set_entry)
  obtain data' ns' stamps where r: "update_loop ts n1 us (data1, ns1) = (Inr True, data', ns')"
    "data' = data1 \<or> data' = setdefault ''stats'' (JDict []) data1" "entries_ok ''weights'' ns'"
    "length stamps = length us" "set stamps \<subseteq> range ts" "\<forall>x. dget ns' x =
      fold opt_effect (filter (\<lambda>op. opt_target op = (''weights'', l, x)) (timed_ops env stamps us l)) (dget ns1 x)"
    using Cons.IH[OF ok, of n1 data1] by blast
  have "data' = data \<or> data' = setdefault ''stats'' (JDict []) data"
    using r(2) by (auto simp: data1_def setdefault_def split: if_splits)
  moreover have "dget ns' x =
      fold opt_effect (filter (\<lambda>op. opt_target op = (''weights'', l, x)) (timed_ops env (ts n # stamps) (u # us) l)) (dget ns x)" for x
    using r(6) by (auto simp: u ns1_def)
  ultimately show ?case
    using r(1,3-5) step by (intro exI[of _ data'] exI[of _ ns'] exI[of _ "ts n # stamps"]) auto
qed

lemma timed_ops_target:
  "op \<in> set (timed_ops env stamps us l) \<Longrightarrow> \<exists>name. opt_target op = (''weights'', l, name)"
  "op \<in> set (timed_ops env stamps us l) \<Longrightarrow> \<not> overrides op"
  by (auto simp: timed_ops_def)

lemma timed_batch_ready:
  assumes "opt_ready w"
  obtains w' stamps where "update_many_weights env ts us l w = (Inr (), w')" "opt_ready w'"
    "length stamps = length us" "set stamps \<subseteq> range ts"
    "\<And>k. opt_entry k w' = opt_entry k (weights.run (timed_ops env stamps us l) w)"
proof -
  let ?ns = "ns_of ''weights'' l (opt_doc w)" and ?d = "setdefault ''weights'' (JDict []) (opt_doc w)"
  have s: "''weights'' \<in> SECTIONS" by (simp add: SECTIONS_def)
  have ok: "entries_ok ''weights'' ?ns" by (rule doc_ok_entries[OF opt_readyD(2)[OF assms] s])
  obtain d2 ns' stamps where b: "update_loop ts 0 us (?d, ?ns) = (Inr True, d2, ns')"
    "d2 = ?d \<or> d2 = setdefault ''stats'' (JDict []) ?d" "entries_ok ''weights'' ns'"
    "length stamps = length us" "set stamps \<subseteq> range ts"
    "\<And>x. dget ns' x =
       fold opt_effect (filter (\<lambda>op. opt_target op = (''weights'', l, x)) (timed_ops env stamps us l)) (dget ?ns x)"
    using update_loop_ok[OF ok, of ts 0 us ?d l env] by blast
  obtain w' where w': "opt_rmw env (in_namespace ''weights'' l (update_loop ts 0 us)) w = (Inr (), w')" "opt_ready w'"
    "\<And>sect' l'. ns_of sect' l' (opt_doc w') = (if sect' = ''weights'' \<and> l' = l then ns' else ns_of sect' l' (opt_doc w))"
    using ns_step[where body = "update_loop ts 0 us", OF assms s b(1-3)] by blast
  have "filter (\<lambda>op. opt_target op = (sect, l', x)) (timed_ops env stamps us l) = []" if "sect \<noteq> ''weights'' \<or> l' \<noteq> l" for sect l' x
    using that timed_ops_target(1) by (fastforce simp: filter_empty_conv)
  then have "opt_entry k w' =
      fold opt_effect (filter (\<lambda>op. opt_target op = k) (timed_ops env stamps us l)) (opt_entry k w)" for k
    by (cases k) (auto simp: opt_entry_def w'(3) b(6))
  then have "opt_entry k w' = opt_entry k (weights.run (timed_ops env stamps us l) w)" for k
    unfolding weights.run_entry[OF assms] .
  then show ?thesis using that w'(1,2) b(4,5) by (simp add: update_many_weights_def)
qed

lemma batch_ready:
  assumes "opt_ready w"
  obtains w' where "update_many_weights env (\<lambda>i. t) us l w = (Inr (), w')" "opt_ready w'"
    "\<And>k. opt_entry k w' = opt_entry k (weights.run (batch_ops env t us l) w)"
  using timed_batch_ready[OF assms, of env "\<lambda>i. t" us l] timed_ops_const[of _ us t env l] by auto metis

text \<open>The batch is an optimisation only: with one clock reading for all its updates, it makes of
  every entry what single unforced writes, one after the other, make of it, locked entries and
  repeated platforms included.\<close>

theorem batch_equals_sequence:
  assumes "opt_ready w"
  shows "\<exists>w'. update_many_weights env (\<lambda>i. t) us l w = (Inr (), w') \<and>
    (\<forall>k. opt_entry k w' = opt_entry k (weights.run (batch_ops env t us l) w))"
  using batch_ready[OF assms] by metis

section \<open>Writers\<close>

text \<open>What the program does to the document while it runs: one operation, or a batch of automated updates as
  the rules write them.\<close>

datatype opt_writer = OneOp opt_op | ManyWeights env "nat \<Rightarrow> string" "weight_update list" string

fun opt_write :: "opt_writer \<Rightarrow> unit oact" where
  "opt_write (OneOp op) = opt_step op"
| "opt_write (ManyWeights env ts us l) = update_many_weights env ts us l"

fun opt_writes :: "opt_writer list \<Rightarrow> opt_world \<Rightarrow> opt_world" where
  "opt_writes [] w = w"
| "opt_writes (x # xs) w = opt_writes xs (snd (opt_write x w))"

lemma opt_write_locked:
  assumes "opt_ready w" "opt_entry (''weights'', l, name) w = Some (JDict e)" "locked e"
    "\<And>op. x = OneOp op \<Longrightarrow> opt_target op = (''weights'', l, name) \<Longrightarrow> \<not> overrides op"
  shows "fst (opt_write x w) = Inr () \<and> opt_ready (snd (opt_write x w)) \<and>
    opt_entry (''weights'', l, name) (snd (opt_write x w)) = Some (JDict e)"
proof -
  have kept: "opt_entry (''weights'', l, name) (weights.run ops w) = Some (JDict e)"
    if "\<forall>op \<in> set ops. opt_target op = (''weights'', l, name) \<longrightarrow> \<not> overrides op" for ops
    using that fold_locked[OF assms(3), of "filter (\<lambda>op. opt_target op = (''weights'', l, name)) ops"]
    by (auto simp: weights.run_entry[OF assms(1)] assms(2))
  show ?thesis
  proof (cases x)
    case (OneOp op)
    obtain w' where "opt_step op w = (Inr (), w')" "opt_ready w'" by (rule opt_step_ready[OF assms(1)])
    then show ?thesis using kept[of "[op]"] assms(4) OneOp by simp
  next
    case (ManyWeights env ts us l')
    obtain w' stamps where w': "update_many_weights env ts us l' w = (Inr (), w')" "opt_ready w'"
      "\<And>k. opt_entry k w' = opt_entry k (weights.run (timed_ops env stamps us l') w)"
      using timed_batch_ready[OF assms(1)] by metis
    then show ?thesis using kept timed_ops_target(2) ManyWeights by fastforce
  qed
qed

text \<open>C33. A manual lock holds: on a well-formed document that can be written and with a cache that agrees
  with the file, no interleaving of the batches the rules write, of single automated writes, of writes
  and locks for other platforms or languages, and of statistics updates changes a locked weight in any
  field, whatever the clock. Only a forced write, a change of the lock itself and the operator's reset
  of all weights are left out.\<close>

theorem locked_weight_survives:
  assumes "opt_ready w" "opt_entry (''weights'', l, name) w = Some (JDict e)" "locked e"
    and "\<forall>op. OneOp op \<in> set xs \<longrightarrow> opt_target op = (''weights'', l, name) \<longrightarrow> \<not> overrides op"
  shows "opt_entry (''weights'', l, name) (opt_writes xs w) = Some (JDict e)"
  using assms(1,2,4)
proof (induction xs arbitrary: w)
  case (Cons x xs)
  then show ?case using opt_write_locked[OF Cons.prems(1,2) assms(3), of x] by simp
qed simp

section \<open>Scenarios\<close>

definition demo_opt :: opt_world where
  "demo_opt = \<lparr>ow_file = FJson (JDict
      [(''version'', JInt 2),
       (''weights'', JDict [(''default'', JDict
         [(''velog'', JDict [(''base'', JFloat 1), (''current'', JFloat (1 / 2)), (''locked'', JBool True)])])]),
       (''stats'', JDict []), (''rules'', JDict [])]),
     ow_cache = None, ow_save = None\<rparr>"

definition demo_weight :: jdict where
  "demo_weight = [(''base'', JFloat 1), (''current'', JFloat (1 / 2)), (''locked'', JBool True)]"

lemma demo_opt_ready: "opt_ready demo_opt"
proof -
  have g: "good_entry demo_weight" by (simp add: good_entry_def demo_weight_def jget_or_def dget_or_def)
  have "opt_doc demo_opt = [(''version'', JInt 2), (''weights'', JDict [(''default'', JDict [(''velog'', JDict demo_weight)])]),
      (''stats'', JDict []), (''rules'', JDict [])]"
    by (simp add: opt_doc_def demo_opt_def demo_weight_def)
  moreover from this have "doc_ok (opt_doc demo_opt)"
    using g by (auto simp: doc_ok_def SECTIONS_def spaces_ok_def entries_ok_def jget_def dget_or_def split: if_splits)
  ultimately show ?thesis by (auto simp: opt_ready_def demo_opt_def demo_weight_def)
qed

lemma demo_opt_entry: "opt_entry (''weights'', ''default'', ''velog'') demo_opt = Some (JDict demo_weight)"
  by code_simp

theorem locked_weight_survives_witness:
  "opt_entry (''weights'', ''default'', ''velog'')
     (opt_writes [OneOp (SetWeight env0 ''t1'' ''velog'' 0 ''canary_drift'' ''drift'' False True ''default''),
        ManyWeights env0 (\<lambda>i. ''t2'') [(''devto'', 3, ''recheck_survival'', ''boost'', False),
          (''velog'', 0, ''canary_drift'', ''drift'', True)] ''default'',
        OneOp (LockWeight env0 ''velog'' False ''en'')] demo_opt) = Some (JDict demo_weight)"
  by (rule locked_weight_survives[OF demo_opt_ready demo_opt_entry])
    (auto simp: locked_def demo_weight_def jget_or_def dget_or_def)

theorem weight_history_kept_witness:
  "\<exists>e' more. opt_entry (''weights'', ''default'', ''velog'')
     (weights.run [SetWeight env0 ''t1'' ''velog'' 0 ''manual'' ''pin'' True False ''default''] demo_opt) = Some (JDict e') \<and>
    dget e' ''base'' = Some (JFloat 1) \<and> adjs_of e' = adjs_of demo_weight @ more"
  by (rule weight_history_kept[OF demo_opt_ready demo_opt_entry]) (simp add: demo_weight_def)

theorem batch_equals_sequence_witness:
  "\<exists>w'. update_many_weights env0 (\<lambda>i. ''t1'') [(''devto'', 2, ''r'', ''x'', False), (''devto'', 1, ''r'', ''y'', False)]
       ''default'' demo_opt = (Inr (), w') \<and>
     opt_entry (''weights'', ''default'', ''devto'') w' = opt_entry (''weights'', ''default'', ''devto'')
       (weights.run (batch_ops env0 ''t1'' [(''devto'', 2, ''r'', ''x'', False), (''devto'', 1, ''r'', ''y'', False)]
         ''default'') demo_opt)"
  using batch_equals_sequence[OF demo_opt_ready, of env0 "''t1''"
      "[(''devto'', 2, ''r'', ''x'', False), (''devto'', 1, ''r'', ''y'', False)]" "''default''"] by blast

text \<open>The lock does not hold across processes: every read-modify-write starts from the cached
  document, up to a minute old. A process that read the weights before the operator locked one in
  another process writes its old copy back: the automated update of any platform removes the lock.\<close>

theorem stale_cache_drops_lock:
  "let w0 = demo_opt\<lparr>ow_file := FAbsent\<rparr>;
       (u0, w1) = set_weight env0 ''t0'' ''velog'' 1 ''manual'' ''start'' True False ''default'' w0;
       (x, worker) = get_weight env0 ''velog'' 1 ''default'' w1;
       (u1, operator) = lock_weight env0 ''velog'' True ''default'' w1;
       (u2, after) = set_weight env0 ''t1'' ''devto'' 2 ''recheck_survival'' ''boost'' False False ''default''
          (worker\<lparr>ow_file := ow_file operator\<rparr>)
   in locked (entry_dict (opt_entry (''weights'', ''default'', ''velog'') operator)) \<and> u2 = Inr () \<and>
      \<not> locked (entry_dict (opt_entry (''weights'', ''default'', ''velog'') after))"
  by code_simp

text \<open>A write that fails is served all the same: the cached document was changed before the save, so
  until the cache expires readers get a weight that is not in the file.\<close>

lemma failed_save_is_served:
  "let (x, w1) = get_weight env0 ''velog'' 1 ''default'' demo_opt;
       (r, w2) = set_weight env0 ''t1'' ''velog'' 3 ''manual'' ''up'' True False ''default''
          (w1\<lparr>ow_save := Some (mkexn OSErr ''disk full'')\<rparr>);
       (y, w3) = get_weight env0 ''velog'' 1 ''default'' w2
   in x = Inr (1 / 2) \<and> r = Inl (mkexn OSErr ''disk full'') \<and> y = Inr 3 \<and> ow_file w3 = ow_file demo_opt"
  by code_simp

end
