(* ===== verification/Opt_Rules_Facts.thy ===== *)
theory Opt_Rules_Facts
  imports Opt_Rules Opt_Facts
begin

text \<open>
  What the optimiser's rules guarantee: one change per platform and cycle, the lowest proposed; and
  weights that stay in their range, with a zero only by the drift rule and marked as such. And what
  the drift rule cannot do: trip on collected statistics, or recover after its cooldown.
\<close>

section \<open>One change per platform\<close>

text \<open>What the fold over the results seen so far has kept.\<close>

definition strongest_inv :: "rule_result list \<Rightarrow> (string, rule_result) dict \<Rightarrow> bool" where
  "strongest_inv rs d \<longleftrightarrow>
     wf_dict d \<and> (\<forall>p r. dget d p = Some r \<longrightarrow> rr_platform r = p \<and> r \<in> set rs \<and>
       (\<forall>q \<in> set rs. rr_platform q = p \<longrightarrow> rr_new_weight r \<le> rr_new_weight q)) \<and>
     (\<forall>q \<in> set rs. dget d (rr_platform q) \<noteq> None)"

lemma strongest_inv_step: "strongest_inv rs d \<Longrightarrow> strongest_inv (rs @ [r]) (keep_strongest r d)"
  by (cases "dget d (rr_platform r)")
    (fastforce simp: strongest_inv_def keep_strongest_def split: if_splits)+

lemma strongest_inv_fold: "strongest_inv rs d \<Longrightarrow> strongest_inv (rs @ qs) (fold keep_strongest qs d)"
proof (induction qs arbitrary: rs d)
  case (Cons q qs)
  show ?case using Cons.IH[OF strongest_inv_step[OF Cons.prems, of q]] by simp
qed simp

lemma strongest_results_inv:
  obtains d where "strongest_results rs = map snd d" "strongest_inv (filter rr_applied rs) d"
proof
  show "strongest_results rs = map snd (fold keep_strongest (filter rr_applied rs) [])"
    by (simp add: strongest_results_def)
  have "strongest_inv [] []" by (simp add: strongest_inv_def)
  from strongest_inv_fold[OF this, of "filter rr_applied rs"]
  show "strongest_inv (filter rr_applied rs) (fold keep_strongest (filter rr_applied rs) [])" by simp
qed

text \<open>Rules cannot undo each other: of all the results of a cycle that are to be applied, exactly one
  per platform is written, and it is one with the lowest new weight.\<close>

theorem strongest_result_per_platform:
  "distinct (map rr_platform (strongest_results rs)) \<and>
   rr_platform ` set (strongest_results rs) = rr_platform ` {r \<in> set rs. rr_applied r} \<and>
   (\<forall>r \<in> set (strongest_results rs). r \<in> set rs \<and> rr_applied r \<and>
      (\<forall>q \<in> set rs. rr_applied q \<longrightarrow> rr_platform q = rr_platform r \<longrightarrow> rr_new_weight r \<le> rr_new_weight q))"
proof -
  obtain d where d: "strongest_results rs = map snd d" "strongest_inv (filter rr_applied rs) d"
    by (rule strongest_results_inv)
  have wf: "wf_dict d" and own: "\<And>p r. (p, r) \<in> set d \<Longrightarrow> rr_platform r = p \<and> r \<in> set rs \<and> rr_applied r \<and>
      (\<forall>q \<in> set rs. rr_applied q \<longrightarrow> rr_platform q = p \<longrightarrow> rr_new_weight r \<le> rr_new_weight q)"
    using d(2) by (auto simp: strongest_inv_def dget_iff_mem)
  have "map rr_platform (map snd d) = map fst d" 
    unfolding map_map comp_def by (rule map_cong[OF refl]) (use own in force)
  then have "distinct (map rr_platform (strongest_results rs))" using wf by (simp only: d(1) wf_dict_def)
  moreover have "rr_platform ` set (strongest_results rs) = rr_platform ` {r \<in> set rs. rr_applied r}"
  proof
    show "rr_platform ` set (strongest_results rs) \<subseteq> rr_platform ` {r \<in> set rs. rr_applied r}"
      using own by (fastforce simp: d(1))
    show "rr_platform ` {r \<in> set rs. rr_applied r} \<subseteq> rr_platform ` set (strongest_results rs)"
    proof clarify
      fix q assume "q \<in> set rs" "rr_applied q"
      then obtain r where "dget d (rr_platform q) = Some r" using d(2) by (auto simp: strongest_inv_def)
      then have "(rr_platform q, r) \<in> set d" by (rule map_of_SomeD)
      then have "r \<in> set (strongest_results rs)" "rr_platform r = rr_platform q"
        using own[of "rr_platform q" r] by (force simp: d(1))+
      then show "rr_platform q \<in> rr_platform ` set (strongest_results rs)" by (metis imageI)
    qed
  qed
  moreover have "\<forall>r \<in> set (strongest_results rs). r \<in> set rs \<and> rr_applied r \<and>
      (\<forall>q \<in> set rs. rr_applied q \<longrightarrow> rr_platform q = rr_platform r \<longrightarrow> rr_new_weight r \<le> rr_new_weight q)"
    using own by (fastforce simp: d(1))
  ultimately show ?thesis by blast
qed

theorem strongest_result_per_platform_witness:
  "strongest_results
     [make_result ''velog'' RULE_CANARY_DRIFT (1 / 2) 1 1 ''drift cleared'' True False,
      make_result ''velog'' RULE_AGGREGATED_STATS (1 / 2) (1 / 4) (1 / 2) ''reduce'' True False] \<noteq>
     [make_result ''velog'' RULE_CANARY_DRIFT (1 / 2) 1 1 ''drift cleared'' True False]"
proof
  let ?a = "make_result ''velog'' RULE_CANARY_DRIFT (1 / 2) 1 1 ''drift cleared'' True False"
  let ?b = "make_result ''velog'' RULE_AGGREGATED_STATS (1 / 2) (1 / 4) (1 / 2) ''reduce'' True False"
  assume a: "strongest_results [?a, ?b] = [?a]"
  have "rr_new_weight ?a \<le> rr_new_weight ?b"
    using strongest_result_per_platform[of "[?a, ?b]"] unfolding a by (simp add: make_result_def)
  then show False by (simp add: make_result_def)
qed

section \<open>The range of weights\<close>

lemma mapR_member: "mapR f xs = Inr ys \<Longrightarrow> y \<in> set ys \<Longrightarrow> \<exists>x \<in> set xs. f x = Inr y"
  by (induction xs arbitrary: ys) (auto simp: bindR_eq_Inr_iff)

lemma each_platform_member:
  assumes "each_platform sd f = Inr rs" "r \<in> set rs"
  obtains p st out where "f (jget_or sd ''weights'' (JDict [])) p st = Inr out" "r \<in> set out"
    "\<exists>stats. jdict_of (jget_or sd ''stats'' (JDict [])) = Inr stats \<and> (p, JDict st) \<in> set stats"
proof -
  obtain stats outs where s: "jdict_of (jget_or sd ''stats'' (JDict [])) = Inr stats"
    "mapR (\<lambda>(p, st). bindR (jdict_of st) (f (jget_or sd ''weights'' (JDict [])) p)) stats = Inr outs" "rs = concat outs"
    using assms(1) by (auto simp: each_platform_def bindR_eq_Inr_iff)
  then obtain out where o: "out \<in> set outs" "r \<in> set out" using assms(2) by auto
  obtain p j where m: "(p, j) \<in> set stats" "bindR (jdict_of j) (f (jget_or sd ''weights'' (JDict [])) p) = Inr out"
    using mapR_member[OF s(2) o(1)] by auto
  then obtain st where "j = JDict st" "f (jget_or sd ''weights'' (JDict [])) p st = Inr out"
    by (cases j) auto
  then show ?thesis using that o(2) m(1) s(1) by blast
qed

text \<open>All weights and bases of a namespace lie in [0, 3].\<close>

definition in_range :: "json \<Rightarrow> bool" where
  "in_range weights \<longleftrightarrow>
     (\<forall>p x. get_current_weight weights p = Inr x \<longrightarrow> 0 \<le> x \<and> x \<le> 3) \<and>
     (\<forall>p x. get_base_weight weights p 1 = Inr x \<longrightarrow> 0 \<le> x \<and> x \<le> 3)"

text \<open>A result that keeps the range, changes something if it is to be applied, and has a zero only where
  the drift rule marked it.\<close>

definition sound_result :: "rule_result \<Rightarrow> bool" where
  "sound_result r \<longleftrightarrow>
     0 \<le> rr_new_weight r \<and> rr_new_weight r \<le> 3 \<and>
     (rr_applied r \<longrightarrow> rr_new_weight r \<noteq> rr_old_weight r \<and>
        (rr_new_weight r = 0 \<longleftrightarrow> rr_intentional_zero r) \<and>
        (rr_intentional_zero r \<longrightarrow> rr_rule_name r = RULE_CANARY_DRIFT))"

text \<open>The settings of \<open>default_state\<close>.\<close>

definition default_rules :: jdict where
  "default_rules = (case jget default_state ''rules'' of JDict rc \<Rightarrow> rc | _ \<Rightarrow> [])"

lemma default_rules_get:
  "dget default_rules RULE_CANARY_DRIFT = Some (JDict [(''enabled'', JBool True), (''multiplier'', JFloat (1 / 2)),
            (''max_strikes'', JInt 3), (''cooldown_days'', JInt 7)])"
  "dget default_rules RULE_RECHECK_SURVIVAL = Some (JDict [(''enabled'', JBool True), (''multiplier'', JFloat (12 / 10)),
            (''max_cap'', JFloat 3), (''min_confirmations'', JInt 2)])"
  "dget default_rules RULE_AGGREGATED_STATS = Some (JDict [(''enabled'', JBool True), (''multiplier'', JFloat (1 / 2)),
            (''survival_low_threshold'', JFloat (3 / 10)), (''dofollow_low_threshold'', JFloat (2 / 10)),
            (''min_confirmations'', JInt 2), (''min_weight'', JFloat (1 / 10))])"
  "dget default_rules RULE_SURVIVAL_THRESHOLD = Some (JDict [(''enabled'', JBool True), (''min_samples'', JInt 5),
            (''survival_penalty'', JFloat (3 / 10)), (''dofollow_penalty'', JFloat (4 / 10)),
            (''boost_multiplier'', JFloat (115 / 100)), (''max_cap'', JFloat 3),
            (''survival_high'', JFloat (8 / 10)), (''dofollow_high'', JFloat (8 / 10)),
            (''min_weight'', JFloat (1 / 100))])"
  by (simp_all add: default_rules_def default_state_def jget_def dget_or_def RULE_CANARY_DRIFT_def
      RULE_RECHECK_SURVIVAL_def RULE_AGGREGATED_STATS_def RULE_SURVIVAL_THRESHOLD_def)

definition default_config :: "string \<Rightarrow> jdict" where
  "default_config rule = (case dget default_rules rule of Some (JDict c) \<Rightarrow> c | _ \<Rightarrow> [])"

lemmas config_simps = default_config_def default_rules_get config_float_def config_int_def jget_or_def dget_or_def

lemma penalised_le:
  assumes "0 \<le> w" "w \<le> 3" "0 \<le> a" "a \<le> 1" "0 \<le> b" "b \<le> 1"
  shows "penalised w s sf a d df b \<le> 3"
proof -
  have "0 \<le> x * c \<and> x * c \<le> 3" if "0 \<le> x" "x \<le> 3" "0 \<le> c" "c \<le> 1" for x c :: pyfloat
    using that mult_mono[of x 3 c 1] by simp
  then show ?thesis using assms by (simp add: penalised_def Let_def)
qed

lemma sound_results:
  "0 \<le> w \<Longrightarrow> w \<le> 3 \<Longrightarrow> sound_result (make_result p rule w w m reason False iz)"
  "0 < n \<Longrightarrow> n \<le> 3 \<Longrightarrow> n \<noteq> w \<Longrightarrow> sound_result (make_result p rule w n m reason True False)"
  "0 < w \<Longrightarrow> sound_result (make_result p RULE_CANARY_DRIFT w 0 m reason True True)"
  by (simp_all add: sound_result_def make_result_def)

lemma in_rangeD:
  "in_range weights \<Longrightarrow> get_current_weight weights p = Inr x \<Longrightarrow> 0 \<le> x \<and> x \<le> 3"
  "in_range weights \<Longrightarrow> get_base_weight weights p 1 = Inr x \<Longrightarrow> 0 \<le> x \<and> x \<le> 3"
  by (simp_all add: in_range_def)

lemma less_maxI: "0 < (b::pyfloat) \<Longrightarrow> 0 < max a b"
  by simp

lemma threshold_outcome_sound:
  assumes "r \<in> set (threshold_outcome p (3 / 10) (2 / 5) (23 / 20) 3 sh dh (1 / 100) s d w)" "0 \<le> w" "w \<le> 3"
  shows "sound_result r"
  using assms(1) unfolding threshold_outcome_def Let_def
  by (simp split: if_splits; hypsubst; intro sound_results)
    (use assms(2,3) in \<open>simp_all add: penalised_le less_max_iff_disj\<close>)

lemma drift_outcome_sound:
  assumes "drift_outcome env utc m n c (3 / 10) p entry k w b = Inr out" "r \<in> set out"
    "0 \<le> w" "w \<le> 3" "0 \<le> b" "b \<le> 3"
  shows "sound_result r"
  using assms
  by (auto simp: drift_outcome_def cooldown_result_def Let_def bindR_eq_Inr_iff split: if_splits json.splits option.splits
      intro!: sound_results)

text \<open>Each rule, on its default settings.\<close>

lemma recheck_sound:
  assumes "rule_recheck_survival sd (default_config RULE_RECHECK_SURVIVAL) = Inr rs" "r \<in> set rs"
    "in_range (jget_or sd ''weights'' (JDict []))"
  shows "sound_result r"
  using assms(1)
  apply (simp add: rule_recheck_survival_def config_simps)
  apply (erule each_platform_member[OF _ assms(2)])
  apply (fastforce simp: bindR_eq_Inr_iff Let_def split: option.splits prod.splits if_splits
      intro!: sound_results dest: in_rangeD[OF assms(3)])
  done

lemma aggregated_sound:
  assumes "rule_aggregated_stats sd (default_config RULE_AGGREGATED_STATS) = Inr rs" "r \<in> set rs"
    "in_range (jget_or sd ''weights'' (JDict []))"
  shows "sound_result r"
  using assms(1)
  apply (simp add: rule_aggregated_stats_def config_simps)
  apply (erule each_platform_member[OF _ assms(2)])
  apply (auto simp: bindR_eq_Inr_iff Let_def sound_result_def make_result_def penalised_le
      split: option.splits prod.splits if_splits dest!: in_rangeD[OF assms(3)])
  done

lemma threshold_sound:
  assumes "rule_survival_threshold sd (default_config RULE_SURVIVAL_THRESHOLD) = Inr rs" "r \<in> set rs"
    "in_range (jget_or sd ''weights'' (JDict []))"
  shows "sound_result r"
  using assms(1)
  apply (simp add: rule_survival_threshold_def config_simps)
  apply (erule each_platform_member[OF _ assms(2)])
  apply (auto simp: bindR_eq_Inr_iff split: option.splits prod.splits
      dest!: in_rangeD[OF assms(3)] threshold_outcome_sound)
  done

lemma drift_sound:
  assumes "rule_canary_drift env utc sd (default_config RULE_CANARY_DRIFT) = Inr rs" "r \<in> set rs"
    "in_range (jget_or sd ''weights'' (JDict []))"
  shows "sound_result r"
  using assms(1)
  apply (simp add: rule_canary_drift_def config_simps)
  apply (erule each_platform_member[OF _ assms(2)])
  apply (auto simp: bindR_eq_Inr_iff dest!: in_rangeD[OF assms(3)] dest: drift_outcome_sound)
  done

lemma rules_loop_sound:
  assumes "rules_loop env utc rf (JDict default_rules) sd rules = Inr rs" "set rules \<subseteq> set RULE_ORDER" "r \<in> set rs"
    "in_range (jget_or sd ''weights'' (JDict []))"
  shows "sound_result r"
  using assms(1-3)
proof (induction rules arbitrary: rs)
  case (Cons rule rules)
  let ?rest = "rules_loop env utc rf (JDict default_rules) sd rules"
  have c: "jdict_of (jget_or default_rules rule (JDict [])) = Inr (default_config rule)"
    using Cons.prems(2) by (auto simp: RULE_ORDER_def default_config_def default_rules_get jget_or_def dget_or_def)
  have IH: "sound_result r" if "?rest = Inr rest" "r \<in> set rest" for rest
    using Cons.IH[OF that(1)] Cons.prems(2) that(2) by simp
  have fn: "sound_result r" if "rule_fn env utc rule sd (default_config rule) = Inr out" "r \<in> set out" for out
    using that Cons.prems(2) assms(4) recheck_sound aggregated_sound threshold_sound drift_sound
    by (auto simp: rule_fn_def RULE_ORDER_def split: if_splits)
  show ?case
    using Cons.prems(1,3) IH fn by (auto simp: Let_def c bindR_eq_Inr_iff split: if_splits sum.splits)
qed simp

lemma evaluate_sound:
  assumes "evaluate_rules env utc data rf language = Inr rs" "r \<in> set rs"
    and "jget_or data ''rules'' (JDict []) = JDict default_rules"
    and "resolved (jget_or data ''weights'' (JDict [])) language = Inr ws" "in_range ws"
  shows "sound_result r"
proof -
  obtain stats where "rules_loop env utc rf (JDict default_rules) (dput ''stats'' stats (dput ''weights'' ws data)) RULE_ORDER = Inr rs"
    using assms(1,3,4) by (auto simp: evaluate_rules_def bindR_eq_Inr_iff)
  from rules_loop_sound[OF this _ assms(2)] assms(5) show ?thesis by simp
qed

section \<open>The stored weights\<close>

text \<open>An entry whose weight and base are in range.\<close>

definition val_ok :: "json option \<Rightarrow> bool" where
  "val_ok v \<longleftrightarrow>
     (\<forall>x. py_float (jget_or (entry_dict v) ''current'' (JFloat 1)) = Inr x \<longrightarrow> 0 \<le> x \<and> x \<le> 3) \<and>
     (\<forall>x. py_float (jget_or (entry_dict v) ''base'' (JFloat 1)) = Inr x \<longrightarrow> 0 \<le> x \<and> x \<le> 3)"

lemma in_range_entries:
  "entries_ok sect ns \<Longrightarrow> in_range (JDict ns) \<longleftrightarrow> (\<forall>p. val_ok (dget ns p))"
  by (simp add: in_range_def get_current_weight_def get_base_weight_def weight_of_def existing_entry_ok val_ok_def)
    blast

lemma set_entry_val_ok:
  assumes "val_ok v" "0 \<le> weight" "weight \<le> 3"
  shows "val_ok (Some (JDict (set_entry ts weight rule reason iz v)))"
proof -
  let ?e = "entry_dict v"
  have "jget_or ?e ''base'' (jget_or ?e ''current'' (jget_or ?e ''base'' (JFloat 1))) \<in>
      {jget_or ?e ''base'' (JFloat 1), jget_or ?e ''current'' (JFloat 1)}"
    by (auto simp: jget_or_def dget_or_def split: option.splits)
  then show ?thesis
    using assms by (auto simp: val_ok_def set_entry_def weight_entry_def Let_def entry_dict_def[of "Some _"] jget_or_def[of "_ # _"] dget_or_def[of "_ # _"])
qed

text \<open>The weights of a store.\<close>

definition weights_in_range :: "opt_world \<Rightarrow> bool" where
  "weights_in_range w \<longleftrightarrow> (\<forall>l n. val_ok (opt_entry (''weights'', l, n) w))"

lemma batch_in_range:
  assumes "opt_ready w" "weights_in_range w" "\<forall>(n, weight, x) \<in> set us. 0 \<le> weight \<and> weight \<le> 3"
  shows "weights_in_range (weights.run (batch_ops env t us l) w)"
proof -
  have "val_ok (fold opt_effect ops v)"
    if "val_ok v" "\<forall>op \<in> set ops. \<exists>env ts n weight rule reason iz l.
      op = SetWeight env ts n weight rule reason False iz l \<and> 0 \<le> weight \<and> weight \<le> 3" for ops v
    using that
  proof (induction ops arbitrary: v)
    case (Cons op ops)
    then have "val_ok (opt_effect op v)" by (auto simp: set_entry_val_ok)
    then show ?case using Cons by simp
  qed simp
  moreover have "\<forall>op \<in> set (batch_ops env t us l). \<exists>env ts n weight rule reason iz l.
      op = SetWeight env ts n weight rule reason False iz l \<and> 0 \<le> weight \<and> weight \<le> 3"
    using assms(3) by (fastforce simp: batch_ops_def)
  ultimately show ?thesis
    using assms(2) unfolding weights_in_range_def weights.run_entry[OF assms(1)] by auto
qed

lemma strongest_subset: "r \<in> set (strongest_results rs) \<Longrightarrow> r \<in> set rs"
  by (rule strongest_results_inv[of rs]) (auto simp: strongest_inv_def dget_iff_mem)

lemma resolved_default:
  assumes "doc_ok d"
  shows "resolved (jget_or d ''weights'' (JDict [])) ''default'' = Inr (JDict (ns_of ''weights'' ''default'' d))"
proof -
  have s: "''weights'' \<in> SECTIONS" by (simp add: SECTIONS_def)
  have "jget_or d ''weights'' (JDict []) = JDict (spaces_of ''weights'' d)"
    using jget_setdefault_section[OF assms s] by (auto simp: jget_or_def jget_def dget_or_def split: option.splits)
  moreover have "jget_or (spaces_of ''weights'' d) ''default'' (JDict []) = JDict (ns_of ''weights'' ''default'' d)"
    using jget_setdefault_language[OF doc_ok_spaces[OF assms s], of "''default''"]
    by (auto simp: jget_or_def jget_def dget_or_def split: option.splits)
  ultimately show ?thesis by (simp add: resolved_def Let_def)
qed

text \<open>C34. The optimiser keeps weights in range: with the default rule settings, and on a document all of
  whose weights and bases lie in [0, 3], a run of the command, whatever the statistics and its
  options, leaves a well-formed document all of whose weights and bases lie in [0, 3], and every
  change it reports as applied is a change, to zero only by the drift rule and marked as
  intentional. The document is well-formed and can be written, the cache agrees with the file, and the
  clock is read once for all updates of the run.\<close>

theorem optimizer_keeps_range:
  assumes "opt_ready w" "weights_in_range w" "jget_or (opt_doc w) ''rules'' (JDict []) = JDict default_rules"
    "optimize_weights env utc (\<lambda>i. t) rule as_json dry_run w = (r, w')"
  shows "opt_ready w' \<and> weights_in_range w' \<and>
    (\<forall>rs n. r = Inr (rs, n) \<longrightarrow> (\<forall>x \<in> set rs. rr_applied x \<longrightarrow> rr_new_weight x \<noteq> rr_old_weight x \<and>
       (rr_new_weight x = 0 \<longleftrightarrow> rr_intentional_zero x) \<and>
       (rr_intentional_zero x \<longrightarrow> rr_rule_name x = RULE_CANARY_DRIFT)))"
proof -
  note d = opt_readyD(2)[OF assms(1)]
  obtain c where l: "opt_load env w = (Inr (JDict (opt_doc w)), w\<lparr>ow_cache := c\<rparr>)" "opt_ready (w\<lparr>ow_cache := c\<rparr>)"
    using opt_load_ready[OF assms(1)] by blast
  let ?w = "w\<lparr>ow_cache := c\<rparr>"
  have range: "weights_in_range ?w" using assms(2) by (simp add: weights_in_range_def opt_entry_def)
  have ld: "load_dict env w = (Inr (opt_doc w), ?w)"
    by (simp add: load_dict_def bindS_def l(1) liftR_def)
  have ns: "in_range (JDict (ns_of ''weights'' ''default'' (opt_doc w)))"
    using assms(2) in_range_entries[OF doc_ok_entries[OF d, of "''weights''" "''default''"]]
    by (simp add: weights_in_range_def opt_entry_def SECTIONS_def)
  show ?thesis
  proof (cases "evaluate_rules env utc (opt_doc w) rule ''default''")
    case (Inl e)
    then have "r = Inl e" "w' = ?w" using assms(4) by (simp_all add: optimize_weights_def bindS_def ld liftR_def)
    then show ?thesis using l(2) range by simp
  next
    case (Inr rs)
    have sound: "sound_result x" if "x \<in> set rs" for x
      by (rule evaluate_sound[OF Inr that assms(3) resolved_default[OF d] ns])
    have run: "optimize_weights env utc (\<lambda>i. t) rule as_json dry_run w =
        (if as_json \<or> rs = [] \<or> dry_run then retS (rs, 0) ?w
         else bindS (apply_results env (\<lambda>i. t) rs) (\<lambda>n. retS (rs, n)) ?w)"
      by (simp add: optimize_weights_def bindS_def ld liftR_def Inr)
    have us: "\<forall>(n, weight, x) \<in> set (map as_update (strongest_results rs)). 0 \<le> weight \<and> weight \<le> 3"
      using sound strongest_subset by (auto simp: as_update_def sound_result_def)
    obtain w2 where w2: "update_many_weights env (\<lambda>i. t) (map as_update (strongest_results rs)) ''default'' ?w = (Inr (), w2)"
      "opt_ready w2" "\<And>k. opt_entry k w2 =
        opt_entry k (weights.run (batch_ops env t (map as_update (strongest_results rs)) ''default'') ?w)"
      using batch_ready[OF l(2)] by metis
    have r2: "weights_in_range w2"
      using batch_in_range[OF l(2) range us] unfolding weights_in_range_def w2(3) .
    have "\<exists>n. r = Inr (rs, n)" "w' \<in> {?w, w2}"
      using assms(4) w2(1) unfolding run
      by (auto simp: apply_results_def bindS_def retS_def split: if_splits)
    then show ?thesis using l(2) range w2(2) r2 sound by (auto simp: sound_result_def)
  qed
qed

definition demo_stats :: "int \<Rightarrow> jdict" where
  "demo_stats drift =
     [(''velog'', JDict [(''total_published'', JInt 10), (''alive_count'', JInt 1), (''dofollow_count'', JInt 1),
        (''drift_count'', JInt drift)])]"

definition demo_rules_opt :: opt_world where
  "demo_rules_opt =
     \<lparr>ow_file = FJson (JDict (dput ''stats'' (JDict [(''default'', JDict (demo_stats 0))]) default_state)),
      ow_cache = None, ow_save = None\<rparr>"

theorem optimizer_keeps_range_witness:
  "weights_in_range (snd (optimize_weights env0 (\<lambda>s. None) (\<lambda>i. ''t1'') None False False demo_rules_opt)) \<and>
   fst (optimize_weights env0 (\<lambda>s. None) (\<lambda>i. ''t1'') None False False demo_rules_opt) \<noteq> Inr ([], 0)"
proof -
  let ?run = "optimize_weights env0 (\<lambda>s. None) (\<lambda>i. ''t1'') None False False demo_rules_opt"
  let ?d = "dput ''stats'' (JDict [(''default'', JDict (demo_stats 0))]) default_state"
  have doc: "opt_doc demo_rules_opt = ?d" by (simp add: opt_doc_def demo_rules_opt_def)
  have "dget ?d ''version'' = Some (JInt 2)" "wf_dict ?d" "dget ?d ''weights'' = Some (JDict [(''default'', JDict [])])"
    by (simp_all add: default_state_def)
  then have "doc_ok ?d"
    by (auto simp: doc_ok_def SECTIONS_def spaces_ok_def entries_ok_def demo_stats_def jget_def dget_or_def split: if_splits)
  then have ready: "opt_ready demo_rules_opt" by (simp add: opt_ready_def doc) (simp add: demo_rules_opt_def)
  have "spaces_of ''weights'' ?d = [(''default'', JDict [])]" by (simp add: spaces_of_def default_state_def)
  then have range: "weights_in_range demo_rules_opt"
    by (simp add: weights_in_range_def opt_entry_def doc ns_of_def val_ok_def entry_dict_def jget_or_def dget_or_def)
  have rules: "jget_or (opt_doc demo_rules_opt) ''rules'' (JDict []) = JDict default_rules"
    unfolding doc by (simp add: default_rules_def default_state_def jget_or_def jget_def dget_or_def)
  have "map_sum id (\<lambda>(rs, n). (length rs, n)) (fst ?run) = Inr (3, 1)" by code_simp
  then have "fst ?run \<noteq> Inr ([], 0)" by auto
  then show ?thesis
    using optimizer_keeps_range[OF ready range rules, of env0 "\<lambda>s. None" "''t1''" None False False "fst ?run" "snd ?run"]
    by simp
qed

section \<open>The drift rule\<close>

lemma merge_loop_inv:
  assumes "merge_loop f ps merged = Inr merged'" "\<forall>(p, e) \<in> set merged. P e" "P []"
    "\<And>st e e'. P e \<Longrightarrow> f st e = Inr e' \<Longrightarrow> P e'"
  shows "\<forall>(p, e) \<in> set merged'. P e"
  using assms(1,2)
proof (induction ps arbitrary: merged)
  case (Cons x ps)
  obtain p j where x: "x = (p, j)" by (cases x)
  obtain st e where e: "f st (dget_or merged p []) = Inr e" and run: "merge_loop f ps (dput p e merged) = Inr merged'"
    using Cons.prems(1) by (auto simp: x bindR_eq_Inr_iff)
  have "P (dget_or merged p [])"
    using Cons.prems(2) assms(3) by (auto simp: dget_or_def split: option.splits dest: map_of_SomeD)
  then have "P e" using assms(4) e by blast
  then have "\<forall>(p, e) \<in> set (dput p e merged). P e" using Cons.prems(2) by (auto dest: mem_dput)
  then show ?case using Cons.IH[OF run] by blast
qed simp

lemma merge_loop_get:
  assumes "merge_loop f ps merged = Inr merged'" "wf_dict ps"
  shows "case dget ps p of
      None \<Rightarrow> dget merged' p = dget merged p
    | Some j \<Rightarrow> \<exists>st e. j = JDict st \<and> f st (dget_or merged p []) = Inr e \<and> dget merged' p = Some e"
  using assms
proof (induction ps arbitrary: merged)
  case (Cons x ps)
  obtain q j where x: "x = (q, j)" by (cases x)
  obtain st e where j: "j = JDict st" and e: "f st (dget_or merged q []) = Inr e"
    and run: "merge_loop f ps (dput q e merged) = Inr merged'"
    using Cons.prems(1) by (cases j) (auto simp: x bindR_eq_Inr_iff)
  show ?case
    using Cons.IH[OF run] Cons.prems(2) e j by (auto simp: x dget_or_def split: option.splits)
qed simp

lemma merge_loop_wf: "merge_loop f ps merged = Inr merged' \<Longrightarrow> wf_dict merged \<Longrightarrow> wf_dict merged'"
  by (induction f ps merged rule: merge_loop.induct) (auto simp: bindR_eq_Inr_iff)

lemma merge_source_cases:
  assumes "merge_source source f merged = Inr merged'"
  obtains "merged' = merged" | ps where "platforms_of source = Inr (Some (JDict ps))" "merge_loop f ps merged = Inr merged'"
proof -
  obtain po where po: "platforms_of source = Inr po"
    "(case po of None \<Rightarrow> Inr merged | Some ps \<Rightarrow> bindR (jdict_of ps) (\<lambda>ps. merge_loop f ps merged)) = Inr merged'"
    using assms by (auto simp: merge_source_def bindR_eq_Inr_iff)
  show ?thesis
  proof (cases po)
    case None
    then show ?thesis using po that(1) by simp
  next
    case (Some j)
    then show ?thesis using po that(2) by (cases j) simp_all
  qed
qed

text \<open>What is collected from the canary file: one drift at most, once per platform.\<close>

lemma collected_drift:
  assumes "extract_platform_drift (JDict health) = Inr canary" "wf_dict health"
  obtains ps where "platforms_of canary = Inr (Some (JDict ps))" "wf_dict ps"
    "\<And>p j. dget ps p = Some j \<Longrightarrow> j \<in> {JDict [(''drift_count'', JInt 0)], JDict [(''drift_count'', JInt 1)]}"
proof -
  define ps where "ps = concat (map drift_part health)"
  have "platforms_of canary = Inr (Some (JDict ps))"
    using assms(1) by (auto simp: extract_platform_drift_def ps_def)
  moreover have "distinct (map fst (concat (map drift_part h)))" if "distinct (map fst h)" for h
    using that
  proof (induction h)
    case (Cons x h)
    have "fst ` set (concat (map drift_part h)) \<subseteq> fst ` set h"
      by (force simp: drift_part_def split: if_splits json.splits)
    moreover have "map fst (drift_part x) = [] \<or> map fst (drift_part x) = [fst x]"
      by (auto simp: drift_part_def split: prod.splits json.splits)
    moreover have "fst x \<notin> fst ` set h" using Cons.prems by simp
    ultimately have "fst x \<notin> set (map fst (concat (map drift_part h)))"
      and "map fst (concat (map drift_part (x # h))) \<in>
        {map fst (concat (map drift_part h)), fst x # map fst (concat (map drift_part h))}" by auto
    moreover have "distinct (map fst (concat (map drift_part h)))" using Cons by simp
    ultimately show ?case by (metis distinct.simps(2) insertE singletonD)
  qed simp
  then have "wf_dict ps" using assms(2) by (simp add: wf_dict_def ps_def)
  moreover have "j \<in> {JDict [(''drift_count'', JInt 0)], JDict [(''drift_count'', JInt 1)]}" if "dget ps p = Some j" for p j
    using map_of_SomeD[OF that] by (auto simp: ps_def drift_part_def split: if_splits json.splits)
  ultimately show ?thesis by (rule that)
qed

text \<open>The fuse of the drift rule cannot blow: the collector derives a drift count of zero or one from
  the canary store, the recheck source adds none, and the rule asks for three; so on collected
  statistics (with no equity ledger) the rule, on its default settings, never suppresses a
  platform, however long its drift lasts.\<close>

theorem canary_fuse_never_blows:
  assumes "extract_platform_drift (JDict health) = Inr canary" "wf_dict health"
    "merge_signals recheck canary unavailable = Inr merged"
    "rule_canary_drift env utc (dput ''stats'' (JDict (map (\<lambda>(p, st). (p, JDict st)) merged)) data)
       (default_config RULE_CANARY_DRIFT) = Inr rs" "r \<in> set rs"
  shows "\<not> rr_intentional_zero r \<and> rr_old_weight r \<le> rr_new_weight r"
proof -
  obtain m1 where m1: "merge_source recheck merge_recheck [] = Inr m1" "merge_source canary merge_canary m1 = Inr merged"
    using assms(3) by (auto simp: merge_signals_def bindR_eq_Inr_iff merge_source_def unavailable_def)
  have none: "dget e ''drift_count'' = None" if "(p, e) \<in> set m1" for p e
  proof (rule merge_source_cases[OF m1(1)])
    fix ps assume l: "merge_loop merge_recheck ps [] = Inr m1"
    have "\<forall>(p, e) \<in> set m1. dget e ''drift_count'' = None"
      by (rule merge_loop_inv[OF l]) (auto simp: merge_recheck_def)
    then show ?thesis using that by blast
  qed (use that in simp)
  have wf1: "wf_dict m1"
    by (rule merge_source_cases[OF m1(1)]) (auto dest: merge_loop_wf)
  obtain ps where ps: "platforms_of canary = Inr (Some (JDict ps))" "wf_dict ps"
    "\<And>p j. dget ps p = Some j \<Longrightarrow> j \<in> {JDict [(''drift_count'', JInt 0)], JDict [(''drift_count'', JInt 1)]}"
    using collected_drift[OF assms(1,2)] by metis
  have run: "merge_loop merge_canary ps m1 = Inr merged" using m1(2) ps(1) by (simp add: merge_source_def)
  have drift: "py_int (jget_or st ''drift_count'' (JInt 0)) \<in> {Inr 0, Inr 1}" if m: "(p, st) \<in> set merged" for p st
  proof -
    have g: "dget merged p = Some st" using m merge_loop_wf[OF run wf1] by (simp add: dget_iff_mem)
    have d0: "jget_or (dget_or m1 p []) ''drift_count'' (JInt 0) = JInt 0"
      using none[of p] by (auto simp: jget_or_def dget_or_def split: option.splits dest: map_of_SomeD)
    show ?thesis
    proof (cases "dget ps p")
      case None
      then have "dget m1 p = Some st" using merge_loop_get[OF run ps(2), of p] g by simp
      then show ?thesis using d0 by (simp add: dget_or_def[of m1])
    next
      case (Some j)
      then obtain e where "JDict e = j" "merge_canary e (dget_or m1 p []) = Inr st"
        using merge_loop_get[OF run ps(2), of p] g by auto
      then show ?thesis
        using ps(3)[OF Some] by (auto simp: merge_canary_def d0 bindR_eq_Inr_iff py_add_def jget_or_def[of "[_]"] dget_or_def[of "[_]"])
    qed
  qed
  have out: "\<not> rr_intentional_zero r \<and> rr_old_weight r \<le> rr_new_weight r"
    if "drift_outcome env utc m 3 c cr p entry k w b = Inr out" "r \<in> set out" "k \<in> {0, 1}" for m c cr p entry k w b out
    using that by (auto simp: drift_outcome_def make_result_def bindR_eq_Inr_iff split: if_splits)
  show ?thesis
    using assms(4)
    apply (simp add: rule_canary_drift_def config_simps)
    apply (erule each_platform_member[OF _ assms(5)])
    using drift[unfolded jget_or_def dget_or_def]
    apply (clarsimp simp: bindR_eq_Inr_iff)
    apply (erule out, assumption)
    apply force
    done
qed

theorem canary_fuse_never_blows_witness:
  "let r = make_result ''velog'' RULE_CANARY_DRIFT 1 1 1 ''drift_count < max_strikes'' False False
   in \<not> rr_intentional_zero r \<and> rr_old_weight r \<le> rr_new_weight r"
proof -
  let ?h = "[(''velog'', JDict [(''status'', JStr STATUS_DRIFT_CONFIRMED), (''quarantined'', JBool True)])]"
  let ?c = "JDict [(''platforms'', JDict [(''velog'', JDict [(''drift_count'', JInt 1)])]), (''status'', JStr ''collected'')]"
  let ?r = "make_result ''velog'' RULE_CANARY_DRIFT 1 1 1 ''drift_count < max_strikes'' False False"
  have 1: "extract_platform_drift (JDict ?h) = Inr ?c" by code_simp
  have 2: "merge_signals unavailable ?c unavailable = Inr [(''velog'', [(''drift_count'', JInt 1)])]" by code_simp
  have 3: "rule_canary_drift env0 (\<lambda>s. None) (dput ''stats'' (JDict (map (\<lambda>(p, st). (p, JDict st))
      [(''velog'', [(''drift_count'', JInt 1)])])) []) (default_config RULE_CANARY_DRIFT) = Inr [?r]" by code_simp
  show ?thesis using canary_fuse_never_blows[OF 1 _ 2 3, of ?r] by simp
qed

text \<open>The slow start after the cooldown never happens: the rule looks for its own name in a field of
  the entry that no write sets, so once it has suppressed a platform and the drift lasts, it leaves
  the weight at zero at any later time, whatever its cooldown and recovery settings.\<close>

theorem cooldown_recovery_is_dead:
  assumes "jget_or sd ''weights'' (JDict []) = JDict ns" "jget_or sd ''stats'' (JDict []) = JDict [(p, JDict st)]"
    and "dget ns p = Some (JDict (set_entry ts 0 RULE_CANARY_DRIFT reason True v))"
    and "py_num (jget_or (entry_dict v) ''base'' (jget_or (entry_dict v) ''current'' (JFloat 1))) \<noteq> None"
    and "py_int (jget_or st ''drift_count'' (JInt 0)) = Inr k" "n \<le> k" "0 < n"
    and "config_float config ''multiplier'' (1 / 2) = Inr m" "config_int config ''max_strikes'' 3 = Inr n"
      "config_int config ''cooldown_days'' 7 = Inr days" "config_float config ''canary_recovery'' (3 / 10) = Inr recovery"
  shows "rule_canary_drift env utc sd config = Inr []"
proof -
  let ?e = "set_entry ts 0 RULE_CANARY_DRIFT reason True v"
  have e: "jget_or ?e ''current'' (JFloat 1) = JFloat 0" "jget ?e ''rule'' = JNull"
    "jget_or ?e ''base'' (JFloat 1) = jget_or (entry_dict v) ''base'' (jget_or (entry_dict v) ''current'' (JFloat 1))"
    by (auto simp: set_entry_def weight_entry_def Let_def jget_def jget_or_def dget_or_def split: option.splits)
  have num: "\<exists>x. py_float j = Inr x" if "py_num j \<noteq> None" for j using that by (cases j) auto
  then obtain b where b: "py_float (jget_or ?e ''base'' (JFloat 1)) = Inr b" using assms(4) e(3) by auto
  have x: "existing_entry p ns = Inr ?e" using assms(3) by (simp add: existing_entry_def jget_or_def dget_or_def)
  have "drift_outcome env utc m n days recovery p ?e k 0 b = Inr []"
    using assms(6,7) e(2) by (simp add: drift_outcome_def cooldown_result_def)
  then show ?thesis
    using assms(5,8-11) e(1) b x
    by (simp add: rule_canary_drift_def each_platform_def assms(1,2) weight_of_def get_current_weight_def get_base_weight_def)
qed

theorem cooldown_recovery_is_dead_witness:
  "rule_canary_drift (env0\<lparr>e_now := 10000000\<rparr>) (\<lambda>s. Some 0)
     [(''weights'', JDict [(''velog'', JDict (set_entry ''1970'' 0 RULE_CANARY_DRIFT ''drift'' True None))]),
      (''stats'', JDict [(''velog'', JDict [(''drift_count'', JInt 5)])])] [] = Inr []"
  by (rule cooldown_recovery_is_dead[where v = None and ts = "''1970''" and reason = "''drift''" and
        ns = "[(''velog'', JDict (set_entry ''1970'' 0 RULE_CANARY_DRIFT ''drift'' True None))]" and p = "''velog''" and
        st = "[(''drift_count'', JInt 5)]" and k = 5 and n = 3 and m = "1 / 2" and days = 7 and recovery = "3 / 10"])
    (simp_all add: val_ok_def entry_dict_def jget_or_def dget_or_def config_float_def config_int_def)

end
