(* ===== verification/Routing.thy ===== *)
theory Routing
  imports Opt_Rules "HOL-Library.Product_Lexorder"
begin

text \<open>
  Choosing a platform for a row: the registration gates and the effective dispatch weight
  (\<open>publishing/registry.py\<close>), the signals (\<open>_dispatch_router/signals.py\<close>), the scoring
  (\<open>_dispatch_router/routing.py\<close>) and the loop of the command
  (\<open>cli/publish/dispatch_backlinks.py\<close>). \<open>utc\<close> is \<open>datetime.fromisoformat\<close> as in the rules.
\<close>

section \<open>The registry\<close>

datatype dofollow = DoTrue | DoFalse | DoUncertain

record registry_entry =
  re_dofollow :: dofollow
  re_rationale :: "string option"
  re_referral_value :: "string option"
  re_bind :: "string list"
  re_language_whitelist :: "string list option"
  re_visibility :: string
  re_dispatch_weight :: pyfloat

type_synonym platforms = "(string, registry_entry) dict"

definition REJECTED_PLATFORMS :: "string list" where
  "REJECTED_PLATFORMS = [''jianshu'', ''csdn'', ''juejin'', ''note'']"

definition VISIBILITY_VALUES :: "string list" where
  "VISIBILITY_VALUES = [''active'', ''experimental'', ''hidden'', ''retired'']"

definition BIND_BACKEND_VALUES :: "string list" where
  "BIND_BACKEND_VALUES = [''chrome'', ''token-paste'', ''oauth'', ''cookie'', ''cdp'']"

text \<open>\<open>register\<close>; the entry holds its keyword arguments, \<open>re_bind\<close> the backends of the bind
  descriptors. \<open>len\<close> counts the code points of a rationale; the texts are ASCII.\<close>

definition register :: "string \<Rightarrow> registry_entry \<Rightarrow> platforms \<Rightarrow> exn + platforms" where
  "register platform e reg =
     (let err = (\<lambda>m. Inl (mkexn RegistryError m)) in
      if platform \<in> set REJECTED_PLATFORMS then err ''previously rejected''
      else if re_dofollow e \<noteq> DoTrue \<and>
              (case re_rationale e of None \<Rightarrow> True | Some r \<Rightarrow> length (strip r) < 80)
      then err ''requires rationale''
      else if re_dofollow e \<noteq> DoTrue \<and> re_referral_value e = None then err ''requires referral_value''
      else if re_referral_value e \<noteq> None \<and> re_referral_value e \<notin> {Some ''high'', Some ''low''}
      then err ''referral_value must be high or low''
      else if re_visibility e \<notin> set VISIBILITY_VALUES then err ''visibility''
      else if \<not> set (re_bind e) \<subseteq> set BIND_BACKEND_VALUES then err ''backend''
      else if \<not> (0 < re_dispatch_weight e \<and> re_dispatch_weight e \<le> 1) then err ''dispatch_weight''
      else Inr (dput platform e reg))"

definition registered_platforms :: "platforms \<Rightarrow> string list" where
  "registered_platforms reg = sort (map fst reg)"

definition visibility :: "platforms \<Rightarrow> string \<Rightarrow> string" where
  "visibility reg name = (case dget reg name of Some e \<Rightarrow> re_visibility e | None \<Rightarrow> ''active'')"

definition active_platforms :: "platforms \<Rightarrow> string list" where
  "active_platforms reg = sort (filter (\<lambda>name. visibility reg name = ''active'') (map fst reg))"

section \<open>The effective weight\<close>

definition find_weight :: "jdict \<Rightarrow> string \<Rightarrow> string \<Rightarrow> exn + json" where
  "find_weight data name language =
     bindR (jdict_of (jget_or data ''weights'' (JDict []))) (\<lambda>weights.
     bindR (sub_get weights language name) (\<lambda>entry.
       if entry \<noteq> JNull then Inr entry
       else if language \<noteq> ''default'' then sub_get weights ''default'' name
       else Inr JNull))"

text \<open>The floor under a weight that is not deliberately zero: \<open>float(min_weight or 0.0) or 0.01\<close>.\<close>

definition weight_floor :: "jdict \<Rightarrow> exn + pyfloat" where
  "weight_floor data =
     bindR (jdict_of (jget_or data ''rules'' (JDict []))) (\<lambda>rules.
     bindR (sub_get rules ''aggregated_stats'' ''min_weight'') (\<lambda>m.
     bindR (py_float (py_or m (JFloat 0))) (\<lambda>x. Inr (if x = 0 then 1 / 100 else x))))"

definition dynamic_weight :: "jdict \<Rightarrow> string \<Rightarrow> string \<Rightarrow> exn + pyfloat option" where
  "dynamic_weight data name language =
     bindR (find_weight data name language) (\<lambda>w.
     bindR (jdict_of (py_or w (JDict []))) (\<lambda>wentry.
       if jget wentry ''current'' = JNull then Inr None
       else bindR (py_float (jget wentry ''current'')) (\<lambda>value.
              if value \<le> 0 \<and> \<not> locked wentry \<and> \<not> truthy (jget_or wentry ''intentional_zero'' (JBool False))
              then bindR (weight_floor data) (\<lambda>floor. Inr (Some (max value floor)))
              else Inr (Some value))))"

text \<open>Whatever goes wrong with the optimisation state, the static weight is used.\<close>

definition dispatch_weight :: "env \<Rightarrow> platforms \<Rightarrow> string \<Rightarrow> string \<Rightarrow> opt_world \<Rightarrow> pyfloat \<times> opt_world" where
  "dispatch_weight env reg name language w =
     (let static = (case dget reg name of Some e \<Rightarrow> re_dispatch_weight e | None \<Rightarrow> 1)
      in (case load_dict env w of
            (Inl e, w1) \<Rightarrow> (static, w1)
          | (Inr data, w1) \<Rightarrow>
              (case dynamic_weight data name language of
                 Inr (Some value) \<Rightarrow> (value, w1)
               | _ \<Rightarrow> (static, w1))))"

section \<open>Signals\<close>

record platform_signal =
  ps_name :: string
  ps_dofollow :: "dofollow option"
  ps_referral :: "string option"
  ps_binding :: json
  ps_quarantined :: bool
  ps_degraded :: bool
  ps_canary_last_ok_at :: json
  ps_language_whitelist :: "string list"
  ps_visibility :: string
  ps_dispatch_weight :: pyfloat

definition ALWAYS_BOUND :: "string list" where
  "ALWAYS_BOUND = [''telegraph'', ''txtfyi'', ''rentry'', ''notesio'']"

definition get_binding :: "string \<Rightarrow> jdict option \<Rightarrow> json" where
  "get_binding platform channel_data =
     (if platform \<in> set ALWAYS_BOUND then JStr ''bound''
      else (case channel_data of
              None \<Rightarrow> JStr ''unbound''
            | Some cd \<Rightarrow> (case jget cd platform of
                            JDict rec \<Rightarrow> jget_or rec ''status'' (JStr ''unbound'')
                          | _ \<Rightarrow> JStr ''unbound'')))"

definition platform_signal_of ::
  "platforms \<Rightarrow> jdict option \<Rightarrow> string \<Rightarrow> jdict \<Rightarrow> pyfloat \<Rightarrow> platform_signal" where
  "platform_signal_of reg channel_data name canary weight =
     (let entry = dget reg name
      in \<lparr>ps_name = name,
          ps_dofollow = map_option re_dofollow entry,
          ps_referral = Option.bind entry re_referral_value,
          ps_binding = get_binding name channel_data,
          ps_quarantined = truthy (jget_or canary ''quarantined'' (JBool False)),
          ps_degraded = truthy (jget_or canary ''degraded'' (JBool False)),
          ps_canary_last_ok_at = jget canary ''last_ok_at'',
          ps_language_whitelist = (case Option.bind entry re_language_whitelist of Some l \<Rightarrow> l | None \<Rightarrow> []),
          ps_visibility = visibility reg name,
          ps_dispatch_weight = weight\<rparr>)"

fun collect_loop ::
  "env \<Rightarrow> platforms \<Rightarrow> jdict option \<Rightarrow> json_file \<Rightarrow> string \<Rightarrow> string list \<Rightarrow>
     (string, platform_signal) dict \<Rightarrow> (string, platform_signal) dict oact" where
  "collect_loop env reg channel_data canary language [] signals = retS signals"
| "collect_loop env reg channel_data canary language (name # names) signals =
     bindS (liftR (bindR (get_health name canary) jdict_of)) (\<lambda>health w.
       let (weight, w1) = dispatch_weight env reg name language w
       in collect_loop env reg channel_data canary language names
            (dput name (platform_signal_of reg channel_data name health weight) signals) w1)"

definition collect_all ::
  "env \<Rightarrow> platforms \<Rightarrow> jdict option \<Rightarrow> json_file \<Rightarrow> string \<Rightarrow> (string, platform_signal) dict oact" where
  "collect_all env reg channel_data canary language =
     collect_loop env reg channel_data canary language (active_platforms reg) []"

section \<open>Scoring\<close>

definition ENGINE_VERSION :: int where "ENGINE_VERSION = 2"
definition DEFAULT_CANARY_STALE_DAYS :: int where "DEFAULT_CANARY_STALE_DAYS = 7"
definition MAX_SPREAD_BONUS :: int where "MAX_SPREAD_BONUS = 3"

definition score_dofollow_tier :: "dofollow option \<Rightarrow> int" where
  "score_dofollow_tier d =
     (if d = Some DoTrue then 4 else if d = Some DoUncertain then 2 else 1)"

definition score_nofollow_bonus :: "dofollow option \<Rightarrow> string option \<Rightarrow> int" where
  "score_nofollow_bonus d referral =
     (if d = Some DoTrue \<or> d = Some DoUncertain then 0 else if referral = Some ''high'' then 1 else 0)"

definition downgrade_if_stale ::
  "env \<Rightarrow> (string \<Rightarrow> pyfloat option) \<Rightarrow> platform_signal \<Rightarrow> int option \<Rightarrow> dofollow option" where
  "downgrade_if_stale env utc sig stale_days =
     (let days = (case stale_days of None \<Rightarrow> DEFAULT_CANARY_STALE_DAYS | Some n \<Rightarrow> n)
      in if days \<le> 0 \<or> \<not> truthy (ps_canary_last_ok_at sig) then ps_dofollow sig
         else (case ps_canary_last_ok_at sig of
                 JStr s \<Rightarrow>
                   (case utc s of
                      None \<Rightarrow> ps_dofollow sig
                    | Some last_ok \<Rightarrow>
                        if (e_now env - last_ok) / 86400 \<le> of_int days then ps_dofollow sig
                        else if ps_dofollow sig = Some DoTrue then Some DoUncertain
                        else if ps_dofollow sig = Some DoUncertain then Some DoFalse
                        else ps_dofollow sig)
               | _ \<Rightarrow> ps_dofollow sig))"

text \<open>Phase 1: why a platform is out, if it is.\<close>

definition exclusion :: "json \<Rightarrow> platform_signal \<Rightarrow> string option" where
  "exclusion row_language sig =
     (if ps_visibility sig \<in> {''retired'', ''hidden''} then Some ''visibility''
      else if ps_binding sig \<noteq> JStr ''bound'' then Some ''binding''
      else if ps_language_whitelist sig \<noteq> [] \<and> truthy row_language \<and>
              row_language \<notin> JStr ` set (ps_language_whitelist sig) then Some ''language''
      else if ps_quarantined sig then Some ''quarantined''
      else None)"

definition filter_candidates ::
  "(string, platform_signal) dict \<Rightarrow> json \<Rightarrow> platform_signal list \<times> (string, string) dict" where
  "filter_candidates signals row_language =
     (filter (\<lambda>sig. exclusion row_language sig = None) (map snd signals),
      concat (map (\<lambda>(name, sig). case exclusion row_language sig of None \<Rightarrow> [] | Some r \<Rightarrow> [(name, r)]) signals))"

text \<open>What the equity ledger holds for the target of a row: a list of platform names, by its schema. Looking
  up a target that is a list or an object in a ledger that is not empty raises. The targets of the
  ledger are texts.\<close>

definition row_target :: "jdict \<Rightarrow> json" where
  "row_target row = py_or (jget row ''url'') (py_or (jget row ''target_url'') (py_or (jget row ''uri'') (JStr [])))"

definition live_dofollow_platforms :: "jdict \<Rightarrow> (string, jdict) dict option \<Rightarrow> exn + json" where
  "live_dofollow_platforms row ledger_map =
     (let target = row_target row
      in case ledger_map of
           None \<Rightarrow> Inr (JList [])
         | Some m \<Rightarrow>
             if m = [] then Inr (JList [])
             else if \<not> hashable target then Inl (mkexn TypeErr ''unhashable type'')
             else (case target of
                     JStr t \<Rightarrow>
                       (case dget m t of
                          Some lr \<Rightarrow> Inr (jget_or lr ''live_dofollow_platforms'' (JList []))
                        | None \<Rightarrow> Inr (JList []))
                   | _ \<Rightarrow> Inr (JList [])))"

text \<open>\<open>x.count(name)\<close>: the equal elements of a list, the disjoint occurrences in a text; other values have
  no such method.\<close>

fun count_from :: "string \<Rightarrow> nat \<Rightarrow> string \<Rightarrow> nat" where
  "count_from p skip [] = 0"
| "count_from p (Suc n) (c # s) = count_from p n s"
| "count_from p 0 (c # s) =
     (if startswith (c # s) p then Suc (count_from p (length p - 1) s) else count_from p 0 s)"

definition py_count :: "string \<Rightarrow> json \<Rightarrow> exn + int" where
  "py_count name live =
     (case live of
        JList xs \<Rightarrow> Inr (int (length (filter (\<lambda>x. x = JStr name) xs)))
      | JStr s \<Rightarrow> Inr (int (if name = [] then length s + 1 else count_from name 0 s))
      | _ \<Rightarrow> Inl (mkexn AttributeErr ''object has no attribute count''))"

definition strategy_score :: "string \<Rightarrow> pyfloat \<Rightarrow> int \<Rightarrow> pyfloat" where
  "strategy_score strategy base_score spread_bonus =
     (if strategy = ''quality'' then base_score
      else if strategy = ''spread'' then base_score * (1 / 2) + of_int spread_bonus * 3
      else base_score + of_int spread_bonus)"

definition score_candidate ::
  "env \<Rightarrow> (string \<Rightarrow> pyfloat option) \<Rightarrow> string \<Rightarrow> int option \<Rightarrow> json \<Rightarrow> platform_signal \<Rightarrow> exn + pyfloat" where
  "score_candidate env utc strategy stale_days live sig =
     (let effective = downgrade_if_stale env utc sig stale_days;
          base_score = of_int (score_dofollow_tier effective + score_nofollow_bonus effective (ps_referral sig))
      in bindR (py_count (ps_name sig) live) (\<lambda>cover_count.
           let spread_bonus = max 0 (MAX_SPREAD_BONUS - cover_count)
           in Inr (strategy_score strategy base_score spread_bonus * ps_dispatch_weight sig)))"

record route_result =
  rt_platform :: "string option"
  rt_candidates :: "string list"
  rt_excluded :: "(string, string) dict"
  rt_reason :: string

definition dofollow_str :: "dofollow option \<Rightarrow> string" where
  "dofollow_str d =
     (case d of None \<Rightarrow> ''unknown'' | Some DoTrue \<Rightarrow> ''True'' | Some DoFalse \<Rightarrow> ''False''
      | Some DoUncertain \<Rightarrow> ''uncertain'')"

text \<open>The cover is read from a list or a text here: other values have failed before.\<close>

definition in_live :: "string \<Rightarrow> json \<Rightarrow> bool" where
  "in_live name live =
     (case live of JList xs \<Rightarrow> JStr name \<in> set xs | JStr s \<Rightarrow> contains name s | _ \<Rightarrow> False)"

definition build_reason :: "env \<Rightarrow> string \<Rightarrow> platform_signal option \<Rightarrow> json \<Rightarrow> exn + string" where
  "build_reason env strategy sig live =
     bindR (case sig of
              None \<Rightarrow> Inr []
            | Some s \<Rightarrow>
                bindR (if \<not> truthy live then Inr []
                       else if \<not> in_live (ps_name s) live then Inr [''new_platform'']
                       else bindR (py_count (ps_name s) live) (\<lambda>n. Inr [''existing_cover='' @ nat_str (nat n)])) (\<lambda>cover.
                Inr ([''dofollow='' @ dofollow_str (ps_dofollow s)] @
                     (if ps_dispatch_weight s \<noteq> 1 then [''dispatch_weight='' @ e_str env (JFloat (ps_dispatch_weight s))] else []) @
                     cover)))
       (\<lambda>parts. Inr (join '', '' (strategy # parts)))"

definition route ::
  "env \<Rightarrow> (string \<Rightarrow> pyfloat option) \<Rightarrow> jdict \<Rightarrow> (string, platform_signal) dict \<Rightarrow>
     (string, jdict) dict option \<Rightarrow> string \<Rightarrow> int option \<Rightarrow> exn + route_result" where
  "route env utc row signals ledger_map strategy stale_days =
     (let row_language = py_or (jget row ''language'') (py_or (jget row ''lang'') (JStr []));
          (candidates, excluded) = filter_candidates signals row_language
      in if candidates = []
         then Inr \<lparr>rt_platform = None, rt_candidates = [], rt_excluded = excluded, rt_reason = ''no_available_platforms''\<rparr>
         else bindR (live_dofollow_platforms row ledger_map) (\<lambda>live.
              bindR (mapR (\<lambda>sig. bindR (score_candidate env utc strategy stale_days live sig) (\<lambda>score.
                                 Inr (score, ps_name sig))) candidates) (\<lambda>scores.
              let best_name = snd (hd (sort_key (\<lambda>(score, name). (- score, name)) scores))
              in bindR (build_reason env strategy (if best_name = [] then None else dget signals best_name) live) (\<lambda>reason.
                 Inr \<lparr>rt_platform = Some best_name, rt_candidates = map ps_name candidates, rt_excluded = excluded,
                      rt_reason = reason\<rparr>))))"

section \<open>The command\<close>

definition dispatch_json :: "string \<Rightarrow> route_result \<Rightarrow> json" where
  "dispatch_json strategy r =
     JDict [(''strategy'', JStr strategy), (''engine_version'', JInt ENGINE_VERSION),
            (''candidates'', JList (map JStr (rt_candidates r))),
            (''excluded'', JDict (map (\<lambda>(n, e). (n, JStr e)) (rt_excluded r))), (''reason'', JStr (rt_reason r))]"

text \<open>The row to print, and whether it was assigned a platform.\<close>

definition dispatch_row ::
  "env \<Rightarrow> (string \<Rightarrow> pyfloat option) \<Rightarrow> (string, platform_signal) dict \<Rightarrow> (string, jdict) dict option \<Rightarrow>
     string \<Rightarrow> int option \<Rightarrow> string option \<Rightarrow> jdict \<Rightarrow> exn + jdict \<times> bool" where
  "dispatch_row env utc signals ledger_map strategy stale_days override row =
     (case override of
        Some p \<Rightarrow>
          Inr (dput ''_dispatch'' (JDict [(''strategy'', JStr ''manual''), (''engine_version'', JInt ENGINE_VERSION),
              (''reason'', JStr (''--platform='' @ p @ '' override''))]) (dput ''platform'' (JStr p) row), True)
      | None \<Rightarrow>
          bindR (route env utc row signals ledger_map strategy stale_days) (\<lambda>r.
            Inr (dput ''_dispatch'' (dispatch_json strategy r)
                   (case rt_platform r of Some p \<Rightarrow> dput ''platform'' (JStr p) row | None \<Rightarrow> row),
                 rt_platform r \<noteq> None)))"

text \<open>The printed rows, and how the command ends: an exception comes before anything is printed, and exit
  code 6 says that no row could be assigned.\<close>

definition dispatch_rows ::
  "env \<Rightarrow> (string \<Rightarrow> pyfloat option) \<Rightarrow> (string, platform_signal) dict \<Rightarrow> (string, jdict) dict option \<Rightarrow>
     string \<Rightarrow> int option \<Rightarrow> string option \<Rightarrow> jdict list \<Rightarrow> jdict list \<times> (exn + unit)" where
  "dispatch_rows env utc signals ledger_map strategy stale_days override rows =
     (if rows = [] then ([], Inr ())
      else case mapR (dispatch_row env utc signals ledger_map strategy stale_days override) rows of
             Inl e \<Rightarrow> ([], Inl e)
           | Inr outs \<Rightarrow>
               (map fst outs, if length (filter (\<lambda>(out, ok). \<not> ok) outs) = length rows then Inl (SysExit 6) else Inr ()))"

end
