(* ===== verification/Routing_Facts.thy ===== *)
theory Routing_Facts
  imports Routing
begin

text \<open>
  What routing guarantees: the registration gates hold of every entry, an effective weight is
  positive unless someone meant it not to be, and the platform chosen is the best of those that
  are not excluded; and what it does not do: spread rows of one run, or leave out weight zero.
\<close>

section \<open>The registry\<close>

definition entry_ok :: "string \<Rightarrow> registry_entry \<Rightarrow> bool" where
  "entry_ok platform e \<longleftrightarrow>
     platform \<notin> set REJECTED_PLATFORMS \<and> re_visibility e \<in> set VISIBILITY_VALUES \<and>
     set (re_bind e) \<subseteq> set BIND_BACKEND_VALUES \<and> 0 < re_dispatch_weight e \<and> re_dispatch_weight e \<le> 1 \<and>
     re_referral_value e \<in> {None, Some ''high'', Some ''low''} \<and>
     (re_dofollow e = DoTrue \<or>
       re_referral_value e \<noteq> None \<and> (\<exists>r. re_rationale e = Some r \<and> 80 \<le> length (strip r)))"

definition registry_ok :: "platforms \<Rightarrow> bool" where
  "registry_ok reg \<longleftrightarrow> (\<forall>platform e. dget reg platform = Some e \<longrightarrow> entry_ok platform e)"

lemma register_entry: "register platform e reg = Inr reg' \<longleftrightarrow> entry_ok platform e \<and> reg' = dput platform e reg"
  by (cases "re_rationale e") (auto simp: register_def entry_ok_def Let_def)

lemma register_ok: "registry_ok reg \<Longrightarrow> register platform e reg = Inr reg' \<Longrightarrow> registry_ok reg'"
  by (auto simp: registry_ok_def register_entry split: if_splits)

fun register_all :: "(string \<times> registry_entry) list \<Rightarrow> platforms \<Rightarrow> exn + platforms" where
  "register_all [] reg = Inr reg"
| "register_all ((platform, e) # es) reg = bindR (register platform e reg) (register_all es)"

lemma register_all_get:
  "register_all es reg = Inr reg' \<Longrightarrow>
     dget reg' p = (case dget (rev es) p of None \<Rightarrow> dget reg p | Some e \<Rightarrow> Some e)"
proof (induction es arbitrary: reg)
  case (Cons x es)
  obtain q e where x: "x = (q, e)" by (cases x)
  obtain reg1 where "register q e reg = Inr reg1" "register_all es reg1 = Inr reg'"
    using Cons.prems by (auto simp: x bindR_eq_Inr_iff)
  then show ?case using Cons.IH[of reg1] by (auto simp: x register_entry map_add_def split: option.splits)
qed simp

text \<open>C37. The registration gates are sound and exact: a sequence of registrations succeeds exactly when
  each of them passes the gates (declared as rejected never, a rationale and a referral grade for
  what is not dofollow, known visibility and backends, a weight in (0, 1]); then a platform has the
  entry of its last registration, and every entry of the registry passes them.\<close>

theorem registration_gates:
  "(\<exists>reg. register_all es [] = Inr reg) = (\<forall>(p, e) \<in> set es. entry_ok p e) \<and>
   (\<forall>reg. register_all es [] = Inr reg \<longrightarrow> (\<forall>p. dget reg p = dget (rev es) p) \<and> registry_ok reg)"
proof (intro conjI allI impI)
  have "(\<exists>reg. register_all es reg0 = Inr reg) = (\<forall>(p, e) \<in> set es. entry_ok p e)" for reg0
    by (induction es reg0 rule: register_all.induct) (auto simp: bindR_eq_Inr_iff register_entry)
  then show "(\<exists>reg. register_all es [] = Inr reg) = (\<forall>(p, e) \<in> set es. entry_ok p e)" .
  fix reg assume reg: "register_all es [] = Inr reg"
  have ok: "registry_ok reg0 \<Longrightarrow> register_all es reg0 = Inr r1 \<Longrightarrow> registry_ok r1" for es reg0 r1
    by (induction es reg0 rule: register_all.induct) (auto simp: bindR_eq_Inr_iff dest: register_ok)
  from reg show "registry_ok reg" by (rule ok[rotated]) (simp add: registry_ok_def)
  show "dget reg p = dget (rev es) p" for p
    using register_all_get[OF reg] by (simp split: option.splits)
qed

definition demo_platform :: registry_entry where
  "demo_platform = \<lparr>re_dofollow = DoTrue, re_rationale = None, re_referral_value = None, re_bind = [],
     re_language_whitelist = None, re_visibility = ''active'', re_dispatch_weight = 1\<rparr>"

theorem registration_gates_witness:
  "\<exists>reg. register_all [(''velog'', demo_platform), (''velog'', demo_platform\<lparr>re_dispatch_weight := 3 / 5\<rparr>)] [] = Inr reg \<and>
     dget reg ''velog'' = Some (demo_platform\<lparr>re_dispatch_weight := 3 / 5\<rparr>)"
proof -
  let ?es = "[(''velog'', demo_platform), (''velog'', demo_platform\<lparr>re_dispatch_weight := 3 / 5\<rparr>)]"
  have "\<forall>(p, e) \<in> set ?es. entry_ok p e"
    by (simp add: entry_ok_def demo_platform_def REJECTED_PLATFORMS_def VISIBILITY_VALUES_def)
  then show ?thesis using registration_gates[of ?es] by auto
qed

section \<open>Effective weights\<close>

lemma weight_floor_nonzero: "weight_floor data = Inr x \<Longrightarrow> x \<noteq> 0"
  by (auto simp: weight_floor_def bindR_eq_Inr_iff split: if_splits)

lemma dynamic_weight_cases:
  assumes "dynamic_weight data name language = Inr (Some value)" "value \<le> 0"
  obtains wentry where "find_weight data name language = Inr (JDict wentry)"
    "locked wentry \<or> truthy (jget_or wentry ''intentional_zero'' (JBool False)) \<or>
       (\<exists>x < 0. weight_floor data = Inr x)"
proof -
  obtain wv wentry where w: "find_weight data name language = Inr wv" "jdict_of (py_or wv (JDict [])) = Inr wentry"
    and i: "(if jget wentry ''current'' = JNull then Inr None
      else bindR (py_float (jget wentry ''current'')) (\<lambda>v.
        if v \<le> 0 \<and> \<not> locked wentry \<and> \<not> truthy (jget_or wentry ''intentional_zero'' (JBool False))
        then bindR (weight_floor data) (\<lambda>floor. Inr (Some (max v floor))) else Inr (Some v))) = Inr (Some value)"
    using assms(1) unfolding dynamic_weight_def bindR_eq_Inr_iff by blast
  have n: "jget wentry ''current'' \<noteq> JNull" using i by auto
  obtain v where c: "(if v \<le> 0 \<and> \<not> locked wentry \<and> \<not> truthy (jget_or wentry ''intentional_zero'' (JBool False))
      then bindR (weight_floor data) (\<lambda>floor. Inr (Some (max v floor))) else Inr (Some v)) = Inr (Some value)"
    using i unfolding if_not_P[OF n] bindR_eq_Inr_iff by blast
  have v: "locked wentry \<or> truthy (jget_or wentry ''intentional_zero'' (JBool False)) \<or>
      (\<exists>x. weight_floor data = Inr x \<and> value = max v x)"
    using c assms(2) by (auto simp: bindR_eq_Inr_iff split: if_splits)
  have "wv = JDict wentry" using w(2) n by (cases wv) (auto simp: py_or_def jget_def dget_or_def split: if_splits)
  moreover have "x < 0" if "weight_floor data = Inr x" "value = max v x" for x
    using that assms(2) weight_floor_nonzero[OF that(1)] by (simp add: max_def split: if_splits)
  ultimately show ?thesis using that[of wentry] w(1) v assms(2) by auto
qed

text \<open>No platform loses its weight by accident: the effective weight of a platform is positive
  unless the weight entry that was found is locked by the operator or marked as an intentional
  zero, or the configured floor is itself negative; this holds for any state file, damaged ones
  included, since every failure falls back to the registered weight.\<close>

theorem dispatch_weight_positive:
  assumes "registry_ok reg"
  shows "0 < fst (dispatch_weight env reg name language w) \<or>
    (\<exists>data w1 wentry. load_dict env w = (Inr data, w1) \<and> find_weight data name language = Inr (JDict wentry) \<and>
       (locked wentry \<or> truthy (jget_or wentry ''intentional_zero'' (JBool False)) \<or>
        (\<exists>x < 0. weight_floor data = Inr x)))"
proof (cases "0 < fst (dispatch_weight env reg name language w)")
  case False
  have "0 < (case dget reg name of Some e \<Rightarrow> re_dispatch_weight e | None \<Rightarrow> 1)"
    using assms by (auto simp: registry_ok_def entry_ok_def split: option.splits)
  then obtain data w1 x where d: "load_dict env w = (Inr data, w1)"
    "dynamic_weight data name language = Inr (Some x)" "x \<le> 0"
    using False by (auto simp: dispatch_weight_def Let_def not_less split: prod.splits sum.splits option.splits)
  from dynamic_weight_cases[OF d(2,3)] show ?thesis using d(1) by metis
qed simp

theorem dispatch_weight_positive_witness:
  "0 < fst (dispatch_weight env0 [] ''velog'' ''en''
     \<lparr>ow_file = FBad (mkexn JSONDecodeError ''torn''), ow_cache = None, ow_save = None\<rparr>)"
proof -
  let ?w = "\<lparr>ow_file = FBad (mkexn JSONDecodeError ''torn''), ow_cache = None, ow_save = None\<rparr>"
  have l: "load_dict env0 ?w = (Inr default_state, ?w)" by code_simp
  have "find_weight default_state ''velog'' ''en'' = Inr JNull" by code_simp
  then show ?thesis using dispatch_weight_positive[of "[]" env0 "''velog''" "''en''" ?w] l by (auto simp: registry_ok_def)
qed

section \<open>The choice\<close>

lemma hd_sort_key_least: "xs \<noteq> [] \<Longrightarrow> y \<in> set xs \<Longrightarrow> f (hd (sort_key f xs)) \<le> f y"
proof -
  assume a: "xs \<noteq> []" "y \<in> set xs"
  obtain z zs where z: "sort_key f xs = z # zs" using a(1) by (metis length_0_conv length_sort neq_Nil_conv)
  have "sorted (map f (z # zs))" using sorted_sort_key[of f xs] z by simp
  moreover have "y \<in> set (z # zs)" using a(2) z by (metis set_sort)
  ultimately show ?thesis by (auto simp: z)
qed

definition row_language :: "jdict \<Rightarrow> json" where
  "row_language row = py_or (jget row ''language'') (py_or (jget row ''lang'') (JStr []))"

text \<open>What the engine promises, apart from the code: which platforms are eligible for a row, and what a
  platform is worth. A grade whose canary has not been seen in time counts one step lower; the
  canary is too old when it is more than \<open>stale\<close> days old, 7 by default, and with 0 never.\<close>

definition eligible :: "json \<Rightarrow> platform_signal \<Rightarrow> bool" where
  "eligible language sig \<longleftrightarrow>
     ps_visibility sig \<noteq> ''retired'' \<and> ps_visibility sig \<noteq> ''hidden'' \<and> ps_binding sig = JStr ''bound'' \<and>
     \<not> ps_quarantined sig \<and>
     (truthy language \<and> ps_language_whitelist sig \<noteq> [] \<longrightarrow> (\<exists>l \<in> set (ps_language_whitelist sig). language = JStr l))"

definition canary_too_old :: "env \<Rightarrow> (string \<Rightarrow> pyfloat option) \<Rightarrow> int option \<Rightarrow> platform_signal \<Rightarrow> bool" where
  "canary_too_old env utc stale sig \<longleftrightarrow>
     (let days = (case stale of None \<Rightarrow> 7 | Some n \<Rightarrow> n)
      in 0 < days \<and> (\<exists>s t. ps_canary_last_ok_at sig = JStr s \<and> s \<noteq> [] \<and> utc s = Some t \<and>
           of_int days < (e_now env - t) / 86400))"

fun one_step_lower :: "dofollow option \<Rightarrow> dofollow option" where
  "one_step_lower (Some DoTrue) = Some DoUncertain"
| "one_step_lower (Some DoUncertain) = Some DoFalse"
| "one_step_lower d = d"

fun points :: "dofollow option \<Rightarrow> string option \<Rightarrow> pyfloat" where
  "points (Some DoTrue) referral = 4"
| "points (Some DoUncertain) referral = 2"
| "points d referral = (if referral = Some ''high'' then 2 else 1)"

definition merit :: "env \<Rightarrow> (string \<Rightarrow> pyfloat option) \<Rightarrow> string \<Rightarrow> int option \<Rightarrow> int \<Rightarrow> platform_signal \<Rightarrow> pyfloat" where
  "merit env utc strategy stale covers sig =
     (let grade = (if canary_too_old env utc stale sig then one_step_lower (ps_dofollow sig) else ps_dofollow sig);
          base = points grade (ps_referral sig);
          novelty = of_int (max 0 (3 - covers))
      in ps_dispatch_weight sig *
         (if strategy = ''quality'' then base
          else if strategy = ''spread'' then base / 2 + 3 * novelty
          else base + novelty))"

lemma exclusion_eligible: "exclusion language sig = None \<longleftrightarrow> eligible language sig"
  by (auto simp: exclusion_def eligible_def image_iff)

lemma downgrade_grade:
  "downgrade_if_stale env utc sig stale =
     (if canary_too_old env utc stale sig then one_step_lower (ps_dofollow sig) else ps_dofollow sig)"
proof -
  have lower: "one_step_lower d =
      (if d = Some DoTrue then Some DoUncertain else if d = Some DoUncertain then Some DoFalse else d)" for d
    by (cases d rule: one_step_lower.cases) auto
  show ?thesis
    by (auto simp: downgrade_if_stale_def canary_too_old_def lower Let_def DEFAULT_CANARY_STALE_DAYS_def not_le not_less
        split: option.splits json.splits)
qed

lemma points_score: "of_int (score_dofollow_tier d + score_nofollow_bonus d referral) = points d referral"
  by (cases "(d, referral)" rule: points.cases) (auto simp: score_dofollow_tier_def score_nofollow_bonus_def)

lemma strategy_times:
  "strategy_score strategy base n * weight =
     weight * (if strategy = ''quality'' then base else if strategy = ''spread'' then base / 2 + 3 * of_int n else base + of_int n)"
  by (simp add: strategy_score_def field_simps)

lemma score_merit:
  "score_candidate env utc strategy stale live sig =
     bindR (py_count (ps_name sig) live) (\<lambda>n. Inr (merit env utc strategy stale n sig))"
  unfolding score_candidate_def Let_def downgrade_grade points_score
  by (simp add: merit_def Let_def strategy_times MAX_SPREAD_BONUS_def)

text \<open>A ledger that cannot be asked about a row: its target is no key of a dict, or what the ledger holds of
  it is neither a list nor a text.\<close>

definition ledger_broken :: "jdict \<Rightarrow> (string, jdict) dict option \<Rightarrow> bool" where
  "ledger_broken row ledger \<longleftrightarrow>
     (\<exists>m. ledger = Some m \<and> m \<noteq> [] \<and>
        (\<not> hashable (row_target row) \<or>
         (\<exists>t lr. row_target row = JStr t \<and> dget m t = Some lr \<and>
            (\<forall>xs. jget_or lr ''live_dofollow_platforms'' (JList []) \<noteq> JList xs) \<and>
            (\<forall>x. jget_or lr ''live_dofollow_platforms'' (JList []) \<noteq> JStr x))))"

definition covers_of :: "json \<Rightarrow> string \<Rightarrow> int" where
  "covers_of live name = (case py_count name live of Inr n \<Rightarrow> n | Inl e \<Rightarrow> 0)"

definition countable :: "json \<Rightarrow> bool" where
  "countable live \<longleftrightarrow> (\<exists>xs. live = JList xs) \<or> (\<exists>s. live = JStr s)"

lemma py_count_countable: "countable live \<Longrightarrow> py_count name live = Inr (covers_of live name)"
  by (auto simp: countable_def covers_of_def py_count_def)

lemma py_count_uncountable: "\<not> countable live \<Longrightarrow> isl (py_count name live)"
  by (cases live) (auto simp: countable_def py_count_def)

lemma ledger_broken_live:
  "ledger_broken row ledger \<longleftrightarrow>
     (case live_dofollow_platforms row ledger of Inl e \<Rightarrow> True | Inr live \<Rightarrow> \<not> countable live)"
  by (auto simp: ledger_broken_def live_dofollow_platforms_def Let_def countable_def split: option.splits json.splits)

lemma build_reason_countable: "countable live \<Longrightarrow> \<exists>r. build_reason env strategy sig live = Inr r"
  by (cases sig) (auto simp: build_reason_def py_count_countable)

lemma best_of:
  fixes score :: "platform_signal \<Rightarrow> pyfloat"
  assumes "cands \<noteq> []"
  defines "p \<equiv> snd (hd (sort_key (\<lambda>(score, name). (- score, name)) (map (\<lambda>sig. (score sig, ps_name sig)) cands)))"
  shows "\<exists>best \<in> set cands. ps_name best = p \<and>
    (\<forall>sig \<in> set cands. score sig < score best \<or> score sig = score best \<and> p \<le> ps_name sig)"
proof -
  define key :: "pyfloat \<times> string \<Rightarrow> pyfloat \<times> string" where "key = (\<lambda>(score, name). (- score, name))"
  define scored where "scored = map (\<lambda>sig. (score sig, ps_name sig)) cands"
  have ne: "scored \<noteq> []" using assms(1) by (simp add: scored_def)
  have p: "p = snd (hd (sort_key key scored))" by (simp add: p_def key_def scored_def)
  have "hd (sort_key key scored) \<in> set scored"
    using ne by (metis hd_in_set length_0_conv length_sort set_sort)
  then obtain best where b: "best \<in> set cands" "hd (sort_key key scored) = (score best, ps_name best)"
    by (auto simp: scored_def)
  have "score sig < score best \<or> score sig = score best \<and> ps_name best \<le> ps_name sig" if "sig \<in> set cands" for sig
    using hd_sort_key_least[OF ne, of "(score sig, ps_name sig)" key] that b(2)
    by (auto simp: less_eq_prod_def key_def scored_def)
  then show ?thesis using b p by (intro bexI[of _ best]) auto
qed

lemma route_run:
  fixes row language signals ledger
  defines "cands \<equiv> filter (eligible (row_language row)) (map snd signals)"
  shows "cands = [] \<Longrightarrow> \<exists>res. route env utc row signals ledger strategy stale = Inr res \<and> rt_platform res = None"
    "cands \<noteq> [] \<Longrightarrow> ledger_broken row ledger \<Longrightarrow> isl (route env utc row signals ledger strategy stale)"
    "cands \<noteq> [] \<Longrightarrow> live_dofollow_platforms row ledger = Inr live \<Longrightarrow> countable live \<Longrightarrow>
       \<exists>res. route env utc row signals ledger strategy stale = Inr res \<and>
         rt_platform res = Some (snd (hd (sort_key (\<lambda>(score, name). (- score, name))
            (map (\<lambda>sig. (merit env utc strategy stale (covers_of live (ps_name sig)) sig, ps_name sig)) cands))))"
proof -
  define ex where "ex = snd (filter_candidates signals (row_language row))"
  have fc: "filter_candidates signals (row_language row) = (cands, ex)"
    by (simp add: ex_def filter_candidates_def cands_def exclusion_eligible)
  note r = route_def[of env utc row signals ledger strategy stale, unfolded Let_def, folded row_language_def, unfolded fc prod.case]
  show "\<exists>res. route env utc row signals ledger strategy stale = Inr res \<and> rt_platform res = None" if "cands = []"
    using that by (simp add: r)
  show "isl (route env utc row signals ledger strategy stale)" if ne: "cands \<noteq> []" and br: "ledger_broken row ledger"
  proof (cases "live_dofollow_platforms row ledger")
    case (Inl e)
    then show ?thesis using ne by (simp add: r)
  next
    case (Inr live)
    then have "\<not> countable live" using br by (simp add: ledger_broken_live)
    moreover obtain c cs where "cands = c # cs" using ne by (cases cands) auto
    ultimately show ?thesis using Inr py_count_uncountable[of live "ps_name c"]
      by (auto simp: r score_merit isl_def)
  qed
  show "\<exists>res. route env utc row signals ledger strategy stale = Inr res \<and>
         rt_platform res = Some (snd (hd (sort_key (\<lambda>(score, name). (- score, name))
            (map (\<lambda>sig. (merit env utc strategy stale (covers_of live (ps_name sig)) sig, ps_name sig)) cands))))"
    if ne: "cands \<noteq> []" and live: "live_dofollow_platforms row ledger = Inr live" "countable live"
  proof -
    have m: "mapR (\<lambda>sig. bindR (score_candidate env utc strategy stale live sig) (\<lambda>score. Inr (score, ps_name sig))) cands =
        Inr (map (\<lambda>sig. (merit env utc strategy stale (covers_of live (ps_name sig)) sig, ps_name sig)) cands)"
      by (rule mapR_total) (simp add: score_merit py_count_countable[OF live(2)])
    let ?best = "snd (hd (sort_key (\<lambda>(score, name). (- score, name))
            (map (\<lambda>sig. (merit env utc strategy stale (covers_of live (ps_name sig)) sig, ps_name sig)) cands)))"
    obtain reason where rs: "build_reason env strategy (if ?best = [] then None else dget signals ?best) live = Inr reason"
      using build_reason_countable[OF live(2)] by blast
    show ?thesis unfolding r if_not_P[OF ne] live(1) bindR.simps m rs by simp
  qed
qed

text \<open>C36. The choice is the best eligible platform. A row gets no platform exactly when none is eligible:
  neither retired nor hidden, bound, not quarantined, and open to the language of the row. Else it
  gets an eligible one whose merit (grade, referral, canary, novelty for the target, strategy and
  weight) no other eligible one exceeds, and of those with the same merit the first by name. Only
  a ledger that cannot be asked about the target makes the routing of such a row fail.\<close>

theorem route_picks_best:
  "isl (route env utc row signals ledger strategy stale) =
     ((\<exists>sig \<in> snd ` set signals. eligible (row_language row) sig) \<and> ledger_broken row ledger) \<and>
   (\<forall>res. route env utc row signals ledger strategy stale = Inr res \<longrightarrow>
     (case rt_platform res of
        None \<Rightarrow> \<forall>sig \<in> snd ` set signals. \<not> eligible (row_language row) sig
      | Some p \<Rightarrow>
          \<exists>live best. live_dofollow_platforms row ledger = Inr live \<and> best \<in> snd ` set signals \<and>
            ps_name best = p \<and> eligible (row_language row) best \<and>
            (\<forall>sig \<in> snd ` set signals. eligible (row_language row) sig \<longrightarrow>
               (let worth = (\<lambda>x. merit env utc strategy stale (covers_of live (ps_name x)) x)
                in worth sig < worth best \<or> worth sig = worth best \<and> p \<le> ps_name sig))))"
proof -
  let ?cands = "filter (eligible (row_language row)) (map snd signals)"
  have mem: "sig \<in> set ?cands \<longleftrightarrow> sig \<in> snd ` set signals \<and> eligible (row_language row) sig" for sig by auto
  have none: "?cands = [] \<longleftrightarrow> \<not> (\<exists>sig \<in> snd ` set signals. eligible (row_language row) sig)"
    by (auto simp: filter_empty_conv)
  note run = route_run[where row = row and signals = signals and ledger = ledger and env = env and utc = utc
    and strategy = strategy and stale = stale]
  consider (empty) "?cands = []" | (broken) "?cands \<noteq> []" "ledger_broken row ledger"
    | (ok) live where "?cands \<noteq> []" "live_dofollow_platforms row ledger = Inr live" "countable live" "\<not> ledger_broken row ledger"
    using ledger_broken_live[of row ledger] by (auto split: sum.splits)
  then show ?thesis
  proof cases
    case empty
    then show ?thesis using run(1) none by auto
  next
    case broken
    then show ?thesis using run(2) none by auto
  next
    case ok
    define worth where "worth = (\<lambda>x. merit env utc strategy stale (covers_of live (ps_name x)) x)"
    obtain best where b: "best \<in> set ?cands"
      "ps_name best = snd (hd (sort_key (\<lambda>(score, name). (- score, name)) (map (\<lambda>sig. (worth sig, ps_name sig)) ?cands)))"
      "\<forall>sig \<in> set ?cands. worth sig < worth best \<or> worth sig = worth best \<and> ps_name best \<le> ps_name sig"
      using best_of[OF ok(1), of worth] by auto
    obtain res where res: "route env utc row signals ledger strategy stale = Inr res" "rt_platform res = Some (ps_name best)"
      using run(3)[OF ok(1-3)] b(2) unfolding worth_def by auto
    have "\<exists>live best'. live_dofollow_platforms row ledger = Inr live \<and> best' \<in> snd ` set signals \<and>
            ps_name best' = ps_name best \<and> eligible (row_language row) best' \<and>
            (\<forall>sig \<in> snd ` set signals. eligible (row_language row) sig \<longrightarrow>
               (let worth = (\<lambda>x. merit env utc strategy stale (covers_of live (ps_name x)) x)
                in worth sig < worth best' \<or> worth sig = worth best' \<and> ps_name best \<le> ps_name sig))"
    proof (intro exI[of _ live] exI[of _ best] conjI ballI impI, goal_cases)
      case (5 sig)
      then have "sig \<in> set ?cands" using mem by blast
      then show ?case using b(3) unfolding Let_def worth_def by blast
    qed (use b(1) ok(2) mem in blast)+
    then show ?thesis using res ok(4) by simp
  qed
qed

definition demo_signal :: "string \<Rightarrow> dofollow \<Rightarrow> pyfloat \<Rightarrow> platform_signal" where
  "demo_signal name d weight =
     \<lparr>ps_name = name, ps_dofollow = Some d, ps_referral = Some ''low'', ps_binding = JStr ''bound'',
      ps_quarantined = False, ps_degraded = False, ps_canary_last_ok_at = JNull, ps_language_whitelist = [],
      ps_visibility = ''active'', ps_dispatch_weight = weight\<rparr>"

theorem route_picks_best_witness:
  "\<exists>best \<in> snd ` set [(''medium'', demo_signal ''medium'' DoFalse 1), (''velog'', demo_signal ''velog'' DoTrue (3 / 5))].
     ps_name best = ''velog'' \<and> eligible (row_language []) best"
proof -
  let ?s = "[(''medium'', demo_signal ''medium'' DoFalse 1), (''velog'', demo_signal ''velog'' DoTrue (3 / 5))]"
  have "map_sum id rt_platform (route env0 (\<lambda>s. None) [] ?s None ''balanced'' None) = Inr (Some ''velog'')"
    by code_simp
  then obtain res where "route env0 (\<lambda>s. None) [] ?s None ''balanced'' None = Inr res" "rt_platform res = Some ''velog''"
    by (cases "route env0 (\<lambda>s. None) [] ?s None ''balanced'' None") auto
  then show ?thesis
    using route_picks_best[of env0 "\<lambda>s. None" "[]" ?s None "''balanced''" None, THEN conjunct2, rule_format, of res] by auto
qed

text \<open>Rows of one run are not spread: the score knows the equity ledger, which does not change during
  the run, and not what the run has assigned so far. Two rows of the same language and with the
  same coverage of their targets, in particular any two when no ledger is given, get the same
  platform.\<close>

theorem no_spread_within_a_run:
  assumes "row_language row1 = row_language row2"
    and "ledger = None \<or> live_dofollow_platforms row1 ledger = live_dofollow_platforms row2 ledger"
  shows "map_sum id rt_platform (route env utc row1 signals ledger strategy stale) =
    map_sum id rt_platform (route env utc row2 signals ledger strategy stale)"
proof -
  have "live_dofollow_platforms row1 ledger = live_dofollow_platforms row2 ledger"
    using assms(2) by (auto simp: live_dofollow_platforms_def Let_def)
  then have "route env utc row1 signals ledger strategy stale = route env utc row2 signals ledger strategy stale"
    using assms(1) unfolding row_language_def route_def Let_def by (simp split: prod.split)
  then show ?thesis by simp
qed

theorem no_spread_within_a_run_witness:
  "map_sum id rt_platform (route env0 (\<lambda>s. None) [(''target_url'', JStr ''https://a.b/'')]
       [(''velog'', demo_signal ''velog'' DoTrue 1), (''devto'', demo_signal ''devto'' DoTrue 1)] None ''spread'' None) =
   map_sum id rt_platform (route env0 (\<lambda>s. None) [(''target_url'', JStr ''https://c.d/'')]
       [(''velog'', demo_signal ''velog'' DoTrue 1), (''devto'', demo_signal ''devto'' DoTrue 1)] None ''spread'' None)"
  by (rule no_spread_within_a_run) (simp_all add: row_language_def jget_def dget_or_def)

text \<open>A platform pinned to weight zero is still chosen when nothing else is eligible, whatever the
  registry says about a zero excluding it from routing.\<close>

lemma zero_weight_is_routed:
  "\<exists>res. route env0 utc row [(''velog'', demo_signal ''velog'' DoTrue 0)] None strategy stale = Inr res \<and>
     rt_platform res = Some ''velog''"
proof -
  have "eligible l (demo_signal ''velog'' DoTrue 0)" for l by (simp add: eligible_def demo_signal_def)
  then show ?thesis
    using route_run(3)[where row = row and signals = "[(''velog'', demo_signal ''velog'' DoTrue 0)]" and ledger = None
        and live = "JList []" and env = env0 and utc = utc and strategy = strategy and stale = stale]
    by (simp add: live_dofollow_platforms_def countable_def demo_signal_def)
qed

end
