(* ===== verification/Leases_Facts.thy ===== *)
theory Leases_Facts
  imports Leases Keyed
begin

text \<open>
  What the leases promise: whoever holds a live, unexpired lease keeps it whatever the others do;
  a run gets all its platforms or keeps none; and where two processes can both believe they hold
  one.
\<close>

section \<open>The lease table as a keyed store\<close>

text \<open>One operation of any process, run on the table as one step.\<close>

datatype lease_op = LAcquire env string int int | LRelease env string int

fun lease_host :: "lease_op \<Rightarrow> string" where
  "lease_host (LAcquire env h p ttl) = h" | "lease_host (LRelease env h p) = h"

fun lease_pid :: "lease_op \<Rightarrow> int" where
  "lease_pid (LAcquire env h p ttl) = p" | "lease_pid (LRelease env h p) = p"

fun lease_env :: "lease_op \<Rightarrow> env" where
  "lease_env (LAcquire env h p ttl) = env" | "lease_env (LRelease env h p) = env"

fun lease_step :: "(pyfloat \<Rightarrow> string) \<Rightarrow> lease_op \<Rightarrow> leases \<Rightarrow> (exn + bool) \<times> leases" where
  "lease_step isofmt (LAcquire env h p ttl) t = acquire_body env isofmt h p ttl t"
| "lease_step isofmt (LRelease env h p) t = (Inr False, snd (release_body h p t))"

text \<open>The row a step leaves, from the row it finds.\<close>

fun lease_effect :: "(pyfloat \<Rightarrow> string) \<Rightarrow> lease_op \<Rightarrow> lease option \<Rightarrow> lease option" where
  "lease_effect isofmt (LAcquire env h p ttl) row =
     (case row of
        None \<Rightarrow> Some (new_lease env isofmt p ttl)
      | Some l \<Rightarrow>
          if le_expire_at l < isofmt (e_now env) \<or> le_owner_pid l = p \<or> \<not> pid_alive env (le_owner_pid l)
          then Some (new_lease env isofmt p ttl) else row)"
| "lease_effect isofmt (LRelease env h p) row =
     (case row of Some l \<Rightarrow> if le_owner_pid l = p then None else row | None \<Rightarrow> None)"

interpretation leases: entry_store "\<lambda>h t. dget t h" "lease_step isofmt" lease_host "lease_effect isofmt" "\<lambda>t. True"
  for isofmt
proof unfold_locales
  fix t :: leases and op
  show "\<exists>r t'. lease_step isofmt op t = (Inr r, t') \<and> True"
    by (cases op) (auto simp: acquire_body_def write_lease_def plan_lease_def split: option.splits)
next
  fix t t' :: leases and op and r :: bool
  assume "lease_step isofmt op t = (Inr r, t')"
  then show "dget t' (lease_host op) = lease_effect isofmt op (dget t (lease_host op))"
    by (cases op) (auto simp: acquire_body_def write_lease_def plan_lease_def release_body_def
        split: option.splits if_splits)
next
  fix t t' :: leases and op and r :: bool and k
  assume "lease_step isofmt op t = (Inr r, t')" "k \<noteq> lease_host op"
  then show "dget t' k = dget t k"
    by (cases op) (auto simp: acquire_body_def write_lease_def plan_lease_def release_body_def
        split: option.splits if_splits)
qed

section \<open>Exclusion\<close>

text \<open>The order of ISO timestamps as strings: weakly that of the times, and strict between seconds.\<close>

definition iso_order :: "(pyfloat \<Rightarrow> string) \<Rightarrow> bool" where
  "iso_order isofmt \<longleftrightarrow> (\<forall>x y. 0 \<le> x \<longrightarrow> x \<le> y \<longrightarrow> isofmt x \<le> isofmt y) \<and>
     (\<forall>x y. 0 \<le> x \<longrightarrow> \<lfloor>x\<rfloor> < \<lfloor>y\<rfloor> \<longrightarrow> isofmt x < isofmt y)"

text \<open>An operation of another process, at a time up to \<open>deadline\<close> and while the owner is alive.\<close>

definition shielded :: "int \<Rightarrow> pyfloat \<Rightarrow> lease_op \<Rightarrow> bool" where
  "shielded p deadline op \<longleftrightarrow> lease_pid op \<noteq> p \<and> pid_alive (lease_env op) p \<and>
     0 \<le> e_now (lease_env op) \<and> e_now (lease_env op) \<le> deadline"

lemma shielded_effect:
  assumes "iso_order isofmt" "le_expire_at l = isofmt deadline" "shielded (le_owner_pid l) deadline op"
  shows "lease_effect isofmt op (Some l) = Some l"
proof -
  have "\<not> isofmt deadline < isofmt (e_now (lease_env op))"
    using assms(1,3) by (simp add: iso_order_def shielded_def leD)
  then show ?thesis using assms(2,3) by (cases op) (auto simp: shielded_def)
qed

lemma shielded_fold:
  assumes "iso_order isofmt" "le_expire_at l = isofmt deadline" "\<forall>op \<in> set ops. shielded (le_owner_pid l) deadline op"
  shows "fold (lease_effect isofmt) ops (Some l) = Some l"
  using assms(3) by (induction ops) (auto simp: shielded_effect[OF assms(1,2)])

lemma granted_row:
  "acquire_body env isofmt h p ttl t = (Inr True, t1) \<Longrightarrow> dget t1 h = Some (new_lease env isofmt p ttl)"
  by (auto simp: acquire_body_def write_lease_def plan_lease_def split: option.splits if_splits)

lemma refused_while_held:
  assumes "iso_order isofmt" "dget t h = Some l" "le_expire_at l = isofmt deadline"
    "shielded (le_owner_pid l) deadline (LAcquire env h q ttl)"
  shows "acquire_body env isofmt h q ttl t = (Inr False, t)"
proof -
  have "\<not> isofmt deadline < isofmt (e_now env)"
    using assms(1,4) by (simp add: iso_order_def shielded_def leD)
  then show ?thesis using assms(2-4) by (auto simp: acquire_body_def write_lease_def plan_lease_def shielded_def)
qed

text \<open>C14. A granted lease excludes: until it expires, and as long as its owner is alive, no sequence of
  acquisitions and releases by other processes, on this platform and on others, takes the row
  away, and every other process that asks for it is refused. Each acquisition is taken as one step.\<close>

theorem lease_excludes:
  assumes "iso_order isofmt"
    and granted: "acquire_body env isofmt h p ttl t = (Inr True, t1)"
    and others: "\<forall>op \<in> set ops. lease_host op = h \<longrightarrow> shielded p (e_now env + of_int ttl) op"
  shows "dget (leases.run isofmt ops t1) h = Some (new_lease env isofmt p ttl) \<and>
    (\<forall>ops1 env' q ttl' ops2. ops = ops1 @ LAcquire env' h q ttl' # ops2 \<longrightarrow>
       fst (acquire_body env' isofmt h q ttl' (leases.run isofmt ops1 t1)) = Inr False)"
proof -
  let ?l = "new_lease env isofmt p ttl" and ?d = "e_now env + of_int ttl"
  have l: "le_owner_pid ?l = p" "le_expire_at ?l = isofmt ?d" by (simp_all add: new_lease_def)
  have held: "dget (leases.run isofmt as t1) h = Some ?l" if "set as \<subseteq> set ops" for as
    unfolding leases.run_entry[OF TrueI] granted_row[OF granted]
    using shielded_fold[OF assms(1) l(2), of "filter (\<lambda>op. lease_host op = h) as"] others that l(1) by auto
  show ?thesis
  proof (intro conjI allI impI)
    fix ops1 env' q ttl' ops2
    assume ops: "ops = ops1 @ LAcquire env' h q ttl' # ops2"
    then have "shielded p ?d (LAcquire env' h q ttl')" "set ops1 \<subseteq> set ops" using others by auto
    then show "fst (acquire_body env' isofmt h q ttl' (leases.run isofmt ops1 t1)) = Inr False"
      using refused_while_held[OF assms(1) held l(2), of ops1 env' q ttl'] l(1) by simp
    qed (rule held, simp)
qed

text \<open>A clock whose timestamps are tallies of seconds has the order.\<close>

definition tally :: "pyfloat \<Rightarrow> string" where
  "tally x = replicate (nat \<lfloor>x\<rfloor>) CHR ''1''"

lemma replicate_less: "m < n \<Longrightarrow> replicate m (c::char) < replicate n c"
proof (induction m arbitrary: n)
  case 0
  then show ?case by (cases n) simp_all
next
  case (Suc m)
  then show ?case by (cases n) simp_all
qed

lemma iso_order_tally: "iso_order tally"
proof -
  have le: "tally x \<le> tally y" if "0 \<le> x" "x \<le> y" for x y
  proof (cases "nat \<lfloor>x\<rfloor> = nat \<lfloor>y\<rfloor>")
    case False
    then have "nat \<lfloor>x\<rfloor> < nat \<lfloor>y\<rfloor>" using that floor_mono[of x y] by linarith
    then show ?thesis by (simp add: tally_def replicate_less order_less_imp_le)
  qed (simp add: tally_def)
  have "tally x < tally y" if "0 \<le> x" "\<lfloor>x\<rfloor> < \<lfloor>y\<rfloor>" for x y
  proof -
    have "nat \<lfloor>x\<rfloor> < nat \<lfloor>y\<rfloor>" using that(2) zero_le_floor[of x] that(1) by linarith
    then show ?thesis by (simp add: tally_def replicate_less)
  qed
  then show ?thesis using le by (simp add: iso_order_def)
qed

theorem lease_excludes_witness:
  "fst (acquire_body (env0\<lparr>e_now := 2000\<rparr>) tally ''velog'' 7 3600
     (snd (acquire_body env0 tally ''velog'' 42 3600 []))) = Inr False"
proof -
  let ?t = "snd (acquire_body env0 tally ''velog'' 42 3600 [])"
  let ?op = "LAcquire (env0\<lparr>e_now := 2000\<rparr>) ''velog'' 7 3600"
  have g: "acquire_body env0 tally ''velog'' 42 3600 [] = (Inr True, ?t)"
    by (simp add: acquire_body_def plan_lease_def write_lease_def)
  have "shielded 42 (e_now env0 + of_int 3600) ?op" by (simp add: shielded_def env0_def pid_alive_def)
  then have "\<forall>op \<in> set [?op]. lease_host op = ''velog'' \<longrightarrow> shielded 42 (e_now env0 + of_int 3600) op" by simp
  from conjunct2[OF lease_excludes[OF iso_order_tally g this], rule_format, of "[]" _ 7 3600 "[]"]
  show ?thesis by simp
qed

text \<open>The lock is not atomic: two processes that both read the lease of a dead owner both take it
  over, the second write overwrites the first, and both are told they hold the platform.\<close>

theorem lease_takeover_race:
  assumes "dget t h = Some l" "\<not> pid_alive envA (le_owner_pid l)" "\<not> pid_alive envB (le_owner_pid l)"
    "acquire_body envB isofmt h q ttl t = (rB, tB)"
    "write_lease h (new_lease envA isofmt p ttl) (plan_lease envA isofmt h p t) tB = (rA, tA)"
  shows "rB = Inr True \<and> rA = Inr True \<and> dget tB h = Some (new_lease envB isofmt q ttl) \<and>
    dget tA h = Some (new_lease envA isofmt p ttl)"
  using assms by (auto simp: acquire_body_def plan_lease_def write_lease_def split: if_splits)

theorem lease_takeover_race_witness:
  "let t = [(''velog'', \<lparr>le_owner_pid = 9, le_started_at = ''1'', le_expire_at = ''2''\<rparr>)];
       (rB, tB) = acquire_body env0 tally ''velog'' 7 3600 t;
       (rA, tA) = write_lease ''velog'' (new_lease env0 tally 42 3600) (plan_lease env0 tally ''velog'' 42 t) tB
   in rB = Inr True \<and> rA = Inr True"
proof -
  let ?l = "\<lparr>le_owner_pid = 9, le_started_at = ''1'', le_expire_at = ''2''\<rparr>"
  have "\<not> pid_alive env0 (le_owner_pid ?l)" by (simp add: pid_alive_def env0_def)
  note race = lease_takeover_race[of "[(''velog'', ?l)]" "''velog''" ?l, OF _ this this]
  obtain rB tB where B: "acquire_body env0 tally ''velog'' 7 3600 [(''velog'', ?l)] = (rB, tB)" by fastforce
  obtain rA tA where A: "write_lease ''velog'' (new_lease env0 tally 42 3600)
      (plan_lease env0 tally ''velog'' 42 [(''velog'', ?l)]) tB = (rA, tA)" by fastforce
  show ?thesis using race[OF _ B A] A B by (simp add: Let_def)
qed

text \<open>Without an old row the second of them meets the primary key, and the error is not retried.\<close>

lemma lease_insert_race:
  assumes "dget t h = None"
  shows "fst (write_lease h row (plan_lease envA isofmt h p t) (snd (acquire_body envB isofmt h q ttl t))) =
    Inl (mkexn SqliteIntegrity ''UNIQUE constraint failed: publish_leases.target_host'')"
  using assms by (simp add: acquire_body_def plan_lease_def write_lease_def)

section \<open>The leases of a run\<close>

definition owned :: "int \<Rightarrow> leases \<Rightarrow> string \<Rightarrow> bool" where
  "owned pid t h \<longleftrightarrow> (\<exists>l. dget t h = Some l \<and> le_owner_pid l = pid)"

lemma release_leases_run:
  assumes "db_faults d = []"
  shows "\<exists>t. release_leases hs pid d = (Inr (), \<lparr>db_rows = t, db_faults = []\<rparr>) \<and>
    (\<forall>h. dget t h = (if h \<in> set hs \<and> owned pid (db_rows d) h then None else dget (db_rows d) h))"
  using assms
proof (induction hs arbitrary: d)
  case Nil
  then show ?case by (intro exI[of _ "db_rows d"]) (simp add: retS_def)
next
  case (Cons h hs)
  let ?d = "\<lparr>db_rows = snd (release_body h pid (db_rows d)), db_faults = []\<rparr>"
  have "release_lease h pid d = (Inr (), ?d)"
    unfolding release_lease_def by (rule run_op_no_fault) (use Cons.prems in \<open>simp_all add: release_body_def\<close>)
  then have "release_leases (h # hs) pid d = release_leases hs pid ?d"
    by (simp add: bindS_def catchS_def)
  moreover obtain t where "release_leases hs pid ?d = (Inr (), \<lparr>db_rows = t, db_faults = []\<rparr>)"
    "\<forall>h'. dget t h' = (if h' \<in> set hs \<and> owned pid (db_rows ?d) h' then None else dget (db_rows ?d) h')"
    using Cons.IH[of ?d] by auto
  ultimately show ?case
    by (intro exI[of _ t]) (auto simp: release_body_def owned_def split: option.splits if_splits)
qed

lemma acquire_lease_run:
  assumes "db_faults d = []"
  shows "\<exists>ok t. acquire_lease env isofmt h p ttl d = (Inr ok, \<lparr>db_rows = t, db_faults = []\<rparr>) \<and>
    (if ok then dget t h = Some (new_lease env isofmt p ttl) \<and> (\<forall>k. k \<noteq> h \<longrightarrow> dget t k = dget (db_rows d) k)
     else t = db_rows d \<and> (\<exists>l. dget t h = Some l \<and> le_owner_pid l \<noteq> p))"
proof -
  obtain r t where rt: "acquire_body env isofmt h p ttl (db_rows d) = (r, t)" by fastforce
  then obtain ok where ok: "r = Inr ok"
    by (auto simp: acquire_body_def write_lease_def plan_lease_def split: option.splits if_splits)
  then have "acquire_lease env isofmt h p ttl d = (Inr ok, \<lparr>db_rows = t, db_faults = []\<rparr>)"
    using run_op_no_fault[where body = "acquire_body env isofmt h p ttl"] assms rt by (simp add: acquire_lease_def)
  moreover have "if ok then dget t h = Some (new_lease env isofmt p ttl) \<and> (\<forall>k. k \<noteq> h \<longrightarrow> dget t k = dget (db_rows d) k)
     else t = db_rows d \<and> (\<exists>l. dget t h = Some l \<and> le_owner_pid l \<noteq> p)"
    using rt ok by (auto simp: acquire_body_def write_lease_def plan_lease_def split: option.splits if_splits)
  ultimately show ?thesis by blast
qed

lemma get_lease_run:
  "db_faults d = [] \<Longrightarrow> get_lease h d = (Inr (dget (db_rows d) h), d)"
  unfolding get_lease_def using run_op_no_fault[where body = "\<lambda>t. (Inr (dget t h), t)" and d = d] by simp

text \<open>The loops, with what they have taken so far; \<open>lookup_first\<close> tells the two apart.\<close>

definition contended :: "bool \<Rightarrow> int \<Rightarrow> string list \<Rightarrow> string \<Rightarrow> ((string \<times> lease option) option) lact" where
  "contended lookup_first pid acquired h =
     (if lookup_first
      then bindS (get_lease h) (\<lambda>details. bindS (release_leases acquired pid) (\<lambda>u. retS (Some (h, details))))
      else bindS (release_leases acquired pid) (\<lambda>u. bindS (get_lease h) (\<lambda>details. retS (Some (h, details)))))"

lemma contended_run:
  assumes "db_faults d = []" "h \<notin> set acquired"
  shows "\<exists>t. contended b pid acquired h d = (Inr (Some (h, dget (db_rows d) h)), \<lparr>db_rows = t, db_faults = []\<rparr>) \<and>
    snd (contended b pid acquired h d) = snd (release_leases acquired pid d) \<and>
    (\<forall>k. dget t k = (if k \<in> set acquired \<and> owned pid (db_rows d) k then None else dget (db_rows d) k))"
proof -
  obtain t where t: "release_leases acquired pid d = (Inr (), \<lparr>db_rows = t, db_faults = []\<rparr>)"
    "\<forall>k. dget t k = (if k \<in> set acquired \<and> owned pid (db_rows d) k then None else dget (db_rows d) k)"
    using release_leases_run[OF assms(1)] by blast
  have "get_lease h \<lparr>db_rows = t, db_faults = []\<rparr> = (Inr (dget (db_rows d) h), \<lparr>db_rows = t, db_faults = []\<rparr>)"
    using t(2) assms(2) by (subst get_lease_run) simp_all
  then have "contended b pid acquired h d = (Inr (Some (h, dget (db_rows d) h)), \<lparr>db_rows = t, db_faults = []\<rparr>)"
    by (simp add: contended_def bindS_step[where m = "get_lease h", OF get_lease_run[OF assms(1)]]
        bindS_step[where m = "release_leases acquired pid", OF t(1)] bindS_step[where m = "get_lease h"] retS_def)
  then show ?thesis using t by auto
qed

lemma loop_steps:
  "acquire_loop env isofmt (h # hs) acquired =
     bindS (acquire_lease env isofmt h (e_pid env) 3600) (\<lambda>ok.
       if ok then acquire_loop env isofmt hs (acquired @ [h]) else contended False (e_pid env) acquired h)"
  "guard_loop env isofmt (h # hs) acquired =
     bindS (acquire_lease env isofmt h (e_pid env) 3600) (\<lambda>ok.
       if ok then guard_loop env isofmt hs (acquired @ [h]) else contended True (e_pid env) acquired h)"
  by (simp_all add: contended_def cong: if_cong)

lemma guard_loop_eq:
  assumes "db_faults d = []" "distinct (acquired @ hs)"
  shows "guard_loop env isofmt hs acquired d = acquire_loop env isofmt hs acquired d"
  using assms
proof (induction hs arbitrary: acquired d)
  case (Cons h hs)
  obtain ok t where t: "acquire_lease env isofmt h (e_pid env) 3600 d = (Inr ok, \<lparr>db_rows = t, db_faults = []\<rparr>)"
    using acquire_lease_run[OF Cons.prems(1)] by blast
  let ?d = "\<lparr>db_rows = t, db_faults = []\<rparr>"
  have "contended True (e_pid env) acquired h ?d = contended False (e_pid env) acquired h ?d"
    using contended_run[of ?d h acquired True "e_pid env"] contended_run[of ?d h acquired False "e_pid env"] Cons.prems(2)
    by (auto simp: prod_eq_iff)
  then show ?case
    using Cons.IH[of ?d "acquired @ [h]"] Cons.prems(2) by (simp only: loop_steps bindS_step[where m = "acquire_lease _ _ _ _ _", OF t]) simp
qed simp

lemma acquire_loop_run:
  assumes "db_faults d = []" "distinct (acquired @ hs)" "\<forall>h. owned (e_pid env) (db_rows d) h \<longleftrightarrow> h \<in> set acquired"
  shows "\<exists>r t. acquire_loop env isofmt hs acquired d = (Inr r, \<lparr>db_rows = t, db_faults = []\<rparr>) \<and>
    (case r of
       None \<Rightarrow> \<forall>h. owned (e_pid env) t h \<longleftrightarrow> h \<in> set acquired \<union> set hs
     | Some (h, x) \<Rightarrow> h \<in> set hs \<and> (\<exists>l. x = Some l \<and> dget t h = Some l \<and> le_owner_pid l \<noteq> e_pid env) \<and>
                     (\<forall>h'. \<not> owned (e_pid env) t h'))"
  using assms
proof (induction hs arbitrary: acquired d)
  case Nil
  then show ?case by (intro exI[of _ None] exI[of _ "db_rows d"]) (simp add: retS_def)
next
  case (Cons h hs)
  obtain ok t where t: "acquire_lease env isofmt h (e_pid env) 3600 d = (Inr ok, \<lparr>db_rows = t, db_faults = []\<rparr>)"
    "if ok then dget t h = Some (new_lease env isofmt (e_pid env) 3600) \<and> (\<forall>k. k \<noteq> h \<longrightarrow> dget t k = dget (db_rows d) k)
     else t = db_rows d \<and> (\<exists>l. dget t h = Some l \<and> le_owner_pid l \<noteq> e_pid env)"
    using acquire_lease_run[OF Cons.prems(1)] by blast
  let ?d = "\<lparr>db_rows = t, db_faults = []\<rparr>"
  note step = loop_steps(1)[of env isofmt h hs acquired, THEN fun_cong, of d, unfolded bindS_step[where m = "acquire_lease _ _ _ _ _", OF t(1)]]
  show ?case
  proof (cases ok)
    case True
    have "\<forall>k. owned (e_pid env) (db_rows ?d) k \<longleftrightarrow> k \<in> set (acquired @ [h])"
    proof
      fix k
      show "owned (e_pid env) (db_rows ?d) k \<longleftrightarrow> k \<in> set (acquired @ [h])"
        using t(2) True Cons.prems(3)[rule_format, of k]
        by (cases "k = h") (simp_all add: owned_def new_lease_def)
    qed
    from Cons.IH[of ?d "acquired @ [h]", OF _ _ this] Cons.prems(2) step True
    obtain r t' where r: "acquire_loop env isofmt (h # hs) acquired d = (Inr r, \<lparr>db_rows = t', db_faults = []\<rparr>)"
      "case r of
         None \<Rightarrow> \<forall>k. owned (e_pid env) t' k \<longleftrightarrow> k \<in> set (acquired @ [h]) \<union> set hs
       | Some (h', x) \<Rightarrow> h' \<in> set hs \<and> (\<exists>l. x = Some l \<and> dget t' h' = Some l \<and> le_owner_pid l \<noteq> e_pid env) \<and>
                     (\<forall>k. \<not> owned (e_pid env) t' k)"
      by auto
    then show ?thesis by (intro exI[of _ r] exI[of _ t']) (auto split: option.splits)
  next
    case False
    then obtain l where l: "t = db_rows d" "dget t h = Some l" "le_owner_pid l \<noteq> e_pid env" using t(2) by auto
    obtain t' where t': "contended False (e_pid env) acquired h ?d = (Inr (Some (h, Some l)), \<lparr>db_rows = t', db_faults = []\<rparr>)"
      "\<forall>k. dget t' k = (if k \<in> set acquired \<and> owned (e_pid env) t k then None else dget t k)"
      using contended_run[of ?d h acquired False "e_pid env"] Cons.prems(2) l(2) by auto
    have "\<not> owned (e_pid env) t' k" for k
      using t'(2) Cons.prems(3) l(1) by (auto simp: owned_def)
    moreover have "h \<notin> set acquired" using Cons.prems(2) by simp
    ultimately show ?thesis
      using step False t' l(2,3) by (intro exI[of _ "Some (h, Some l)"] exI[of _ t']) simp
  qed
qed

text \<open>The leases of a run are taken all or none: with the database answering, either this process
  afterwards owns exactly the platforms it asked for, or it owns none at all and is told of one of
  them whose lease belongs to another process. (It owned none before.)\<close>

theorem leases_all_or_nothing:
  assumes "db_faults d = []" "\<forall>h. \<not> owned (e_pid env) (db_rows d) h"
    "acquire_publish_leases env isofmt platforms d = (r, d')"
  shows "r = Inr None \<and> (\<forall>h. owned (e_pid env) (db_rows d') h \<longleftrightarrow> h \<in> set platforms) \<or>
    (\<exists>h l. r = Inr (Some (h, Some l)) \<and> h \<in> set platforms \<and> dget (db_rows d') h = Some l \<and>
       le_owner_pid l \<noteq> e_pid env \<and> (\<forall>h'. \<not> owned (e_pid env) (db_rows d') h'))"
proof -
  have "distinct ([] @ sort (remdups platforms))" "\<forall>h. owned (e_pid env) (db_rows d) h \<longleftrightarrow> h \<in> set []"
    using assms(2) by simp_all
  note outcome = acquire_loop_run[OF assms(1) this, of isofmt]
  obtain x t where x: "acquire_loop env isofmt (sort (remdups platforms)) [] d = (Inr x, \<lparr>db_rows = t, db_faults = []\<rparr>)"
    using outcome by blast
  then have "r = Inr x" "db_rows d' = t" using assms(3) by (auto simp: acquire_publish_leases_def)
  then show ?thesis using outcome x by (cases x) (auto split: prod.splits)
qed

theorem leases_all_or_nothing_witness:
  "let (r, d') = acquire_publish_leases env0 tally [''velog'', ''devto''] \<lparr>db_rows = [], db_faults = []\<rparr>
   in r = Inr None \<longrightarrow> owned 42 (db_rows d') ''devto''"
proof -
  let ?d = "\<lparr>db_rows = [], db_faults = []\<rparr> :: leases db"
  obtain r d' where run: "acquire_publish_leases env0 tally [''velog'', ''devto''] ?d = (r, d')" by fastforce
  have "\<forall>h. \<not> owned (e_pid env0) (db_rows ?d) h" by (simp add: owned_def)
  from leases_all_or_nothing[OF _ this run] show ?thesis using run by (auto simp: env0_def)
qed

text \<open>The runtime's guard and the command take leases alike: with the database answering, same
  result and same table for the non-empty platforms.\<close>

theorem guard_agrees_with_command:
  assumes "db_faults d = []"
  shows "guard_acquire env isofmt platforms d = acquire_publish_leases env isofmt (filter (\<lambda>p. p \<noteq> []) platforms) d"
  by (simp add: guard_acquire_def acquire_publish_leases_def guard_platforms_def guard_loop_eq[OF assms])

theorem guard_agrees_with_command_witness:
  "guard_acquire env0 tally [''velog'', '''', ''devto''] \<lparr>db_rows = [], db_faults = []\<rparr> =
   acquire_publish_leases env0 tally [''velog'', ''devto''] \<lparr>db_rows = [], db_faults = []\<rparr>"
  using guard_agrees_with_command[of "\<lparr>db_rows = [], db_faults = []\<rparr>" env0 tally "[''velog'', '''', ''devto'']"] by simp

end
