(* ===== verification/Publish.thy ===== *)
theory Publish
  imports Resume Dispatch
begin

text \<open>
  The fresh publish loop: its state and the handling of one row
  (\<open>cli/publish_backlinks/_engine.py\<close>), and the helpers it shares with the command
  (\<open>cli/_publish_helpers.py\<close>). Exceptions that leave a row lose the loop's state, as in the code.
  Log lines, timings and the banner events are left out; messages are abbreviated to their fixed
  text; ids and platforms are strings, as in \<open>Resume\<close>.
\<close>

section \<open>Options and state\<close>

record publish_options =
  po_platform :: "string option"
  po_mode :: "string option"
  po_dry_run :: bool
  po_skip_publish_time_check :: bool
  po_no_verify :: bool
  po_reason :: "string option"
  po_throttle_min :: int
  po_throttle_max :: int

record publish_state =
  ps_outputs :: "jdict list"
  ps_success_count :: nat
  ps_fail_count :: nat
  ps_skipped_unreachable_count :: nat
  ps_skipped_quarantined_count :: nat
  ps_publish_path_drift_count :: nat
  ps_dedup_skip_count :: nat
  ps_dedup_hold_count :: nat
  ps_last_medium_success_idx :: int
  ps_run_id :: "string option"
  ps_canary_warned :: "string list"
  ps_auth_aborted :: bool
  ps_auth_error :: "string option"
  ps_auth_error_class :: "string option"
  ps_dependency_aborted :: bool
  ps_dependency_error :: "string option"
  ps_conflict_aborted :: bool
  ps_conflict_error :: "string option"

definition new_publish_state :: "string option \<Rightarrow> publish_state" where
  "new_publish_state run_id =
     \<lparr>ps_outputs = [], ps_success_count = 0, ps_fail_count = 0, ps_skipped_unreachable_count = 0,
      ps_skipped_quarantined_count = 0, ps_publish_path_drift_count = 0, ps_dedup_skip_count = 0,
      ps_dedup_hold_count = 0, ps_last_medium_success_idx = - 1, ps_run_id = run_id,
      ps_canary_warned = [], ps_auth_aborted = False, ps_auth_error = None, ps_auth_error_class = None,
      ps_dependency_aborted = False, ps_dependency_error = None, ps_conflict_aborted = False,
      ps_conflict_error = None\<rparr>"

text \<open>
  What the loop is given from outside: the adapters (mode, payload), the page verification, the
  reachability check of a URL at a row and the order in which concurrent checks complete, the
  revisions of the credential files at the start and at a row, the channel-status flip, the
  supported platforms, the canary configuration, the id \<open>generate_run_id()\<close> draws, the start time,
  and the keys forced by a manifest.
\<close>

record publish_ctx =
  px_env :: env
  px_publish :: "string \<Rightarrow> jdict \<Rightarrow> exn + adapter_result"
  px_verify_published :: "string \<Rightarrow> json \<Rightarrow> json list \<Rightarrow> int \<Rightarrow> bool \<times> string"
  px_check_url :: "nat \<Rightarrow> json \<Rightarrow> exn + bool"
  px_completed :: "json list \<Rightarrow> json list"
  px_initial_revs :: "(string, int) dict"
  px_token_revs :: "nat \<Rightarrow> (string, int) dict"
  px_mark_expired :: "string \<Rightarrow> exn + unit"
  px_supported :: "string list"
  px_canary_config :: json_file
  px_run_id :: string
  px_ts :: string
  px_forced_keys :: "dkey list"

text \<open>\<open>args.platform or row.get("platform", "")\<close>, and the mode.\<close>

definition row_platform :: "string option \<Rightarrow> jdict \<Rightarrow> string" where
  "row_platform arg row =
     (case arg of Some (c # cs) \<Rightarrow> c # cs | _ \<Rightarrow> str_of (jget_or row ''platform'' (JStr [])))"

definition row_mode :: "string option \<Rightarrow> jdict \<Rightarrow> string" where
  "row_mode arg row =
     (case arg of Some (c # cs) \<Rightarrow> c # cs | _ \<Rightarrow> str_of (jget_or row ''publish_mode'' (JStr ''draft'')))"

section \<open>Helpers\<close>

definition build_failure_row ::
  "string \<Rightarrow> jdict \<Rightarrow> string \<Rightarrow> string \<Rightarrow> string \<Rightarrow> string \<Rightarrow> jdict \<Rightarrow> jdict" where
  "build_failure_row status row platform error ts adapter extra =
     dmerge [(''id'', jget_or row ''id'' (JStr [])), (''platform'', JStr platform), (''status'', JStr status),
             (''title'', jget_or row ''title'' (JStr [])), (''draft_url'', JStr []), (''published_url'', JStr []),
             (''created_at'', JStr ts), (''adapter'', JStr adapter), (''error'', JStr error)] extra"

definition build_skip_row :: "jdict \<Rightarrow> string \<Rightarrow> string option \<Rightarrow> string \<Rightarrow> jdict" where
  "build_skip_row row platform live_url ts =
     [(''id'', jget_or row ''id'' (JStr [])), (''platform'', JStr platform), (''status'', JStr ''skipped_duplicate''),
      (''title'', jget_or row ''title'' (JStr [])), (''draft_url'', JStr []),
      (''published_url'', JStr (case live_url of None \<Rightarrow> [] | Some u \<Rightarrow> u)),
      (''created_at'', JStr ts), (''adapter'', JStr platform), (''error'', JNull), (''_dedup_verdict'', JStr ''skip'')]"

text \<open>A checkpoint that cannot be written is given up for the rest of the run.\<close>

definition try_update_ckpt_failed ::
  "env \<Rightarrow> string option \<Rightarrow> string \<Rightarrow> string \<Rightarrow> string \<Rightarrow> (string option) ract" where
  "try_update_ckpt_failed env run_id row_id error error_class =
     (case run_id of
        None \<Rightarrow> retS None
      | Some r \<Rightarrow>
          catchS [ExceptionClass]
            (bindS (on_ckpt (update_item env r row_id ''failed''
                      [(''error'', JStr error), (''error_class'', JStr error_class)])) (\<lambda>u. retS (Some r)))
            (\<lambda>e. bindS (warn ''[WARN] checkpoint update failed'') (\<lambda>u. retS None)))"

definition row_id :: "jdict \<Rightarrow> string" where
  "row_id row = str_of (jget_or row ''id'' (JStr []))"

definition record_publish_failure ::
  "publish_ctx \<Rightarrow> jdict \<Rightarrow> string \<Rightarrow> publish_state \<Rightarrow> string \<Rightarrow> string \<Rightarrow> publish_state ract" where
  "record_publish_failure ctx row platform st err_class err_msg =
     bindS (try_update_ckpt_failed (px_env ctx) (ps_run_id st) (row_id row) err_msg err_class) (\<lambda>new_run_id.
     bindS (on_dedup (record_failure (px_env ctx) row platform (Some err_class) (ps_run_id st))) (\<lambda>u.
       retS (st\<lparr>ps_outputs := ps_outputs st @ [build_failure_row ''failed'' row platform err_msg (px_ts ctx) platform []],
                ps_run_id := new_run_id\<rparr>)))"

text \<open>Before a Medium row that directly follows a published one.\<close>

definition medium_throttle_sleep :: "nat \<Rightarrow> int \<Rightarrow> string \<Rightarrow> bool \<Rightarrow> unit ract" where
  "medium_throttle_sleep row_idx last_success_idx platform dry_run w =
     (Inr (), if dry_run \<or> row_idx = 0 \<or> last_success_idx \<noteq> int row_idx - 1 \<or> platform \<noteq> ''medium'' then w
              else w\<lparr>rw_sleeps := rw_sleeps w @ [''next Medium post'']\<rparr>)"

text \<open>The links of a row are iterated: any iterable whose elements are not dicts gives no URL.\<close>

definition row_links :: "jdict \<Rightarrow> exn + json list" where
  "row_links row =
     (case jget_or row ''links'' (JList []) of
        JList xs \<Rightarrow> Inr xs
      | JStr s \<Rightarrow> Inr []
      | JDict d \<Rightarrow> Inr []
      | _ \<Rightarrow> Inl (mkexn TypeErr ''object is not iterable''))"

fun link_urls :: "json list \<Rightarrow> json list" where
  "link_urls [] = []"
| "link_urls (JDict d # ls) = jget d ''url'' # link_urls ls"
| "link_urls (l # ls) = link_urls ls"

definition row_urls :: "jdict \<Rightarrow> exn + json list" where
  "row_urls row =
     bindR (row_links row) (\<lambda>ls. Inr (filter truthy (jget_or row ''target_url'' (JStr []) # link_urls ls)))"

text \<open>The futures as they complete: the first failure ends the wait.\<close>

fun first_failure :: "(json \<Rightarrow> exn + bool) \<Rightarrow> json list \<Rightarrow> exn + json option" where
  "first_failure check [] = Inr None"
| "first_failure check (u # us) =
     (case check u of
        Inr True \<Rightarrow> first_failure check us
      | Inr False \<Rightarrow> Inr (Some u)
      | Inl e \<Rightarrow>
          if list_ex (isinst e) [OtherError ''ConnectionError'', OtherError ''TimeoutError'', ValueErr]
          then Inr (Some u) else Inl e)"

text \<open>The failing URL, if there is one; a single URL is checked in line.\<close>

definition check_row_reachability ::
  "(json \<Rightarrow> exn + bool) \<Rightarrow> (json list \<Rightarrow> json list) \<Rightarrow> jdict \<Rightarrow> exn + json option" where
  "check_row_reachability check_url completed row =
     bindR (row_urls row) (\<lambda>urls.
       case urls of
         [] \<Rightarrow> Inr None
       | [u] \<Rightarrow> bindR (check_url u) (\<lambda>ok. Inr (if ok then None else Some u))
       | _ \<Rightarrow> first_failure check_url (completed urls))"

section \<open>Before the dispatch\<close>

datatype row_signal = RowContinue | AuthAbort | DepAbort | ConflictAbort

text \<open>The target of the progress line; only a string can be split.\<close>

definition recon_target :: "jdict \<Rightarrow> exn + unit" where
  "recon_target row =
     (let t = jget_or row ''target_url'' (jget_or row ''main_domain'' (JStr [])) in
      if \<not> truthy t then Inr () else case t of JStr s \<Rightarrow> Inr () | _ \<Rightarrow> Inl (mkexn AttributeErr ''split''))"

definition unreachable_row :: "publish_ctx \<Rightarrow> jdict \<Rightarrow> string \<Rightarrow> json \<Rightarrow> jdict" where
  "unreachable_row ctx row platform failing_url =
     build_failure_row ''skipped_unreachable'' row platform
       (''target unreachable at publish-time: '' @ py_str (px_env ctx) failing_url) (px_ts ctx) []
       [(''failing_url'', failing_url)]"

definition dry_run_row :: "publish_ctx \<Rightarrow> jdict \<Rightarrow> string \<Rightarrow> adapter_result \<Rightarrow> jdict" where
  "dry_run_row ctx row platform result =
     [(''id'', jget_or row ''id'' (JStr [])), (''platform'', JStr platform), (''status'', JStr (ar_status result)),
      (''title'', jget_or row ''title'' (JStr [])), (''draft_url'', JStr (ar_draft_url result)),
      (''published_url'', JStr (ar_published_url result)), (''created_at'', JStr (px_ts ctx)),
      (''adapter'', JStr (ar_adapter result)), (''error'', JNull), (''_dry_run'', JBool True),
      (''_command'', JStr (ar_command result))]"

text \<open>The gates in order: quarantine, reachability, supported platform, dry run, credential drift,
  dedup. The result is the signal that ends the row, or nothing: go on to the dispatch.\<close>

definition dedup_precondition ::
  "publish_ctx \<Rightarrow> publish_options \<Rightarrow> jdict \<Rightarrow> string \<Rightarrow> publish_state \<Rightarrow> (row_signal option \<times> publish_state) ract" where
  "dedup_precondition ctx opts row platform st =
     bindS (on_dedup (gate_with_force (px_env ctx) row platform (ps_run_id st) (Some (px_forced_keys ctx)) (po_reason opts)))
       (\<lambda>(verdict, drec).
       case verdict of
         VConflict \<Rightarrow>
           retS (Some ConflictAbort,
                 st\<lparr>ps_conflict_error := Some (''force-manifest conflict: '' @ platform @ '' key is already published (done)'')\<rparr>)
       | VSkip \<Rightarrow>
           retS (Some RowContinue,
                 st\<lparr>ps_outputs := ps_outputs st @
                      [build_skip_row row platform (case drec of None \<Rightarrow> None | Some r \<Rightarrow> r_live_url r) (px_ts ctx)],
                    ps_dedup_skip_count := ps_dedup_skip_count st + 1\<rparr>)
       | VHold \<Rightarrow> retS (Some RowContinue, st\<lparr>ps_dedup_hold_count := ps_dedup_hold_count st + 1\<rparr>)
       | VDispatch \<Rightarrow> retS (None, st))"

definition check_publish_preconditions ::
  "publish_ctx \<Rightarrow> publish_options \<Rightarrow> nat \<Rightarrow> jdict \<Rightarrow> publish_state \<Rightarrow> (row_signal option \<times> publish_state) ract" where
  "check_publish_preconditions ctx opts row_idx row st =
     (let platform = row_platform (po_platform opts) row; mode = row_mode (po_mode opts) row in
      bindS (medium_throttle_sleep row_idx (ps_last_medium_success_idx st) platform (po_dry_run opts)) (\<lambda>u.
      bindS (liftR (recon_target row)) (\<lambda>u.
      bindS (on_canary (\<lambda>s. (Inr (canary_gate (px_env ctx) platform (ws_file s) (px_canary_config ctx)
                                  (ps_canary_warned st)), s))) (\<lambda>(canary_skip, warned).
      let st = st\<lparr>ps_canary_warned := warned\<rparr> in
      if canary_skip
      then retS (Some RowContinue, st\<lparr>ps_skipped_quarantined_count := ps_skipped_quarantined_count st + 1\<rparr>)
      else
        bindS (if po_dry_run opts \<or> po_skip_publish_time_check opts then retS None
               else liftR (check_row_reachability (px_check_url ctx row_idx) (px_completed ctx) row)) (\<lambda>failing.
        case failing of
          Some url \<Rightarrow>
            retS (Some RowContinue,
                  st\<lparr>ps_outputs := ps_outputs st @ [unreachable_row ctx row platform url],
                     ps_skipped_unreachable_count := ps_skipped_unreachable_count st + 1\<rparr>)
        | None \<Rightarrow>
            if platform \<notin> set (px_supported ctx)
            then retS (Some RowContinue,
                       st\<lparr>ps_outputs := ps_outputs st @ [build_failure_row ''failed'' row platform
                              (''unsupported platform: '' @ platform) (px_ts ctx) platform []],
                          ps_fail_count := ps_fail_count st + 1\<rparr>)
            else if po_dry_run opts
            then bindS (liftR (fst (dispatch [] (dput ''platform'' (JStr platform) row) mode True False))) (\<lambda>result.
                 retS (Some RowContinue,
                       st\<lparr>ps_outputs := ps_outputs st @ [dry_run_row ctx row platform result],
                          ps_success_count := ps_success_count st + 1\<rparr>))
            else if revs_drifted (px_initial_revs ctx) (px_token_revs ctx row_idx)
            then retS (Some DepAbort,
                       st\<lparr>ps_dependency_error := Some ''error: configuration was updated mid-run. Aborting to prevent using revoked credentials.''\<rparr>)
            else dedup_precondition ctx opts row platform st)))))"

section \<open>The dispatch\<close>

text \<open>The \<open>except\<close> arms, in order.\<close>

definition publish_except ::
  "publish_ctx \<Rightarrow> jdict \<Rightarrow> string \<Rightarrow> publish_state \<Rightarrow> exn \<Rightarrow> (row_signal \<times> publish_state) ract" where
  "publish_except ctx row platform st e =
     (let fail = (\<lambda>cls msg.
            bindS (record_publish_failure ctx row platform (st\<lparr>ps_fail_count := ps_fail_count st + 1\<rparr>) cls msg)
              (\<lambda>st'. retS (RowContinue, st'))) in
      if isinst e AuthExpiredError
      then bindS (on_dedup (record_failure (px_env ctx) row platform (Some ''auth_expired'') (ps_run_id st))) (\<lambda>u.
           bindS (mark_expired (px_mark_expired ctx) (exn_channel e)) (\<lambda>u.
           bindS (try_update_ckpt_failed (px_env ctx) (ps_run_id st) (row_id row) (str_exn e) ''auth_expired'') (\<lambda>r.
             retS (AuthAbort, st\<lparr>ps_auth_error := Some (str_exn e),
                                 ps_auth_error_class := Some (exc_name (exn_cls e))\<rparr>))))
      else if isinst e BannerUploadError then fail ''banner_upload'' (''banner upload failed: '' @ str_exn e)
      else if isinst e ContentRejectedError then fail ''content_rejected'' (''content rejected: '' @ str_exn e)
      else if isinst e DependencyError
      then bindS (on_dedup (record_failure (px_env ctx) row platform (Some ''dependency'') (ps_run_id st))) (\<lambda>u.
             retS (DepAbort, st\<lparr>ps_dependency_error := Some (str_exn e)\<rparr>))
      else if isinst e ExternalServiceError
      then fail (error_class_value (classify_exception e)) (''service error: '' @ str_exn e)
      else fail ''unexpected'' (''unexpected error: '' @ str_exn e))"

text \<open>The adapter's result, or the signal of a handled error with the state it leaves.\<close>

definition dispatch_adapter_publish ::
  "publish_ctx \<Rightarrow> jdict \<Rightarrow> string \<Rightarrow> string \<Rightarrow> publish_state \<Rightarrow> ((row_signal \<times> publish_state) + adapter_result) ract" where
  "dispatch_adapter_publish ctx row platform mode st =
     catchS [ExceptionClass]
       (bindS (publish_call (px_env ctx) (px_publish ctx mode) row platform) (\<lambda>result. retS (Inr result)))
       (\<lambda>e. bindS (publish_except ctx row platform st e) (\<lambda>sig. retS (Inl sig)))"

section \<open>After the dispatch\<close>

text \<open>\<open>state.outputs[-1]["status"] += "_unverified"\<close>.\<close>

definition mark_unverified :: "jdict list \<Rightarrow> jdict list" where
  "mark_unverified outputs =
     butlast outputs @ [dput ''status'' (JStr (str_of (jget (last outputs) ''status'') @ ''_unverified'')) (last outputs)]"

text \<open>The published row is marked done; a checkpoint that cannot be written is given up.\<close>

definition ckpt_done :: "publish_ctx \<Rightarrow> jdict \<Rightarrow> adapter_result \<Rightarrow> bool \<Rightarrow> string option \<Rightarrow> (string option) ract" where
  "ckpt_done ctx row result verify_ok run_id =
     (case run_id of
        None \<Rightarrow> retS None
      | Some r \<Rightarrow>
          catchS [ExceptionClass]
            (bindS (on_ckpt (update_item (px_env ctx) r (row_id row) ''done''
                [(''published_url'', JStr (ar_published_url result)),
                 (''article_urls'', JList (map JStr (filter (\<lambda>u. u \<noteq> []) [ar_published_url result, ar_draft_url result]))),
                 (''adapter'', JStr (ar_adapter result)),
                 (''completed_at'', JStr (e_fmt (px_env ctx) (e_now (px_env ctx)))),
                 (''verified'', JBool verify_ok)])) (\<lambda>u. retS (Some r)))
            (\<lambda>e. retS None))"

definition process_publish_result ::
  "publish_ctx \<Rightarrow> publish_options \<Rightarrow> adapter_result \<Rightarrow> jdict \<Rightarrow> string \<Rightarrow> nat \<Rightarrow> publish_state \<Rightarrow> publish_state ract" where
  "process_publish_result ctx opts result row platform row_idx st =
     (let st = st\<lparr>ps_outputs := ps_outputs st @ [to_publish_output (px_env ctx) result row (px_ts ctx)]\<rparr> in
      case ar_error result of
        Some (c # cs) \<Rightarrow>
          bindS (on_dedup (record_failure (px_env ctx) row platform None (ps_run_id st))) (\<lambda>u.
          bindS (try_update_ckpt_failed (px_env ctx) (ps_run_id st) (row_id row) (c # cs)
                   (if ar_status result \<in> {''skipped_policy'', ''skipped_circuit_open''} then POLICY_SKIP else ''unexpected''))
            (\<lambda>r. retS (st\<lparr>ps_fail_count := ps_fail_count st + 1, ps_run_id := r\<rparr>)))
      | _ \<Rightarrow>
          bindS (on_canary (record_publish_path (px_env ctx) platform (ar_provider_meta result))) (\<lambda>n.
          bindS (liftR (do_verify (po_no_verify opts \<or> po_dry_run opts) (px_verify_published ctx) result row))
            (\<lambda>(verify_ok, reason).
          bindS (on_dedup (record_done (px_env ctx) row platform
                   (opt_nonempty (if ar_published_url result \<noteq> [] then ar_published_url result else ar_draft_url result))
                   verify_ok (ps_run_id st))) (\<lambda>u.
          bindS (ckpt_done ctx row result verify_ok (ps_run_id st)) (\<lambda>r.
            retS (st\<lparr>ps_success_count := ps_success_count st + 1,
                     ps_last_medium_success_idx := (if ar_post_publish_delay_seconds result > 0 then int row_idx
                                                    else ps_last_medium_success_idx st),
                     ps_publish_path_drift_count := ps_publish_path_drift_count st + n,
                     ps_outputs := (if verify_ok then ps_outputs st else mark_unverified (ps_outputs st)),
                     ps_run_id := r\<rparr>))))))"

section \<open>The loop\<close>

definition publish_one_row ::
  "publish_ctx \<Rightarrow> publish_options \<Rightarrow> nat \<Rightarrow> jdict \<Rightarrow> publish_state \<Rightarrow> (row_signal option \<times> publish_state) ract" where
  "publish_one_row ctx opts row_idx row st =
     bindS (check_publish_preconditions ctx opts row_idx row st) (\<lambda>(verdict, st).
       case verdict of
         Some sig \<Rightarrow> retS (Some sig, st)
       | None \<Rightarrow>
           let platform = row_platform (po_platform opts) row; mode = row_mode (po_mode opts) row in
           bindS (dispatch_adapter_publish ctx row platform mode st) (\<lambda>r.
             case r of
               Inl (sig, st) \<Rightarrow> retS (Some sig, st)
             | Inr result \<Rightarrow>
                 bindS (process_publish_result ctx opts result row platform row_idx st) (\<lambda>st. retS (None, st))))"

fun run_publish_loop ::
  "publish_ctx \<Rightarrow> publish_options \<Rightarrow> nat \<Rightarrow> jdict list \<Rightarrow> publish_state \<Rightarrow> publish_state ract" where
  "run_publish_loop ctx opts row_idx [] st = retS st"
| "run_publish_loop ctx opts row_idx (row # rows) st =
     bindS (publish_one_row ctx opts row_idx row st) (\<lambda>(result, st).
       case result of
         Some AuthAbort \<Rightarrow> retS (st\<lparr>ps_auth_aborted := True\<rparr>)
       | Some DepAbort \<Rightarrow> retS (st\<lparr>ps_dependency_aborted := True\<rparr>)
       | Some ConflictAbort \<Rightarrow> retS (st\<lparr>ps_conflict_aborted := True\<rparr>)
       | _ \<Rightarrow> run_publish_loop ctx opts (row_idx + 1) rows st)"

record publish_outcome =
  oc_state :: publish_state
  oc_options :: publish_options
  oc_checkpoint_disabled :: bool

definition publish_rows :: "publish_ctx \<Rightarrow> publish_options \<Rightarrow> jdict list \<Rightarrow> publish_outcome ract" where
  "publish_rows ctx opts rows =
     bindS
       (if po_dry_run opts then retS (None, False)
        else catchS [ExceptionClass]
               (bindS (on_ckpt (create_checkpoint (px_env ctx) (px_run_id ctx) rows (po_platform opts)
                         (case po_mode opts of Some (c # cs) \<Rightarrow> c # cs | _ \<Rightarrow> ''draft'')
                         (Some [(''skip_publish_time_check'', JBool (po_skip_publish_time_check opts))])))
                  (\<lambda>r. retS (Some r, False)))
               (\<lambda>e. retS (None, True)))
       (\<lambda>(run_id, disabled).
     bindS (run_publish_loop ctx opts 0 rows (new_publish_state run_id)) (\<lambda>st.
       retS \<lparr>oc_state = st, oc_options = opts, oc_checkpoint_disabled = disabled\<rparr>))"

section \<open>The verdict on a run\<close>

record publish_exit =
  pe_kind :: string
  pe_exit_code :: int
  pe_message :: "string option"
  pe_successful :: "jdict list"
  pe_failed :: "jdict list"
  pe_unverified :: "jdict list"

definition decide_publish_exit :: "jdict list \<Rightarrow> bool \<Rightarrow> nat \<Rightarrow> publish_exit" where
  "decide_publish_exit outputs dry_run dedup_hold_count =
     (let successful = filter (\<lambda>r. jget r ''error'' = JNull) outputs;
          failed = filter (\<lambda>r. jget r ''error'' \<noteq> JNull) outputs;
          unverified = filter (\<lambda>s. endswith (str_of (jget_or s ''status'' (JStr []))) ''_unverified'') successful;
          decision = (\<lambda>kind code message. \<lparr>pe_kind = kind, pe_exit_code = code, pe_message = message,
             pe_successful = successful, pe_failed = failed, pe_unverified = unverified\<rparr>) in
      if failed \<noteq> []
      then decision ''failed'' 4 (Some (nat_str (length failed) @ '' payload(s) failed to publish''))
      else if \<not> dry_run \<and> successful = []
      then if dedup_hold_count > 0
           then decision ''all_held'' 3 (Some (''all '' @ nat_str dedup_hold_count @ '' row(s) held by the dedup gate''))
           else decision ''none_published'' 5 (Some ''no payloads were published'')
      else if unverified \<noteq> []
      then decision ''unverified'' 5 (Some (nat_str (length unverified) @ '' payload(s) failed verification''))
      else decision ''ok'' 0 None)"

definition terminal_exit_code :: "publish_outcome \<Rightarrow> int" where
  "terminal_exit_code oc =
     (let st = oc_state oc in
      if ps_conflict_aborted st then 1
      else if ps_auth_aborted st \<or> ps_dependency_aborted st then 3
      else pe_exit_code (decide_publish_exit (ps_outputs st) (po_dry_run (oc_options oc)) (ps_dedup_hold_count st)))"

end
