(* ===== verification/Publish_Facts.thy ===== *)
theory Publish_Facts
  imports Publish Resume_Facts "HOL-Library.Sublist"
begin

text \<open>
  What a fresh run guarantees: at most one dispatch per row, in order, and none the dedup gate did
  not grant; every row of a run that was not aborted is counted exactly once; and an exit code that
  follows from the counts.
\<close>

section \<open>Results of actions\<close>

text \<open>\<open>yields m P\<close>: whatever value the action returns, on any world, has the property.\<close>

definition yields :: "('s \<Rightarrow> (exn + 'a) \<times> 's) \<Rightarrow> ('a \<Rightarrow> bool) \<Rightarrow> bool" where
  "yields m P \<longleftrightarrow> (\<forall>w a w'. m w = (Inr a, w') \<longrightarrow> P a)"

named_theorems yields_intros \<open>values of composed actions\<close>

lemma yieldsD: "yields m P \<Longrightarrow> m w = (Inr a, w') \<Longrightarrow> P a"
  by (auto simp: yields_def)

lemma yields_retS [yields_intros]: "P a \<Longrightarrow> yields (retS a) P"
  by (simp add: yields_def retS_def)

lemma yields_bind: "yields m Q \<Longrightarrow> (\<And>a. Q a \<Longrightarrow> yields (f a) P) \<Longrightarrow> yields (bindS m f) P"
  unfolding yields_def bindS_Inr by blast

lemma yields_bind_any [yields_intros]: "(\<And>a. yields (f a) P) \<Longrightarrow> yields (bindS m f) P"
  unfolding yields_def bindS_Inr by blast

lemma yields_catch [yields_intros]: "yields m P \<Longrightarrow> (\<And>e. yields (h e) P) \<Longrightarrow> yields (catchS cs m h) P"
  unfolding yields_def catchS_def by (auto split: prod.splits sum.splits if_splits)

lemma yields_if [yields_intros]: "(b \<Longrightarrow> yields m P) \<Longrightarrow> (\<not> b \<Longrightarrow> yields m' P) \<Longrightarrow> yields (if b then m else m') P"
  by simp

section \<open>Every row is counted once\<close>

text \<open>
  After \<open>n\<close> rows: the outputs without an error are the successes and the duplicates that were
  skipped, those with one the failures and the unreachable rows, and the counters add up to \<open>n\<close>.
\<close>

definition accounted :: "publish_state \<Rightarrow> nat \<Rightarrow> bool" where
  "accounted st n \<longleftrightarrow>
     length (filter (\<lambda>r. jget r ''error'' = JNull) (ps_outputs st)) = ps_success_count st + ps_dedup_skip_count st \<and>
     length (filter (\<lambda>r. jget r ''error'' \<noteq> JNull) (ps_outputs st)) = ps_fail_count st + ps_skipped_unreachable_count st \<and>
     n = ps_success_count st + ps_fail_count st + ps_skipped_unreachable_count st +
         ps_skipped_quarantined_count st + ps_dedup_skip_count st + ps_dedup_hold_count st"

definition moves_on :: "row_signal option \<Rightarrow> bool" where
  "moves_on sig \<longleftrightarrow> sig \<in> {None, Some RowContinue}"

text \<open>The effect of a handled row on the books: one more row, or an abort with the books as they were.\<close>

definition booked :: "nat \<Rightarrow> row_signal option \<times> publish_state \<Rightarrow> bool" where
  "booked n = (\<lambda>(sig, st). accounted st (if moves_on sig then n + 1 else n))"

lemma error_of_rows:
  "jget (build_failure_row status row p err ts ad []) ''error'' = JStr err"
  "jget (unreachable_row ctx row p url) ''error'' \<noteq> JNull"
  "jget (build_skip_row row p u ts) ''error'' = JNull"
  "jget (dry_run_row ctx row p result) ''error'' = JNull"
  "jget (to_publish_output env result row ts) ''error'' = (case ar_error result of None \<Rightarrow> JNull | Some e \<Rightarrow> JStr e)"
  by (simp_all add: build_failure_row_def unreachable_row_def build_skip_row_def dry_run_row_def to_publish_output_def
      carry_link_attr_verification_def dmerge_def jget_def dget_or_def split: option.splits)

lemma mark_unverified_errors:
  "outs \<noteq> [] \<Longrightarrow> map (\<lambda>r. jget r ''error'') (mark_unverified outs) = map (\<lambda>r. jget r ''error'') outs"
  by (cases outs rule: rev_cases) (simp_all add: mark_unverified_def)

lemma filter_errors: "length (filter (\<lambda>r. P (jget r ''error'')) rs) = length (filter P (map (\<lambda>r. jget r ''error'') rs))"
  by (simp add: filter_map comp_def)

lemma try_update_yields: "yields (record_publish_failure ctx row p st cls msg)
   (\<lambda>st'. \<exists>r. st' = st\<lparr>ps_outputs := ps_outputs st @ [build_failure_row ''failed'' row p msg (px_ts ctx) p []], ps_run_id := r\<rparr>)"
  unfolding record_publish_failure_def by (intro yields_intros) blast

lemma failure_booked:
  assumes "accounted st n"
  shows "yields (record_publish_failure ctx row p (st\<lparr>ps_fail_count := ps_fail_count st + 1\<rparr>) cls msg)
           (\<lambda>st'. accounted st' (n + 1))"
  unfolding yields_def
proof (intro allI impI)
  fix w st' w'
  assume "record_publish_failure ctx row p (st\<lparr>ps_fail_count := ps_fail_count st + 1\<rparr>) cls msg w = (Inr st', w')"
  from yieldsD[OF try_update_yields this] assms show "accounted st' (n + 1)"
    by (auto simp: accounted_def error_of_rows)
qed

lemma except_booked:
  assumes "accounted st n"
  shows "yields (publish_except ctx row p st e) (\<lambda>(sig, st'). booked n (Some sig, st'))"
proof -
  have fail: "yields (bindS (record_publish_failure ctx row p (st\<lparr>ps_fail_count := ps_fail_count st + 1\<rparr>) cls msg)
      (\<lambda>st'. retS (RowContinue, st'))) (\<lambda>(sig, st'). booked n (Some sig, st'))" for cls msg
    by (rule yields_bind[OF failure_booked[OF assms]]) (auto simp: booked_def moves_on_def intro!: yields_intros)
  show ?thesis
    unfolding publish_except_def Let_def
    by (intro yields_if fail yields_bind_any yields_retS)
       (use assms in \<open>simp_all add: booked_def moves_on_def accounted_def\<close>)
qed

lemma accounted_keeps [simp]:
  "accounted (st\<lparr>ps_canary_warned := ws\<rparr>) n = accounted st n"
  "accounted (st\<lparr>ps_run_id := r\<rparr>) n = accounted st n"
  "accounted (st\<lparr>ps_last_medium_success_idx := i\<rparr>) n = accounted st n"
  "accounted (st\<lparr>ps_publish_path_drift_count := k\<rparr>) n = accounted st n"
  "accounted (st\<lparr>ps_dependency_error := x\<rparr>) n = accounted st n"
  "accounted (st\<lparr>ps_conflict_error := x\<rparr>) n = accounted st n"
  "accounted (st\<lparr>ps_auth_aborted := b\<rparr>) n = accounted st n"
  "accounted (st\<lparr>ps_dependency_aborted := b\<rparr>) n = accounted st n"
  "accounted (st\<lparr>ps_conflict_aborted := b\<rparr>) n = accounted st n"
  by (simp_all add: accounted_def)

lemma accounted_row:
  assumes "accounted st n"
  shows "accounted (st\<lparr>ps_skipped_quarantined_count := ps_skipped_quarantined_count st + 1\<rparr>) (n + 1)"
    "accounted (st\<lparr>ps_dedup_hold_count := ps_dedup_hold_count st + 1\<rparr>) (n + 1)"
    "jget r ''error'' = JNull \<Longrightarrow>
       accounted (st\<lparr>ps_outputs := ps_outputs st @ [r], ps_dedup_skip_count := ps_dedup_skip_count st + 1\<rparr>) (n + 1)"
    "jget r ''error'' = JNull \<Longrightarrow>
       accounted (st\<lparr>ps_outputs := ps_outputs st @ [r], ps_success_count := ps_success_count st + 1\<rparr>) (n + 1)"
    "jget r ''error'' \<noteq> JNull \<Longrightarrow>
       accounted (st\<lparr>ps_outputs := ps_outputs st @ [r], ps_fail_count := ps_fail_count st + 1\<rparr>) (n + 1)"
    "jget r ''error'' \<noteq> JNull \<Longrightarrow>
       accounted (st\<lparr>ps_outputs := ps_outputs st @ [r],
                     ps_skipped_unreachable_count := ps_skipped_unreachable_count st + 1\<rparr>) (n + 1)"
  using assms by (simp_all add: accounted_def)

text \<open>The books after the gates: untouched if the row goes on to its dispatch.\<close>

definition gate_booked :: "nat \<Rightarrow> row_signal option \<times> publish_state \<Rightarrow> bool" where
  "gate_booked n = (\<lambda>(sig, st). if sig = None then accounted st n else booked n (sig, st))"

lemma gate_bookedI:
  "accounted st n \<Longrightarrow> gate_booked n (None, st)"
  "accounted st (n + 1) \<Longrightarrow> gate_booked n (Some RowContinue, st)"
  "accounted st n \<Longrightarrow> gate_booked n (Some DepAbort, st)"
  "accounted st n \<Longrightarrow> gate_booked n (Some ConflictAbort, st)"
  by (simp_all add: gate_booked_def booked_def moves_on_def)

lemma dedup_booked:
  assumes "accounted st n"
  shows "yields (dedup_precondition ctx opts row p st) (gate_booked n)"
  unfolding dedup_precondition_def
  by (intro yields_bind_any)
     (use accounted_row[OF assms] assms in \<open>auto simp: error_of_rows
        intro!: yields_retS gate_bookedI split: verdict.splits prod.splits\<close>)

lemma precondition_booked:
  assumes "accounted st n"
  shows "yields (check_publish_preconditions ctx opts i row st) (gate_booked n)"
proof -
  have w: "accounted (st\<lparr>ps_canary_warned := ws\<rparr>) n" for ws using assms by simp
  show ?thesis
    unfolding check_publish_preconditions_def Let_def
    by (intro yields_bind_any)
       (use accounted_row[OF w] w in \<open>auto simp: error_of_rows split: option.splits prod.splits
          intro!: yields_retS yields_bind_any yields_if gate_bookedI dedup_booked\<close>)
qed

text \<open>A result without an error, or with one that has a text.\<close>

definition plain_result :: "adapter_result \<Rightarrow> bool" where
  "plain_result x \<longleftrightarrow> ar_error x \<noteq> Some []"

lemma accounted_success:
  assumes "accounted st n" "jget r ''error'' = JNull"
  shows "accounted (st\<lparr>ps_outputs := (if ok then ps_outputs st @ [r] else mark_unverified (ps_outputs st @ [r])),
    ps_success_count := ps_success_count st + 1\<rparr>) (n + 1)"
proof -
  have eq: "length (filter (\<lambda>x. P (jget x ''error'')) (mark_unverified (ps_outputs st @ [r]))) =
      length (filter (\<lambda>x. P (jget x ''error'')) (ps_outputs st @ [r]))" for P
    using filter_errors[of P "mark_unverified (ps_outputs st @ [r])"] filter_errors[of P "ps_outputs st @ [r]"]
      mark_unverified_errors[of "ps_outputs st @ [r]"] by simp
  show ?thesis
    using accounted_row(4)[OF assms] eq[of "\<lambda>e. e = JNull"] eq[of "\<lambda>e. e \<noteq> JNull"]
    by (cases ok) (simp_all add: accounted_def)
qed

lemma result_booked:
  assumes "accounted st n" "plain_result x"
  shows "yields (process_publish_result ctx opts x row p i st) (\<lambda>st'. accounted st' (n + 1))"
proof (cases "ar_error x")
  case None
  let ?r = "to_publish_output (px_env ctx) x row (px_ts ctx)"
  have "jget ?r ''error'' = JNull" using None by (simp add: error_of_rows)
  note s = accounted_success[OF assms(1) this]
  show ?thesis
    unfolding process_publish_result_def Let_def None option.case
    apply (intro yields_bind_any)
    apply (simp only: split_paired_all prod.case)
    apply (intro yields_bind_any yields_retS)
    subgoal for k ok reason u rid using s[of ok] None unfolding accounted_def by (cases ok) (simp_all add: error_of_rows)
    done
next
  case (Some e)
  then obtain c cs where e: "ar_error x = Some (c # cs)" using assms(2) by (cases e) (auto simp: plain_result_def)
  show ?thesis
    unfolding process_publish_result_def Let_def e option.case list.case
    by (intro yields_bind_any yields_retS) (use assms(1) e in \<open>simp add: accounted_def error_of_rows\<close>)
qed

text \<open>The policy hands on the adapter's results and adds skips with a text.\<close>

lemma skips_plain:
  "health_gate env p enf w = (Inr (Some x), w') \<Longrightarrow> plain_result x"
  "circuit_gate env p enf w = (Inr (Some x), w') \<Longrightarrow> plain_result x"
  by (auto simp: health_gate_def circuit_gate_def enforce_circuit_skip_def skip_result_def plain_result_def Let_def
      bindS_Inr retS_def split: if_splits)

lemma publish_call_plain:
  assumes "\<And>payload x. pub payload = Inr x \<Longrightarrow> plain_result x"
  shows "yields (publish_call env pub row p) plain_result"
  unfolding yields_def
proof (intro allI impI)
  fix w x w'
  assume run: "publish_call env pub row p w = (Inr x, w')"
  show "plain_result x"
  proof (cases "policy_enabled env")
    case False
    then show ?thesis using run assms by (auto simp: publish_call_def on_policy_def call_adapter_def split: prod.splits)
  next
    case True
    then obtain w2 where w2: "publish_with_policy env pub p row (rw_policy w) = (Inr x, w2)"
      using run by (auto simp: publish_call_def on_policy_def split: prod.splits)
    from w2 True show ?thesis
    proof (cases rule: policy_run_cases)
      case (skipped y w1)
      then show ?thesis using skips_plain(1) by auto
    next
      case (gated g2 w2' w3)
      then show ?thesis
        using skips_plain(2) assms[OF guarded_attempt(2)[OF _ refl]] by (auto split: sum.splits option.splits)
    qed
  qed
qed

lemma dispatch_booked:
  assumes "accounted st n" "\<And>mode payload x. px_publish ctx mode payload = Inr x \<Longrightarrow> plain_result x"
  shows "yields (dispatch_adapter_publish ctx row p mode st)
    (\<lambda>r. case r of Inl (sig, st') \<Rightarrow> booked n (Some sig, st') | Inr x \<Rightarrow> plain_result x)"
  unfolding dispatch_adapter_publish_def
proof (intro yields_catch)
  show "yields (bindS (publish_call (px_env ctx) (px_publish ctx mode) row p) (\<lambda>result. retS (Inr result)))
      (\<lambda>r. case r of Inl (sig, st') \<Rightarrow> booked n (Some sig, st') | Inr x \<Rightarrow> plain_result x)"
    by (rule yields_bind[OF publish_call_plain[OF assms(2)]]) (auto intro: yields_retS)
next
  fix e
  show "yields (bindS (publish_except ctx row p st e) (\<lambda>sig. retS (Inl sig)))
      (\<lambda>r. case r of Inl (sig, st') \<Rightarrow> booked n (Some sig, st') | Inr x \<Rightarrow> plain_result x)"
    by (rule yields_bind[OF except_booked[OF assms(1)]]) (auto intro: yields_retS)
qed

lemma row_booked:
  assumes "accounted st n" "\<And>mode payload x. px_publish ctx mode payload = Inr x \<Longrightarrow> plain_result x"
  shows "yields (publish_one_row ctx opts i row st) (booked n)"
  unfolding publish_one_row_def Let_def
proof (rule yields_bind[OF precondition_booked[OF assms(1)]], clarify)
  fix verdict st1
  assume g: "gate_booked n (verdict, st1)"
  show "yields (case verdict of Some sig \<Rightarrow> retS (Some sig, st1)
    | None \<Rightarrow> bindS (dispatch_adapter_publish ctx row (row_platform (po_platform opts) row) (row_mode (po_mode opts) row) st1)
        (\<lambda>r. case r of Inl (sig, st) \<Rightarrow> retS (Some sig, st)
           | Inr result \<Rightarrow> bindS (process_publish_result ctx opts result row (row_platform (po_platform opts) row) i st1)
                             (\<lambda>st. retS (None, st)))) (booked n)"
  proof (cases verdict)
    case None
    then have st1: "accounted st1 n" using g by (simp add: gate_booked_def)
    show ?thesis
      unfolding None option.case
      by (rule yields_bind[OF dispatch_booked[OF st1 assms(2)]])
         (auto simp: booked_def moves_on_def intro!: yields_retS yields_bind[OF result_booked[OF st1]] split: sum.splits)
  qed (use g in \<open>auto simp: gate_booked_def intro: yields_retS\<close>)
qed

definition aborted :: "publish_state \<Rightarrow> bool" where
  "aborted st \<longleftrightarrow> ps_auth_aborted st \<or> ps_dependency_aborted st \<or> ps_conflict_aborted st"

text \<open>\<open>n\<close> rows booked before, up to \<open>k\<close> more: all of them unless the run was aborted.\<close>

definition run_booked :: "nat \<Rightarrow> nat \<Rightarrow> publish_state \<Rightarrow> bool" where
  "run_booked n k st \<longleftrightarrow> (\<exists>m \<le> k. accounted st (n + m) \<and> (aborted st \<or> m = k))"

lemma run_booked_intros:
  "accounted st n \<Longrightarrow> run_booked n 0 st"
  "accounted st n \<Longrightarrow> aborted st \<Longrightarrow> run_booked n k st"
  "run_booked (n + 1) k st \<Longrightarrow> run_booked n (Suc k) st"
proof -
  show "run_booked n (Suc k) st" if "run_booked (n + 1) k st"
  proof -
    from that obtain m where "m \<le> k" "accounted st (n + 1 + m)" "aborted st \<or> m = k" by (auto simp: run_booked_def)
    then show ?thesis unfolding run_booked_def by (intro exI[of _ "Suc m"]) simp
  qed
qed (auto simp: run_booked_def intro: exI[of _ 0])

lemma yields_weaken: "yields m Q \<Longrightarrow> (\<And>a. Q a \<Longrightarrow> P a) \<Longrightarrow> yields m P"
  by (auto simp: yields_def)

lemma loop_booked:
  assumes "\<And>mode payload x. px_publish ctx mode payload = Inr x \<Longrightarrow> plain_result x"
  shows "accounted st n \<Longrightarrow> yields (run_publish_loop ctx opts i rows st) (run_booked n (length rows))"
proof (induction rows arbitrary: i n st)
  case Nil
  then show ?case by (auto intro: yields_retS run_booked_intros)
next
  case (Cons row rows)
  have row: "yields (publish_one_row ctx opts i row st) (booked n)" by (rule row_booked[OF Cons.prems assms])
  have next_row: "yields (case result of
         Some AuthAbort \<Rightarrow> retS (st1\<lparr>ps_auth_aborted := True\<rparr>)
       | Some DepAbort \<Rightarrow> retS (st1\<lparr>ps_dependency_aborted := True\<rparr>)
       | Some ConflictAbort \<Rightarrow> retS (st1\<lparr>ps_conflict_aborted := True\<rparr>)
       | _ \<Rightarrow> run_publish_loop ctx opts (i + 1) rows st1) (run_booked n (length (row # rows)))"
    if b: "booked n (result, st1)" for result st1
  proof -
    have go: "yields (run_publish_loop ctx opts (i + 1) rows st1) (run_booked n (length (row # rows)))"
      if "accounted st1 (n + 1)"
      using yields_weaken[OF Cons.IH[OF that]] run_booked_intros(3) by simp
    have stop: "yields (retS st2) (run_booked n (length (row # rows)))" if "accounted st2 n" "aborted st2" for st2
      by (intro yields_retS run_booked_intros(2) that)
    show ?thesis
    proof (cases "moves_on result")
      case True
      then have "accounted st1 (n + 1)" using b by (simp add: booked_def)
      with go True show ?thesis by (auto simp: moves_on_def)
    next
      case False
      then have acc: "accounted st1 n" using b by (simp add: booked_def)
      from False consider "result = Some AuthAbort" | "result = Some DepAbort" | "result = Some ConflictAbort"
        by (cases result) (auto simp: moves_on_def intro: row_signal.exhaust)
      then show ?thesis by cases (use acc in \<open>simp_all add: stop[simplified] aborted_def\<close>)
    qed
  qed
  show ?case
    unfolding run_publish_loop.simps
    by (rule yields_bind[OF row]) (use next_row in \<open>simp only: split_paired_all prod.case\<close>)
qed

lemma new_state_booked: "accounted (new_publish_state r) 0" "\<not> aborted (new_publish_state r)"
  by (simp_all add: accounted_def aborted_def new_publish_state_def)

lemma publish_rows_booked:
  assumes "\<And>mode payload x. px_publish ctx mode payload = Inr x \<Longrightarrow> plain_result x"
  shows "yields (publish_rows ctx opts rows) (\<lambda>oc. oc_options oc = opts \<and> run_booked 0 (length rows) (oc_state oc))"
proof -
  have "yields (bindS (run_publish_loop ctx opts 0 rows (new_publish_state run_id))
      (\<lambda>st. retS \<lparr>oc_state = st, oc_options = opts, oc_checkpoint_disabled = disabled\<rparr>))
      (\<lambda>oc. oc_options oc = opts \<and> run_booked 0 (length rows) (oc_state oc))" for run_id disabled
    by (rule yields_bind[OF loop_booked[OF assms new_state_booked(1)]]) (auto intro: yields_retS)
  then show ?thesis unfolding publish_rows_def by (intro yields_bind_any) auto
qed

text \<open>C6. Every row of a fresh run is accounted for exactly once: the outputs without an error are the
  successes and the skipped duplicates, those with an error the failures and the unreachable rows,
  and the six counters add up to the number of rows, or to less only if the run was aborted. (The
  adapters give their errors a text.)\<close>

theorem publish_rows_accounted:
  assumes "\<And>mode payload x. px_publish ctx mode payload = Inr x \<Longrightarrow> ar_error x \<noteq> Some []"
    and "publish_rows ctx opts rows w = (Inr oc, w')"
  shows "let st = oc_state oc;
             handled = ps_success_count st + ps_fail_count st + ps_skipped_unreachable_count st +
               ps_skipped_quarantined_count st + ps_dedup_skip_count st + ps_dedup_hold_count st
         in length (filter (\<lambda>r. jget r ''error'' = JNull) (ps_outputs st)) = ps_success_count st + ps_dedup_skip_count st \<and>
            length (filter (\<lambda>r. jget r ''error'' \<noteq> JNull) (ps_outputs st)) = ps_fail_count st + ps_skipped_unreachable_count st \<and>
            handled \<le> length rows \<and>
            (\<not> (ps_auth_aborted st \<or> ps_dependency_aborted st \<or> ps_conflict_aborted st) \<longrightarrow> handled = length rows)"
proof -
  have "oc_options oc = opts \<and> run_booked 0 (length rows) (oc_state oc)"
    by (rule yieldsD[OF publish_rows_booked assms(2)]) (use assms(1) in \<open>auto simp: plain_result_def\<close>)
  then show ?thesis
    by (auto simp: run_booked_def accounted_def aborted_def Let_def)
qed

text \<open>The verdict as a table over the four facts it depends on.\<close>

lemma decide_exit_code:
  "pe_exit_code (decide_publish_exit outs dry holds) =
     (if \<exists>r \<in> set outs. jget r ''error'' \<noteq> JNull then 4
      else if \<not> dry \<and> outs = [] then (if holds > 0 then 3 else 5)
      else if \<exists>r \<in> set outs. endswith (str_of (jget_or r ''status'' (JStr []))) ''_unverified'' then 5 else 0)"
proof (cases "\<exists>r \<in> set outs. jget r ''error'' \<noteq> JNull")
  case True
  then have "filter (\<lambda>r. jget r ''error'' \<noteq> JNull) outs \<noteq> []" by (simp add: filter_empty_conv)
  then show ?thesis using True by (simp add: decide_publish_exit_def Let_def)
next
  case False
  then have "filter (\<lambda>r. jget r ''error'' \<noteq> JNull) outs = []" "filter (\<lambda>r. jget r ''error'' = JNull) outs = outs"
    by (simp_all add: filter_empty_conv filter_id_conv)
  then show ?thesis using False by (auto simp: decide_publish_exit_def Let_def filter_empty_conv)
qed

text \<open>C7. The exit code of a run follows from its counters: 1 and 3 for the aborts; else 4 exactly if a
  row failed or was unreachable; else, for a live run without an output, 3 if rows were held and 5
  if none was; else 5 exactly if a publish could not be verified, and 0 otherwise. (The adapters give
  their errors a text.)\<close>

theorem exit_code_from_counts:
  assumes "\<And>mode payload x. px_publish ctx mode payload = Inr x \<Longrightarrow> ar_error x \<noteq> Some []"
    and run: "publish_rows ctx opts rows w = (Inr oc, w')"
  shows "terminal_exit_code oc =
    (let st = oc_state oc in
     if ps_conflict_aborted st then 1
     else if ps_auth_aborted st \<or> ps_dependency_aborted st then 3
     else if ps_fail_count st + ps_skipped_unreachable_count st > 0 then 4
     else if \<not> po_dry_run opts \<and> ps_success_count st + ps_dedup_skip_count st = 0
     then (if ps_dedup_hold_count st > 0 then 3 else 5)
     else if \<exists>r \<in> set (ps_outputs st). endswith (str_of (jget_or r ''status'' (JStr []))) ''_unverified'' then 5 else 0)"
proof -
  have booked: "oc_options oc = opts \<and> run_booked 0 (length rows) (oc_state oc)"
    by (rule yieldsD[OF publish_rows_booked run]) (use assms(1) in \<open>auto simp: plain_result_def\<close>)
  let ?st = "oc_state oc"
  obtain n where n: "accounted ?st n" using booked by (auto simp: run_booked_def)
  have some: "(\<exists>r \<in> set rs. P r) \<longleftrightarrow> 0 < length (filter P rs)" for P and rs :: "jdict list"
    by (auto simp: filter_empty_conv)
  have fails: "length (filter (\<lambda>r. jget r ''error'' \<noteq> JNull) (ps_outputs ?st)) = ps_fail_count ?st + ps_skipped_unreachable_count ?st"
    and oks: "length (filter (\<lambda>r. jget r ''error'' = JNull) (ps_outputs ?st)) = ps_success_count ?st + ps_dedup_skip_count ?st"
    using n by (simp_all add: accounted_def)
  have failed: "(\<exists>r \<in> set (ps_outputs ?st). jget r ''error'' \<noteq> JNull) \<longleftrightarrow> 0 < ps_fail_count ?st + ps_skipped_unreachable_count ?st"
    by (simp only: some fails)
  have empty: "ps_outputs ?st = [] \<longleftrightarrow> ps_success_count ?st + ps_dedup_skip_count ?st = 0"
    if "\<not> (\<exists>r \<in> set (ps_outputs ?st). jget r ''error'' \<noteq> JNull)"
  proof -
    have "filter (\<lambda>r. jget r ''error'' = JNull) (ps_outputs ?st) = ps_outputs ?st"
      using that by (simp add: filter_id_conv)
    then show ?thesis using oks by (simp only: length_0_conv[symmetric])
  qed
  note unfolded = terminal_exit_code_def Let_def decide_exit_code conjunct1[OF booked] failed[symmetric]
  show ?thesis
  proof (cases "\<exists>r \<in> set (ps_outputs ?st). jget r ''error'' \<noteq> JNull")
    case True
    show ?thesis unfolding unfolded by (simp only: True if_True)
  next
    case False
    show ?thesis unfolding unfolded by (simp only: False if_False empty[OF False])
  qed
qed

section \<open>Dispatches\<close>

lemma quiet_publish_helpers [quiets]:
  "quiet (try_update_ckpt_failed env r rid err cls)" "quiet (record_publish_failure ctx row p st cls msg)"
  "quiet (medium_throttle_sleep i l p dry)" "quiet (dedup_precondition ctx opts row p st)"
  "quiet (ckpt_done ctx row x ok r)"
proof -
  show "quiet (medium_throttle_sleep i l p dry)" by (auto simp: quiet_def medium_throttle_sleep_def)
qed (auto simp: try_update_ckpt_failed_def record_publish_failure_def dedup_precondition_def ckpt_done_def
      intro!: quiets split: option.splits verdict.splits prod.splits)

lemma quiet_publish_except [quiets]: "quiet (publish_except ctx row p st e)"
  unfolding publish_except_def Let_def by (auto intro!: quiets)

lemma quiet_process [quiets]: "quiet (process_publish_result ctx opts x row p i st)"
  unfolding process_publish_result_def Let_def
  by (auto intro!: quiets split: option.splits list.splits prod.splits)

lemma quiet_preconditions [quiets]: "quiet (check_publish_preconditions ctx opts i row st)"
  unfolding check_publish_preconditions_def Let_def
  by (auto intro!: quiets split: option.splits prod.splits)

definition fresh_gate ::
  "publish_ctx \<Rightarrow> publish_options \<Rightarrow> publish_state \<Rightarrow> jdict \<Rightarrow> rworld \<Rightarrow> (exn + verdict \<times> dedup_record option) \<times> world" where
  "fresh_gate ctx opts st row w =
     gate_with_force (px_env ctx) row (row_platform (po_platform opts) row) (ps_run_id st)
       (Some (px_forced_keys ctx)) (po_reason opts) (rw_dedup w)"

definition fresh_payload :: "publish_options \<Rightarrow> jdict \<Rightarrow> jdict" where
  "fresh_payload opts row = dput ''platform'' (JStr (row_platform (po_platform opts) row)) row"

lemma dedup_precondition_granted:
  assumes "dedup_precondition ctx opts row p st w = (Inr (None, st'), w')"
  shows "st' = st \<and> (\<exists>drec. fst (gate_with_force (px_env ctx) row p (ps_run_id st) (Some (px_forced_keys ctx)) (po_reason opts)
            (rw_dedup w)) = Inr (VDispatch, drec))"
proof -
  obtain v drec w1 where v: "on_dedup (gate_with_force (px_env ctx) row p (ps_run_id st) (Some (px_forced_keys ctx))
      (po_reason opts)) w = (Inr (v, drec), w1)"
    using assms unfolding dedup_precondition_def bindS_Inr by auto
  have "v = VDispatch \<and> st' = st"
    using assms unfolding dedup_precondition_def bindS_step[where m = "on_dedup _", OF v]
    by (cases v) (simp_all add: retS_def)
  then show ?thesis using v by (auto simp: on_dedup_def split: prod.splits)
qed

text \<open>A row that passes all gates was granted by the dedup gate, on the store as it was before the row.\<close>

lemma preconditions_granted:
  assumes "check_publish_preconditions ctx opts i row st w = (Inr (None, st'), w')"
  shows "\<not> po_dry_run opts \<and> (\<exists>drec. fst (fresh_gate ctx opts st row w) = Inr (VDispatch, drec))"
proof -
  let ?p = "row_platform (po_platform opts) row"
  obtain w1 where w1: "medium_throttle_sleep i (ps_last_medium_success_idx st) ?p (po_dry_run opts) w = (Inr (), w1)"
    "rw_dedup w1 = rw_dedup w" by (simp add: medium_throttle_sleep_def)
  note run = assms[unfolded check_publish_preconditions_def Let_def bindS_step[where m = "medium_throttle_sleep _ _ _ _", OF w1(1)]]
  obtain warned w2 where w2: "\<not> po_dry_run opts" "rw_dedup w2 = rw_dedup w"
    "dedup_precondition ctx opts row ?p (st\<lparr>ps_canary_warned := warned\<rparr>) w2 = (Inr (None, st'), w')"
    using run w1(2)
    by (auto simp: bindS_Inr liftR_def on_canary_def retS_def Let_def split: prod.splits if_splits option.splits)
  then show ?thesis using dedup_precondition_granted[OF w2(3)] by (simp add: fresh_gate_def)
qed

lemma dispatch_adapter_calls:
  assumes "dispatch_adapter_publish ctx row p mode st w = (r, w')"
  shows "rcalls w' = rcalls w \<or> rcalls w' = rcalls w @ [dput ''platform'' (JStr p) row]"
proof -
  obtain x w1 where x: "publish_call (px_env ctx) (px_publish ctx mode) row p w = (x, w1)" by fastforce
  have q: "quiet (\<lambda>w. bindS (publish_except ctx row p st e) (\<lambda>sig. retS (Inl sig)) w)" for e
    by (auto intro!: quiets)
  have "rcalls w' = rcalls w1"
    using assms x quietD[OF q]
    by (auto simp: dispatch_adapter_publish_def catchS_def bindS_def[of "publish_call _ _ _ _"] retS_def[of "Inr _"]
        split: prod.splits sum.splits if_splits)
  then show ?thesis using publish_call_calls[OF x] by simp
qed

text \<open>C4. A row of a fresh run reaches the adapters at most once, only in a live run, and only if the dedup
  gate, asked for its key in the store as it was when the row was taken up, answered dispatch; the
  payload handed over is the row with the resolved platform.\<close>

theorem fresh_row_dispatches_only_through_gate:
  assumes "publish_one_row ctx opts i row st w = (r, w')"
  shows "rcalls w' = rcalls w \<or>
    \<not> po_dry_run opts \<and> (\<exists>drec. fst (fresh_gate ctx opts st row w) = Inr (VDispatch, drec)) \<and>
    rcalls w' = rcalls w @ [fresh_payload opts row]"
  using assms[unfolded publish_one_row_def]
proof (cases rule: bindS_cases)
  case (err e)
  then show ?thesis using quietD[OF quiet_preconditions] by blast
next
  case (ok a w1)
  obtain verdict st1 where a: "a = (verdict, st1)" by (cases a)
  have c1: "rcalls w1 = rcalls w" using quietD[OF quiet_preconditions ok(1)] .
  show ?thesis
  proof (cases verdict)
    case (Some sig)
    then show ?thesis using ok(2) c1 a by (simp add: retS_def)
  next
    case None
    note granted = preconditions_granted[OF ok(1)[unfolded a None]]
    have q: "quiet (case d of Inl (sig, st) \<Rightarrow> retS (Some sig, st)
        | Inr result \<Rightarrow> bindS (process_publish_result ctx opts result row (row_platform (po_platform opts) row) i st1)
                          (\<lambda>st. retS (None, st)))" for d
      by (auto intro!: quiets split: sum.splits)
    from ok(2)[unfolded a None prod.case option.case Let_def] show ?thesis
    proof (cases rule: bindS_cases)
      case (err e)
      then show ?thesis using dispatch_adapter_calls[OF err(1)] granted c1 by (auto simp: fresh_payload_def)
    next
      case (ok d w2)
      then show ?thesis
        using quietD[OF q ok(2)] dispatch_adapter_calls[OF ok(1)] granted c1 by (auto simp: fresh_payload_def)
    qed
  qed
qed

text \<open>C5. A fresh run dispatches its rows in order and each at most once: the payloads handed to the
  adapters are those of a subsequence of the rows, whatever the gates, the policy and the adapters
  answer and wherever the run ends; a dry run dispatches nothing.\<close>

theorem run_dispatches_subsequence:
  assumes "run_publish_loop ctx opts i rows st w = (r, w')"
  shows "\<exists>sub. subseq sub rows \<and> rcalls w' = rcalls w @ map (fresh_payload opts) sub \<and> (po_dry_run opts \<longrightarrow> sub = [])"
  using assms
proof (induction rows arbitrary: i st w)
  case Nil
  then show ?case by (auto simp: retS_def)
next
  case (Cons row rows)
  obtain x w1 where x: "publish_one_row ctx opts i row st w = (x, w1)" by fastforce
  obtain sub1 where sub1: "subseq sub1 [row]" "rcalls w1 = rcalls w @ map (fresh_payload opts) sub1"
    "po_dry_run opts \<longrightarrow> sub1 = []"
    using fresh_row_dispatches_only_through_gate[OF x]
    by (metis append_Nil2 list.simps(8) list.simps(9) subseq_order.refl list_emb_Nil)
  have rest: "\<exists>sub. subseq sub rows \<and> rcalls w' = rcalls w1 @ map (fresh_payload opts) sub \<and> (po_dry_run opts \<longrightarrow> sub = [])"
  proof (cases x)
    case (Inl e)
    then have "w' = w1" using Cons.prems by (simp add: bindS_stop[where m = "publish_one_row _ _ _ _ _", OF x[unfolded Inl]])
    then show ?thesis by (intro exI[of _ "[]"]) simp
  next
    case (Inr a)
    obtain sig st1 where a: "a = (sig, st1)" by (cases a)
    note run = Cons.prems[unfolded run_publish_loop.simps
        bindS_step[where m = "publish_one_row _ _ _ _ _", OF x[unfolded Inr a]] prod.case]
    show ?thesis
    proof (cases "moves_on sig")
      case True
      then have "run_publish_loop ctx opts (i + 1) rows st1 w1 = (r, w')" using run by (auto simp: moves_on_def)
      then show ?thesis by (rule Cons.IH)
    next
      case False
      then have "w' = w1" using run by (auto simp: moves_on_def retS_def split: option.splits row_signal.splits)
      then show ?thesis by (intro exI[of _ "[]"]) simp
    qed
  qed
  then obtain sub2 where "subseq sub2 rows" "rcalls w' = rcalls w1 @ map (fresh_payload opts) sub2"
    "po_dry_run opts \<longrightarrow> sub2 = []" by blast
  then show ?case
    using sub1 list_emb_append_mono[OF sub1(1), of sub2 rows] by (intro exI[of _ "sub1 @ sub2"]) simp
qed

section \<open>Scenarios\<close>

definition pdemo_ctx :: "(string \<Rightarrow> jdict \<Rightarrow> exn + adapter_result) \<Rightarrow> publish_ctx" where
  "pdemo_ctx publish =
     \<lparr>px_env = env0\<lparr>e_environ := [(ENFORCE_ENV, ''1'')]\<rparr>, px_publish = publish,
      px_verify_published = (\<lambda>u t l n. (True, [])), px_check_url = (\<lambda>i u. Inr True), px_completed = (\<lambda>us. us),
      px_initial_revs = [], px_token_revs = (\<lambda>n. []), px_mark_expired = (\<lambda>c. Inr ()),
      px_supported = [''velog''], px_canary_config = FAbsent, px_run_id = rdemo_id, px_ts = ''t'', px_forced_keys = []\<rparr>"

definition pdemo_opts :: publish_options where
  "pdemo_opts = \<lparr>po_platform = None, po_mode = Some ''draft'', po_dry_run = False, po_skip_publish_time_check = False,
     po_no_verify = True, po_reason = None, po_throttle_min = 60, po_throttle_max = 300\<rparr>"

definition pdemo_run :: "(string \<Rightarrow> jdict \<Rightarrow> exn + adapter_result) \<Rightarrow> jdict list \<Rightarrow> (exn + publish_outcome) \<times> rworld" where
  "pdemo_run publish rows = publish_rows (pdemo_ctx publish) pdemo_opts rows (rdemo_world True)"

definition pdemo_row2 :: jdict where
  "pdemo_row2 = dput ''id'' (JStr ''b'') rdemo_row"

text \<open>Two rows with the same target: the second is skipped as a duplicate of the first.\<close>

lemma duplicate_row_is_skipped:
  "let (r, w) = pdemo_run (\<lambda>mode. published) [rdemo_row, pdemo_row2]
   in rcalls w = [rdemo_row] \<and>
      (case r of Inr oc \<Rightarrow> map (\<lambda>d. jget d ''status'') (ps_outputs (oc_state oc)) = [JStr ''published'', JStr ''skipped_duplicate'']
                        \<and> terminal_exit_code oc = 0
       | _ \<Rightarrow> False)"
  by code_simp

text \<open>An adapter that reports an empty error text is booked as a success in the counters, the dedup
  store and the checkpoint, but its output row carries the empty error, and the run ends with the
  exit code of a failed row.\<close>

theorem empty_error_reports_failure:
  "let (r, w) = pdemo_run (\<lambda>mode p. Inr ((new_result ''published'' ''velog'' ''velog'')\<lparr>ar_error := Some []\<rparr>)) [rdemo_row]
   in item_statuses w = [JStr ''done''] \<and>
      map (\<lambda>(k, row). c_state row) (db_rows (w_store (rw_dedup w))) = [Done] \<and>
      (case r of Inr oc \<Rightarrow> ps_success_count (oc_state oc) = 1 \<and> ps_fail_count (oc_state oc) = 0 \<and> terminal_exit_code oc = 4
       | _ \<Rightarrow> False)"
  by code_simp

lemma pdemo_runs: "\<exists>oc w'. publish_rows (pdemo_ctx (\<lambda>mode. published)) pdemo_opts [rdemo_row] (rdemo_world True) = (Inr oc, w')"
proof -
  let ?run = "publish_rows (pdemo_ctx (\<lambda>mode. published)) pdemo_opts [rdemo_row] (rdemo_world True)"
  have "\<not> isl (fst ?run)" by code_simp
  then show ?thesis by (cases ?run; cases "fst ?run") auto
qed

lemma pdemo_plain: "px_publish (pdemo_ctx (\<lambda>mode. published)) mode payload = Inr x \<Longrightarrow> ar_error x \<noteq> Some []"
  by (auto simp: pdemo_ctx_def published_def new_result_def)

theorem publish_rows_accounted_witness:
  "\<exists>oc w'. pdemo_run (\<lambda>mode. published) [rdemo_row] = (Inr oc, w') \<and>
     length (filter (\<lambda>r. jget r ''error'' = JNull) (ps_outputs (oc_state oc))) =
       ps_success_count (oc_state oc) + ps_dedup_skip_count (oc_state oc)"
proof -
  obtain oc w' where run: "publish_rows (pdemo_ctx (\<lambda>mode. published)) pdemo_opts [rdemo_row] (rdemo_world True) = (Inr oc, w')"
    using pdemo_runs by blast
  from publish_rows_accounted[OF pdemo_plain run] run show ?thesis by (auto simp: pdemo_run_def Let_def)
qed

theorem exit_code_from_counts_witness:
  "\<exists>oc w'. pdemo_run (\<lambda>mode. published) [rdemo_row] = (Inr oc, w') \<and>
     (ps_fail_count (oc_state oc) > 0 \<and> \<not> aborted (oc_state oc) \<longrightarrow> terminal_exit_code oc = 4)"
proof -
  obtain oc w' where run: "publish_rows (pdemo_ctx (\<lambda>mode. published)) pdemo_opts [rdemo_row] (rdemo_world True) = (Inr oc, w')"
    using pdemo_runs by blast
  from exit_code_from_counts[OF pdemo_plain run] run show ?thesis
    by (intro exI[of _ oc] exI[of _ w']) (simp add: pdemo_run_def aborted_def Let_def)
qed

theorem fresh_row_dispatches_only_through_gate_witness:
  "\<exists>drec. fst (fresh_gate (pdemo_ctx (\<lambda>mode. published)) pdemo_opts (new_publish_state None) rdemo_row (rdemo_world True))
     = Inr (VDispatch, drec)"
proof -
  let ?p = "publish_one_row (pdemo_ctx (\<lambda>mode. published)) pdemo_opts 0 rdemo_row (new_publish_state None) (rdemo_world True)"
  have "rcalls (snd ?p) \<noteq> rcalls (rdemo_world True)" by code_simp
  with fresh_row_dispatches_only_through_gate[of _ _ _ _ _ _ "fst ?p" "snd ?p"] show ?thesis by (metis prod.collapse)
qed

theorem run_dispatches_subsequence_witness:
  "\<exists>sub. subseq sub [rdemo_row, pdemo_row2] \<and>
     rcalls (snd (run_publish_loop (pdemo_ctx (\<lambda>mode. published)) pdemo_opts 0 [rdemo_row, pdemo_row2]
       (new_publish_state None) (rdemo_world True))) = rcalls (rdemo_world True) @ map (fresh_payload pdemo_opts) sub"
proof -
  obtain r w' where run: "run_publish_loop (pdemo_ctx (\<lambda>mode. published)) pdemo_opts 0 [rdemo_row, pdemo_row2]
       (new_publish_state None) (rdemo_world True) = (r, w')" by fastforce
  from run_dispatches_subsequence[OF run] show ?thesis using run by auto
qed

end
