(* ===== verification/Jsonl.thy ===== *)
theory Jsonl
  imports Py_Json
begin

text \<open>
  JSONL input: the reader of the commands (\<open>_util/jsonl.py\<close>), the in-process copy of it
  (\<open>sdk/_publish_runtime.py\<close>) and the lenient parser of the SDK (\<open>sdk/api.py\<close>). \<open>json.loads\<close> is a
  parameter. Diagnostics name the line; the wording of a JSON error is left out.
\<close>

abbreviation LF :: char where "LF \<equiv> CHR 0x0A"
abbreviation CR :: char where "CR \<equiv> CHR 0x0D"

definition MAX_LINE_LENGTH :: int where "MAX_LINE_LENGTH = 65536"

text \<open>\<open>len(s)\<close> of a \<open>str\<close>: its code points, i.e. the bytes that do not continue a UTF-8 sequence.\<close>

definition is_continuation :: "char \<Rightarrow> bool" where
  "is_continuation c \<longleftrightarrow> (let n = of_char c :: nat in 128 \<le> n \<and> n < 192)"

definition py_len :: "string \<Rightarrow> int" where
  "py_len s = int (length (filter (\<lambda>c. \<not> is_continuation c) s))"

text \<open>\<open>s.rstrip(chars)\<close>.\<close>

definition rstrip_chars :: "char set \<Rightarrow> string \<Rightarrow> string" where
  "rstrip_chars cs s = rev (dropWhile (\<lambda>c. c \<in> cs) (rev s))"

text \<open>What one non-empty line gives: a row, a diagnostic, or an exception of the parser that is not a
  \<open>JSONDecodeError\<close>.\<close>

datatype line_result = LRow jdict | LBad string | LRaise exn

definition read_line :: "(string \<Rightarrow> exn + json) \<Rightarrow> nat \<Rightarrow> string \<Rightarrow> line_result" where
  "read_line loads line_num line =
     (if py_len line > MAX_LINE_LENGTH then LBad (''line '' @ nat_str line_num @ '': exceeds maximum line length'')
      else case loads line of
             Inl e \<Rightarrow> if isinst e JSONDecodeError then LBad (''line '' @ nat_str line_num @ '': malformed JSON'') else LRaise e
           | Inr (JDict d) \<Rightarrow> LRow d
           | Inr j \<Rightarrow> LBad (''line '' @ nat_str line_num @ '': expected a JSON object''))"

text \<open>
  The generator over raw lines, as its consumer \<open>list(...)\<close> sees it: in strict mode the first
  diagnostic ends the command, otherwise it is printed and the line skipped. The result is the
  rows with the printed warnings, or the diagnostic with which the command exits (code 2).
\<close>

datatype read_error = Diagnostic string | Escaped exn

fun read_lines ::
  "(string \<Rightarrow> exn + json) \<Rightarrow> bool \<Rightarrow> nat \<Rightarrow> bool \<Rightarrow> string list \<Rightarrow> read_error + (jdict list \<times> string list)" where
  "read_lines loads strict line_num has_data [] =
     (if \<not> has_data \<and> strict then Inl (Diagnostic ''empty input: no JSONL rows provided'') else Inr ([], []))"
| "read_lines loads strict line_num has_data (raw # raws) =
     (let line = rstrip_chars {LF, CR} raw in
      if line = [] then read_lines loads strict line_num has_data raws
      else case read_line loads (line_num + 1) line of
             LRow d \<Rightarrow> bindR (read_lines loads strict (line_num + 1) True raws) (\<lambda>(rows, warns). Inr (d # rows, warns))
           | LBad msg \<Rightarrow>
               if strict then Inl (Diagnostic msg)
               else bindR (read_lines loads strict (line_num + 1) True raws)
                      (\<lambda>(rows, warns). Inr (rows, (''WARN: '' @ msg) # warns))
           | LRaise e \<Rightarrow> Inl (Escaped e))"

definition read_jsonl :: "(string \<Rightarrow> exn + json) \<Rightarrow> bool \<Rightarrow> string list \<Rightarrow> read_error + (jdict list \<times> string list)" where
  "read_jsonl loads strict source = read_lines loads strict 0 False source"

text \<open>A text stream: \<open>CR LF\<close> and a lone \<open>CR\<close> are read as \<open>LF\<close>, and the lines keep their \<open>LF\<close>.\<close>

fun universal_newlines :: "string \<Rightarrow> string" where
  "universal_newlines [] = []"
| "universal_newlines (c # s) =
     (if c = CR then LF # (case s of [] \<Rightarrow> [] | d # t \<Rightarrow> if d = LF then universal_newlines t else universal_newlines s)
      else c # universal_newlines s)"

fun keep_ends :: "string list \<Rightarrow> string list" where
  "keep_ends [] = []"
| "keep_ends [l] = (if l = [] then [] else [l])"
| "keep_ends (l # m # ls) = (l @ [LF]) # keep_ends (m # ls)"

definition text_lines :: "string \<Rightarrow> string list" where
  "text_lines s = keep_ends (split_on LF (universal_newlines s))"

section \<open>The in-process reader\<close>

fun strict_rows :: "(string \<Rightarrow> exn + json) \<Rightarrow> nat \<Rightarrow> bool \<Rightarrow> string list \<Rightarrow> read_error + jdict list" where
  "strict_rows loads line_num has_data [] =
     (if \<not> has_data then Inl (Diagnostic ''empty input: no JSONL rows provided'') else Inr [])"
| "strict_rows loads line_num has_data (raw # raws) =
     (let line = rstrip_chars {CR} raw in
      if line = [] then strict_rows loads line_num has_data raws
      else case read_line loads (line_num + 1) line of
             LRow d \<Rightarrow> bindR (strict_rows loads (line_num + 1) True raws) (\<lambda>rows. Inr (d # rows))
           | LBad msg \<Rightarrow> Inl (Diagnostic msg)
           | LRaise e \<Rightarrow> Inl (Escaped e))"

definition read_publish_rows_strict :: "(string \<Rightarrow> exn + json) \<Rightarrow> string \<Rightarrow> read_error + jdict list" where
  "read_publish_rows_strict loads jsonl_str = strict_rows loads 0 False (split_on LF jsonl_str)"

text \<open>The lenient parser drops what is not a JSON object.\<close>

fun lenient_rows :: "(string \<Rightarrow> exn + json) \<Rightarrow> string list \<Rightarrow> exn + jdict list" where
  "lenient_rows loads [] = Inr []"
| "lenient_rows loads (raw # raws) =
     (let line = strip raw in
      if line = [] then lenient_rows loads raws
      else case loads line of
             Inl e \<Rightarrow> if isinst e JSONDecodeError then lenient_rows loads raws else Inl e
           | Inr (JDict d) \<Rightarrow> bindR (lenient_rows loads raws) (\<lambda>rows. Inr (d # rows))
           | Inr j \<Rightarrow> lenient_rows loads raws)"

definition parse_jsonl_rows :: "(string \<Rightarrow> exn + json) \<Rightarrow> string \<Rightarrow> exn + jdict list" where
  "parse_jsonl_rows loads jsonl_str = lenient_rows loads (split_on LF (strip jsonl_str))"

section \<open>The two strict readers agree\<close>

text \<open>Every \<open>CR\<close> is followed by an \<open>LF\<close>.\<close>

fun no_lone_cr :: "string \<Rightarrow> bool" where
  "no_lone_cr [] = True"
| "no_lone_cr (c # s) = ((c = CR \<longrightarrow> s \<noteq> [] \<and> hd s = LF) \<and> no_lone_cr s)"

lemma rstrip_chars_simps [simp]:
  "rstrip_chars cs [] = []"
  "rstrip_chars cs (s @ [c]) = (if c \<in> cs then rstrip_chars cs s else s @ [c])"
  by (simp_all add: rstrip_chars_def)

lemma rstrip_chars_id: "set s \<inter> cs = {} \<Longrightarrow> rstrip_chars cs s = s"
  by (cases s rule: rev_cases) auto

text \<open>What \<open>universal_newlines\<close> does to the pieces between line feeds: it drops a final \<open>CR\<close>.\<close>

definition chomp :: "string \<Rightarrow> string" where
  "chomp s = (if s \<noteq> [] \<and> last s = CR then butlast s else s)"

lemma split_universal:
  "no_lone_cr s \<Longrightarrow> split_on LF (universal_newlines s) = map chomp (split_on LF s) \<and>
     (\<forall>l \<in> set (split_on LF s). CR \<notin> set (chomp l))"
proof (induction s rule: universal_newlines.induct)
  case 1
  then show ?case by (simp add: chomp_def)
next
  case (2 c s)
  show ?case
  proof (cases "c = CR")
    case True
    then obtain t where s: "s = LF # t" using 2(4) by (cases s) auto
    have "split_on LF (universal_newlines t) = map chomp (split_on LF t) \<and>
        (\<forall>l \<in> set (split_on LF t). CR \<notin> set (chomp l))"
      using 2(1)[OF True s] 2(4) s by simp
    then show ?thesis using True s by (simp add: chomp_def)
  next
    case False
    note IH = 2(3)[OF False]
    obtain l ls where ls: "split_on LF s = l # ls" by (cases "split_on LF s") auto
    have ih: "split_on LF (universal_newlines s) = map chomp (split_on LF s)"
      "\<forall>l \<in> set (split_on LF s). CR \<notin> set (chomp l)"
      using IH 2(4) by simp_all
    show ?thesis
      using ih ls False by (auto simp: chomp_def split: if_splits)
  qed
qed

lemma rstrip_piece:
  assumes "LF \<notin> set l" "CR \<notin> set (chomp l)"
  shows "rstrip_chars {CR} l = chomp l" "rstrip_chars {LF, CR} (chomp l) = chomp l"
    "rstrip_chars {LF, CR} (chomp l @ [LF]) = chomp l"
proof -
  have lf: "LF \<notin> set (chomp l)" using assms(1) by (auto simp: chomp_def dest: in_set_butlastD)
  show "rstrip_chars {CR} l = chomp l"
    using assms(2) by (cases l rule: rev_cases) (auto simp: chomp_def rstrip_chars_id split: if_splits)
  show "rstrip_chars {LF, CR} (chomp l) = chomp l" using lf assms(2) by (simp add: rstrip_chars_id)
  then show "rstrip_chars {LF, CR} (chomp l @ [LF]) = chomp l" by simp
qed

lemma split_on_pieces: "l \<in> set (split_on x s) \<Longrightarrow> x \<notin> set l"
proof (induction s arbitrary: l)
  case (Cons c s)
  obtain t ts where "split_on x s = t # ts" by (cases "split_on x s") auto
  with Cons show ?case by (auto split: if_splits)
qed simp

lemma readers_agree:
  assumes "ps \<noteq> []" "\<forall>l \<in> set ps. LF \<notin> set l \<and> CR \<notin> set (chomp l)"
  shows "read_lines loads True n b (keep_ends (map chomp ps)) = bindR (strict_rows loads n b ps) (\<lambda>rows. Inr (rows, []))"
  using assms
proof (induction ps arbitrary: n b)
  case (Cons l ls)
  have l: "rstrip_chars {CR} l = chomp l" "rstrip_chars {LF, CR} (chomp l) = chomp l"
    "rstrip_chars {LF, CR} (chomp l @ [LF]) = chomp l"
    using rstrip_piece[of l] Cons.prems by simp_all
  show ?case
  proof (cases ls)
    case Nil
    show ?thesis
    proof (cases "chomp l = []")
      case False
      then show ?thesis using Nil l by (cases "read_line loads (n + 1) (chomp l)") simp_all
    qed (use Nil l in simp)
  next
    case (Cons m ms)
    then have ih: "read_lines loads True k c (keep_ends (map chomp ls)) = bindR (strict_rows loads k c ls) (\<lambda>rows. Inr (rows, []))"
      for k c using Cons.IH Cons.prems by simp
    have k: "keep_ends (map chomp (l # ls)) = (chomp l @ [LF]) # keep_ends (map chomp ls)" using Cons by simp
    show ?thesis
    proof (cases "chomp l = []")
      case True
      then show ?thesis unfolding k using l ih by simp
    next
      case False
      then show ?thesis
        unfolding k using l by (cases "read_line loads (n + 1) (chomp l)") (simp_all add: ih bindR_assoc)
    qed
  qed
qed simp

lemma strict_reading:
  assumes "no_lone_cr s"
  shows "read_jsonl loads True (text_lines s) = bindR (read_publish_rows_strict loads s) (\<lambda>rows. Inr (rows, []))"
proof -
  have "split_on LF s \<noteq> []" "\<forall>l \<in> set (split_on LF s). LF \<notin> set l \<and> CR \<notin> set (chomp l)"
    using split_universal[OF assms] split_on_pieces by auto
  from readers_agree[OF this] show ?thesis
    unfolding read_jsonl_def read_publish_rows_strict_def text_lines_def conjunct1[OF split_universal[OF assms]] .
qed

text \<open>The two strict readers agree: for a text whose every \<open>CR\<close> belongs to a line end, the in-process
  reader of the SDK gives exactly the rows, or exactly the diagnostic, of the command reading the
  same text from its standard input.\<close>

theorem strict_readers_agree:
  assumes "no_lone_cr s"
  shows "read_jsonl loads True (text_lines s) = bindR (read_publish_rows_strict loads s) (\<lambda>rows. Inr (rows, []))"
  by (rule strict_reading[OF assms])

text \<open>A parser for the examples: only the text of an empty object is JSON.\<close>

definition braces :: "string \<Rightarrow> exn + json" where
  "braces s = (if s = ''{}'' then Inr (JDict []) else Inl (mkexn JSONDecodeError []))"

theorem strict_readers_agree_witness:
  "read_jsonl braces True (text_lines (''{}'' @ [CR, LF] @ ''{}'')) =
     bindR (read_publish_rows_strict braces (''{}'' @ [CR, LF] @ ''{}'')) (\<lambda>rows. Inr (rows, []))"
  by (rule strict_readers_agree) simp

text \<open>With a lone \<open>CR\<close> between two rows they differ: the command reads two rows, the in-process
  runtime rejects the input.\<close>

theorem lone_cr_divergence:
  "read_jsonl braces True (text_lines (''{}'' @ [CR] @ ''{}'')) = Inr ([[], []], []) \<and>
   read_publish_rows_strict braces (''{}'' @ [CR] @ ''{}'') = Inl (Diagnostic ''line 1: malformed JSON'')"
  by code_simp

end
