(* ===== verification/Schema.thy ===== *)
theory Schema
  imports Jsonl Url
begin

text \<open>
  Validation of payload rows: the checks of planned rows (\<open>schema.py\<close>, \<open>_schema_output.py\<close>) and of
  seed rows (\<open>_schema_input.py\<close>), and the typed models of both (\<open>_payload_types.py\<close>). Parameters are
  the registered platforms, the length of \<open>json.dumps\<close>, the IDNA codec and pydantic's lax conversion
  to \<open>bool\<close>. Messages are the source's, except that an offending value that may be of any type is left out. White space is ASCII, as in \<open>strip\<close>.
\<close>

section \<open>Types of values\<close>

datatype ftype = StrT | ListT | DictT

fun ftype_name :: "ftype \<Rightarrow> string" where
  "ftype_name StrT = ''str''"
| "ftype_name ListT = ''list''"
| "ftype_name DictT = ''dict''"

fun type_name :: "json \<Rightarrow> string" where
  "type_name JNull = ''NoneType''"
| "type_name (JBool b) = ''bool''"
| "type_name (JInt n) = ''int''"
| "type_name (JFloat x) = ''float''"
| "type_name (JStr s) = ''str''"
| "type_name (JList xs) = ''list''"
| "type_name (JDict d) = ''dict''"

definition has_type :: "json \<Rightarrow> ftype \<Rightarrow> bool" where
  "has_type j t \<longleftrightarrow> type_name j = ftype_name t"

definition has_field :: "jdict \<Rightarrow> string \<Rightarrow> bool" where
  "has_field d k \<longleftrightarrow> dget d k \<noteq> None"

text \<open>\<open>x in s\<close> for a set of strings: an unhashable \<open>x\<close> raises.\<close>

definition in_names :: "json \<Rightarrow> string list \<Rightarrow> exn + bool" where
  "in_names j names =
     (if hashable j then Inr (j \<in> JStr ` set names) else Inl (mkexn TypeErr ''unhashable type''))"

text \<open>\<open>re.match(r"^https?://", x)\<close>: only a string can be matched.\<close>

definition http_url :: "string \<Rightarrow> bool" where
  "http_url s \<longleftrightarrow> startswith s ''http://'' \<or> startswith s ''https://''"

definition re_http_url :: "json \<Rightarrow> exn + bool" where
  "re_http_url j = (case j of JStr s \<Rightarrow> Inr (http_url s) | _ \<Rightarrow> Inl (mkexn TypeErr ''expected string or bytes-like object''))"

text \<open>\<open>len(x)\<close>.\<close>

definition json_len :: "json \<Rightarrow> exn + int" where
  "json_len j = (case j of
       JStr s \<Rightarrow> Inr (py_len s)
     | JList xs \<Rightarrow> Inr (int (length xs))
     | JDict d \<Rightarrow> Inr (int (length d))
     | _ \<Rightarrow> Inl (mkexn TypeErr ''object has no len()''))"

text \<open>The items of \<open>for x in value\<close>.\<close>

fun iter_json :: "json \<Rightarrow> exn + json list" where
  "iter_json (JList xs) = Inr xs"
| "iter_json (JDict d) = Inr (map (\<lambda>(k, v). JStr k) d)"
| "iter_json (JStr s) = Inr (map (\<lambda>c. JStr [c]) s)"
| "iter_json _ = Inl (mkexn TypeErr ''object is not iterable'')"

text \<open>Error lists of checks that can raise are appended in order.\<close>

definition appendR :: "exn + 'a list \<Rightarrow> exn + 'a list \<Rightarrow> exn + 'a list" where
  "appendR r r' = bindR r (\<lambda>xs. bindR r' (\<lambda>ys. Inr (xs @ ys)))"

fun concatR :: "(exn + 'a list) list \<Rightarrow> exn + 'a list" where
  "concatR [] = Inr []"
| "concatR (r # rs) = appendR r (concatR rs)"

section \<open>The tables\<close>

definition OUTPUT_REQUIRED_FIELDS :: "(string \<times> ftype) list" where
  "OUTPUT_REQUIRED_FIELDS =
     [(''id'', StrT), (''platform'', StrT), (''language'', StrT), (''publish_mode'', StrT),
      (''target_url'', StrT), (''main_domain'', StrT), (''url_mode'', StrT), (''title'', StrT),
      (''slug'', StrT), (''excerpt'', StrT), (''tags'', ListT), (''links'', ListT), (''seo'', DictT)]"

definition OUTPUT_ONE_OF_GROUPS :: "string list list" where
  "OUTPUT_ONE_OF_GROUPS = [[''content_markdown'', ''content_html'']]"

definition OUTPUT_OPTIONAL_FIELDS :: "(string \<times> ftype) list" where
  "OUTPUT_OPTIONAL_FIELDS =
     [(''content_markdown'', StrT), (''content_html'', StrT), (''main_domain_normalized'', StrT)]"

definition LINK_KINDS :: "string list" where
  "LINK_KINDS = [''main_domain'', ''target'', ''supporting'', ''extra'', ''category'', ''detail'']"

definition INPUT_SCHEMA_FIELDS :: "(string \<times> ftype) list" where
  "INPUT_SCHEMA_FIELDS =
     [(''target_url'', StrT), (''main_domain'', StrT), (''language'', StrT), (''platform'', StrT),
      (''url_mode'', StrT), (''publish_mode'', StrT)]"

definition INPUT_OPTIONAL_FIELDS :: "(string \<times> ftype) list" where
  "INPUT_OPTIONAL_FIELDS =
     [(''topic'', StrT), (''seed_keywords'', ListT), (''extra_urls'', ListT), (''custom_title'', StrT),
      (''custom_tags'', StrT), (''target_language'', StrT)]"

definition SUPPORTED_LANGUAGES :: "string list" where
  "SUPPORTED_LANGUAGES = [''zh-CN'', ''ru'', ''en'', ''ko'']"

definition URL_MODES :: "string list" where "URL_MODES = [''A'', ''B'', ''C'']"
definition PUBLISH_MODES :: "string list" where "PUBLISH_MODES = [''draft'', ''publish'']"

definition MAX_PAYLOAD_SIZE_BYTES :: int where "MAX_PAYLOAD_SIZE_BYTES = 262144"
definition MAX_CONTENT_HTML_BYTES :: int where "MAX_CONTENT_HTML_BYTES = 1048576"
definition MAX_SEED_KEYWORDS :: nat where "MAX_SEED_KEYWORDS = 100"
definition MAX_EXTRA_URLS :: nat where "MAX_EXTRA_URLS = 200"
definition MAX_ITEM_LENGTH :: int where "MAX_ITEM_LENGTH = 500"

section \<open>Planned rows\<close>

definition check_output_required_fields :: "jdict \<Rightarrow> string list" where
  "check_output_required_fields row =
     concat (map (\<lambda>(field, t). case dget row field of
         None \<Rightarrow> [''missing required output field '' @ py_repr field]
       | Some v \<Rightarrow> if has_type v t then []
                  else [''field '' @ py_repr field @ '' must be '' @ ftype_name t @ '', got '' @ type_name v])
       OUTPUT_REQUIRED_FIELDS)"

definition check_output_optional_field_types :: "jdict \<Rightarrow> string list" where
  "check_output_optional_field_types row =
     concat (map (\<lambda>(field, t). case dget row field of
         None \<Rightarrow> []
       | Some v \<Rightarrow> if has_type v t then []
                  else [''field '' @ py_repr field @ '' must be '' @ ftype_name t @ '', got '' @ type_name v])
       OUTPUT_OPTIONAL_FIELDS)"

definition is_field_present :: "json \<Rightarrow> bool" where
  "is_field_present v \<longleftrightarrow> (case v of JStr s \<Rightarrow> strip s \<noteq> [] | _ \<Rightarrow> False)"

definition check_output_one_of_groups :: "jdict \<Rightarrow> string list" where
  "check_output_one_of_groups row =
     concat (map (\<lambda>group. if list_ex (\<lambda>field. is_field_present (jget row field)) group then []
                         else [''at least one of ['' @ join '', '' (map py_repr group) @ ''] must be present and non-empty''])
       OUTPUT_ONE_OF_GROUPS)"

definition check_content_html_size :: "jdict \<Rightarrow> string list" where
  "check_content_html_size row =
     (case dget row ''content_html'' of
        Some (JStr s) \<Rightarrow> if int (length s) > MAX_CONTENT_HTML_BYTES then [''content_html size '' @ nat_str (length s) @ '' bytes exceeds 1048576 byte cap''] else []
      | _ \<Rightarrow> [])"

definition link_label :: "nat \<Rightarrow> string" where
  "link_label i = ''links['' @ nat_str i @ '']''"

definition link_errors :: "nat \<Rightarrow> json \<Rightarrow> exn + string list" where
  "link_errors i link =
     (case link of
        JDict l \<Rightarrow>
          concatR
            [Inr (concat (map (\<lambda>req. if has_field l req then [] else [link_label i @ '': missing field '' @ py_repr req])
                    [''url'', ''anchor'', ''kind'', ''required''])),
             (case dget l ''url'' of None \<Rightarrow> Inr []
              | Some u \<Rightarrow> bindR (re_http_url u) (\<lambda>ok. Inr (if ok then [] else [link_label i @ '': invalid URL format'']))),
             (case dget l ''kind'' of None \<Rightarrow> Inr []
              | Some k \<Rightarrow> bindR (in_names k LINK_KINDS) (\<lambda>ok. Inr (if ok then [] else [link_label i @ '': invalid kind''])))]
      | _ \<Rightarrow> Inr [link_label i @ '' must be a dict''])"

fun links_errors :: "nat \<Rightarrow> json list \<Rightarrow> exn + string list" where
  "links_errors i [] = Inr []"
| "links_errors i (l # ls) = appendR (link_errors i l) (links_errors (i + 1) ls)"

definition check_links_structure :: "jdict \<Rightarrow> exn + string list" where
  "check_links_structure row =
     (case dget row ''links'' of Some (JList ls) \<Rightarrow> links_errors 0 ls | _ \<Rightarrow> Inr [])"

text \<open>
  \<open>^https?://[^\s\"'<>`\x00-\x1f\x7f]+$\<close> with \<open>IGNORECASE\<close>: the \<open>s\<close> also matches the long s (the bytes
  \<open>C5 BF\<close>), and \<open>$\<close> also matches before a final line feed.
\<close>

definition url_char :: "char \<Rightarrow> bool" where
  "url_char c \<longleftrightarrow> \<not> is_space c \<and> c \<notin> {CHR 0x22, CHR 0x27, CHR ''<'', CHR ''>'', CHR 0x60, CHR 0x7F}
                \<and> \<not> (of_char c :: nat) < 32"

definition url_body :: "string \<Rightarrow> bool" where
  "url_body s \<longleftrightarrow> (let b = (if s \<noteq> [] \<and> last s = LF then butlast s else s) in b \<noteq> [] \<and> list_all url_char b)"

definition canonical_url_ok :: "string \<Rightarrow> bool" where
  "canonical_url_ok s \<longleftrightarrow>
     (lower (take 7 s) = ''http://'' \<and> url_body (drop 7 s)) \<or>
     (lower (take 8 s) = ''https://'' \<and> url_body (drop 8 s)) \<or>
     (lower (take 4 s) = ''http'' \<and> take 5 (drop 4 s) = [CHR 0xC5, CHR 0xBF] @ ''://'' \<and> url_body (drop 9 s))"

definition check_seo_structure :: "jdict \<Rightarrow> string list" where
  "check_seo_structure row =
     (case dget row ''seo'' of
        Some (JDict seo) \<Rightarrow>
          concat (map (\<lambda>req. case dget seo req of
               None \<Rightarrow> [''seo: missing field '' @ py_repr req]
             | Some v \<Rightarrow> if has_type v StrT then [] else [''seo.'' @ req @ '' must be a string''])
             [''title'', ''description'', ''canonical_url'']) @
          (case jget seo ''canonical_url'' of
             JStr c \<Rightarrow> if c \<noteq> [] \<and> \<not> canonical_url_ok c then [''seo.canonical_url is not a valid http(s) URL''] else []
           | _ \<Rightarrow> [])
      | _ \<Rightarrow> [])"

definition check_link_count :: "jdict \<Rightarrow> exn + string list" where
  "check_link_count row =
     bindR (json_len (jget_or row ''links'' (JList []))) (\<lambda>n.
       Inr (if n < 6 \<or> n > 8 then [''link count '' @ nat_str (nat n) @ '' is not between 6 and 8''] else []))"

definition check_nonempty_text_fields :: "jdict \<Rightarrow> string list" where
  "check_nonempty_text_fields row =
     concat (map (\<lambda>field. case dget row field of
         Some (JStr s) \<Rightarrow> if strip s = [] then [field @ '' must not be empty''] else []
       | _ \<Rightarrow> [])
       [''title'', ''excerpt'', ''slug''])"

definition check_payload_size :: "(jdict \<Rightarrow> string) \<Rightarrow> jdict \<Rightarrow> string list" where
  "check_payload_size dumps row =
     (if int (length (dumps row)) > MAX_PAYLOAD_SIZE_BYTES then [''payload size '' @ nat_str (length (dumps row)) @ '' bytes exceeds 262144 byte cap''] else [])"

definition domain_in_text :: "string \<Rightarrow> string \<Rightarrow> bool" where
  "domain_in_text domain text \<longleftrightarrow> contains (rstrip_chars {CHR ''/''} domain) text \<or> contains domain text"

definition check_main_domain_presence :: "jdict \<Rightarrow> string option" where
  "check_main_domain_presence row =
     (case dget row ''main_domain'' of
        Some (JStr d) \<Rightarrow>
          (case jget row ''content_markdown'' of
             JStr md \<Rightarrow> if strip md \<noteq> [] \<and> \<not> domain_in_text d md
                       then Some (''main_domain '' @ py_repr d @ '' does not appear in content_markdown'') else None
           | _ \<Rightarrow> None)
      | _ \<Rightarrow> None)"

definition validate_output_payload :: "(jdict \<Rightarrow> string) \<Rightarrow> jdict \<Rightarrow> exn + string list" where
  "validate_output_payload dumps row =
     concatR
       [Inr (check_output_required_fields row), Inr (check_output_optional_field_types row),
        Inr (check_output_one_of_groups row), Inr (check_content_html_size row),
        check_links_structure row, Inr (check_seo_structure row), check_link_count row,
        Inr (check_nonempty_text_fields row), Inr (check_payload_size dumps row),
        Inr (case check_main_domain_presence row of None \<Rightarrow> [] | Some e \<Rightarrow> [e])]"

definition reject_unsupported_platform :: "string list \<Rightarrow> json \<Rightarrow> exn + string option" where
  "reject_unsupported_platform supported platform =
     bindR (in_names platform supported) (\<lambda>ok. Inr (if ok then None else Some (''platform is not supported. Supported: '' @ join '', '' (sort supported))))"

section \<open>The typed model of a planned row\<close>

text \<open>Pydantic checks the type of every field and then runs the validators; extra fields are
  ignored. \<open>boolish\<close> tells which values its lax mode converts to a \<open>bool\<close>.\<close>

definition is_str :: "json \<Rightarrow> bool" where
  "is_str j \<longleftrightarrow> (case j of JStr s \<Rightarrow> True | _ \<Rightarrow> False)"

definition str_field :: "jdict \<Rightarrow> string \<Rightarrow> bool" where
  "str_field d k \<longleftrightarrow> is_str (jget d k)"

definition opt_str_field :: "jdict \<Rightarrow> string \<Rightarrow> bool" where
  "opt_str_field d k \<longleftrightarrow> jget d k = JNull \<or> str_field d k"

definition literal_field :: "jdict \<Rightarrow> string \<Rightarrow> string list \<Rightarrow> bool" where
  "literal_field d k names \<longleftrightarrow> jget d k \<in> JStr ` set names"

definition str_where :: "jdict \<Rightarrow> string \<Rightarrow> (string \<Rightarrow> bool) \<Rightarrow> bool" where
  "str_where d k p \<longleftrightarrow> (case jget d k of JStr s \<Rightarrow> p s | _ \<Rightarrow> False)"

definition link_model_ok :: "(json \<Rightarrow> bool) \<Rightarrow> json \<Rightarrow> bool" where
  "link_model_ok boolish j \<longleftrightarrow>
     (case j of
        JDict l \<Rightarrow> str_where l ''url'' http_url \<and> str_field l ''anchor'' \<and> literal_field l ''kind'' LINK_KINDS \<and>
                  (case dget l ''required'' of None \<Rightarrow> False | Some r \<Rightarrow> boolish r)
      | _ \<Rightarrow> False)"

definition seo_model_ok :: "json \<Rightarrow> bool" where
  "seo_model_ok j \<longleftrightarrow>
     (case j of
        JDict s \<Rightarrow> str_field s ''title'' \<and> str_field s ''description'' \<and>
                  str_where s ''canonical_url'' (\<lambda>c. c = [] \<or> canonical_url_ok c)
      | _ \<Rightarrow> False)"

definition planned_payload_ok :: "(json \<Rightarrow> bool) \<Rightarrow> jdict \<Rightarrow> bool" where
  "planned_payload_ok boolish row \<longleftrightarrow>
     list_all (str_field row) [''id'', ''platform'', ''language'', ''target_url'', ''main_domain''] \<and>
     literal_field row ''publish_mode'' PUBLISH_MODES \<and> literal_field row ''url_mode'' URL_MODES \<and>
     list_all (\<lambda>k. str_where row k (\<lambda>s. strip s \<noteq> [])) [''title'', ''slug'', ''excerpt''] \<and>
     (case jget row ''tags'' of JList ts \<Rightarrow> list_all is_str ts | _ \<Rightarrow> False) \<and>
     (case jget row ''links'' of
        JList ls \<Rightarrow> list_all (link_model_ok boolish) ls \<and> 6 \<le> length ls \<and> length ls \<le> 8 | _ \<Rightarrow> False) \<and>
     seo_model_ok (jget row ''seo'') \<and>
     list_all (opt_str_field row) [''content_markdown'', ''content_html'', ''main_domain_normalized''] \<and>
     (case jget row ''content_html'' of JStr s \<Rightarrow> int (length s) \<le> MAX_CONTENT_HTML_BYTES | _ \<Rightarrow> True) \<and>
     (truthy (jget row ''content_markdown'') \<or> truthy (jget row ''content_html'')) \<and>
     (case (jget row ''content_markdown'', jget row ''main_domain'') of
        (JStr md, JStr d) \<Rightarrow> md = [] \<or> d = [] \<or> domain_in_text d md | _ \<Rightarrow> True)"

definition validate_publish_payload ::
  "string list \<Rightarrow> (json \<Rightarrow> bool) \<Rightarrow> (jdict \<Rightarrow> string) \<Rightarrow> jdict \<Rightarrow> exn + string list" where
  "validate_publish_payload supported boolish dumps row =
     bindR (validate_output_payload dumps row) (\<lambda>errors.
     bindR (case dget row ''platform'' of None \<Rightarrow> Inr None | Some p \<Rightarrow> reject_unsupported_platform supported p) (\<lambda>msg.
       let errors = errors @ (case msg of None \<Rightarrow> [] | Some m \<Rightarrow> [m]) in
       Inr (if errors = [] \<and> \<not> planned_payload_ok boolish row then [''Pydantic validation failed''] else errors)))"

text \<open>The result: whether there is a model, and the errors.\<close>

definition validate_and_convert_output ::
  "(json \<Rightarrow> bool) \<Rightarrow> (jdict \<Rightarrow> string) \<Rightarrow> jdict \<Rightarrow> exn + (jdict option \<times> string list)" where
  "validate_and_convert_output boolish dumps row =
     bindR (validate_output_payload dumps row) (\<lambda>errors.
       Inr (if errors \<noteq> [] then (None, errors)
            else if planned_payload_ok boolish row then (Some row, []) else (None, [''Pydantic validation failed''])))"

section \<open>Seed rows\<close>

definition line_label :: "nat \<Rightarrow> string" where
  "line_label n = ''line '' @ nat_str n @ '': ''"

definition check_input_required_fields :: "jdict \<Rightarrow> nat \<Rightarrow> string list" where
  "check_input_required_fields row line_num =
     concat (map (\<lambda>(field, t). case dget row field of
         None \<Rightarrow> [line_label line_num @ ''missing required field '' @ py_repr field]
       | Some v \<Rightarrow> if has_type v t then [] else [line_label line_num @ ''field '' @ py_repr field @ '' must be '' @ ftype_name t])
       INPUT_SCHEMA_FIELDS)"

definition check_input_optional_field_types :: "jdict \<Rightarrow> nat \<Rightarrow> string list" where
  "check_input_optional_field_types row line_num =
     concat (map (\<lambda>(field, t). case dget row field of
         None \<Rightarrow> []
       | Some v \<Rightarrow> if has_type v t then [] else [line_label line_num @ ''field '' @ py_repr field @ '' must be '' @ ftype_name t])
       INPUT_OPTIONAL_FIELDS)"

definition check_input_enumerated_values :: "string list \<Rightarrow> jdict \<Rightarrow> nat \<Rightarrow> exn + string list" where
  "check_input_enumerated_values supported row line_num =
     concatR (map (\<lambda>(field, names, msg). case dget row field of
         None \<Rightarrow> Inr []
       | Some v \<Rightarrow> bindR (in_names v names) (\<lambda>ok. Inr (if ok then [] else [line_label line_num @ msg])))
       [(''language'', SUPPORTED_LANGUAGES, ''unsupported language''), (''platform'', supported, ''unsupported platform''),
        (''url_mode'', URL_MODES, ''invalid url_mode''), (''publish_mode'', PUBLISH_MODES, ''invalid publish_mode'')])"

text \<open>The IDNA codec gives the ASCII form of a host, or raises \<open>UnicodeError\<close> (a \<open>ValueError\<close>).\<close>

definition normalize_main_domain :: "(string \<Rightarrow> string option) \<Rightarrow> string \<Rightarrow> exn + string" where
  "normalize_main_domain idna url =
     bindR (urlsplit (strip url)) (\<lambda>parts.
       case url_hostname parts of
         None \<Rightarrow> Inl (mkexn ValueErr ''main_domain has no parseable hostname'')
       | Some h \<Rightarrow>
           (case idna h of
              None \<Rightarrow> Inl (mkexn ValueErr ''main_domain IDN-encode failed'')
            | Some a \<Rightarrow>
                let host = rstrip_chars {CHR ''.''} (lower a) in
                if host = [] then Inl (mkexn ValueErr ''main_domain IDN-encode produced empty hostname'')
                else bindR (url_port parts) (\<lambda>port.
                  Inr (urlunsplit (parts\<lparr>u_netloc := (case port of None \<Rightarrow> host | Some n \<Rightarrow> host @ '':'' @ nat_str (nat n))\<rparr>)))))"

text \<open>A valid \<open>main_domain\<close> is stored in its normal form beside the original; the result is the
  errors with the row as it is now.\<close>

definition check_input_urls_and_normalize ::
  "env \<Rightarrow> (string \<Rightarrow> string option) \<Rightarrow> jdict \<Rightarrow> nat \<Rightarrow> string list \<times> jdict" where
  "check_input_urls_and_normalize env idna row line_num =
     (let bad = (\<lambda>field. [line_label line_num @ ''field '' @ py_repr field @ '' is not a valid URL'']);
          es = (case dget row ''target_url'' of None \<Rightarrow> [] | Some v \<Rightarrow> if http_url (py_str env v) then [] else bad ''target_url'')
      in case dget row ''main_domain'' of
           None \<Rightarrow> (es, row)
         | Some v \<Rightarrow>
             if \<not> http_url (py_str env v) then (es @ bad ''main_domain'', row)
             else case normalize_main_domain idna (py_str env v) of
                    Inr s \<Rightarrow> (es, dput ''main_domain_normalized'' (JStr s) row)
                  | Inl e \<Rightarrow> (es @ [line_label line_num @ ''field '' @ py_repr ''main_domain'' @ '' could not be normalized: '' @ str_exn e], row))"

text \<open>The item checks of \<open>seed_keywords\<close> and \<open>extra_urls\<close>.\<close>

definition item_errors :: "nat \<Rightarrow> string \<Rightarrow> nat \<Rightarrow> json \<Rightarrow> string list" where
  "item_errors line_num field i item =
     (case item of
        JStr s \<Rightarrow> if py_len s > MAX_ITEM_LENGTH then [line_label line_num @ field @ ''['' @ nat_str i @ ''] exceeds 500 chars''] else []
      | _ \<Rightarrow> [line_label line_num @ py_repr field @ '' items must be strings''])"

fun items_errors :: "nat \<Rightarrow> string \<Rightarrow> nat \<Rightarrow> json list \<Rightarrow> string list" where
  "items_errors line_num field i [] = []"
| "items_errors line_num field i (x # xs) = item_errors line_num field i x @ items_errors line_num field (i + 1) xs"

definition list_errors :: "string \<Rightarrow> nat \<Rightarrow> jdict \<Rightarrow> nat \<Rightarrow> string list" where
  "list_errors field cap row line_num =
     (case dget row field of
        Some (JList xs) \<Rightarrow>
          (if length xs > cap then [line_label line_num @ py_repr field @ '' exceeds '' @ nat_str cap @ '' items''] else []) @
          items_errors line_num field 0 (take cap xs)
      | _ \<Rightarrow> [])"

definition check_input_seed_keywords :: "jdict \<Rightarrow> nat \<Rightarrow> string list" where
  "check_input_seed_keywords = list_errors ''seed_keywords'' MAX_SEED_KEYWORDS"

definition check_input_extra_urls :: "jdict \<Rightarrow> nat \<Rightarrow> string list" where
  "check_input_extra_urls = list_errors ''extra_urls'' MAX_EXTRA_URLS"

definition validate_input_payload ::
  "string list \<Rightarrow> env \<Rightarrow> (string \<Rightarrow> string option) \<Rightarrow> jdict \<Rightarrow> nat \<Rightarrow> exn + (string list \<times> jdict)" where
  "validate_input_payload supported env idna row line_num =
     bindR (check_input_enumerated_values supported row line_num) (\<lambda>enum.
       let (urls, row') = check_input_urls_and_normalize env idna row line_num in
       Inr (check_input_required_fields row line_num @ check_input_optional_field_types row line_num @ enum @ urls @
            check_input_seed_keywords row' line_num @ check_input_extra_urls row' line_num, row'))"

definition opt_str_list :: "json \<Rightarrow> bool" where
  "opt_str_list j \<longleftrightarrow> (case j of JNull \<Rightarrow> True | JList xs \<Rightarrow> list_all is_str xs | _ \<Rightarrow> False)"

definition seed_payload_ok :: "string list \<Rightarrow> jdict \<Rightarrow> bool" where
  "seed_payload_ok supported row \<longleftrightarrow>
     list_all (\<lambda>k. str_where row k http_url) [''target_url'', ''main_domain''] \<and>
     literal_field row ''language'' SUPPORTED_LANGUAGES \<and> literal_field row ''platform'' supported \<and>
     literal_field row ''url_mode'' URL_MODES \<and> literal_field row ''publish_mode'' PUBLISH_MODES \<and>
     list_all (opt_str_field row) [''topic'', ''custom_title'', ''custom_tags'', ''target_language'', ''main_domain_normalized''] \<and>
     opt_str_list (jget row ''seed_keywords'') \<and> opt_str_list (jget row ''extra_urls'')"

definition validate_and_convert_input ::
  "string list \<Rightarrow> env \<Rightarrow> (string \<Rightarrow> string option) \<Rightarrow> jdict \<Rightarrow> nat \<Rightarrow> exn + (bool \<times> string list \<times> jdict)" where
  "validate_and_convert_input supported env idna row line_num =
     bindR (validate_input_payload supported env idna row line_num) (\<lambda>(errors, row').
       Inr (if errors \<noteq> [] then (False, errors, row')
            else if seed_payload_ok supported row' then (True, [], row')
            else (False, [line_label line_num @ ''Pydantic validation failed''], row')))"

end
