(* ===== verification/Publish_Cmd.thy ===== *)
theory Publish_Cmd
  imports Publish Dedup_Ops Schema
begin

text \<open>
  The publish command around the loop: the operator verbs on checkpoints (\<open>cli/_publish_cli.py\<close>),
  the gates before the loop, the exits after it (\<open>cli/publish_backlinks/__init__.py\<close>,
  \<open>cli/_publish_helpers.py\<close>) and the preview of the dedup verdicts (\<open>cli/ops/preview_manifest.py\<close>).
  What a run prints as JSON lines is \<open>rw_output\<close>, other text on standard output is in the dedup world.
  Log and reconciliation lines, profiling and the signal collection after a run are left out.
\<close>

section \<open>Arguments and surroundings\<close>

text \<open>The options of \<open>_build_parser\<close>; those of the dedup verbs, with the shared \<open>--platform\<close>,
  \<open>--reason\<close>, \<open>--confirm\<close> and \<open>--resume\<close>, are in \<open>pa_dedup\<close>.\<close>

record publish_args =
  pa_dedup :: dedup_args
  pa_mode :: "string option"
  pa_dry_run :: bool
  pa_list_runs :: bool
  pa_cleanup :: "string option"
  pa_cleanup_all :: bool
  pa_preview_manifest :: bool
  pa_force_manifest :: "string option"
  pa_no_verify :: bool
  pa_skip_publish_time_check :: bool
  pa_reconcile :: "string option"
  pa_reconcile_all :: bool
  pa_max_rows :: int
  pa_tier_1 :: bool

definition default_publish_args :: publish_args where
  "default_publish_args =
     \<lparr>pa_dedup = no_args, pa_mode = Some ''draft'', pa_dry_run = False, pa_list_runs = False, pa_cleanup = None,
      pa_cleanup_all = False, pa_preview_manifest = False, pa_force_manifest = None, pa_no_verify = False,
      pa_skip_publish_time_check = False, pa_reconcile = None, pa_reconcile_all = False, pa_max_rows = 1000,
      pa_tier_1 = False\<rparr>"

text \<open>
  Given from outside, beside what the loop is given: the JSON parser, the lines of the input, the
  configuration load, the validation parameters, whether a platform is declared dofollow, the
  adapter setup check, the iteration order of a set of names, the clock text of the leases, the
  digest and the token of the dedup store, the events database, the manifest files, the
  reconciler's summary, and the resume command.
\<close>

record shell_ctx =
  sh_px :: publish_ctx
  sh_loads :: "string \<Rightarrow> exn + json"
  sh_input :: "string list"
  sh_load_config :: "exn + unit"
  sh_boolish :: "json \<Rightarrow> bool"
  sh_dumps :: "jdict \<Rightarrow> string"
  sh_dofollow :: "string \<Rightarrow> bool"
  sh_setup :: "string \<Rightarrow> exn + unit"
  sh_order :: "string list \<Rightarrow> string list"
  sh_isofmt :: "pyfloat \<Rightarrow> string"
  sh_digest :: "dedup_key \<Rightarrow> string"
  sh_store_token :: string
  sh_events :: events_db
  sh_manifest :: "string \<Rightarrow> exn + audit_line list"
  sh_reconcile :: "exn + jdict"
  sh_resume :: resume_cmd

abbreviation sh_env :: "shell_ctx \<Rightarrow> env" where "sh_env sh \<equiv> px_env (sh_px sh)"

section \<open>Checkpoint verbs\<close>

definition ljust :: "nat \<Rightarrow> string \<Rightarrow> string" where
  "ljust n s = s @ replicate (nat (int n - py_len s)) CHR '' ''"

definition rjust :: "nat \<Rightarrow> string \<Rightarrow> string" where
  "rjust n s = replicate (nat (int n - py_len s)) CHR '' '' @ s"

definition exclusive_flags :: "publish_args \<Rightarrow> bool list" where
  "exclusive_flags args =
     (let d = pa_dedup args in
      [str_truthy (a_resume d), pa_list_runs args, str_truthy (pa_cleanup args), pa_cleanup_all args,
       pa_preview_manifest args, a_forget d \<noteq> None, a_list_uncertain d, a_adjudicate_uncertain d \<noteq> None,
       a_adjudicate_bulk d, a_backfill_dedup d, a_check_enforce_readiness d, str_truthy (pa_force_manifest args)])"

definition count_status :: "string \<Rightarrow> jdict list \<Rightarrow> exn + nat" where
  "count_status status items =
     bindR (mapR (\<lambda>i. jindex (JDict i) ''status'') items) (\<lambda>ss. Inr (length (filter (\<lambda>s. s = JStr status) ss)))"

definition run_line :: "jdict \<Rightarrow> exn + string" where
  "run_line run =
     bindR (bindR (items_of run) (mapR jdict_of)) (\<lambda>items.
     bindR (count_status ''pending'' items) (\<lambda>pending.
     bindR (count_status ''failed'' items) (\<lambda>failed.
     bindR (jindex (JDict run) ''run_id'') (\<lambda>rid.
       Inr (ljust 32 (str_of rid) @ ''  '' @ ljust 26 (str_of (jget_or run ''started_at'' (JStr []))) @ ''  '' @
            rjust 7 (nat_str pending) @ ''  '' @ rjust 7 (nat_str failed))))))"

definition list_runs :: "unit ract" where
  "list_runs =
     bindS (on_ckpt (\<lambda>s. (list_incomplete s, s))) (\<lambda>runs.
       if runs = [] then on_dedup (print_out ''No incomplete runs.'')
       else bindS (on_dedup (print_rows [ljust 32 ''RUN_ID'' @ ''  '' @ ljust 26 ''STARTED'' @ ''  '' @ rjust 7 ''PENDING'' @
                                          ''  '' @ rjust 7 ''FAILED'', replicate 76 CHR ''-''])) (\<lambda>u.
            bindS (liftR (mapR run_line runs)) (\<lambda>ls. on_dedup (print_rows ls))))"

definition handle_checkpoint_ops :: "publish_args \<Rightarrow> unit ract" where
  "handle_checkpoint_ops args =
     (if length (filter (\<lambda>b. b) (exclusive_flags args)) > 1
      then emit_error_as ''error: the given options are mutually exclusive'' 2 None
      else if pa_list_runs args then bindS list_runs (\<lambda>u. raiseS (SysExit 0))
      else case pa_cleanup args of
        Some (c # cs) \<Rightarrow>
          bindS (catchS [ValueErr, FileNotFound]
                   (bindS (on_ckpt (delete_run (c # cs))) (\<lambda>u. on_dedup (print_out (''Deleted checkpoint: '' @ c # cs))))
                   (\<lambda>e. emit_error_as (str_exn e) 2 None))
            (\<lambda>u. raiseS (SysExit 0))
      | _ \<Rightarrow>
          if pa_cleanup_all args
          then bindS (on_ckpt delete_complete) (\<lambda>n.
               bindS (on_dedup (print_out (''Deleted '' @ nat_str n @ '' complete checkpoint(s).''))) (\<lambda>u. raiseS (SysExit 0)))
          else retS ())"

section \<open>The preview of the dedup verdicts\<close>

definition VERDICT_NEW :: string where "VERDICT_NEW = ''NEW''"
definition VERDICT_SKIP :: string where "VERDICT_SKIP = ''SKIP-DUPLICATE''"
definition VERDICT_HOLD :: string where "VERDICT_HOLD = ''HOLD-UNCERTAIN''"

definition verdict_for_state :: "dstate option \<Rightarrow> string" where
  "verdict_for_state state =
     (case state of
        None \<Rightarrow> VERDICT_NEW
      | Some Done \<Rightarrow> VERDICT_SKIP
      | Some Uncertain \<Rightarrow> VERDICT_HOLD
      | Some Attempting \<Rightarrow> VERDICT_HOLD
      | Some Failed \<Rightarrow> VERDICT_NEW)"

definition manifest_entry ::
  "shell_ctx \<Rightarrow> jdict \<Rightarrow> string \<Rightarrow> dedup_key option \<Rightarrow> dedup_record option \<Rightarrow> jdict" where
  "manifest_entry sh row platform key rec =
     (let state = map_option r_state rec in
      [(''id'', jget_or row ''id'' (JStr [])),
       (''platform'', case key of None \<Rightarrow> JStr platform | Some k \<Rightarrow> JStr (k_platform k)),
       (''account'', case key of None \<Rightarrow> JNull | Some k \<Rightarrow> JStr (k_account k)),
       (''target_url'', case key of None \<Rightarrow> jget row ''target_url'' | Some k \<Rightarrow> JStr (k_target_url k)),
       (''key_digest'', case key of None \<Rightarrow> JNull | Some k \<Rightarrow> JStr (sh_digest sh k)),
       (''state'', case state of None \<Rightarrow> JNull | Some s \<Rightarrow> JStr (dstate_name s)),
       (''verdict'', JStr (verdict_for_state state)),
       (''live_url'', case rec of None \<Rightarrow> JNull | Some r \<Rightarrow> jopt (r_live_url r)),
       (''run_id'', case rec of None \<Rightarrow> JNull | Some r \<Rightarrow> jopt (r_run_id r)),
       (''force'', JBool False), (''store_token'', JStr (sh_store_token sh))])"

text \<open>The verdicts of the rows with their digests, while the entries are printed.\<close>

fun manifest_loop :: "shell_ctx \<Rightarrow> string option \<Rightarrow> jdict list \<Rightarrow> (string \<times> string) list ract" where
  "manifest_loop sh arg [] = retS []"
| "manifest_loop sh arg (row # rows) =
     (let platform = row_platform arg row; key = key_for_row (sh_env sh) row platform in
      bindS (case key of None \<Rightarrow> retS None | Some k \<Rightarrow> on_dedup (on_store (store_get k))) (\<lambda>rec.
      bindS (write_output [manifest_entry sh row platform key rec]) (\<lambda>u.
      bindS (manifest_loop sh arg rows) (\<lambda>rest.
        retS ((case key of None \<Rightarrow> replicate 16 CHR ''-'' | Some k \<Rightarrow> sh_digest sh k,
               verdict_for_state (map_option r_state rec)) # rest)))))"

fun warn_all :: "string list \<Rightarrow> unit ract" where
  "warn_all [] = retS ()"
| "warn_all (l # ls) = bindS (warn l) (\<lambda>u. warn_all ls)"

definition verdict_count :: "string \<Rightarrow> (string \<times> string) list \<Rightarrow> string" where
  "verdict_count v summary = v @ ''='' @ nat_str (length (filter (\<lambda>(d, w). w = v) summary))"

definition emit_manifest :: "shell_ctx \<Rightarrow> string option \<Rightarrow> jdict list \<Rightarrow> unit ract" where
  "emit_manifest sh arg rows =
     bindS (manifest_loop sh arg rows) (\<lambda>summary.
       warn_all ((''preview-manifest: '' @ nat_str (length summary) @ '' row(s) '' @ verdict_count VERDICT_NEW summary @ '' '' @
                  verdict_count VERDICT_SKIP summary @ '' '' @ verdict_count VERDICT_HOLD summary)
                 # map (\<lambda>(d, v). ''  '' @ d @ ''  '' @ v) summary))"

section \<open>Before the loop\<close>

text \<open>The platform of a row before it is validated may be any value.\<close>

definition raw_platform :: "string option \<Rightarrow> jdict \<Rightarrow> json" where
  "raw_platform arg row = (case arg of Some (c # cs) \<Rightarrow> JStr (c # cs) | _ \<Rightarrow> jget_or row ''platform'' (JStr []))"

definition read_rows :: "shell_ctx \<Rightarrow> jdict list ract" where
  "read_rows sh =
     (case read_jsonl (sh_loads sh) True (sh_input sh) of
        Inl (Diagnostic msg) \<Rightarrow> emit_error_as msg 2 None
      | Inl (Escaped e) \<Rightarrow> raiseS e
      | Inr (rows, warns) \<Rightarrow> retS rows)"

text \<open>\<open>rows[:n]\<close>; a negative \<open>n\<close> counts from the end.\<close>

definition slice_to :: "int \<Rightarrow> 'a list \<Rightarrow> 'a list" where
  "slice_to n xs = take (nat (if n < 0 then int (length xs) + n else n)) xs"

definition truncate_rows :: "int \<Rightarrow> jdict list \<Rightarrow> jdict list ract" where
  "truncate_rows max_rows rows =
     (if int (length rows) > max_rows
      then bindS (warn ''[warn] publish-backlinks: truncated input'') (\<lambda>u. retS (slice_to max_rows rows))
      else retS rows)"

definition row_label :: "nat \<Rightarrow> string" where
  "row_label idx = ''row '' @ nat_str idx @ '': ''"

fun validate_loop :: "shell_ctx \<Rightarrow> string option \<Rightarrow> nat \<Rightarrow> jdict list \<Rightarrow> unit ract" where
  "validate_loop sh arg idx [] = retS ()"
| "validate_loop sh arg idx (row # rows) =
     bindS (liftR (reject_unsupported_platform (px_supported (sh_px sh)) (raw_platform arg row))) (\<lambda>msg.
     case msg of
       Some m \<Rightarrow> emit_error_as (row_label idx @ m) 2 None
     | None \<Rightarrow>
         bindS (liftR (validate_publish_payload (px_supported (sh_px sh)) (sh_boolish sh) (sh_dumps sh) row)) (\<lambda>errs.
           if errs \<noteq> [] then exit_with_envelope ''InputValidationError'' 2 (row_label idx @ ''payload validation failed'')
           else validate_loop sh arg (idx + 1) rows))"

definition tier1_filter :: "(string \<Rightarrow> bool) \<Rightarrow> string option \<Rightarrow> jdict list \<Rightarrow> jdict list" where
  "tier1_filter dofollow arg rows = filter (\<lambda>row. dofollow (row_platform arg row)) rows"

definition apply_tier1 :: "shell_ctx \<Rightarrow> publish_args \<Rightarrow> jdict list \<Rightarrow> jdict list ract" where
  "apply_tier1 sh args rows =
     (if \<not> pa_tier_1 args then retS rows
      else let kept = tier1_filter (sh_dofollow sh) (a_platform (pa_dedup args)) rows in
           if kept = [] then raiseS (SysExit 0) else retS kept)"

text \<open>The rows on platforms that are not paused, and the paused platforms.\<close>

definition partition_paused :: "string option \<Rightarrow> jdict list \<Rightarrow> json_store \<Rightarrow> jdict list \<times> string list" where
  "partition_paused arg rows health =
     (let paused = sort (filter (\<lambda>p. p \<noteq> [] \<and> is_paused p health) (remdups (map (row_platform arg) rows))) in
      if paused = [] then (rows, [])
      else (filter (\<lambda>r. row_platform arg r \<notin> set paused) rows, paused))"

definition drop_paused :: "string option \<Rightarrow> jdict list \<Rightarrow> jdict list ract" where
  "drop_paused arg rows w = (Inr (fst (partition_paused arg rows (pw_health (rw_policy w)))), w)"

definition force_keys :: "shell_ctx \<Rightarrow> publish_args \<Rightarrow> dkey list ract" where
  "force_keys sh args =
     (case pa_force_manifest args of
        Some (c # cs) \<Rightarrow>
          if \<not> enforce_enabled (sh_env sh)
          then emit_error_as ''error: --force-manifest requires BACKLINK_PUBLISHER_DEDUP_ENFORCE=1'' 1 None
          else on_dedup (load_force_manifest (sh_env sh) (sh_store_token sh) (sh_manifest sh (c # cs))
                           (a_confirm (pa_dedup args)) (a_reason (pa_dedup args)))
      | _ \<Rightarrow> retS [])"

text \<open>The gates up to the leases, in order; the result is the rows to publish and the forced keys.\<close>

definition prepare_publish_rows :: "shell_ctx \<Rightarrow> publish_args \<Rightarrow> (jdict list \<times> dkey list) ract" where
  "prepare_publish_rows sh args =
     (let arg = a_platform (pa_dedup args) in
      bindS (read_rows sh) (\<lambda>rows.
      bindS (truncate_rows (pa_max_rows args) rows) (\<lambda>rows.
      bindS (liftR (sh_load_config sh)) (\<lambda>u.
      bindS (validate_loop sh arg 1 rows) (\<lambda>u.
      bindS (apply_tier1 sh args rows) (\<lambda>rows.
      if pa_preview_manifest args then bindS (emit_manifest sh arg rows) (\<lambda>u. raiseS (SysExit 0))
      else if pa_dry_run args then retS (rows, [])
      else
        bindS (on_dedup (enforce_precondition_or_exit (sh_env sh) (sh_digest sh) (sh_events sh))) (\<lambda>u.
        bindS (force_keys sh args) (\<lambda>forced.
        bindS (drop_paused arg rows) (\<lambda>rows.
          if rows = [] then raiseS (SysExit 0) else retS (rows, forced))))))))))"

section \<open>After the loop\<close>

definition run_reconciler :: "shell_ctx \<Rightarrow> publish_args \<Rightarrow> jdict option" where
  "run_reconciler sh args =
     (if pa_dry_run args then None
      else if \<not> str_truthy (pa_reconcile args) \<and> \<not> pa_reconcile_all args then None
      else case sh_reconcile sh of Inr d \<Rightarrow> Some d | Inl e \<Rightarrow> None)"

definition publish_epilogue :: "shell_ctx \<Rightarrow> publish_args \<Rightarrow> publish_state \<Rightarrow> unit ract" where
  "publish_epilogue sh args st =
     bindS (case ps_run_id st of None \<Rightarrow> retS () | Some r \<Rightarrow> project_run_safe r) (\<lambda>u.
     let decision = decide_publish_exit (ps_outputs st) (pa_dry_run args) (ps_dedup_hold_count st);
         message = (case pe_message decision of None \<Rightarrow> [] | Some m \<Rightarrow> m) in
     bindS (write_output (pe_successful decision)) (\<lambda>u.
     bindS (case run_reconciler sh args of None \<Rightarrow> retS () | Some d \<Rightarrow> write_output [d]) (\<lambda>u.
       if pe_kind decision = ''failed''
       then bindS (warn_all (map (\<lambda>f. ''publish failed: '' @ py_str (sh_env sh) (jget f ''error'')) (pe_failed decision)))
              (\<lambda>u. exit_with_envelope ''ExternalServiceError'' 4 message)
       else if pe_kind decision = ''all_held'' \<or> pe_kind decision = ''none_published''
       then emit_error_as message (pe_exit_code decision) None
       else if pe_kind decision = ''unverified''
       then bindS (warn_all (map (\<lambda>f. ''verification failed: id='' @ py_str (sh_env sh) (jget_or f ''id'' (JStr [])) @
                                    '' status='' @ py_str (sh_env sh) (jget_or f ''status'' (JStr []))) (pe_unverified decision)))
              (\<lambda>u. exit_with_envelope ''InternalError'' 5 message)
       else retS ())))"

definition or_text :: "string option \<Rightarrow> string \<Rightarrow> string" where
  "or_text s dflt = (case s of Some (c # cs) \<Rightarrow> c # cs | _ \<Rightarrow> dflt)"

text \<open>An aborted run exits without an epilogue.\<close>

definition report_outcome :: "shell_ctx \<Rightarrow> publish_args \<Rightarrow> publish_outcome \<Rightarrow> unit ract" where
  "report_outcome sh args oc =
     (let st = oc_state oc in
      if ps_conflict_aborted st then emit_error_as (or_text (ps_conflict_error st) ''force-manifest conflict'') 1 None
      else if ps_dependency_aborted st
      then emit_error_as (or_text (ps_dependency_error st) ''dependency error during publish'') 3 None
      else if ps_auth_aborted st
      then emit_error_as (or_text (ps_auth_error st) ''auth expired during publish'') 3 (ps_auth_error_class st)
      else publish_epilogue sh args st)"

section \<open>The command\<close>

definition publish_selected :: "shell_ctx \<Rightarrow> publish_args \<Rightarrow> jdict list \<Rightarrow> dkey list \<Rightarrow> unit ract" where
  "publish_selected sh args rows forced =
     bindS (liftR (throttle_config (sh_env sh))) (\<lambda>(tmin, tmax).
     bindS (publish_rows ((sh_px sh)\<lparr>px_forced_keys := forced\<rparr>)
              \<lparr>po_platform = a_platform (pa_dedup args), po_mode = pa_mode args, po_dry_run = pa_dry_run args,
               po_skip_publish_time_check = pa_skip_publish_time_check args, po_no_verify = pa_no_verify args,
               po_reason = a_reason (pa_dedup args), po_throttle_min = tmin, po_throttle_max = tmax\<rparr> rows)
       (report_outcome sh args))"

text \<open>The leases, once all are taken, are given back when the process exits.\<close>

definition publish_command :: "shell_ctx \<Rightarrow> publish_args \<Rightarrow> unit ract" where
  "publish_command sh args =
     bindS (prepare_publish_rows sh args) (\<lambda>(rows, forced).
       if pa_dry_run args then publish_selected sh args rows forced
       else
         let platforms = remdups (map (row_platform (a_platform (pa_dedup args))) rows) in
         bindS (take_publish_leases (sh_env sh) (sh_isofmt sh) platforms) (\<lambda>u.
           finallyS
             (bindS (verify_setups (px_supported (sh_px sh)) (sh_setup sh) (sh_order sh platforms))
                (\<lambda>u. publish_selected sh args rows forced))
             (on_leases (release_leases (sort platforms) (e_pid (sh_env sh))))))"

definition publish_main :: "shell_ctx \<Rightarrow> publish_args \<Rightarrow> unit ract" where
  "publish_main sh args =
     bindS (handle_checkpoint_ops args) (\<lambda>u.
     bindS (on_dedup (handle_dedup_ops (sh_env sh) (sh_digest sh) (sh_events sh) (pa_dedup args))) (\<lambda>u.
       case a_resume (pa_dedup args) of
         Some (c # cs) \<Rightarrow> run_resume (sh_resume sh) (pa_dry_run args) (c # cs)
       | _ \<Rightarrow> publish_command sh args))"

text \<open>The status of a process that ends this way; an uncaught exception gives 1.\<close>

definition exit_status :: "exn + 'a \<Rightarrow> int" where
  "exit_status r = (case r of Inr a \<Rightarrow> 0 | Inl (SysExit n) \<Rightarrow> n | Inl e \<Rightarrow> 1)"

end
