(* ===== verification/Schema_Facts.thy ===== *)
theory Schema_Facts
  imports Schema
begin

text \<open>
  What a validated row is: the shape of the rows the publish commands let through, what the typed
  model asks beyond the checks, what an accepted seed carries, and the inputs on which the checks
  raise instead of reporting.
\<close>

section \<open>Error lists\<close>

named_theorems no_errors \<open>when a check reports nothing\<close>

lemma appendR_Inr_Nil [no_errors]: "appendR r r' = Inr [] \<longleftrightarrow> r = Inr [] \<and> r' = Inr []"
  by (cases r; cases r') (auto simp: appendR_def)

lemma concatR_Inr_Nil [no_errors]: "concatR rs = Inr [] \<longleftrightarrow> (\<forall>r \<in> set rs. r = Inr [])"
  by (induction rs) (auto simp: no_errors)

lemma has_type_iff [simp]:
  "has_type j StrT \<longleftrightarrow> (\<exists>s. j = JStr s)" "has_type j ListT \<longleftrightarrow> (\<exists>xs. j = JList xs)"
  "has_type j DictT \<longleftrightarrow> (\<exists>d. j = JDict d)"
  by (cases j; simp add: has_type_def)+

lemma in_names_iff [no_errors]: "in_names j names = Inr b \<longleftrightarrow> hashable j \<and> b = (j \<in> JStr ` set names)"
  by (auto simp: in_names_def)

lemma re_http_url_iff [no_errors]: "re_http_url j = Inr b \<longleftrightarrow> (\<exists>s. j = JStr s \<and> b = http_url s)"
  by (auto simp: re_http_url_def split: json.splits)

lemma jget_Some: "dget d k = Some v \<Longrightarrow> jget d k = v" "dget d k = None \<Longrightarrow> jget d k = JNull"
  by (simp_all add: jget_def dget_or_def)

lemma jget_or_Some: "dget d k = Some v \<Longrightarrow> jget_or d k x = v"
  by (simp add: jget_or_def dget_or_def)

lemma jget_JStr: "jget d k = JStr s \<longleftrightarrow> dget d k = Some (JStr s)"
  by (auto simp: jget_def dget_or_def split: option.splits)

text \<open>What a link is that the structure check accepts.\<close>

definition link_ok :: "json \<Rightarrow> bool" where
  "link_ok j \<longleftrightarrow> (\<exists>l u k. j = JDict l \<and> dget l ''url'' = Some (JStr u) \<and> http_url u \<and>
     dget l ''kind'' = Some (JStr k) \<and> k \<in> set LINK_KINDS \<and> has_field l ''anchor'' \<and> has_field l ''required'')"

lemma link_errors_none [no_errors]: "link_errors i j = Inr [] \<longleftrightarrow> link_ok j"
proof (cases j)
  case (JDict l)
  show ?thesis
    unfolding JDict link_errors_def link_ok_def has_field_def
    by (auto simp: no_errors bindR_eq_Inr_iff split: option.splits if_splits)
qed (auto simp: link_errors_def link_ok_def)

lemma links_errors_none [no_errors]: "links_errors i ls = Inr [] \<longleftrightarrow> list_all link_ok ls"
  by (induction ls arbitrary: i) (auto simp: no_errors)

lemma required_fields_none [no_errors]:
  "check_output_required_fields row = [] \<longleftrightarrow>
     (\<forall>(field, t) \<in> set OUTPUT_REQUIRED_FIELDS. \<exists>v. dget row field = Some v \<and> has_type v t)"
  by (fastforce simp: check_output_required_fields_def split: option.splits if_splits)

lemma optional_fields_none [no_errors]:
  "check_output_optional_field_types row = [] \<longleftrightarrow>
     (\<forall>(field, t) \<in> set OUTPUT_OPTIONAL_FIELDS. \<forall>v. dget row field = Some v \<longrightarrow> has_type v t)"
  by (fastforce simp: check_output_optional_field_types_def split: option.splits if_splits)

text \<open>The output checks as one predicate.\<close>

definition output_ok :: "(jdict \<Rightarrow> string) \<Rightarrow> jdict \<Rightarrow> bool" where
  "output_ok dumps row \<longleftrightarrow>
     list_all (str_field row)
       [''id'', ''platform'', ''language'', ''publish_mode'', ''target_url'', ''main_domain'', ''url_mode''] \<and>
     list_all (\<lambda>k. str_where row k (\<lambda>s. strip s \<noteq> [])) [''title'', ''slug'', ''excerpt''] \<and>
     (\<exists>ts. jget row ''tags'' = JList ts) \<and>
     (\<exists>ls. jget row ''links'' = JList ls \<and> list_all link_ok ls \<and> 6 \<le> length ls \<and> length ls \<le> 8) \<and>
     (\<exists>seo. jget row ''seo'' = JDict seo \<and> str_field seo ''title'' \<and> str_field seo ''description'' \<and>
        str_where seo ''canonical_url'' (\<lambda>c. c = [] \<or> canonical_url_ok c)) \<and>
     list_all (\<lambda>k. has_field row k \<longrightarrow> str_field row k) [''content_markdown'', ''content_html'', ''main_domain_normalized''] \<and>
     (is_field_present (jget row ''content_markdown'') \<or> is_field_present (jget row ''content_html'')) \<and>
     (\<forall>h. jget row ''content_html'' = JStr h \<longrightarrow> int (length h) \<le> MAX_CONTENT_HTML_BYTES) \<and>
     (\<forall>d md. jget row ''main_domain'' = JStr d \<longrightarrow> jget row ''content_markdown'' = JStr md \<longrightarrow>
        strip md \<noteq> [] \<longrightarrow> domain_in_text d md) \<and>
     int (length (dumps row)) \<le> MAX_PAYLOAD_SIZE_BYTES"

lemma is_str_iff [simp]: "is_str j \<longleftrightarrow> (\<exists>s. j = JStr s)"
  by (cases j) (simp_all add: is_str_def)

lemma str_where_iff: "str_where d k p \<longleftrightarrow> (\<exists>s. dget d k = Some (JStr s) \<and> p s)"
  by (auto simp: str_where_def jget_def dget_or_def split: json.splits option.splits)

lemma str_field_iff: "str_field d k \<longleftrightarrow> (\<exists>s. dget d k = Some (JStr s))"
  by (simp add: str_field_def jget_JStr)

lemma seo_none [no_errors]:
  "check_seo_structure row = [] \<longleftrightarrow>
     (\<forall>seo. dget row ''seo'' = Some (JDict seo) \<longrightarrow> str_field seo ''title'' \<and> str_field seo ''description'' \<and>
        str_where seo ''canonical_url'' (\<lambda>c. c = [] \<or> canonical_url_ok c))"
proof (cases "\<exists>seo. dget row ''seo'' = Some (JDict seo)")
  case True
  then obtain seo where seo: "dget row ''seo'' = Some (JDict seo)" by blast
  show ?thesis
    unfolding check_seo_structure_def seo str_where_iff str_field_iff
    by (cases "dget seo ''canonical_url''") (auto simp: jget_Some split: option.splits json.splits if_splits)
next
  case False
  then show ?thesis by (auto simp: check_seo_structure_def split: option.splits json.splits)
qed

lemma nonempty_none [no_errors]:
  "check_nonempty_text_fields row = [] \<longleftrightarrow>
     (\<forall>k \<in> {''title'', ''excerpt'', ''slug''}. \<forall>s. dget row k = Some (JStr s) \<longrightarrow> strip s \<noteq> [])"
  by (fastforce simp: check_nonempty_text_fields_def split: option.splits json.splits if_splits)

lemma one_of_none [no_errors]:
  "check_output_one_of_groups row = [] \<longleftrightarrow>
     is_field_present (jget row ''content_markdown'') \<or> is_field_present (jget row ''content_html'')"
  by (simp add: check_output_one_of_groups_def OUTPUT_ONE_OF_GROUPS_def)

lemma html_size_none [no_errors]:
  "check_content_html_size row = [] \<longleftrightarrow>
     (\<forall>h. jget row ''content_html'' = JStr h \<longrightarrow> int (length h) \<le> MAX_CONTENT_HTML_BYTES)"
  by (auto simp: check_content_html_size_def jget_def dget_or_def split: option.splits json.splits)

lemma main_domain_none [no_errors]:
  "check_main_domain_presence row = None \<longleftrightarrow>
     (\<forall>d md. jget row ''main_domain'' = JStr d \<longrightarrow> jget row ''content_markdown'' = JStr md \<longrightarrow>
        strip md \<noteq> [] \<longrightarrow> domain_in_text d md)"
  by (auto simp: check_main_domain_presence_def jget_def dget_or_def split: option.splits json.splits)

lemma has_field_str: "(has_field row k \<longrightarrow> str_field row k) \<longleftrightarrow> (\<forall>v. dget row k = Some v \<longrightarrow> (\<exists>s. v = JStr s))"
  by (auto simp: has_field_def str_field_iff)

lemma typed_field:
  "(\<exists>v. dget row k = Some v \<and> has_type v StrT) \<longleftrightarrow> str_field row k"
  "(\<exists>v. dget row k = Some v \<and> has_type v ListT) \<longleftrightarrow> (\<exists>xs. dget row k = Some (JList xs))"
  "(\<exists>v. dget row k = Some v \<and> has_type v DictT) \<longleftrightarrow> (\<exists>d. dget row k = Some (JDict d))"
  "(\<forall>v. dget row k = Some v \<longrightarrow> has_type v StrT) \<longleftrightarrow> (has_field row k \<longrightarrow> str_field row k)"
  by (auto simp: str_field_iff has_field_def)

lemma required_iff:
  "check_output_required_fields row = [] \<longleftrightarrow>
     list_all (str_field row) [''id'', ''platform'', ''language'', ''publish_mode'', ''target_url'', ''main_domain'',
       ''url_mode'', ''title'', ''slug'', ''excerpt''] \<and>
     (\<exists>ts. dget row ''tags'' = Some (JList ts)) \<and> (\<exists>ls. dget row ''links'' = Some (JList ls)) \<and>
     (\<exists>seo. dget row ''seo'' = Some (JDict seo))"
  unfolding required_fields_none OUTPUT_REQUIRED_FIELDS_def list.set ball_simps split_conv prod.case list.pred_inject
    typed_field by (simp add: conj_assoc)

lemma optional_iff:
  "check_output_optional_field_types row = [] \<longleftrightarrow>
     list_all (\<lambda>k. has_field row k \<longrightarrow> str_field row k) [''content_markdown'', ''content_html'', ''main_domain_normalized'']"
  unfolding optional_fields_none OUTPUT_OPTIONAL_FIELDS_def list.set ball_simps split_conv prod.case list.pred_inject
    typed_field by (simp add: conj_assoc)

lemma checks_iff:
  "validate_output_payload dumps row = Inr [] \<longleftrightarrow>
     check_output_required_fields row = [] \<and> check_output_optional_field_types row = [] \<and>
     check_output_one_of_groups row = [] \<and> check_content_html_size row = [] \<and>
     check_links_structure row = Inr [] \<and> check_seo_structure row = [] \<and> check_link_count row = Inr [] \<and>
     check_nonempty_text_fields row = [] \<and> check_payload_size dumps row = [] \<and> check_main_domain_presence row = None"
  by (simp add: validate_output_payload_def appendR_Inr_Nil split: option.split)

lemma links_iff:
  assumes "dget row ''links'' = Some (JList ls)"
  shows "check_links_structure row = Inr [] \<longleftrightarrow> list_all link_ok ls"
    and "check_link_count row = Inr [] \<longleftrightarrow> 6 \<le> length ls \<and> length ls \<le> 8"
  using assms by (auto simp: check_links_structure_def links_errors_none check_link_count_def json_len_def jget_or_Some)

lemma str_where_field: "str_field row k \<Longrightarrow> (\<forall>s. dget row k = Some (JStr s) \<longrightarrow> p s) \<longleftrightarrow> str_where row k p"
  by (auto simp: str_field_iff str_where_iff)

lemma validate_output_none [no_errors]: "validate_output_payload dumps row = Inr [] \<longleftrightarrow> output_ok dumps row"
proof (cases "check_output_required_fields row = []")
  case True
  then obtain ts ls seo where d: "dget row ''tags'' = Some (JList ts)" "dget row ''links'' = Some (JList ls)"
    "dget row ''seo'' = Some (JDict seo)"
    and strs: "list_all (str_field row) [''id'', ''platform'', ''language'', ''publish_mode'', ''target_url'',
      ''main_domain'', ''url_mode'', ''title'', ''slug'', ''excerpt'']"
    unfolding required_iff by blast
  have nonempty: "check_nonempty_text_fields row = [] \<longleftrightarrow>
      list_all (\<lambda>k. str_where row k (\<lambda>s. strip s \<noteq> [])) [''title'', ''slug'', ''excerpt'']"
    using strs unfolding nonempty_none list.pred_inject by (simp add: str_where_field) blast
  show ?thesis
    unfolding checks_iff output_ok_def optional_iff links_iff[OF d(2)] nonempty seo_none one_of_none html_size_none
      main_domain_none
    using True strs d(1,3) by (simp add: jget_Some check_payload_size_def d linorder_not_less) blast
next
  case False
  have "\<not> output_ok dumps row"
  proof
    assume o: "output_ok dumps row"
    then have "list_all (str_field row) [''title'', ''slug'', ''excerpt'']"
      unfolding output_ok_def list.pred_inject str_where_iff str_field_iff by blast
    then show False
      using False o unfolding required_iff output_ok_def
      by (auto simp: jget_def dget_or_def split: option.splits)
  qed
  then show ?thesis unfolding checks_iff using False by blast
qed

section \<open>The rows that are let through\<close>

lemma validate_publish_none:
  "validate_publish_payload supported boolish dumps row = Inr [] \<longleftrightarrow>
     output_ok dumps row \<and> planned_payload_ok boolish row \<and> jget row ''platform'' \<in> JStr ` set supported"
proof -
  have "\<exists>p. dget row ''platform'' = Some (JStr p)" if "output_ok dumps row"
    using that by (simp add: output_ok_def str_field_iff)
  then show ?thesis
    unfolding validate_publish_payload_def reject_unsupported_platform_def
    by (fastforce simp: bindR_eq_Inr_iff validate_output_none[symmetric] in_names_def jget_Some Let_def
        split: option.splits if_splits)
qed

text \<open>A character that cannot end the value it is written into: HTML attributes and elements, YAML
  lines, quoted strings, template literals.\<close>

definition inert :: "char \<Rightarrow> bool" where
  "inert c \<longleftrightarrow> \<not> is_space c \<and> c \<notin> {CHR 0x22, CHR 0x27, CHR ''<'', CHR ''>'', CHR 0x60}"

lemma inert_prefix: "list_all inert s \<Longrightarrow> lower t = s \<Longrightarrow> list_all inert t"
proof (induction t arbitrary: s)
  case (Cons c t)
  have "inert c" if "inert (ascii_lower c)"
    using that by (auto simp: inert_def ascii_lower_def is_space_def Let_def split: if_splits)
  then show ?case using Cons by (auto simp: lower_def)
qed simp

lemma url_body_inert: "url_body s \<Longrightarrow> list_all inert (if s \<noteq> [] \<and> last s = LF then butlast s else s)"
  by (auto simp: url_body_def Let_def url_char_def inert_def list_all_iff split: if_splits)

text \<open>The text of a canonical URL up to a final line feed.\<close>

definition url_text :: "string \<Rightarrow> string" where
  "url_text s = (if s \<noteq> [] \<and> last s = LF then butlast s else s)"

lemma url_text_append: "t \<noteq> [] \<Longrightarrow> url_text (s @ t) = s @ url_text t"
  by (simp add: url_text_def butlast_append)

lemma canonical_url_inert:
  assumes "canonical_url_ok s"
  shows "list_all inert (url_text s) \<and> lower (take 4 s) = ''http''"
proof -
  have split: "list_all inert (url_text s)" if "list_all inert (take n s)" "url_body (drop n s)" for n
  proof -
    have d: "drop n s \<noteq> []" using that(2) by (auto simp: url_body_def Let_def)
    have "url_text s = take n s @ url_text (drop n s)" using url_text_append[OF d] by (metis append_take_drop_id)
    then show ?thesis using that(1) url_body_inert[OF that(2)] by (simp add: url_text_def)
  qed
  have low: "lower (take n s) = p \<Longrightarrow> lower (take 4 s) = take 4 p" if "4 \<le> n" for n p
    using that by (metis lower_def min.absorb1 take_map take_take)
  consider "lower (take 7 s) = ''http://''" "url_body (drop 7 s)" | "lower (take 8 s) = ''https://''" "url_body (drop 8 s)"
    | "lower (take 4 s) = ''http''" "take 5 (drop 4 s) = [CHR 0xC5, CHR 0xBF] @ ''://''" "url_body (drop 9 s)"
    using assms unfolding canonical_url_ok_def by blast
  then show ?thesis
  proof cases
    case 1
    have "list_all inert (take 7 s)" by (rule inert_prefix[OF _ 1(1)]) (simp add: inert_def is_space_def)
    then show ?thesis using split 1(2) low[OF _ 1(1)] by simp
  next
    case 2
    have "list_all inert (take 8 s)" by (rule inert_prefix[OF _ 2(1)]) (simp add: inert_def is_space_def)
    then show ?thesis using split 2(2) low[OF _ 2(1)] by simp
  next
    case 3
    have "take 9 s = take 4 s @ take 5 (drop 4 s)" by (simp add: take_add[symmetric])
    moreover have "list_all inert (take 4 s)" by (rule inert_prefix[OF _ 3(1)]) (simp add: inert_def is_space_def)
    ultimately have "list_all inert (take 9 s)" using 3(2) by (simp add: inert_def is_space_def)
    then show ?thesis using split 3(3) 3(1) by simp
  qed
qed

text \<open>C40. A row that \<open>validate_publish_payload\<close> lets through names a registered platform, has a string id,
  an article text and between 6 and 8 links, each an http(s) URL of a known kind, and its canonical
  URL is empty or starts with http and, up to a final line feed, has no character that could end an
  HTML attribute, an element, a YAML line or a quoted string.\<close>

theorem published_rows_are_wellformed:
  assumes "validate_publish_payload supported boolish dumps row = Inr []"
  shows "(\<exists>i p. jget row ''id'' = JStr i \<and> jget row ''platform'' = JStr p \<and> p \<in> set supported) \<and>
    (is_field_present (jget row ''content_markdown'') \<or> is_field_present (jget row ''content_html'')) \<and>
    (\<exists>ls. jget row ''links'' = JList ls \<and> 6 \<le> length ls \<and> length ls \<le> 8 \<and>
       (\<forall>l \<in> set ls. \<exists>d u k. l = JDict d \<and> jget d ''url'' = JStr u \<and> http_url u \<and>
          jget d ''kind'' = JStr k \<and> k \<in> set LINK_KINDS)) \<and>
    (\<exists>seo c. jget row ''seo'' = JDict seo \<and> jget seo ''canonical_url'' = JStr c \<and>
       (c = [] \<or> lower (take 4 c) = ''http'' \<and> list_all inert (url_text c)))"
proof -
  have o: "output_ok dumps row" and p: "jget row ''platform'' \<in> JStr ` set supported"
    using assms by (simp_all add: validate_publish_none)
  have "\<exists>i. jget row ''id'' = JStr i" using o by (simp add: output_ok_def str_field_def)
  moreover have "\<exists>seo c. jget row ''seo'' = JDict seo \<and> jget seo ''canonical_url'' = JStr c \<and>
      (c = [] \<or> lower (take 4 c) = ''http'' \<and> list_all inert (url_text c))"
  proof -
    obtain seo c where "jget row ''seo'' = JDict seo" "jget seo ''canonical_url'' = JStr c" "c = [] \<or> canonical_url_ok c"
      using o unfolding output_ok_def str_where_iff jget_JStr[symmetric] by blast
    then show ?thesis using canonical_url_inert by blast
  qed
  moreover obtain ls where ls: "jget row ''links'' = JList ls" "list_all link_ok ls" "6 \<le> length ls" "length ls \<le> 8"
    using o by (auto simp: output_ok_def)
  moreover have "\<exists>d u k. l = JDict d \<and> jget d ''url'' = JStr u \<and> http_url u \<and> jget d ''kind'' = JStr k \<and>
      k \<in> set LINK_KINDS" if "l \<in> set ls" for l
    using ls(2) that by (force simp: list_all_iff link_ok_def jget_JStr)
  ultimately show ?thesis using o p by (fastforce simp: output_ok_def)
qed

text \<open>A row for the examples, and one link of it.\<close>

definition demo_link :: json where
  "demo_link = JDict [(''url'', JStr ''https://a.com/x''), (''anchor'', JStr ''a''), (''kind'', JStr ''target''),
                      (''required'', JBool True)]"

definition demo_payload :: jdict where
  "demo_payload =
     [(''id'', JStr ''r1''), (''platform'', JStr ''telegraph''), (''language'', JStr ''en''), (''publish_mode'', JStr ''draft''),
      (''target_url'', JStr ''https://a.com/x''), (''main_domain'', JStr ''https://a.com''), (''url_mode'', JStr ''A''),
      (''title'', JStr ''t''), (''slug'', JStr ''s''), (''excerpt'', JStr ''e''), (''tags'', JList []),
      (''links'', JList (replicate 6 demo_link)),
      (''seo'', JDict [(''title'', JStr []), (''description'', JStr []), (''canonical_url'', JStr [])]),
      (''content_markdown'', JStr ''https://a.com'')]"

definition is_bool :: "json \<Rightarrow> bool" where
  "is_bool j \<longleftrightarrow> (case j of JBool b \<Rightarrow> True | _ \<Rightarrow> False)"

definition no_dump :: "jdict \<Rightarrow> string" where "no_dump row = []"

lemma demo_payload_valid:
  "validate_publish_payload [''telegraph''] is_bool no_dump demo_payload = Inr []"
  "validate_output_payload no_dump demo_payload = Inr []"
  by code_simp+

theorem published_rows_are_wellformed_witness:
  "\<exists>ls. jget demo_payload ''links'' = JList ls \<and> 6 \<le> length ls"
  using published_rows_are_wellformed[OF demo_payload_valid(1)] by blast

section \<open>The typed model\<close>

lemma link_model_adds:
  "link_ok (JDict l) \<Longrightarrow> link_model_ok boolish (JDict l) \<longleftrightarrow>
     str_field l ''anchor'' \<and> (\<forall>r. dget l ''required'' = Some r \<longrightarrow> boolish r)"
  unfolding link_model_ok_def link_ok_def literal_field_def str_where_iff
  by (auto simp: jget_Some has_field_def split: option.splits)

text \<open>On a row without errors the typed model adds exactly this to the checks: the two modes are of
  their enumerations, tags and anchors are strings, the flag of every link converts to a bool, and
  a markdown text that is blank but not empty has to contain the main domain like any other.\<close>

theorem typed_model_adds:
  assumes "validate_output_payload dumps row = Inr []"
  shows "planned_payload_ok boolish row \<longleftrightarrow>
     jget row ''publish_mode'' \<in> JStr ` set PUBLISH_MODES \<and> jget row ''url_mode'' \<in> JStr ` set URL_MODES \<and>
     (\<forall>ts. jget row ''tags'' = JList ts \<longrightarrow> list_all is_str ts) \<and>
     (\<forall>ls l. jget row ''links'' = JList ls \<longrightarrow> JDict l \<in> set ls \<longrightarrow>
        str_field l ''anchor'' \<and> (\<forall>r. dget l ''required'' = Some r \<longrightarrow> boolish r)) \<and>
     (\<forall>md d. jget row ''content_markdown'' = JStr md \<longrightarrow> jget row ''main_domain'' = JStr d \<longrightarrow>
        md = [] \<or> d = [] \<or> domain_in_text d md)"
proof -
  have o: "output_ok dumps row" using assms by (simp add: no_errors)
  obtain ts ls seo where d: "jget row ''tags'' = JList ts" "jget row ''links'' = JList ls" "jget row ''seo'' = JDict seo"
    using o unfolding output_ok_def by blast
  have links: "list_all (link_model_ok boolish) ls \<longleftrightarrow>
      (\<forall>l. JDict l \<in> set ls \<longrightarrow> str_field l ''anchor'' \<and> (\<forall>r. dget l ''required'' = Some r \<longrightarrow> boolish r))"
  proof -
    have ok: "link_ok j" if "j \<in> set ls" for j using o d(2) that by (simp add: output_ok_def list_all_iff)
    have "\<exists>l. j = JDict l" if "j \<in> set ls" for j using ok[OF that] by (auto simp: link_ok_def)
    then show ?thesis unfolding list_all_iff using ok link_model_adds by metis
  qed
  have opt: "list_all (opt_str_field row) [''content_markdown'', ''content_html'', ''main_domain_normalized'']"
    using o by (auto simp: output_ok_def opt_str_field_def str_field_iff has_field_def jget_def dget_or_def split: option.splits)
  have seo: "seo_model_ok (JDict seo)" using o d(3) by (simp add: output_ok_def seo_model_ok_def)
  have strs: "list_all (str_field row) [''id'', ''platform'', ''language'', ''target_url'', ''main_domain'']"
    "list_all (\<lambda>k. str_where row k (\<lambda>s. strip s \<noteq> [])) [''title'', ''slug'', ''excerpt'']"
    using o by (simp_all add: output_ok_def)
  have html: "case jget row ''content_html'' of JStr s \<Rightarrow> int (length s) \<le> MAX_CONTENT_HTML_BYTES | _ \<Rightarrow> True"
    using o by (auto simp: output_ok_def split: json.split)
  have body: "truthy (jget row ''content_markdown'') \<or> truthy (jget row ''content_html'')"
  proof -
    have "truthy j" if "is_field_present j" for j
      using that by (cases j) (auto simp: is_field_present_def strip_def)
    then show ?thesis using o by (auto simp: output_ok_def)
  qed
  have count: "6 \<le> length ls" "length ls \<le> 8" using o d(2) by (simp_all add: output_ok_def)
  have md: "(case (jget row ''content_markdown'', jget row ''main_domain'') of
        (JStr md, JStr d) \<Rightarrow> md = [] \<or> d = [] \<or> domain_in_text d md | _ \<Rightarrow> True) \<longleftrightarrow>
      (\<forall>md d. jget row ''content_markdown'' = JStr md \<longrightarrow> jget row ''main_domain'' = JStr d \<longrightarrow>
        md = [] \<or> d = [] \<or> domain_in_text d md)"
    by (cases "jget row ''content_markdown''"; cases "jget row ''main_domain''") simp_all
  show ?thesis
    unfolding planned_payload_ok_def literal_field_def md d json.case links
    using strs opt seo html body count by simp
qed

theorem typed_model_adds_witness:
  "planned_payload_ok is_bool demo_payload \<longleftrightarrow>
     jget demo_payload ''publish_mode'' \<in> JStr ` set PUBLISH_MODES \<and> jget demo_payload ''url_mode'' \<in> JStr ` set URL_MODES \<and>
     (\<forall>ts. jget demo_payload ''tags'' = JList ts \<longrightarrow> list_all is_str ts) \<and>
     (\<forall>ls l. jget demo_payload ''links'' = JList ls \<longrightarrow> JDict l \<in> set ls \<longrightarrow>
        str_field l ''anchor'' \<and> (\<forall>r. dget l ''required'' = Some r \<longrightarrow> is_bool r)) \<and>
     (\<forall>md d. jget demo_payload ''content_markdown'' = JStr md \<longrightarrow> jget demo_payload ''main_domain'' = JStr d \<longrightarrow>
        md = [] \<or> d = [] \<or> domain_in_text d md)"
  by (rule typed_model_adds[OF demo_payload_valid(2)])

section \<open>Where the checks and their promises part\<close>

text \<open>A canonical URL with a line feed at its end is accepted: the pattern ends in \<open>$\<close>.\<close>

theorem canonical_url_line_feed:
  "validate_publish_payload [''telegraph''] is_bool no_dump
     (dput ''seo'' (JDict [(''title'', JStr []), (''description'', JStr []),
        (''canonical_url'', JStr (''https://a.com'' @ [LF]))]) demo_payload) = Inr []"
  by code_simp

text \<open>A link whose URL is a number ends the validation with a \<open>TypeError\<close> instead of an error.\<close>

theorem numeric_link_url_raises:
  "validate_publish_payload [''telegraph''] is_bool no_dump
     (dput ''links'' (JList [JDict [(''url'', JInt 1)]]) demo_payload) =
   Inl (mkexn TypeErr ''expected string or bytes-like object'')"
  by code_simp

text \<open>A blank markdown text beside an HTML text counts as absent for the checks, and is held against
  the row by the typed model.\<close>

theorem blank_markdown_rejected:
  "validate_output_payload no_dump (dput ''content_html'' (JStr ''h'') (dput ''content_markdown'' (JStr '' '') demo_payload)) = Inr []"
  "validate_publish_payload [''telegraph''] is_bool no_dump
     (dput ''content_html'' (JStr ''h'') (dput ''content_markdown'' (JStr '' '') demo_payload)) =
   Inr [''Pydantic validation failed'']"
  by code_simp+

end
