(* ===== verification/Publish_Cmd_Facts.thy ===== *)
theory Publish_Cmd_Facts
  imports Publish_Cmd Schema_Facts Publish_Facts
begin

text \<open>
  What the gates of the publish command guarantee: only validated rows on open platforms reach the
  loop, and a dry run writes nothing.
\<close>

section \<open>The loop leaves leases, output and projection alone\<close>

definition side :: "rworld \<Rightarrow> leases db \<times> jdict list \<times> string list" where
  "side w = (rw_leases w, rw_output w, rw_projected w)"

definition keeps :: "'a ract \<Rightarrow> bool" where
  "keeps m \<longleftrightarrow> (\<forall>w. side (snd (m w)) = side w)"

named_theorems keeps_intros \<open>actions that keep leases, output and projection\<close>

lemma keepsD: "keeps m \<Longrightarrow> m w = (r, w') \<Longrightarrow> side w' = side w"
  unfolding keeps_def by (metis snd_conv)

lemma keeps_basic [keeps_intros]: "keeps (retS x)" "keeps (raiseS e)" "keeps (liftR r)"
  by (simp_all add: keeps_def retS_def raiseS_def liftR_def)

lemma keeps_bind [keeps_intros]: "keeps m \<Longrightarrow> (\<And>x. keeps (f x)) \<Longrightarrow> keeps (bindS m f)"
  unfolding keeps_def bindS_def by (metis (no_types, lifting) prod.collapse snd_conv sum.case_eq_if old.prod.case)

lemma keeps_catch [keeps_intros]: "keeps m \<Longrightarrow> (\<And>e. keeps (h e)) \<Longrightarrow> keeps (catchS cs m h)"
  unfolding keeps_def catchS_def by (auto split: prod.splits sum.splits) (metis snd_conv)+

lemma keeps_lifted [keeps_intros]:
  "keeps (on_dedup m1)" "keeps (on_policy m2)" "keeps (on_ckpt m3)" "keeps (on_canary m4)"
  by (simp_all add: keeps_def side_def on_dedup_def on_policy_def on_ckpt_def on_canary_def split: prod.splits)

lemma keeps_small [keeps_intros]:
  "keeps (warn s)" "keeps (emit_error_as msg code cls)" "keeps (exit_with_envelope c code msg)"
  "keeps (mark_expired flip ch)" "keeps (medium_throttle_sleep i j p b)"
  by (simp_all add: warn_def emit_error_as_def exit_with_envelope_def keeps_intros)
    (simp_all add: keeps_def side_def mark_expired_def medium_throttle_sleep_def split: sum.splits)

lemma keeps_if [keeps_intros]: "keeps m \<Longrightarrow> keeps m' \<Longrightarrow> keeps (if b then m else m')"
  by simp

lemma keeps_publish_call [keeps_intros]: "keeps (publish_call env publish row p)"
  by (simp add: publish_call_def keeps_intros)

lemma keeps_helpers [keeps_intros]:
  "keeps (try_update_ckpt_failed env run_id i e c)" "keeps (record_publish_failure ctx row p st c m)"
  "keeps (ckpt_done ctx row result ok run_id)" "keeps (dedup_precondition ctx opts row p st)"
  "keeps (publish_except ctx row p st x)"
  unfolding record_publish_failure_def try_update_ckpt_failed_def ckpt_done_def dedup_precondition_def publish_except_def Let_def
  by (intro keeps_intros | split option.split prod.split verdict.split | intro conjI allI impI)+

lemma keeps_row [keeps_intros]: "keeps (publish_one_row ctx opts i row st)"
  unfolding publish_one_row_def check_publish_preconditions_def dispatch_adapter_publish_def process_publish_result_def Let_def
  by (intro keeps_intros | split option.split prod.split list.split sum.split | intro conjI allI impI)+

lemma keeps_loop [keeps_intros]: "keeps (run_publish_loop ctx opts i rows st)"
proof (induction rows arbitrary: i st)
  case (Cons row rows)
  show ?case
    unfolding run_publish_loop.simps
    by (intro keeps_intros | split option.split prod.split row_signal.split | intro conjI allI impI Cons.IH)+
qed (simp add: keeps_intros)

lemma keeps_publish_rows: "keeps (publish_rows ctx opts rows)"
  unfolding publish_rows_def
  by (intro keeps_intros | split prod.split | intro conjI allI impI)+

section \<open>Runs that only tell\<close>

text \<open>What a report does to the world: lines on standard error, rows on standard output, projections.\<close>

definition told :: "stderr_line list \<Rightarrow> jdict list \<Rightarrow> string list \<Rightarrow> rworld \<Rightarrow> rworld" where
  "told es outs ids w =
     w\<lparr>rw_dedup := (rw_dedup w)\<lparr>w_err := w_err (rw_dedup w) @ es\<rparr>, rw_output := rw_output w @ outs,
       rw_projected := rw_projected w @ ids\<rparr>"

lemma told_told [simp]: "told es' outs' ids' (told es outs ids w) = told (es @ es') (outs @ outs') (ids @ ids') w"
  by (simp add: told_def)

lemma told_Nil [simp]: "told [] [] [] w = w"
  by (simp add: told_def)

lemma told_steps:
  "write_output rows w = (Inr (), told [] rows [] w)" "project_run_safe i w = (Inr (), told [] [] [i] w)"
  "warn l w = (Inr (), told [HumanText l] [] [] w)"
  "emit_error_as msg code cls w = (Inl (SysExit code), told (fst (emit_error msg code cls)) [] [] w)"
  "exit_with_envelope c code msg w = (Inl (SysExit code), told [EnvelopeLine c code msg] [] [] w)"
  by (simp_all add: told_def write_output_def project_run_safe_def warn_def on_dedup_def print_err_def emit_error_as_def
      emit_error_def exit_with_envelope_def emit_envelope_and_exit_def)

lemma warn_all_told: "warn_all ls w = (Inr (), told (map HumanText ls) [] [] w)"
proof (induction ls arbitrary: w)
  case (Cons l ls)
  then show ?case by (simp add: bindS_def told_steps)
qed (simp add: retS_def)

lemma bindS_assoc: "bindS (bindS m f) g w = bindS m (\<lambda>x. bindS (f x) g) w"
  by (simp add: bindS_def split: prod.split sum.split)

lemma row_platform_raw: "raw_platform arg row = JStr p \<Longrightarrow> row_platform arg row = p"
  by (auto simp: raw_platform_def row_platform_def str_of_def split: option.splits list.splits)

lemma sort_empty: "sort xs = [] \<longleftrightarrow> xs = []"
  using length_sort[of "\<lambda>x. x" xs] by (metis length_0_conv)

section \<open>The rows that reach the loop\<close>

lemma validate_loop_passed:
  "validate_loop sh arg idx rows w = (Inr u, w') \<Longrightarrow> w' = w \<and>
     (\<forall>row \<in> set rows. raw_platform arg row \<in> JStr ` set (px_supported (sh_px sh)) \<and>
        validate_publish_payload (px_supported (sh_px sh)) (sh_boolish sh) (sh_dumps sh) row = Inr [])"
proof (induction rows arbitrary: idx)
  case (Cons row rows)
  then have "reject_unsupported_platform (px_supported (sh_px sh)) (raw_platform arg row) = Inr None"
    "validate_publish_payload (px_supported (sh_px sh)) (sh_boolish sh) (sh_dumps sh) row = Inr []"
    "validate_loop sh arg (idx + 1) rows w = (Inr u, w')"
    by (auto simp: bindS_def liftR_def told_steps split: sum.splits option.splits if_splits)
  then show ?case
    using Cons.IH by (auto simp: reject_unsupported_platform_def in_names_def split: if_splits)
qed (simp add: retS_def)

lemma required_links_total:
  "\<forall>l \<in> set ls. link_ok l \<Longrightarrow> \<exists>us. required_links ls = Inr us"
proof (induction ls)
  case (Cons l ls)
  obtain us where us: "required_links ls = Inr us" using Cons.IH Cons.prems by auto
  obtain d u where "l = JDict d" "dget d ''url'' = Some (JStr u)" using Cons.prems by (auto simp: link_ok_def)
  then have "jdict_of l = Inr d" "jindex (JDict d) ''url'' = Inr (JStr u)" by (simp_all add: jindex_def)
  then show ?case using us by simp
qed simp

lemma validated_row_handles:
  assumes "output_ok dumps row"
  shows "recon_target row = Inr () \<and> (\<exists>us. row_urls row = Inr us) \<and>
     (\<forall>nv verify x. \<exists>v. do_verify nv verify x row = Inr v)"
proof -
  obtain ls t where ls: "jget row ''links'' = JList ls" "\<forall>l \<in> set ls. link_ok l"
    and t: "dget row ''target_url'' = Some (JStr t)"
    using assms by (auto simp: output_ok_def str_field_iff list_all_iff)
  have links: "jget_or row ''links'' x = JList ls" for x
    using ls(1) by (auto simp: jget_def jget_or_def dget_or_def split: option.splits)
  obtain us where "required_links ls = Inr us" using required_links_total[OF ls(2)] by blast
  then have "\<exists>v. do_verify nv verify x row = Inr v" for nv verify x
    by (auto simp: do_verify_def links jlist_of_def Let_def intro: exI[of _ True] exI[of _ False])
  then show ?thesis
    using t by (simp add: recon_target_def row_urls_def row_links_def links jget_or_Some Let_def)
qed

text \<open>C9. Every row that reaches the loop is validated: it passes the publish validation, its platform is
  a registered one, with \<open>--tier-1\<close> a dofollow one, and in a live run one that is not paused; and the
  helpers of the loop that take such a row apart (the progress line, the reachability check, the page
  verification) do not raise on it.\<close>

theorem prepared_rows_are_publishable:
  assumes "prepare_publish_rows sh args w = (Inr (rows, forced), w')" "row \<in> set rows"
  shows "validate_publish_payload (px_supported (sh_px sh)) (sh_boolish sh) (sh_dumps sh) row = Inr [] \<and>
     row_platform (a_platform (pa_dedup args)) row \<in> set (px_supported (sh_px sh)) \<and>
     (pa_tier_1 args \<longrightarrow> sh_dofollow sh (row_platform (a_platform (pa_dedup args)) row)) \<and>
     (\<not> pa_dry_run args \<longrightarrow> row_platform (a_platform (pa_dedup args)) row = [] \<or>
        \<not> is_paused (row_platform (a_platform (pa_dedup args)) row) (pw_health (rw_policy w'))) \<and>
     recon_target row = Inr () \<and> (\<exists>us. row_urls row = Inr us) \<and> (\<forall>nv verify x. \<exists>v. do_verify nv verify x row = Inr v)"
proof -
  let ?arg = "a_platform (pa_dedup args)"
  obtain read u1 w1 w2 kept w3 where steps: "validate_loop sh ?arg 1 read w1 = (Inr u1, w2)" "apply_tier1 sh args read w2 = (Inr kept, w3)"
    and rest: "pa_dry_run args \<and> rows = kept \<or>
      \<not> pa_dry_run args \<and> (\<exists>w4. drop_paused ?arg kept w4 = (Inr rows, w'))"
    using assms(1) unfolding prepare_publish_rows_def Let_def bindS_Inr
    by (auto simp: bindS_Inr raiseS_def retS_def simp del: One_nat_def split: if_splits) blast+
  have valid: "\<forall>row \<in> set read. raw_platform ?arg row \<in> JStr ` set (px_supported (sh_px sh)) \<and>
        validate_publish_payload (px_supported (sh_px sh)) (sh_boolish sh) (sh_dumps sh) row = Inr []"
    using validate_loop_passed[OF steps(1)] by blast
  have kept: "set kept \<subseteq> set read" "pa_tier_1 args \<Longrightarrow> \<forall>r \<in> set kept. sh_dofollow sh (row_platform ?arg r)"
    using steps(2) by (auto simp: apply_tier1_def tier1_filter_def Let_def raiseS_def retS_def split: if_splits)
  have open_rows: "set rows \<subseteq> set kept" "\<not> pa_dry_run args \<Longrightarrow> \<forall>r \<in> set rows. row_platform ?arg r = [] \<or>
        \<not> is_paused (row_platform ?arg r) (pw_health (rw_policy w'))"
    using rest by (auto simp: drop_paused_def partition_paused_def Let_def sort_empty filter_empty_conv split: if_splits)
  have row: "row \<in> set read" "row \<in> set kept" using assms(2) kept(1) open_rows(1) by auto
  then have v: "validate_publish_payload (px_supported (sh_px sh)) (sh_boolish sh) (sh_dumps sh) row = Inr []"
    and p: "raw_platform ?arg row \<in> JStr ` set (px_supported (sh_px sh))"
    using valid by auto
  have "row_platform ?arg row \<in> set (px_supported (sh_px sh))" using p row_platform_raw by (metis imageE)
  moreover have "output_ok (sh_dumps sh) row" using v by (simp add: validate_publish_none)
  ultimately show ?thesis
    using v kept(2) row(2) open_rows(2) assms(2) validated_row_handles by blast
qed

section \<open>Dry runs\<close>

text \<open>Actions that write to standard output and error only.\<close>

definition tells :: "'a ract \<Rightarrow> bool" where
  "tells m \<longleftrightarrow> (\<forall>w. \<exists>es outs. snd (m w) = told es outs [] w)"

named_theorems tells_intros \<open>actions that only tell\<close>

lemma tellsI: "(\<And>w. snd (m w) = w) \<Longrightarrow> tells m"
  unfolding tells_def by (metis told_Nil)

lemma tells_basic [tells_intros]: "tells (retS x)" "tells (raiseS e)" "tells (liftR r)"
  by (simp_all add: tellsI retS_def raiseS_def liftR_def)

lemma tells_bind_when:
  assumes "tells m" "yields m Q" "\<And>x. Q x \<Longrightarrow> tells (f x)"
  shows "tells (bindS m f)"
  unfolding tells_def
proof (rule allI)
  fix w
  obtain r w1 where mw: "m w = (r, w1)" by fastforce
  then obtain es outs where w1: "w1 = told es outs [] w" using assms(1) unfolding tells_def by (metis snd_conv)
  show "\<exists>es outs. snd (bindS m f w) = told es outs [] w"
  proof (cases r)
    case (Inr a)
    then obtain es' outs' where "snd (f a w1) = told es' outs' [] w1"
      using assms(3)[OF yieldsD[OF assms(2) mw[unfolded Inr]]] unfolding tells_def by blast
    then show ?thesis using mw w1 Inr by (auto simp: bindS_def)
  qed (use mw w1 in \<open>auto simp: bindS_def\<close>)
qed

lemma tells_bind [tells_intros]: "tells m \<Longrightarrow> (\<And>x. tells (f x)) \<Longrightarrow> tells (bindS m f)"
  by (rule tells_bind_when[where Q = "\<lambda>x. True"]) (simp_all add: yields_def)

lemma tells_if [tells_intros]: "tells m \<Longrightarrow> tells m' \<Longrightarrow> tells (if b then m else m')"
  by simp

lemma tells_told [tells_intros]:
  "tells (write_output rows)" "tells (warn l)" "tells (emit_error_as msg code cls)" "tells (exit_with_envelope c code msg)"
  "tells (warn_all ls)"
  by (auto simp: tells_def told_steps warn_all_told)

lemma tells_reads [tells_intros]:
  "tells (on_canary (\<lambda>s. (r s, s)))" "tells (medium_throttle_sleep i j p True)" "tells (drop_paused arg rows)"
  by (rule tellsI, simp add: on_canary_def medium_throttle_sleep_def drop_paused_def)+

lemma dry_row:
  assumes "po_dry_run opts"
  shows "tells (publish_one_row ctx opts i row st) \<and> yields (publish_one_row ctx opts i row st) (\<lambda>(sig, st'). ps_run_id st' = ps_run_id st)"
proof -
  let ?m = "check_publish_preconditions ctx opts i row st"
  have dry: "tells (if po_dry_run opts then m else m')" "tells (if po_dry_run opts \<or> b then m else m')" if "tells m" for m m' :: "'c ract" and b
    using that assms by simp_all
  have sleep: "tells (medium_throttle_sleep i j p (po_dry_run opts))" for i j p
    using assms by (simp add: tells_reads)
  have t: "tells ?m"
    unfolding check_publish_preconditions_def Let_def
    by (rule dry sleep | rule tells_intros | split option.split prod.split | intro conjI allI impI)+
  have y: "yields ?m (\<lambda>(sig, st'). sig \<noteq> None \<and> ps_run_id st' = ps_run_id st)"
    unfolding check_publish_preconditions_def Let_def assms
    by (intro yields_bind_any, clarsimp split: prod.splits, intro conjI impI yields_intros)
      (auto intro!: yields_intros simp: assms split: option.splits)
  have "publish_one_row ctx opts i row st w = (case ?m w of (Inl e, w') \<Rightarrow> (Inl e, w') | (Inr (Some sig, st'), w') \<Rightarrow> (Inr (Some sig, st'), w'))" for w
    using y[unfolded yields_def, rule_format, of w]
    by (auto simp: publish_one_row_def bindS_def retS_def split: prod.splits sum.splits option.splits)
  then have eq: "publish_one_row ctx opts i row st w = ?m w" for w
    using y[unfolded yields_def, rule_format, of w] by (auto split: prod.splits sum.splits option.splits)
  show ?thesis using t y unfolding tells_def yields_def eq by fastforce
qed

lemma dry_loop:
  assumes "po_dry_run opts"
  shows "tells (run_publish_loop ctx opts i rows st) \<and> yields (run_publish_loop ctx opts i rows st) (\<lambda>st'. ps_run_id st' = ps_run_id st)"
proof (induction rows arbitrary: i st)
  case (Cons row rows)
  note row = dry_row[OF assms, of ctx i row st]
  have t: "tells (case sig of
         Some AuthAbort \<Rightarrow> retS (st'\<lparr>ps_auth_aborted := True\<rparr>)
       | Some DepAbort \<Rightarrow> retS (st'\<lparr>ps_dependency_aborted := True\<rparr>)
       | Some ConflictAbort \<Rightarrow> retS (st'\<lparr>ps_conflict_aborted := True\<rparr>)
       | _ \<Rightarrow> run_publish_loop ctx opts (i + 1) rows st')" for sig st'
    using Cons.IH by (auto split: option.split row_signal.split intro: tells_intros)
  have y: "ps_run_id st' = ps_run_id st \<Longrightarrow> yields (case sig of
         Some AuthAbort \<Rightarrow> retS (st'\<lparr>ps_auth_aborted := True\<rparr>)
       | Some DepAbort \<Rightarrow> retS (st'\<lparr>ps_dependency_aborted := True\<rparr>)
       | Some ConflictAbort \<Rightarrow> retS (st'\<lparr>ps_conflict_aborted := True\<rparr>)
       | _ \<Rightarrow> run_publish_loop ctx opts (i + 1) rows st') (\<lambda>st'. ps_run_id st' = ps_run_id st)" for sig st'
    using Cons.IH[of "i + 1" st'] by (auto split: option.split row_signal.split intro: yields_intros)
  show ?case
    unfolding run_publish_loop.simps
    by (intro conjI tells_bind_when[where Q = "\<lambda>(sig, st'). ps_run_id st' = ps_run_id st"]
        yields_bind[where Q = "\<lambda>(sig, st'). ps_run_id st' = ps_run_id st"]) (use row t y in \<open>auto split: prod.splits\<close>)
qed (auto intro: tells_intros yields_intros)

lemma dry_publish:
  assumes "po_dry_run opts"
  shows "tells (publish_rows ctx opts rows) \<and> yields (publish_rows ctx opts rows) (\<lambda>oc. ps_run_id (oc_state oc) = None)"
proof -
  have eq: "publish_rows ctx opts rows = bindS (run_publish_loop ctx opts 0 rows (new_publish_state None)) (\<lambda>st.
      retS \<lparr>oc_state = st, oc_options = opts, oc_checkpoint_disabled = False\<rparr>)"
    using assms by (simp add: publish_rows_def bindS_def retS_def fun_eq_iff)
  show ?thesis
    unfolding eq using dry_loop[OF assms, of ctx 0 rows "new_publish_state None"]
    by (auto simp: new_publish_state_def intro!: tells_intros yields_bind[where Q = "\<lambda>st. ps_run_id st = None"] yields_retS)
qed

lemma tells_validate [tells_intros]: "tells (validate_loop sh arg idx rows)"
  by (induction rows arbitrary: idx)
    (auto simp del: One_nat_def intro!: tells_intros split: option.splits)

lemma tells_prepare:
  assumes "pa_dry_run args" "\<not> pa_preview_manifest args"
  shows "tells (prepare_publish_rows sh args)"
proof -
  have reads: "tells (read_rows sh)" "tells (truncate_rows n rows)" "tells (apply_tier1 sh args rows)" for n rows
    unfolding read_rows_def truncate_rows_def apply_tier1_def Let_def
    by (auto intro!: tells_intros split: sum.splits read_error.splits prod.splits)
  show ?thesis
    unfolding prepare_publish_rows_def Let_def if_P[OF assms(1)] if_not_P[OF assms(2)]
    by (intro tells_intros reads)
qed

lemma tells_report:
  assumes "pa_dry_run args" "ps_run_id (oc_state oc) = None"
  shows "tells (report_outcome sh args oc)"
proof -
  have "run_reconciler sh args = None" using assms(1) by (simp add: run_reconciler_def)
  then show ?thesis
    unfolding report_outcome_def publish_epilogue_def Let_def assms(2)
    by (auto intro!: tells_intros)
qed

text \<open>C13. A dry run changes nothing: whatever the rows, the world after it differs from the world before
  only in what was printed. No checkpoint is written, no lease taken, no dedup row, health file,
  projection or adapter touched, whether the run ends well, in an error exit or in an exception. (The
  preview of \<open>--preview-manifest\<close> is another command and not one of these runs.)\<close>

theorem dry_run_is_pure:
  assumes "pa_dry_run args" "\<not> pa_preview_manifest args"
  shows "\<exists>es outs. snd (publish_command sh args w) = told es outs [] w"
proof -
  have "tells (publish_selected sh args rows forced)" for rows forced
    unfolding publish_selected_def
  proof (intro tells_bind[OF tells_basic(3)], clarify)
    fix tmin tmax
    show "tells (bindS (publish_rows ((sh_px sh)\<lparr>px_forced_keys := forced\<rparr>)
              \<lparr>po_platform = a_platform (pa_dedup args), po_mode = pa_mode args, po_dry_run = pa_dry_run args,
               po_skip_publish_time_check = pa_skip_publish_time_check args, po_no_verify = pa_no_verify args,
               po_reason = a_reason (pa_dedup args), po_throttle_min = tmin, po_throttle_max = tmax\<rparr> rows)
       (report_outcome sh args))"
      by (rule tells_bind_when[where Q = "\<lambda>oc. ps_run_id (oc_state oc) = None"])
        (use assms(1) in \<open>simp_all add: dry_publish tells_report\<close>)
  qed
  then have "tells (publish_command sh args)"
    unfolding publish_command_def using assms(1) by (auto intro!: tells_intros tells_prepare[OF assms] split: prod.splits)
  then show ?thesis unfolding tells_def by blast
qed

section \<open>Scenarios\<close>

text \<open>One line of input that parses to the demo row, on a registry with its platform.\<close>

definition demo_loads :: "string \<Rightarrow> exn + json" where
  "demo_loads s = (if s = ''row'' then Inr (JDict demo_payload) else Inl (mkexn JSONDecodeError []))"

definition demo_shell :: shell_ctx where
  "demo_shell =
     \<lparr>sh_px = (pdemo_ctx (\<lambda>mode. published))\<lparr>px_env := env0, px_supported := [''telegraph'']\<rparr>,
      sh_loads = demo_loads, sh_input = [''row''], sh_load_config = Inr (), sh_boolish = is_bool, sh_dumps = no_dump,
      sh_dofollow = (\<lambda>p. True), sh_setup = (\<lambda>p. Inr ()), sh_order = sort, sh_isofmt = (\<lambda>x. ''t''),
      sh_digest = (\<lambda>k. []), sh_store_token = ''s'', sh_events = EvAbsent, sh_manifest = (\<lambda>f. Inr []),
      sh_reconcile = Inr [], sh_resume = rdemo_cmd (\<lambda>mode. published)\<rparr>"

theorem prepared_rows_are_publishable_witness:
  "row_platform None demo_payload \<in> set (px_supported (sh_px demo_shell)) \<and> recon_target demo_payload = Inr ()"
proof -
  let ?p = "prepare_publish_rows demo_shell default_publish_args (rdemo_world True)"
  have "fst ?p = Inr ([demo_payload], [])" by code_simp
  then have "?p = (Inr ([demo_payload], []), snd ?p)" by (metis prod.collapse)
  from prepared_rows_are_publishable[OF this, of demo_payload] show ?thesis
    by (simp add: default_publish_args_def no_args_def)
qed

theorem dry_run_is_pure_witness:
  "fst (publish_command demo_shell (default_publish_args\<lparr>pa_dry_run := True\<rparr>) (rdemo_world True)) = Inr () \<and>
   (\<exists>es outs. snd (publish_command demo_shell (default_publish_args\<lparr>pa_dry_run := True\<rparr>) (rdemo_world True)) =
      told es outs [] (rdemo_world True))"
proof
  show "fst (publish_command demo_shell (default_publish_args\<lparr>pa_dry_run := True\<rparr>) (rdemo_world True)) = Inr ()"
    by code_simp
  show "\<exists>es outs. snd (publish_command demo_shell (default_publish_args\<lparr>pa_dry_run := True\<rparr>) (rdemo_world True)) =
      told es outs [] (rdemo_world True)"
    by (rule dry_run_is_pure) (simp_all add: default_publish_args_def)
qed

end
