(* ===== verification/Sdk.thy ===== *)
theory Sdk
  imports Publish_Cmd
begin

text \<open>
  The SDK's way to publish: the in-process runtime (\<open>sdk/_publish_runtime.py\<close>), which runs the same
  loop as the command under its own gates, and the wrapper that sends browser-backed platforms to
  the command as a subprocess and reads its error envelope (\<open>sdk/api.py\<close>, \<open>_util/error_envelope.py\<close>).
  The text on standard output is the list of its JSON rows. The process lock (one run at a time), the
  timeout of the subprocess and the checks argparse makes of the options are left out.
\<close>

record pipe_result =
  pr_stdout :: "jdict list"
  pr_stderr :: "stderr_line list"
  pr_success :: bool
  pr_error :: "string option"
  pr_error_class :: "string option"
  pr_exit_code :: "int option"

definition pipe_failed :: "string \<Rightarrow> string \<Rightarrow> int \<Rightarrow> pipe_result" where
  "pipe_failed error error_class code =
     \<lparr>pr_stdout = [], pr_stderr = [], pr_success = False, pr_error = Some error,
      pr_error_class = Some error_class, pr_exit_code = Some code\<rparr>"

definition pipe_ok :: "jdict list \<Rightarrow> pipe_result" where
  "pipe_ok rows =
     \<lparr>pr_stdout = rows, pr_stderr = [], pr_success = True, pr_error = None, pr_error_class = None,
      pr_exit_code = Some 0\<rparr>"

section \<open>The gates of the runtime\<close>

text \<open>The platforms a run will touch; before the validation they may be any value.\<close>

definition target_platforms :: "string option \<Rightarrow> jdict list \<Rightarrow> exn + json list" where
  "target_platforms arg rows =
     mapR (\<lambda>j. if hashable j then Inr j else Inl (mkexn TypeErr ''unhashable type''))
       (remdups (filter truthy (map (raw_platform arg) rows)))"

definition browser_tier_value :: "json \<Rightarrow> bool" where
  "browser_tier_value j \<longleftrightarrow> (case j of JStr p \<Rightarrow> is_browser_tier p | _ \<Rightarrow> False)"

text \<open>\<open>any(_is_browser_tier(p) for p in ...)\<close>; an unhashable value raises.\<close>

fun any_browser_tier :: "json list \<Rightarrow> exn + bool" where
  "any_browser_tier [] = Inr False"
| "any_browser_tier (j # js) =
     (if \<not> hashable j then Inl (mkexn TypeErr ''unhashable type'')
      else if browser_tier_value j then Inr True else any_browser_tier js)"

fun runtime_validate_rows :: "shell_ctx \<Rightarrow> string option \<Rightarrow> nat \<Rightarrow> jdict list \<Rightarrow> exn + pipe_result option" where
  "runtime_validate_rows sh arg idx [] = Inr None"
| "runtime_validate_rows sh arg idx (row # rows) =
     bindR (reject_unsupported_platform (px_supported (sh_px sh)) (raw_platform arg row)) (\<lambda>msg.
     case msg of
       Some m \<Rightarrow> Inr (Some (pipe_failed (row_label idx @ m) ''InputValidationError'' 2))
     | None \<Rightarrow>
         bindR (validate_publish_payload (px_supported (sh_px sh)) (sh_boolish sh) (sh_dumps sh) row) (\<lambda>errs.
           if errs \<noteq> []
           then Inr (Some (pipe_failed (row_label idx @ ''payload validation failed'') ''InputValidationError'' 2))
           else runtime_validate_rows sh arg (idx + 1) rows))"

fun verify_setup :: "string list \<Rightarrow> (string \<Rightarrow> exn + unit) \<Rightarrow> string list \<Rightarrow> exn + pipe_result option" where
  "verify_setup supported setup [] = Inr None"
| "verify_setup supported setup (p # ps) =
     (if p \<notin> set supported then verify_setup supported setup ps
      else case setup p of
             Inr u \<Rightarrow> verify_setup supported setup ps
           | Inl e \<Rightarrow> if isinst e DependencyError then Inr (Some (pipe_failed (str_exn e) ''DependencyError'' 3)) else Inl e)"

section \<open>From an outcome to a result\<close>

definition kind_class :: "(string, string) dict" where
  "kind_class = [(''failed'', ''ExternalServiceError''), (''unverified'', ''InternalError''),
                 (''all_held'', ''DependencyError''), (''none_published'', ''InternalError'')]"

definition build_pipe_result :: "publish_outcome \<Rightarrow> bool \<Rightarrow> pipe_result" where
  "build_pipe_result oc dry_run =
     (let st = oc_state oc in
      if ps_conflict_aborted st
      then pipe_failed (or_text (ps_conflict_error st) ''force-manifest conflict'') ''UsageError'' 1
      else if ps_auth_aborted st
      then pipe_failed (or_text (ps_auth_error st) ''auth expired during publish'')
             (or_text (ps_auth_error_class st) ''AuthExpiredError'') 3
      else if ps_dependency_aborted st
      then pipe_failed (or_text (ps_dependency_error st) ''dependency error during publish'') ''DependencyError'' 3
      else
        let decision = decide_publish_exit (ps_outputs st) dry_run (ps_dedup_hold_count st) in
        if pe_kind decision = ''ok'' then pipe_ok (pe_successful decision)
        else \<lparr>pr_stdout = pe_successful decision, pr_stderr = [], pr_success = False, pr_error = pe_message decision,
              pr_error_class = dget kind_class (pe_kind decision), pr_exit_code = Some (pe_exit_code decision)\<rparr>)"

section \<open>An in-process run\<close>

definition strings_of :: "json list \<Rightarrow> string list" where
  "strings_of js = map str_of js"

definition runtime_options :: "string option \<Rightarrow> string option \<Rightarrow> int \<times> int \<Rightarrow> publish_options" where
  "runtime_options platform mode limits =
     \<lparr>po_platform = platform, po_mode = mode, po_dry_run = False, po_skip_publish_time_check = False,
      po_no_verify = False, po_reason = None, po_throttle_min = fst limits, po_throttle_max = snd limits\<rparr>"

text \<open>Under the leases: the setup of the adapters, then the loop.\<close>

definition guarded_run ::
  "shell_ctx \<Rightarrow> publish_options \<Rightarrow> string list \<Rightarrow> jdict list \<Rightarrow> (pipe_result + publish_outcome) ract" where
  "guarded_run sh opts platforms rows =
     bindS (liftR (verify_setup (px_supported (sh_px sh)) (sh_setup sh) (sort platforms))) (\<lambda>setup_err.
       case setup_err of
         Some r \<Rightarrow> retS (Inl r)
       | None \<Rightarrow> bindS (publish_rows ((sh_px sh)\<lparr>px_forced_keys := []\<rparr>) opts rows) (\<lambda>oc. retS (Inr oc)))"

definition leased_run :: "shell_ctx \<Rightarrow> publish_options \<Rightarrow> string list \<Rightarrow> jdict list \<Rightarrow> pipe_result ract" where
  "leased_run sh opts platforms rows =
     bindS (on_leases (guard_acquire (sh_env sh) (sh_isofmt sh) platforms)) (\<lambda>contended.
       case contended of
         Some (plat, details) \<Rightarrow>
           retS (pipe_failed ''error: another publish process is currently active for this platform.'' ''DependencyError'' 3)
       | None \<Rightarrow>
           bindS (finallyS (guarded_run sh opts platforms rows) (on_leases (guard_release (sh_env sh) platforms)))
             (\<lambda>r. case r of Inl res \<Rightarrow> retS res | Inr oc \<Rightarrow> retS (build_pipe_result oc False)))"

definition publish_inprocess ::
  "shell_ctx \<Rightarrow> string \<Rightarrow> string option \<Rightarrow> string option \<Rightarrow> bool \<Rightarrow> pipe_result ract" where
  "publish_inprocess sh plans platform mode tier_1 =
     (case read_publish_rows_strict (sh_loads sh) plans of
        Inl (Diagnostic msg) \<Rightarrow> retS (pipe_failed msg ''InputValidationError'' 2)
      | Inl (Escaped e) \<Rightarrow> raiseS e
      | Inr rows \<Rightarrow>
          bindS (liftR (target_platforms platform rows)) (\<lambda>targets.
          if list_ex browser_tier_value targets
          then retS (pipe_failed ''in-process publish refused for browser-tier platform'' ''DependencyError'' 3)
          else
            bindS (liftR (runtime_validate_rows sh platform 1 rows)) (\<lambda>invalid.
            case invalid of
              Some r \<Rightarrow> retS r
            | None \<Rightarrow>
                let rows = (if tier_1 then tier1_filter (sh_dofollow sh) platform rows else rows) in
                if tier_1 \<and> rows = [] then retS (pipe_ok [])
                else
                  bindS (liftR (sh_load_config sh)) (\<lambda>u.
                  bindS (drop_paused platform rows) (\<lambda>rows.
                  if rows = [] then retS (pipe_ok [])
                  else
                    bindS (liftR (throttle_config (sh_env sh))) (\<lambda>limits.
                    bindS (liftR (target_platforms platform rows)) (\<lambda>targets.
                      leased_run sh (runtime_options platform mode limits) (strings_of targets) rows)))))))"

section \<open>The command as a subprocess\<close>

text \<open>
  The surroundings of the child: its own shell, the other text it leaves on standard error for an
  ending (log lines, the banner of the configuration, a traceback), here after what the command
  prints, and the banner removal of \<open>_BANNER_RE\<close>: the text without the first banner, if there is one.
\<close>

record child_ctx =
  cc_shell :: shell_ctx
  cc_log :: "exn + unit \<Rightarrow> string list"
  cc_banner :: "string \<Rightarrow> string option"

definition MAX_SURFACED_ERROR :: nat where "MAX_SURFACED_ERROR = 4000"

text \<open>\<open>s.rstrip()\<close>, and \<open>s[:n]\<close> by code points.\<close>

definition rstrip :: "string \<Rightarrow> string" where
  "rstrip s = rev (dropWhile is_space (rev s))"

fun py_take :: "nat \<Rightarrow> string \<Rightarrow> string" where
  "py_take n [] = []"
| "py_take n (c # s) =
     (if is_continuation c then c # py_take n s else if n = 0 then [] else c # py_take (n - 1) s)"

definition cap_message :: "string \<Rightarrow> string" where
  "cap_message msg =
     (if py_len msg > int MAX_SURFACED_ERROR
      then rstrip (py_take MAX_SURFACED_ERROR msg) @ '' '' @ [CHR 0xE2, CHR 0x80, CHR 0xA6] @ ''(truncated)''
      else msg)"

text \<open>\<open>parse\<close>: the last envelope on standard error.\<close>

fun parse_envelope :: "stderr_line list \<Rightarrow> (string \<times> int \<times> string) option" where
  "parse_envelope [] = None"
| "parse_envelope (EnvelopeLine c n m # ls) = (case parse_envelope ls of None \<Rightarrow> Some (c, n, m) | Some e \<Rightarrow> Some e)"
| "parse_envelope (HumanText t # ls) = parse_envelope ls"

text \<open>The lines that are left once the envelopes are dropped.\<close>

fun human_texts :: "stderr_line list \<Rightarrow> string list" where
  "human_texts [] = []"
| "human_texts (HumanText t # ls) = t # human_texts ls"
| "human_texts (EnvelopeLine c n m # ls) = human_texts ls"

definition strip_cli_diagnostic_banner :: "(string \<Rightarrow> string option) \<Rightarrow> stderr_line list \<Rightarrow> string" where
  "strip_cli_diagnostic_banner banner stderr =
     (let text = join [LF] (human_texts stderr);
          cleaned = (\<lambda>t. rstrip (dropWhile (\<lambda>c. c = LF) t)) in
      case banner text of
        Some t \<Rightarrow> if cleaned t = [] then ''(CLI exited without an error message; check the WebUI log file for the full diagnostic)''
                  else cleaned t
      | None \<Rightarrow> if cleaned text \<noteq> [] then cleaned text else strip text)"

definition surface_cli_error :: "(string \<Rightarrow> string option) \<Rightarrow> stderr_line list \<Rightarrow> string" where
  "surface_cli_error banner stderr = cap_message (strip_cli_diagnostic_banner banner stderr)"

definition typed_error_result :: "(string \<Rightarrow> string option) \<Rightarrow> stderr_line list \<Rightarrow> string \<Rightarrow> pipe_result" where
  "typed_error_result banner stderr label =
     (case parse_envelope stderr of
        Some (c, n, m) \<Rightarrow>
          \<lparr>pr_stdout = [], pr_stderr = stderr, pr_success = False, pr_error = Some (cap_message m),
           pr_error_class = Some c, pr_exit_code = Some n\<rparr>
      | None \<Rightarrow>
          \<lparr>pr_stdout = [], pr_stderr = stderr, pr_success = False,
           pr_error = Some (let t = surface_cli_error banner stderr in if t = [] then label else t),
           pr_error_class = Some ''unrecognized'', pr_exit_code = None\<rparr>)"

text \<open>The child prints to pipes of its own: what it wrote is cut off the shared world again.\<close>

definition invoke_capture :: "child_ctx \<Rightarrow> bool \<Rightarrow> unit ract \<Rightarrow> string \<Rightarrow> pipe_result ract" where
  "invoke_capture child stdin_given run label w =
     (let d = rw_dedup w;
          (r, w1) = run (w\<lparr>rw_output := [], rw_dedup := d\<lparr>w_out := [], w_err := []\<rparr>\<rparr>);
          stdout = rw_output w1; stderr = w_err (rw_dedup w1) @ map HumanText (cc_log child r);
          w2 = w1\<lparr>rw_output := rw_output w, rw_dedup := (rw_dedup w1)\<lparr>w_out := w_out d, w_err := w_err d\<rparr>\<rparr>;
          code = exit_status r in
      (Inr (if code = 0
            then if stdin_given \<and> stdout = [] \<and> w_out (rw_dedup w1) = [] \<and> stderr = []
                 then \<lparr>pr_stdout = [], pr_stderr = [], pr_success = False,
                       pr_error = Some (label @ '': CLI produced no output''),
                       pr_error_class = Some ''unrecognized'', pr_exit_code = Some 0\<rparr>
                 else (pipe_ok stdout)\<lparr>pr_stderr := stderr\<rparr>
            else let res = typed_error_result (cc_banner child) stderr label in
                 res\<lparr>pr_stdout := stdout,
                     pr_exit_code := (case pr_exit_code res of None \<Rightarrow> Some code | Some n \<Rightarrow> Some n)\<rparr>), w2))"

text \<open>The arguments \<open>publish\<close> passes to the command.\<close>

definition sdk_args :: "string option \<Rightarrow> string option \<Rightarrow> bool \<Rightarrow> publish_args" where
  "sdk_args platform mode tier_1 =
     default_publish_args\<lparr>pa_dedup := no_args\<lparr>a_platform := platform\<rparr>,
       pa_mode := (case mode of None \<Rightarrow> Some ''draft'' | Some m \<Rightarrow> Some m), pa_tier_1 := tier_1\<rparr>"

definition run_child :: "child_ctx \<Rightarrow> string \<Rightarrow> publish_args \<Rightarrow> pipe_result ract" where
  "run_child child stdin args =
     invoke_capture child (stdin \<noteq> []) (publish_main ((cc_shell child)\<lparr>sh_input := text_lines stdin\<rparr>) args)
       ''publish-backlinks failed''"

definition sdk_publish ::
  "shell_ctx \<Rightarrow> child_ctx \<Rightarrow> string \<Rightarrow> string \<Rightarrow> string \<Rightarrow> bool \<Rightarrow> pipe_result ract" where
  "sdk_publish sh child plans platform mode tier_1 =
     (if is_browser_tier platform then run_child child plans (sdk_args (Some platform) (Some mode) tier_1)
      else publish_inprocess sh plans (Some platform) (Some mode) tier_1)"

definition sdk_publish_seed :: "shell_ctx \<Rightarrow> child_ctx \<Rightarrow> string \<Rightarrow> pipe_result ract" where
  "sdk_publish_seed sh child plans =
     bindS (liftR (parse_jsonl_rows (sh_loads sh) plans)) (\<lambda>rows.
     bindS (liftR (any_browser_tier (map (\<lambda>r. jget_or r ''platform'' (JStr [])) rows))) (\<lambda>browser.
       if browser then run_child child plans (sdk_args None None False)
       else publish_inprocess sh plans None None False))"

section \<open>The summary of a run\<close>

text \<open>\<open>(r.get(k) or "").strip()\<close> on the rows of the pipeline, which have strings there.\<close>

definition has_text :: "jdict \<Rightarrow> string \<Rightarrow> bool" where
  "has_text r k \<longleftrightarrow> strip (str_of (jget r k)) \<noteq> []"

definition has_url :: "jdict \<Rightarrow> bool" where
  "has_url r \<longleftrightarrow> has_text r ''published_url'' \<or> has_text r ''draft_url''"

definition failure_message :: "jdict \<Rightarrow> string" where
  "failure_message r =
     (let e = strip (str_of (jget r ''error'')); st = str_of (jget r ''status'') in
      if e \<noteq> [] then e else (if st = [] then ''failed'' else st) @ '' (no URL)'')"

record publish_summary =
  sm_n_ok :: nat
  sm_n_failed :: nat
  sm_state :: string
  sm_failure_detail :: string

definition publish_state_summary :: "jdict list \<Rightarrow> publish_summary" where
  "publish_state_summary results =
     (let n_ok = length (filter has_url results); n_failed = length results - n_ok in
      \<lparr>sm_n_ok = n_ok, sm_n_failed = n_failed,
       sm_state = (if n_failed = 0 then ''all_success'' else if n_ok = 0 then ''all_failed'' else ''partial_success''),
       sm_failure_detail = join [CHR 0xEF, CHR 0xBC, CHR 0x9B] (map failure_message (filter (\<lambda>r. \<not> has_url r) results))\<rparr>)"

end
