(* ===== verification/Sdk_Facts.thy ===== *)
theory Sdk_Facts
  imports Sdk Publish_Cmd_Facts Leases_Facts
begin

text \<open>
  The command and the in-process runtime are the same publisher: on the same world and input they
  leave the same stores, print the same rows and end with the same exit code and error class. The
  runtime gives its leases back however the run ends.
\<close>

section \<open>How a run is aborted\<close>

definition abort_ok :: "publish_state \<Rightarrow> bool" where
  "abort_ok st \<longleftrightarrow> (ps_auth_aborted st \<longrightarrow> ps_auth_error_class st = Some ''AuthExpiredError'' \<and> \<not> ps_dependency_aborted st)"

definition row_ok :: "row_signal option \<times> publish_state \<Rightarrow> bool" where
  "row_ok = (\<lambda>(sig, st). \<not> aborted st \<and>
     (sig = Some AuthAbort \<longrightarrow> ps_auth_error_class st = Some ''AuthExpiredError''))"

lemma auth_class: "isinst e AuthExpiredError \<Longrightarrow> exc_name (exn_cls e) = ''AuthExpiredError''"
proof (cases e)
  case (Exn c m b ch)
  assume "isinst e AuthExpiredError"
  then have "is_subclass c AuthExpiredError" using Exn by simp
  then have "c = AuthExpiredError" by (cases c) (simp_all add: is_subclass.simps)
  then show ?thesis using Exn by simp
qed simp

lemma aborted_simps [simp]:
  "aborted (st\<lparr>ps_outputs := a\<rparr>) = aborted st" "aborted (st\<lparr>ps_fail_count := n\<rparr>) = aborted st"
  "aborted (st\<lparr>ps_success_count := n\<rparr>) = aborted st" "aborted (st\<lparr>ps_run_id := r\<rparr>) = aborted st"
  "aborted (st\<lparr>ps_canary_warned := ws\<rparr>) = aborted st" "aborted (st\<lparr>ps_dedup_skip_count := n\<rparr>) = aborted st"
  "aborted (st\<lparr>ps_dedup_hold_count := n\<rparr>) = aborted st" "aborted (st\<lparr>ps_auth_error := x\<rparr>) = aborted st"
  "aborted (st\<lparr>ps_auth_error_class := x\<rparr>) = aborted st" "aborted (st\<lparr>ps_dependency_error := x\<rparr>) = aborted st"
  "aborted (st\<lparr>ps_conflict_error := x\<rparr>) = aborted st" "aborted (st\<lparr>ps_skipped_quarantined_count := n\<rparr>) = aborted st"
  "aborted (st\<lparr>ps_skipped_unreachable_count := n\<rparr>) = aborted st" "aborted (st\<lparr>ps_publish_path_drift_count := n\<rparr>) = aborted st"
  "aborted (st\<lparr>ps_last_medium_success_idx := i\<rparr>) = aborted st"
  by (simp_all add: aborted_def)

lemma failure_ok: "\<not> aborted st \<Longrightarrow> yields (record_publish_failure ctx row p st cls msg) (\<lambda>st'. \<not> aborted st')"
  unfolding record_publish_failure_def by (intro yields_intros) simp

lemma except_ok:
  assumes "\<not> aborted st"
  shows "yields (publish_except ctx row p st e) (\<lambda>(sig, st'). row_ok (Some sig, st'))"
proof -
  have fail: "yields (bindS (record_publish_failure ctx row p (st\<lparr>ps_fail_count := n\<rparr>) cls msg) (\<lambda>st'. retS (RowContinue, st')))
      (\<lambda>(sig, st'). row_ok (Some sig, st'))" for n cls msg
    by (rule yields_bind[OF failure_ok]) (use assms in \<open>simp_all add: yields_retS row_ok_def\<close>)
  show ?thesis
    unfolding publish_except_def Let_def
    by (intro yields_if fail) (auto intro!: yields_intros simp: row_ok_def assms auth_class)
qed

lemma row_abort_ok:
  assumes "\<not> aborted st"
  shows "yields (publish_one_row ctx opts i row st) row_ok"
proof -
  have dedup: "yields (dedup_precondition ctx opts row p st1) row_ok" if "\<not> aborted st1" for p st1
    unfolding dedup_precondition_def using that
    by (auto intro!: yields_intros simp: row_ok_def split: verdict.splits)
  have pre: "yields (check_publish_preconditions ctx opts i row st) row_ok"
    unfolding check_publish_preconditions_def Let_def
    by (intro yields_bind_any, clarsimp split: prod.splits, intro conjI impI yields_intros)
      (auto intro!: yields_intros dedup[unfolded row_ok_def] simp: row_ok_def assms split: option.splits)
  have process: "yields (process_publish_result ctx opts x row p i st1) (\<lambda>st2. \<not> aborted st2)" if "\<not> aborted st1" for x p st1
    unfolding process_publish_result_def Let_def using that
    by (auto intro!: yields_intros split: option.splits list.splits)
  have dispatch: "yields (dispatch_adapter_publish ctx row p mode st1)
      (\<lambda>r. case r of Inl (sig, st2) \<Rightarrow> row_ok (Some sig, st2) | Inr x \<Rightarrow> True)" if "\<not> aborted st1" for p mode st1
    unfolding dispatch_adapter_publish_def
    by (intro yields_catch yields_bind_any yields_retS yields_bind[OF except_ok[OF that]]) (auto intro: yields_retS)
  show ?thesis
    unfolding publish_one_row_def Let_def
  proof (rule yields_bind[OF pre], clarify)
    fix sig st1 assume ok: "row_ok (sig, st1)"
    then have na: "\<not> aborted st1" by (simp add: row_ok_def)
    show "yields (case sig of
        Some s \<Rightarrow> retS (Some s, st1)
      | None \<Rightarrow> bindS (dispatch_adapter_publish ctx row (row_platform (po_platform opts) row) (row_mode (po_mode opts) row) st1)
          (\<lambda>r. case r of Inl (sig, st) \<Rightarrow> retS (Some sig, st)
             | Inr result \<Rightarrow> bindS (process_publish_result ctx opts result row (row_platform (po_platform opts) row) i st1)
                 (\<lambda>st. retS (None, st)))) row_ok"
    proof (cases sig)
      case None
      show ?thesis
        unfolding None option.case
        by (rule yields_bind[OF dispatch[OF na]])
          (auto intro!: yields_retS yields_bind[OF process[OF na]] simp: row_ok_def split: sum.splits prod.splits)
    qed (use ok in \<open>simp add: yields_retS\<close>)
  qed
qed

lemma loop_abort_ok: "\<not> aborted st \<Longrightarrow> yields (run_publish_loop ctx opts i rows st) abort_ok"
proof (induction rows arbitrary: i st)
  case Nil
  then show ?case by (simp add: yields_retS abort_ok_def aborted_def)
next
  case (Cons row rows)
  show ?case
    unfolding run_publish_loop.simps
    by (rule yields_bind[OF row_abort_ok[OF Cons.prems]])
      (auto intro!: yields_retS Cons.IH[unfolded abort_ok_def aborted_def] simp: row_ok_def abort_ok_def aborted_def split: option.splits row_signal.splits)
qed

lemma publish_rows_abort_ok: "yields (publish_rows ctx opts rows) (\<lambda>oc. abort_ok (oc_state oc) \<and> oc_options oc = opts)"
proof -
  have loop: "yields (bindS (run_publish_loop ctx opts 0 rows (new_publish_state r))
      (\<lambda>st. retS \<lparr>oc_state = st, oc_options = opts, oc_checkpoint_disabled = d\<rparr>)) (\<lambda>oc. abort_ok (oc_state oc) \<and> oc_options oc = opts)" for r d
    by (rule yields_bind[OF loop_abort_ok[OF new_state_booked(2)]]) (simp add: yields_retS)
  show ?thesis unfolding publish_rows_def by (rule yields_bind_any) (simp add: loop split: prod.split)
qed

section \<open>The report of the command is the result of the runtime\<close>

lemma parse_human [simp]:
  "parse_envelope (map HumanText ls @ es) = parse_envelope es"
  by (induction ls) simp_all

lemma parse_emitted [simp]:
  "parse_envelope (fst (emit_error msg code cls)) =
     Some (case cls of Some (c # cs) \<Rightarrow> c # cs | _ \<Rightarrow> exit_code_class_name code, code, msg)"
  by (simp add: emit_error_def split: option.split list.split)

text \<open>A report tells the same whatever the world: rows and envelope of the result.\<close>

definition reports :: "(exn + unit) \<Rightarrow> stderr_line list \<Rightarrow> pipe_result \<Rightarrow> bool" where
  "reports r es res \<longleftrightarrow> pr_exit_code res = Some (exit_status r) \<and> (pr_success res \<longleftrightarrow> exit_status r = 0) \<and>
     (\<not> pr_success res \<longrightarrow> (\<exists>c m. parse_envelope es = Some (c, exit_status r, m) \<and>
        pr_error_class res = Some c \<and> pr_error res = Some m))"

lemma report_failed:
  "code \<noteq> 0 \<Longrightarrow> cls' = (case cls of Some (c # cs) \<Rightarrow> c # cs | _ \<Rightarrow> exit_code_class_name code) \<Longrightarrow>
   reports (Inl (SysExit code)) (fst (emit_error msg code cls)) (pipe_failed msg cls' code)"
  by (simp add: reports_def pipe_failed_def exit_status_def)

lemma decide_kind_cases:
  assumes "d = decide_publish_exit outs b n"
  shows "pe_kind d = ''failed'' \<and> pe_exit_code d = 4 \<and> (\<exists>m. pe_message d = Some m) \<or>
    pe_kind d = ''all_held'' \<and> pe_exit_code d = 3 \<and> (\<exists>m. pe_message d = Some m) \<or>
    pe_kind d = ''none_published'' \<and> pe_exit_code d = 5 \<and> (\<exists>m. pe_message d = Some m) \<or>
    pe_kind d = ''unverified'' \<and> pe_exit_code d = 5 \<and> (\<exists>m. pe_message d = Some m) \<or>
    pe_kind d = ''ok'' \<and> pe_exit_code d = 0"
proof -
  define s f u where "s = filter (\<lambda>r. jget r ''error'' = JNull) outs" and "f = filter (\<lambda>r. jget r ''error'' \<noteq> JNull) outs"
    and "u = filter (\<lambda>s. endswith (str_of (jget_or s ''status'' (JStr []))) ''_unverified'') s"
  note d = assms[unfolded decide_publish_exit_def Let_def, folded f_def s_def, folded u_def]
  show ?thesis
    by (cases "f = []"; cases "\<not> b \<and> s = []"; cases "n > 0"; cases "u = []") (simp_all add: d)
qed

text \<open>The two ends of a run, from the verdict on.\<close>

definition finish :: "shell_ctx \<Rightarrow> publish_exit \<Rightarrow> unit ract" where
  "finish sh decision =
     (let message = (case pe_message decision of None \<Rightarrow> [] | Some m \<Rightarrow> m) in
       if pe_kind decision = ''failed''
       then bindS (warn_all (map (\<lambda>f. ''publish failed: '' @ py_str (sh_env sh) (jget f ''error'')) (pe_failed decision)))
              (\<lambda>u. exit_with_envelope ''ExternalServiceError'' 4 message)
       else if pe_kind decision = ''all_held'' \<or> pe_kind decision = ''none_published''
       then emit_error_as message (pe_exit_code decision) None
       else if pe_kind decision = ''unverified''
       then bindS (warn_all (map (\<lambda>f. ''verification failed: id='' @ py_str (sh_env sh) (jget_or f ''id'' (JStr [])) @
                                    '' status='' @ py_str (sh_env sh) (jget_or f ''status'' (JStr []))) (pe_unverified decision)))
              (\<lambda>u. exit_with_envelope ''InternalError'' 5 message)
       else retS ())"

definition decision_result :: "publish_exit \<Rightarrow> pipe_result" where
  "decision_result decision =
     (if pe_kind decision = ''ok'' then pipe_ok (pe_successful decision)
      else \<lparr>pr_stdout = pe_successful decision, pr_stderr = [], pr_success = False, pr_error = pe_message decision,
            pr_error_class = dget kind_class (pe_kind decision), pr_exit_code = Some (pe_exit_code decision)\<rparr>)"

lemma finish_told:
  assumes "d = decide_publish_exit outs b n"
  obtains r es where "\<And>w. finish sh d w = (r, told es [] [] w)" "reports r es (decision_result d)"
proof -
  consider (failed) m where "pe_kind d = ''failed''" "pe_exit_code d = 4" "pe_message d = Some m"
    | (held) m where "pe_kind d = ''all_held''" "pe_exit_code d = 3" "pe_message d = Some m"
    | (none_published) m where "pe_kind d = ''none_published''" "pe_exit_code d = 5" "pe_message d = Some m"
    | (unverified) m where "pe_kind d = ''unverified''" "pe_exit_code d = 5" "pe_message d = Some m"
    | (ok) "pe_kind d = ''ok''" "pe_exit_code d = 0"
    using decide_kind_cases[OF assms] by blast
  then show thesis
  proof cases
    case (failed m)
    note f = failed
    have "finish sh d w = (Inl (SysExit 4), told (map HumanText (map (\<lambda>f. ''publish failed: '' @ py_str (sh_env sh) (jget f ''error''))
        (pe_failed d)) @ [EnvelopeLine ''ExternalServiceError'' 4 m]) [] [] w)" for w
      unfolding finish_def Let_def by (simp add: f bindS_def warn_all_told told_steps)
    then show ?thesis
      by (rule that) (simp add: reports_def exit_status_def decision_result_def f kind_class_def del: map_map)
  next
    case (held m)
    note f = held
    have "finish sh d w = (Inl (SysExit 3), told (fst (emit_error m 3 None)) [] [] w)" for w
      unfolding finish_def Let_def by (simp add: f told_steps)
    then show ?thesis by (rule that) (simp add: reports_def exit_status_def decision_result_def f kind_class_def)
  next
    case (none_published m)
    note f = none_published
    have "finish sh d w = (Inl (SysExit 5), told (fst (emit_error m 5 None)) [] [] w)" for w
      unfolding finish_def Let_def by (simp add: f told_steps)
    then show ?thesis by (rule that) (simp add: reports_def exit_status_def decision_result_def f kind_class_def)
  next
    case (unverified m)
    note f = unverified
    have "finish sh d w = (Inl (SysExit 5), told (map HumanText (map (\<lambda>f. ''verification failed: id='' @
        py_str (sh_env sh) (jget_or f ''id'' (JStr [])) @ '' status='' @ py_str (sh_env sh) (jget_or f ''status'' (JStr [])))
        (pe_unverified d)) @ [EnvelopeLine ''InternalError'' 5 m]) [] [] w)" for w
      unfolding finish_def Let_def by (simp add: f bindS_def warn_all_told told_steps)
    then show ?thesis
      by (rule that) (simp add: reports_def exit_status_def decision_result_def f kind_class_def del: map_map)
  next
    case ok
    note f = ok
    have "finish sh d w = (Inr (), told [] [] [] w)" for w
      unfolding finish_def Let_def by (simp add: f retS_def)
    then show ?thesis by (rule that) (simp add: reports_def exit_status_def decision_result_def f pipe_ok_def)
  qed
qed

lemma stdout_parts [simp]: "pr_stdout (pipe_failed m c n) = []" "pr_stdout (decision_result d) = pe_successful d"
  by (simp_all add: pipe_failed_def decision_result_def pipe_ok_def)

lemma report_run:
  assumes "abort_ok (oc_state oc)" "\<not> pa_dry_run args" "run_reconciler sh args = None"
  obtains r es ids where
    "\<And>w. report_outcome sh args oc w = (r, told es (pr_stdout (build_pipe_result oc False)) ids w)"
    "reports r es (build_pipe_result oc False)"
proof -
  let ?st = "oc_state oc"
  let ?d = "decide_publish_exit (ps_outputs ?st) False (ps_dedup_hold_count ?st)"
  note result = that
  have stop: thesis
    if "\<And>w. report_outcome sh args oc w = emit_error_as msg code cls w" "code \<noteq> 0"
      "build_pipe_result oc False = pipe_failed msg (case cls of Some (c # cs) \<Rightarrow> c # cs | _ \<Rightarrow> exit_code_class_name code) code"
    for msg code cls
    by (rule result[of "Inl (SysExit code)" "fst (emit_error msg code cls)" "[]"])
      (simp_all add: that told_steps report_failed)
  consider (conflict) "ps_conflict_aborted ?st"
    | (dep) "\<not> ps_conflict_aborted ?st" "ps_dependency_aborted ?st" "\<not> ps_auth_aborted ?st"
    | (auth) "\<not> ps_conflict_aborted ?st" "\<not> ps_dependency_aborted ?st" "ps_auth_aborted ?st"
    | (run) "\<not> aborted ?st"
    using assms(1) by (auto simp: abort_ok_def aborted_def)
  then show thesis
  proof cases
    case conflict
    show thesis
      by (rule stop[of "or_text (ps_conflict_error ?st) ''force-manifest conflict''" 1 None])
        (use conflict in \<open>simp_all add: report_outcome_def build_pipe_result_def\<close>)
  next
    case dep
    show thesis
      by (rule stop[of "or_text (ps_dependency_error ?st) ''dependency error during publish''" 3 None])
        (use dep in \<open>simp_all add: report_outcome_def build_pipe_result_def\<close>)
  next
    case auth
    then have c: "ps_auth_error_class ?st = Some ''AuthExpiredError''" using assms(1) by (simp add: abort_ok_def)
    show thesis
      by (rule stop[of "or_text (ps_auth_error ?st) ''auth expired during publish''" 3 "Some ''AuthExpiredError''"])
        (use auth c in \<open>simp_all add: report_outcome_def build_pipe_result_def or_text_def[of "Some _"]\<close>)
  next
    case run
    obtain r es where fin: "\<And>w. finish sh ?d w = (r, told es [] [] w)" "reports r es (decision_result ?d)"
      using finish_told[OF refl, where sh = sh] by blast
    let ?ids = "case ps_run_id ?st of None \<Rightarrow> [] | Some i \<Rightarrow> [i]"
    have res: "build_pipe_result oc False = decision_result ?d"
      using run by (simp add: build_pipe_result_def decision_result_def aborted_def Let_def)
    have "report_outcome sh args oc w = finish sh ?d (told [] (pe_successful ?d) ?ids w)" for w
      using run assms(2,3) unfolding report_outcome_def aborted_def publish_epilogue_def finish_def Let_def
      by (cases "ps_run_id ?st") (simp_all add: bindS_step told_steps bindS_retS)
    then show thesis using result[of r es ?ids] fin res by simp
  qed
qed

section \<open>The two publishers step by step\<close>

text \<open>
  An ending of the command agrees with one of the runtime: the same exception, or a result whose rows,
  code, class and message are what the command told; the worlds differ by the telling only.
\<close>

fun agrees :: "(exn + unit) \<times> rworld \<Rightarrow> (exn + pipe_result) \<times> rworld \<Rightarrow> bool" where
  "agrees (r, w1) (Inl e, w2) \<longleftrightarrow> r = Inl e \<and> (\<exists>es outs ids. w1 = told es outs ids w2)"
| "agrees (r, w1) (Inr res, w2) \<longleftrightarrow> (\<exists>es ids. w1 = told es (pr_stdout res) ids w2 \<and> reports r es res)"

lemma agrees_same: "agrees (Inl e, w) (Inl e, w)"
  using told_Nil[of w, symmetric] by (simp del: told_Nil) blast

lemma agrees_failed:
  "code \<noteq> 0 \<Longrightarrow> cls = exit_code_class_name code \<Longrightarrow> agrees (emit_error_as msg code None w) (Inr (pipe_failed msg cls code), w)"
  unfolding told_steps agrees.simps using report_failed[of code cls None msg] by auto

lemma agrees_done: "agrees (Inl (SysExit 0), w) (Inr (pipe_ok []), w)" "agrees (Inr (), w) (Inr (pipe_ok []), w)"
proof -
  have "w = told [] (pr_stdout (pipe_ok [])) [] w" "reports (Inl (SysExit 0)) [] (pipe_ok [])" "reports (Inr ()) [] (pipe_ok [])"
    by (simp_all add: pipe_ok_def reports_def exit_status_def)
  then show "agrees (Inl (SysExit 0), w) (Inr (pipe_ok []), w)" "agrees (Inr (), w) (Inr (pipe_ok []), w)"
    unfolding agrees.simps by blast+
qed

lemma validation_agrees:
  obtains (raised) e where "runtime_validate_rows sh arg idx rows = Inl e" "\<And>w. validate_loop sh arg idx rows w = (Inl e, w)"
  | (passed) "runtime_validate_rows sh arg idx rows = Inr None" "\<And>w. validate_loop sh arg idx rows w = (Inr (), w)"
      "\<forall>row \<in> set rows. raw_platform arg row \<in> JStr ` set (px_supported (sh_px sh)) \<and>
         validate_publish_payload (px_supported (sh_px sh)) (sh_boolish sh) (sh_dumps sh) row = Inr []"
  | (refused) res where "runtime_validate_rows sh arg idx rows = Inr (Some res)"
      "\<And>f w. agrees (bindS (validate_loop sh arg idx rows) f w) (Inr res, w)"
proof (induction rows arbitrary: idx thesis)
  case Nil
  then show ?case by (simp add: retS_def)
next
  case (Cons row rows)
  let ?sup = "px_supported (sh_px sh)"
  let ?v = "validate_publish_payload ?sup (sh_boolish sh) (sh_dumps sh) row"
  have step: "validate_loop sh arg idx (row # rows) w =
      (case reject_unsupported_platform ?sup (raw_platform arg row) of
         Inl e \<Rightarrow> (Inl e, w) | Inr (Some m) \<Rightarrow> emit_error_as (row_label idx @ m) 2 None w
       | Inr None \<Rightarrow> (case ?v of Inl e \<Rightarrow> (Inl e, w)
           | Inr errs \<Rightarrow> if errs \<noteq> [] then exit_with_envelope ''InputValidationError'' 2 (row_label idx @ ''payload validation failed'') w
                        else validate_loop sh arg (idx + 1) rows w))" for w
    by (simp add: bindS_def liftR_def split: sum.split option.split)
  consider (rej) e where "reject_unsupported_platform ?sup (raw_platform arg row) = Inl e"
    | (msg) m where "reject_unsupported_platform ?sup (raw_platform arg row) = Inr (Some m)"
    | (val) e where "reject_unsupported_platform ?sup (raw_platform arg row) = Inr None" "?v = Inl e"
    | (errs) err errs where "reject_unsupported_platform ?sup (raw_platform arg row) = Inr None" "?v = Inr (err # errs)"
    | (ok) "reject_unsupported_platform ?sup (raw_platform arg row) = Inr None" "?v = Inr []"
    by (metis not_None_eq list.exhaust sum.exhaust)
  then show ?case
  proof cases
    case rej
    show ?thesis by (rule Cons.prems(1)[of e]) (simp_all add: rej step del: validate_loop.simps)
  next
    case msg
    have "agrees (bindS (validate_loop sh arg idx (row # rows)) f w) (Inr (pipe_failed (row_label idx @ m) ''InputValidationError'' 2), w)" for f w
      using agrees_failed[of 2 "''InputValidationError''" "row_label idx @ m" w] unfolding bindS_def step msg told_steps by simp
    then show ?thesis by (intro Cons.prems(3)) (simp_all add: msg)
  next
    case val
    show ?thesis by (rule Cons.prems(1)[of e]) (simp_all add: val step del: validate_loop.simps)
  next
    case errs
    have "agrees (bindS (validate_loop sh arg idx (row # rows)) f w)
        (Inr (pipe_failed (row_label idx @ ''payload validation failed'') ''InputValidationError'' 2), w)" for f w
      unfolding bindS_def step errs told_steps
      by (simp add: told_steps) (auto simp: reports_def pipe_failed_def exit_status_def)
    then show ?thesis by (intro Cons.prems(3)) (simp_all add: errs)
  next
    case ok
    have sup: "raw_platform arg row \<in> JStr ` set ?sup"
      using ok(1) by (auto simp: reject_unsupported_platform_def in_names_def split: if_splits)
    have eq: "runtime_validate_rows sh arg idx (row # rows) = runtime_validate_rows sh arg (idx + 1) rows"
      "\<And>w. validate_loop sh arg idx (row # rows) w = validate_loop sh arg (idx + 1) rows w"
      using ok by (simp_all add: step del: validate_loop.simps)
    have bind: "bindS (validate_loop sh arg idx (row # rows)) f w = bindS (validate_loop sh arg (idx + 1) rows) f w"
      for f :: "unit \<Rightarrow> unit ract" and w
      by (simp only: bindS_def eq)
    show ?thesis
    proof (rule Cons.IH[of "idx + 1"], goal_cases)
      case (1 e)
      then show ?thesis by (intro Cons.prems(1)[of e]) (simp_all only: eq)
    next
      case 2
      show ?thesis
        by (rule Cons.prems(2)) (use 2 sup ok(2) eq in \<open>simp_all del: validate_loop.simps runtime_validate_rows.simps\<close>)
    next
      case (3 res)
      then show ?thesis by (intro Cons.prems(3)[of res]) (simp_all only: eq bind)
    qed
  qed
qed

lemma setup_agrees:
  obtains (raised) e where "verify_setup supported setup ps = Inl e" "\<And>w. verify_setups supported setup ps w = (Inl e, w)"
  | (ready) "verify_setup supported setup ps = Inr None" "\<And>w. verify_setups supported setup ps w = (Inr (), w)"
  | (refused) msg where "verify_setup supported setup ps = Inr (Some (pipe_failed msg ''DependencyError'' 3))"
      "\<And>w. verify_setups supported setup ps w = emit_error_as msg 3 None w"
proof (induction ps arbitrary: thesis)
  case Nil
  then show ?case by (simp add: retS_def)
next
  case (Cons p ps)
  consider (skip) "p \<notin> set supported \<or> setup p = Inr ()" | (err) e where "p \<in> set supported" "setup p = Inl e"
    by (cases "setup p") auto
  then show ?case
  proof cases
    case skip
    then have eq: "verify_setup supported setup (p # ps) = verify_setup supported setup ps"
      "\<And>w. verify_setups supported setup (p # ps) w = verify_setups supported setup ps w"
      by (auto simp: bindS_def catchS_def liftR_def retS_def)
    show ?thesis by (rule Cons.IH) (use Cons.prems in \<open>simp_all only: eq\<close>)
  next
    case err
    show ?thesis
    proof (cases "isinst e DependencyError")
      case True
      show ?thesis
        by (rule Cons.prems(3)[of "str_exn e"])
          (use err True in \<open>simp_all add: bindS_def catchS_def liftR_def told_steps\<close>)
    next
      case False
      show ?thesis
        by (rule Cons.prems(1)[of e]) (use err False in \<open>simp_all add: bindS_def catchS_def liftR_def\<close>)
    qed
  qed
qed

lemma on_leases_told: "on_leases m (told es outs ids w) = (fst (on_leases m w), told es outs ids (snd (on_leases m w)))"
  by (simp add: on_leases_def told_def split: prod.split)

text \<open>Both give the leases back, the command after it has told the result.\<close>

lemma finally_agrees:
  assumes "agrees (a w) (bindS b k w)" "\<And>x w'. k x w' = (Inr (g x), w')"
  shows "agrees (finallyS a (on_leases m) w) (bindS (finallyS b (on_leases m)) k w)"
proof -
  obtain r w1 where a: "a w = (r, w1)" by fastforce
  obtain r' w2 where b: "b w = (r', w2)" by fastforce
  obtain rc wc where c: "on_leases m w2 = (rc, wc)" by fastforce
  have told: "on_leases m (told es outs ids w2) = (rc, told es outs ids wc)" for es outs ids
    by (simp add: on_leases_told c)
  show ?thesis
  proof (cases r')
    case (Inl e)
    then have "r = Inl e" "\<exists>es outs ids. w1 = told es outs ids w2" using assms(1) by (simp_all add: a b bindS_def)
    then obtain es outs ids where "w1 = told es outs ids w2" "r = Inl e" by blast
    then show ?thesis
      by (cases rc) (simp_all add: finallyS_def a b c told bindS_def Inl, blast+)
  next
    case (Inr x)
    then obtain es ids where "w1 = told es (pr_stdout (g x)) ids w2" "reports r es (g x)"
      using assms(1) by (auto simp: a b bindS_def assms(2))
    then show ?thesis by (auto simp: finallyS_def a b c told bindS_def Inr assms(2) split: sum.split)
  qed
qed

lemma run_agrees:
  assumes "throttle_config (sh_env sh) = Inr lims"
    "args = sdk_args platform (Some mode) tier_1"
  shows "agrees (bindS (verify_setups (px_supported (sh_px sh)) (sh_setup sh) (sort ps)) (\<lambda>u. publish_selected sh args rows []) w)
     (bindS (guarded_run sh (runtime_options platform (Some mode) lims) ps rows)
        (\<lambda>r. case r of Inl res \<Rightarrow> retS res | Inr oc \<Rightarrow> retS (build_pipe_result oc False)) w)"
proof -
  let ?opts = "runtime_options platform (Some mode) lims" and ?ctx = "(sh_px sh)\<lparr>px_forced_keys := []\<rparr>"
  have live: "\<not> pa_dry_run args" "run_reconciler sh args = None"
    by (simp_all add: assms(2) sdk_args_def default_publish_args_def run_reconciler_def str_truthy_def)
  have selected: "publish_selected sh args rows [] w = bindS (publish_rows ?ctx ?opts rows) (report_outcome sh args) w" for w
    unfolding publish_selected_def assms(1) bindS_liftR
    by (simp add: assms(2) sdk_args_def default_publish_args_def no_args_def runtime_options_def split: prod.split)
  show ?thesis
  proof (rule setup_agrees[of "px_supported (sh_px sh)" "sh_setup sh" "sort ps"])
    fix e assume "verify_setup (px_supported (sh_px sh)) (sh_setup sh) (sort ps) = Inl e"
      "\<And>w. verify_setups (px_supported (sh_px sh)) (sh_setup sh) (sort ps) w = (Inl e, w)"
    then show ?thesis by (simp add: guarded_run_def bindS_def liftR_def agrees_same del: agrees.simps)
  next
    fix msg assume "verify_setup (px_supported (sh_px sh)) (sh_setup sh) (sort ps) = Inr (Some (pipe_failed msg ''DependencyError'' 3))"
      "\<And>w. verify_setups (px_supported (sh_px sh)) (sh_setup sh) (sort ps) w = emit_error_as msg 3 None w"
    then show ?thesis
      using agrees_failed[of 3 "''DependencyError''" msg w] by (simp add: guarded_run_def bindS_def liftR_def retS_def told_steps)
  next
    assume "verify_setup (px_supported (sh_px sh)) (sh_setup sh) (sort ps) = Inr None"
      "\<And>w. verify_setups (px_supported (sh_px sh)) (sh_setup sh) (sort ps) w = (Inr (), w)"
    then have eq: "bindS (verify_setups (px_supported (sh_px sh)) (sh_setup sh) (sort ps)) (\<lambda>u. publish_selected sh args rows []) w =
        bindS (publish_rows ?ctx ?opts rows) (report_outcome sh args) w"
      "bindS (guarded_run sh ?opts ps rows) (\<lambda>r. case r of Inl res \<Rightarrow> retS res | Inr oc \<Rightarrow> retS (build_pipe_result oc False)) w =
        bindS (publish_rows ?ctx ?opts rows) (\<lambda>oc. retS (build_pipe_result oc False)) w"
      by (simp_all add: guarded_run_def bindS_def liftR_def retS_def selected split: prod.split sum.split)
    show ?thesis
    proof (cases "publish_rows ?ctx ?opts rows w")
      case (Pair r w')
      show ?thesis
      proof (cases r)
        case (Inl e)
        then show ?thesis unfolding eq using Pair by (simp add: bindS_def agrees_same del: agrees.simps)
      next
        case (Inr oc)
        have "abort_ok (oc_state oc)"
          using yieldsD[OF publish_rows_abort_ok] Pair Inr by blast
        then obtain r es ids where run: "\<And>w. report_outcome sh args oc w = (r, told es (pr_stdout (build_pipe_result oc False)) ids w)"
          "reports r es (build_pipe_result oc False)"
          using report_run live by blast
        then show ?thesis unfolding eq using Pair Inr by (auto simp: bindS_def retS_def)
      qed
    qed
  qed
qed

lemma leased_agrees:
  assumes "throttle_config (sh_env sh) = Inr lims" "args = sdk_args platform (Some mode) tier_1"
    "db_faults (rw_leases w) = []" "distinct ps" "[] \<notin> set ps" "sh_order sh ps = sort ps"
  shows "agrees
     (bindS (take_publish_leases (sh_env sh) (sh_isofmt sh) ps) (\<lambda>u.
        finallyS (bindS (verify_setups (px_supported (sh_px sh)) (sh_setup sh) (sh_order sh ps)) (\<lambda>u. publish_selected sh args rows []))
          (on_leases (release_leases (sort ps) (e_pid (sh_env sh))))) w)
     (leased_run sh (runtime_options platform (Some mode) lims) ps rows w)"
proof -
  have "filter (\<lambda>p. p \<noteq> []) ps = ps" using assms(5) by (induction ps) auto
  then have plats: "guard_platforms ps = sort ps" "sort (remdups ps) = sort ps"
    using assms(4) by (simp_all add: guard_platforms_def distinct_remdups_id)
  have acq: "guard_acquire (sh_env sh) (sh_isofmt sh) ps (rw_leases w) =
      acquire_publish_leases (sh_env sh) (sh_isofmt sh) ps (rw_leases w)"
    unfolding guard_acquire_def acquire_publish_leases_def plats
    by (rule guard_loop_eq[OF assms(3)]) (simp add: assms(4))
  have rel: "guard_release (sh_env sh) ps = release_leases (sort ps) (e_pid (sh_env sh))"
    by (simp add: guard_release_def plats)
  obtain r l where acquired: "acquire_publish_leases (sh_env sh) (sh_isofmt sh) ps (rw_leases w) = (r, l)" by fastforce
  let ?w = "w\<lparr>rw_leases := l\<rparr>"
  have steps: "on_leases (acquire_publish_leases (sh_env sh) (sh_isofmt sh) ps) w = (r, ?w)"
    "on_leases (guard_acquire (sh_env sh) (sh_isofmt sh) ps) w = (r, ?w)"
    by (simp_all add: on_leases_def acq acquired)
  consider (raised) e where "r = Inl e" | (contended) p x where "r = Inr (Some (p, x))" | (taken) "r = Inr None"
    by (metis option.exhaust sum.exhaust surj_pair)
  then show ?thesis
  proof cases
    case raised
    then show ?thesis
      by (simp add: take_publish_leases_def leased_run_def bindS_def steps agrees_same del: agrees.simps)
  next
    case contended
    then show ?thesis
      using agrees_failed[of 3 "''DependencyError''" "''error: another publish process is currently active for this platform.''" ?w]
      by (simp add: take_publish_leases_def leased_run_def bindS_def steps retS_def told_steps)
  next
    case taken
    have "agrees (finallyS (bindS (verify_setups (px_supported (sh_px sh)) (sh_setup sh) (sort ps)) (\<lambda>u. publish_selected sh args rows []))
          (on_leases (release_leases (sort ps) (e_pid (sh_env sh)))) ?w)
        (bindS (finallyS (guarded_run sh (runtime_options platform (Some mode) lims) ps rows)
            (on_leases (release_leases (sort ps) (e_pid (sh_env sh)))))
          (\<lambda>r. case r of Inl res \<Rightarrow> retS res | Inr oc \<Rightarrow> retS (build_pipe_result oc False)) ?w)"
      by (rule finally_agrees[OF run_agrees[OF assms(1,2)],
            where g = "\<lambda>r. case r of Inl res \<Rightarrow> res | Inr oc \<Rightarrow> build_pipe_result oc False"])
        (simp add: retS_def split: sum.split)
    moreover note st = steps[unfolded taken]
    moreover have "take_publish_leases (sh_env sh) (sh_isofmt sh) ps w = (Inr (), ?w)"
      by (simp add: take_publish_leases_def bindS_def st(1) retS_def)
    ultimately show ?thesis
      unfolding leased_run_def assms(6) rel
      by (simp only: bindS_step[where m = "take_publish_leases _ _ _"] bindS_step[where m = "on_leases (guard_acquire _ _ _)"] option.case)
  qed
qed

section \<open>The two publishers agree\<close>

lemma mapR_hashable:
  "list_all hashable js \<Longrightarrow> mapR (\<lambda>j. if hashable j then Inr j else Inl (mkexn TypeErr m)) js = Inr js"
  by (induction js) simp_all

lemma target_platforms_hashable:
  "\<forall>r \<in> set rows. hashable (raw_platform arg r) \<Longrightarrow>
   target_platforms arg rows = Inr (remdups (filter truthy (map (raw_platform arg) rows)))"
  unfolding target_platforms_def by (rule mapR_hashable) (auto simp: list_all_iff)

lemma target_platforms_strings:
  assumes "\<forall>r \<in> set rows. raw_platform arg r \<in> JStr ` S" "[] \<notin> S"
  shows "\<exists>js. target_platforms arg rows = Inr js \<and> strings_of js = remdups (map (row_platform arg) rows)"
    and "[] \<notin> set (map (row_platform arg) rows)"
proof -
  have raw: "raw_platform arg r = JStr (row_platform arg r) \<and> row_platform arg r \<in> S" if "r \<in> set rows" for r
    using assms(1) that row_platform_raw by (metis imageE)
  then have ms: "map (raw_platform arg) rows = map JStr (map (row_platform arg) rows)" by simp
  show ne: "[] \<notin> set (map (row_platform arg) rows)"
  proof
    assume "[] \<in> set (map (row_platform arg) rows)"
    then obtain r where "r \<in> set rows" "row_platform arg r = []" by auto
    then show False using raw[of r] assms(2) by simp
  qed
  have "filter truthy (map JStr ps) = map JStr ps" if "[] \<notin> set ps" for ps
    using that by (induction ps) auto
  then have "filter truthy (map (raw_platform arg) rows) = map JStr (map (row_platform arg) rows)"
    unfolding ms using ne by blast
  moreover have "remdups (map JStr ps) = map JStr (remdups ps)" for ps
    by (induction ps) auto
  moreover have "target_platforms arg rows = Inr (remdups (filter truthy (map (raw_platform arg) rows)))"
    using raw by (intro target_platforms_hashable) auto
  ultimately have "target_platforms arg rows = Inr (map JStr (remdups (map (row_platform arg) rows)))" by metis
  then show "\<exists>js. target_platforms arg rows = Inr js \<and> strings_of js = remdups (map (row_platform arg) rows)"
    by (simp add: strings_of_def comp_def str_of_def)
qed

text \<open>What both publishers treat alike: at most as many rows as the command takes, on platforms that
  are not driven by a browser.\<close>

definition comparable :: "string option \<Rightarrow> jdict list \<Rightarrow> bool" where
  "comparable platform rows \<longleftrightarrow> length rows \<le> 1000 \<and>
     (\<forall>r \<in> set rows. hashable (raw_platform platform r) \<and> \<not> browser_tier_value (raw_platform platform r))"

text \<open>The check before an enforcing run passes and leaves the store as it is; outside enforce mode it always
  does.\<close>

definition enforce_ready :: "shell_ctx \<Rightarrow> rworld \<Rightarrow> bool" where
  "enforce_ready sh w \<longleftrightarrow>
     enforce_precondition_or_exit (sh_env sh) (sh_digest sh) (sh_events sh) (rw_dedup w) = (Inr (), rw_dedup w)"

lemma not_enforcing_ready: "\<not> enforce_enabled (sh_env sh) \<Longrightarrow> enforce_ready sh w"
  by (simp add: enforce_ready_def enforce_precondition_or_exit_def retS_def)

lemma validate_loop_keeps: "validate_loop sh arg i rows w = (Inr u, w1) \<Longrightarrow> w1 = w"
proof (induction rows arbitrary: i)
  case (Cons row rows)
  then show ?case
    by (auto simp: bindS_def liftR_def retS_def told_steps split: sum.splits prod.splits option.splits if_splits)
qed (simp add: retS_def)

lemma bindS_cong_at: "(\<And>a w1. m w = (Inr a, w1) \<Longrightarrow> f a w1 = g a w1) \<Longrightarrow> bindS m f w = bindS m g w"
  by (auto simp: bindS_def split: prod.split sum.split)

lemma prepared_run:
  assumes "read_rows sh w = (Inr rows, w)" "length rows \<le> 1000" "sh_load_config sh = Inr ()" "enforce_ready sh w"
    "args = sdk_args platform (Some mode) tier_1"
  shows "prepare_publish_rows sh args w =
    bindS (validate_loop sh platform 1 rows) (\<lambda>u.
    bindS (if \<not> tier_1 then retS rows
           else let kept = tier1_filter (sh_dofollow sh) platform rows in if kept = [] then raiseS (SysExit 0) else retS kept) (\<lambda>rows.
    bindS (drop_paused platform rows) (\<lambda>rows. if rows = [] then raiseS (SysExit 0) else retS (rows, [])))) w"
proof -
  have args: "a_platform (pa_dedup args) = platform" "pa_max_rows args = 1000" "pa_tier_1 args = tier_1"
    "\<not> pa_preview_manifest args" "\<not> pa_dry_run args" "pa_force_manifest args = None"
    by (simp_all add: assms(5) sdk_args_def default_publish_args_def no_args_def)
  have enforce: "bindS (on_dedup (enforce_precondition_or_exit (sh_env sh) (sh_digest sh) (sh_events sh))) f w = f () w" for f
    using assms(4) by (simp add: enforce_ready_def on_dedup_def bindS_def)
  have force: "bindS (force_keys sh args) f = f []" for f
    by (simp add: fun_eq_iff force_keys_def args bindS_def retS_def)
  have trunc: "truncate_rows 1000 rows = retS rows" using assms(2) by (simp add: truncate_rows_def)
  let ?tier = "if \<not> tier_1 then retS rows
           else let kept = tier1_filter (sh_dofollow sh) platform rows in if kept = [] then raiseS (SysExit 0) else retS kept"
  have "prepare_publish_rows sh args w = bindS (validate_loop sh platform 1 rows) (\<lambda>u. bindS ?tier (\<lambda>rows.
      bindS (on_dedup (enforce_precondition_or_exit (sh_env sh) (sh_digest sh) (sh_events sh))) (\<lambda>u.
      bindS (drop_paused platform rows) (\<lambda>rows. if rows = [] then raiseS (SysExit 0) else retS (rows, []))))) w"
    unfolding prepare_publish_rows_def Let_def args apply_tier1_def
    by (simp add: bindS_step[where m = "read_rows sh", OF assms(1)] bindS_retS assms(3) bindS_liftR args force trunc)
  also have "\<dots> = bindS (validate_loop sh platform 1 rows) (\<lambda>u. bindS ?tier (\<lambda>rows.
      bindS (drop_paused platform rows) (\<lambda>rows. if rows = [] then raiseS (SysExit 0) else retS (rows, [])))) w"
  proof (rule bindS_cong_at)
    fix u w1 assume v: "validate_loop sh platform 1 rows w = (Inr u, w1)"
    note w1 = validate_loop_keeps[OF v]
    show "bindS ?tier (\<lambda>rows. bindS (on_dedup (enforce_precondition_or_exit (sh_env sh) (sh_digest sh) (sh_events sh))) (\<lambda>u.
        bindS (drop_paused platform rows) (\<lambda>rows. if rows = [] then raiseS (SysExit 0) else retS (rows, [])))) w1 =
      bindS ?tier (\<lambda>rows. bindS (drop_paused platform rows) (\<lambda>rows. if rows = [] then raiseS (SysExit 0) else retS (rows, []))) w1"
      unfolding w1 by (rule bindS_cong_at) (auto simp: enforce retS_def raiseS_def Let_def split: if_splits)
  qed
  finally show ?thesis .
qed

lemma inprocess_agrees:
  assumes "no_lone_cr plans" "sh_input sh = text_lines plans"
    "\<forall>rows. read_publish_rows_strict (sh_loads sh) plans = Inr rows \<longrightarrow> comparable platform rows"
    "sh_load_config sh = Inr ()" "throttle_config (sh_env sh) = Inr lims" "enforce_ready sh w"
    "[] \<notin> set (px_supported (sh_px sh))" "\<forall>ps. sh_order sh ps = sort ps" "db_faults (rw_leases w) = []"
  shows "agrees (publish_command sh (sdk_args platform (Some mode) tier_1) w)
                (publish_inprocess sh plans platform (Some mode) tier_1 w)"
proof -
  let ?args = "sdk_args platform (Some mode) tier_1"
  have args: "a_platform (pa_dedup ?args) = platform" "\<not> pa_dry_run ?args"
    by (simp_all add: sdk_args_def default_publish_args_def no_args_def)
  have reading: "read_jsonl (sh_loads sh) True (sh_input sh) =
      bindR (read_publish_rows_strict (sh_loads sh) plans) (\<lambda>rows. Inr (rows, []))"
    unfolding assms(2) by (rule strict_reading[OF assms(1)])
  consider (diag) msg where "read_publish_rows_strict (sh_loads sh) plans = Inl (Diagnostic msg)"
    | (esc) e where "read_publish_rows_strict (sh_loads sh) plans = Inl (Escaped e)"
    | (rows) rows where "read_publish_rows_strict (sh_loads sh) plans = Inr rows"
    by (metis read_error.exhaust sum.exhaust)
  then show ?thesis
  proof cases
    case diag
    then have "read_rows sh w = emit_error_as msg 2 None w" by (simp add: read_rows_def reading)
    then have "publish_command sh ?args w = emit_error_as msg 2 None w"
      by (simp add: publish_command_def prepare_publish_rows_def Let_def bindS_def told_steps)
    then show ?thesis
      using agrees_failed[of 2 "''InputValidationError''" msg w] diag by (simp add: publish_inprocess_def retS_def)
  next
    case esc
    then have "read_rows sh w = (Inl e, w)" by (simp add: read_rows_def reading raiseS_def)
    then show ?thesis
      using esc by (simp add: publish_command_def prepare_publish_rows_def Let_def bindS_def publish_inprocess_def raiseS_def
          agrees_same del: agrees.simps)
  next
    case rows
    have cmp: "length rows \<le> 1000" "\<forall>r \<in> set rows. hashable (raw_platform platform r) \<and> \<not> browser_tier_value (raw_platform platform r)"
      using assms(3) rows by (auto simp: comparable_def)
    have read: "read_rows sh w = (Inr rows, w)" by (simp add: read_rows_def reading rows retS_def)
    note prep = prepared_run[OF read cmp(1) assms(4,6) refl, of platform mode tier_1]
    let ?kept = "if tier_1 then tier1_filter (sh_dofollow sh) platform rows else rows"
    define tail where "tail = (\<lambda>(rows, forced).
         let platforms = remdups (map (row_platform platform) rows) in
         bindS (take_publish_leases (sh_env sh) (sh_isofmt sh) platforms) (\<lambda>u.
           finallyS
             (bindS (verify_setups (px_supported (sh_px sh)) (sh_setup sh) (sh_order sh platforms))
                (\<lambda>u. publish_selected sh ?args rows forced))
             (on_leases (release_leases (sort platforms) (e_pid (sh_env sh))))))"
    have cmd: "publish_command sh ?args w = bindS (validate_loop sh platform 1 rows) (\<lambda>u.
        bindS (if \<not> tier_1 then retS rows else if ?kept = [] then raiseS (SysExit 0) else retS ?kept) (\<lambda>rows.
        bindS (drop_paused platform rows) (\<lambda>rows. if rows = [] then raiseS (SysExit 0) else tail (rows, [])))) w"
    proof -
      have "publish_command sh ?args w = bindS (prepare_publish_rows sh ?args) tail w"
        by (simp add: publish_command_def args tail_def cong: if_cong)
      then show ?thesis
        by (simp add: bindS_def prep raiseS_def retS_def Let_def split: prod.split sum.split)
    qed
    have nb: "\<not> list_ex browser_tier_value (remdups (filter truthy (map (raw_platform platform) rows)))"
      using cmp(2) by (auto simp: list_ex_iff)
    have targets: "target_platforms platform rows = Inr (remdups (filter truthy (map (raw_platform platform) rows)))"
      using cmp(2) by (intro target_platforms_hashable) blast
    note sdk = publish_inprocess_def[of sh plans platform "Some mode" tier_1, unfolded rows sum.case read_error.case targets bindS_liftR nb if_False]
    show ?thesis
    proof (rule validation_agrees[of sh platform 1 rows])
      fix e assume "runtime_validate_rows sh platform 1 rows = Inl e" "\<And>w. validate_loop sh platform 1 rows w = (Inl e, w)"
      then show ?thesis unfolding cmd
        by (simp add: sdk bindS_def liftR_def rows targets nb publish_inprocess_def agrees_same del: agrees.simps One_nat_def)
    next
      fix res assume "runtime_validate_rows sh platform 1 rows = Inr (Some res)"
        "\<And>f w. agrees (bindS (validate_loop sh platform 1 rows) f w) (Inr res, w)"
      then show ?thesis unfolding cmd
        by (simp add: bindS_def[of "liftR _"] liftR_def rows targets nb publish_inprocess_def retS_def del: agrees.simps One_nat_def)
    next
      assume v: "runtime_validate_rows sh platform 1 rows = Inr None" "\<And>w. validate_loop sh platform 1 rows w = (Inr (), w)"
        "\<forall>row \<in> set rows. raw_platform platform row \<in> JStr ` set (px_supported (sh_px sh)) \<and>
           validate_publish_payload (px_supported (sh_px sh)) (sh_boolish sh) (sh_dumps sh) row = Inr []"
      show ?thesis
      proof (cases "tier_1 \<and> ?kept = []")
        case True
        then have "tier_1 \<and> tier1_filter (sh_dofollow sh) platform rows = []" by (cases tier_1) simp_all
        then show ?thesis unfolding cmd
          by (simp add: publish_inprocess_def rows targets nb v bindS_def liftR_def retS_def raiseS_def agrees_done Let_def del: agrees.simps One_nat_def)
      next
        case False
        let ?left = "fst (partition_paused platform ?kept (pw_health (rw_policy w)))"
        have drop: "drop_paused platform ?kept w = (Inr ?left, w)" by (simp add: drop_paused_def)
        have cmd': "publish_command sh ?args w = (if ?left = [] then (Inl (SysExit 0), w) else tail (?left, []) w)"
          unfolding cmd using False drop by (auto simp: bindS_def v(2) retS_def raiseS_def simp del: One_nat_def)
        have sdk': "publish_inprocess sh plans platform (Some mode) tier_1 w =
            (if ?left = [] then (Inr (pipe_ok []), w)
             else bindS (liftR (target_platforms platform ?left)) (\<lambda>targets.
                leased_run sh (runtime_options platform (Some mode) lims) (strings_of targets) ?left) w)"
          using False drop by (auto simp: publish_inprocess_def rows targets nb v(1) bindS_def liftR_def retS_def Let_def assms(4,5) simp del: One_nat_def)
        have sub: "set ?left \<subseteq> set rows"
          by (auto simp: partition_paused_def tier1_filter_def Let_def split: if_splits)
        show ?thesis
        proof (cases "?left = []")
          case True
          then show ?thesis unfolding cmd' sdk' by (simp add: agrees_done del: agrees.simps)
        next
          case nonempty: False
          let ?ps = "remdups (map (row_platform platform) ?left)"
          have sup: "\<forall>r \<in> set ?left. raw_platform platform r \<in> JStr ` set (px_supported (sh_px sh))" using sub v(3) by blast
          obtain js where js: "target_platforms platform ?left = Inr js" "strings_of js = ?ps"
            using target_platforms_strings(1)[OF sup assms(7)] by blast
          have "[] \<notin> set ?ps" using target_platforms_strings(2)[OF sup assms(7)] by simp
          then have "agrees (tail (?left, []) w) (leased_run sh (runtime_options platform (Some mode) lims) ?ps ?left w)"
            unfolding tail_def Let_def prod.case
            by (intro leased_agrees[OF assms(5) refl assms(9) distinct_remdups]) (simp_all add: assms(8))
          then show ?thesis
            unfolding cmd' sdk' using nonempty js by (simp add: bindS_liftR)
        qed
      qed
    qed
  qed
qed

text \<open>C8. The in-process runtime of the SDK publishes as the command does when both are given a mode. What is
  asked for: a text without lone carriage returns, with at most as many rows as the command takes
  and no browser platform among them; a configuration and throttle limits that can be loaded; in
  enforce mode, which only the command checks for readiness, a store that is ready; a lease
  database without faults; and platforms that the command, which goes through a set, takes in sorted
  order. Then the two leave the same checkpoints, dedup rows, health files, canaries and leases and
  make the same adapter calls; an exception of one is the exception of the other, and otherwise the
  rows, exit code, error class and message of the result are what the command printed. (The run
  records handed to the projection may differ: the runtime projects none. Without a mode the two
  differ: the command then has a default of its own, the runtime takes that of the row.)\<close>

theorem inprocess_agrees_with_command:
  assumes "no_lone_cr plans" "sh_input sh = text_lines plans"
    "\<forall>rows. read_publish_rows_strict (sh_loads sh) plans = Inr rows \<longrightarrow> comparable platform rows"
    "sh_load_config sh = Inr ()" "throttle_config (sh_env sh) = Inr lims" "enforce_ready sh w"
    "[] \<notin> set (px_supported (sh_px sh))" "\<forall>ps. sh_order sh ps = sort ps" "db_faults (rw_leases w) = []"
    "publish_command sh (sdk_args platform (Some mode) tier_1) w = (r, w1)"
    "publish_inprocess sh plans platform (Some mode) tier_1 w = (r', w2)"
  shows "case r' of
      Inl e \<Rightarrow> r = Inl e \<and> (\<exists>es outs ids. w1 = told es outs ids w2)
    | Inr res \<Rightarrow> \<exists>es ids. w1 = told es (pr_stdout res) ids w2 \<and>
        pr_exit_code res = Some (exit_status r) \<and> (pr_success res \<longleftrightarrow> exit_status r = 0) \<and>
        (\<not> pr_success res \<longrightarrow> (\<exists>c m. parse_envelope es = Some (c, exit_status r, m) \<and>
           pr_error_class res = Some c \<and> pr_error res = Some m))"
proof -
  have "agrees (publish_command sh (sdk_args platform (Some mode) tier_1) w)
      (publish_inprocess sh plans platform (Some mode) tier_1 w)"
    by (rule inprocess_agrees[OF assms(1-9)])
  then have "agrees (r, w1) (r', w2)" unfolding assms(10,11) .
  then show ?thesis by (cases r') (simp_all add: reports_def)
qed

section \<open>Leases\<close>

definition unleased :: "int \<Rightarrow> rworld \<Rightarrow> bool" where
  "unleased pid w \<longleftrightarrow> db_faults (rw_leases w) = [] \<and> (\<forall>h. \<not> owned pid (db_rows (rw_leases w)) h)"

definition clears :: "int \<Rightarrow> 'a ract \<Rightarrow> bool" where
  "clears pid m \<longleftrightarrow> (\<forall>w. unleased pid w \<longrightarrow> unleased pid (snd (m w)))"

lemma clears_keeps: "keeps m \<Longrightarrow> clears pid m"
  unfolding keeps_def clears_def unleased_def side_def by (metis prod.inject)

lemma clears_bind: "clears pid m \<Longrightarrow> (\<And>x. clears pid (f x)) \<Longrightarrow> clears pid (bindS m f)"
  unfolding clears_def bindS_def by (auto split: prod.split sum.split)

lemma keeps_guarded: "keeps (guarded_run sh opts platforms rows)"
  unfolding guarded_run_def
  by (intro keeps_intros keeps_publish_rows | split option.split | intro conjI allI impI)+

lemma keeps_drop [keeps_intros]: "keeps (drop_paused arg rows)"
  by (simp add: keeps_def drop_paused_def)

lemma clears_leased: "clears (e_pid (sh_env sh)) (leased_run sh opts platforms rows)"
  unfolding clears_def
proof (intro allI impI)
  let ?pid = "e_pid (sh_env sh)" and ?ps = "guard_platforms platforms"
  fix w assume w: "unleased ?pid w"
  have dist: "distinct ([] @ ?ps)" by (simp add: guard_platforms_def)
  have nf: "db_faults (rw_leases w) = []" and no: "\<forall>h. \<not> owned ?pid (db_rows (rw_leases w)) h"
    using w by (simp_all add: unleased_def)
  obtain r t where run: "guard_acquire (sh_env sh) (sh_isofmt sh) platforms (rw_leases w) = (Inr r, \<lparr>db_rows = t, db_faults = []\<rparr>)"
    and r: "case r of None \<Rightarrow> \<forall>h. owned ?pid t h \<longleftrightarrow> h \<in> set [] \<union> set ?ps
       | Some (h, x) \<Rightarrow> h \<in> set ?ps \<and> (\<exists>l. x = Some l \<and> dget t h = Some l \<and> le_owner_pid l \<noteq> ?pid) \<and> (\<forall>h'. \<not> owned ?pid t h')"
    using acquire_loop_run[OF nf dist, of "sh_env sh" "sh_isofmt sh"] no
    by (auto simp: guard_acquire_def guard_loop_eq[OF nf dist])
  show "unleased ?pid (snd (leased_run sh opts platforms rows w))"
  proof (cases r)
    case (Some c)
    then show ?thesis
      using r run by (auto simp: leased_run_def bindS_def on_leases_def retS_def unleased_def split: prod.splits)
  next
    case None
    let ?w1 = "w\<lparr>rw_leases := \<lparr>db_rows = t, db_faults = []\<rparr>\<rparr>"
    obtain r2 w2 where g: "guarded_run sh opts platforms rows ?w1 = (r2, w2)" by fastforce
    have l2: "rw_leases w2 = \<lparr>db_rows = t, db_faults = []\<rparr>"
      using keepsD[OF keeps_guarded g] by (simp add: side_def)
    obtain t' where rel: "guard_release (sh_env sh) platforms (rw_leases w2) = (Inr (), \<lparr>db_rows = t', db_faults = []\<rparr>)"
      "\<forall>h. dget t' h = (if h \<in> set ?ps \<and> owned ?pid t h then None else dget t h)"
      using release_leases_run[of "rw_leases w2" ?ps ?pid] l2 by (auto simp: guard_release_def)
    have free: "\<not> owned ?pid t' h" for h
      using rel(2) r None by (auto simp: owned_def)
    have "snd (leased_run sh opts platforms rows w) = w2\<lparr>rw_leases := \<lparr>db_rows = t', db_faults = []\<rparr>\<rparr>"
      using run None g rel(1)
      by (auto simp: leased_run_def bindS_def on_leases_def finallyS_def retS_def split: sum.splits)
    then show ?thesis using free by (simp add: unleased_def)
  qed
qed

text \<open>C39. With a lease database that has no faults, a run of the in-process runtime leaves no lease of its
  process behind: if the process holds none before, it holds none after, whether the run published,
  was refused by a gate, lost the race for a lease, was aborted or ended in an exception of the
  loop. (A fault of the database while the leases are taken can leave one behind, which the
  scenario at the end shows.)\<close>

theorem runtime_gives_leases_back:
  assumes "db_faults (rw_leases w) = []" "\<forall>h. \<not> owned (e_pid (sh_env sh)) (db_rows (rw_leases w)) h"
    "publish_inprocess sh plans platform mode tier_1 w = (r, w')"
  shows "\<forall>h. \<not> owned (e_pid (sh_env sh)) (db_rows (rw_leases w')) h"
proof -
  have basic: "clears pid (retS x)" "clears pid (raiseS e)" "clears pid (liftR y)" "clears pid (drop_paused arg rows)" for pid x e y arg rows
    by (rule clears_keeps, rule keeps_intros)+
  have branch: "clears pid m \<Longrightarrow> clears pid m' \<Longrightarrow> clears pid (if b then m else m')" for pid b and m m' :: "'a ract"
    by simp
  have "clears (e_pid (sh_env sh)) (publish_inprocess sh plans platform mode tier_1)"
    unfolding publish_inprocess_def Let_def
    by (intro clears_bind clears_leased basic branch | split sum.split read_error.split option.split | intro conjI allI impI)+
  then show ?thesis using assms by (auto simp: clears_def unleased_def)
qed

section \<open>Scenarios\<close>

theorem inprocess_agrees_with_command_witness:
  "pr_exit_code (case fst (publish_inprocess demo_shell ''row'' None (Some ''draft'') False (rdemo_world True)) of
       Inr res \<Rightarrow> res | Inl e \<Rightarrow> pipe_ok []) =
     Some (exit_status (fst (publish_command demo_shell (sdk_args None (Some ''draft'') False) (rdemo_world True))))"
proof -
  let ?cmd = "publish_command demo_shell (sdk_args None (Some ''draft'') False) (rdemo_world True)"
  let ?run = "publish_inprocess demo_shell ''row'' None (Some ''draft'') False (rdemo_world True)"
  have "fst ?run \<noteq> Inl e" for e by code_simp
  then obtain res where res: "fst ?run = Inr res" by (metis sum.exhaust)
  have rows: "read_publish_rows_strict (sh_loads demo_shell) ''row'' = Inr [demo_payload]" by code_simp
  have "comparable None [demo_payload]" by code_simp
  moreover have "no_lone_cr ''row''" "sh_input demo_shell = text_lines ''row''" "sh_load_config demo_shell = Inr ()"
    "throttle_config (sh_env demo_shell) = Inr (60, 300)" "enforce_ready demo_shell (rdemo_world True)"
    "[] \<notin> set (px_supported (sh_px demo_shell))" "db_faults (rw_leases (rdemo_world True)) = []"
    by code_simp+
  moreover have "\<forall>ps. sh_order demo_shell ps = sort ps" by (simp add: demo_shell_def)
  ultimately have "\<exists>es ids. snd ?cmd = told es (pr_stdout res) ids (snd ?run) \<and> pr_exit_code res = Some (exit_status (fst ?cmd))"
    using inprocess_agrees_with_command[of "''row''" demo_shell None "(60, 300)" "rdemo_world True" "''draft''" False
        "fst ?cmd" "snd ?cmd" "Inr res" "snd ?run"] rows res
    by (auto simp: prod_eq_iff)
  then show ?thesis using res by simp
qed

theorem runtime_gives_leases_back_witness:
  "\<not> owned (e_pid env0) (db_rows (rw_leases (snd (publish_inprocess demo_shell ''row'' None None False (rdemo_world True))))) ''telegraph''"
proof -
  have env: "sh_env demo_shell = env0" by (simp add: demo_shell_def)
  show ?thesis
    using runtime_gives_leases_back[of "rdemo_world True" demo_shell "''row''" None None False, OF _ _ prod.collapse[symmetric]]
    unfolding env by (simp add: rdemo_world_def owned_def)
qed

text \<open>Taking a lease runs before the \<open>try\<close> whose \<open>finally\<close> gives back. If the second platform's lease
  raises, the first one's stays with the process until it expires; the command has the same gap.\<close>

definition two_rows :: "string \<Rightarrow> exn + json" where
  "two_rows s = Inr (JDict (dput ''platform'' (JStr s) demo_payload))"

theorem failed_acquire_leaks_lease:
  "let sh = demo_shell\<lparr>sh_loads := two_rows, sh_px := (sh_px demo_shell)\<lparr>px_supported := [''telegraph'', ''txtfyi'']\<rparr>\<rparr>;
       w = (rdemo_world True)\<lparr>rw_leases := \<lparr>db_rows = [], db_faults = [NoFault, FBegin (mkexn SqliteError [])]\<rparr>\<rparr>;
       (r, w') = publish_inprocess sh (''telegraph'' @ [LF] @ ''txtfyi'') None None False w
   in r = Inl (mkexn SqliteError []) \<and>
      map_option le_owner_pid (dget (db_rows (rw_leases w')) ''telegraph'') = Some (e_pid env0)"
  by code_simp

text \<open>Seeds published in process keep the mode of the row; the same seeds sent to the command get the
  default of its \<open>--mode\<close> option.\<close>

theorem default_mode_hides_row_mode:
  "jget row ''publish_mode'' = JStr ''publish'' \<Longrightarrow>
   row_mode (pa_mode (sdk_args None None False)) row = ''draft'' \<and>
   row_mode (po_mode (runtime_options None None limits)) row = ''publish''"
  by (auto simp: sdk_args_def row_mode_def runtime_options_def jget_def jget_or_def dget_or_def str_of_def split: option.splits)

text \<open>Without results the summary speaks of success.\<close>

theorem no_results_are_all_success: "sm_state (publish_state_summary []) = ''all_success''"
  by (simp add: publish_state_summary_def)

end
