(* ===== verification/Linkcheck.thy ===== *)
theory Linkcheck
  imports Url Py_Json
begin

text \<open>
  The reachability check (\<open>linkcheck/http.py\<close>): one probe, its retries, the check of a batch with one
  probe per canonical URL, and the strict variant that fails on the first unreachable one. The
  network is a parameter: the SSRF screen, the ASCII form of a URL, and what a HEAD and a GET give on
  each attempt, a status code or an exception. The threads of the pool do not share state; the order
  in which they finish is a parameter too. The telemetry of the pool is left out.
\<close>

record link_env =
  lk_env :: env
  lk_ssrf :: "string \<Rightarrow> string option"
  lk_fetch :: "string \<Rightarrow> exn + string"
  lk_head :: "string \<Rightarrow> nat \<Rightarrow> exn + nat"
  lk_get :: "string \<Rightarrow> nat \<Rightarrow> exn + nat"
  lk_order :: "string list \<Rightarrow> string list"

text \<open>\<open>int(os.environ.get(name, default))\<close>; what is not a number gives the default.\<close>

definition int_setting :: "env \<Rightarrow> string \<Rightarrow> int \<Rightarrow> int" where
  "int_setting env name dflt =
     (case getenv env name of None \<Rightarrow> dflt
      | Some s \<Rightarrow> (case int_of_str s of None \<Rightarrow> dflt | Some n \<Rightarrow> n))"

definition max_concurrent :: "env \<Rightarrow> int" where
  "max_concurrent env = int_setting env ''BACKLINK_LINKCHECK_MAX_CONCURRENT'' 10"

definition max_retries :: "env \<Rightarrow> int" where
  "max_retries env = int_setting env ''BACKLINK_LINKCHECK_MAX_RETRIES'' 2"

definition retry_delay_base_s :: "env \<Rightarrow> int" where
  "retry_delay_base_s env = int_setting env ''BACKLINK_LINKCHECK_RETRY_DELAY_BASE_S'' 1"

definition ACCEPTABLE_CODES :: "nat list" where "ACCEPTABLE_CODES = [200, 301, 302]"

type_synonym verdict_of_url = "bool \<times> string option"

section \<open>One URL\<close>

definition try_get :: "link_env \<Rightarrow> string \<Rightarrow> nat \<Rightarrow> exn + verdict_of_url" where
  "try_get lk fetch_url attempt =
     (case lk_get lk fetch_url attempt of
        Inr code \<Rightarrow>
          if code \<in> set ACCEPTABLE_CODES then Inr (True, None)
          else Inr (False, Some (''HTTP '' @ nat_str code))
      | Inl e \<Rightarrow> if isinst e OSErr then Inr (False, Some (str_exn e)) else Inl e)"

definition check_url_once :: "link_env \<Rightarrow> string \<Rightarrow> nat \<Rightarrow> exn + verdict_of_url" where
  "check_url_once lk url attempt =
     (let parsed = safe_urlparse (Some url);
          good = (case parsed of None \<Rightarrow> False
                  | Some p \<Rightarrow> u_scheme p \<in> {''http'', ''https''} \<and> u_netloc p \<noteq> []) in
      if \<not> good then Inr (False, Some (''invalid URL: '' @ url))
      else case lk_ssrf lk url of
        Some reason \<Rightarrow> Inr (False, Some (''SSRF blocked: '' @ reason))
      | None \<Rightarrow>
          bindR (lk_fetch lk url) (\<lambda>fetch_url.
            case lk_head lk fetch_url attempt of
              Inr code \<Rightarrow> if code \<in> set ACCEPTABLE_CODES then Inr (True, None) else try_get lk fetch_url attempt
            | Inl e \<Rightarrow> if isinst e OSErr then try_get lk fetch_url attempt else Inl e))"

text \<open>The attempts that are left, the last error, the delays slept so far.\<close>

fun attempt_loop ::
  "link_env \<Rightarrow> string \<Rightarrow> nat \<Rightarrow> nat \<Rightarrow> string \<Rightarrow> int list \<Rightarrow> (exn + verdict_of_url) \<times> int list" where
  "attempt_loop lk url attempt 0 last_error slept = (Inr (False, Some last_error), slept)"
| "attempt_loop lk url attempt (Suc left) last_error slept =
     (case check_url_once lk url attempt of
        Inl e \<Rightarrow> (Inl e, slept)
      | Inr (True, _) \<Rightarrow> (Inr (True, None), slept)
      | Inr (False, error) \<Rightarrow>
          let last_error = (case error of Some (c # cs) \<Rightarrow> c # cs | _ \<Rightarrow> ''unknown error'');
              delay = retry_delay_base_s (lk_env lk) * int (attempt + 1) in
          if left = 0 then attempt_loop lk url (attempt + 1) left last_error slept
          else if delay < 0 then (Inl (mkexn ValueErr ''sleep length must be non-negative''), slept)
          else attempt_loop lk url (attempt + 1) left last_error (slept @ [delay]))"

definition check_url_with_retry :: "link_env \<Rightarrow> string \<Rightarrow> (exn + verdict_of_url) \<times> int list" where
  "check_url_with_retry lk url =
     attempt_loop lk url 0 (nat (max_retries (lk_env lk) + 1)) ''unknown error'' []"

definition check_url :: "link_env \<Rightarrow> string \<Rightarrow> exn + verdict_of_url" where
  "check_url lk url = fst (check_url_with_retry lk url)"

section \<open>A batch\<close>

definition dedup_key_of :: "string \<Rightarrow> string" where
  "dedup_key_of url = (case canonicalize_url url of Inl e \<Rightarrow> url | Inr c \<Rightarrow> c)"

text \<open>\<open>setdefault(c, []).append(u)\<close> in the order of the URLs.\<close>

fun group_urls :: "string list \<Rightarrow> (string, string list) dict \<Rightarrow> (string, string list) dict" where
  "group_urls [] groups = groups"
| "group_urls (u # us) groups =
     group_urls us (dput (dedup_key_of u) (dget_or groups (dedup_key_of u) [] @ [u]) groups)"

text \<open>The verdict of a group is that of its first URL, for all of its URLs.\<close>

definition probe_group :: "link_env \<Rightarrow> string list \<Rightarrow> exn + verdict_of_url" where
  "probe_group lk originals = check_url lk (hd originals)"

fun put_all :: "string list \<Rightarrow> verdict_of_url \<Rightarrow> (string, verdict_of_url) dict \<Rightarrow> (string, verdict_of_url) dict" where
  "put_all [] v results = results"
| "put_all (u # us) v results = put_all us v (dput u v results)"

text \<open>The groups in the order they finish; an exception of a probe is an unreachable group.\<close>

fun collect_groups ::
  "link_env \<Rightarrow> (string, string list) dict \<Rightarrow> string list \<Rightarrow> (string, verdict_of_url) dict \<Rightarrow> (string, verdict_of_url) dict" where
  "collect_groups lk groups [] results = results"
| "collect_groups lk groups (c # cs) results =
     (let originals = dget_or groups c [];
          v = (case probe_group lk originals of Inr v \<Rightarrow> v | Inl e \<Rightarrow> (False, Some (str_exn e))) in
      collect_groups lk groups cs (put_all originals v results))"

definition check_urls :: "link_env \<Rightarrow> string list \<Rightarrow> exn + (string, verdict_of_url) dict" where
  "check_urls lk urls =
     (let groups = group_urls urls []; distinct_canonical = map fst groups in
      if urls = [] then Inr []
      else case groups of
        [(c, originals)] \<Rightarrow> bindR (probe_group lk originals) (\<lambda>v. Inr (put_all originals v []))
      | _ \<Rightarrow>
          if min (max_concurrent (lk_env lk)) (int (length distinct_canonical)) \<le> 0
          then Inl (mkexn ValueErr ''max_workers must be greater than 0'')
          else Inr (collect_groups lk groups (lk_order lk distinct_canonical) []))"

definition check_urls_strict :: "link_env \<Rightarrow> string list \<Rightarrow> exn + unit" where
  "check_urls_strict lk urls =
     (let http_urls = filter (\<lambda>u. startswith u ''http://'' \<or> startswith u ''https://'') urls in
      if http_urls = [] then Inr ()
      else bindR (check_urls lk http_urls) (\<lambda>results.
        case filter (\<lambda>(u, ok, err). \<not> ok) results of
          [] \<Rightarrow> Inr ()
        | (u, ok, err) # fs \<Rightarrow>
            Inl (mkexn ExternalServiceError
              (''unreachable URL: '' @ u @ (case err of Some (c # cs) \<Rightarrow> '' ('' @ (c # cs) @ '')'' | _ \<Rightarrow> [])))))"

end
