(* ===== verification/Linkcheck_Facts.thy ===== *)
theory Linkcheck_Facts
  imports Linkcheck
begin

text \<open>
  What the reachability check guarantees: bounded retries with growing delays, one verdict per
  canonical URL, and a batch that passes only if every URL in it was reached.
\<close>

section \<open>Retries\<close>

abbreviation delays :: "int \<Rightarrow> nat \<Rightarrow> int list" where
  "delays base n \<equiv> map (\<lambda>i. base * int (i + 1)) [0..<n]"

lemma attempt_loop_delays:
  assumes "attempt_loop lk url a left err (delays (retry_delay_base_s (lk_env lk)) a) = (r, slept)"
  shows "\<exists>n. a \<le> n \<and> n \<le> a + (left - 1) \<and> slept = delays (retry_delay_base_s (lk_env lk)) n \<and>
    (\<forall>e. r = Inr (False, e) \<longrightarrow> n = a + (left - 1)) \<and>
    (\<forall>e. r = Inr (True, e) \<longrightarrow> (\<exists>k. a \<le> k \<and> k < a + left \<and> (\<exists>x. check_url_once lk url k = Inr (True, x))))"
  using assms
proof (induction left arbitrary: a err)
  case 0
  then show ?case by auto
next
  case (Suc left)
  show ?case
  proof (cases "check_url_once lk url a")
    case (Inl e)
    then show ?thesis using Suc.prems by auto
  next
    case (Inr v)
    obtain ok error where v: "v = (ok, error)" by fastforce
    show ?thesis
    proof (cases ok)
      case True
      then have "r = Inr (True, None)" "slept = delays (retry_delay_base_s (lk_env lk)) a"
        using Suc.prems Inr v by auto
      then show ?thesis using Inr v True by (intro exI[of _ a]) auto
    next
      case False
      let ?err = "case error of Some (c # cs) \<Rightarrow> c # cs | _ \<Rightarrow> ''unknown error''"
      show ?thesis
      proof (cases left)
        case 0
        then show ?thesis using Suc.prems Inr v False by (auto simp: Let_def)
      next
        case (Suc m)
        note left = this
        show ?thesis
        proof (cases "retry_delay_base_s (lk_env lk) * int (a + 1) < 0")
          case True
          then show ?thesis using Suc.prems Inr v False left by (auto simp: Let_def)
        next
          case nonneg: False
          have "attempt_loop lk url (a + 1) left ?err (delays (retry_delay_base_s (lk_env lk)) (a + 1)) = (r, slept)"
            using Suc.prems Inr v False left nonneg by (simp add: Let_def)
          from Suc.IH[OF this] obtain n where n: "a + 1 \<le> n" "n \<le> a + 1 + (left - 1)" "slept = delays (retry_delay_base_s (lk_env lk)) n"
            "\<forall>e. r = Inr (False, e) \<longrightarrow> n = a + 1 + (left - 1)"
            "\<forall>e. r = Inr (True, e) \<longrightarrow> (\<exists>k. a + 1 \<le> k \<and> k < a + 1 + left \<and> (\<exists>x. check_url_once lk url k = Inr (True, x)))"
            by blast
          then show ?thesis
            using left by (intro exI[of _ n]) (auto intro: Suc_leD)
        qed
      qed
    qed
  qed
qed

text \<open>C35. The retries of a URL are bounded: the check sleeps at most as often as the configured number of
  retries, for one, two, three times the base delay and so on; it answers "unreachable" only after
  the last of them, and "reachable" only if one of the attempts was answered with an acceptable code.\<close>

theorem url_retries_bounded:
  assumes "check_url_with_retry lk url = (r, slept)" "0 \<le> max_retries (lk_env lk)"
  shows "\<exists>n. int n \<le> max_retries (lk_env lk) \<and> slept = map (\<lambda>i. retry_delay_base_s (lk_env lk) * int (i + 1)) [0..<n] \<and>
    (\<forall>e. r = Inr (False, e) \<longrightarrow> int n = max_retries (lk_env lk)) \<and>
    (\<forall>e. r = Inr (True, e) \<longrightarrow> (\<exists>k x. int k \<le> max_retries (lk_env lk) \<and> check_url_once lk url k = Inr (True, x)))"
proof -
  let ?m = "nat (max_retries (lk_env lk))"
  have left: "nat (max_retries (lk_env lk) + 1) = Suc ?m" using assms(2) by simp
  have "attempt_loop lk url 0 (Suc ?m) ''unknown error'' (delays (retry_delay_base_s (lk_env lk)) 0) = (r, slept)"
    using assms(1) by (simp add: check_url_with_retry_def left)
  note loop = attempt_loop_delays[OF this, unfolded diff_Suc_1 add_0]
  obtain n where n: "n \<le> ?m" "slept = delays (retry_delay_base_s (lk_env lk)) n"
    "\<forall>e. r = Inr (False, e) \<longrightarrow> n = ?m"
    "\<forall>e. r = Inr (True, e) \<longrightarrow> (\<exists>k. 0 \<le> k \<and> k < Suc ?m \<and> (\<exists>x. check_url_once lk url k = Inr (True, x)))"
    by (insert loop, elim exE conjE, rule that, assumption+)
  have le: "int k \<le> max_retries (lk_env lk)" if "k < Suc ?m" for k using that assms(2) by linarith
  have "\<exists>k x. int k \<le> max_retries (lk_env lk) \<and> check_url_once lk url k = Inr (True, x)" if reached: "r = Inr (True, e)" for e
  proof -
    obtain k x where "k < Suc ?m" "check_url_once lk url k = Inr (True, x)" using n(4)[rule_format, OF reached] by auto
    then show ?thesis using le by blast
  qed
  moreover have "int n = max_retries (lk_env lk)" if "r = Inr (False, e)" for e
    using n(3) that assms(2) by simp
  ultimately show ?thesis using le[of n] n(1,2) by (intro exI[of _ n]) simp
qed

section \<open>Groups\<close>

lemma group_urls_run:
  assumes "wf_dict g0"
  shows "wf_dict (group_urls us g0) \<and> fst ` set (group_urls us g0) = fst ` set g0 \<union> dedup_key_of ` set us \<and>
    dget_or (group_urls us g0) c [] = dget_or g0 c [] @ filter (\<lambda>u. dedup_key_of u = c) us"
  using assms
proof (induction us arbitrary: g0)
  case (Cons u us)
  let ?g = "dput (dedup_key_of u) (dget_or g0 (dedup_key_of u) [] @ [u]) g0"
  have "wf_dict ?g" using Cons.prems by simp
  from Cons.IH[OF this] show ?case by (auto simp: keys_dput dget_or_def)
qed simp

lemmas groups_of = group_urls_run[where ?g0.0 = "[]", simplified]

lemma groups_get: "dget_or (group_urls us []) c [] = filter (\<lambda>u. dedup_key_of u = c) us"
  using groups_of[of us c] by (simp add: dget_or_def)

lemma dget_put_all: "dget (put_all us v r) x = (if x \<in> set us then Some v else dget r x)"
  by (induction us arbitrary: r) auto

lemma wf_put_all: "wf_dict r \<Longrightarrow> wf_dict (put_all us v r)"
  by (induction us arbitrary: r) auto

text \<open>The verdict of a URL: that of the first URL of the batch with its canonical form.\<close>

definition verdict_in :: "link_env \<Rightarrow> string list \<Rightarrow> string \<Rightarrow> verdict_of_url" where
  "verdict_in lk urls u =
     (case check_url lk (hd (filter (\<lambda>v. dedup_key_of v = dedup_key_of u) urls)) of
        Inr v \<Rightarrow> v | Inl e \<Rightarrow> (False, Some (str_exn e)))"

lemma collect_run:
  assumes "wf_dict r"
  shows "wf_dict (collect_groups lk (group_urls urls []) cs r) \<and>
    dget (collect_groups lk (group_urls urls []) cs r) u =
      (if u \<in> set urls \<and> dedup_key_of u \<in> set cs then Some (verdict_in lk urls u) else dget r u)"
  using assms
proof (induction cs arbitrary: r)
  case (Cons c cs)
  show ?case
    using Cons.IH[OF wf_put_all[OF Cons.prems]] Cons.prems
    by (auto simp: Let_def groups_get dget_put_all verdict_in_def probe_group_def)
qed simp

lemma check_urls_run:
  assumes "check_urls lk urls = Inr results" "\<forall>xs. set (lk_order lk xs) = set xs"
  shows "wf_dict results \<and> dget results u = (if u \<in> set urls then Some (verdict_in lk urls u) else None)"
proof (cases "\<exists>c originals. group_urls urls [] = [(c, originals)]")
  case True
  then obtain c originals where g: "group_urls urls [] = [(c, originals)]" by blast
  have keys: "dedup_key_of ` set urls = {c}" using groups_of[of urls c] g by simp
  then have os: "originals = urls"
    using groups_get[of urls c] g by (auto simp: dget_or_def filter_id_conv)
  from keys have ne: "urls \<noteq> []" by auto
  obtain v where v: "check_url lk (hd urls) = Inr v" "results = put_all urls v []"
    using assms(1) ne by (auto simp: check_urls_def g os probe_group_def Let_def bindR_eq_Inr_iff simp del: split_paired_Ex)
  have "verdict_in lk urls u = v" if "u \<in> set urls"
  proof -
    have "dedup_key_of w = c" if "w \<in> set urls" for w using keys that by blast
    then have "filter (\<lambda>w. dedup_key_of w = dedup_key_of u) urls = urls"
      using that by (simp add: filter_id_conv)
    then show ?thesis by (simp add: verdict_in_def v)
  qed
  then show ?thesis by (simp add: v dget_put_all wf_put_all)
next
  case False
  show ?thesis
  proof (cases urls)
    case Nil
    then show ?thesis using assms(1) by (simp add: check_urls_def)
  next
    case (Cons x xs)
    let ?g = "group_urls urls []"
    have "results = collect_groups lk ?g (lk_order lk (map fst ?g)) []"
      using assms(1) False Cons by (auto simp: check_urls_def Let_def split: list.splits if_splits prod.splits)
    moreover have "set (lk_order lk (map fst ?g)) = dedup_key_of ` set urls"
      using assms(2) groups_of[of urls] by simp
    ultimately show ?thesis using collect_run[of "[]" lk urls "lk_order lk (map fst ?g)" u] by auto
  qed
qed

text \<open>One probe per canonical URL: a batch gives every URL a verdict, and two URLs with the same
  canonical form the same one, that of the first of them in the batch.\<close>

theorem one_verdict_per_canonical_url:
  assumes "check_urls lk urls = Inr results" "\<forall>xs. set (lk_order lk xs) = set xs"
  shows "fst ` set results = set urls \<and>
    (\<forall>u \<in> set urls. dget results u =
       Some (case check_url lk (hd (filter (\<lambda>v. dedup_key_of v = dedup_key_of u) urls)) of
               Inr v \<Rightarrow> v | Inl e \<Rightarrow> (False, Some (str_exn e))))"
proof -
  note run = check_urls_run[OF assms]
  have "x \<in> fst ` set results \<longleftrightarrow> x \<in> set urls" for x
    using run[of x] by (metis dom_map_of_conv_image_fst domIff option.simps(3))
  then show ?thesis using run by (auto simp: verdict_in_def)
qed

definition is_http :: "string \<Rightarrow> bool" where
  "is_http u \<longleftrightarrow> startswith u ''http://'' \<or> startswith u ''https://''"

text \<open>C20. A batch that passes the strict check was reached: for every http(s) URL of it, a URL of the
  batch with the same canonical form was answered with an acceptable code on some attempt.\<close>

theorem strict_check_reaches:
  assumes "check_urls_strict lk urls = Inr ()" "\<forall>xs. set (lk_order lk xs) = set xs" "u \<in> set urls" "is_http u"
    "0 \<le> max_retries (lk_env lk)"
  shows "\<exists>r \<in> set urls. \<exists>k x. is_http r \<and> dedup_key_of r = dedup_key_of u \<and> check_url_once lk r k = Inr (True, x)"
proof -
  let ?hs = "filter is_http urls"
  have u: "u \<in> set ?hs" using assms(3,4) by simp
  have hs: "filter (\<lambda>u. startswith u ''http://'' \<or> startswith u ''https://'') urls = ?hs"
    by (rule filter_cong) (simp_all add: is_http_def)
  have ne: "?hs \<noteq> []" using u by (metis empty_iff list.set(1))
  obtain results where res: "check_urls lk ?hs = Inr results"
    using assms(1) ne unfolding check_urls_strict_def hs Let_def by (auto simp: bindR_eq_Inr_iff)
  have none: "filter (\<lambda>(u, ok, err). \<not> ok) results = []"
    using assms(1) ne res unfolding check_urls_strict_def hs Let_def
    by (cases "filter (\<lambda>(u, ok, err). \<not> ok) results") auto
  note run = check_urls_run[OF res assms(2), of u]
  have "(u, verdict_in lk ?hs u) \<in> set results" using run u dget_iff_mem by fastforce
  then have ok: "fst (verdict_in lk ?hs u)" using none by (force simp: filter_empty_conv)
  let ?r = "hd (filter (\<lambda>v. dedup_key_of v = dedup_key_of u) ?hs)"
  have "filter (\<lambda>v. dedup_key_of v = dedup_key_of u) ?hs \<noteq> []" using u by (auto simp: filter_empty_conv)
  then have "?r \<in> set (filter (\<lambda>v. dedup_key_of v = dedup_key_of u) ?hs)" by (rule hd_in_set)
  then have r: "?r \<in> set ?hs" "dedup_key_of ?r = dedup_key_of u" by simp_all
  obtain e where "check_url lk ?r = Inr (True, e)" using ok by (auto simp: verdict_in_def split: sum.splits)
  then have "check_url_with_retry lk ?r = (Inr (True, e), snd (check_url_with_retry lk ?r))"
    by (simp add: check_url_def prod_eq_iff)
  from url_retries_bounded[OF this assms(5)] obtain k x where "check_url_once lk ?r k = Inr (True, x)" by auto
  then show ?thesis using r by auto
qed

section \<open>Scenarios\<close>

text \<open>Every page answers a GET with 200; a HEAD is refused.\<close>

definition demo_net :: link_env where
  "demo_net = \<lparr>lk_env = env0, lk_ssrf = (\<lambda>u. None), lk_fetch = Inr, lk_head = (\<lambda>u n. Inl (mkexn OSErr ''refused'')),
     lk_get = (\<lambda>u n. if n = 0 then Inr 503 else Inr 200), lk_order = rev\<rparr>"

theorem url_retries_bounded_witness:
  "snd (check_url_with_retry demo_net ''https://a.b/'') = [1] \<and> (\<exists>k x. int k \<le> 2 \<and> check_url_once demo_net ''https://a.b/'' k = Inr (True, x))"
proof -
  have run: "check_url_with_retry demo_net ''https://a.b/'' = (Inr (True, None), [1])" by code_simp
  have m: "max_retries (lk_env demo_net) = 2" by code_simp
  show ?thesis using url_retries_bounded[OF run] unfolding m run by auto
qed

theorem one_verdict_per_canonical_url_witness:
  "\<exists>results. check_urls demo_net [''https://a.b/?utm_source=x'', ''https://c.d/'', ''https://a.b/''] = Inr results \<and>
     fst ` set results = {''https://a.b/?utm_source=x'', ''https://c.d/'', ''https://a.b/''}"
proof -
  let ?us = "[''https://a.b/?utm_source=x'', ''https://c.d/'', ''https://a.b/'']"
  have "\<not> isl (check_urls demo_net ?us)" by code_simp
  then obtain results where res: "check_urls demo_net ?us = Inr results" by (cases "check_urls demo_net ?us") auto
  have "\<forall>xs. set (lk_order demo_net xs) = set xs" by (simp add: demo_net_def)
  from one_verdict_per_canonical_url[OF res this] res show ?thesis by auto
qed

theorem strict_check_reaches_witness:
  "\<exists>k x. check_url_once demo_net ''https://a.b/'' k = Inr (True, x)"
proof -
  have ok: "check_urls_strict demo_net [''https://a.b/''] = Inr ()" by code_simp
  have "\<forall>xs. set (lk_order demo_net xs) = set xs" "0 \<le> max_retries (lk_env demo_net)" "is_http ''https://a.b/''"
    by (simp add: demo_net_def, code_simp, code_simp)
  from strict_check_reaches[OF ok this(1) _ this(3,2)] show ?thesis by auto
qed

text \<open>An exception the probe does not expect, say a malformed answer of the server, is an unreachable
  URL in a batch of several and an exception of the whole check in a batch of one.\<close>

definition broken_net :: link_env where
  "broken_net = demo_net\<lparr>lk_get := (\<lambda>u n. Inl (mkexn (OtherError ''IncompleteRead'') ''x''))\<rparr>"

theorem lone_url_escapes:
  "check_urls broken_net [''https://a.b/''] = Inl (mkexn (OtherError ''IncompleteRead'') ''x'') \<and>
   check_urls broken_net [''https://a.b/'', ''https://c.d/''] =
     Inr [(''https://c.d/'', False, Some ''x''), (''https://a.b/'', False, Some ''x'')]"
  by code_simp

end
