(* ===== verification/Lang.thy ===== *)
theory Lang
  imports Schema
begin

text \<open>
  Language detection and the anchor gate (\<open>linkcheck/language.py\<close>, \<open>anchor/lang.py\<close>). A text is the list of
  its code points. What Python takes from the Unicode database and from the table of HTML entities
  is a parameter: letters and marks, word characters, the lower case of a code point (its context rule
  for the Greek sigma is left out) and the decoding of entities. The hint words are given by their code
  points.
\<close>

type_synonym utext = "nat list"

definition ascii :: "string \<Rightarrow> utext" where
  "ascii s = map of_char s"

record unicode =
  uc_letter :: "nat \<Rightarrow> bool"
  uc_word :: "nat \<Rightarrow> bool"
  uc_lower :: "nat \<Rightarrow> utext"
  uc_unescape :: "utext \<Rightarrow> utext"

text \<open>The code points of a UTF-8 string.\<close>

definition lead_bits :: "nat \<Rightarrow> nat \<times> nat" where
  "lead_bits n = (if n < 128 then (n, 0) else if n < 224 then (n mod 32, 1) else if n < 240 then (n mod 16, 2) else (n mod 8, 3))"

function code_points :: "string \<Rightarrow> utext" where
  "code_points [] = []"
| "code_points (c # s) =
     (let (lead, k) = lead_bits (of_char c) in
      foldl (\<lambda>m d. m * 64 + of_char d mod 64) lead (take k s) # code_points (drop k s))"
  by pat_completeness auto
termination
  by (relation "measure length") (auto simp: le_imp_less_Suc)

text \<open>White space as \<open>\S\<close> and \<open>str.isspace\<close> see it.\<close>

definition uni_space :: "nat \<Rightarrow> bool" where
  "uni_space n \<longleftrightarrow> 9 \<le> n \<and> n \<le> 13 \<or> 28 \<le> n \<and> n \<le> 32 \<or> 8192 \<le> n \<and> n \<le> 8202 \<or>
     n \<in> {133, 160, 5760, 8232, 8233, 8239, 8287, 12288}"

section \<open>Noise\<close>

text \<open>\<open>pattern.sub\<close>: a matcher gives the replacement and the rest of the text after a match.\<close>

type_synonym matcher = "utext \<Rightarrow> (utext \<times> utext) option"

function sub_all :: "matcher \<Rightarrow> utext \<Rightarrow> utext" where
  "sub_all m [] = []"
| "sub_all m (x # s) =
     (case m (x # s) of
        Some (r, rest) \<Rightarrow> if length rest \<le> length s then r @ sub_all m rest else x # sub_all m s
      | None \<Rightarrow> x # sub_all m s)"
  by pat_completeness auto
termination
  by (relation "measure (\<lambda>(m, s). length s)") auto

text \<open>The text up to the first \<open>c\<close> and the text after it.\<close>

definition until :: "nat \<Rightarrow> utext \<Rightarrow> (utext \<times> utext) option" where
  "until c s = (if c \<in> set s then Some (takeWhile (\<lambda>x. x \<noteq> c) s, tl (dropWhile (\<lambda>x. x \<noteq> c) s)) else None)"

definition prefixed :: "utext \<Rightarrow> utext \<Rightarrow> bool" where
  "prefixed p s \<longleftrightarrow> take (length p) s = p"

text \<open>\<open>\[([^\]]*)\]\([^)]*\)\<close> keeps the visible text, \<open><[^>]+>\<close> and \<open>https?://\S+\<close> are dropped.\<close>

definition match_link :: matcher where
  "match_link s =
     (if \<not> prefixed [91] s then None
      else case until 93 (tl s) of
        None \<Rightarrow> None
      | Some (visible, rest) \<Rightarrow>
          if \<not> prefixed [40] rest then None
          else map_option (\<lambda>(url, rest). (visible, rest)) (until 41 (tl rest)))"

definition match_tag :: matcher where
  "match_tag s =
     (if \<not> prefixed [60] s then None
      else case until 62 (tl s) of
        None \<Rightarrow> None
      | Some (inner, rest) \<Rightarrow> if inner = [] then None else Some ([], rest))"

definition match_url :: matcher where
  "match_url s =
     (let n = (if prefixed (ascii ''http://'') s then 7 else if prefixed (ascii ''https://'') s then 8 else 0) in
      if n = 0 then None
      else let rest = drop n s in
        if takeWhile (\<lambda>x. \<not> uni_space x) rest = [] then None
        else Some ([], dropWhile (\<lambda>x. \<not> uni_space x) rest))"

definition strip_noise :: "utext \<Rightarrow> utext" where
  "strip_noise s = sub_all match_url (sub_all match_tag (sub_all match_link s))"

section \<open>The dominant script\<close>

definition count_in_range :: "utext \<Rightarrow> nat \<Rightarrow> nat \<Rightarrow> nat" where
  "count_in_range s lo hi = length (filter (\<lambda>c. lo \<le> c \<and> c \<le> hi) s)"

definition HANGUL_RANGE :: "nat \<times> nat" where "HANGUL_RANGE = (0xAC00, 0xD7AF)"
definition CYRILLIC_RANGE :: "nat \<times> nat" where "CYRILLIC_RANGE = (0x0400, 0x04FF)"
definition CJK_BMP_RANGE :: "nat \<times> nat" where "CJK_BMP_RANGE = (0x4E00, 0x9FFF)"

definition is_latin :: "nat \<Rightarrow> bool" where
  "is_latin c \<longleftrightarrow> 65 \<le> c \<and> c \<le> 90 \<or> 97 \<le> c \<and> c \<le> 122"

definition count_latin_letters :: "utext \<Rightarrow> nat" where
  "count_latin_letters s = length (filter is_latin s)"

definition formal_denominator :: "unicode \<Rightarrow> utext \<Rightarrow> nat" where
  "formal_denominator uc s = length (filter (uc_letter uc) s)"

text \<open>\<open>max(d, key=d.get)\<close>: the first key with the greatest count.\<close>

fun best_of :: "string \<times> nat \<Rightarrow> (string \<times> nat) list \<Rightarrow> string \<times> nat" where
  "best_of b [] = b"
| "best_of b (x # xs) = best_of (if snd b < snd x then x else b) xs"

definition script_counts :: "utext \<Rightarrow> (string \<times> nat) list" where
  "script_counts s =
     [(''ko'', count_in_range s (fst HANGUL_RANGE) (snd HANGUL_RANGE)),
      (''ru'', count_in_range s (fst CYRILLIC_RANGE) (snd CYRILLIC_RANGE)),
      (''zh-CN'', count_in_range s (fst CJK_BMP_RANGE) (snd CJK_BMP_RANGE)),
      (''en'', count_latin_letters s)]"

text \<open>The quotient of the counts is compared with 0.30; no quotient of counts rounds across it.\<close>

definition codepoint_short_circuit :: "unicode \<Rightarrow> utext \<Rightarrow> string option" where
  "codepoint_short_circuit uc s =
     (let denom = formal_denominator uc s; counts = script_counts s;
          (lang, n) = best_of (hd counts) (tl counts) in
      if denom < 5 then None
      else if n = 0 then None
      else if 10 * n \<ge> 3 * denom then Some lang else None)"

section \<open>Hint words\<close>

definition ZH_HINTS :: "utext list" where
  "ZH_HINTS =
    [[30340], [26159], [22312], [20102], [25105], [26377], [21644], [23601], [19981], [20154],
     [37117], [19968], [19968, 20010], [19978], [20063], [24456], [21040], [35828], [35201],
     [21435], [20320], [20250], [30528], [27809, 26377], [30475], [22909], [33258, 24049],
     [36825], [20182], [22905], [23427], [20204], [37324], [37027], [20010], [20040],
     [20160, 20040], [24590, 20040], [20026, 20160, 20040]]"

definition RU_HINTS :: "utext list" where
  "RU_HINTS =
    [[1080], [1074], [1085, 1077], [1085, 1072], [1103], [1089], [1095, 1090, 1086],
     [1086, 1085], [1082], [1072], [1090, 1086], [1086, 1085, 1072], [1090, 1072, 1082],
     [1087, 1086], [1085, 1086], [1077, 1075, 1086], [1076, 1083, 1103], [1085, 1077, 1090],
     [1080, 1079], [1101, 1090, 1086], [1082, 1072, 1082], [1091], [1078, 1077], [1079, 1072],
     [1095, 1090, 1086], [1077, 1089, 1083, 1080], [1084, 1086, 1078, 1077, 1090],
     [1090, 1072, 1082, 1078, 1077], [1090, 1086, 1083, 1100, 1082, 1086], [1091, 1078, 1077],
     [1074, 1089, 1105], [1074, 1089, 1077], [1075, 1076, 1077], [1077, 1097, 1105]]"

definition EN_HINTS :: "utext list" where
  "EN_HINTS = map ascii
    [''the'', ''be'', ''to'', ''of'', ''and'', ''a'', ''in'', ''that'', ''have'', ''i'',
     ''it'', ''for'', ''not'', ''on'', ''with'', ''he'', ''as'', ''you'', ''do'', ''at'',
     ''this'', ''but'', ''his'', ''by'', ''from'', ''they'', ''we'', ''say'', ''her'',
     ''she'', ''or'', ''an'', ''will'', ''my'', ''one'', ''all'', ''would'', ''there'',
     ''their'', ''what'', ''so'', ''up'', ''out'', ''if'', ''about'', ''who'', ''get'',
     ''which'', ''go'']"

definition KO_HINTS :: "utext list" where
  "KO_HINTS =
    [[45716], [51060], [44032], [51012], [47484], [51032], [50640], [50640, 49436],
     [51004, 47196], [50752], [44284], [46020], [47564], [44620, 51648], [48512, 53552],
     [54620, 45796], [54664, 45796], [54620, 45796, 44256], [51077, 45768, 45796],
     [44536, 47532, 44256], [54616, 51648, 47564], [44536, 47084, 45208],
     [44536, 47000, 49436], [46412, 47928, 50640], [50948, 54644], [51080, 45796],
     [50630, 45796], [44057, 45796], [48372, 45796], [52376, 47100], [52376, 51020],
     [47560, 51648, 47561], [45796, 51020], [54632, 44760], [46608, 54620]]"


text \<open>\<open>s.count(p)\<close>, and the matches of \<open>\bp\b\<close>; \<open>prev\<close> is the character before \<open>s\<close>.\<close>

function count_sub :: "utext \<Rightarrow> utext \<Rightarrow> nat" where
  "count_sub p [] = 0"
| "count_sub p (x # s) =
     (if prefixed p (x # s) then 1 + count_sub p (drop (length p - 1) s) else count_sub p s)"
  by pat_completeness auto
termination
  by (relation "measure (\<lambda>(p, s). length s)") (auto simp: le_imp_less_Suc)

definition at_boundary :: "unicode \<Rightarrow> nat option \<Rightarrow> nat option \<Rightarrow> bool" where
  "at_boundary uc a b \<longleftrightarrow>
     (case a of None \<Rightarrow> False | Some x \<Rightarrow> uc_word uc x) \<noteq> (case b of None \<Rightarrow> False | Some x \<Rightarrow> uc_word uc x)"

definition first_of :: "utext \<Rightarrow> nat option" where
  "first_of s = (case s of [] \<Rightarrow> None | x # xs \<Rightarrow> Some x)"

function count_word :: "unicode \<Rightarrow> nat option \<Rightarrow> utext \<Rightarrow> utext \<Rightarrow> nat" where
  "count_word uc prev p [] = 0"
| "count_word uc prev p (x # s) =
     (let rest = drop (length p - 1) s in
      if prefixed p (x # s) \<and> at_boundary uc prev (Some x) \<and> at_boundary uc (Some (last p)) (first_of rest)
      then 1 + count_word uc (Some (last p)) p rest
      else count_word uc (Some x) p s)"
  by pat_completeness auto
termination
  by (relation "measure (\<lambda>(uc, prev, p, s). length s)") (auto simp: le_imp_less_Suc)

definition lower_text :: "unicode \<Rightarrow> utext \<Rightarrow> utext" where
  "lower_text uc s = concat (map (uc_lower uc) s)"

definition score_language :: "unicode \<Rightarrow> utext \<Rightarrow> utext list \<Rightarrow> bool \<Rightarrow> nat" where
  "score_language uc s hints use_word_boundary =
     (let low = lower_text uc s in
      sum_list (map (\<lambda>hint. if use_word_boundary then count_word uc None (lower_text uc hint) low
                           else count_sub (lower_text uc hint) low) hints))"

section \<open>Detection\<close>

definition detect_language_from_markdown :: "unicode \<Rightarrow> utext \<Rightarrow> string" where
  "detect_language_from_markdown uc raw =
     (let s = strip_noise raw in
      case codepoint_short_circuit uc s of
        Some lang \<Rightarrow> lang
      | None \<Rightarrow>
          let scores = [(''zh-CN'', score_language uc s ZH_HINTS False), (''ru'', score_language uc s RU_HINTS False),
                        (''en'', score_language uc s EN_HINTS True), (''ko'', score_language uc s KO_HINTS False)];
              (lang, n) = best_of (hd scores) (tl scores) in
          if n = 0 then ''unknown'' else lang)"

text \<open>
  \<open><(script|style)\b[^>]*>.*?</\1>\<close> without regard to case: the name is compared by \<open>re\<close>'s folding, which
  also takes the long s, the dotless and the dotted i for their letters; the closing name is compared
  with the opening one in lower case.
\<close>

definition re_lower :: "nat \<Rightarrow> nat" where
  "re_lower c = (if 65 \<le> c \<and> c \<le> 90 then c + 32 else if c = 0x130 then 105 else c)"

definition re_fold :: "nat \<Rightarrow> nat" where
  "re_fold c = (if c = 0x17F then 115 else if c = 0x131 then 105 else re_lower c)"

fun find_close :: "utext \<Rightarrow> utext \<Rightarrow> utext option" where
  "find_close name [] = None"
| "find_close name (x # s) =
     (let tag = [60, 47] @ name @ [62] in
      if map re_lower (take (length tag) (x # s)) = map re_lower tag then Some (drop (length tag) (x # s))
      else find_close name s)"

definition match_block :: "unicode \<Rightarrow> matcher" where
  "match_block uc s =
     (let n = (if map re_fold (take 6 (tl s)) = ascii ''script'' then 6
               else if map re_fold (take 5 (tl s)) = ascii ''style'' then 5 else 0);
          after = drop n (tl s) in
      if \<not> prefixed [60] s \<or> n = 0 then None
      else if \<not> at_boundary uc (Some (last (take n (tl s)))) (first_of after) then None
      else case until 62 after of
        None \<Rightarrow> None
      | Some (attrs, body) \<Rightarrow> map_option (\<lambda>rest. ([], rest)) (find_close (take n (tl s)) body))"

definition detect_language_from_html :: "unicode \<Rightarrow> utext \<Rightarrow> string" where
  "detect_language_from_html uc html =
     detect_language_from_markdown uc (sub_all match_tag (sub_all (match_block uc) (uc_unescape uc html)))"

definition language_matches :: "string \<Rightarrow> string \<Rightarrow> bool" where
  "language_matches detected requested \<longleftrightarrow>
     (if detected = ''unknown'' \<or> requested = ''unknown'' then True
      else if detected \<notin> set SUPPORTED_LANGUAGES \<or> requested \<notin> set SUPPORTED_LANGUAGES then True
      else detected = requested)"

section \<open>The anchor gate\<close>

definition has_in :: "nat \<times> nat \<Rightarrow> utext \<Rightarrow> bool" where
  "has_in block s \<longleftrightarrow> list_ex (\<lambda>c. fst block \<le> c \<and> c \<le> snd block) s"

definition contains_text :: "utext \<Rightarrow> utext \<Rightarrow> bool" where
  "contains_text p s \<longleftrightarrow> list_ex (\<lambda>i. prefixed p (drop i s)) [0..<Suc (length s)]"

text \<open>\<open>patterns\<close>: the fragments of \<open>BACKLINK_ANCHOR_ALLOWED_LATIN_PATTERNS\<close> as they are read at the first use.\<close>

definition allowed_latin_patterns :: "unicode \<Rightarrow> string option \<Rightarrow> utext list" where
  "allowed_latin_patterns uc raw =
     (case raw of None \<Rightarrow> []
      | Some s \<Rightarrow> if strip s = [] then []
                 else filter (\<lambda>f. f \<noteq> []) (map (\<lambda>f. lower_text uc (code_points (strip f))) (split_on CHR '','' s)))"

definition is_allowed_latin_anchor :: "unicode \<Rightarrow> utext list \<Rightarrow> utext \<Rightarrow> bool" where
  "is_allowed_latin_anchor uc patterns anchor \<longleftrightarrow>
     list_ex (\<lambda>p. contains_text p (lower_text uc anchor)) patterns"

definition check_zh_cn :: "unicode \<Rightarrow> utext list \<Rightarrow> utext \<Rightarrow> string option" where
  "check_zh_cn uc patterns anchor =
     (if has_in CJK_BMP_RANGE anchor then None
      else if is_allowed_latin_anchor uc patterns anchor then None
      else Some ''anchor missing CJK codepoint'')"

definition check_ru :: "utext \<Rightarrow> string option" where
  "check_ru anchor = (if has_in CYRILLIC_RANGE anchor then None else Some ''anchor missing Cyrillic codepoint'')"

definition check_en :: "utext \<Rightarrow> string option" where
  "check_en anchor =
     (if \<not> list_ex is_latin anchor then Some ''anchor missing Latin letter''
      else if has_in CJK_BMP_RANGE anchor then Some ''en anchor contains CJK codepoint''
      else if has_in CYRILLIC_RANGE anchor then Some ''en anchor contains Cyrillic codepoint''
      else None)"

definition check_ko :: "utext \<Rightarrow> string option" where
  "check_ko anchor =
     (if \<not> has_in HANGUL_RANGE anchor then Some ''anchor missing Hangul codepoint''
      else if has_in CJK_BMP_RANGE anchor then Some ''ko anchor contains CJK codepoint''
      else if has_in CYRILLIC_RANGE anchor then Some ''ko anchor contains Cyrillic codepoint''
      else None)"

text \<open>No reason, or the reason why the anchor is refused.\<close>

definition check_anchor_language ::
  "unicode \<Rightarrow> utext list \<Rightarrow> string \<Rightarrow> string \<Rightarrow> string \<Rightarrow> string list \<Rightarrow> string option" where
  "check_anchor_language uc patterns anchor row_language link_kind branded_pool =
     (if link_kind \<notin> {''main_domain'', ''target''} then None
      else if anchor \<in> set branded_pool then None
      else let a = code_points anchor in
        if row_language = ''zh-CN'' then check_zh_cn uc patterns a
        else if row_language = ''ru'' then check_ru a
        else if row_language = ''en'' then check_en a
        else if row_language = ''ko'' then check_ko a
        else None)"

end
