(* ===== verification/Validate.thy ===== *)
theory Validate
  imports Schema Lang Linkcheck Resume
begin

text \<open>
  The validation engine between planning and publishing (\<open>_validate_engine/engine.py\<close> and \<open>_payload.py\<close>,
  the tier table of \<open>publishing/content_negotiation.py\<close>): the reachability scan of a batch, the gates of
  a row, and the outcome of the batch. Parameters beside those of the schema, the language gates and
  the link checker: NFC on strings, the \<open>href\<close> values \<open>html.parser\<close> finds, the IDNA codec, the Unicode
  control category, where a banner path leads, the branded pool of the configuration, the iteration
  order of a set, the time stamp, and the text of a quotient as a percentage.
\<close>

record validate_ctx =
  va_env :: env
  va_supported :: "string list"
  va_boolish :: "json \<Rightarrow> bool"
  va_dumps :: "jdict \<Rightarrow> string"
  va_uc :: unicode
  va_nfc :: "string \<Rightarrow> string"
  va_hrefs :: "string \<Rightarrow> string list"
  va_idna :: "string \<Rightarrow> string option"
  va_control :: "nat \<Rightarrow> bool"
  va_banner :: "string \<Rightarrow> bool \<times> bool"
  va_pool :: "(string \<Rightarrow> string list) option"
  va_net :: link_env
  va_order :: "string list \<Rightarrow> string list"
  va_checked_at :: string
  va_percent :: "nat \<Rightarrow> nat \<Rightarrow> string"

text \<open>What an f-string puts between single quotes, and the two signs of the messages that are not ASCII.\<close>

definition quoted :: "string \<Rightarrow> string" where "quoted s = CHR 0x27 # s @ [CHR 0x27]"
definition em_dash :: string where "em_dash = [CHR 0xE2, CHR 0x80, CHR 0x94]"
definition at_least_sign :: string where "at_least_sign = [CHR 0xE2, CHR 0x89, CHR 0xA5]"

section \<open>Tiers\<close>

definition ROUTE_TIER_MATRIX :: "(string, string) dict" where
  "ROUTE_TIER_MATRIX = [(''blogger'', ''a''), (''medium'', ''b'')]"

definition route_tier_for :: "json \<Rightarrow> string" where
  "route_tier_for platform =
     (case platform of JStr p \<Rightarrow> dget_or ROUTE_TIER_MATRIX (lower (strip p)) ''c'' | _ \<Rightarrow> ''c'')"

section \<open>The reachability scan\<close>

definition extract_hrefs :: "validate_ctx \<Rightarrow> string \<Rightarrow> string list" where
  "extract_hrefs ctx html = (if strip html = [] then [] else va_hrefs ctx html)"

text \<open>\<open>all_urls.add(x)\<close>: what is added, or the exception of an unhashable value.\<close>

definition add_url :: "json \<Rightarrow> exn + json list" where
  "add_url j = (if hashable j then Inr [j] else Inl (mkexn TypeErr ''unhashable type''))"

definition link_scan :: "json \<Rightarrow> exn + json list" where
  "link_scan link = bindR (jdict_of link) (\<lambda>l. add_url (jget_or l ''url'' (JStr [])))"

definition scan_row :: "validate_ctx \<Rightarrow> jdict \<Rightarrow> exn + json list" where
  "scan_row ctx row =
     concatR
       [add_url (jget_or row ''target_url'' (JStr [])), add_url (jget_or row ''main_domain'' (JStr [])),
        bindR (iter_json (jget_or row ''links'' (JList []))) (\<lambda>ls. concatR (map link_scan ls)),
        Inr (case jget row ''content_html'' of
               JStr html \<Rightarrow> map JStr (filter http_url (map strip (extract_hrefs ctx html)))
             | _ \<Rightarrow> [])]"

definition reach_check :: "validate_ctx \<Rightarrow> jdict list \<Rightarrow> exn + unit" where
  "reach_check ctx rows =
     bindR (concatR (map (scan_row ctx) rows)) (\<lambda>all_urls.
       let urls = filter (\<lambda>j. j \<noteq> JStr []) (remdups all_urls) in
       if urls = [] then Inr ()
       else if \<not> list_all is_str urls then Inl (mkexn AttributeErr ''startswith'')
       else check_urls_strict (va_net ctx) (va_order ctx (map str_of urls)))"

section \<open>The gates of a row\<close>

definition nfc_field :: "validate_ctx \<Rightarrow> string \<Rightarrow> jdict \<Rightarrow> jdict" where
  "nfc_field ctx k row = (case dget row k of Some (JStr s) \<Rightarrow> dput k (JStr (va_nfc ctx s)) row | _ \<Rightarrow> row)"

definition nfc_link :: "validate_ctx \<Rightarrow> json \<Rightarrow> json" where
  "nfc_link ctx j = (case j of JDict l \<Rightarrow> JDict (nfc_field ctx ''anchor'' l) | _ \<Rightarrow> j)"

definition nfc_normalize :: "validate_ctx \<Rightarrow> jdict \<Rightarrow> jdict" where
  "nfc_normalize ctx row0 =
     (let row = nfc_field ctx ''content_html'' (nfc_field ctx ''content_markdown'' row0) in
      case dget row ''links'' of
        Some (JList ls) \<Rightarrow> dput ''links'' (JList (map (nfc_link ctx) ls)) row
      | _ \<Rightarrow> row)"

datatype body_source = FromMarkdown | FromHtml | BothMatch | BothMismatch string | Absent

definition detect_row_body_language :: "validate_ctx \<Rightarrow> jdict \<Rightarrow> string \<times> body_source" where
  "detect_row_body_language ctx row =
     (let md = jget row ''content_markdown''; html = jget row ''content_html'';
          md_lang = detect_language_from_markdown (va_uc ctx) (code_points (str_of md));
          html_lang = detect_language_from_html (va_uc ctx) (code_points (str_of html)) in
      if is_field_present md \<and> is_field_present html
      then if md_lang = html_lang then (md_lang, BothMatch)
           else (''unknown'', BothMismatch (''md='' @ md_lang @ ''/html='' @ html_lang))
      else if is_field_present md then (md_lang, FromMarkdown)
      else if is_field_present html then (html_lang, FromHtml)
      else (''unknown'', Absent))"

text \<open>\<open>row.get("content_markdown") or row.get("content_html") or ""\<close> on a row with string fields.\<close>

definition body_text :: "jdict \<Rightarrow> utext" where
  "body_text row =
     code_points (let md = str_of (jget row ''content_markdown'') in
                  if md \<noteq> [] then md else str_of (jget row ''content_html''))"

text \<open>Enough ideographs or Hangul among the letters: a share of at least 0.30.\<close>

definition cjk_counts :: "utext \<Rightarrow> nat \<times> nat" where
  "cjk_counts s =
     (let east = count_in_range s (fst CJK_BMP_RANGE) (snd CJK_BMP_RANGE) + count_in_range s (fst HANGUL_RANGE) (snd HANGUL_RANGE) in
      (east, count_latin_letters s + east))"

definition cjk_enough :: "utext \<Rightarrow> bool" where
  "cjk_enough s \<longleftrightarrow> (let (east, total) = cjk_counts s in total > 0 \<and> 10 * east \<ge> 3 * total)"

definition relaxed_warning :: "validate_ctx \<Rightarrow> string \<Rightarrow> utext \<Rightarrow> string" where
  "relaxed_warning ctx detected s =
     ''body language '' @ quoted detected @ '' != requested 'zh-CN', but CJK ratio ('' @ va_percent ctx (fst (cjk_counts s)) (snd (cjk_counts s)) @
     '') suggests zh-CN content; downgraded from error. Best practice: ensure '' @ at_least_sign @
     ''30% of the body text uses CJK codepoints.''"

text \<open>The errors and the warnings of the gate. The relaxed branch marks the row under \<open>validation\<close>, which
  raises if that is there and not an object; the mark itself is overwritten by the caller.\<close>

definition check_body_language_gate ::
  "validate_ctx \<Rightarrow> jdict \<Rightarrow> string \<Rightarrow> body_source \<Rightarrow> string \<Rightarrow> exn + (string list \<times> string list)" where
  "check_body_language_gate ctx row detected source requested =
     (let mismatch = ''body language '' @ quoted detected @ '' does not match requested '' @ quoted requested in
      case source of
        BothMismatch tag \<Rightarrow>
          Inr ([''body language mismatch between content_markdown and content_html ('' @ tag @
                ''); operator must use single-source workflow or update both fields''], [])
      | _ \<Rightarrow>
          if language_matches detected requested then Inr ([], [])
          else if requested = ''zh-CN'' \<and> cjk_enough (body_text row)
          then (case dget row ''validation'' of
                  None \<Rightarrow> Inr ([], [relaxed_warning ctx detected (body_text row)])
                | Some (JDict d) \<Rightarrow> Inr ([], [relaxed_warning ctx detected (body_text row)])
                | Some j \<Rightarrow> Inl (mkexn TypeErr ''object does not support item assignment''))
          else Inr ([mismatch], []))"

definition resolve_branded_pool :: "validate_ctx \<Rightarrow> jdict \<Rightarrow> string list" where
  "resolve_branded_pool ctx row =
     (case (case jget row ''metadata'' of JDict m \<Rightarrow> jget m ''branded_pool'' | _ \<Rightarrow> JNull) of
        JList xs \<Rightarrow> map (py_str (va_env ctx)) xs
      | _ \<Rightarrow>
          (case va_pool ctx of
             None \<Rightarrow> []
           | Some pool \<Rightarrow>
               let main_domain = str_of (jget_or row ''main_domain'' (JStr [])) in
               if main_domain = [] then [] else pool main_domain))"

definition latin_patterns :: "validate_ctx \<Rightarrow> utext list" where
  "latin_patterns ctx =
     allowed_latin_patterns (va_uc ctx) (getenv (va_env ctx) ''BACKLINK_ANCHOR_ALLOWED_LATIN_PATTERNS'')"

definition anchor_error :: "validate_ctx \<Rightarrow> string \<Rightarrow> string list \<Rightarrow> nat \<Rightarrow> json \<Rightarrow> string list" where
  "anchor_error ctx requested pool i link =
     (let field = (\<lambda>k. case link of JDict l \<Rightarrow> str_of (jget_or l k (JStr [])) | _ \<Rightarrow> []); anchor = field ''anchor'' in
      case check_anchor_language (va_uc ctx) (latin_patterns ctx) anchor requested (field ''kind'') pool of
        None \<Rightarrow> []
      | Some reason \<Rightarrow> [''link['' @ nat_str i @ ''] anchor '' @ py_repr anchor @ '' failed: '' @ reason])"

fun anchor_errors :: "validate_ctx \<Rightarrow> string \<Rightarrow> string list \<Rightarrow> nat \<Rightarrow> json list \<Rightarrow> string list" where
  "anchor_errors ctx requested pool i [] = []"
| "anchor_errors ctx requested pool i (l # ls) =
     anchor_error ctx requested pool i l @ anchor_errors ctx requested pool (i + 1) ls"

text \<open>Whether a link leads to the host or to one of its subdomains; user information, other schemes,
  IPv6 hosts and hosts with blanks or control characters never do.\<close>

definition userinfo_set :: "url_parts \<Rightarrow> bool" where
  "userinfo_set p \<longleftrightarrow>
     (CHR ''@'' \<in> set (u_netloc p) \<and>
      (let user = rev (tl (dropWhile (\<lambda>c. c \<noteq> CHR ''@'') (rev (u_netloc p)))) in user \<noteq> [] \<and> user \<noteq> '':''))"

definition href_on_host :: "validate_ctx \<Rightarrow> string \<Rightarrow> string \<Rightarrow> bool" where
  "href_on_host ctx target_host href \<longleftrightarrow>
     (case urlsplit (strip href) of
        Inl e \<Rightarrow> False
      | Inr p \<Rightarrow>
          u_scheme p \<in> {''http'', ''https''} \<and> \<not> userinfo_set p \<and>
          (case url_hostname p of
             None \<Rightarrow> False
           | Some host \<Rightarrow>
               CHR '':'' \<notin> set host \<and> \<not> list_ex (\<lambda>c. uni_space c \<or> va_control ctx c) (code_points host) \<and>
               (case va_idna ctx host of
                  None \<Rightarrow> False
                | Some a \<Rightarrow> lower a = target_host \<or> endswith (lower a) (CHR ''.'' # target_host))))"

definition check_main_domain_in_html :: "validate_ctx \<Rightarrow> string \<Rightarrow> string \<Rightarrow> bool" where
  "check_main_domain_in_html ctx html main_domain_normalized \<longleftrightarrow>
     main_domain_normalized \<noteq> [] \<and>
     list_ex (href_on_host ctx (lower (strip main_domain_normalized))) (extract_hrefs ctx html)"

definition html_errors :: "validate_ctx \<Rightarrow> jdict \<Rightarrow> string list" where
  "html_errors ctx row =
     (if \<not> is_field_present (jget row ''content_html'') then []
      else case jget_or row ''main_domain_normalized'' (JStr []) of
        JStr (c # cs) \<Rightarrow>
          if check_main_domain_in_html ctx (str_of (jget row ''content_html'')) (c # cs) then []
          else [''main_domain '' @ quoted (c # cs) @ '' is not the host of any <a href> in content_html (substring matches in comments / attributes do not count)'']
      | _ \<Rightarrow> [''content_html present but main_domain_normalized missing '' @ em_dash @ '' schema-time normalization should have populated it''])"

definition banner_errors :: "validate_ctx \<Rightarrow> jdict \<Rightarrow> string list" where
  "banner_errors ctx row =
     (case jget row ''banner'' of
        JDict b \<Rightarrow>
          (case jget b ''path'' of
             JStr (c # cs) \<Rightarrow>
               (let (inside, exists) = va_banner ctx (c # cs) in
                if \<not> inside then [''banner_path outside allowed directory: '' @ c # cs]
                else if \<not> exists then [''banner.path points to a file that does not exist: '' @ c # cs]
                else [])
           | _ \<Rightarrow> [])
      | _ \<Rightarrow> [])"

text \<open>The errors of a row that passed the schema, and the row with its validation block.\<close>

definition language_errors :: "validate_ctx \<Rightarrow> jdict \<Rightarrow> exn + (string list \<times> string list)" where
  "language_errors ctx row =
     (let requested = str_of (jget_or row ''language'' (JStr [])) in
      if requested \<notin> set SUPPORTED_LANGUAGES then Inr ([], [])
      else let (detected, source) = detect_row_body_language ctx row in
        bindR (check_body_language_gate ctx row detected source requested) (\<lambda>(es, ws).
          Inr (es @ anchor_errors ctx requested (resolve_branded_pool ctx row) 0
                 (case jget_or row ''links'' (JList []) of JList ls \<Rightarrow> ls | _ \<Rightarrow> []), ws)))"

definition enhance_payload :: "validate_ctx \<Rightarrow> jdict \<Rightarrow> exn + (string list \<times> jdict)" where
  "enhance_payload ctx row0 =
     (let row = nfc_normalize ctx row0 in
      bindR (language_errors ctx row) (\<lambda>(es, ws).
        let errors = es @ html_errors ctx row @ banner_errors ctx row in
        Inr (errors,
             dput ''validation''
               (JDict [(''status'', JStr (if errors \<noteq> [] then ''failed'' else ''passed'')),
                       (''checked_at'', JStr (va_checked_at ctx)),
                       (''warnings'', JList (map JStr ws)), (''errors'', JList (map JStr errors))]) row)))"

section \<open>The batch\<close>

datatype row_result = RowPassed jdict | RowPlatform string | RowInvalid "string list" | RowGate "string list"

definition validate_row :: "validate_ctx \<Rightarrow> jdict \<Rightarrow> exn + row_result" where
  "validate_row ctx row =
     (let platform = jget_or row ''platform'' (JStr []) in
      bindR (reject_unsupported_platform (va_supported ctx) platform) (\<lambda>msg.
      case msg of
        Some m \<Rightarrow> Inr (RowPlatform m)
      | None \<Rightarrow>
          if is_field_present (jget row ''content_html'') \<and> \<not> is_field_present (jget row ''content_markdown'') \<and>
             route_tier_for platform \<noteq> ''a''
          then Inr (RowPlatform (''platform '' @ quoted (str_of platform) @ '' does not yet accept content_html (only markdown). Provide content_markdown or wait for adapter retrofit.''))
          else
            bindR (validate_and_convert_output (va_boolish ctx) (va_dumps ctx) row) (\<lambda>(plan, errs).
              if errs \<noteq> [] \<or> plan = None then Inr (RowInvalid errs)
              else bindR (enhance_payload ctx row) (\<lambda>(errors, enhanced).
                Inr (if errors \<noteq> [] then RowGate errors else RowPassed enhanced)))))"

record validate_outcome =
  vo_outputs :: "jdict list"
  vo_errors :: "string list"
  vo_platform_drops :: "nat list"
  vo_validation_drops :: "nat list"
  vo_input_count :: nat

definition failed_count :: "validate_outcome \<Rightarrow> int" where
  "failed_count oc = int (vo_input_count oc) - int (length (vo_outputs oc))"

definition row_prefix :: "nat \<Rightarrow> string \<Rightarrow> string" where
  "row_prefix idx e = ''row '' @ nat_str idx @ '': '' @ e"

definition record_row :: "nat \<Rightarrow> row_result \<Rightarrow> validate_outcome \<Rightarrow> validate_outcome" where
  "record_row idx r oc =
     (case r of
        RowPassed row \<Rightarrow> oc\<lparr>vo_outputs := vo_outputs oc @ [row]\<rparr>
      | RowPlatform m \<Rightarrow> oc\<lparr>vo_errors := vo_errors oc @ [row_prefix idx m], vo_platform_drops := vo_platform_drops oc @ [idx]\<rparr>
      | RowInvalid es \<Rightarrow>
          oc\<lparr>vo_errors := vo_errors oc @ map (row_prefix idx) es, vo_validation_drops := vo_validation_drops oc @ [idx]\<rparr>
      | RowGate es \<Rightarrow> oc\<lparr>vo_errors := vo_errors oc @ map (row_prefix idx) es\<rparr>)"

fun validate_each :: "validate_ctx \<Rightarrow> nat \<Rightarrow> jdict list \<Rightarrow> validate_outcome \<Rightarrow> exn + validate_outcome" where
  "validate_each ctx idx [] oc = Inr oc"
| "validate_each ctx idx (row # rows) oc =
     bindR (validate_row ctx row) (\<lambda>r. validate_each ctx (idx + 1) rows (record_row idx r oc))"

definition validate_rows :: "validate_ctx \<Rightarrow> jdict list \<Rightarrow> bool \<Rightarrow> exn + validate_outcome" where
  "validate_rows ctx rows reach =
     bindR (if reach then reach_check ctx rows else Inr ()) (\<lambda>u.
       validate_each ctx 1 rows
         \<lparr>vo_outputs = [], vo_errors = [], vo_platform_drops = [], vo_validation_drops = [], vo_input_count = length rows\<rparr>)"

end
