(* ===== verification/Validate_Facts.thy ===== *)
theory Validate_Facts
  imports Validate Schema_Facts Linkcheck_Facts Url_Facts
begin

text \<open>
  What validation guarantees: no row is lost without an error, what passes satisfies every gate, and the
  publish stage accepts what validation passed.
\<close>

section \<open>Rows\<close>

lemma convert_output_run:
  "validate_and_convert_output boolish dumps row = Inr (plan, errs) \<Longrightarrow> plan = None \<longleftrightarrow> errs \<noteq> []"
  "validate_and_convert_output boolish dumps row = Inr (plan, []) \<Longrightarrow> output_ok dumps row \<and> planned_payload_ok boolish row"
  by (auto simp: validate_and_convert_output_def bindR_eq_Inr_iff validate_output_none split: if_splits)

lemma passed_row:
  assumes "validate_row ctx row = Inr (RowPassed row')"
  shows "output_ok (va_dumps ctx) row" "planned_payload_ok (va_boolish ctx) row"
    "jget_or row ''platform'' (JStr []) \<in> JStr ` set (va_supported ctx)"
    "enhance_payload ctx row = Inr ([], row')"
proof -
  obtain plan errs where v: "validate_and_convert_output (va_boolish ctx) (va_dumps ctx) row = Inr (plan, errs)"
    "\<not> (errs \<noteq> [] \<or> plan = None)" "enhance_payload ctx row = Inr ([], row')"
    "reject_unsupported_platform (va_supported ctx) (jget_or row ''platform'' (JStr [])) = Inr None"
    using assms by (auto simp: validate_row_def Let_def bindR_eq_Inr_iff split: option.splits if_splits prod.splits)
  then show "output_ok (va_dumps ctx) row" "planned_payload_ok (va_boolish ctx) row" "enhance_payload ctx row = Inr ([], row')"
    using convert_output_run(2) by auto
  show "jget_or row ''platform'' (JStr []) \<in> JStr ` set (va_supported ctx)"
    using v(4) by (auto simp: reject_unsupported_platform_def in_names_def bindR_eq_Inr_iff split: if_splits)
qed

fun passed :: "row_result \<Rightarrow> jdict list" where
  "passed (RowPassed row) = [row]"
| "passed (RowPlatform m) = []"
| "passed (RowInvalid es) = []"
| "passed (RowGate es) = []"

fun row_errors :: "row_result \<Rightarrow> string list" where
  "row_errors (RowPassed row) = []"
| "row_errors (RowPlatform m) = [m]"
| "row_errors (RowInvalid es) = es"
| "row_errors (RowGate es) = es"

lemma dropped_has_error: "validate_row ctx row = Inr r \<Longrightarrow> row_errors r = [] \<longleftrightarrow> passed r \<noteq> []"
  using convert_output_run(1)[of "va_boolish ctx" "va_dumps ctx" row None "[]"]
  by (auto simp: validate_row_def Let_def bindR_eq_Inr_iff split: option.splits if_splits prod.splits)

section \<open>The batch\<close>

lemma each_run:
  assumes "validate_each ctx idx rows oc0 = Inr oc"
  shows "\<exists>rs. list_all2 (\<lambda>row r. validate_row ctx row = Inr r) rows rs \<and>
    vo_outputs oc = vo_outputs oc0 @ concat (map passed rs) \<and>
    vo_errors oc = vo_errors oc0 @ concat (map (\<lambda>(i, r). map (row_prefix i) (row_errors r)) (enumerate idx rs)) \<and>
    vo_platform_drops oc = vo_platform_drops oc0 @ map fst (filter (\<lambda>(i, r). \<exists>m. r = RowPlatform m) (enumerate idx rs)) \<and>
    vo_validation_drops oc = vo_validation_drops oc0 @ map fst (filter (\<lambda>(i, r). \<exists>es. r = RowInvalid es) (enumerate idx rs)) \<and>
    vo_input_count oc = vo_input_count oc0"
  using assms
proof (induction rows arbitrary: idx oc0)
  case Nil
  then show ?case by (intro exI[of _ "[]"]) simp
next
  case (Cons row rows)
  obtain r where r: "validate_row ctx row = Inr r" "validate_each ctx (idx + 1) rows (record_row idx r oc0) = Inr oc"
    using Cons.prems by (auto simp: bindR_eq_Inr_iff)
  from Cons.IH[OF r(2)] obtain rs where rs: "list_all2 (\<lambda>row r. validate_row ctx row = Inr r) rows rs"
    "vo_outputs oc = vo_outputs (record_row idx r oc0) @ concat (map passed rs)"
    "vo_errors oc = vo_errors (record_row idx r oc0) @ concat (map (\<lambda>(i, r). map (row_prefix i) (row_errors r)) (enumerate (idx + 1) rs))"
    "vo_platform_drops oc = vo_platform_drops (record_row idx r oc0) @ map fst (filter (\<lambda>(i, r). \<exists>m. r = RowPlatform m) (enumerate (idx + 1) rs))"
    "vo_validation_drops oc = vo_validation_drops (record_row idx r oc0) @ map fst (filter (\<lambda>(i, r). \<exists>es. r = RowInvalid es) (enumerate (idx + 1) rs))"
    "vo_input_count oc = vo_input_count (record_row idx r oc0)"
    by blast
  show ?case
    by (intro exI[of _ "r # rs"]) (use rs r(1) in \<open>cases r; simp add: record_row_def\<close>)
qed

text \<open>C12. No row is lost silently: the rows of a batch are judged one by one in order, the outputs are
  those that passed, and every row that did not pass has an error that names its number; so a run
  without errors is one that passed every row. A row dropped by the language, link or banner gate is
  in neither drop list.\<close>

theorem no_row_lost_silently:
  assumes "validate_rows ctx rows reach = Inr oc"
  shows "\<exists>rs. list_all2 (\<lambda>row r. validate_row ctx row = Inr r) rows rs \<and>
    vo_outputs oc = concat (map passed rs) \<and>
    (\<forall>i < length rows. passed (rs ! i) = [] \<longrightarrow> (\<exists>e. row_prefix (i + 1) e \<in> set (vo_errors oc))) \<and>
    vo_platform_drops oc = map fst (filter (\<lambda>(i, r). \<exists>m. r = RowPlatform m) (enumerate 1 rs)) \<and>
    vo_validation_drops oc = map fst (filter (\<lambda>(i, r). \<exists>es. r = RowInvalid es) (enumerate 1 rs)) \<and>
    (vo_errors oc = [] \<longleftrightarrow> failed_count oc = 0)"
proof -
  have run: "validate_each ctx 1 rows
      \<lparr>vo_outputs = [], vo_errors = [], vo_platform_drops = [], vo_validation_drops = [], vo_input_count = length rows\<rparr> = Inr oc"
    using assms by (auto simp: validate_rows_def bindR_eq_Inr_iff)
  from each_run[OF run] obtain rs where rs: "list_all2 (\<lambda>row r. validate_row ctx row = Inr r) rows rs"
    "vo_outputs oc = concat (map passed rs)"
    "vo_errors oc = concat (map (\<lambda>(i, r). map (row_prefix i) (row_errors r)) (enumerate 1 rs))"
    "vo_platform_drops oc = map fst (filter (\<lambda>(i, r). \<exists>m. r = RowPlatform m) (enumerate 1 rs))"
    "vo_validation_drops oc = map fst (filter (\<lambda>(i, r). \<exists>es. r = RowInvalid es) (enumerate 1 rs))"
    "vo_input_count oc = length rows"
    by (auto simp del: One_nat_def)
  have len: "length rs = length rows" using list_all2_lengthD[OF rs(1)] by simp
  have err: "row_errors (rs ! i) = [] \<longleftrightarrow> passed (rs ! i) \<noteq> []" if "i < length rows" for i
    using list_all2_nthD[OF rs(1) that] dropped_has_error by blast
  have named: "\<exists>e. row_prefix (i + 1) e \<in> set (vo_errors oc)" if i: "i < length rows" "passed (rs ! i) = []" for i
  proof -
    obtain e where "e \<in> set (row_errors (rs ! i))" using err[OF i(1)] i(2) by (cases "row_errors (rs ! i)") auto
    moreover have "(i + 1, rs ! i) \<in> set (enumerate 1 rs)"
      using i(1) len by (auto simp: in_set_enumerate_eq)
    ultimately show ?thesis unfolding rs(3) by force
  qed
  have count: "length (concat (map passed rs)) + length (filter (\<lambda>r. passed r = []) rs) = length rs" for rs
  proof (induction rs)
    case (Cons r rs)
    then show ?case by (cases r) simp_all
  qed simp
  have "vo_errors oc = [] \<longleftrightarrow> (\<forall>r \<in> set rs. passed r \<noteq> [])"
  proof
    assume none: "vo_errors oc = []"
    show "\<forall>r \<in> set rs. passed r \<noteq> []"
    proof
      fix r assume "r \<in> set rs"
      then obtain i where "i < length rows" "r = rs ! i" using len by (auto simp: in_set_conv_nth)
      then show "passed r \<noteq> []" using named[of i] none by auto
    qed
  next
    assume all: "\<forall>r \<in> set rs. passed r \<noteq> []"
    have "row_errors r = []" if r: "r \<in> set rs" for r
    proof -
      obtain i where "i < length rows" "r = rs ! i" using r len by (auto simp: in_set_conv_nth)
      then show ?thesis using err[of i] all r by simp
    qed
    then show "vo_errors oc = []"
      unfolding rs(3) by (auto dest!: set_zip_rightD simp: enumerate_eq_zip)
  qed
  moreover have "failed_count oc = 0 \<longleftrightarrow> filter (\<lambda>r. passed r = []) rs = []"
    using count[of rs] len rs(2,6) by (auto simp: failed_count_def)
  ultimately have "vo_errors oc = [] \<longleftrightarrow> failed_count oc = 0" by (auto simp: filter_empty_conv)
  then show ?thesis using rs named by (intro exI[of _ rs]) blast
qed

section \<open>What passes\<close>

lemma str_field_get: "str_field row k \<Longrightarrow> \<exists>s. dget row k = Some (JStr s) \<and> jget row k = JStr s \<and> jget_or row k x = JStr s"
  by (auto simp: str_field_iff jget_Some jget_or_Some)

lemma enhanced:
  assumes "enhance_payload ctx row = Inr ([], row')"
  shows "\<exists>block. row' = dput ''validation'' (JDict block) (nfc_normalize ctx row) \<and>
      dget block ''status'' = Some (JStr ''passed'')"
    and "\<exists>ws. language_errors ctx (nfc_normalize ctx row) = Inr ([], ws)"
    and "html_errors ctx (nfc_normalize ctx row) = []" and "banner_errors ctx (nfc_normalize ctx row) = []"
  using assms by (auto simp: enhance_payload_def Let_def bindR_eq_Inr_iff split: prod.splits)

text \<open>Composition of Unicode leaves the fields it does not touch, and keeps the kinds of the links.\<close>

lemma nfc_field_get: "dget (nfc_field ctx k row) k' =
    (if k = k' then (case dget row k of Some (JStr s) \<Rightarrow> Some (JStr (va_nfc ctx s)) | v \<Rightarrow> v) else dget row k')"
  by (auto simp: nfc_field_def split: option.splits json.splits)

lemma nfc_other:
  "k \<notin> {''content_markdown'', ''content_html'', ''links''} \<Longrightarrow> dget (nfc_normalize ctx row) k = dget row k"
  by (auto simp: nfc_normalize_def Let_def nfc_field_get split: option.splits json.splits)

lemma nfc_links:
  "dget row ''links'' = Some (JList ls) \<Longrightarrow> dget (nfc_normalize ctx row) ''links'' = Some (JList (map (nfc_link ctx) ls))"
  by (simp add: nfc_normalize_def Let_def nfc_field_get)

lemma anchor_errors_none:
  "anchor_errors ctx req pool i ls = [] \<longleftrightarrow> (\<forall>l \<in> set ls. \<forall>j. anchor_error ctx req pool j l = [])"
proof (induction ls arbitrary: i)
  case (Cons l ls)
  have "anchor_error ctx req pool i l = [] \<longleftrightarrow> (\<forall>j. anchor_error ctx req pool j l = [])"
    by (auto simp: anchor_error_def Let_def split: option.splits)
  then show ?case using Cons.IH by auto
qed simp

text \<open>The script an anchor must show.\<close>

definition in_script :: "validate_ctx \<Rightarrow> string \<Rightarrow> utext \<Rightarrow> bool" where
  "in_script ctx lang a \<longleftrightarrow>
     (if lang = ''zh-CN'' then has_in CJK_BMP_RANGE a \<or> is_allowed_latin_anchor (va_uc ctx) (latin_patterns ctx) a
      else if lang = ''ru'' then has_in CYRILLIC_RANGE a
      else if lang = ''en'' then list_ex is_latin a \<and> \<not> has_in CJK_BMP_RANGE a \<and> \<not> has_in CYRILLIC_RANGE a
      else has_in HANGUL_RANGE a \<and> \<not> has_in CJK_BMP_RANGE a \<and> \<not> has_in CYRILLIC_RANGE a)"

lemma anchor_gate:
  assumes "check_anchor_language uc (latin_patterns ctx) anchor lang kind pool = None" "uc = va_uc ctx"
    "kind \<in> {''main_domain'', ''target''}" "anchor \<notin> set pool" "lang \<in> set SUPPORTED_LANGUAGES"
  shows "in_script ctx lang (code_points anchor)"
  using assms
  by (auto simp: check_anchor_language_def check_zh_cn_def check_ru_def check_en_def check_ko_def in_script_def
      SUPPORTED_LANGUAGES_def Let_def split: if_splits)

lemma language_gate:
  assumes "language_errors ctx row = Inr ([], ws)" "jget_or row ''language'' (JStr []) = JStr lang"
    "lang \<in> set SUPPORTED_LANGUAGES" "jget_or row ''links'' (JList []) = JList ls"
  shows "check_body_language_gate ctx row (fst (detect_row_body_language ctx row)) (snd (detect_row_body_language ctx row)) lang =
      Inr ([], ws) \<and> anchor_errors ctx lang (resolve_branded_pool ctx row) 0 ls = []"
  using assms by (auto simp: language_errors_def Let_def str_of_def bindR_eq_Inr_iff split: prod.splits)

lemma html_gate:
  assumes "html_errors ctx row = []" "is_field_present (jget row ''content_html'')"
  shows "\<exists>norm. jget_or row ''main_domain_normalized'' (JStr []) = JStr norm \<and>
    check_main_domain_in_html ctx (str_of (jget row ''content_html'')) norm"
  using assms by (auto simp: html_errors_def split: json.splits list.splits if_splits)

text \<open>What the language gate asks of the body: two bodies show the same language, and a body that shows a
  language the program knows shows the one the row declares. For Chinese a share of ideographs
  is enough.\<close>

definition shown_language :: "validate_ctx \<Rightarrow> jdict \<Rightarrow> string \<Rightarrow> bool" where
  "shown_language ctx row d \<longleftrightarrow>
     is_field_present (jget row ''content_markdown'') \<and>
       d = detect_language_from_markdown (va_uc ctx) (code_points (str_of (jget row ''content_markdown''))) \<or>
     is_field_present (jget row ''content_html'') \<and>
       d = detect_language_from_html (va_uc ctx) (code_points (str_of (jget row ''content_html'')))"

definition body_language_ok :: "validate_ctx \<Rightarrow> jdict \<Rightarrow> string \<Rightarrow> bool" where
  "body_language_ok ctx row lang \<longleftrightarrow>
     (\<forall>d d'. shown_language ctx row d \<longrightarrow> shown_language ctx row d' \<longrightarrow> d = d') \<and>
     (\<forall>d. shown_language ctx row d \<longrightarrow> d \<in> set SUPPORTED_LANGUAGES \<longrightarrow> d \<noteq> ''unknown'' \<longrightarrow>
        d = lang \<or> lang = ''zh-CN'' \<and> cjk_enough (body_text row))"

lemma body_gate:
  assumes "check_body_language_gate ctx row (fst (detect_row_body_language ctx row)) (snd (detect_row_body_language ctx row)) lang =
      Inr ([], ws)" "lang \<in> set SUPPORTED_LANGUAGES"
  shows "body_language_ok ctx row lang"
proof -
  have "lang \<noteq> ''unknown''" using assms(2) by (auto simp: SUPPORTED_LANGUAGES_def)
  then show ?thesis
    using assms
    by (cases "is_field_present (jget row ''content_markdown'')"; cases "is_field_present (jget row ''content_html'')")
      (auto simp: body_language_ok_def shown_language_def detect_row_body_language_def Let_def check_body_language_gate_def
         language_matches_def split: if_splits)
qed

lemma banner_gate:
  assumes "banner_errors ctx row = []" "jget row ''banner'' = JDict b" "jget b ''path'' = JStr path" "path \<noteq> []"
  shows "va_banner ctx path = (True, True)"
  using assms by (cases path) (auto simp: banner_errors_def Let_def split: prod.splits if_splits)

text \<open>C10. What passes validation satisfies every gate: the schema and the typed model accept the row; its
  platform is registered, and takes HTML if the row has no Markdown; if its language is one the
  gates know, the body shows no other known language (for Chinese, unless three tenths of its letters
  are ideographs or Hangul), two bodies show the same one, and the anchors of its main and target
  links are brand names or written in the script of that language; an HTML body links to the main
  domain; a banner file lies in the allowed directory and exists; and the row that is passed on is
  the composed row with a block that says "passed".\<close>

theorem passed_rows_meet_gates:
  assumes "validate_row ctx row = Inr (RowPassed row')"
  shows "output_ok (va_dumps ctx) row \<and> planned_payload_ok (va_boolish ctx) row \<and>
    jget_or row ''platform'' (JStr []) \<in> JStr ` set (va_supported ctx) \<and>
    (is_field_present (jget row ''content_html'') \<longrightarrow> is_field_present (jget row ''content_markdown'') \<or>
       route_tier_for (jget_or row ''platform'' (JStr [])) = ''a'') \<and>
    (\<forall>lang. jget_or row ''language'' (JStr []) = JStr lang \<longrightarrow> lang \<in> set SUPPORTED_LANGUAGES \<longrightarrow>
       body_language_ok ctx (nfc_normalize ctx row) lang \<and>
       (\<exists>ls. jget_or row ''links'' (JList []) = JList ls \<and>
         (\<forall>l d kind anchor. l \<in> set ls \<longrightarrow> nfc_link ctx l = JDict d \<longrightarrow> jget_or d ''kind'' (JStr []) = JStr kind \<longrightarrow>
            kind \<in> {''main_domain'', ''target''} \<longrightarrow> jget_or d ''anchor'' (JStr []) = JStr anchor \<longrightarrow>
            anchor \<in> set (resolve_branded_pool ctx row) \<or> in_script ctx lang (code_points anchor)))) \<and>
    (is_field_present (jget (nfc_normalize ctx row) ''content_html'') \<longrightarrow>
      (\<exists>norm. jget_or row ''main_domain_normalized'' (JStr []) = JStr norm \<and>
         check_main_domain_in_html ctx (str_of (jget (nfc_normalize ctx row) ''content_html'')) norm)) \<and>
    (\<forall>b path. jget row ''banner'' = JDict b \<longrightarrow> jget b ''path'' = JStr path \<longrightarrow> path \<noteq> [] \<longrightarrow>
       va_banner ctx path = (True, True)) \<and>
    (\<exists>block. row' = dput ''validation'' (JDict block) (nfc_normalize ctx row) \<and> dget block ''status'' = Some (JStr ''passed''))"
proof -
  let ?row = "nfc_normalize ctx row"
  note p = passed_row[OF assms(1)] and e = enhanced[OF passed_row(4)[OF assms(1)]]
  have same: "jget_or ?row k x = jget_or row k x" "jget ?row k = jget row k"
    if "k \<notin> {''content_markdown'', ''content_html'', ''links''}" for k x
    using nfc_other[OF that] by (simp_all add: jget_or_def jget_def dget_or_def)
  obtain ls where ls: "dget row ''links'' = Some (JList ls)"
    using p(1) by (auto simp: output_ok_def jget_def dget_or_def split: option.splits)
  have pool: "resolve_branded_pool ctx ?row = resolve_branded_pool ctx row"
  proof -
    have "jget ?row ''metadata'' = jget row ''metadata''" "jget_or ?row ''main_domain'' (JStr []) = jget_or row ''main_domain'' (JStr [])"
      by (simp_all add: same)
    then show ?thesis by (simp only: resolve_branded_pool_def)
  qed
  have languages: "body_language_ok ctx ?row lang \<and> (\<exists>ls. jget_or row ''links'' (JList []) = JList ls \<and>
         (\<forall>l d kind anchor. l \<in> set ls \<longrightarrow> nfc_link ctx l = JDict d \<longrightarrow> jget_or d ''kind'' (JStr []) = JStr kind \<longrightarrow>
            kind \<in> {''main_domain'', ''target''} \<longrightarrow> jget_or d ''anchor'' (JStr []) = JStr anchor \<longrightarrow>
            anchor \<in> set (resolve_branded_pool ctx row) \<or> in_script ctx lang (code_points anchor)))"
    if lang: "jget_or row ''language'' (JStr []) = JStr lang" "lang \<in> set SUPPORTED_LANGUAGES" for lang
  proof -
    have lang': "jget_or ?row ''language'' (JStr []) = JStr lang" using lang(1) by (simp add: same)
    obtain ws where "language_errors ctx ?row = Inr ([], ws)" using e(2) by blast
    note gate = language_gate[OF this lang' lang(2), of "map (nfc_link ctx) ls"]
    have links: "jget_or ?row ''links'' (JList []) = JList (map (nfc_link ctx) ls)"
      using nfc_links[OF ls] by (simp add: jget_or_Some)
    have anchors: "anchor_errors ctx lang (resolve_branded_pool ctx row) 0 (map (nfc_link ctx) ls) = []"
      using gate[OF links] by (simp add: pool)
    have "anchor \<in> set (resolve_branded_pool ctx row) \<or> in_script ctx lang (code_points anchor)"
      if l: "l \<in> set ls" "nfc_link ctx l = JDict d" "jget_or d ''kind'' (JStr []) = JStr kind"
        "kind \<in> {''main_domain'', ''target''}" "jget_or d ''anchor'' (JStr []) = JStr anchor" for l d kind anchor
    proof -
      have "anchor_error ctx lang (resolve_branded_pool ctx row) 0 (JDict d) = []"
        using anchors l(1,2) unfolding anchor_errors_none by force
      then have "check_anchor_language (va_uc ctx) (latin_patterns ctx) anchor lang kind (resolve_branded_pool ctx row) = None"
        using l(3,5) by (simp add: anchor_error_def Let_def str_of_def split: option.splits)
      from anchor_gate[OF this refl l(4) _ lang(2)] show ?thesis by blast
    qed
    then show ?thesis using body_gate[OF conjunct1[OF gate[OF links]] lang(2)] ls by (auto simp: jget_or_Some)
  qed
  have "\<exists>norm. jget_or row ''main_domain_normalized'' (JStr []) = JStr norm \<and>
         check_main_domain_in_html ctx (str_of (jget ?row ''content_html'')) norm"
    if "is_field_present (jget ?row ''content_html'')"
    using html_gate[OF e(3) that] by (simp add: same)
  moreover have "va_banner ctx path = (True, True)"
    if "jget row ''banner'' = JDict b" "jget b ''path'' = JStr path" "path \<noteq> []" for b path
    using banner_gate[OF e(4)] that by (simp add: same)
  moreover have "is_field_present (jget row ''content_html'') \<longrightarrow> is_field_present (jget row ''content_markdown'') \<or>
       route_tier_for (jget_or row ''platform'' (JStr [])) = ''a''"
    using assms by (auto simp: validate_row_def Let_def bindR_eq_Inr_iff split: option.splits if_splits)
  ultimately show ?thesis using p e(1) languages by blast
qed

section \<open>Validation and publishing agree\<close>

text \<open>The block that validation adds is read by no check of the publish stage.\<close>

lemma output_ok_block:
  "int (length (dumps (dput ''validation'' b row))) \<le> MAX_PAYLOAD_SIZE_BYTES \<Longrightarrow> output_ok dumps row \<Longrightarrow>
   output_ok dumps (dput ''validation'' b row)"
  by (simp add: output_ok_def str_field_iff str_where_iff has_field_def)

lemma planned_ok_block: "planned_payload_ok boolish (dput ''validation'' b row) = planned_payload_ok boolish row"
  by (simp add: planned_payload_ok_def str_field_iff str_where_iff literal_field_def has_field_def opt_str_field_def)

text \<open>C11. A row that validation passes is accepted by the publish stage, with the validation block in it,
  when its texts were in composed form to begin with and the block does not push it over the size limit.\<close>

theorem validated_rows_publishable:
  assumes "validate_row ctx row = Inr (RowPassed row')" "nfc_normalize ctx row = row"
    "int (length (va_dumps ctx row')) \<le> MAX_PAYLOAD_SIZE_BYTES"
  shows "validate_publish_payload (va_supported ctx) (va_boolish ctx) (va_dumps ctx) row' = Inr []"
proof -
  note p = passed_row[OF assms(1)]
  obtain block where row': "row' = dput ''validation'' (JDict block) row"
    using enhanced(1)[OF p(4)] assms(2) by auto
  have "dget row ''platform'' \<noteq> None" using p(1) by (auto simp: output_ok_def str_field_iff)
  then have "jget_or row ''platform'' (JStr []) = jget row ''platform''"
    by (auto simp: jget_or_def jget_def dget_or_def)
  then have "jget row' ''platform'' \<in> JStr ` set (va_supported ctx)" using p(3) by (simp add: row')
  moreover have "output_ok (va_dumps ctx) row'" using output_ok_block[OF _ p(1)] assms(3) by (simp add: row')
  moreover have "planned_payload_ok (va_boolish ctx) row'" using p(2) by (simp add: row' planned_ok_block)
  ultimately show ?thesis by (simp add: validate_publish_none)
qed

section \<open>The link check of HTML bodies\<close>

lemma strip_keeps: "c \<in> set s \<Longrightarrow> \<not> is_space c \<Longrightarrow> c \<in> set (strip s)"
proof -
  have "c \<in> set t \<Longrightarrow> \<not> is_space c \<Longrightarrow> c \<in> set (dropWhile is_space t)" for t
    by (induction t) auto
  then show "c \<in> set s \<Longrightarrow> \<not> is_space c \<Longrightarrow> c \<in> set (strip s)" by (simp add: strip_def)
qed

lemma dropWhile_rev_keeps: "\<not> P x \<Longrightarrow> \<exists>zs. rev (dropWhile P (rev (xs @ x # ys))) = xs @ x # zs"
proof -
  assume x: "\<not> P x"
  have "\<exists>zs. dropWhile P (zs' @ x # rev xs) = zs @ x # rev xs" for zs'
    using x by (induction zs') auto
  from this[of "rev ys"] obtain zs where "dropWhile P (rev ys @ x # rev xs) = zs @ x # rev xs" by blast
  then show ?thesis by (intro exI[of _ "rev zs"]) simp
qed

lemma http_url_scheme:
  assumes "http_url url" "urlsplit (strip url) = Inr p"
  shows "u_scheme p \<in> {''http'', ''https''}"
proof -
  obtain h r where h: "h \<in> {''http:/'', ''https:/''}" "url = h @ CHR ''/'' # r"
    using assms(1) unfolding http_url_def startswith_def
    by (metis (no_types, lifting) append_Cons append_Nil append_assoc append_take_drop_id insertCI)
  have sp: "dropWhile is_space url = url" using h by (auto simp: is_space_def)
  obtain z where z: "strip url = h @ CHR ''/'' # z"
    using dropWhile_rev_keeps[of is_space "CHR ''/''" h r] h(2) unfolding strip_def sp by (auto simp: is_space_def)
  have "fst (split_scheme (filter (\<lambda>c. \<not> is_unsafe_url_char c) (dropWhile is_c0_or_space (strip url)))) \<in> {''http'', ''https''}"
    unfolding z using h(1)
    by (auto simp: is_c0_or_space_def is_unsafe_url_char_def split_scheme_def partition_at_def is_scheme_char_def
        is_alnum_def is_alpha_def lower_def ascii_lower_def)
  then show ?thesis using assms(2) by (auto simp: urlsplit_def Let_def split: prod.splits if_splits)
qed

lemma normalized_has_colon:
  assumes "http_url url" "normalize_main_domain idna url = Inr nd"
  shows "CHR '':'' \<in> set nd"
proof -
  obtain p where p: "urlsplit (strip url) = Inr p" using assms(2) by (auto simp: normalize_main_domain_def bindR_eq_Inr_iff)
  then obtain n where n: "nd = urlunsplit (p\<lparr>u_netloc := n\<rparr>)"
    using assms(2) by (auto simp: normalize_main_domain_def Let_def bindR_eq_Inr_iff split: option.splits if_splits)
  have "u_scheme p \<noteq> []" using http_url_scheme[OF assms(1) p] by auto
  then show ?thesis by (simp add: n urlunsplit_def Let_def)
qed

text \<open>The normal form of a main domain is a URL and is compared with bare hosts, so a row that carries it,
  as the seed check computes it, never passes the link check of its HTML body. The codec puts no colon
  into a host.\<close>

theorem html_link_check_never_passes:
  assumes "\<forall>h a. va_idna ctx h = Some a \<longrightarrow> CHR '':'' \<notin> set h \<longrightarrow> CHR '':'' \<notin> set a"
    "http_url url" "normalize_main_domain (va_idna ctx) url = Inr nd"
  shows "\<not> check_main_domain_in_html ctx html nd"
proof -
  have "CHR '':'' \<in> set (strip nd)"
    using normalized_has_colon[OF assms(2,3)] by (rule strip_keeps) (simp add: is_space_def)
  then have target: "CHR '':'' \<in> set (lower (strip nd))"
    by (force simp: lower_def ascii_lower_def image_iff)
  have "\<not> href_on_host ctx (lower (strip nd)) href" for href
  proof
    assume "href_on_host ctx (lower (strip nd)) href"
    then obtain host a where host: "CHR '':'' \<notin> set host" "va_idna ctx host = Some a"
      "lower a = lower (strip nd) \<or> endswith (lower a) (CHR ''.'' # lower (strip nd))"
      by (auto simp: href_on_host_def split: sum.splits option.splits)
    have "CHR '':'' \<in> set (lower a)"
      using host(3)
    proof
      assume "endswith (lower a) (CHR ''.'' # lower (strip nd))"
      then obtain t where "rev (lower a) = rev (CHR ''.'' # lower (strip nd)) @ t" unfolding endswith_def startswith_iff by blast
      then have "set (rev (lower a)) = set (rev (CHR ''.'' # lower (strip nd)) @ t)" by (rule arg_cong)
      then show ?thesis using target by auto
    qed (use target in simp)
    then have "CHR '':'' \<in> set a" by (rule lower_special) (simp add: is_alpha_def)
    then show False using assms(1) host(1,2) by blast
  qed
  then show ?thesis by (auto simp: check_main_domain_in_html_def list_ex_iff)
qed

section \<open>Scenarios\<close>

text \<open>ASCII texts, but for one letter with an accent that NFC composes; every HTML body links to one page.\<close>

definition ascii_word :: "nat \<Rightarrow> bool" where
  "ascii_word n \<longleftrightarrow> 65 \<le> n \<and> n \<le> 90 \<or> 97 \<le> n \<and> n \<le> 122"

definition demo_uc :: unicode where
  "demo_uc = \<lparr>uc_letter = ascii_word, uc_word = ascii_word,
     uc_lower = (\<lambda>n. [if 65 \<le> n \<and> n \<le> 90 then n + 32 else n]), uc_unescape = (\<lambda>s. s)\<rparr>"

fun demo_nfc :: "string \<Rightarrow> string" where
  "demo_nfc (c # d # e # s) =
     (if c = CHR ''e'' \<and> d = CHR 0xCC \<and> e = CHR 0x81 then CHR 0xC3 # CHR 0xA9 # demo_nfc s else c # demo_nfc (d # e # s))"
| "demo_nfc s = s"

definition demo_ctx :: validate_ctx where
  "demo_ctx =
     \<lparr>va_env = env0, va_supported = [''telegraph'', ''blogger''], va_boolish = is_bool, va_dumps = no_dump, va_uc = demo_uc,
      va_nfc = demo_nfc, va_hrefs = (\<lambda>h. [''https://a.com/page'']), va_idna = Some, va_control = (\<lambda>n. n < 32),
      va_banner = (\<lambda>p. (True, True)), va_pool = None, va_net = demo_net, va_order = (\<lambda>xs. xs), va_checked_at = ''now'',
      va_percent = (\<lambda>a b. nat_str (100 * a div b) @ ''%'')\<rparr>"

definition demo_block :: json where
  "demo_block = JDict [(''status'', JStr ''passed''), (''checked_at'', JStr ''now''), (''warnings'', JList []), (''errors'', JList [])]"

lemma demo_text: "strip_noise (code_points ''https://a.com'') = []"
proof -
  have "code_points ''https://a.com'' = [104, 116, 116, 112, 115, 58, 47, 47, 97, 46, 99, 111, 109]"
    by (simp add: lead_bits_def Let_def)
  then show ?thesis
    by (simp add: strip_noise_def match_link_def match_tag_def match_url_def prefixed_def ascii_def uni_space_def Let_def)
qed

text \<open>A text that is nothing but a URL has no language.\<close>

lemma no_text_no_language: "strip_noise s = [] \<Longrightarrow> detect_language_from_markdown uc s = ''unknown''"
  by (simp add: detect_language_from_markdown_def codepoint_short_circuit_def formal_denominator_def script_counts_def
     score_language_def lower_text_def Let_def split: prod.splits)

lemma unknown_language_passes:
  assumes "jget row ''content_markdown'' = JStr md" "strip_noise (code_points md) = []" "strip md \<noteq> []"
    "\<not> is_field_present (jget row ''content_html'')" "jget_or row ''language'' (JStr []) = JStr lang"
    "jget_or row ''links'' (JList []) = JList ls"
  shows "language_errors ctx row =
    Inr (if lang \<in> set SUPPORTED_LANGUAGES then anchor_errors ctx lang (resolve_branded_pool ctx row) 0 ls else [], [])"
  using assms no_text_no_language[OF assms(2)]
  by (simp add: language_errors_def detect_row_body_language_def check_body_language_gate_def language_matches_def
      is_field_present_def str_of_def Let_def)

lemma demo_anchor: "anchor_error demo_ctx ''en'' [] i demo_link = []"
proof -
  have "code_points ''a'' = [97]" by (simp add: lead_bits_def Let_def)
  then show ?thesis
    by (simp add: anchor_error_def demo_link_def jget_or_def dget_or_def str_of_def check_anchor_language_def check_en_def
        is_latin_def has_in_def CJK_BMP_RANGE_def CYRILLIC_RANGE_def Let_def)
qed

lemma demo_language_errors: "language_errors demo_ctx demo_payload = Inr ([], [])"
proof -
  have "jget demo_payload ''content_markdown'' = JStr ''https://a.com''" "\<not> is_field_present (jget demo_payload ''content_html'')"
    "jget_or demo_payload ''language'' (JStr []) = JStr ''en''" "strip ''https://a.com'' \<noteq> []"
    "jget_or demo_payload ''links'' (JList []) = JList (replicate 6 demo_link)"
    by code_simp+
  note u = unknown_language_passes[OF this(1) demo_text this(4,2,3,5), of demo_ctx]
  have pool: "resolve_branded_pool demo_ctx demo_payload = []" by code_simp
  have "anchor_errors demo_ctx ''en'' [] 0 (replicate 6 demo_link) = []"
    unfolding anchor_errors_none by (simp add: demo_anchor)
  then show ?thesis by (simp add: u pool)
qed

lemma demo_enhanced: "enhance_payload demo_ctx demo_payload = Inr ([], dput ''validation'' demo_block demo_payload)"
proof -
  have "nfc_normalize demo_ctx demo_payload = demo_payload" by code_simp
  moreover have "html_errors demo_ctx demo_payload = []" by code_simp
  moreover have "banner_errors demo_ctx demo_payload = []" by code_simp
  moreover have "va_checked_at demo_ctx = ''now''" by code_simp
  ultimately show ?thesis
    unfolding enhance_payload_def Let_def demo_block_def by (simp only: demo_language_errors bindR.simps prod.case append_Nil list.map if_False simp_thms refl)
qed

lemma demo_row_passes: "validate_row demo_ctx demo_payload = Inr (RowPassed (dput ''validation'' demo_block demo_payload))"
proof -
  have r: "reject_unsupported_platform (va_supported demo_ctx) (jget_or demo_payload ''platform'' (JStr [])) = Inr None"
    by code_simp
  have h: "\<not> is_field_present (jget demo_payload ''content_html'')" by code_simp
  have v: "validate_and_convert_output (va_boolish demo_ctx) (va_dumps demo_ctx) demo_payload = Inr (Some demo_payload, [])"
    by code_simp
  show ?thesis unfolding validate_row_def Let_def r v demo_enhanced by (simp add: h)
qed
lemma demo_host_found: "check_main_domain_in_html demo_ctx ''h'' ''a.com''" 
proof -
  have "extract_hrefs demo_ctx ''h'' = [''https://a.com/page'']" by code_simp
  moreover have "urlsplit (strip ''https://a.com/page'') = Inr \<lparr>u_scheme = ''https'', u_netloc = ''a.com'', u_path = ''/page'', u_query = [], u_fragment = []\<rparr>" by code_simp
  moreover have "code_points ''a.com'' = [97, 46, 99, 111, 109]"
    by (simp add: lead_bits_def Let_def)
  moreover have "url_hostname \<lparr>u_scheme = ''https'', u_netloc = ''a.com'', u_path = ''/page'', u_query = [], u_fragment = []\<rparr> = Some ''a.com''" by code_simp
  moreover have "lower (strip ''a.com'') = ''a.com''" "lower ''a.com'' = ''a.com''" by code_simp+
  ultimately show ?thesis
   by (simp add: check_main_domain_in_html_def href_on_host_def userinfo_set_def uni_space_def demo_ctx_def)
qed
lemma demo_rejected:
  "\<exists>m. validate_row demo_ctx (dput ''platform'' (JStr ''x'') demo_payload) = Inr (RowPlatform m)"
proof -
  have "va_supported demo_ctx = [''telegraph'', ''blogger'']" by code_simp
  then show ?thesis
    by (simp add: validate_row_def reject_unsupported_platform_def in_names_def Let_def)
qed

theorem no_row_lost_silently_witness:
  "\<exists>oc. validate_rows demo_ctx [demo_payload, dput ''platform'' (JStr ''x'') demo_payload] False = Inr oc \<and>
     (\<exists>e. row_prefix 2 e \<in> set (vo_errors oc)) \<and> failed_count oc \<noteq> 0"
proof -
  let ?rows = "[demo_payload, dput ''platform'' (JStr ''x'') demo_payload]"
  obtain m where m: "validate_row demo_ctx (dput ''platform'' (JStr ''x'') demo_payload) = Inr (RowPlatform m)"
    using demo_rejected by blast
  then have "\<exists>oc. validate_rows demo_ctx ?rows False = Inr oc"
    by (simp add: validate_rows_def demo_row_passes)
  then obtain oc where oc: "validate_rows demo_ctx ?rows False = Inr oc" by blast
  from no_row_lost_silently[OF oc] obtain rs where rs:
    "list_all2 (\<lambda>row r. validate_row demo_ctx row = Inr r) ?rows rs"
    "\<forall>i < length ?rows. passed (rs ! i) = [] \<longrightarrow> (\<exists>e. row_prefix (i + 1) e \<in> set (vo_errors oc))"
    "vo_errors oc = [] \<longleftrightarrow> failed_count oc = 0"
    by blast
  have "passed (rs ! 1) = []"
    using list_all2_nthD[OF rs(1), of 1] m by (auto simp: eq_commute[of _ "rs ! Suc 0"])
  then obtain e where "row_prefix (1 + 1) e \<in> set (vo_errors oc)" using rs(2)[rule_format, of 1] by auto
  then have "row_prefix 2 e \<in> set (vo_errors oc)" by (simp add: numeral_2_eq_2)
  then show ?thesis using oc rs(3) by auto
qed

theorem passed_rows_meet_gates_witness:
  "output_ok no_dump demo_payload \<and> planned_payload_ok is_bool demo_payload \<and> body_language_ok demo_ctx demo_payload ''en''"
proof -
  have "jget_or demo_payload ''language'' (JStr []) = JStr ''en''" "''en'' \<in> set SUPPORTED_LANGUAGES"
    "nfc_normalize demo_ctx demo_payload = demo_payload" "va_dumps demo_ctx = no_dump" "va_boolish demo_ctx = is_bool"
    by (code_simp, code_simp, code_simp, simp_all add: demo_ctx_def)
  note d = this
  show ?thesis using passed_rows_meet_gates[OF demo_row_passes] d(1,2) by (simp add: d(3-5))
qed

theorem validated_rows_publishable_witness:
  "validate_publish_payload [''telegraph'', ''blogger''] is_bool no_dump (dput ''validation'' demo_block demo_payload) = Inr []"
proof -
  have "nfc_normalize demo_ctx demo_payload = demo_payload" by code_simp
  moreover have "int (length (va_dumps demo_ctx (dput ''validation'' demo_block demo_payload))) \<le> MAX_PAYLOAD_SIZE_BYTES"
    by (simp add: demo_ctx_def no_dump_def MAX_PAYLOAD_SIZE_BYTES_def)
  ultimately show ?thesis
    using validated_rows_publishable[OF demo_row_passes] by (simp add: demo_ctx_def)
qed

theorem html_link_check_never_passes_witness:
  "\<not> check_main_domain_in_html demo_ctx ''h'' ''https://a.com'' \<and> check_main_domain_in_html demo_ctx ''h'' ''a.com''"
proof -
  have n: "normalize_main_domain (va_idna demo_ctx) ''https://A.com'' = Inr ''https://a.com''" "http_url ''https://A.com''"
    by code_simp+
  have "\<forall>h a. va_idna demo_ctx h = Some a \<longrightarrow> CHR '':'' \<notin> set h \<longrightarrow> CHR '':'' \<notin> set a"
    by (simp add: demo_ctx_def)
  from html_link_check_never_passes[OF this n(2,1)] show ?thesis by (simp add: demo_host_found)
qed

section \<open>What the gates miss\<close>

text \<open>A row dropped by a gate is counted as failed, but in neither of the two lists of dropped rows.\<close>

definition ru_payload :: jdict where
  "ru_payload = dput ''language'' (JStr ''ru'') demo_payload"

lemma ru_row_gated: "\<exists>es. validate_row demo_ctx ru_payload = Inr (RowGate es)"
proof -
  have "jget ru_payload ''content_markdown'' = JStr ''https://a.com''" "\<not> is_field_present (jget ru_payload ''content_html'')"
    "jget_or ru_payload ''language'' (JStr []) = JStr ''ru''" "strip ''https://a.com'' \<noteq> []"
    "jget_or ru_payload ''links'' (JList []) = JList (replicate 6 demo_link)"
    by code_simp+
  note u = unknown_language_passes[OF this(1) demo_text this(4,2,3,5), of demo_ctx] and h = this(2)
  have pool: "resolve_branded_pool demo_ctx ru_payload = []" by code_simp
  have "code_points ''a'' = [97]" by (simp add: lead_bits_def Let_def)
  then have "anchor_error demo_ctx ''ru'' [] i demo_link \<noteq> []" for i
    by (simp add: anchor_error_def demo_link_def jget_or_def dget_or_def str_of_def check_anchor_language_def check_ru_def
        has_in_def CYRILLIC_RANGE_def Let_def)
  then have a: "anchor_errors demo_ctx ''ru'' [] 0 (replicate 6 demo_link) \<noteq> []"
    unfolding anchor_errors_none by (simp add: numeral_eq_Suc)
  have ru: "''ru'' \<in> set SUPPORTED_LANGUAGES" by code_simp
  have n: "nfc_normalize demo_ctx ru_payload = ru_payload" by code_simp
  obtain es row' where e: "enhance_payload demo_ctx ru_payload = Inr (es, row')" "es \<noteq> []"
    using a by (simp add: enhance_payload_def n u pool ru Let_def)
  have r: "reject_unsupported_platform (va_supported demo_ctx) (jget_or ru_payload ''platform'' (JStr [])) = Inr None"
    by code_simp
  have v: "validate_and_convert_output (va_boolish demo_ctx) (va_dumps demo_ctx) ru_payload = Inr (Some ru_payload, [])"
    by code_simp
  show ?thesis using e(2) unfolding validate_row_def Let_def r v e(1) by (simp add: h)
qed

theorem gate_drop_in_no_list:
  "\<exists>oc. validate_rows demo_ctx [ru_payload] False = Inr oc \<and> failed_count oc = 1 \<and>
     vo_platform_drops oc = [] \<and> vo_validation_drops oc = []"
  using ru_row_gated by (auto simp: validate_rows_def record_row_def failed_count_def)

text \<open>Composition changes the article but not the main domain: a row whose main domain is written with a
  combining accent, in the article as well, passes validation and is refused by the publish stage.\<close>

definition accented :: string where "accented = ''https://e'' @ [CHR 0xCC, CHR 0x81] @ ''.com''"

definition nfd_payload :: jdict where
  "nfd_payload = dput ''main_domain'' (JStr accented) (dput ''content_markdown'' (JStr accented) demo_payload)"

definition composed :: string where "composed = ''https://'' @ [CHR 0xC3, CHR 0xA9] @ ''.com''"

lemma composed_text: "strip_noise (code_points composed) = []"
proof -
  have "code_points composed = [104, 116, 116, 112, 115, 58, 47, 47, 233, 46, 99, 111, 109]"
    by (simp add: composed_def lead_bits_def Let_def)
  then show ?thesis
    by (simp add: strip_noise_def match_link_def match_tag_def match_url_def prefixed_def ascii_def uni_space_def Let_def)
qed

theorem nfc_breaks_main_domain:
  "\<exists>row'. validate_row demo_ctx nfd_payload = Inr (RowPassed row') \<and>
     validate_publish_payload [''telegraph''] is_bool no_dump row' \<noteq> Inr []"
proof -
  let ?row = "dput ''content_markdown'' (JStr composed) nfd_payload"
  have n: "nfc_normalize demo_ctx nfd_payload = ?row" by code_simp
  have "jget ?row ''content_markdown'' = JStr composed" "\<not> is_field_present (jget ?row ''content_html'')"
    "jget_or ?row ''language'' (JStr []) = JStr ''en''" "strip composed \<noteq> []"
    "jget_or ?row ''links'' (JList []) = JList (replicate 6 demo_link)"
    by code_simp+
  note u = unknown_language_passes[OF this(1) composed_text this(4,2,3,5), of demo_ctx] and h = this(2)
  have pool: "resolve_branded_pool demo_ctx ?row = []" by code_simp
  have a: "anchor_errors demo_ctx ''en'' [] 0 (replicate 6 demo_link) = []"
    unfolding anchor_errors_none by (simp add: demo_anchor)
  have hb: "html_errors demo_ctx ?row = []" "banner_errors demo_ctx ?row = []" "va_checked_at demo_ctx = ''now''" by code_simp+
  have e: "enhance_payload demo_ctx nfd_payload = Inr ([], dput ''validation'' demo_block ?row)"
    by (simp add: enhance_payload_def n u pool a hb Let_def demo_block_def)
  have r: "reject_unsupported_platform (va_supported demo_ctx) (jget_or nfd_payload ''platform'' (JStr [])) = Inr None"
    by code_simp
  have v: "validate_and_convert_output (va_boolish demo_ctx) (va_dumps demo_ctx) nfd_payload = Inr (Some nfd_payload, [])"
    by code_simp
  have h': "\<not> is_field_present (jget nfd_payload ''content_html'')" by code_simp
  have "validate_row demo_ctx nfd_payload = Inr (RowPassed (dput ''validation'' demo_block ?row))"
    unfolding validate_row_def Let_def r v e by (simp add: h')
  moreover have "validate_publish_payload [''telegraph''] is_bool no_dump (dput ''validation'' demo_block ?row) \<noteq> Inr []"
    by code_simp
  ultimately show ?thesis by blast
qed

end
