(* ===== verification/Recheck.thy ===== *)
theory Recheck
  imports Schema "HOL-Library.Product_Lexorder"
begin

text \<open>
  The recheck verdicts of published links (\<open>recheck/verdicts.py\<close>), their latest state per link and
  per target (\<open>recheck/latest_verdicts.py\<close>, \<open>recheck/events_io.py\<close>) and the choice of the links that
  are due (\<open>recheck/selection.py\<close>). The tables of the events database are lists of rows in the order of
  their ids, a payload is what \<open>json.loads\<close> makes of it, if anything. \<open>isp\<close> is the instant of
  \<open>datetime.fromisoformat(s.replace("Z", "+00:00"))\<close>, read as UTC when it names no zone; \<open>None\<close> where that
  raises \<open>ValueError\<close>. A platform, a live URL and a target URL in a payload are strings or falsy, as their
  writers write them.
\<close>

section \<open>Verdicts\<close>

definition VERDICTS :: "string list" where
  "VERDICTS = [''alive'', ''host_gone'', ''link_stripped'', ''dofollow_lost'', ''probe_error'']"

definition DETERMINISTIC_DEAD :: "string list" where
  "DETERMINISTIC_DEAD = [''host_gone'', ''link_stripped'']"

definition DEFINITIVE :: "string list" where
  "DEFINITIVE = [''alive'', ''host_gone'', ''link_stripped'', ''dofollow_lost'']"

definition is_deterministic_dead :: "json \<Rightarrow> exn + bool" where
  "is_deterministic_dead verdict = in_names verdict DETERMINISTIC_DEAD"

definition advances_age_cursor :: "json \<Rightarrow> exn + bool" where
  "advances_age_cursor verdict = in_names verdict DEFINITIVE"

section \<open>Rows and instants\<close>

definition int_text :: "int \<Rightarrow> string" where
  "int_text n = (if n < 0 then CHR ''-'' # nat_str (nat (- n)) else nat_str (nat n))"

record event_row =
  er_id :: int
  er_kind :: string
  er_article :: "int option"
  er_payload :: "json option"
  er_target :: "string option"
  er_host :: "string option"
  er_run :: "string option"
  er_ts :: string

record article_row =
  ar_id :: int
  ar_live_url :: "string option"
  ar_anchors :: "json option"

type_synonym iso_parser = "string \<Rightarrow> pyfloat option"

definition parse_ts :: "iso_parser \<Rightarrow> string \<Rightarrow> pyfloat option" where
  "parse_ts isp v = (if v = [] then None else isp v)"

definition canon_target :: "string option \<Rightarrow> string option" where
  "canon_target v =
     (case v of
        None \<Rightarrow> None
      | Some s \<Rightarrow> if strip s = [] then None
                 else (case canonicalize_url s of Inl e \<Rightarrow> None | Inr u \<Rightarrow> Some u))"

definition is_newer :: "pyfloat option \<Rightarrow> int \<Rightarrow> pyfloat option \<Rightarrow> int \<Rightarrow> bool" where
  "is_newer ts rid prev_ts prev_rid =
     (case (ts, prev_ts) of
        (None, None) \<Rightarrow> rid > prev_rid
      | (Some t, None) \<Rightarrow> True
      | (None, Some p) \<Rightarrow> False
      | (Some t, Some p) \<Rightarrow> if t \<noteq> p then t > p else rid > prev_rid)"

section \<open>The latest verdict of a link\<close>

text \<open>The payload as the readers of one link see it: an object, or an exception of \<open>.get\<close>.\<close>

record latest_verdict =
  lv_ts :: "pyfloat option"
  lv_rid :: int
  lv_payload :: jdict
  lv_target :: "string option"
  lv_article :: "int option"

definition link_key :: "jdict \<Rightarrow> event_row \<Rightarrow> string option" where
  "link_key payload r =
     (case (case jget payload ''live_url'' of JStr u \<Rightarrow> canon_target (Some u) | _ \<Rightarrow> None) of
        Some u \<Rightarrow> Some u
      | None \<Rightarrow> map_option (\<lambda>aid. ''aid:'' @ int_text aid) (er_article r))"

fun latest_loop ::
  "iso_parser \<Rightarrow> event_row list \<Rightarrow> (string, latest_verdict) dict \<times> nat \<Rightarrow> exn + (string, latest_verdict) dict \<times> nat" where
  "latest_loop isp [] acc = Inr acc"
| "latest_loop isp (r # rs) (latest, unkeyable) =
     bindR (jdict_of (case er_payload r of None \<Rightarrow> JDict [] | Some j \<Rightarrow> j)) (\<lambda>payload.
       case link_key payload r of
         None \<Rightarrow> latest_loop isp rs (latest, unkeyable + 1)
       | Some key \<Rightarrow>
           let ts = parse_ts isp (er_ts r);
               newer = (case dget latest key of None \<Rightarrow> True | Some prev \<Rightarrow> is_newer ts (er_id r) (lv_ts prev) (lv_rid prev));
               entry = \<lparr>lv_ts = ts, lv_rid = er_id r, lv_payload = payload, lv_target = er_target r, lv_article = er_article r\<rparr>
           in latest_loop isp rs (if newer then dput key entry latest else latest, unkeyable))"

definition latest_link_verdicts ::
  "iso_parser \<Rightarrow> event_row list \<Rightarrow> exn + (string, latest_verdict) dict \<times> nat" where
  "latest_link_verdicts isp rows = latest_loop isp (filter (\<lambda>r. er_kind r = ''link.rechecked'') rows) ([], 0)"

section \<open>The state of a target\<close>

type_synonym link_state = "pyfloat option \<times> int \<times> string \<times> json"

text \<open>What a row says of which link of which target: nothing if it is no usable recheck.\<close>

definition recheck_of :: "iso_parser \<Rightarrow> event_row \<Rightarrow> exn + ((string \<times> int) \<times> link_state) option" where
  "recheck_of isp r =
     (if er_kind r \<noteq> ''link.rechecked'' then Inr None
      else case (er_article r, er_target r, er_payload r) of
        (Some aid, Some tgt, Some j) \<Rightarrow>
          bindR (jdict_of j) (\<lambda>payload.
          bindR (in_names (jget payload ''verdict'') VERDICTS) (\<lambda>known.
            Inr (if \<not> known then None
                 else map_option (\<lambda>t. ((t, aid), parse_ts isp (er_ts r), er_id r,
                        (case jget payload ''verdict'' of JStr v \<Rightarrow> v | _ \<Rightarrow> []), jget payload ''platform''))
                      (canon_target (Some tgt)))))
      | _ \<Rightarrow> Inr None)"

definition newer_state :: "link_state \<Rightarrow> link_state \<Rightarrow> bool" where
  "newer_state s prev = is_newer (fst s) (fst (snd s)) (fst prev) (fst (snd prev))"

definition keep_newer :: "'k \<Rightarrow> link_state \<Rightarrow> ('k, link_state) dict \<Rightarrow> ('k, link_state) dict" where
  "keep_newer k s d =
     (if case dget d k of None \<Rightarrow> True | Some prev \<Rightarrow> newer_state s prev then dput k s d else d)"

text \<open>The rows that count, in order, and the latest state per target and article.\<close>

definition rechecks :: "iso_parser \<Rightarrow> event_row list \<Rightarrow> exn + ((string \<times> int) \<times> link_state) list" where
  "rechecks isp rows = bindR (mapR (recheck_of isp) rows) (\<lambda>rs. Inr (concat (map (\<lambda>x. case x of None \<Rightarrow> [] | Some y \<Rightarrow> [y]) rs)))"

definition latest_states :: "('k \<times> link_state) list \<Rightarrow> ('k, link_state) dict" where
  "latest_states rs = fold (\<lambda>(k, s). keep_newer k s) rs []"

record target_status =
  st_counts :: "(string, int) dict"
  st_total :: int
  st_last_verified :: "pyfloat option"
  st_alive_platforms :: "string list"

definition zero_counts :: "string list \<Rightarrow> (string, int) dict" where
  "zero_counts vs = map (\<lambda>v. (v, 0)) vs"

definition bump :: "string \<Rightarrow> (string, int) dict \<Rightarrow> (string, int) dict" where
  "bump v counts = dput v (dget_or counts v 0 + 1) counts"

definition alive_on :: "link_state \<Rightarrow> string list" where
  "alive_on s =
     (case s of (ts, rid, verdict, platform) \<Rightarrow>
        if verdict = ''alive'' then (case platform of JStr p \<Rightarrow> if p \<noteq> [] then [p] else [] | _ \<Rightarrow> []) else [])"

definition count_link :: "(string \<times> int) \<times> link_state \<Rightarrow> (string, target_status) dict \<Rightarrow> (string, target_status) dict" where
  "count_link x d =
     (case x of ((tgt, aid), s) \<Rightarrow>
        let e = dget_or d tgt \<lparr>st_counts = zero_counts VERDICTS, st_total = 0, st_last_verified = None, st_alive_platforms = []\<rparr>
        in dput tgt (e\<lparr>st_counts := bump (fst (snd (snd s))) (st_counts e), st_total := st_total e + 1,
                       st_alive_platforms := st_alive_platforms e @ alive_on s\<rparr>) d)"

definition finish_status ::
  "(string, link_state) dict \<Rightarrow> string \<Rightarrow> target_status \<Rightarrow> target_status" where
  "finish_status last_seen tgt e =
     e\<lparr>st_last_verified := (case dget last_seen tgt of None \<Rightarrow> None | Some s \<Rightarrow> fst s),
       st_alive_platforms := sort (remdups (st_alive_platforms e))\<rparr>"

definition derive_per_target_status :: "iso_parser \<Rightarrow> event_row list \<Rightarrow> exn + (string, target_status) dict" where
  "derive_per_target_status isp rows =
     bindR (rechecks isp rows) (\<lambda>rs.
       let latest = latest_states rs; last_seen = latest_states (map (\<lambda>((tgt, aid), s). (tgt, s)) rs)
       in Inr (map (\<lambda>(tgt, e). (tgt, finish_status last_seen tgt e)) (fold count_link latest [])))"

definition STRIP_VERDICTS :: "string list" where
  "STRIP_VERDICTS = [''link_stripped'', ''host_gone'', ''dofollow_lost'']"

definition derive_strip_counts_by_platform :: "iso_parser \<Rightarrow> event_row list \<Rightarrow> exn + (json, (string, int) dict) dict" where
  "derive_strip_counts_by_platform isp rows =
     bindR (rechecks isp rows) (\<lambda>rs.
       Inr (fold (\<lambda>(k, ts, rid, verdict, platform) d.
              if verdict \<in> set STRIP_VERDICTS
              then dput platform (bump verdict (dget_or d platform (zero_counts STRIP_VERDICTS))) d else d)
            (latest_states rs) []))"

text \<open>The counts of the dashboard: by article alone, and the first of two rows of one instant counts.\<close>

definition decay_of :: "iso_parser \<Rightarrow> event_row \<Rightarrow> exn + (int \<times> pyfloat option \<times> string) option" where
  "decay_of isp r =
     (if er_kind r \<noteq> ''link.rechecked'' then Inr None
      else case (er_article r, er_payload r) of
        (Some aid, Some j) \<Rightarrow>
          bindR (jdict_of j) (\<lambda>payload.
          bindR (in_names (jget payload ''verdict'') VERDICTS) (\<lambda>known.
            Inr (if known then Some (aid, parse_ts isp (er_ts r), case jget payload ''verdict'' of JStr v \<Rightarrow> v | _ \<Rightarrow> []) else None)))
      | _ \<Rightarrow> Inr None)"

definition keep_later ::
  "int \<times> pyfloat option \<times> string \<Rightarrow> (int, pyfloat option \<times> string) dict \<Rightarrow> (int, pyfloat option \<times> string) dict" where
  "keep_later x d =
     (case x of (aid, ts, verdict) \<Rightarrow>
        if (case dget d aid of
              None \<Rightarrow> True
            | Some prev \<Rightarrow> (case ts of None \<Rightarrow> False | Some t \<Rightarrow> (case fst prev of None \<Rightarrow> True | Some p \<Rightarrow> t > p)))
        then dput aid (ts, verdict) d else d)"

definition derive_decay_counts :: "iso_parser \<Rightarrow> event_row list \<Rightarrow> exn + (string, int) dict" where
  "derive_decay_counts isp rows =
     bindR (mapR (decay_of isp) rows) (\<lambda>rs.
       let latest = fold (\<lambda>x d. case x of None \<Rightarrow> d | Some y \<Rightarrow> keep_later y d) rs []
       in Inr (fold (\<lambda>(aid, ts, verdict). bump verdict) latest (zero_counts VERDICTS)))"

section \<open>The links that are due\<close>

text \<open>A naive \<open>datetime\<close> (seconds on the local clock) or an aware one (an instant); an instant is never
  subtracted from a naive one.\<close>

datatype dtime = Naive pyfloat | Aware pyfloat

fun since_instant :: "dtime \<Rightarrow> pyfloat \<Rightarrow> exn + pyfloat" where
  "since_instant (Aware t) x = Inr (t - x)"
| "since_instant (Naive t) x = Inl (mkexn TypeErr ''can't subtract offset-naive and offset-aware datetimes'')"

definition day :: pyfloat where "day = 86400"

definition DEFAULT_DAYS :: nat where "DEFAULT_DAYS = 14"
definition DEFAULT_CAP :: nat where "DEFAULT_CAP = 50"
definition DEFAULT_MIN_RETRY_DAYS :: nat where "DEFAULT_MIN_RETRY_DAYS = 1"
definition DEFAULT_UNVERIFIED_CAP :: nat where "DEFAULT_UNVERIFIED_CAP = 20"
definition DEFAULT_UNVERIFIED_MIN_RETRY_DAYS :: nat where "DEFAULT_UNVERIFIED_MIN_RETRY_DAYS = 7"

record select_opts =
  so_since :: "pyfloat option"
  so_host :: "string option"
  so_run_id :: "string option"

definition no_opts :: select_opts where
  "no_opts = \<lparr>so_since = None, so_host = None, so_run_id = None\<rparr>"

text \<open>A filter of the query counts when it is a non-empty string; rows come in the order of \<open>ts_utc\<close>.\<close>

definition wanted :: "string option \<Rightarrow> string option \<Rightarrow> bool" where
  "wanted f v \<longleftrightarrow> (case f of None \<Rightarrow> True | Some x \<Rightarrow> x = [] \<or> v = Some x)"

definition published_rows :: "string \<Rightarrow> select_opts \<Rightarrow> event_row list \<Rightarrow> event_row list" where
  "published_rows kind so rows =
     sort_key er_ts (filter (\<lambda>r. er_kind r = kind \<and> wanted (so_host so) (er_host r) \<and> wanted (so_run_id so) (er_run r)) rows)"

record placement =
  pl_live_url :: json
  pl_target :: "json"
  pl_host :: "string option"
  pl_platform :: json
  pl_published :: "pyfloat option"

definition opt_json :: "string option \<Rightarrow> json" where
  "opt_json x = (case x of None \<Rightarrow> JNull | Some s \<Rightarrow> JStr s)"

definition payload_of :: "event_row \<Rightarrow> exn + jdict" where
  "payload_of r = jdict_of (case er_payload r of None \<Rightarrow> JDict [] | Some j \<Rightarrow> j)"

definition too_old :: "select_opts \<Rightarrow> pyfloat option \<Rightarrow> bool" where
  "too_old so published \<longleftrightarrow> (case (so_since so, published) of (Some s, Some p) \<Rightarrow> p < s | _ \<Rightarrow> False)"

fun confirmed_loop ::
  "iso_parser \<Rightarrow> select_opts \<Rightarrow> event_row list \<Rightarrow> (int, placement) dict \<Rightarrow> exn + (int, placement) dict" where
  "confirmed_loop isp so [] u = Inr u"
| "confirmed_loop isp so (r # rs) u =
     bindR (payload_of r) (\<lambda>payload.
       let live_url = jget payload ''live_url''; published = parse_ts isp (er_ts r) in
       confirmed_loop isp so rs
         (case er_article r of
            None \<Rightarrow> u
          | Some aid \<Rightarrow>
              if \<not> truthy live_url \<or> too_old so published then u
              else dput aid \<lparr>pl_live_url = live_url, pl_target = opt_json (er_target r), pl_host = er_host r,
                     pl_platform = jget payload ''platform'', pl_published = published\<rparr> u))"

definition confirmed_universe ::
  "iso_parser \<Rightarrow> select_opts \<Rightarrow> event_row list \<Rightarrow> exn + (int, placement) dict" where
  "confirmed_universe isp so rows =
     confirmed_loop isp so (filter (\<lambda>r. er_article r \<noteq> None) (published_rows ''publish.confirmed'' so rows)) []"

text \<open>The cursors of an article: its last definitive check and its last attempt.\<close>

definition later :: "pyfloat option \<Rightarrow> pyfloat \<Rightarrow> pyfloat option" where
  "later cur ts = (case cur of None \<Rightarrow> Some ts | Some c \<Rightarrow> if ts > c then Some ts else Some c)"

definition cursor_verdict :: "event_row \<Rightarrow> exn + json" where
  "cursor_verdict r =
     (case er_payload r of None \<Rightarrow> Inr JNull | Some j \<Rightarrow> bindR (jdict_of j) (\<lambda>payload. Inr (jget payload ''verdict'')))"

fun cursors_loop ::
  "iso_parser \<Rightarrow> event_row list \<Rightarrow> (int, pyfloat option \<times> pyfloat option) dict \<Rightarrow>
   exn + (int, pyfloat option \<times> pyfloat option) dict" where
  "cursors_loop isp [] d = Inr d"
| "cursors_loop isp (r # rs) d =
     (case (er_kind r = ''link.rechecked'', er_article r, parse_ts isp (er_ts r)) of
        (True, Some aid, Some ts) \<Rightarrow>
          bindR (cursor_verdict r) (\<lambda>verdict.
          bindR (advances_age_cursor verdict) (\<lambda>definitive.
            let (last_def, last_att) = dget_or d aid (None, None)
            in cursors_loop isp rs (dput aid (if definitive then later last_def ts else last_def, later last_att ts) d)))
      | _ \<Rightarrow> cursors_loop isp rs d)"

definition recheck_cursors ::
  "iso_parser \<Rightarrow> event_row list \<Rightarrow> exn + (int, pyfloat option \<times> pyfloat option) dict" where
  "recheck_cursors isp rows = cursors_loop isp rows []"

text \<open>Baseline anchors: the texts of an article's links by URL; \<open>None\<close> where a URL is unhashable.\<close>

fun anchor_map :: "json list \<Rightarrow> (json, json) dict \<Rightarrow> exn + (json, json) dict" where
  "anchor_map [] d = Inr d"
| "anchor_map (JDict a # as) d =
     (if truthy (jget a ''url'') \<and> truthy (jget a ''anchor'')
      then if hashable (jget a ''url'') then anchor_map as (dput (jget a ''url'') (jget a ''anchor'') d)
           else Inl (mkexn TypeErr ''unhashable type'')
      else anchor_map as d)"
| "anchor_map (_ # as) d = anchor_map as d"

fun anchor_baselines :: "article_row list \<Rightarrow> exn + (int, (json, json) dict) dict" where
  "anchor_baselines [] = Inr []"
| "anchor_baselines (a # as) =
     bindR (case ar_anchors a of Some (JList xs) \<Rightarrow> anchor_map xs [] | _ \<Rightarrow> Inr []) (\<lambda>m.
     bindR (anchor_baselines as) (\<lambda>d. Inr (if m = [] \<or> dget d (ar_id a) \<noteq> None then d else (ar_id a, m) # d)))"

text \<open>The text of the first URL that canonicalises like the target; an exception on the way gives none.\<close>

fun first_canonical :: "string \<Rightarrow> (json, json) dict \<Rightarrow> json" where
  "first_canonical canon [] = JNull"
| "first_canonical canon ((JStr u, atext) # m) =
     (case canonicalize_url u of
        Inl e \<Rightarrow> JNull
      | Inr c \<Rightarrow> if c = canon then atext else first_canonical canon m)"
| "first_canonical canon ((j, atext) # m) = JNull"

definition baseline_for :: "(int, (json, json) dict) dict \<Rightarrow> int \<Rightarrow> json \<Rightarrow> json" where
  "baseline_for baselines aid tgt =
     (case (dget baselines aid, tgt) of
        (Some m, JStr t) \<Rightarrow>
          if m = [] \<or> t = [] then JNull
          else (case dget m (JStr t) of
                  Some a \<Rightarrow> a
                | None \<Rightarrow> (case canonicalize_url t of Inl e \<Rightarrow> JNull | Inr canon \<Rightarrow> first_canonical canon m))
      | _ \<Rightarrow> JNull)"

record candidate =
  ca_article :: int
  ca_placement :: placement
  ca_baseline :: json
  ca_age_days :: "int option"
  ca_last_definitive :: "pyfloat option"

text \<open>\<open>x is not None and (now - x) <= d\<close>, and \<open>(now - x).days if x else None\<close>.\<close>

definition within_days :: "dtime \<Rightarrow> nat \<Rightarrow> pyfloat option \<Rightarrow> exn + bool" where
  "within_days now n x =
     (case x of None \<Rightarrow> Inr False | Some t \<Rightarrow> bindR (since_instant now t) (\<lambda>d. Inr (d \<le> of_nat n * day)))"

definition age_days :: "dtime \<Rightarrow> pyfloat option \<Rightarrow> exn + int option" where
  "age_days now x =
     (case x of None \<Rightarrow> Inr None | Some t \<Rightarrow> bindR (since_instant now t) (\<lambda>d. Inr (Some \<lfloor>d / day\<rfloor>)))"

definition candidate_of ::
  "dtime \<Rightarrow> (int, (json, json) dict) dict \<Rightarrow> pyfloat option \<Rightarrow> int \<times> placement \<Rightarrow> exn + candidate list" where
  "candidate_of now baselines last_def x =
     (case x of (aid, info) \<Rightarrow>
        bindR (age_days now (pl_published info)) (\<lambda>age.
          Inr [\<lparr>ca_article = aid, ca_placement = info, ca_baseline = baseline_for baselines aid (pl_target info),
                ca_age_days = age, ca_last_definitive = last_def\<rparr>]))"

definition due ::
  "dtime \<Rightarrow> nat \<Rightarrow> nat \<Rightarrow> (int, pyfloat option \<times> pyfloat option) dict \<Rightarrow> (int, (json, json) dict) dict \<Rightarrow>
   int \<times> placement \<Rightarrow> exn + candidate list" where
  "due now days min_retry cursors baselines x =
     (let (last_def, last_att) = dget_or cursors (fst x) (None, None) in
      bindR (within_days now days last_def) (\<lambda>fresh.
        if fresh then Inr []
        else bindR (within_days now min_retry last_att) (\<lambda>tried.
          if tried then Inr [] else candidate_of now baselines last_def x)))"

text \<open>The instants of a sort key, \<open>_EPOCH\<close> the least of them.\<close>

definition instant_key :: "pyfloat option \<Rightarrow> bool \<times> pyfloat" where
  "instant_key x = (case x of None \<Rightarrow> (False, 0) | Some t \<Rightarrow> (True, t))"

definition age_key :: "candidate \<Rightarrow> bool \<times> (bool \<times> pyfloat) \<times> (bool \<times> pyfloat)" where
  "age_key c =
     (let published = pl_published (ca_placement c) in
      (ca_last_definitive c \<noteq> None,
       instant_key (case ca_last_definitive c of Some t \<Rightarrow> Some t | None \<Rightarrow> published), instant_key published))"

definition select_candidates ::
  "iso_parser \<Rightarrow> event_row list \<Rightarrow> article_row list \<Rightarrow> dtime \<Rightarrow> nat \<Rightarrow> nat \<Rightarrow> nat \<Rightarrow> select_opts \<Rightarrow> nat option \<Rightarrow>
   exn + candidate list" where
  "select_candidates isp rows articles now days cap min_retry so limit =
     bindR (confirmed_universe isp so rows) (\<lambda>universe.
     bindR (recheck_cursors isp rows) (\<lambda>cursors.
     bindR (anchor_baselines articles) (\<lambda>baselines.
     bindR (concatR (map (due now days min_retry cursors baselines) universe)) (\<lambda>candidates.
       Inr (take (case limit of None \<Rightarrow> cap | Some n \<Rightarrow> n) (sort_key age_key candidates))))))"

section \<open>Unverified links\<close>

definition is_http_url :: "json \<Rightarrow> bool" where
  "is_http_url j =
     (case j of JStr u \<Rightarrow> u \<noteq> [] \<and> (case urlsplit u of Inl e \<Rightarrow> False | Inr p \<Rightarrow> u_scheme p \<in> {''http'', ''https''}) | _ \<Rightarrow> False)"

definition host_of :: "string \<Rightarrow> string option" where
  "host_of u = (case urlsplit u of Inl e \<Rightarrow> None | Inr p \<Rightarrow> if u_netloc p = [] then None else Some (u_netloc p))"

text \<open>The article of a row, found by its live URL if the row names none; the last article of a URL counts.\<close>

definition article_of :: "article_row list \<Rightarrow> event_row \<Rightarrow> json \<Rightarrow> int option" where
  "article_of articles r live_url =
     (case er_article r of
        Some aid \<Rightarrow> Some aid
      | None \<Rightarrow>
          (case live_url of
             JStr u \<Rightarrow> dget (rev (map (\<lambda>a. (ar_live_url a, ar_id a)) articles)) (Some u)
           | _ \<Rightarrow> None))"

fun unverified_loop ::
  "iso_parser \<Rightarrow> select_opts \<Rightarrow> article_row list \<Rightarrow> event_row list \<Rightarrow> (int, placement) dict \<Rightarrow> exn + (int, placement) dict" where
  "unverified_loop isp so articles [] u = Inr u"
| "unverified_loop isp so articles (r # rs) u =
     bindR (payload_of r) (\<lambda>payload.
       let live_url = jget payload ''live_url''; published = parse_ts isp (er_ts r);
           tgt = (case er_target r of Some t \<Rightarrow> if t \<noteq> [] then JStr t else jget payload ''target_url'' | None \<Rightarrow> jget payload ''target_url'');
           host = (case er_host r of Some h \<Rightarrow> if h \<noteq> [] then Some h else (case live_url of JStr l \<Rightarrow> host_of l | _ \<Rightarrow> None)
                                   | None \<Rightarrow> (case live_url of JStr l \<Rightarrow> host_of l | _ \<Rightarrow> None)) in
       unverified_loop isp so articles rs
         (if \<not> truthy live_url \<or> too_old so published then u
          else case article_of articles r live_url of
                 None \<Rightarrow> u
               | Some aid \<Rightarrow> dput aid \<lparr>pl_live_url = live_url, pl_target = tgt, pl_host = host,
                                 pl_platform = jget payload ''platform'', pl_published = published\<rparr> u))"

definition unverified_universe ::
  "iso_parser \<Rightarrow> select_opts \<Rightarrow> event_row list \<Rightarrow> article_row list \<Rightarrow> exn + (int, placement) dict" where
  "unverified_universe isp so rows articles =
     unverified_loop isp so articles (published_rows ''publish.unverified'' so rows) []"

text \<open>Here a naive clock is read as UTC.\<close>

definition as_utc :: "dtime \<Rightarrow> dtime" where
  "as_utc now = (case now of Naive t \<Rightarrow> Aware t | Aware t \<Rightarrow> Aware t)"

definition due_unverified ::
  "dtime \<Rightarrow> nat \<Rightarrow> (int, pyfloat option \<times> pyfloat option) dict \<Rightarrow> (int, (json, json) dict) dict \<Rightarrow>
   int \<times> placement \<Rightarrow> exn + candidate list" where
  "due_unverified now min_retry cursors baselines x =
     bindR (within_days now min_retry (snd (dget_or cursors (fst x) (None, None)))) (\<lambda>tried.
       if tried then Inr [] else candidate_of now baselines None x)"

definition select_unverified_candidates ::
  "iso_parser \<Rightarrow> event_row list \<Rightarrow> article_row list \<Rightarrow> dtime \<Rightarrow> nat \<Rightarrow> nat \<Rightarrow> select_opts \<Rightarrow> exn + candidate list" where
  "select_unverified_candidates isp rows articles now cap min_retry so =
     bindR (unverified_universe isp so rows articles) (\<lambda>universe.
     bindR (recheck_cursors isp rows) (\<lambda>cursors.
     bindR (anchor_baselines articles) (\<lambda>baselines.
     bindR (concatR (map (due_unverified (as_utc now) min_retry cursors baselines) universe)) (\<lambda>candidates.
       Inr (take cap (sort_key (\<lambda>c. instant_key (pl_published (ca_placement c))) candidates))))))"

end
