(* ===== verification/Gap.thy ===== *)
theory Gap
  imports Recheck Routing
begin

text \<open>
  The gap engines (\<open>gap/engine.py\<close>): which targets lack links, and the seeds that fill them. \<open>plan_gap\<close>
  works from the ledger of links, \<open>plan_keepalive_gap\<close> from the status of rechecked targets. A naive stamp
  is read on the local clock, so \<open>e_iso\<close> of the environment is its instant; \<open>(now - dt).days\<close> is their
  distance in whole days, on a clock without summer time. Dicts of a run are typed where the program
  builds them itself: seeds, counts and target statuses; ledger rows are JSON objects.
\<close>

section \<open>Options and counts\<close>

record gap_options =
  go_desired :: int
  go_language :: string
  go_url_mode :: string
  go_publish_mode :: string
  go_desired_map :: "(string, int) dict"
  go_emit_stale :: bool
  go_include_failed :: bool
  go_stale_after_days :: "int option"

definition gap_defaults :: "int \<Rightarrow> string \<Rightarrow> gap_options" where
  "gap_defaults desired language =
     \<lparr>go_desired = desired, go_language = language, go_url_mode = ''A'', go_publish_mode = ''draft'', go_desired_map = [],
      go_emit_stale = False, go_include_failed = False, go_stale_after_days = None\<rparr>"

record gap_counts =
  gc_satisfied :: nat
  gc_suppressed_stale :: nat
  gc_suppressed_unverified :: nat
  gc_suppressed_stale_floor :: nat
  gc_failed :: nat
  gc_unknown_liveness :: nat
  gc_malformed :: nat
  gc_channel_exhausted :: nat
  gc_channel_exhausted_targets :: "string list"

definition no_counts :: gap_counts where
  "no_counts = \<lparr>gc_satisfied = 0, gc_suppressed_stale = 0, gc_suppressed_unverified = 0, gc_suppressed_stale_floor = 0,
     gc_failed = 0, gc_unknown_liveness = 0, gc_malformed = 0, gc_channel_exhausted = 0, gc_channel_exhausted_targets = []\<rparr>"

record seed_row =
  sd_target_url :: string
  sd_platform :: string
  sd_main_domain :: string
  sd_language :: string
  sd_url_mode :: string
  sd_publish_mode :: string

definition KNOWN_LIVENESS :: "string list" where
  "KNOWN_LIVENESS = [''live'', ''stale'', ''failed'', ''unverified'']"

definition active_dofollow_platforms :: "platforms \<Rightarrow> string list" where
  "active_dofollow_platforms reg =
     filter (\<lambda>p. case dget reg p of None \<Rightarrow> False | Some e \<Rightarrow> re_dofollow e = DoTrue) (active_platforms reg)"

definition derive_main_domain :: "string \<Rightarrow> exn + string" where
  "derive_main_domain url =
     bindR (urlsplit url) (\<lambda>p.
       Inr (if u_scheme p \<noteq> [] \<and> u_netloc p \<noteq> [] then u_scheme p @ ''://'' @ u_netloc p else url))"

section \<open>From the ledger\<close>

definition coerce_live_dofollow :: "json \<Rightarrow> int" where
  "coerce_live_dofollow v = (case v of JInt n \<Rightarrow> max 0 n | _ \<Rightarrow> 0)"

definition verified_older_than :: "env \<Rightarrow> json \<Rightarrow> int \<Rightarrow> bool" where
  "verified_older_than env verified_at days =
     (case verified_at of
        JStr s \<Rightarrow> if s = [] then True
                 else (case e_iso env s of None \<Rightarrow> True | Some t \<Rightarrow> \<lfloor>(e_now env - t) / day\<rfloor> > days)
      | _ \<Rightarrow> True)"

text \<open>Why a row is held back, if it is.\<close>

datatype suppression = UnknownLiveness | Failed | SuppressedStale | SuppressedUnverified | StaleFloor

definition row_suppressed :: "env \<Rightarrow> json \<Rightarrow> int \<Rightarrow> json \<Rightarrow> gap_options \<Rightarrow> exn + suppression option" where
  "row_suppressed env liveness live_dofollow verified_at opts =
     bindR (in_names liveness KNOWN_LIVENESS) (\<lambda>known.
       Inr (if \<not> known then Some UnknownLiveness
            else if liveness = JStr ''failed'' \<and> \<not> go_include_failed opts then Some Failed
            else if liveness = JStr ''stale'' \<and> live_dofollow = 0 \<and> \<not> go_emit_stale opts then Some SuppressedStale
            else if liveness = JStr ''unverified'' \<and> live_dofollow = 0 \<and> \<not> go_emit_stale opts then Some SuppressedUnverified
            else if (case go_stale_after_days opts of None \<Rightarrow> False | Some days \<Rightarrow>
                       \<not> go_emit_stale opts \<and> verified_older_than env verified_at days) then Some StaleFloor
            else None))"

fun tally :: "suppression \<Rightarrow> gap_counts \<Rightarrow> gap_counts" where
  "tally UnknownLiveness c = c\<lparr>gc_unknown_liveness := gc_unknown_liveness c + 1\<rparr>"
| "tally Failed c = c\<lparr>gc_failed := gc_failed c + 1\<rparr>"
| "tally SuppressedStale c = c\<lparr>gc_suppressed_stale := gc_suppressed_stale c + 1\<rparr>"
| "tally SuppressedUnverified c = c\<lparr>gc_suppressed_unverified := gc_suppressed_unverified c + 1\<rparr>"
| "tally StaleFloor c = c\<lparr>gc_suppressed_stale_floor := gc_suppressed_stale_floor c + 1\<rparr>"

definition mk_seed :: "gap_options \<Rightarrow> string \<Rightarrow> string \<Rightarrow> string \<Rightarrow> seed_row" where
  "mk_seed opts tgt main_domain platform =
     \<lparr>sd_target_url = tgt, sd_platform = platform, sd_main_domain = main_domain, sd_language = go_language opts,
      sd_url_mode = go_url_mode opts, sd_publish_mode = go_publish_mode opts\<rparr>"

text \<open>\<open>set(x or [])\<close>: the items of a loop over the value, which must be hashable.\<close>

definition json_set :: "json \<Rightarrow> exn + json list" where
  "json_set j =
     (if \<not> truthy j then Inr []
      else bindR (iter_json j) (\<lambda>xs. if list_all hashable xs then Inr xs else Inl (mkexn TypeErr ''unhashable type'')))"

text \<open>The seeds of one target and whether its channels are exhausted.\<close>

definition fan_out_target ::
  "string \<Rightarrow> int \<Rightarrow> string list \<Rightarrow> jdict \<Rightarrow> gap_options \<Rightarrow> exn + seed_row list \<times> bool" where
  "fan_out_target tgt deficit universe row opts =
     bindR (json_set (jget row ''live_dofollow_platforms'')) (\<lambda>live.
       let candidates = filter (\<lambda>p. JStr p \<notin> set live) universe; emitted = take (nat deficit) candidates in
       bindR (if emitted \<noteq> [] then derive_main_domain tgt else Inr []) (\<lambda>main_domain.
         Inr (map (mk_seed opts tgt main_domain) emitted, deficit > int (length candidates))))"

definition exhaust :: "string \<Rightarrow> bool \<Rightarrow> gap_counts \<Rightarrow> gap_counts" where
  "exhaust tgt b c =
     (if b then c\<lparr>gc_channel_exhausted := gc_channel_exhausted c + 1,
                  gc_channel_exhausted_targets := gc_channel_exhausted_targets c @ [tgt]\<rparr> else c)"

definition target_of :: "jdict \<Rightarrow> string option" where
  "target_of row = (case jget row ''target_url'' of JStr t \<Rightarrow> if t = [] then None else Some t | _ \<Rightarrow> None)"

definition deficit_of :: "gap_options \<Rightarrow> string \<Rightarrow> jdict \<Rightarrow> int" where
  "deficit_of opts tgt row =
     max 0 (dget_or (go_desired_map opts) tgt (go_desired opts) - coerce_live_dofollow (jget row ''live_dofollow''))"

definition gap_row ::
  "env \<Rightarrow> string list \<Rightarrow> gap_options \<Rightarrow> jdict \<Rightarrow> gap_counts \<Rightarrow> exn + seed_row list \<times> gap_counts" where
  "gap_row env universe opts row c =
     (case target_of row of
        None \<Rightarrow> Inr ([], c\<lparr>gc_malformed := gc_malformed c + 1\<rparr>)
      | Some tgt \<Rightarrow>
          bindR (row_suppressed env (jget_or row ''liveness'' (JStr ''unverified''))
                   (coerce_live_dofollow (jget row ''live_dofollow'')) (jget row ''liveness_verified_at'') opts) (\<lambda>reason.
          case reason of
            Some r \<Rightarrow> Inr ([], tally r c)
          | None \<Rightarrow>
              if deficit_of opts tgt row = 0 then Inr ([], c\<lparr>gc_satisfied := gc_satisfied c + 1\<rparr>)
              else bindR (fan_out_target tgt (deficit_of opts tgt row) universe row opts) (\<lambda>(seeds, out).
                Inr (seeds, exhaust tgt out c))))"

definition newest_stamp :: "jdict \<Rightarrow> string option \<Rightarrow> string option" where
  "newest_stamp row as_of =
     (case (target_of row, jget row ''liveness_verified_at'') of
        (Some tgt, JStr v) \<Rightarrow> (case as_of of None \<Rightarrow> Some v | Some a \<Rightarrow> if a < v then Some v else as_of)
      | _ \<Rightarrow> as_of)"

fun plan_gap_loop ::
  "env \<Rightarrow> string list \<Rightarrow> gap_options \<Rightarrow> jdict list \<Rightarrow> seed_row list \<times> gap_counts \<times> string option \<Rightarrow>
   exn + seed_row list \<times> gap_counts \<times> string option" where
  "plan_gap_loop env universe opts [] acc = Inr acc"
| "plan_gap_loop env universe opts (row # rows) (seeds, c, as_of) =
     bindR (gap_row env universe opts row c) (\<lambda>(new, c').
       plan_gap_loop env universe opts rows (seeds @ new, c', newest_stamp row as_of))"

definition plan_gap ::
  "env \<Rightarrow> string list \<Rightarrow> jdict list \<Rightarrow> gap_options \<Rightarrow> exn + seed_row list \<times> gap_counts \<times> string option" where
  "plan_gap env universe rows opts = plan_gap_loop env universe opts rows ([], no_counts, None)"

section \<open>From the rechecks\<close>

definition KEEPALIVE_STICKY_PLATFORMS :: "string list" where
  "KEEPALIVE_STICKY_PLATFORMS = [''blogger'', ''ghpages'']"

definition KEEPALIVE_EXCLUDED_HOSTS :: "string list" where
  "KEEPALIVE_EXCLUDED_HOSTS = [''example.com'']"

record keepalive_gap =
  kg_target_url :: string
  kg_stripped :: nat
  kg_emitted_platforms :: "string list"
  kg_channel_exhausted :: bool

definition stripped_of :: "target_status \<Rightarrow> nat" where
  "stripped_of st = nat (dget_or (st_counts st) ''link_stripped'' 0 + dget_or (st_counts st) ''host_gone'' 0)"

definition cycled :: "nat \<Rightarrow> string list \<Rightarrow> string list" where
  "cycled n ps = (if ps = [] then [] else map (\<lambda>i. ps ! (i mod length ps)) [0..<n])"

definition keepalive_row ::
  "(string, target_status) dict \<Rightarrow> gap_options \<Rightarrow> string list \<Rightarrow> string list \<Rightarrow> jdict \<Rightarrow>
   exn + (seed_row list \<times> keepalive_gap) option" where
  "keepalive_row status opts sticky exclude row =
     (case target_of row of
        None \<Rightarrow> Inr None
      | Some tgt \<Rightarrow>
          bindR (urlsplit tgt) (\<lambda>parts.
            if lower (opt_str (url_hostname parts)) \<in> set exclude then Inr None
            else case canonicalize_url tgt of
              Inl e \<Rightarrow> Inr None
            | Inr canon \<Rightarrow>
                (case dget status canon of
                   None \<Rightarrow> Inr None
                 | Some st \<Rightarrow>
                     if stripped_of st = 0 then Inr None
                     else if set (st_alive_platforms st) \<inter> set sticky \<noteq> {} then Inr None
                     else let avail = filter (\<lambda>p. p \<notin> set (st_alive_platforms st)) sticky;
                              emitted = cycled (stripped_of st) avail in
                       bindR (derive_main_domain tgt) (\<lambda>main_domain.
                         Inr (Some (map (mk_seed opts tgt main_domain) emitted,
                                    \<lparr>kg_target_url = tgt, kg_stripped = stripped_of st, kg_emitted_platforms = emitted,
                                     kg_channel_exhausted = (avail = [])\<rparr>))))))"

definition plan_keepalive_gap ::
  "jdict list \<Rightarrow> (string, target_status) dict \<Rightarrow> gap_options \<Rightarrow> string list \<Rightarrow> string list \<Rightarrow>
   exn + seed_row list \<times> keepalive_gap list" where
  "plan_keepalive_gap rows status opts sticky exclude =
     bindR (mapR (keepalive_row status opts sticky exclude) rows) (\<lambda>rs.
       let found = concat (map (\<lambda>x. case x of None \<Rightarrow> [] | Some y \<Rightarrow> [y]) rs)
       in Inr (concat (map fst found), map snd found))"

end
