(* ===== verification/Keepalive.thy ===== *)
theory Keepalive
  imports Gap Circuit
begin

text \<open>
  The keep-alive loop (\<open>keepalive/chain.py\<close>) and the store of its retries (\<open>keepalive/run_state.py\<close>):
  recheck the published links, find the targets with dead ones, publish replacements, probe those, and
  feed the verdicts back to the weights. The dependencies the chain takes as arguments are functions on
  a store of their own type; \<open>kw_save\<close> is what the atomic write of the run state raises, if it does,
  and \<open>kd_clock n\<close> the performance counter before the \<open>n\<close>-th probe.
\<close>

section \<open>The run state\<close>

record 's keep_world =
  kw_state :: json_file
  kw_save :: "exn option"
  kw_opt :: opt_world
  kw_store :: 's

definition DEFAULT_MAX_RETRY :: int where "DEFAULT_MAX_RETRY = 3"

definition max_retry :: "env \<Rightarrow> int" where
  "max_retry env =
     (case getenv env ''KEEPALIVE_MAX_RETRY'' of
        None \<Rightarrow> max 1 DEFAULT_MAX_RETRY
      | Some s \<Rightarrow> (case int_of_str s of None \<Rightarrow> DEFAULT_MAX_RETRY | Some n \<Rightarrow> max 1 n))"

definition default_run_state :: jdict where
  "default_run_state =
     [(''version'', JInt 1), (''last_run_at'', JNull), (''last_cycle_summary'', JDict []), (''retry_counts'', JDict [])]"

definition run_state_load :: "json_file \<Rightarrow> exn + json" where
  "run_state_load f =
     (case f of
        FAbsent \<Rightarrow> Inr (JDict default_run_state)
      | FBad e \<Rightarrow> if isinst e JSONDecodeError \<or> isinst e OSErr then Inr (JDict default_run_state) else Inl e
      | FJson j \<Rightarrow> bindR (has_version j) (\<lambda>b. Inr (if b then j else JDict default_run_state)))"

definition run_state_save :: "json \<Rightarrow> 's keep_world \<Rightarrow> (exn + unit) \<times> 's keep_world" where
  "run_state_save state w =
     (case kw_save w of Some e \<Rightarrow> (Inl e, w) | None \<Rightarrow> (Inr (), w\<lparr>kw_state := FJson state\<rparr>))"

definition retry_entry :: "jdict \<Rightarrow> string \<Rightarrow> exn + jdict" where
  "retry_entry data tgt =
     bindR (jdict_of (jget_or data ''retry_counts'' (JDict []))) (\<lambda>counts.
       jdict_of (jget_or counts tgt (JDict [])))"

definition is_exhausted :: "env \<Rightarrow> string \<Rightarrow> json_file \<Rightarrow> exn + bool" where
  "is_exhausted env tgt f =
     bindR (run_state_load f) (\<lambda>j.
     bindR (jdict_of j) (\<lambda>data.
     bindR (retry_entry data tgt) (\<lambda>entry.
     bindR (py_int (jget_or entry ''attempts'' (JInt 0))) (\<lambda>n. Inr (n \<ge> max_retry env)))))"

text \<open>\<open>x in value\<close> for a string \<open>x\<close>.\<close>

fun str_in :: "string \<Rightarrow> json \<Rightarrow> exn + bool" where
  "str_in s (JList xs) = Inr (JStr s \<in> set xs)"
| "str_in s (JDict d) = Inr (dget d s \<noteq> None)"
| "str_in s (JStr t) = Inr (contains s t)"
| "str_in s _ = Inl (mkexn TypeErr ''argument is not iterable'')"

definition COUNTED_OUTCOMES :: "string list" where
  "COUNTED_OUTCOMES = [''link_stripped'', ''host_gone'', ''reverify_dead'', ''publish_failed'']"

definition fresh_entry :: jdict where
  "fresh_entry = [(''attempts'', JInt 0), (''last_attempt_at'', JNull), (''platforms_tried'', JList []), (''last_outcome'', JNull)]"

definition note_platform :: "string \<Rightarrow> jdict \<Rightarrow> exn + jdict" where
  "note_platform platform entry =
     bindR (str_in platform (jget_or entry ''platforms_tried'' (JList []))) (\<lambda>known.
       if known then Inr entry
       else case jget_or entry ''platforms_tried'' (JList []) of
              JList ps \<Rightarrow> Inr (dput ''platforms_tried'' (JList (ps @ [JStr platform])) entry)
            | _ \<Rightarrow> Inl (mkexn AttributeErr ''append''))"

definition attempt_entry :: "string \<Rightarrow> string \<Rightarrow> string \<Rightarrow> jdict \<Rightarrow> exn + jdict" where
  "attempt_entry ts platform outcome entry =
     bindR (note_platform platform (dput ''last_outcome'' (JStr outcome) (dput ''last_attempt_at'' (JStr ts) entry))) (\<lambda>entry.
       if outcome \<in> set COUNTED_OUTCOMES
       then bindR (jsucc (jget_or entry ''attempts'' (JInt 0))) (\<lambda>n. Inr (dput ''attempts'' n entry))
       else Inr entry)"

definition attempted_data :: "string \<Rightarrow> string \<Rightarrow> string \<Rightarrow> string \<Rightarrow> jdict \<Rightarrow> exn + jdict" where
  "attempted_data ts tgt platform outcome data0 =
     (let data = setdefault ''retry_counts'' (JDict []) data0 in
      bindR (jdict_of (jget data ''retry_counts'')) (\<lambda>counts0.
        let counts = setdefault tgt (JDict fresh_entry) counts0 in
        case jget counts tgt of
          JDict entry \<Rightarrow>
            bindR (attempt_entry ts platform outcome entry) (\<lambda>entry.
              Inr (dput ''retry_counts'' (JDict (dput tgt (JDict entry) counts)) data))
        | _ \<Rightarrow> Inl (mkexn TypeErr ''item assignment'')))"

definition record_attempt :: "env \<Rightarrow> string \<Rightarrow> string \<Rightarrow> string \<Rightarrow> 's keep_world \<Rightarrow> (exn + unit) \<times> 's keep_world" where
  "record_attempt env tgt platform outcome w =
     (case bindR (run_state_load (kw_state w)) (\<lambda>j. bindR (jdict_of j) (attempted_data (now_iso env) tgt platform outcome)) of
        Inl e \<Rightarrow> (Inl e, w)
      | Inr data \<Rightarrow> run_state_save (JDict data) w)"

text \<open>\<open>value.pop(tgt, None)\<close>.\<close>

fun pop_key :: "string \<Rightarrow> json \<Rightarrow> exn + json" where
  "pop_key k (JDict d) = Inr (JDict (ddel k d))"
| "pop_key k (JList xs) = Inl (mkexn TypeErr ''pop'')"
| "pop_key k _ = Inl (mkexn AttributeErr ''pop'')"

definition reset_exhausted :: "string \<Rightarrow> 's keep_world \<Rightarrow> (exn + unit) \<times> 's keep_world" where
  "reset_exhausted tgt w =
     (case bindR (run_state_load (kw_state w)) (\<lambda>j. bindR (jdict_of j) (\<lambda>data.
             bindR (pop_key tgt (jget_or data ''retry_counts'' (JDict []))) (\<lambda>counts.
               Inr (if dget data ''retry_counts'' = None then data else dput ''retry_counts'' counts data)))) of
        Inl e \<Rightarrow> (Inl e, w)
      | Inr data \<Rightarrow> run_state_save (JDict data) w)"

definition update_cycle_summary :: "env \<Rightarrow> json \<Rightarrow> 's keep_world \<Rightarrow> (exn + unit) \<times> 's keep_world" where
  "update_cycle_summary env summary w =
     (case bindR (run_state_load (kw_state w)) (\<lambda>j. bindR (jset j ''last_run_at'' (JStr (now_iso env))) (\<lambda>j.
             jset j ''last_cycle_summary'' summary)) of
        Inl e \<Rightarrow> (Inl e, w)
      | Inr j \<Rightarrow> run_state_save j w)"

section \<open>Weights\<close>

definition RUNTIME_STICKY_PLATFORMS :: "string list" where "RUNTIME_STICKY_PLATFORMS = [''blogger'']"

fun positive_weights :: "env \<Rightarrow> string list \<Rightarrow> string list oact" where
  "positive_weights env [] w = (Inr [], w)"
| "positive_weights env (p # ps) w =
     (case get_weight env p 1 ''default'' w of
        (Inl e, w1) \<Rightarrow> (Inl e, w1)
      | (Inr x, w1) \<Rightarrow>
          (case positive_weights env ps w1 of
             (Inl e, w2) \<Rightarrow> (Inl e, w2)
           | (Inr qs, w2) \<Rightarrow> (Inr (if x > 0 then p # qs else qs), w2)))"

definition effective_sticky :: "env \<Rightarrow> string list \<Rightarrow> opt_world \<Rightarrow> string list \<times> opt_world" where
  "effective_sticky env sticky w =
     (case positive_weights env sticky w of (Inl e, w1) \<Rightarrow> (sticky, w1) | (Inr ps, w1) \<Rightarrow> (ps, w1))"

definition stats_entry :: jdict where
  "stats_entry = [(''alive_count'', JInt 0), (''dofollow_count'', JInt 0), (''total_published'', JInt 0), (''drift_count'', JInt 0)]"

definition count_stats :: "string \<Rightarrow> string \<Rightarrow> nbody" where
  "count_stats platform verdict = (\<lambda>(data, ns0).
     let ns = setdefault platform (JDict stats_entry) ns0 in
     case jget ns platform of
       JDict entry \<Rightarrow>
         (case jsucc (jget_or entry ''alive_count'' (JInt 0)) of
            Inl e \<Rightarrow> (Inl e, data, ns)
          | Inr alive \<Rightarrow>
              let entry1 = dput ''alive_count'' alive entry in
              if verdict \<noteq> ''alive'' then (Inr True, data, dput platform (JDict entry1) ns)
              else (case jsucc (jget_or entry1 ''dofollow_count'' (JInt 0)) of
                      Inl e \<Rightarrow> (Inl e, data, dput platform (JDict entry1) ns)
                    | Inr dof \<Rightarrow> (Inr True, data, dput platform (JDict (dput ''dofollow_count'' dof entry1)) ns)))
     | _ \<Rightarrow> (Inl (mkexn AttributeErr ''get''), data, ns))"

text \<open>An error of the update is logged and dropped.\<close>

definition update_opt_stats :: "env \<Rightarrow> string \<Rightarrow> string \<Rightarrow> opt_world \<Rightarrow> opt_world" where
  "update_opt_stats env platform verdict w =
     (if verdict \<notin> {''alive'', ''dofollow_lost''} then w
      else snd (opt_rmw env (in_namespace ''stats'' ''default'' (count_stats platform verdict)) w))"

section \<open>The chain\<close>

record pub_result =
  pb_target_url :: "string option"
  pb_platform :: "string option"
  pb_published_url :: "string option"
  pb_status :: string
  pb_error :: "string option"

record 's keep_deps =
  kd_select :: "'s \<Rightarrow> exn + jdict list"
  kd_unverified :: "'s \<Rightarrow> exn + jdict list"
  kd_probe :: "jdict \<Rightarrow> 's \<Rightarrow> (exn + jdict) \<times> 's"
  kd_emit :: "jdict list \<Rightarrow> 's \<Rightarrow> (exn + unit) \<times> 's"
  kd_verified_at :: "jdict list \<Rightarrow> 's \<Rightarrow> (exn + unit) \<times> 's"
  kd_derive :: "'s \<Rightarrow> exn + (string, target_status) dict"
  kd_ledger :: "'s \<Rightarrow> exn + jdict list"
  kd_publish :: "seed_row \<Rightarrow> 's \<Rightarrow> (exn + pub_result) \<times> 's"
  kd_reverify :: "pub_result \<Rightarrow> 's \<Rightarrow> (exn + string option) \<times> 's"
  kd_clock :: "nat \<Rightarrow> pyfloat"

definition BATCH_BUDGET_S :: pyfloat where "BATCH_BUDGET_S = 600"

text \<open>One probe: its result is recorded, errors of the recording are dropped.\<close>

definition probe_one :: "'s keep_deps \<Rightarrow> jdict \<Rightarrow> 's \<Rightarrow> jdict \<times> 's" where
  "probe_one deps c s =
     (let (r, s1) = kd_probe deps c s;
          res = (case r of
                   Inr x \<Rightarrow> x
                 | Inl e \<Rightarrow> dmerge c [(''verdict'', JStr ''probe_error''), (''reason'', JStr (''probe error: '' @ str_exn e))]);
          s2 = snd (kd_emit deps [res] s1)
      in (res, snd (kd_verified_at deps [res] s2)))"

fun recheck_stage :: "'s keep_deps \<Rightarrow> pyfloat \<Rightarrow> nat \<Rightarrow> jdict list \<Rightarrow> 's \<Rightarrow> jdict list \<times> 's" where
  "recheck_stage deps deadline n [] s = ([], s)"
| "recheck_stage deps deadline n (c # cs) s =
     (if kd_clock deps n > deadline then ([], s)
      else let (r, s1) = probe_one deps c s; (rs, s2) = recheck_stage deps deadline (n + 1) cs s1 in (r # rs, s2))"

record cycle_summary =
  cy_gaps_found :: nat
  cy_published :: nat
  cy_reverified_alive :: nat
  cy_reverified_dead :: nat
  cy_reverified_error :: nat
  cy_exhausted_skipped :: nat

definition no_cycle :: cycle_summary where
  "no_cycle = \<lparr>cy_gaps_found = 0, cy_published = 0, cy_reverified_alive = 0, cy_reverified_dead = 0,
     cy_reverified_error = 0, cy_exhausted_skipped = 0\<rparr>"

definition summary_dict :: "cycle_summary \<Rightarrow> json" where
  "summary_dict c =
     JDict [(''gaps_found'', JInt (int (cy_gaps_found c))), (''published'', JInt (int (cy_published c))),
            (''reverified_alive'', JInt (int (cy_reverified_alive c))), (''reverified_dead'', JInt (int (cy_reverified_dead c))),
            (''reverified_error'', JInt (int (cy_reverified_error c))), (''exhausted_skipped'', JInt (int (cy_exhausted_skipped c)))]"

text \<open>\<open>xs[:n]\<close>: a negative bound counts from the end.\<close>

definition py_take :: "int \<Rightarrow> 'a list \<Rightarrow> 'a list" where
  "py_take n xs = (if n \<ge> 0 then take (nat n) xs else take (length xs - nat (- n)) xs)"

fun split_exhausted :: "env \<Rightarrow> json_file \<Rightarrow> seed_row list \<Rightarrow> exn + seed_row list \<times> nat" where
  "split_exhausted env f [] = Inr ([], 0)"
| "split_exhausted env f (sd # sds) =
     bindR (is_exhausted env (sd_target_url sd) f) (\<lambda>ex.
     bindR (split_exhausted env f sds) (\<lambda>(kept, n).
       Inr (if ex then (kept, n + 1) else (sd # kept, n))))"

definition filter_exhausted_seeds ::
  "env \<Rightarrow> json_file \<Rightarrow> int option \<Rightarrow> seed_row list \<Rightarrow> exn + seed_row list \<times> nat" where
  "filter_exhausted_seeds env f max_gaps seeds =
     bindR (split_exhausted env f seeds) (\<lambda>(kept, n).
       Inr (case max_gaps of None \<Rightarrow> kept | Some m \<Rightarrow> py_take m kept, n))"

definition text_or_empty :: "string option \<Rightarrow> string" where
  "text_or_empty x = (case x of None \<Rightarrow> [] | Some s \<Rightarrow> s)"

definition published_ok :: "pub_result \<Rightarrow> bool" where
  "published_ok r \<longleftrightarrow> strip (text_or_empty (pb_published_url r)) \<noteq> []"

definition failed_publish :: "seed_row \<Rightarrow> exn \<Rightarrow> pub_result" where
  "failed_publish sd e =
     \<lparr>pb_target_url = Some (sd_target_url sd), pb_platform = Some (sd_platform sd), pb_published_url = Some [],
      pb_status = ''failed'', pb_error = Some (''publish error: '' @ str_exn e)\<rparr>"

definition publish_seed :: "'s keep_deps \<Rightarrow> seed_row \<Rightarrow> 's keep_world \<Rightarrow> pub_result \<times> 's keep_world" where
  "publish_seed deps sd w =
     (let (r, s) = kd_publish deps sd (kw_store w)
      in ((case r of Inr x \<Rightarrow> x | Inl e \<Rightarrow> failed_publish sd e), w\<lparr>kw_store := s\<rparr>))"

definition note_failure :: "env \<Rightarrow> pub_result \<Rightarrow> 's keep_world \<Rightarrow> (exn + unit) \<times> 's keep_world" where
  "note_failure env r w =
     (let t = text_or_empty (pb_target_url r); p = text_or_empty (pb_platform r) in
      if published_ok r \<or> t = [] \<or> p = [] then (Inr (), w) else record_attempt env t p ''publish_failed'' w)"

fun publish_step :: "env \<Rightarrow> 's keep_deps \<Rightarrow> seed_row list \<Rightarrow> 's keep_world \<Rightarrow> (exn + pub_result list) \<times> 's keep_world" where
  "publish_step env deps [] w = (Inr [], w)"
| "publish_step env deps (sd # sds) w =
     (let (r, w1) = publish_seed deps sd w in
      bindS (note_failure env r) (\<lambda>u.
      bindS (publish_step env deps sds) (\<lambda>rs. retS (r # rs))) w1)"

text \<open>The verdict of a probe, and what is done with it.\<close>

definition verdict_text :: "exn + string option \<Rightarrow> string" where
  "verdict_text x =
     (let v = (case x of Inl e \<Rightarrow> ''probe_error'' | Inr y \<Rightarrow> text_or_empty y) in if v = [] then ''probe_error'' else v)"

definition settle ::
  "env \<Rightarrow> pub_result \<Rightarrow> string \<Rightarrow> cycle_summary \<Rightarrow> 's keep_world \<Rightarrow> (exn + cycle_summary) \<times> 's keep_world" where
  "settle env r v c w1 =
     (let platform = text_or_empty (pb_platform r);
          learn = (\<lambda>w. if v \<noteq> ''probe_error'' \<and> platform \<noteq> [] then w\<lparr>kw_opt := update_opt_stats env platform v (kw_opt w)\<rparr> else w) in
      if v = ''alive'' then (Inr (c\<lparr>cy_reverified_alive := cy_reverified_alive c + 1\<rparr>), learn w1)
      else if v \<in> set DETERMINISTIC_DEAD
      then bindS (record_attempt env (text_or_empty (pb_target_url r)) platform v)
             (\<lambda>u w. (Inr (c\<lparr>cy_reverified_dead := cy_reverified_dead c + 1\<rparr>), learn w)) w1
      else (Inr (c\<lparr>cy_reverified_error := cy_reverified_error c + 1\<rparr>), learn w1))"

definition reverify_one ::
  "env \<Rightarrow> 's keep_deps \<Rightarrow> pub_result \<Rightarrow> cycle_summary \<Rightarrow> 's keep_world \<Rightarrow> (exn + cycle_summary) \<times> 's keep_world" where
  "reverify_one env deps r c w =
     (if \<not> published_ok r then (Inr c, w)
      else let (x, s) = kd_reverify deps r (kw_store w) in settle env r (verdict_text x) c (w\<lparr>kw_store := s\<rparr>))"

fun reverify_step ::
  "env \<Rightarrow> 's keep_deps \<Rightarrow> pub_result list \<Rightarrow> cycle_summary \<Rightarrow> 's keep_world \<Rightarrow> (exn + cycle_summary) \<times> 's keep_world" where
  "reverify_step env deps [] c w = (Inr c, w)"
| "reverify_step env deps (r # rs) c w = bindS (reverify_one env deps r c) (\<lambda>c. reverify_step env deps rs c) w"

datatype cycle_result = CycleSkipped | CycleDone cycle_summary | CycleDry cycle_summary "seed_row list"

definition recheck_candidates :: "'s keep_deps \<Rightarrow> 's keep_world \<Rightarrow> (exn + unit) \<times> 's keep_world" where
  "recheck_candidates deps w =
     (case bindR (kd_select deps (kw_store w)) (\<lambda>confirmed.
             bindR (kd_unverified deps (kw_store w)) (\<lambda>unverified. Inr (confirmed @ unverified))) of
        Inl e \<Rightarrow> (Inl e, w)
      | Inr candidates \<Rightarrow>
          (Inr (), w\<lparr>kw_store := snd (recheck_stage deps (kd_clock deps 0 + BATCH_BUDGET_S) 1 candidates (kw_store w))\<rparr>))"

definition gap_seeds ::
  "'s keep_deps \<Rightarrow> (string, target_status) dict \<Rightarrow> int option \<Rightarrow> string list \<Rightarrow> 's \<Rightarrow> exn + seed_row list" where
  "gap_seeds deps status max_gaps sticky s =
     bindR (kd_ledger deps s) (\<lambda>rows.
     bindR (plan_keepalive_gap rows status
              (gap_defaults (case max_gaps of None \<Rightarrow> 10 | Some m \<Rightarrow> if m = 0 then 10 else m) ''zh-CN'')
              sticky KEEPALIVE_EXCLUDED_HOSTS) (\<lambda>(seeds, gaps). Inr seeds))"

definition finish_cycle :: "env \<Rightarrow> cycle_summary \<Rightarrow> 's keep_world \<Rightarrow> (exn + cycle_result) \<times> 's keep_world" where
  "finish_cycle env c = bindS (update_cycle_summary env (summary_dict c)) (\<lambda>u. retS (CycleDone c))"

definition fill_gaps ::
  "env \<Rightarrow> 's keep_deps \<Rightarrow> int option \<Rightarrow> seed_row list \<Rightarrow> 's keep_world \<Rightarrow> (exn + cycle_result) \<times> 's keep_world" where
  "fill_gaps env deps max_gaps seeds_raw w =
     (case filter_exhausted_seeds env (kw_state w) max_gaps seeds_raw of
        Inl e \<Rightarrow> (Inl e, w)
      | Inr (seeds, n) \<Rightarrow>
          bindS (publish_step env deps seeds) (\<lambda>results.
          bindS (reverify_step env deps results
                   (no_cycle\<lparr>cy_gaps_found := length seeds_raw, cy_exhausted_skipped := n,
                             cy_published := length (filter published_ok results)\<rparr>)) (\<lambda>c. finish_cycle env c)) w)"

definition run_cycle ::
  "env \<Rightarrow> 's keep_deps \<Rightarrow> bool \<Rightarrow> int option \<Rightarrow> bool \<Rightarrow> 's keep_world \<Rightarrow> (exn + cycle_result) \<times> 's keep_world" where
  "run_cycle env deps dry_run max_gaps acquired w0 =
     (if \<not> acquired then (Inr CycleSkipped, w0)
      else bindS (recheck_candidates deps) (\<lambda>u w.
        case kd_derive deps (kw_store w) of
          Inl e \<Rightarrow> (Inl e, w)
        | Inr status \<Rightarrow>
            let (sticky, ow) = effective_sticky env RUNTIME_STICKY_PLATFORMS (kw_opt w); w1 = w\<lparr>kw_opt := ow\<rparr> in
            if sticky = [] then finish_cycle env no_cycle w1
            else (case gap_seeds deps status max_gaps sticky (kw_store w1) of
                    Inl e \<Rightarrow> (Inl e, w1)
                  | Inr seeds \<Rightarrow>
                      if dry_run then (Inr (CycleDry (no_cycle\<lparr>cy_gaps_found := length seeds\<rparr>) seeds), w1)
                      else fill_gaps env deps max_gaps seeds w1)) w0)"

section \<open>The default selection\<close>

text \<open>The dict of a candidate, and the selection the chain makes unless it is given another: the store is
  the table of events and that of articles, the clock the local one.\<close>

definition candidate_row :: "candidate \<Rightarrow> jdict" where
  "candidate_row c =
     [(''live_url'', pl_live_url (ca_placement c)), (''target_url'', pl_target (ca_placement c)),
      (''host'', opt_json (pl_host (ca_placement c))), (''article_id'', JInt (ca_article c)),
      (''platform'', pl_platform (ca_placement c)), (''baseline_anchor'', ca_baseline c),
      (''published_age_days'', case ca_age_days c of None \<Rightarrow> JNull | Some n \<Rightarrow> JInt n), (''source'', JStr ''events'')]"

definition default_select_candidates ::
  "iso_parser \<Rightarrow> pyfloat \<Rightarrow> event_row list \<times> article_row list \<Rightarrow> exn + jdict list" where
  "default_select_candidates isp local_now s =
     bindR (select_candidates isp (fst s) (snd s) (Naive local_now) DEFAULT_DAYS DEFAULT_CAP DEFAULT_MIN_RETRY_DAYS no_opts None)
       (\<lambda>cs. Inr (map candidate_row cs))"

definition default_select_unverified ::
  "iso_parser \<Rightarrow> pyfloat \<Rightarrow> event_row list \<times> article_row list \<Rightarrow> exn + jdict list" where
  "default_select_unverified isp local_now s =
     bindR (select_unverified_candidates isp (fst s) (snd s) (Naive local_now) DEFAULT_UNVERIFIED_CAP
              DEFAULT_UNVERIFIED_MIN_RETRY_DAYS no_opts)
       (\<lambda>cs. Inr (map candidate_row cs))"

end
