(* ===== verification/Recheck_Facts.thy ===== *)
theory Recheck_Facts
  imports Recheck "HOL-Library.Multiset"
begin

text \<open>
  The latest state of a link is the one with the newest stamp, whatever the order of the rows, the
  status of a target counts the latest states of its links, and the links chosen for a recheck are the
  ones that are due, oldest first.
\<close>

section \<open>The newest of several states\<close>

definition rank :: "link_state \<Rightarrow> (bool \<times> pyfloat) \<times> int" where
  "rank s = (instant_key (fst s), fst (snd s))"

lemma newer_iff_rank: "newer_state s p \<longleftrightarrow> rank p < rank s"
  by (cases "fst s"; cases "fst p") (auto simp: newer_state_def is_newer_def rank_def instant_key_def less_prod_def)

definition newest_in :: "('k \<times> link_state) list \<Rightarrow> 'k \<Rightarrow> link_state \<Rightarrow> bool" where
  "newest_in rs k s \<longleftrightarrow> (k, s) \<in> set rs \<and> (\<forall>s'. (k, s') \<in> set rs \<longrightarrow> rank s' \<le> rank s)"

lemma latest_states_snoc: "latest_states (rs @ [(k, s)]) = keep_newer k s (latest_states rs)"
  by (simp add: latest_states_def)

lemma latest_states_newest:
  "case dget (latest_states rs) k of None \<Rightarrow> k \<notin> fst ` set rs | Some s \<Rightarrow> newest_in rs k s"
proof (induction rs rule: rev_induct)
  case Nil
  then show ?case by (simp add: latest_states_def)
next
  case (snoc x rs)
  obtain k' s' where x: "x = (k', s')" by (cases x)
  show ?case
  proof (cases "k' = k")
    case False
    then show ?thesis
      using snoc by (auto simp: x latest_states_snoc keep_newer_def newest_in_def split: option.splits)
  next
    case True
    show ?thesis
    proof (cases "dget (latest_states rs) k")
      case None
      then have "\<forall>s. (k, s) \<in> set (rs @ [x]) \<longrightarrow> s = s'" using snoc x by force
      then have "newest_in (rs @ [x]) k s'"
        unfolding newest_in_def by (simp add: x True del: split_paired_All)
      then show ?thesis using None by (simp add: x True latest_states_snoc keep_newer_def)
    next
      case (Some p)
      then have p: "newest_in rs k p" using snoc by simp
      show ?thesis
      proof (cases "newer_state s' p")
        case True
        then have "rank p < rank s'" by (simp add: newer_iff_rank)
        then have "newest_in (rs @ [x]) k s'"
          using p by (force simp: x \<open>k' = k\<close> newest_in_def)
        then show ?thesis using True Some by (simp add: x \<open>k' = k\<close> latest_states_snoc keep_newer_def)
      next
        case False
        then have "rank s' \<le> rank p" by (simp add: newer_iff_rank)
        then have "newest_in (rs @ [x]) k p"
          using p by (auto simp: x \<open>k' = k\<close> newest_in_def)
        then show ?thesis using False Some by (simp add: x \<open>k' = k\<close> latest_states_snoc keep_newer_def)
      qed
    qed
  qed
qed

lemma latest_states_wf: "wf_dict (latest_states rs)"
proof -
  have "wf_dict d \<Longrightarrow> wf_dict (fold (\<lambda>(k, s). keep_newer k s) rs d)" for d
    by (induction rs arbitrary: d) (auto simp: keep_newer_def)
  then show ?thesis by (simp add: latest_states_def)
qed

text \<open>Rows are told apart by their ids, so the newest is unique.\<close>

lemma latest_states_iff:
  assumes "inj_on (\<lambda>x. fst (snd (snd x))) (set rs)"
  shows "dget (latest_states rs) k = Some s \<longleftrightarrow> newest_in rs k s"
proof
  show "newest_in rs k s" if "dget (latest_states rs) k = Some s"
    using latest_states_newest[where rs = rs and k = k] that by simp
next
  assume s: "newest_in rs k s"
  then have "(k, s) \<in> set rs" by (simp add: newest_in_def)
  then obtain p where p: "dget (latest_states rs) k = Some p" "newest_in rs k p"
    using latest_states_newest[where rs = rs and k = k] by (force split: option.splits)
  then have "rank s \<le> rank p" "rank p \<le> rank s" using s unfolding newest_in_def by blast+
  then have "rank s = rank p" by (rule order_antisym)
  then have "fst (snd s) = fst (snd p)" by (simp add: rank_def)
  then have "(k, s) = (k, p)"
    using assms s p(2) by (intro inj_onD[OF assms]) (simp_all add: newest_in_def)
  then show "dget (latest_states rs) k = Some s" using p(1) by simp
qed

lemma latest_states_set:
  assumes "inj_on (\<lambda>x. fst (snd (snd x))) (set rs)"
  shows "set (latest_states rs) = {(k, s). newest_in rs k s}"
  using latest_states_iff[OF assms] dget_iff_mem[OF latest_states_wf[of rs]] by auto

section \<open>The rechecks of a table\<close>

lemma mapR_Inr: "mapR f xs = Inr ys \<longleftrightarrow> list_all2 (\<lambda>x y. f x = Inr y) xs ys"
  by (induction xs arbitrary: ys) (auto simp: bindR_eq_Inr_iff list_all2_Cons1)

definition rows_of :: "'a option list \<Rightarrow> 'a list" where
  "rows_of xs = concat (map (\<lambda>x. case x of None \<Rightarrow> [] | Some y \<Rightarrow> [y]) xs)"

lemma rows_of_simps [simp]:
  "rows_of [] = []" "rows_of (None # xs) = rows_of xs" "rows_of (Some y # xs) = y # rows_of xs"
  by (simp_all add: rows_of_def)

lemma mset_rows_of: "mset (rows_of xs) = (\<Sum>x\<in>#mset xs. case x of None \<Rightarrow> {#} | Some y \<Rightarrow> {#y#})"
  by (induction xs) (auto simp: rows_of_def split: option.splits)

lemma rechecks_Inr:
  "rechecks isp rows = Inr rs \<longleftrightarrow> (\<exists>xs. list_all2 (\<lambda>r x. recheck_of isp r = Inr x) rows xs \<and> rs = rows_of xs)"
  by (auto simp: rechecks_def bindR_eq_Inr_iff mapR_Inr rows_of_def)

lemma recheck_id: "recheck_of isp r = Inr (Some x) \<Longrightarrow> fst (snd (snd x)) = er_id r"
  by (auto simp: recheck_of_def bindR_eq_Inr_iff split: if_splits option.splits)

lemma rechecks_distinct:
  assumes "rechecks isp rows = Inr rs" "distinct (map er_id rows)"
  shows "distinct (map (\<lambda>x. fst (snd (snd x))) rs)"
proof -
  obtain xs where xs: "list_all2 (\<lambda>r x. recheck_of isp r = Inr x) rows xs" "rs = rows_of xs"
    using assms(1) by (auto simp: rechecks_Inr)
  from xs(1) have "distinct (map (\<lambda>x. fst (snd (snd x))) (rows_of xs)) \<and>
      set (map (\<lambda>x. fst (snd (snd x))) (rows_of xs)) \<subseteq> er_id ` set rows"
    using assms(2)
  proof (induction rule: list_all2_induct)
    case (Cons r rows x xs)
    then show ?case
      by (cases x) (auto dest!: recheck_id)
  qed simp
  then show ?thesis using xs(2) by simp
qed

lemma rechecks_inj:
  assumes "rechecks isp rows = Inr rs" "distinct (map er_id rows)"
  shows "inj_on (\<lambda>x. fst (snd (snd x))) (set rs)"
  using rechecks_distinct[OF assms] by (simp add: distinct_map)

lemma rechecks_perm:
  assumes "rechecks isp rows = Inr rs" "mset rows = mset rows'"
  shows "\<exists>rs'. rechecks isp rows' = Inr rs' \<and> mset rs' = mset rs"
proof -
  obtain xs where xs: "list_all2 (\<lambda>r x. recheck_of isp r = Inr x) rows xs" "rs = rows_of xs"
    using assms(1) by (auto simp: rechecks_Inr)
  obtain xs' where xs': "list_all2 (\<lambda>r x. recheck_of isp r = Inr x) rows' xs'" "mset xs' = mset xs"
    using list_all2_reorder_left_invariance[OF xs(1) assms(2)[symmetric]] by metis
  then show ?thesis using xs(2) by (auto simp: rechecks_Inr mset_rows_of)
qed

section \<open>The status of a target\<close>

definition fresh_status :: target_status where
  "fresh_status = \<lparr>st_counts = zero_counts VERDICTS, st_total = 0, st_last_verified = None, st_alive_platforms = []\<rparr>"

definition verdict_of :: "link_state \<Rightarrow> string" where
  "verdict_of s = fst (snd (snd s))"

definition add_state :: "link_state \<Rightarrow> target_status \<Rightarrow> target_status" where
  "add_state s e = e\<lparr>st_counts := bump (verdict_of s) (st_counts e), st_total := st_total e + 1,
                     st_alive_platforms := st_alive_platforms e @ alive_on s\<rparr>"

lemma count_link_eq: "count_link ((tgt, aid), s) d = dput tgt (add_state s (dget_or d tgt fresh_status)) d"
  by (simp add: count_link_def add_state_def fresh_status_def verdict_of_def Let_def)

definition links_of :: "string \<Rightarrow> ((string \<times> int) \<times> link_state) list \<Rightarrow> link_state list" where
  "links_of tgt L = map snd (filter (\<lambda>x. fst (fst x) = tgt) L)"

lemma count_links:
  "dget (fold count_link L d) tgt =
     (if links_of tgt L = [] then dget d tgt else Some (fold add_state (links_of tgt L) (dget_or d tgt fresh_status)))"
proof (induction L arbitrary: d)
  case (Cons x L)
  obtain t a s where x: "x = ((t, a), s)" by (metis prod.collapse)
  show ?case
    by (simp add: Cons x count_link_eq links_of_def dget_or_def)
qed (simp add: links_of_def)

lemma dget_or_bump: "dget_or (bump v c) w 0 = dget_or c w 0 + (if w = v then 1 else 0)"
  by (simp add: bump_def dget_or_def)

lemma fold_add_state:
  "st_total (fold add_state ls e) = st_total e + int (length ls)"
  "dget_or (st_counts (fold add_state ls e)) v 0 = dget_or (st_counts e) v 0 + int (length (filter (\<lambda>s. verdict_of s = v) ls))"
  "st_alive_platforms (fold add_state ls e) = st_alive_platforms e @ concat (map alive_on ls)"
  "st_last_verified (fold add_state ls e) = st_last_verified e"
  by (induction ls arbitrary: e) (auto simp: add_state_def dget_or_bump)

lemma zero_counts_0: "dget_or (zero_counts vs) v 0 = 0"
  by (induction vs) (auto simp: zero_counts_def dget_or_def)

text \<open>What a table says of one target: nothing, or the status computed from the latest states.\<close>

lemma status_from_links:
  assumes "derive_per_target_status isp rows = Inr d" "rechecks isp rows = Inr rs"
  shows "dget d tgt =
    (let ls = links_of tgt (latest_states rs); seen = latest_states (map (\<lambda>((tgt, aid), s). (tgt, s)) rs) in
     if ls = [] then None else Some (finish_status seen tgt (fold add_state ls fresh_status)))"
proof -
  have "dget (map (\<lambda>(tgt, e). (tgt, f tgt e)) D) tgt = map_option (f tgt) (dget D tgt)" for f :: "string \<Rightarrow> target_status \<Rightarrow> target_status" and D
    by (induction D) auto
  then show ?thesis
    using assms by (auto simp: derive_per_target_status_def Let_def count_links dget_or_def)
qed

lemma links_of_card:
  assumes "wf_dict L"
  shows "length (filter Q (links_of tgt L)) = card {(aid, s). ((tgt, aid), s) \<in> set L \<and> Q s}"
proof -
  have "distinct L" using assms by (simp add: wf_dict_def distinct_map)
  have "length (filter Q (links_of tgt L)) = length (filter (\<lambda>x. fst (fst x) = tgt \<and> Q (snd x)) L)"
    by (induction L) (auto simp: links_of_def)
  also have "\<dots> = card {x \<in> set L. fst (fst x) = tgt \<and> Q (snd x)}"
    by (simp only: distinct_length_filter[OF \<open>distinct L\<close>] Int_def mem_Collect_eq conj_commute)
  also have "\<dots> = card ((\<lambda>(aid, s). ((tgt, aid), s)) ` {(aid, s). ((tgt, aid), s) \<in> set L \<and> Q s})"
    by (rule arg_cong[of _ _ card]) auto
  also have "\<dots> = card {(aid, s). ((tgt, aid), s) \<in> set L \<and> Q s}"
    by (rule card_image) (auto simp: inj_on_def)
  finally show ?thesis .
qed

lemma links_of_set: "set (links_of tgt L) = {s. \<exists>aid. ((tgt, aid), s) \<in> set L}"
  by (force simp: links_of_def)

text \<open>The status of a target counts each of its articles once, by the verdict of the article's newest
  recheck: the total is the number of articles, the count of a verdict the number of articles whose
  newest recheck says so, and the platforms that cover the target are those of the articles whose
  newest recheck says "alive". A target without a usable recheck has no status.\<close>

lemma target_status_spec:
  assumes "derive_per_target_status isp rows = Inr d" "distinct (map er_id rows)"
  shows "\<exists>rs. rechecks isp rows = Inr rs \<and>
    (dget d tgt = None \<longleftrightarrow> (\<forall>aid s. \<not> newest_in rs (tgt, aid) s)) \<and>
    (\<forall>st. dget d tgt = Some st \<longrightarrow>
       st_total st = int (card {(aid, s). newest_in rs (tgt, aid) s}) \<and>
       (\<forall>v. dget_or (st_counts st) v 0 = int (card {(aid, s). newest_in rs (tgt, aid) s \<and> verdict_of s = v})) \<and>
       set (st_alive_platforms st) = {p. \<exists>aid s. newest_in rs (tgt, aid) s \<and> p \<in> set (alive_on s)})"
proof -
  obtain rs where rs: "rechecks isp rows = Inr rs"
    using assms(1) by (auto simp: derive_per_target_status_def bindR_eq_Inr_iff)
  let ?L = "latest_states rs"
  note inj = rechecks_inj[OF rs assms(2)] and wf = latest_states_wf[of rs]
  have mem: "((tgt, aid), s) \<in> set ?L \<longleftrightarrow> newest_in rs (tgt, aid) s" for aid s
    by (simp add: latest_states_set[OF inj])
  note st = status_from_links[OF assms(1) rs, of tgt, unfolded Let_def]
  have "links_of tgt ?L = [] \<longleftrightarrow> (\<forall>aid s. \<not> newest_in rs (tgt, aid) s)"
    using links_of_set[of tgt ?L] by (auto simp: mem simp flip: set_empty)
  moreover have "int (length (links_of tgt ?L)) = int (card {(aid, s). newest_in rs (tgt, aid) s})"
    using links_of_card[OF wf, of "\<lambda>s. True" tgt] by (simp add: mem)
  moreover have "int (length (filter (\<lambda>s. verdict_of s = v) (links_of tgt ?L))) =
      int (card {(aid, s). newest_in rs (tgt, aid) s \<and> verdict_of s = v})" for v
    using links_of_card[OF wf, of "\<lambda>s. verdict_of s = v" tgt] by (simp add: mem)
  moreover have "(\<Union>s \<in> set (links_of tgt ?L). set (alive_on s)) = {p. \<exists>aid s. newest_in rs (tgt, aid) s \<and> p \<in> set (alive_on s)}"
    unfolding links_of_set mem by blast
  ultimately show ?thesis
    using rs by (intro exI[of _ rs]) (auto simp: st finish_status_def fold_add_state fresh_status_def zero_counts_0)
qed

text \<open>C27. The status does not depend on the order in which the database hands out the rows.\<close>

theorem status_order_irrelevant:
  assumes "derive_per_target_status isp rows = Inr d" "distinct (map er_id rows)" "mset rows = mset rows'"
  shows "\<exists>d'. derive_per_target_status isp rows' = Inr d' \<and>
    (\<forall>tgt. (dget d tgt = None \<longleftrightarrow> dget d' tgt = None) \<and>
      (\<forall>st st'. dget d tgt = Some st \<longrightarrow> dget d' tgt = Some st' \<longrightarrow>
         st_total st = st_total st' \<and> (\<forall>v. dget_or (st_counts st) v 0 = dget_or (st_counts st') v 0) \<and>
         st_last_verified st = st_last_verified st' \<and> st_alive_platforms st = st_alive_platforms st'))"
proof -
  obtain rs where rs: "rechecks isp rows = Inr rs"
    using assms(1) by (auto simp: derive_per_target_status_def bindR_eq_Inr_iff)
  obtain rs' where rs': "rechecks isp rows' = Inr rs'" "mset rs' = mset rs"
    using rechecks_perm[OF rs assms(3)] by blast
  obtain d' where d': "derive_per_target_status isp rows' = Inr d'"
    using rs'(1) by (simp add: derive_per_target_status_def Let_def)
  have ids': "distinct (map er_id rows')"
    using assms(2,3) by (metis mset_map mset_eq_imp_distinct_iff)
  note inj = rechecks_inj[OF rs assms(2)] and inj' = rechecks_inj[OF rs'(1) ids']
  have same: "set rs' = set rs" using rs'(2) by (metis set_mset_mset)
  then have newest: "newest_in rs' = newest_in rs" by (simp add: fun_eq_iff newest_in_def)
  have L: "set (latest_states rs') = set (latest_states rs)"
    by (simp add: latest_states_set[OF inj] latest_states_set[OF inj'] newest)
  let ?seen = "\<lambda>rs. latest_states (map (\<lambda>((tgt, aid), s). (tgt, s)) rs)"
  have inj_seen: "inj_on (\<lambda>x. fst (snd (snd x))) (set (map (\<lambda>((tgt, aid), s). (tgt, s)) rs))"
    if "inj_on (\<lambda>x. fst (snd (snd x))) (set rs)" for rs :: "((string \<times> int) \<times> link_state) list"
    using that by (fastforce simp: inj_on_def)
  have "dget (?seen rs') tgt = dget (?seen rs) tgt" for tgt
  proof -
    have "dget (?seen rs') tgt = Some s \<longleftrightarrow> dget (?seen rs) tgt = Some s" for s
      unfolding latest_states_iff[OF inj_seen[OF inj]] latest_states_iff[OF inj_seen[OF inj']]
      by (simp add: newest_in_def same)
    then show ?thesis by (cases "dget (?seen rs) tgt"; cases "dget (?seen rs') tgt") auto
  qed
  note seen = this
  note wf = latest_states_wf[of rs] and wf' = latest_states_wf[of rs']
  have len: "length (filter Q (links_of tgt (latest_states rs'))) = length (filter Q (links_of tgt (latest_states rs)))" for Q tgt
    by (simp add: links_of_card[OF wf] links_of_card[OF wf'] L)
  have "links_of tgt (latest_states rs') = [] \<longleftrightarrow> links_of tgt (latest_states rs) = []" for tgt
    using len[of "\<lambda>s. True" tgt] by (simp flip: length_0_conv)
  moreover have "length (links_of tgt (latest_states rs')) = length (links_of tgt (latest_states rs))" for tgt
    using len[of "\<lambda>s. True" tgt] by simp
  moreover have "sort (remdups (concat (map alive_on (links_of tgt (latest_states rs'))))) =
      sort (remdups (concat (map alive_on (links_of tgt (latest_states rs)))))" for tgt
    by (rule sorted_distinct_set_unique) (simp_all add: links_of_set L)
  ultimately show ?thesis
    using d' by (intro exI[of _ d'])
      (auto simp: status_from_links[OF assms(1) rs] status_from_links[OF d' rs'(1)] Let_def finish_status_def
        fold_add_state fresh_status_def seen len)
qed

section \<open>The links that are due\<close>

lemma concatR_Inr: "concatR rs = Inr xs \<longleftrightarrow> (\<exists>xss. rs = map Inr xss \<and> xs = concat xss)"
proof (induction rs arbitrary: xs)
  case (Cons r rs)
  then show ?case by (force simp: appendR_def bindR_eq_Inr_iff Cons_eq_map_conv)
qed auto

lemma due_Inr:
  assumes "due now days min_retry cursors baselines (aid, info) = Inr cs"
  defines "cur \<equiv> dget_or cursors aid (None, None)"
  shows "(\<exists>f. within_days now days (fst cur) = Inr f) \<and>
    (cs = [] \<or> (\<exists>c. cs = [c] \<and> ca_article c = aid \<and> ca_placement c = info \<and> ca_last_definitive c = fst cur)) \<and>
    (cs = [] \<longleftrightarrow> within_days now days (fst cur) = Inr True \<or> within_days now min_retry (snd cur) = Inr True)"
  using assms(1)
  by (auto simp: due_def cur_def[symmetric] candidate_of_def bindR_eq_Inr_iff Let_def split: prod.splits if_splits)

lemma within_false: "within_days now n x = Inr f \<Longrightarrow> f \<or> within_days now n x = Inr False"
  by (cases f) auto

text \<open>C26. The links chosen for a recheck are due: each is published, its last definitive check is older than
  the threshold and its last attempt older than the retry floor. At most the cap are chosen, oldest
  first, and a due link is left out only when the cap is used up by links that are at least as old.\<close>

theorem selected_links_are_due:
  assumes "select_candidates isp rows articles now days cap min_retry so limit = Inr cs"
  shows "\<exists>universe cursors. confirmed_universe isp so rows = Inr universe \<and> recheck_cursors isp rows = Inr cursors \<and>
    length cs \<le> (case limit of None \<Rightarrow> cap | Some n \<Rightarrow> n) \<and> sorted (map age_key cs) \<and>
    (\<forall>c \<in> set cs. (ca_article c, ca_placement c) \<in> set universe \<and>
       within_days now days (fst (dget_or cursors (ca_article c) (None, None))) \<noteq> Inr True \<and>
       within_days now min_retry (snd (dget_or cursors (ca_article c) (None, None))) \<noteq> Inr True) \<and>
    (\<forall>aid info. (aid, info) \<in> set universe \<longrightarrow>
       within_days now days (fst (dget_or cursors aid (None, None))) \<noteq> Inr True \<longrightarrow>
       within_days now min_retry (snd (dget_or cursors aid (None, None))) \<noteq> Inr True \<longrightarrow>
       (\<exists>c. ca_article c = aid \<and> ca_placement c = info \<and> ca_last_definitive c = fst (dget_or cursors aid (None, None)) \<and>
          (c \<in> set cs \<or> length cs = (case limit of None \<Rightarrow> cap | Some n \<Rightarrow> n) \<and> (\<forall>c' \<in> set cs. age_key c' \<le> age_key c))))"
proof -
  let ?n = "case limit of None \<Rightarrow> cap | Some n \<Rightarrow> n"
  obtain universe cursors baselines all where u: "confirmed_universe isp so rows = Inr universe"
    "recheck_cursors isp rows = Inr cursors"
    "concatR (map (due now days min_retry cursors baselines) universe) = Inr all"
    "cs = take ?n (sort_key age_key all)"
    using assms by (auto simp: select_candidates_def bindR_eq_Inr_iff)
  obtain xss where xss: "map (due now days min_retry cursors baselines) universe = map Inr xss" "all = concat xss"
    using u(3) by (auto simp: concatR_Inr)
  have each: "\<exists>ys \<in> set xss. due now days min_retry cursors baselines x = Inr ys" if "x \<in> set universe" for x
  proof -
    have "due now days min_retry cursors baselines x \<in> set (map Inr xss)"
      using that unfolding xss(1)[symmetric] by simp
    then show ?thesis by auto
  qed
  have origin: "\<exists>x \<in> set universe. due now days min_retry cursors baselines x = Inr ys" if "ys \<in> set xss" for ys
  proof -
    have "Inr ys \<in> set (map (due now days min_retry cursors baselines) universe)"
      using that unfolding xss(1) by simp
    then show ?thesis by auto
  qed
  have sub: "set cs \<subseteq> set all" unfolding u(4) using set_take_subset by fastforce
  have ok: "(ca_article c, ca_placement c) \<in> set universe \<and>
       within_days now days (fst (dget_or cursors (ca_article c) (None, None))) \<noteq> Inr True \<and>
       within_days now min_retry (snd (dget_or cursors (ca_article c) (None, None))) \<noteq> Inr True" if c: "c \<in> set cs" for c
  proof -
    obtain ys where ys: "ys \<in> set xss" "c \<in> set ys" using c sub xss(2) by auto
    obtain aid info where x: "(aid, info) \<in> set universe" "due now days min_retry cursors baselines (aid, info) = Inr ys"
      using origin[OF ys(1)] by auto
    then show ?thesis using due_Inr[OF x(2)] ys(2) by auto
  qed
  have all_due: "\<exists>c \<in> set all. ca_article c = aid \<and> ca_placement c = info \<and>
      ca_last_definitive c = fst (dget_or cursors aid (None, None))"
    if x: "(aid, info) \<in> set universe" "within_days now days (fst (dget_or cursors aid (None, None))) \<noteq> Inr True"
      "within_days now min_retry (snd (dget_or cursors aid (None, None))) \<noteq> Inr True" for aid info
  proof -
    obtain ys where ys: "ys \<in> set xss" "due now days min_retry cursors baselines (aid, info) = Inr ys"
      using each[OF x(1)] by auto
    then obtain c where c: "ys = [c]" "ca_article c = aid" "ca_placement c = info"
      "ca_last_definitive c = fst (dget_or cursors aid (None, None))"
      using due_Inr[OF ys(2)] x(2,3) by auto
    then have "c \<in> set all" using ys(1) xss(2) by force
    then show ?thesis using c by blast
  qed
  have srt: "sorted (map age_key (sort_key age_key all))" by simp
  have cut: "c \<in> set cs \<or> length cs = ?n \<and> (\<forall>c' \<in> set cs. age_key c' \<le> age_key c)" if c: "c \<in> set all" for c
  proof -
    obtain i where i: "i < length (sort_key age_key all)" "sort_key age_key all ! i = c"
      using c by (metis in_set_conv_nth set_sort)
    show ?thesis
    proof (cases "i < ?n")
      case True
      then have "c \<in> set cs" using i unfolding u(4) by (metis in_set_conv_nth length_take min_less_iff_conj nth_take)
      then show ?thesis ..
    next
      case False
      have "age_key c' \<le> age_key c" if c': "c' \<in> set cs" for c'
      proof -
        obtain j where j: "j < length cs" "cs ! j = c'" using c' by (auto simp: in_set_conv_nth)
        then have "sort_key age_key all ! j = c'" "j < ?n" by (simp_all add: u(4))
        then show ?thesis using sorted_nth_mono[OF srt, of j i] i False j(1) by (simp add: u(4))
      qed
      moreover have "length cs = ?n" using i(1) False by (simp add: u(4))
      ultimately show ?thesis by blast
    qed
  qed
  have "sorted (map age_key cs)" using srt unfolding u(4) by (metis sorted_wrt_take take_map)
  then show ?thesis
    using u(1,2,4) ok all_due cut by (intro exI[of _ universe] exI[of _ cursors]) (auto, metis+)
qed

section \<open>Scenarios\<close>

definition demo_iso :: iso_parser where
  "demo_iso s = (if isdigit s then Some (of_int (int_of_digits s)) else None)"

text \<open>Two rows of one article, in one second, and one of another article of the same target.\<close>

definition recheck_row :: "int \<Rightarrow> int \<Rightarrow> string \<Rightarrow> string \<Rightarrow> event_row" where
  "recheck_row i aid ts verdict =
     \<lparr>er_id = i, er_kind = ''link.rechecked'', er_article = Some aid,
      er_payload = Some (JDict [(''verdict'', JStr verdict), (''platform'', JStr ''blogger'')]),
      er_target = Some ''https://a.b/x/'', er_host = None, er_run = None, er_ts = ts\<rparr>"

definition demo_rows :: "event_row list" where
  "demo_rows = [recheck_row 1 7 ''100'' ''alive'', recheck_row 2 7 ''100'' ''link_stripped'', recheck_row 3 8 ''90'' ''alive'']"

lemma demo_status:
  "derive_per_target_status demo_iso demo_rows =
     Inr [(''https://a.b/x'', \<lparr>st_counts = [(''alive'', 1), (''host_gone'', 0), (''link_stripped'', 1), (''dofollow_lost'', 0), (''probe_error'', 0)],
            st_total = 2, st_last_verified = Some 100, st_alive_platforms = [''blogger'']\<rparr>)]"
  by code_simp

lemma demo_newest:
  "\<exists>rs. rechecks demo_iso demo_rows = Inr rs \<and> card {(aid, s). newest_in rs (''https://a.b/x'', aid) s} = 2"
proof -
  have "distinct (map er_id demo_rows)" by (simp add: demo_rows_def recheck_row_def)
  from target_status_spec[OF demo_status this, of "''https://a.b/x''"] show ?thesis by auto
qed

theorem status_order_irrelevant_witness:
  "\<exists>d' st'. derive_per_target_status demo_iso (rev demo_rows) = Inr d' \<and> dget d' ''https://a.b/x'' = Some st' \<and>
     st_alive_platforms st' = [''blogger'']"
proof -
  have "distinct (map er_id demo_rows)" by (simp add: demo_rows_def recheck_row_def)
  note run = status_order_irrelevant[OF demo_status this mset_rev[symmetric]]
  let ?d = "[(''https://a.b/x'', \<lparr>st_counts = [(''alive'', 1), (''host_gone'', 0), (''link_stripped'', 1), (''dofollow_lost'', 0), (''probe_error'', 0)],
            st_total = 2, st_last_verified = Some 100, st_alive_platforms = [''blogger'']\<rparr>)]"
  obtain d' where d': "derive_per_target_status demo_iso (rev demo_rows) = Inr d'"
    "\<forall>tgt. dget ?d tgt = None \<longleftrightarrow> dget d' tgt = None"
    "\<forall>tgt st st'. dget ?d tgt = Some st \<longrightarrow> dget d' tgt = Some st' \<longrightarrow> st_alive_platforms st = st_alive_platforms st'"
    using run by blast
  from d'(2)[rule_format, of "''https://a.b/x''"] obtain st' where "dget d' ''https://a.b/x'' = Some st'" by auto
  with d'(1) d'(3)[rule_format, of "''https://a.b/x''", OF _ this] show ?thesis by auto
qed

definition confirmed_row :: "int \<Rightarrow> string \<Rightarrow> event_row" where
  "confirmed_row aid ts =
     \<lparr>er_id = aid, er_kind = ''publish.confirmed'', er_article = Some aid,
      er_payload = Some (JDict [(''live_url'', JStr ''https://l.m/p''), (''platform'', JStr ''blogger'')]),
      er_target = Some ''https://a.b/x'', er_host = None, er_run = None, er_ts = ts\<rparr>"

theorem selected_links_are_due_witness:
  "\<exists>cs. select_candidates demo_iso [confirmed_row 7 ''1000'', confirmed_row 8 ''2000''] [] (Aware 9000000) 14 1 1 no_opts None = Inr cs \<and>
     length cs \<le> 1 \<and> (\<forall>c \<in> set cs. ca_article c \<in> {7, 8})"
proof -
  let ?rows = "[confirmed_row 7 ''1000'', confirmed_row 8 ''2000'']"
  have "\<not> isl (select_candidates demo_iso ?rows [] (Aware 9000000) 14 1 1 no_opts None)" by code_simp
  then obtain cs where cs: "select_candidates demo_iso ?rows [] (Aware 9000000) 14 1 1 no_opts None = Inr cs"
    by (cases "select_candidates demo_iso ?rows [] (Aware 9000000) 14 1 1 no_opts None") auto
  let ?p = "\<lambda>t. \<lparr>pl_live_url = JStr ''https://l.m/p'', pl_target = JStr ''https://a.b/x'', pl_host = None,
          pl_platform = JStr ''blogger'', pl_published = Some t\<rparr>"
  have u: "confirmed_universe demo_iso no_opts ?rows = Inr [(7, ?p 1000), (8, ?p 2000)]" by code_simp
  from selected_links_are_due[OF cs] u cs show ?thesis by force
qed

text \<open>The keep-alive cycle hands over a naive local clock: a single published link makes the choice raise.\<close>

theorem naive_clock_raises:
  "select_candidates demo_iso [confirmed_row 7 ''1000''] [] (Naive t) 14 50 1 no_opts None =
     Inl (mkexn TypeErr ''can't subtract offset-naive and offset-aware datetimes'')"
proof -
  have u: "confirmed_universe demo_iso no_opts [confirmed_row 7 ''1000''] =
      Inr [(7, \<lparr>pl_live_url = JStr ''https://l.m/p'', pl_target = JStr ''https://a.b/x'', pl_host = None,
          pl_platform = JStr ''blogger'', pl_published = Some 1000\<rparr>)]"
    by code_simp
  have c: "recheck_cursors demo_iso [confirmed_row 7 ''1000''] = Inr []" by code_simp
  show ?thesis
    by (simp add: select_candidates_def u c due_def within_days_def candidate_of_def age_days_def dget_or_def appendR_def)
qed

end
