(* ===== verification/Gap_Facts.thy ===== *)
theory Gap_Facts
  imports Gap Recheck_Facts
begin

text \<open>
  The ledger planner fills deficits and no more, and counts every row it drops; a keep-alive gap is a
  target with a dead newest verdict that no sticky platform covers.
\<close>

section \<open>From the ledger\<close>

text \<open>What the planner is meant to do with a row, apart from the code. A row is held back if its liveness is
  none of the known ones, or "failed" without leave, or stale or unverified without a live link,
  or older than the floor; \<open>--emit-stale\<close> lifts the last two.\<close>

definition live_links :: "jdict \<Rightarrow> int" where
  "live_links row = (case jget row ''live_dofollow'' of JInt n \<Rightarrow> max 0 n | _ \<Rightarrow> 0)"

definition verified_within :: "env \<Rightarrow> jdict \<Rightarrow> int \<Rightarrow> bool" where
  "verified_within env row days \<longleftrightarrow>
     (\<exists>s t. jget row ''liveness_verified_at'' = JStr s \<and> s \<noteq> [] \<and> e_iso env s = Some t \<and> \<lfloor>(e_now env - t) / day\<rfloor> \<le> days)"

definition held_back :: "env \<Rightarrow> gap_options \<Rightarrow> jdict \<Rightarrow> bool" where
  "held_back env opts row \<longleftrightarrow>
     (let liveness = jget_or row ''liveness'' (JStr ''unverified'')
      in liveness \<notin> {JStr ''live'', JStr ''stale'', JStr ''failed'', JStr ''unverified''} \<or>
         liveness = JStr ''failed'' \<and> \<not> go_include_failed opts \<or>
         liveness \<in> {JStr ''stale'', JStr ''unverified''} \<and> live_links row = 0 \<and> \<not> go_emit_stale opts \<or>
         (\<exists>days. go_stale_after_days opts = Some days \<and> \<not> go_emit_stale opts \<and> \<not> verified_within env row days))"

text \<open>How many links the target of a row lacks, and the platforms of the roster without a live one.\<close>

definition lacks :: "gap_options \<Rightarrow> jdict \<Rightarrow> nat" where
  "lacks opts row =
     (case target_of row of
        None \<Rightarrow> 0
      | Some tgt \<Rightarrow> nat (dget_or (go_desired_map opts) tgt (go_desired opts) - live_links row))"

definition free_platforms :: "string list \<Rightarrow> jdict \<Rightarrow> string list" where
  "free_platforms universe row =
     filter (\<lambda>p. case json_set (jget row ''live_dofollow_platforms'') of Inr live \<Rightarrow> JStr p \<notin> set live | Inl e \<Rightarrow> True) universe"

definition active_row :: "env \<Rightarrow> gap_options \<Rightarrow> jdict \<Rightarrow> bool" where
  "active_row env opts row \<longleftrightarrow> target_of row \<noteq> None \<and> \<not> held_back env opts row"

definition exhausted_row :: "env \<Rightarrow> string list \<Rightarrow> gap_options \<Rightarrow> jdict \<Rightarrow> bool" where
  "exhausted_row env universe opts row \<longleftrightarrow>
     active_row env opts row \<and> length (free_platforms universe row) < lacks opts row"

definition fills :: "env \<Rightarrow> string list \<Rightarrow> gap_options \<Rightarrow> jdict \<Rightarrow> seed_row list \<Rightarrow> bool" where
  "fills env universe opts row seeds \<longleftrightarrow>
     map sd_platform seeds = (if active_row env opts row then take (lacks opts row) (free_platforms universe row) else []) \<and>
     (\<forall>sd \<in> set seeds. target_of row = Some (sd_target_url sd))"

definition suppressed :: "gap_counts \<Rightarrow> nat" where
  "suppressed c = gc_suppressed_stale c + gc_suppressed_unverified c + gc_suppressed_stale_floor c + gc_failed c +
     gc_unknown_liveness c"

text \<open>The tallies as numbers of rows.\<close>

definition counted :: "env \<Rightarrow> string list \<Rightarrow> gap_options \<Rightarrow> jdict list \<Rightarrow> gap_counts \<Rightarrow> gap_counts \<Rightarrow> bool" where
  "counted env universe opts rows c c' \<longleftrightarrow>
     gc_malformed c' = gc_malformed c + length (filter (\<lambda>row. target_of row = None) rows) \<and>
     suppressed c' = suppressed c + length (filter (\<lambda>row. target_of row \<noteq> None \<and> held_back env opts row) rows) \<and>
     gc_satisfied c' = gc_satisfied c + length (filter (\<lambda>row. active_row env opts row \<and> lacks opts row = 0) rows) \<and>
     gc_channel_exhausted c' = gc_channel_exhausted c + length (filter (exhausted_row env universe opts) rows) \<and>
     map Some (gc_channel_exhausted_targets c') =
       map Some (gc_channel_exhausted_targets c) @ map target_of (filter (exhausted_row env universe opts) rows)"

lemma row_suppressed_held:
  assumes "row_suppressed env (jget_or row ''liveness'' (JStr ''unverified''))
      (coerce_live_dofollow (jget row ''live_dofollow'')) (jget row ''liveness_verified_at'') opts = Inr reason"
  shows "reason \<noteq> None \<longleftrightarrow> held_back env opts row"
proof -
  have live: "coerce_live_dofollow (jget row ''live_dofollow'') = live_links row"
    by (simp add: coerce_live_dofollow_def live_links_def)
  have old: "verified_older_than env (jget row ''liveness_verified_at'') days \<longleftrightarrow> \<not> verified_within env row days" for days
    by (auto simp: verified_older_than_def verified_within_def not_le split: json.splits option.splits)
  show ?thesis
    using assms unfolding live row_suppressed_def held_back_def Let_def old
    by (auto simp: bindR_eq_Inr_iff in_names_def KNOWN_LIVENESS_def split: if_splits option.splits)
qed

lemma deficit_lacks: "target_of row = Some tgt \<Longrightarrow> nat (deficit_of opts tgt row) = lacks opts row"
  by (simp add: deficit_of_def lacks_def coerce_live_dofollow_def live_links_def)

lemma tally_simps [simp]:
  "suppressed (tally r c) = suppressed c + 1" "gc_malformed (tally r c) = gc_malformed c" "gc_satisfied (tally r c) = gc_satisfied c"
  "gc_channel_exhausted (tally r c) = gc_channel_exhausted c"
  "gc_channel_exhausted_targets (tally r c) = gc_channel_exhausted_targets c"
  by (cases r; simp add: suppressed_def)+

lemma suppressed_simps [simp]:
  "suppressed (exhaust t b c) = suppressed c" "gc_malformed (exhaust t b c) = gc_malformed c"
  "gc_satisfied (exhaust t b c) = gc_satisfied c"
  "suppressed (c\<lparr>gc_malformed := n\<rparr>) = suppressed c" "suppressed (c\<lparr>gc_satisfied := n\<rparr>) = suppressed c"
  by (simp_all add: suppressed_def exhaust_def)

lemma gap_row_fills:
  assumes "gap_row env universe opts row c = Inr (seeds, c')"
  shows "fills env universe opts row seeds \<and> counted env universe opts [row] c c'"
proof (cases "target_of row")
  case None
  then show ?thesis using assms by (auto simp: gap_row_def fills_def counted_def active_row_def exhausted_row_def)
next
  case (Some tgt)
  obtain reason where r: "row_suppressed env (jget_or row ''liveness'' (JStr ''unverified''))
      (coerce_live_dofollow (jget row ''live_dofollow'')) (jget row ''liveness_verified_at'') opts = Inr reason"
    using assms Some by (auto simp: gap_row_def bindR_eq_Inr_iff)
  note h = row_suppressed_held[OF r]
  have zero: "deficit_of opts tgt row = 0 \<longleftrightarrow> lacks opts row = 0"
    using deficit_lacks[OF Some, of opts] by (auto simp: deficit_of_def)
  consider (held) x where "reason = Some x" | (met) "reason = None" "deficit_of opts tgt row = 0"
    | (fan) "reason = None" "deficit_of opts tgt row \<noteq> 0"
    by (cases reason) auto
  then show ?thesis
  proof cases
    case held
    then show ?thesis
      using assms Some r h by (auto simp: gap_row_def fills_def counted_def active_row_def exhausted_row_def)
  next
    case met
    then show ?thesis
      using assms Some r h zero by (auto simp: gap_row_def fills_def counted_def active_row_def exhausted_row_def)
  next
    case fan
    have act: "active_row env opts row" using fan(1) h Some by (auto simp: active_row_def)
    obtain b where f: "fan_out_target tgt (deficit_of opts tgt row) universe row opts = Inr (seeds, b)" "c' = exhaust tgt b c"
      using assms Some r fan by (auto simp: gap_row_def bindR_eq_Inr_iff)
    obtain live where live: "json_set (jget row ''live_dofollow_platforms'') = Inr live"
      using f(1) by (auto simp: fan_out_target_def bindR_eq_Inr_iff)
    have free: "filter (\<lambda>p. JStr p \<notin> set live) universe = free_platforms universe row"
      by (simp add: free_platforms_def live)
    obtain md where seeds: "seeds = map (mk_seed opts tgt md) (take (lacks opts row) (free_platforms universe row))"
      "b \<longleftrightarrow> deficit_of opts tgt row > int (length (free_platforms universe row))"
      using f(1) live by (auto simp: fan_out_target_def bindR_eq_Inr_iff Let_def free deficit_lacks[OF Some])
    have b: "b \<longleftrightarrow> exhausted_row env universe opts row"
      using seeds(2) deficit_lacks[OF Some, of opts, symmetric] act by (auto simp: exhausted_row_def)
    have "fills env universe opts row seeds"
      using seeds(1) act Some by (auto simp: fills_def o_def mk_seed_def)
    moreover have "counted env universe opts [row] c c'"
      using f(2) b act zero fan(2) Some by (auto simp: counted_def active_row_def exhaust_def suppressed_def)
    ultimately show ?thesis by simp
  qed
qed

lemma counted_Cons: "counted env universe opts [row] c c1 \<Longrightarrow> counted env universe opts rows c1 c2 \<Longrightarrow> counted env universe opts (row # rows) c c2"
  by (auto simp: counted_def split: if_splits)

lemma plan_gap_loop_run:
  assumes "plan_gap_loop env universe opts rows (seeds0, c0, as0) = Inr (seeds, c, as_of)"
  shows "\<exists>parts. list_all2 (fills env universe opts) rows parts \<and> seeds = seeds0 @ concat parts \<and>
    counted env universe opts rows c0 c"
  using assms
proof (induction rows arbitrary: seeds0 c0 as0)
  case Nil
  then show ?case by (auto simp: counted_def)
next
  case (Cons row rows)
  obtain new c1 where g: "gap_row env universe opts row c0 = Inr (new, c1)"
    "plan_gap_loop env universe opts rows (seeds0 @ new, c1, newest_stamp row as0) = Inr (seeds, c, as_of)"
    using Cons.prems by (auto simp: bindR_eq_Inr_iff)
  from Cons.IH[OF g(2)] obtain parts where p: "list_all2 (fills env universe opts) rows parts"
    "seeds = (seeds0 @ new) @ concat parts" "counted env universe opts rows c1 c" by blast
  then show ?case
    using gap_row_fills[OF g(1)] counted_Cons by (intro exI[of _ "new # parts"]) auto
qed

text \<open>C25. The planner fills deficits and nothing else. Its seeds are those of the rows, in order: a row with
  a target that is not held back gets one on each of the first platforms of the roster without a
  live link of it, exactly as many as it lacks as far as the platforms suffice, and the others get
  none. The tallies are the numbers of rows without a target, held back, with nothing lacking, and
  short of platforms, the last with their targets.\<close>

theorem plan_gap_fills_deficits:
  assumes "plan_gap env universe rows opts = Inr (seeds, c, as_of)"
  shows "(\<exists>parts. list_all2 (fills env universe opts) rows parts \<and> seeds = concat parts) \<and>
    gc_malformed c = length (filter (\<lambda>row. target_of row = None) rows) \<and>
    suppressed c = length (filter (\<lambda>row. target_of row \<noteq> None \<and> held_back env opts row) rows) \<and>
    gc_satisfied c = length (filter (\<lambda>row. active_row env opts row \<and> lacks opts row = 0) rows) \<and>
    map Some (gc_channel_exhausted_targets c) = map target_of (filter (exhausted_row env universe opts) rows) \<and>
    gc_channel_exhausted c = length (gc_channel_exhausted_targets c)"
proof -
  obtain parts where run: "list_all2 (fills env universe opts) rows parts" "seeds = concat parts"
    "counted env universe opts rows no_counts c"
    using plan_gap_loop_run[OF assms[unfolded plan_gap_def]] by auto
  have "length (gc_channel_exhausted_targets c) = length (map Some (gc_channel_exhausted_targets c))" by simp
  also have "\<dots> = length (filter (exhausted_row env universe opts) rows)"
    using run(3) by (simp add: counted_def no_counts_def)
  finally show ?thesis using run by (auto simp: counted_def no_counts_def suppressed_def)
qed

section \<open>From the rechecks\<close>

definition excluded_host :: "string list \<Rightarrow> string \<Rightarrow> bool" where
  "excluded_host exclude tgt \<longleftrightarrow>
     (case urlsplit tgt of Inl e \<Rightarrow> True | Inr p \<Rightarrow> lower (opt_str (url_hostname p)) \<in> set exclude)"

text \<open>A target with dead links that no sticky platform covers.\<close>

definition uncovered :: "(string, target_status) dict \<Rightarrow> string list \<Rightarrow> string \<Rightarrow> target_status \<Rightarrow> bool" where
  "uncovered status sticky tgt st \<longleftrightarrow>
     (\<exists>canon. canonicalize_url tgt = Inr canon \<and> dget status canon = Some st) \<and>
     0 < stripped_of st \<and> set (st_alive_platforms st) \<inter> set sticky = {}"

lemma keepalive_row_Some:
  assumes "keepalive_row status opts sticky exclude row = Inr (Some (seeds, g))"
  shows "\<exists>tgt st. target_of row = Some tgt \<and> \<not> excluded_host exclude tgt \<and> uncovered status sticky tgt st \<and>
    kg_target_url g = tgt \<and> kg_stripped g = stripped_of st \<and> kg_emitted_platforms g = cycled (stripped_of st) sticky \<and>
    map sd_platform seeds = cycled (stripped_of st) sticky \<and> (\<forall>sd \<in> set seeds. sd_target_url sd = tgt)"
proof -
  have all: "filter (\<lambda>p. p \<notin> A) sticky = sticky" if "A \<inter> set sticky = {}" for A
    using that by (intro filter_True) auto
  show ?thesis
    using assms
    by (auto simp: keepalive_row_def uncovered_def excluded_host_def bindR_eq_Inr_iff Let_def all mk_seed_def o_def
        split: option.splits sum.splits if_splits)
qed

lemma keepalive_row_found:
  assumes "keepalive_row status opts sticky exclude row = Inr r" "target_of row = Some tgt" "\<not> excluded_host exclude tgt"
    "uncovered status sticky tgt st"
  shows "\<exists>seeds g. r = Some (seeds, g) \<and> kg_target_url g = tgt"
  using assms
  by (auto simp: keepalive_row_def uncovered_def excluded_host_def bindR_eq_Inr_iff Let_def split: sum.splits)

lemma plan_keepalive_Inr:
  "plan_keepalive_gap rows status opts sticky exclude = Inr (seeds, gaps) \<longleftrightarrow>
   (\<exists>xs. list_all2 (\<lambda>row x. keepalive_row status opts sticky exclude row = Inr x) rows xs \<and>
      seeds = concat (map fst (rows_of xs)) \<and> gaps = map snd (rows_of xs))"
  by (auto simp: plan_keepalive_gap_def bindR_eq_Inr_iff mapR_Inr rows_of_def Let_def)

lemma mem_rows_of: "y \<in> set (rows_of xs) \<longleftrightarrow> Some y \<in> set xs"
  by (induction xs) (auto simp: rows_of_def split: option.splits)

lemma list_all2_mem: "list_all2 P xs ys \<Longrightarrow> x \<in> set xs \<Longrightarrow> \<exists>y \<in> set ys. P x y" "list_all2 P xs ys \<Longrightarrow> y \<in> set ys \<Longrightarrow> \<exists>x \<in> set xs. P x y"
  by (metis list_all2_conv_all_nth in_set_conv_nth)+

lemma keepalive_gaps_iff:
  assumes "plan_keepalive_gap rows status opts sticky exclude = Inr (seeds, gaps)"
  shows "tgt \<in> kg_target_url ` set gaps \<longleftrightarrow>
    (\<exists>row \<in> set rows. target_of row = Some tgt) \<and> \<not> excluded_host exclude tgt \<and> (\<exists>st. uncovered status sticky tgt st)"
proof -
  obtain xs where xs: "list_all2 (\<lambda>row x. keepalive_row status opts sticky exclude row = Inr x) rows xs"
    "seeds = concat (map fst (rows_of xs))" "gaps = map snd (rows_of xs)"
    using assms by (auto simp: plan_keepalive_Inr)
  show ?thesis
  proof
    assume "tgt \<in> kg_target_url ` set gaps"
    then obtain new g where "Some (new, g) \<in> set xs" "kg_target_url g = tgt" by (auto simp: xs(3) mem_rows_of)
    then obtain row where "row \<in> set rows" "keepalive_row status opts sticky exclude row = Inr (Some (new, g))"
      using list_all2_mem(2)[OF xs(1)] by blast
    then show "(\<exists>row \<in> set rows. target_of row = Some tgt) \<and> \<not> excluded_host exclude tgt \<and> (\<exists>st. uncovered status sticky tgt st)"
      using keepalive_row_Some \<open>kg_target_url g = tgt\<close> by blast
  next
    assume r: "(\<exists>row \<in> set rows. target_of row = Some tgt) \<and> \<not> excluded_host exclude tgt \<and> (\<exists>st. uncovered status sticky tgt st)"
    then obtain row st where row: "row \<in> set rows" "target_of row = Some tgt" "uncovered status sticky tgt st" by blast
    obtain x where x: "x \<in> set xs" "keepalive_row status opts sticky exclude row = Inr x"
      using list_all2_mem(1)[OF xs(1) row(1)] by blast
    obtain new g where "x = Some (new, g)" "kg_target_url g = tgt"
      using keepalive_row_found[OF x(2) row(2) _ row(3)] r by blast
    then show "tgt \<in> kg_target_url ` set gaps" using x(1) by (force simp: xs(3) mem_rows_of)
  qed
qed

text \<open>The seeds, gap by gap.\<close>

lemma keepalive_seeds:
  assumes "plan_keepalive_gap rows status opts sticky exclude = Inr (seeds, gaps)"
  shows "\<exists>parts. seeds = concat parts \<and> list_all2 (\<lambda>g part. map sd_platform part = cycled (kg_stripped g) sticky \<and>
    (\<forall>sd \<in> set part. sd_target_url sd = kg_target_url g) \<and>
    (\<exists>st. uncovered status sticky (kg_target_url g) st \<and> kg_stripped g = stripped_of st)) gaps parts"
proof -
  obtain xs where xs: "list_all2 (\<lambda>row x. keepalive_row status opts sticky exclude row = Inr x) rows xs"
    "seeds = concat (map fst (rows_of xs))" "gaps = map snd (rows_of xs)"
    using assms by (auto simp: plan_keepalive_Inr)
  have "map sd_platform (fst y) = cycled (kg_stripped (snd y)) sticky \<and> (\<forall>sd \<in> set (fst y). sd_target_url sd = kg_target_url (snd y)) \<and>
      (\<exists>st. uncovered status sticky (kg_target_url (snd y)) st \<and> kg_stripped (snd y) = stripped_of st)"
    if y: "y \<in> set (rows_of xs)" for y
  proof -
    obtain row where "keepalive_row status opts sticky exclude row = Inr (Some y)"
      using y list_all2_mem(2)[OF xs(1), of "Some y"] unfolding mem_rows_of by blast
    then show ?thesis using keepalive_row_Some[of status opts sticky exclude row "fst y" "snd y"] by auto
  qed
  then show ?thesis
    unfolding xs(2,3) by (intro exI[of _ "map fst (rows_of xs)"]) (simp add: list.rel_map list.rel_refl_strong)
qed

lemma cycled_props: "set (cycled n ps) \<subseteq> set ps" "length (cycled n ps) = (if ps = [] then 0 else n)"
  by (auto simp: cycled_def)

text \<open>The dead links of a target: its articles whose newest verdict is a dead one, each with that verdict.\<close>

definition dead_links :: "((string \<times> int) \<times> link_state) list \<Rightarrow> string \<Rightarrow> nat" where
  "dead_links rs tgt =
     card {(aid, s). \<exists>canon. canonicalize_url tgt = Inr canon \<and> newest_in rs (canon, aid) s \<and> verdict_of s \<in> set DETERMINISTIC_DEAD}"

lemma uncovered_dead:
  assumes "derive_per_target_status isp events = Inr status" "distinct (map er_id events)" "rechecks isp events = Inr rs"
  shows "uncovered status sticky tgt st \<Longrightarrow> stripped_of st = dead_links rs tgt"
    "(\<exists>st. uncovered status sticky tgt st) \<longleftrightarrow>
      (\<exists>canon. canonicalize_url tgt = Inr canon \<and>
        (\<exists>aid s. newest_in rs (canon, aid) s \<and> verdict_of s \<in> set DETERMINISTIC_DEAD) \<and>
        (\<forall>aid s p. newest_in rs (canon, aid) s \<longrightarrow> p \<in> set (alive_on s) \<longrightarrow> p \<notin> set sticky))"
proof -
  have fin: "finite {(aid, s). newest_in rs (canon, aid) s \<and> verdict_of s = v}" for canon v
  proof (rule finite_subset)
    show "{(aid, s). newest_in rs (canon, aid) s \<and> verdict_of s = v} \<subseteq> (\<lambda>x. (snd (fst x), snd x)) ` set rs"
      by (force simp: newest_in_def)
  qed simp
  have dead: "stripped_of st = dead_links rs tgt"
    if c: "canonicalize_url tgt = Inr canon"
      "\<And>v. dget_or (st_counts st) v 0 = int (card {(aid, s). newest_in rs (canon, aid) s \<and> verdict_of s = v})" for st canon
  proof -
    have "dead_links rs tgt = card ({(aid, s). newest_in rs (canon, aid) s \<and> verdict_of s = ''link_stripped''} \<union>
        {(aid, s). newest_in rs (canon, aid) s \<and> verdict_of s = ''host_gone''})"
      unfolding dead_links_def DETERMINISTIC_DEAD_def by (intro arg_cong[where f = card]) (auto simp: c(1))
    also have "\<dots> = card {(aid, s). newest_in rs (canon, aid) s \<and> verdict_of s = ''link_stripped''} +
        card {(aid, s). newest_in rs (canon, aid) s \<and> verdict_of s = ''host_gone''}"
      by (intro card_Un_disjoint fin) auto
    finally show ?thesis by (simp add: stripped_of_def c(2))
  qed
  note spec = target_status_spec[OF assms(1,2), unfolded assms(3) sum.inject(2) ex_simps]
  show "stripped_of st = dead_links rs tgt" if u: "uncovered status sticky tgt st"
  proof -
    obtain canon where canon: "canonicalize_url tgt = Inr canon" "dget status canon = Some st"
      using u by (auto simp: uncovered_def)
    show ?thesis using dead[OF canon(1)] spec[of canon] canon(2) assms(3) by auto
  qed
  show "(\<exists>st. uncovered status sticky tgt st) \<longleftrightarrow>
      (\<exists>canon. canonicalize_url tgt = Inr canon \<and>
        (\<exists>aid s. newest_in rs (canon, aid) s \<and> verdict_of s \<in> set DETERMINISTIC_DEAD) \<and>
        (\<forall>aid s p. newest_in rs (canon, aid) s \<longrightarrow> p \<in> set (alive_on s) \<longrightarrow> p \<notin> set sticky))"
  proof (cases "canonicalize_url tgt")
    case (Inr canon)
    show ?thesis
    proof (cases "dget status canon")
      case None
      then show ?thesis using spec[of canon] Inr assms(3) by (auto simp: uncovered_def)
    next
      case (Some st)
      have st: "stripped_of st = dead_links rs tgt"
        "set (st_alive_platforms st) = {p. \<exists>aid s. newest_in rs (canon, aid) s \<and> p \<in> set (alive_on s)}"
        using dead[OF Inr] spec[of canon] Some assms(3) by auto
      have "finite {(aid, s). newest_in rs (canon, aid) s \<and> verdict_of s \<in> set DETERMINISTIC_DEAD}"
        by (rule finite_subset[of _ "\<Union>v\<in>set DETERMINISTIC_DEAD. {(aid, s). newest_in rs (canon, aid) s \<and> verdict_of s = v}"])
          (blast, simp add: fin)
      then have "0 < dead_links rs tgt \<longleftrightarrow> (\<exists>aid s. newest_in rs (canon, aid) s \<and> verdict_of s \<in> set DETERMINISTIC_DEAD)"
        by (simp add: dead_links_def Inr card_gt_0_iff)
      moreover have "set (st_alive_platforms st) \<inter> set sticky = {} \<longleftrightarrow>
          (\<forall>aid s p. newest_in rs (canon, aid) s \<longrightarrow> p \<in> set (alive_on s) \<longrightarrow> p \<notin> set sticky)"
        unfolding st(2) by blast
      ultimately show ?thesis unfolding uncovered_def using Inr Some st(1) by simp
    qed
  qed (simp add: uncovered_def)
qed

text \<open>C16. A keep-alive gap is a target one of whose articles has a dead newest verdict while none has its
  newest verdict "alive" on a sticky platform: the planner names exactly these targets of the ledger,
  hosts of test data and unusable URLs apart. Its seeds are those of the gaps, in order: as many for a
  target as it has dead links, each on a sticky platform, and none when there is no sticky platform.\<close>

theorem keepalive_gap_iff_dead_and_uncovered:
  assumes "derive_per_target_status isp events = Inr status" "distinct (map er_id events)"
    "plan_keepalive_gap rows status opts sticky exclude = Inr (seeds, gaps)"
  shows "\<exists>rs. rechecks isp events = Inr rs \<and>
    (\<forall>tgt. tgt \<in> kg_target_url ` set gaps \<longleftrightarrow>
      (\<exists>row \<in> set rows. target_of row = Some tgt) \<and> \<not> excluded_host exclude tgt \<and>
      (\<exists>canon. canonicalize_url tgt = Inr canon \<and>
        (\<exists>aid s. newest_in rs (canon, aid) s \<and> verdict_of s \<in> set DETERMINISTIC_DEAD) \<and>
        (\<forall>aid s p. newest_in rs (canon, aid) s \<longrightarrow> p \<in> set (alive_on s) \<longrightarrow> p \<notin> set sticky))) \<and>
    (\<exists>parts. seeds = concat parts \<and> list_all2 (\<lambda>g part.
        length part = (if sticky = [] then 0 else dead_links rs (kg_target_url g)) \<and>
        (\<forall>sd \<in> set part. sd_target_url sd = kg_target_url g \<and> sd_platform sd \<in> set sticky)) gaps parts)"
proof -
  obtain rs where rs: "rechecks isp events = Inr rs"
    using assms(1) by (auto simp: derive_per_target_status_def bindR_eq_Inr_iff)
  obtain parts where parts: "seeds = concat parts" "list_all2 (\<lambda>g part. map sd_platform part = cycled (kg_stripped g) sticky \<and>
      (\<forall>sd \<in> set part. sd_target_url sd = kg_target_url g) \<and>
      (\<exists>st. uncovered status sticky (kg_target_url g) st \<and> kg_stripped g = stripped_of st)) gaps parts"
    using keepalive_seeds[OF assms(3)] by blast
  have "length part = (if sticky = [] then 0 else dead_links rs (kg_target_url g)) \<and>
      (\<forall>sd \<in> set part. sd_target_url sd = kg_target_url g \<and> sd_platform sd \<in> set sticky)"
    if p: "map sd_platform part = cycled (kg_stripped g) sticky" "\<forall>sd \<in> set part. sd_target_url sd = kg_target_url g"
      "uncovered status sticky (kg_target_url g) st" "kg_stripped g = stripped_of st" for g part st
  proof -
    have "length part = length (map sd_platform part)" "sd_platform ` set part = set (map sd_platform part)" by simp_all
    then show ?thesis
      using p(2) cycled_props[of "kg_stripped g" sticky] uncovered_dead(1)[OF assms(1,2) rs p(3)] unfolding p(1,4) by auto
  qed
  then have "list_all2 (\<lambda>g part. length part = (if sticky = [] then 0 else dead_links rs (kg_target_url g)) \<and>
      (\<forall>sd \<in> set part. sd_target_url sd = kg_target_url g \<and> sd_platform sd \<in> set sticky)) gaps parts"
    by (intro list_all2_mono[OF parts(2)]) blast
  then show ?thesis
    using keepalive_gaps_iff[OF assms(3)] rs parts(1) unfolding uncovered_dead(2)[OF assms(1,2) rs] by blast
qed

section \<open>Scenarios\<close>

definition ledger_row :: "string \<Rightarrow> int \<Rightarrow> string list \<Rightarrow> jdict" where
  "ledger_row tgt live platforms =
     [(''target_url'', JStr tgt), (''liveness'', JStr ''live''), (''live_dofollow'', JInt live),
      (''live_dofollow_platforms'', JList (map JStr platforms)), (''liveness_verified_at'', JStr ''900'')]"

text \<open>Two links are wanted of each target; the first lacks one, the second none, the third is not known to be alive.\<close>

theorem plan_gap_fills_deficits_witness:
  "\<exists>parts c as_of. plan_gap env0 [''blogger'', ''medium'', ''ghost'']
      [ledger_row ''https://a.b/x'' 1 [''medium''], ledger_row ''https://c.d/'' 3 [], [(''target_url'', JStr ''https://e.f/'')]]
      (gap_defaults 2 ''en'') = Inr (concat parts, c, as_of) \<and>
    map (map sd_platform) parts = [[''blogger''], [], []] \<and> gc_satisfied c = 1 \<and> suppressed c = 1"
proof -
  let ?rows = "[ledger_row ''https://a.b/x'' 1 [''medium''], ledger_row ''https://c.d/'' 3 [], [(''target_url'', JStr ''https://e.f/'')]]"
  let ?u = "[''blogger'', ''medium'', ''ghost'']"
  let ?o = "gap_defaults 2 ''en''"
  let ?s = "\<lparr>sd_target_url = ''https://a.b/x'', sd_platform = ''blogger'', sd_main_domain = ''https://a.b'', sd_language = ''en'',
      sd_url_mode = ''A'', sd_publish_mode = ''draft''\<rparr>"
  let ?c = "no_counts\<lparr>gc_satisfied := 1, gc_suppressed_unverified := 1\<rparr>"
  have p: "plan_gap env0 ?u ?rows ?o = Inr ([?s], ?c, Some ''900'')" by code_simp
  note run = plan_gap_fills_deficits[OF p]
  have active: "active_row env0 ?o (?rows ! 0)" "active_row env0 ?o (?rows ! 1)" "\<not> active_row env0 ?o (?rows ! 2)"
    by (simp_all add: active_row_def held_back_def live_links_def ledger_row_def gap_defaults_def target_of_def
        jget_def jget_or_def dget_or_def)
  have lacking: "lacks ?o (?rows ! 0) = 1" "lacks ?o (?rows ! 1) = 0"
    by code_simp+
  have free: "free_platforms ?u (?rows ! 0) = [''blogger'', ''ghost'']"
    by code_simp
  note rows = active lacking free
  obtain parts where parts: "list_all2 (fills env0 ?u ?o) ?rows parts" "[?s] = concat parts" using run by blast
  have "map (map sd_platform) parts = [[''blogger''], [], []]"
    using parts(1) rows by (auto simp: list_all2_Cons1 fills_def)
  moreover have "gc_satisfied ?c = 1 \<and> suppressed ?c = 1" by (simp add: suppressed_def no_counts_def)
  ultimately show ?thesis using p parts(2) by (intro exI[of _ parts] exI[of _ ?c] exI[of _ "Some ''900''"]) simp
qed

theorem keepalive_gap_iff_dead_and_uncovered_witness:
  "\<exists>status seeds gaps rs. derive_per_target_status demo_iso [recheck_row 1 7 ''100'' ''alive'', recheck_row 2 7 ''101'' ''link_stripped''] = Inr status \<and>
     plan_keepalive_gap [ledger_row ''https://a.b/x'' 1 []] status (gap_defaults 1 ''en'') [''blogger''] KEEPALIVE_EXCLUDED_HOSTS = Inr (seeds, gaps) \<and>
     rechecks demo_iso [recheck_row 1 7 ''100'' ''alive'', recheck_row 2 7 ''101'' ''link_stripped''] = Inr rs \<and>
     dead_links rs ''https://a.b/x'' = 1 \<and> map sd_platform seeds = [''blogger'']"
proof -
  let ?ev = "[recheck_row 1 7 ''100'' ''alive'', recheck_row 2 7 ''101'' ''link_stripped'']"
  let ?status = "[(''https://a.b/x'', \<lparr>st_counts = [(''alive'', 0), (''host_gone'', 0), (''link_stripped'', 1), (''dofollow_lost'', 0), (''probe_error'', 0)],
            st_total = 1, st_last_verified = Some 101, st_alive_platforms = []\<rparr>)]"
  let ?gap = "\<lparr>kg_target_url = ''https://a.b/x'', kg_stripped = 1, kg_emitted_platforms = [''blogger''], kg_channel_exhausted = False\<rparr>"
  have st: "derive_per_target_status demo_iso ?ev = Inr ?status" by code_simp
  let ?s = "\<lparr>sd_target_url = ''https://a.b/x'', sd_platform = ''blogger'', sd_main_domain = ''https://a.b'', sd_language = ''en'',
      sd_url_mode = ''A'', sd_publish_mode = ''draft''\<rparr>"
  have plan: "plan_keepalive_gap [ledger_row ''https://a.b/x'' 1 []] ?status (gap_defaults 1 ''en'') [''blogger''] KEEPALIVE_EXCLUDED_HOSTS =
      Inr ([?s], [?gap])"
    by code_simp
  have ids: "distinct (map er_id ?ev)" by (simp add: recheck_row_def)
  obtain rs where rs: "rechecks demo_iso ?ev = Inr rs" "\<exists>parts. [?s] = concat parts \<and> list_all2 (\<lambda>g part.
      length part = (if [''blogger''] = [] then 0 else dead_links rs (kg_target_url g)) \<and>
      (\<forall>sd \<in> set part. sd_target_url sd = kg_target_url g \<and> sd_platform sd \<in> set [''blogger''])) [?gap] parts"
    using keepalive_gap_iff_dead_and_uncovered[OF st ids plan] by (elim exE conjE) (rule that, assumption, (intro exI conjI; assumption))
  obtain part where "[?s] = concat [part]" "length part = dead_links rs ''https://a.b/x''"
    using rs(2) by (auto simp: list_all2_Cons1)
  then have "dead_links rs ''https://a.b/x'' = 1" by (metis concat.simps One_nat_def append_Nil2 length_Cons list.size(3))
  then show ?thesis using st plan rs(1) by (intro exI[of _ ?status] exI[of _ "[?s]"] exI[of _ "[?gap]"] exI[of _ rs]) simp
qed

text \<open>Both planners promise not to raise on a bad row; a bracket that is not closed makes them raise.\<close>

theorem bad_row_raises:
  "isl (plan_gap env0 [''blogger''] [ledger_row ''http://[x'' 0 []] (gap_defaults 1 ''en'')) \<and>
   isl (plan_keepalive_gap [ledger_row ''http://[x'' 0 []] [] (gap_defaults 1 ''en'') [''blogger''] KEEPALIVE_EXCLUDED_HOSTS)"
  by code_simp

end
