(* ===== verification/Keepalive_Facts.thy ===== *)
theory Keepalive_Facts
  imports Keepalive Gap_Facts
begin

text \<open>
  The keep-alive loop gives up on a target whose replacements keep failing, leaves exhausted targets
  alone, and publishes nothing on a dry run.
\<close>

section \<open>What a cycle does to the store\<close>

text \<open>A property of the store that the probes and their recording keep.\<close>

definition probing_keeps :: "'s keep_deps \<Rightarrow> ('s \<Rightarrow> bool) \<Rightarrow> bool" where
  "probing_keeps deps I \<longleftrightarrow>
     (\<forall>s x xs. I s \<longrightarrow> I (snd (kd_probe deps x s)) \<and> I (snd (kd_emit deps xs s)) \<and> I (snd (kd_verified_at deps xs s)))"

lemma recheck_stage_keeps:
  assumes "probing_keeps deps I"
  shows "I s \<Longrightarrow> I (snd (recheck_stage deps d n cs s))"
  using assms
  by (induction deps d n cs s rule: recheck_stage.induct)
    (auto simp: probe_one_def probing_keeps_def Let_def split: prod.splits; metis snd_conv)+

lemma recheck_candidates_keeps:
  assumes "recheck_candidates deps w = (r, w')" "probing_keeps deps I" "I (kw_store w)"
  shows "I (kw_store w') \<and> kw_state w' = kw_state w \<and> kw_opt w' = kw_opt w \<and> kw_save w' = kw_save w"
  using assms recheck_stage_keeps[OF assms(2)]
  by (auto simp: recheck_candidates_def split: sum.splits)

lemma run_state_save_frame:
  "run_state_save x w = (r, w') \<Longrightarrow> kw_store w' = kw_store w \<and> kw_save w' = kw_save w \<and> kw_opt w' = kw_opt w"
  by (auto simp: run_state_save_def split: option.splits)

lemma record_attempt_frame:
  "record_attempt env t p v w = (r, w') \<Longrightarrow> kw_store w' = kw_store w \<and> kw_save w' = kw_save w \<and> kw_opt w' = kw_opt w"
  using run_state_save_frame by (fastforce simp: record_attempt_def split: sum.splits)

lemma finish_cycle_frame:
  "finish_cycle env c w = (r, w') \<Longrightarrow> kw_store w' = kw_store w \<and> kw_opt w' = kw_opt w"
  using run_state_save_frame
  by (fastforce simp: finish_cycle_def update_cycle_summary_def bindS_def retS_def split: sum.splits prod.splits)

lemma finish_cycle_end:
  "finish_cycle env c w = (r, w') \<Longrightarrow> isl r \<and> kw_state w' = kw_state w \<or> r = Inr (CycleDone c)"
  by (auto simp: finish_cycle_def update_cycle_summary_def run_state_save_def bindS_def retS_def split: sum.splits prod.splits option.splits)

lemma note_failure_frame:
  "note_failure env r w = (x, w') \<Longrightarrow> kw_store w' = kw_store w \<and> kw_save w' = kw_save w \<and> kw_opt w' = kw_opt w"
  using record_attempt_frame by (fastforce simp: note_failure_def Let_def split: if_splits)

lemma publish_step_keeps:
  assumes "publish_step env deps seeds w = (r, w')" "I (kw_store w)"
    "\<forall>sd \<in> set seeds. \<forall>s. I s \<longrightarrow> I (snd (kd_publish deps sd s))"
  shows "I (kw_store w')"
  using assms
proof (induction seeds arbitrary: w r w')
  case (Cons sd seeds)
  obtain x w1 where p: "publish_seed deps sd w = (x, w1)" by force
  have "I (kw_store w1)" using p Cons.prems(2,3) by (auto simp: publish_seed_def Let_def split: prod.splits; metis snd_conv)
  moreover have "bindS (note_failure env x) (\<lambda>u. bindS (publish_step env deps seeds) (\<lambda>rs. retS (x # rs))) w1 = (r, w')"
    using Cons.prems(1) p by simp
  ultimately show ?case
    using Cons.IH Cons.prems(3) note_failure_frame
    by (fastforce simp: bindS_def retS_def split: prod.splits sum.splits)
qed simp

lemma settle_store: "settle env r v c w = (x, w') \<Longrightarrow> kw_store w' = kw_store w"
  by (auto simp: settle_def Let_def bindS_def dest: record_attempt_frame split: if_splits prod.splits sum.splits)

lemma reverify_one_keeps:
  assumes "reverify_one env deps x c w = (r, w')" "I (kw_store w)" "\<forall>x s. I s \<longrightarrow> I (snd (kd_reverify deps x s))"
  shows "I (kw_store w')"
proof (cases "published_ok x")
  case False
  then show ?thesis using assms(1,2) by (simp add: reverify_one_def)
next
  case True
  obtain y s where s: "kd_reverify deps x (kw_store w) = (y, s)" by force
  then have "settle env x (verdict_text y) c (w\<lparr>kw_store := s\<rparr>) = (r, w')"
    using assms(1) True by (simp add: reverify_one_def)
  then have "kw_store w' = s" using settle_store by fastforce
  then show ?thesis using assms(2,3) s by (metis snd_conv)
qed

lemma reverify_step_keeps:
  assumes "reverify_step env deps xs c w = (r, w')" "I (kw_store w)" "\<forall>x s. I s \<longrightarrow> I (snd (kd_reverify deps x s))"
  shows "I (kw_store w')"
  using assms
proof (induction xs arbitrary: c w r w')
  case (Cons x xs)
  show ?case
    using Cons.prems(1) unfolding reverify_step.simps
  proof (cases rule: bindS_cases)
    case err
    then show ?thesis using reverify_one_keeps[where I = I] Cons.prems(2,3) by blast
  next
    case ok
    then show ?thesis using reverify_one_keeps[where I = I] Cons.IH Cons.prems(2,3) by blast
  qed
qed simp

section \<open>Exhausted targets\<close>

lemma split_exhausted_run:
  "split_exhausted env f sds = Inr (kept, n) \<Longrightarrow>
   (\<forall>sd \<in> set kept. is_exhausted env (sd_target_url sd) f = Inr False \<and> sd \<in> set sds) \<and> n + length kept = length sds"
proof (induction sds arbitrary: kept n)
  case (Cons sd sds)
  obtain ex kept' n' where r: "is_exhausted env (sd_target_url sd) f = Inr ex" "split_exhausted env f sds = Inr (kept', n')"
    "(kept, n) = (if ex then (kept', n' + 1) else (sd # kept', n'))"
    using Cons.prems by (auto simp: bindR_eq_Inr_iff)
  show ?case using Cons.IH[OF r(2)] r(1,3) by (cases ex) auto
qed simp

lemma py_take_subset: "set (py_take n xs) \<subseteq> set xs"
  by (auto simp: py_take_def dest: in_set_takeD)

lemma filter_exhausted_run:
  assumes "filter_exhausted_seeds env f max_gaps seeds = Inr (kept, n)" "sd \<in> set kept"
  shows "is_exhausted env (sd_target_url sd) f = Inr False \<and> sd \<in> set seeds"
proof -
  obtain all where a: "split_exhausted env f seeds = Inr (all, n)" "set kept \<subseteq> set all"
    using assms(1) py_take_subset by (fastforce simp: filter_exhausted_seeds_def bindR_eq_Inr_iff split: option.splits)
  then show ?thesis using split_exhausted_run[OF a(1)] assms(2) by auto
qed

lemma fill_gaps_keeps:
  assumes "fill_gaps env deps max_gaps seeds w = (r, w')" "is_exhausted env tgt (kw_state w) = Inr True" "I (kw_store w)"
    "\<forall>sd s. sd_target_url sd \<noteq> tgt \<longrightarrow> I s \<longrightarrow> I (snd (kd_publish deps sd s))" "\<forall>x s. I s \<longrightarrow> I (snd (kd_reverify deps x s))"
  shows "I (kw_store w')"
proof (cases "filter_exhausted_seeds env (kw_state w) max_gaps seeds")
  case (Inl e)
  then show ?thesis using assms(1,3) by (simp add: fill_gaps_def)
next
  case (Inr y)
  obtain kept n where k: "filter_exhausted_seeds env (kw_state w) max_gaps seeds = Inr (kept, n)" using Inr by (cases y) auto
  have other: "\<forall>sd \<in> set kept. \<forall>s. I s \<longrightarrow> I (snd (kd_publish deps sd s))"
    using filter_exhausted_run[OF k] assms(2,4) by force
  show ?thesis
    using assms(1) unfolding fill_gaps_def k sum.case prod.case
  proof (cases rule: bindS_cases)
    case err
    then show ?thesis using publish_step_keeps[where I = I] assms(3) other by blast
  next
    case (ok results w1)
    then have "I (kw_store w1)" using publish_step_keeps[where I = I] assms(3) other by blast
    from ok(2) show ?thesis
    proof (cases rule: bindS_cases)
      case err
      then show ?thesis using reverify_step_keeps[where I = I] \<open>I (kw_store w1)\<close> assms(5) by blast
    next
      case (ok c w2)
      then have "I (kw_store w2)" using reverify_step_keeps[where I = I] \<open>I (kw_store w1)\<close> assms(5) by blast
      then show ?thesis using finish_cycle_frame[OF ok(2)] by simp
    qed
  qed
qed

text \<open>How a cycle ends: before any publish with the run state as it was, or with no sticky platform left,
  or by filling the gaps.\<close>

lemma run_cycle_cases:
  assumes "run_cycle env deps dry_run max_gaps acquired w = (r, w')" "probing_keeps deps I" "I (kw_store w)"
  shows "(I (kw_store w') \<and> kw_state w' = kw_state w \<and>
      (isl r \<or> r = Inr CycleSkipped \<and> \<not> acquired \<or> dry_run \<and> acquired \<and> fst (effective_sticky env RUNTIME_STICKY_PLATFORMS (kw_opt w)) \<noteq> [] \<and>
        (\<exists>c seeds. r = Inr (CycleDry c seeds)))) \<or>
    (I (kw_store w') \<and> acquired \<and> fst (effective_sticky env RUNTIME_STICKY_PLATFORMS (kw_opt w)) = [] \<and>
      r = Inr (CycleDone no_cycle) \<and> (\<exists>w1. finish_cycle env no_cycle w1 = (r, w') \<and> kw_state w1 = kw_state w)) \<or>
    (\<not> dry_run \<and> acquired \<and> (\<exists>seeds w1. fill_gaps env deps max_gaps seeds w1 = (r, w') \<and> I (kw_store w1) \<and> kw_state w1 = kw_state w))"
proof (cases acquired)
  case False
  then show ?thesis using assms(1,3) by (auto simp: run_cycle_def)
next
  case True
  show ?thesis
    using assms(1) unfolding run_cycle_def if_not_P[OF not_not[THEN iffD2, OF True]]
  proof (cases rule: bindS_cases)
    case err
    then show ?thesis using recheck_candidates_keeps[OF _ assms(2,3)] by force
  next
    case (ok u w1)
    note k = recheck_candidates_keeps[OF ok(1) assms(2,3)]
    show ?thesis
    proof (cases "kd_derive deps (kw_store w1)")
      case (Inl e)
      then show ?thesis using ok(2) k by auto
    next
      case (Inr status)
      obtain sticky ow where e: "effective_sticky env RUNTIME_STICKY_PLATFORMS (kw_opt w1) = (sticky, ow)" by force
      let ?w2 = "w1\<lparr>kw_opt := ow\<rparr>"
      show ?thesis
      proof (cases "sticky = []")
        case True
        then have f: "finish_cycle env no_cycle ?w2 = (r, w')" using ok(2) Inr e by simp
        show ?thesis
          using finish_cycle_end[OF f] finish_cycle_frame[OF f] f k e True \<open>acquired\<close> by auto
      next
        case False
        show ?thesis
        proof (cases "gap_seeds deps status max_gaps sticky (kw_store ?w2)")
          case (Inl e')
          then show ?thesis using ok(2) Inr e False k by auto
        next
          case (Inr seeds)
          have "(if dry_run then (Inr (CycleDry (no_cycle\<lparr>cy_gaps_found := length seeds\<rparr>) seeds), ?w2)
                 else fill_gaps env deps max_gaps seeds ?w2) = (r, w')"
            using ok(2) \<open>kd_derive deps (kw_store w1) = Inr status\<close> e False Inr by (simp add: Let_def)
          then show ?thesis using k e False \<open>acquired\<close> by (cases dry_run) (auto intro!: exI[of _ seeds] exI[of _ ?w2])
        qed
      qed
    qed
  qed
qed

text \<open>A target whose retries are used up is left alone: whatever a cycle does, it publishes no
  replacement for it. Any property of the store that the probes keep, and that publishing for other
  targets keeps, is kept by the cycle.\<close>

lemma exhausted_target_left_alone:
  assumes "run_cycle env deps dry_run max_gaps acquired w = (r, w')" "is_exhausted env tgt (kw_state w) = Inr True"
    "probing_keeps deps I" "\<forall>x s. I s \<longrightarrow> I (snd (kd_reverify deps x s))"
    "\<forall>sd s. sd_target_url sd \<noteq> tgt \<longrightarrow> I s \<longrightarrow> I (snd (kd_publish deps sd s))" "I (kw_store w)"
  shows "I (kw_store w')"
  using run_cycle_cases[OF assms(1,3,6)] fill_gaps_keeps[where I = I and tgt = tgt] assms(2,4,5) by metis


section \<open>Counting attempts\<close>

text \<open>A run state as the store writes it.\<close>

definition entry_ok :: "jdict \<Rightarrow> bool" where
  "entry_ok e \<longleftrightarrow> (\<forall>v. dget e ''attempts'' = Some v \<longrightarrow> (\<exists>n. v = JInt n)) \<and>
     (\<forall>v. dget e ''platforms_tried'' = Some v \<longrightarrow> (\<exists>ps. v = JList ps))"

definition data_ok :: "jdict \<Rightarrow> bool" where
  "data_ok data \<longleftrightarrow> dget data ''version'' \<noteq> None \<and>
     (\<forall>v. dget data ''retry_counts'' = Some v \<longrightarrow>
        (\<exists>counts. v = JDict counts \<and> (\<forall>t x. dget counts t = Some x \<longrightarrow> (\<exists>e. x = JDict e \<and> entry_ok e))))"

definition run_state_ok :: "json_file \<Rightarrow> bool" where
  "run_state_ok f \<longleftrightarrow> (\<exists>data. run_state_load f = Inr (JDict data) \<and> data_ok data)"

definition attempts_in :: "jdict \<Rightarrow> string \<Rightarrow> int" where
  "attempts_in data t =
     (case retry_entry data t of Inl e \<Rightarrow> 0 | Inr e \<Rightarrow> (case dget e ''attempts'' of Some (JInt n) \<Rightarrow> n | _ \<Rightarrow> 0))"

definition attempts_of :: "json_file \<Rightarrow> string \<Rightarrow> int" where
  "attempts_of f t = (case run_state_load f of Inr (JDict data) \<Rightarrow> attempts_in data t | _ \<Rightarrow> 0)"

lemma retry_entry_ok:
  assumes "data_ok data"
  shows "\<exists>e. retry_entry data t = Inr e \<and> entry_ok e"
proof (cases "dget data ''retry_counts''")
  case None
  then show ?thesis by (simp add: retry_entry_def jget_or_def dget_or_def entry_ok_def)
next
  case (Some v)
  then obtain counts where c: "v = JDict counts" "\<forall>t x. dget counts t = Some x \<longrightarrow> (\<exists>e. x = JDict e \<and> entry_ok e)"
    using assms by (auto simp: data_ok_def)
  show ?thesis
  proof (cases "dget counts t")
    case None
    then show ?thesis using Some c(1) by (simp add: retry_entry_def jget_or_def dget_or_def entry_ok_def)
  next
    case (Some x)
    then obtain e where "x = JDict e" "entry_ok e" using c(2) by blast
    then show ?thesis using Some \<open>dget data ''retry_counts'' = Some v\<close> c(1) by (simp add: retry_entry_def jget_or_def dget_or_def)
  qed
qed

lemma is_exhausted_iff: "run_state_ok f \<Longrightarrow> is_exhausted env t f = Inr (attempts_of f t \<ge> max_retry env)"
proof -
  assume "run_state_ok f"
  then obtain data where d: "run_state_load f = Inr (JDict data)" "data_ok data" by (auto simp: run_state_ok_def)
  obtain e where e: "retry_entry data t = Inr e" "entry_ok e" using retry_entry_ok[OF d(2)] by blast
  then show ?thesis
    by (cases "dget e ''attempts''") (auto simp: is_exhausted_def d(1) attempts_of_def attempts_in_def jget_or_def dget_or_def entry_ok_def)
qed

lemma attempt_entry_ok:
  assumes "entry_ok e"
  shows "\<exists>e'. attempt_entry ts p o' e = Inr e' \<and> entry_ok e' \<and>
    (case dget e' ''attempts'' of Some (JInt n) \<Rightarrow> n | _ \<Rightarrow> 0) =
    (case dget e ''attempts'' of Some (JInt n) \<Rightarrow> n | _ \<Rightarrow> 0) + (if o' \<in> set COUNTED_OUTCOMES then 1 else 0)"
proof -
  let ?e = "dput ''last_outcome'' (JStr o') (dput ''last_attempt_at'' (JStr ts) e)"
  obtain ps where ps: "jget_or ?e ''platforms_tried'' (JList []) = JList ps"
    using assms by (cases "dget e ''platforms_tried''") (auto simp: entry_ok_def jget_or_def dget_or_def)
  then obtain e1 where e1: "note_platform p ?e = Inr e1" "entry_ok e1" "dget e1 ''attempts'' = dget e ''attempts''"
    using assms by (cases "JStr p \<in> set ps") (auto simp: note_platform_def entry_ok_def)
  obtain n where n: "jget_or e1 ''attempts'' (JInt 0) = JInt n" "(case dget e ''attempts'' of Some (JInt n) \<Rightarrow> n | _ \<Rightarrow> 0) = n"
    using e1(2,3) by (cases "dget e ''attempts''") (auto simp: entry_ok_def jget_or_def dget_or_def)
  show ?thesis
  proof (cases "o' \<in> set COUNTED_OUTCOMES")
    case True
    then have "attempt_entry ts p o' e = Inr (dput ''attempts'' (JInt (n + 1)) e1)" by (simp add: attempt_entry_def e1(1) n(1))
    then show ?thesis using True n(2) e1(2) by (auto simp: entry_ok_def)
  next
    case False
    then have "attempt_entry ts p o' e = Inr e1" by (simp add: attempt_entry_def e1(1))
    then show ?thesis using False e1(2,3) by auto
  qed
qed

lemma attempted_data_ok:
  assumes "data_ok data"
  shows "\<exists>data'. attempted_data ts tgt p o' data = Inr data' \<and> data_ok data' \<and>
    (\<forall>t. attempts_in data' t = attempts_in data t + (if t = tgt \<and> o' \<in> set COUNTED_OUTCOMES then 1 else 0))"
proof -
  let ?data = "setdefault ''retry_counts'' (JDict []) data"
  obtain counts where c: "dget ?data ''retry_counts'' = Some (JDict counts)"
    "\<forall>t x. dget counts t = Some x \<longrightarrow> (\<exists>e. x = JDict e \<and> entry_ok e)"
    using assms by (cases "dget data ''retry_counts''") (auto simp: setdefault_def data_ok_def)
  have before: "retry_entry data t = jdict_of (jget_or counts t (JDict []))" for t
    using c(1) by (auto simp: retry_entry_def setdefault_def jget_or_def dget_or_def split: option.splits if_splits)
  let ?counts = "setdefault tgt (JDict fresh_entry) counts"
  obtain e where e: "dget ?counts tgt = Some (JDict e)" "entry_ok e"
  proof (cases "dget counts tgt")
    case None
    then show ?thesis using that[of fresh_entry] by (simp add: setdefault_def entry_ok_def fresh_entry_def)
  next
    case (Some x)
    then show ?thesis using c(2) that by (fastforce simp: setdefault_def)
  qed
  obtain e' where e': "attempt_entry ts p o' e = Inr e'" "entry_ok e'"
    "(case dget e' ''attempts'' of Some (JInt n) \<Rightarrow> n | _ \<Rightarrow> 0) =
     (case dget e ''attempts'' of Some (JInt n) \<Rightarrow> n | _ \<Rightarrow> 0) + (if o' \<in> set COUNTED_OUTCOMES then 1 else 0)"
    using attempt_entry_ok[OF e(2)] by blast
  let ?data' = "dput ''retry_counts'' (JDict (dput tgt (JDict e') ?counts)) ?data"
  have run: "attempted_data ts tgt p o' data = Inr ?data'"
    using c(1) e(1) e'(1) by (simp add: attempted_data_def Let_def jget_def dget_or_def)
  have others: "dget ?counts t = dget counts t" if "t \<noteq> tgt" for t using that by (simp add: setdefault_def)
  have ok: "data_ok ?data'"
    using assms c(2) e'(2) others by (auto simp: data_ok_def setdefault_def split: if_splits)
  have after: "retry_entry ?data' t = jdict_of (jget_or (dput tgt (JDict e') ?counts) t (JDict []))" for t
    by (simp add: retry_entry_def)
  have "attempts_in ?data' t = attempts_in data t + (if t = tgt \<and> o' \<in> set COUNTED_OUTCOMES then 1 else 0)" for t
  proof (cases "t = tgt")
    case False
    then show ?thesis by (simp add: attempts_in_def before after others jget_or_def dget_or_def)
  next
    case True
    have "(case dget e ''attempts'' of Some (JInt n) \<Rightarrow> n | _ \<Rightarrow> 0) = attempts_in data tgt"
      using e(1) by (auto simp: attempts_in_def before setdefault_def fresh_entry_def jget_or_def dget_or_def split: if_splits option.splits)
    then show ?thesis using True e'(3) by (simp add: attempts_in_def after)
  qed
  then show ?thesis using run ok by blast
qed

text \<open>Recording an attempt keeps the run state in shape and counts the outcomes that count.\<close>

definition counts_up :: "json_file \<Rightarrow> json_file \<Rightarrow> (string \<Rightarrow> int) \<Rightarrow> bool" where
  "counts_up f f' extra \<longleftrightarrow> run_state_ok f' \<and> (\<forall>t. attempts_of f' t = attempts_of f t + extra t)"

lemma record_attempt_counts:
  assumes "run_state_ok (kw_state w)"
  shows "case record_attempt env tgt p o' w of
      (Inr u, w') \<Rightarrow> counts_up (kw_state w) (kw_state w') (\<lambda>t. if t = tgt \<and> o' \<in> set COUNTED_OUTCOMES then 1 else 0)
    | (Inl e, w') \<Rightarrow> w' = w \<and> kw_save w = Some e"
proof -
  obtain data where d: "run_state_load (kw_state w) = Inr (JDict data)" "data_ok data" using assms(1) by (auto simp: run_state_ok_def)
  obtain data' where d': "attempted_data (now_iso env) tgt p o' data = Inr data'" "data_ok data'"
    "\<forall>t. attempts_in data' t = attempts_in data t + (if t = tgt \<and> o' \<in> set COUNTED_OUTCOMES then 1 else 0)"
    using attempted_data_ok[OF d(2)] by blast
  have l: "run_state_load (FJson (JDict data')) = Inr (JDict data')"
    using d'(2) by (simp add: run_state_load_def data_ok_def)
  show ?thesis
    using d d' l by (simp add: record_attempt_def run_state_save_def run_state_ok_def attempts_of_def counts_up_def split: option.splits)
qed

lemma note_failure_counts:
  assumes "run_state_ok (kw_state w)" "pb_target_url r = Some t0" "pb_platform r = Some p0" "t0 \<noteq> []" "p0 \<noteq> []"
  shows "case note_failure env r w of
      (Inr u, w') \<Rightarrow> counts_up (kw_state w) (kw_state w') (\<lambda>t. if t = t0 \<and> \<not> published_ok r then 1 else 0)
    | (Inl e, w') \<Rightarrow> w' = w \<and> kw_save w = Some e"
proof (cases "published_ok r")
  case True
  then show ?thesis using assms(1) by (simp add: note_failure_def counts_up_def)
next
  case False
  have c: "''publish_failed'' \<in> set COUNTED_OUTCOMES" by (simp add: COUNTED_OUTCOMES_def)
  show ?thesis
    using record_attempt_counts[OF assms(1), where env = env and tgt = t0 and p = p0 and o' = "''publish_failed''"] False assms(2-) c
    by (auto simp: note_failure_def text_or_empty_def Let_def split: sum.splits)
qed

text \<open>A publish answers for the target and the platform it was given, as the default one does.\<close>

definition publish_answers :: "'s keep_deps \<Rightarrow> bool" where
  "publish_answers deps \<longleftrightarrow>
     (\<forall>sd s r s'. kd_publish deps sd s = (Inr r, s') \<longrightarrow>
        pb_target_url r = Some (sd_target_url sd) \<and> pb_platform r = Some (sd_platform sd))"

text \<open>The publish step counts every failure and nothing else: with a run state in shape it tries each seed
  once, in order, and the attempts of a target grow by the number of its seeds that did not get
  published; it ends early only if a count cannot be written.\<close>

lemma failed_publishes_counted:
  assumes "run_state_ok (kw_state w)" "publish_answers deps" "\<forall>sd \<in> set seeds. sd_target_url sd \<noteq> [] \<and> sd_platform sd \<noteq> []"
  shows "case publish_step env deps seeds w of (Inr rs, w') \<Rightarrow> map pb_target_url rs = map (Some \<circ> sd_target_url) seeds \<and>
        counts_up (kw_state w) (kw_state w') (\<lambda>t. int (length (filter (\<lambda>r. pb_target_url r = Some t \<and> \<not> published_ok r) rs)))
    | (Inl e, w') \<Rightarrow> kw_save w = Some e"
  using assms(1,3)
proof (induction seeds arbitrary: w)
  case Nil
  then show ?case by (simp add: counts_up_def)
next
  case (Cons sd seeds)
  obtain r w1 where p: "publish_seed deps sd w = (r, w1)" by force
  have w1: "kw_state w1 = kw_state w" "kw_save w1 = kw_save w"
    "pb_target_url r = Some (sd_target_url sd)" "pb_platform r = Some (sd_platform sd)"
    using p assms(2) by (auto simp: publish_seed_def publish_answers_def failed_publish_def Let_def split: prod.splits sum.splits)
  obtain x w2 where n: "note_failure env r w1 = (x, w2)" by force
  have noted: "case x of Inr u \<Rightarrow> counts_up (kw_state w) (kw_state w2) (\<lambda>t. if t = sd_target_url sd \<and> \<not> published_ok r then 1 else 0)
      | Inl e \<Rightarrow> kw_save w = Some e"
    using note_failure_counts[of w1 r "sd_target_url sd" "sd_platform sd" env] w1 Cons.prems n by (auto split: sum.splits)
  have save: "kw_save w2 = kw_save w" using note_failure_frame[OF n] w1(2) by simp
  show ?case
  proof (cases x)
    case (Inl e)
    then show ?thesis using p n noted by (simp add: bindS_def)
  next
    case (Inr u)
    obtain y w3 where s: "publish_step env deps seeds w2 = (y, w3)" by force
    have "run_state_ok (kw_state w2)" using noted Inr by (simp add: counts_up_def)
    then have "case y of Inr rs \<Rightarrow> map pb_target_url rs = map (Some \<circ> sd_target_url) seeds \<and>
        counts_up (kw_state w2) (kw_state w3) (\<lambda>t. int (length (filter (\<lambda>r. pb_target_url r = Some t \<and> \<not> published_ok r) rs)))
      | Inl e \<Rightarrow> kw_save w = Some e"
      using Cons.IH[of w2] Cons.prems(2) s save by (auto split: sum.splits)
    then show ?thesis
      using p n s noted Inr w1(3) by (auto simp: bindS_def retS_def counts_up_def split: sum.splits)
  qed
qed

text \<open>No cycle takes a count back, whatever its dependencies do and whether or not its writes succeed.\<close>

definition counts_kept :: "json_file \<Rightarrow> json_file \<Rightarrow> bool" where
  "counts_kept f f' \<longleftrightarrow> run_state_ok f' \<and> (\<forall>t. attempts_of f t \<le> attempts_of f' t)"

lemma counts_kept_refl: "run_state_ok f \<Longrightarrow> counts_kept f f"
  by (simp add: counts_kept_def)

lemma counts_kept_trans: "counts_kept f g \<Longrightarrow> counts_kept g h \<Longrightarrow> counts_kept f h"
  unfolding counts_kept_def by (meson order_trans)

lemma record_attempt_kept:
  assumes "record_attempt env tgt p v w = (r, w')" "run_state_ok (kw_state w)"
  shows "counts_kept (kw_state w) (kw_state w')"
  using record_attempt_counts[OF assms(2), where env = env and tgt = tgt and p = p and o' = v] assms
  by (auto simp: counts_up_def counts_kept_def split: sum.splits)

lemma note_failure_kept:
  assumes "note_failure env x w = (r, w')" "run_state_ok (kw_state w)"
  shows "counts_kept (kw_state w) (kw_state w')"
  using assms record_attempt_kept counts_kept_refl by (fastforce simp: note_failure_def Let_def split: if_splits)

lemma publish_step_kept:
  "publish_step env deps seeds w = (r, w') \<Longrightarrow> run_state_ok (kw_state w) \<Longrightarrow> counts_kept (kw_state w) (kw_state w')"
proof (induction seeds arbitrary: w r w')
  case Nil
  then show ?case by (simp add: counts_kept_refl)
next
  case (Cons sd seeds)
  obtain x w1 where p0: "publish_seed deps sd w = (x, w1)" by force
  then have p: "publish_seed deps sd w = (x, w1)" "kw_state w1 = kw_state w"
    by (auto simp: publish_seed_def Let_def split: prod.splits)
  have "bindS (note_failure env x) (\<lambda>u. bindS (publish_step env deps seeds) (\<lambda>rs. retS (x # rs))) w1 = (r, w')"
    using Cons.prems(1) p(1) by simp
  then show ?case
  proof (cases rule: bindS_cases)
    case err
    then show ?thesis using note_failure_kept[of env x w1] Cons.prems(2) p(2) by simp
  next
    case (ok u w2)
    have n: "counts_kept (kw_state w) (kw_state w2)" using note_failure_kept[OF ok(1)] Cons.prems(2) p(2) by simp
    obtain y w3 where s: "publish_step env deps seeds w2 = (y, w3)" by force
    have "w' = w3" using ok(2) s by (auto simp: bindS_def retS_def split: sum.splits)
    then show ?thesis using Cons.IH[OF s] n counts_kept_trans by (auto simp: counts_kept_def)
  qed
qed

lemma settle_kept:
  assumes "settle env x v c w = (r, w')" "run_state_ok (kw_state w)"
  shows "counts_kept (kw_state w) (kw_state w')"
  using assms record_attempt_kept counts_kept_refl
  by (fastforce simp: settle_def Let_def bindS_def split: if_splits prod.splits sum.splits)

lemma reverify_step_kept:
  "reverify_step env deps xs c w = (r, w') \<Longrightarrow> run_state_ok (kw_state w) \<Longrightarrow> counts_kept (kw_state w) (kw_state w')"
proof (induction xs arbitrary: c w r w')
  case Nil
  then show ?case by (simp add: counts_kept_refl)
next
  case (Cons x xs)
  have one: "counts_kept (kw_state w) (kw_state w1)" if "reverify_one env deps x c w = (y, w1)" for y w1
    using that Cons.prems(2) settle_kept counts_kept_refl
    by (fastforce simp: reverify_one_def Let_def split: if_splits prod.splits)
  show ?case
    using Cons.prems(1) unfolding reverify_step.simps
  proof (cases rule: bindS_cases)
    case err
    then show ?thesis using one by blast
  next
    case ok
    then show ?thesis using one[OF ok(1)] Cons.IH[OF ok(2)] counts_kept_trans by (auto simp: counts_kept_def)
  qed
qed

lemma finish_cycle_kept:
  assumes "finish_cycle env c w = (r, w')" "run_state_ok (kw_state w)"
  shows "counts_kept (kw_state w) (kw_state w')"
proof -
  obtain data where d: "run_state_load (kw_state w) = Inr (JDict data)" "data_ok data" using assms(2) by (auto simp: run_state_ok_def)
  let ?d = "dput ''last_cycle_summary'' (summary_dict c) (dput ''last_run_at'' (JStr (now_iso env)) data)"
  have j: "data_ok ?d" "attempts_in ?d t = attempts_in data t" for t
    using d(2) by (auto simp: data_ok_def attempts_in_def retry_entry_def jget_or_def dget_or_def)
  have "run_state_load (FJson (JDict ?d)) = Inr (JDict ?d)" using j(1) by (simp add: run_state_load_def data_ok_def)
  then have "counts_kept (kw_state w) (FJson (JDict ?d))"
    using d j by (auto simp: counts_kept_def run_state_ok_def attempts_of_def)
  moreover have "kw_state w' = kw_state w \<or> kw_state w' = FJson (JDict ?d)"
    using assms(1) d(1)
    by (auto simp: jset_def finish_cycle_def update_cycle_summary_def run_state_save_def bindS_def retS_def split: sum.splits prod.splits option.splits)
  ultimately show ?thesis using counts_kept_refl[OF assms(2)] by auto
qed

lemma fill_gaps_kept:
  assumes "fill_gaps env deps max_gaps seeds w = (r, w')" "run_state_ok (kw_state w)"
  shows "counts_kept (kw_state w) (kw_state w')"
proof (cases "filter_exhausted_seeds env (kw_state w) max_gaps seeds")
  case (Inl e)
  then show ?thesis using assms counts_kept_refl by (simp add: fill_gaps_def)
next
  case (Inr y)
  obtain kept n where k: "filter_exhausted_seeds env (kw_state w) max_gaps seeds = Inr (kept, n)" using Inr by (cases y) auto
  show ?thesis
    using assms(1) unfolding fill_gaps_def k sum.case prod.case
  proof (cases rule: bindS_cases)
    case err
    then show ?thesis using publish_step_kept assms(2) by blast
  next
    case (ok results w1)
    have p: "counts_kept (kw_state w) (kw_state w1)" using publish_step_kept[OF ok(1) assms(2)] .
    from ok(2) show ?thesis
    proof (cases rule: bindS_cases)
      case err
      then show ?thesis using reverify_step_kept p counts_kept_trans by (metis counts_kept_def)
    next
      case (ok c w2)
      then show ?thesis
        using reverify_step_kept[OF ok(1)] finish_cycle_kept[OF ok(2)] p counts_kept_trans by (metis counts_kept_def)
    qed
  qed
qed

lemma run_cycle_kept:
  assumes "run_cycle env deps dry_run max_gaps acquired w = (r, w')" "run_state_ok (kw_state w)"
  shows "counts_kept (kw_state w) (kw_state w')"
proof -
  have "probing_keeps deps (\<lambda>s. True)" by (simp add: probing_keeps_def)
  from run_cycle_cases[OF assms(1) this TrueI] show ?thesis
    using fill_gaps_kept finish_cycle_kept counts_kept_refl assms(2) by metis
qed

text \<open>Cycles one after the other. They share the run state and nothing else: settings, dependencies,
  weights, store and the state of the disk may be others each time.\<close>

type_synonym 's cycle_of = "env \<times> 's keep_deps \<times> bool \<times> int option \<times> bool \<times> 's keep_world"

fun later_cycles :: "'s cycle_of list \<Rightarrow> json_file \<Rightarrow> json_file" where
  "later_cycles [] f = f"
| "later_cycles ((env, deps, dry_run, max_gaps, acquired, w) # cs) f =
     later_cycles cs (kw_state (snd (run_cycle env deps dry_run max_gaps acquired (w\<lparr>kw_state := f\<rparr>))))"

lemma later_cycles_kept: "run_state_ok f \<Longrightarrow> counts_kept f (later_cycles cs f)"
proof (induction cs arbitrary: f)
  case Nil
  then show ?case by (simp add: counts_kept_refl)
next
  case (Cons c cs)
  obtain env deps dry_run max_gaps acquired w where c: "c = (env, deps, dry_run, max_gaps, acquired, w)" by (cases c)
  have "counts_kept f (kw_state (snd (run_cycle env deps dry_run max_gaps acquired (w\<lparr>kw_state := f\<rparr>))))"
    using run_cycle_kept[OF surjective_pairing, of "w\<lparr>kw_state := f\<rparr>"] Cons.prems by simp
  then show ?case using Cons.IH c counts_kept_trans by (fastforce simp: counts_kept_def)
qed

text \<open>C17. A target whose replacements always fail is given up: after a publish step that tried it often
  enough to reach the limit, with every try failing and every failure written down, no later cycle
  publishes for it, as long as the limit is not raised. Any number of cycles may run in between, of any
  kind. The run state must be in shape at the start, that is hold dicts of counts as its writer leaves
  them, and a publish that returns must name the seed's target and platform. "Publishes for it" is read
  off the store: any property of it that probes, second looks and publishes for other targets keep is
  kept.\<close>

theorem failing_target_given_up:
  assumes "run_state_ok (kw_state w)" "publish_answers deps"
    "\<forall>sd \<in> set seeds. sd_target_url sd \<noteq> [] \<and> sd_platform sd \<noteq> []"
    "publish_step env deps seeds w = (Inr rs, w1)" "\<forall>r \<in> set rs. pb_target_url r = Some tgt \<longrightarrow> \<not> published_ok r"
    "attempts_of (kw_state w) tgt + int (length (filter (\<lambda>sd. sd_target_url sd = tgt) seeds)) \<ge> limit"
    "kw_state w2 = later_cycles cycles (kw_state w1)" "max_retry env' \<le> limit"
    "run_cycle env' deps' dry_run max_gaps acquired w2 = (r, w')"
    "probing_keeps deps' I" "\<forall>x s. I s \<longrightarrow> I (snd (kd_reverify deps' x s))"
    "\<forall>sd s. sd_target_url sd \<noteq> tgt \<longrightarrow> I s \<longrightarrow> I (snd (kd_publish deps' sd s))" "I (kw_store w2)"
  shows "I (kw_store w')"
proof -
  have p: "map pb_target_url rs = map (Some \<circ> sd_target_url) seeds" "run_state_ok (kw_state w1)"
    "attempts_of (kw_state w1) tgt =
       attempts_of (kw_state w) tgt + int (length (filter (\<lambda>r. pb_target_url r = Some tgt \<and> \<not> published_ok r) rs))"
    using failed_publishes_counted[OF assms(1-3), of env] assms(4) by (auto simp: counts_up_def)
  have "length (filter (\<lambda>r. pb_target_url r = Some tgt \<and> \<not> published_ok r) rs) = length (filter (\<lambda>r. pb_target_url r = Some tgt) rs)"
    using assms(5) by (metis (mono_tags, lifting) filter_cong)
  also have "\<dots> = length (filter (\<lambda>x. x = Some tgt) (map pb_target_url rs))" by (simp add: filter_map o_def)
  also have "\<dots> = length (filter (\<lambda>sd. sd_target_url sd = tgt) seeds)"
    using p(1) by (simp add: filter_map o_def)
  finally have "attempts_of (kw_state w1) tgt \<ge> limit" using p(3) assms(6) by simp
  moreover have k: "counts_kept (kw_state w1) (kw_state w2)" using later_cycles_kept[OF p(2)] assms(7) by simp
  ultimately have "is_exhausted env' tgt (kw_state w2) = Inr True"
    using is_exhausted_iff[of "kw_state w2" env' tgt] assms(8) unfolding counts_kept_def by (smt (verit))
  then show ?thesis using exhausted_target_left_alone[OF assms(9) _ assms(10-13)] by blast
qed

section \<open>Scenarios\<close>

text \<open>A store that logs the targets a publish was tried for; every publish fails, and one target of the
  ledger has four dead links.\<close>

definition log_deps :: "string list keep_deps" where
  "log_deps =
     \<lparr>kd_select = (\<lambda>s. Inr []), kd_unverified = (\<lambda>s. Inr []), kd_probe = (\<lambda>c s. (Inr c, s)), kd_emit = (\<lambda>rs s. (Inr (), s)),
      kd_verified_at = (\<lambda>rs s. (Inr (), s)),
      kd_derive = (\<lambda>s. Inr [(''https://a.b/x'', \<lparr>st_counts = [(''link_stripped'', 4)], st_total = 4, st_last_verified = None, st_alive_platforms = []\<rparr>)]),
      kd_ledger = (\<lambda>s. Inr [[(''target_url'', JStr ''https://a.b/x'')]]),
      kd_publish = (\<lambda>sd s. (Inl (mkexn OSErr ''down''), sd_target_url sd # s)), kd_reverify = (\<lambda>r s. (Inr None, s)), kd_clock = (\<lambda>n. 0)\<rparr>"

definition log_world :: "string list keep_world" where
  "log_world = \<lparr>kw_state = FAbsent, kw_save = None, kw_opt = \<lparr>ow_file = FAbsent, ow_cache = None, ow_save = None\<rparr>, kw_store = []\<rparr>"

definition log_seed :: seed_row where
  "log_seed = mk_seed (gap_defaults 1 ''zh-CN'') ''https://a.b/x'' ''https://a.b'' ''blogger''"

lemma log_deps_laws: "publish_answers log_deps" "probing_keeps log_deps I"
  "snd (kd_reverify log_deps x s) = s"
  "sd_target_url sd \<noteq> tgt \<Longrightarrow> tgt \<notin> set s \<Longrightarrow> tgt \<notin> set (snd (kd_publish log_deps sd s))"
  by (auto simp: log_deps_def publish_answers_def probing_keeps_def)

lemma log_world_ok: "run_state_ok (kw_state log_world)" "attempts_of (kw_state log_world) t = 0" "kw_store log_world = []"
  by (auto simp: log_world_def run_state_ok_def run_state_load_def default_run_state_def data_ok_def attempts_of_def attempts_in_def
      retry_entry_def jget_or_def dget_or_def)

text \<open>Three failed tries; then a cycle with a dry run before it, on a store of its own.\<close>

theorem failing_target_given_up_witness:
  "\<exists>rs w1 w2 r w'. publish_step env0 log_deps (replicate 3 log_seed) log_world = (Inr rs, w1) \<and>
     kw_state w2 = later_cycles [(env0, log_deps, True, None, True, log_world)] (kw_state w1) \<and>
     run_cycle env0 log_deps False None True w2 = (r, w') \<and> ''https://a.b/x'' \<notin> set (kw_store w')"
proof -
  let ?tgt = "''https://a.b/x''" and ?seeds = "replicate 3 log_seed"
  have named: "\<forall>sd \<in> set ?seeds. sd_target_url sd \<noteq> [] \<and> sd_platform sd \<noteq> []" by (simp add: log_seed_def mk_seed_def)
  have "fst (publish_step env0 log_deps ?seeds log_world) = Inr (replicate 3 (failed_publish log_seed (mkexn OSErr ''down'')))"
    by code_simp
  then obtain rs w1 where p: "publish_step env0 log_deps ?seeds log_world = (Inr rs, w1)"
    "rs = replicate 3 (failed_publish log_seed (mkexn OSErr ''down''))" by (metis prod.collapse)
  then have fail: "\<forall>r \<in> set rs. pb_target_url r = Some ?tgt \<longrightarrow> \<not> published_ok r"
    by (simp add: failed_publish_def published_ok_def text_or_empty_def strip_def)
  have enough: "attempts_of (kw_state log_world) ?tgt + int (length (filter (\<lambda>sd. sd_target_url sd = ?tgt) ?seeds)) \<ge> max_retry env0"
    by (simp add: log_world_ok(2) log_seed_def mk_seed_def max_retry_def getenv_def env0_def DEFAULT_MAX_RETRY_def)
  let ?w2 = "log_world\<lparr>kw_state := later_cycles [(env0, log_deps, True, None, True, log_world)] (kw_state w1)\<rparr>"
  have w2: "kw_state ?w2 = later_cycles [(env0, log_deps, True, None, True, log_world)] (kw_state w1)" by simp
  obtain r w' where c: "run_cycle env0 log_deps False None True ?w2 = (r, w')" by force
  have "?tgt \<notin> set (kw_store w')"
    by (rule failing_target_given_up[OF log_world_ok(1) log_deps_laws(1) named p(1) fail enough w2 order_refl c,
          where I = "\<lambda>s. ?tgt \<notin> set s"])
      (use log_deps_laws log_world_ok(3) in auto)
  then show ?thesis using p(1) c w2 by blast
qed


text \<open>Within one cycle the limit does not hold: the attempts are read before the first publish, so a
  target with four dead links is tried four times.\<close>

theorem limit_overrun_in_one_cycle:
  "max_retry env0 = 3 \<and>
   kw_store (snd (run_cycle env0 log_deps False None True log_world)) = replicate 4 ''https://a.b/x''"
  by code_simp

text \<open>With its own selection the cycle dies of the first published link: the clock it hands over names no
  zone, the stamps of the events do.\<close>

theorem cycle_dies_of_published_link:
  assumes "kd_select deps = default_select_candidates demo_iso local_now" "kw_store w = ([confirmed_row 7 ''1000''], [])"
  shows "run_cycle env deps dry_run max_gaps True w =
    (Inl (mkexn TypeErr ''can't subtract offset-naive and offset-aware datetimes''), w)"
  using assms
  by (simp add: run_cycle_def bindS_def recheck_candidates_def default_select_candidates_def naive_clock_raises
      DEFAULT_DAYS_def DEFAULT_CAP_def DEFAULT_MIN_RETRY_DAYS_def del: One_nat_def)

end
