(* ===== verification/Spec2Isabelle.thy ===== *)
theory Spec2Isabelle
  imports Url_Facts Dedup_Facts Dedup_Gate_Facts Dedup_Ops_Facts Dispatch_Facts Circuit_Facts
    Policy_Facts Canary_Facts Checkpoint_Facts Resume_Facts Opt_Rules_Facts Routing_Facts
    Leases_Facts Publish_Facts Publish_Cmd_Facts Sdk_Facts Linkcheck_Facts Validate_Facts
    Keepalive_Facts
begin

text \<open>
  A model of the publishing core of backlink-publisher, a pipeline that publishes link articles to
  third-party platforms. A payload row must be published at most once, through whichever adapter of
  its platform works, without hammering a platform that bans or fails, and a run that was
  interrupted must be resumable. The theories follow the modules of \<open>src/backlink_publisher\<close>.

  Foundations.
  \<^item> \<open>Py_Base\<close>: results of Python calls as sums (\<open>Inl\<close> an exception, \<open>Inr\<close> a value), strings, stable
    sorting, dicts in insertion order. \<open>Py_Json\<close>: parsed JSON, truthiness, JSON files with the ways
    they can be damaged, the environment (variables and clock), state passing with errors.
  \<^item> \<open>Errors\<close> (\<open>_util/errors.py\<close>): exception classes and their exit codes.
  \<^item> \<open>Url\<close>, \<open>Url_Facts\<close> (\<open>_util/url.py\<close>): canonicalisation is idempotent and keeps the meaning of
    the query, so the keys derived from URLs are stable.
  \<^item> \<open>Keyed\<close>: the contract of stores with one entry per key; operations on other keys do not matter.

  Deduplication (\<open>idempotency/*.py\<close>, \<open>cli/_dedup_gate.py\<close>, \<open>cli/_dedup_ops.py\<close>).
  \<^item> \<open>Sqlite_Util\<close>: transactions over a list of rows, the retry of a locked database under a list of
    faults. \<open>Dedup_Store\<close>: every operation of \<open>DedupStore\<close>.
  \<^item> \<open>Dedup_Machine\<close>: the state machine of one key as a step relation, the contract of a claim
    authority as a locale, and the store as an instance of both; \<open>Dedup_Facts\<close>: the refinement,
    single flight over whole runs, and the operations branch by branch.
  \<^item> \<open>Dedup_Gate\<close>, \<open>Dedup_Gate_Facts\<close>: the gate before a publish and the recording after it.
  \<^item> \<open>Dedup_Backfill\<close>, \<open>Dedup_Ops\<close>, \<open>Dedup_Ops_Facts\<close>: seeding from past events, the operator verbs.

  Publishing (\<open>publishing/\<close>).
  \<^item> \<open>Retry\<close>, \<open>Dispatch\<close>, \<open>Dispatch_Facts\<close>: error classes, bounded retries, the fallback along the
    adapter chain. Adapters are functions from a call to a result or an exception.
  \<^item> \<open>Circuit\<close>, \<open>Circuit_Facts\<close>: the circuit breaker file and the platform health store.
  \<^item> \<open>Policy\<close>, \<open>Policy_Facts\<close>: the reliability policy that wraps a dispatch.

  Runs.
  \<^item> \<open>Canary\<close>, \<open>Canary_Run\<close>, \<open>Canary_Facts\<close> (\<open>canary/store.py\<close>, \<open>cli/spray/canary_targets.py\<close>): the
    verdict streams and the quarantine they debounce.
  \<^item> \<open>Checkpoint\<close>, \<open>Checkpoint_Facts\<close> (\<open>checkpoint.py\<close>): one document per run.
  \<^item> \<open>Resume\<close>, \<open>Resume_Facts\<close> (\<open>cli/_resume.py\<close>): checkpoint, dedup gate, policy and canary together.
  \<^item> \<open>Leases\<close>, \<open>Leases_Facts\<close> (\<open>events/store.py\<close>, \<open>sdk/_publish_runtime.py\<close>): one row per platform that keeps
    two processes apart, and the two clients that take them.
  \<^item> \<open>Publish\<close>, \<open>Publish_Facts\<close> (\<open>cli/publish_backlinks/_engine.py\<close>, \<open>cli/_publish_helpers.py\<close>): the fresh
    publish loop; at most one dispatch per row and only through the gate, every row counted once,
    the exit code as a function of the counts.

  The publishers around the loop.
  \<^item> \<open>Jsonl\<close> (\<open>_util/jsonl.py\<close>): the readers of the input; the strict ones of the command and of the SDK
    agree up to lone carriage returns.
  \<^item> \<open>Schema\<close>, \<open>Schema_Facts\<close> (\<open>schema.py\<close>, \<open>_schema_output.py\<close>, \<open>_schema_input.py\<close>, \<open>_payload_types.py\<close>): the
    checks of a row, what an accepted row looks like, and what the typed model adds to the checks.
  \<^item> \<open>Publish_Cmd\<close>, \<open>Publish_Cmd_Facts\<close> (\<open>cli/publish_backlinks/__init__.py\<close>, \<open>cli/_publish_cli.py\<close>): the
    command around the loop; only validated rows on open platforms reach the loop, and a dry run
    changes nothing.
  \<^item> \<open>Sdk\<close>, \<open>Sdk_Facts\<close> (\<open>sdk/_publish_runtime.py\<close>, \<open>sdk/api.py\<close>): the same run inside a process; it agrees
    with the command in stores, rows, exit code and error, and gives its leases back.

  Weights and routing (\<open>optimization/*.py\<close>, \<open>publishing/registry.py\<close>, \<open>cli/publish/
  dispatch_backlinks.py\<close>).
  \<^item> \<open>Py_Float\<close>: how the code reads and rounds numbers; a number is a rational, so rounding errors of the
    arithmetic are not part of the model, the parsing and the exceptions are.
  \<^item> \<open>Optimization\<close>, \<open>Opt_Facts\<close> (\<open>optimization/state.py\<close>): the weight file behind a cache that hands
    out the cached object itself, so an update that fails to save is still visible.
  \<^item> \<open>Opt_Rules\<close>, \<open>Opt_Rules_Facts\<close> (\<open>optimization/rules.py\<close>, \<open>collector.py\<close>): the rules that move weights
    and the collection of the signals they read; every written weight stays in range.
  \<^item> \<open>Routing\<close>, \<open>Routing_Facts\<close>: registration gates, the dispatch weight and the choice of a platform.

  Validation and link checks (\<open>_validate_engine/*.py\<close>, \<open>linkcheck/*.py\<close>, \<open>anchor/lang.py\<close>).
  \<^item> \<open>Linkcheck\<close>, \<open>Linkcheck_Facts\<close> (\<open>linkcheck/http.py\<close>): the reachability check of a batch with its
    retries, the strict check, and one verdict per canonical URL. What a request is answered with is a
    function of the URL and the number of the attempt; threads finish in an order given by a function.
  \<^item> \<open>Lang\<close> (\<open>linkcheck/language.py\<close>, \<open>anchor/lang.py\<close>): the script of a text and the language of a body.
  \<^item> \<open>Validate\<close>, \<open>Validate_Facts\<close>: every gate of the validation engine. A row that passes meets all of
    them and is accepted by the publish stage; a row that fails has an error that names it.

  Keeping links alive (\<open>recheck/*.py\<close>, \<open>gap/engine.py\<close>, \<open>keepalive/*.py\<close>).
  \<^item> \<open>Recheck\<close>, \<open>Recheck_Facts\<close>: the verdict of a probe, the status of each target from the recheck
    events, and the links that are due for another look.
  \<^item> \<open>Gap\<close>, \<open>Gap_Facts\<close>: the seeds for targets that lack links, and for targets whose links died.
  \<^item> \<open>Keepalive\<close>, \<open>Keepalive_Facts\<close>: the cycle recheck, gap, publish, verify, and the file that counts
    the attempts of a target. A target that always fails is given up; a dry run publishes nothing.

  How they interact: validated rows go to the publish command or to the SDK runtime, which run the
  fresh loop under leases on the platforms of the rows. The resume loop asks the gate (dedup store)
  for a verdict, hands a granted row to the policy (circuit, health store), which hands it to the
  dispatcher (adapters, retry), and books the outcome in the dedup store, the canary store and the
  checkpoint; the fresh loop does the same. Published links are rechecked; the rechecks give the
  status of the targets, the gap planner turns dead links into seeds, and the keep-alive cycle has
  them published, counts the failures in its run state and books the outcome in the weight file,
  which the routing reads.

  State is passed explicitly in records; each file, table or log is one field. Code outside the
  repository (adapters' network calls, SHA-256, tomllib, the JSON and HTML parsers, Unicode normalisation, the IDNA
  codec) is a parameter of the definitions that use it. Loops over lists are structural recursion; the retry loops recurse on the attempts that are
  left, so their fuel is the limit in the code and no result depends on a fuel of the model.

  Not modelled: the web interface, planning and text generation, the adapters themselves, the event
  projection, TOML parsing, argument parsing and printing; they are glue, text or input and output
  around the parts above. Of the keep-alive parts, the network probe, the writers of recheck events and
  the gap finder over the event log are parameters or left out.
\<close>

end
